(* ===== verification/Prelude.thy ===== *)
theory Prelude
  imports Main "HOL-Library.Word" "HOL-Library.AList"
begin

text \<open>
  Shared vocabulary of the development: bytes, Python dictionaries as insertion-ordered
  association lists (\<open>AList.update\<close> overwrites in place or appends, exactly as assigning to a
  Python dict does), the slicing of a sequence into chunks, big-endian integers, and the
  interface of an invariant kept by a family of operations, which every stateful component of
  the library instantiates.
\<close>

named_theorems step_defs \<open>definitions of the operations of a stateful component\<close>
named_theorems inv_intros \<open>invariant preservation by single operations\<close>
named_theorems const_defs \<open>numeric constants of the program\<close>

type_synonym byte = "8 word"
type_synonym bytes = "byte list"

subsection \<open>Chunks of a sequence\<close>

text \<open>\<open>[xs[i : i + n] for i in range(0, len(xs), n)]\<close>.\<close>

function chunks :: "nat \<Rightarrow> 'a list \<Rightarrow> 'a list list" where
  "chunks n xs = (if n = 0 \<or> xs = [] then [] else take n xs # chunks n (drop n xs))"
  by pat_completeness auto
termination
  by (relation "measure (\<lambda>(n, xs). length xs)") auto

declare chunks.simps [simp del]

lemma chunks_Nil [simp]: "chunks n [] = []"
  by (subst chunks.simps) simp

lemma chunks_step: "0 < n \<Longrightarrow> xs \<noteq> [] \<Longrightarrow> chunks n xs = take n xs # chunks n (drop n xs)"
  by (subst chunks.simps) simp

lemma concat_chunks [simp]: "0 < n \<Longrightarrow> concat (chunks n xs) = xs"
proof (induction n xs rule: chunks.induct)
  case (1 n xs)
  then show ?case by (cases "xs = []") (simp_all add: chunks_step)
qed

lemma chunks_bounds: "c \<in> set (chunks n xs) \<Longrightarrow> 0 < length c \<and> length c \<le> n"
proof (induction n xs rule: chunks.induct)
  case (1 n xs)
  then show ?case
    by (cases "n = 0 \<or> xs = []") (auto simp: chunks.simps [of n xs])
qed

lemma chunks_eq_Nil [simp]: "0 < n \<Longrightarrow> chunks n xs = [] \<longleftrightarrow> xs = []"
  by (cases "xs = []") (simp_all add: chunks_step)

subsection \<open>Dictionaries in insertion order\<close>

type_synonym ('k, 'v) dict = "('k \<times> 'v) list"

abbreviation dget :: "('k, 'v) dict \<Rightarrow> 'k \<Rightarrow> 'v option" where
  "dget d k \<equiv> map_of d k"

abbreviation dset :: "'k \<Rightarrow> 'v \<Rightarrow> ('k, 'v) dict \<Rightarrow> ('k, 'v) dict" where
  "dset k v d \<equiv> AList.update k v d"

abbreviation ddel :: "'k \<Rightarrow> ('k, 'v) dict \<Rightarrow> ('k, 'v) dict" where
  "ddel k d \<equiv> AList.delete k d"

abbreviation dvalues :: "('k, 'v) dict \<Rightarrow> 'v list" where
  "dvalues d \<equiv> map snd d"

definition dict_ok :: "('k, 'v) dict \<Rightarrow> bool" where
  "dict_ok d \<longleftrightarrow> distinct (map fst d)"

lemma dict_ok_Nil [simp, intro]: "dict_ok []"
  by (simp add: dict_ok_def)

lemma dset_append: "dget d k = None \<Longrightarrow> dset k v d = d @ [(k, v)]"
  by (induction d) (auto split: if_splits)

lemma dict_ok_dset [simp, intro]: "dict_ok d \<Longrightarrow> dict_ok (dset k v d)"
  by (simp add: dict_ok_def distinct_update)

lemma dict_ok_ddel [simp, intro]: "dict_ok d \<Longrightarrow> dict_ok (ddel k d)"
  by (simp add: dict_ok_def distinct_delete)

lemma dget_dset [simp]: "dget (dset k v d) k' = (if k' = k then Some v else dget d k')"
  by (simp add: update_conv')

lemma dget_ddel [simp]: "dget (ddel k d) k' = (if k' = k then None else dget d k')"
  by (simp add: delete_conv')

lemma ddel_absent: "dget d k = None \<Longrightarrow> ddel k d = d"
  by (induction d) (auto split: if_splits)

lemma length_dset: "length (dset k v d) = (if dget d k = None then Suc (length d) else length d)"
  by (induction d) auto

lemma length_ddel_present:
  "dict_ok d \<Longrightarrow> dget d k \<noteq> None \<Longrightarrow> Suc (length (ddel k d)) = length d"
proof (induction d)
  case (Cons p d)
  then show ?case
    by (cases "fst p = k") (auto simp: dict_ok_def map_of_eq_None_iff ddel_absent)
qed simp

lemma dict_ok_values: "dict_ok d \<Longrightarrow> (k, v) \<in> set d \<longleftrightarrow> dget d k = Some v"
  by (auto simp: dict_ok_def map_of_is_SomeI dest: map_of_SomeD)

lemma set_dset:
  assumes "dict_ok d"
  shows "set (dset k v d) = insert (k, v) {p \<in> set d. fst p \<noteq> k}"
proof -
  have "(a, b) \<in> set (dset k v d) \<longleftrightarrow> (a, b) = (k, v) \<or> (a, b) \<in> set d \<and> a \<noteq> k" for a b
    using assms by (auto simp: dict_ok_values dict_ok_dset)
  then show ?thesis by auto
qed

lemma set_dset_subset: "set (dset k v d) \<subseteq> insert (k, v) (set d)"
  by (induction d) auto

lemma set_ddel: "set (ddel k d) = {p \<in> set d. fst p \<noteq> k}"
  by (induction d) auto

subsection \<open>Big-endian integers\<close>

text \<open>\<open>int.from_bytes(bs, "big")\<close> and \<open>n.to_bytes(w, "big")\<close>.\<close>

definition from_bytes_be :: "bytes \<Rightarrow> nat" where
  "from_bytes_be bs = foldl (\<lambda>acc b. acc * 256 + unat b) 0 bs"

primrec to_bytes_be :: "nat \<Rightarrow> nat \<Rightarrow> bytes" where
  "to_bytes_be 0 n = []"
| "to_bytes_be (Suc w) n = to_bytes_be w (n div 256) @ [word_of_nat (n mod 256)]"

lemma length_to_bytes_be [simp]: "length (to_bytes_be w n) = w"
  by (induction w arbitrary: n) simp_all

lemma from_bytes_be_snoc [simp]:
  "from_bytes_be (bs @ [b]) = from_bytes_be bs * 256 + unat b"
  by (simp add: from_bytes_be_def)

lemma from_bytes_be_Nil [simp]: "from_bytes_be [] = 0"
  by (simp add: from_bytes_be_def)

lemma unat_lt_256 [simp]: "unat (b :: byte) < 256"
  using unsigned_less [of b] by simp

lemma from_bytes_be_bound: "from_bytes_be bs < 256 ^ length bs"
proof (induction bs rule: rev_induct)
  case (snoc b bs)
  have "from_bytes_be bs * 256 + unat b < (from_bytes_be bs + 1) * 256"
    using unat_lt_256 [of b] by (simp add: algebra_simps)
  also have "\<dots> \<le> 256 ^ length bs * 256"
    using snoc.IH by (intro mult_le_mono1) simp
  finally show ?case by (simp add: ac_simps)
qed simp

lemma to_from_bytes_be: "to_bytes_be (length bs) (from_bytes_be bs) = bs"
proof (induction bs rule: rev_induct)
  case (snoc b bs)
  have "(from_bytes_be bs * 256 + unat b) div 256 = from_bytes_be bs"
    using unat_lt_256 [of b] by simp
  moreover have "(from_bytes_be bs * 256 + unat b) mod 256 = unat b"
    using unat_lt_256 [of b] by (simp add: mod_less)
  ultimately show ?case using snoc by simp
qed simp

lemma from_to_bytes_be: "n < 256 ^ w \<Longrightarrow> from_bytes_be (to_bytes_be w n) = n"
proof (induction w arbitrary: n)
  case (Suc w)
  then have "n div 256 < 256 ^ w" by (simp add: less_mult_imp_div_less mult.commute)
  then show ?case using Suc.IH by (simp add: unat_of_nat)
qed simp

subsection \<open>Results and effects\<close>

text \<open>A fallible computation is \<open>error + value\<close>; the continuation runs on a value only.\<close>

definition then_ok :: "'e + 'a \<Rightarrow> ('a \<Rightarrow> 'e + 'b) \<Rightarrow> 'e + 'b" where
  "then_ok r f = (case r of Inl e \<Rightarrow> Inl e | Inr x \<Rightarrow> f x)"

lemma then_ok_simps [simp]: "then_ok (Inl e) f = Inl e" "then_ok (Inr x) f = f x"
  by (simp_all add: then_ok_def)

lemma then_ok_Inr: "then_ok r f = Inr y \<longleftrightarrow> (\<exists>x. r = Inr x \<and> f x = Inr y)"
  by (cases r) simp_all

fun map_ok :: "('a \<Rightarrow> 'e + 'b) \<Rightarrow> 'a list \<Rightarrow> 'e + 'b list" where
  "map_ok f [] = Inr []"
| "map_ok f (x # xs) = then_ok (f x) (\<lambda>y. then_ok (map_ok f xs) (\<lambda>ys. Inr (y # ys)))"

lemma map_ok_map: "(\<And>x. x \<in> set xs \<Longrightarrow> f (g x) = Inr x) \<Longrightarrow> map_ok f (map g xs) = Inr xs"
  by (induction xs) simp_all

text \<open>A stateful step that may raise returns the state it leaves and whether it raised; the steps
  after a raise do not run.\<close>

definition after_ok :: "'s \<times> bool \<Rightarrow> ('s \<Rightarrow> 's \<times> bool) \<Rightarrow> 's \<times> bool" where
  "after_ok r f = (if snd r then r else f (fst r))"

fun run_all :: "('a \<Rightarrow> 's \<Rightarrow> 's \<times> bool) \<Rightarrow> 'a list \<Rightarrow> 's \<Rightarrow> 's \<times> bool" where
  "run_all f [] s = (s, False)"
| "run_all f (x # xs) s = after_ok (f x s) (run_all f xs)"

lemma run_all_inv:
  "(\<And>x s. P s \<Longrightarrow> P (fst (f x s))) \<Longrightarrow> P s \<Longrightarrow> P (fst (run_all f xs s))"
  by (induction xs arbitrary: s) (simp_all add: after_ok_def)

lemma after_ok_inv: "P (fst r) \<Longrightarrow> (\<And>s. P s \<Longrightarrow> P (fst (f s))) \<Longrightarrow> P (fst (after_ok r f))"
  by (simp add: after_ok_def)

subsection \<open>A table of values that carry their own key\<close>

locale keyed_table =
  fixes get :: "'s \<Rightarrow> 'k \<Rightarrow> 'v option"
    and put :: "'s \<Rightarrow> 'v \<Rightarrow> 's"
    and del :: "'s \<Rightarrow> 'k \<Rightarrow> 's"
    and key :: "'v \<Rightarrow> 'k"
  assumes get_put: "get (put s v) k = (if k = key v then Some v else get s k)"
    and get_del: "get (del s k') k = (if k = k' then None else get s k)"
begin

lemma get_put_all:
  "get (foldl put s vs) k =
     (case find (\<lambda>v. key v = k) (rev vs) of Some v \<Rightarrow> Some v | None \<Rightarrow> get s k)"
proof (induction vs rule: rev_induct)
  case (snoc v vs)
  then show ?case by (auto simp: get_put split: option.splits)
qed simp

lemma put_then_del: "get (del (put s v) (key v)) k = get (del s (key v)) k"
  by (simp add: get_put get_del)

lemma del_all: "get (foldl del s ks) k = (if k \<in> set ks then None else get s k)"
  by (induction ks arbitrary: s) (auto simp: get_del)

end

subsection \<open>Invariants kept by the operations of a component\<close>

text \<open>
  A component whose operations are the constructors of an event type and whose model of all of
  them is one step function. The provider proves that a single step keeps the invariant; a run of
  any length then keeps it too.
\<close>

locale invariant_machine =
  fixes step :: "'s \<Rightarrow> 'e \<Rightarrow> 's"
    and inv :: "'s \<Rightarrow> bool"
  assumes step_inv: "inv s \<Longrightarrow> inv (step s e)"
begin

lemma run_inv: "inv s \<Longrightarrow> inv (foldl step s es)"
  by (induction es arbitrary: s) (auto intro: step_inv)

lemma prefix_inv: "inv s \<Longrightarrow> es = pre @ post \<Longrightarrow> inv (foldl step s pre)"
  by (simp add: run_inv)

end

text \<open>A machine with a frame: a view of the state that no step changes.\<close>

locale framed_machine = invariant_machine step inv
  for step :: "'s \<Rightarrow> 'e \<Rightarrow> 's" and inv :: "'s \<Rightarrow> bool" +
  fixes view :: "'s \<Rightarrow> 'v"
  assumes step_view: "view (step s e) = view s"
begin

lemma run_view: "view (foldl step s es) = view s"
  by (induction es arbitrary: s) (simp_all add: step_view)

end

end
