(* ===== verification/Utf8.thy ===== *)
theory Utf8
  imports Prelude
begin

text \<open>
  The UTF-8 codec of Python's \<open>str.encode("utf-8")\<close> and strict \<open>bytes.decode("utf-8")\<close>. A Python
  string is a list of code points. Encoding a surrogate raises \<open>UnicodeEncodeError\<close>; decoding
  rejects overlong forms, surrogates, truncated sequences and stray continuation bytes
  (\<open>UnicodeDecodeError\<close>). Both errors are \<open>None\<close>.
\<close>

type_synonym pystr = "nat list"

definition surrogate :: "nat \<Rightarrow> bool" where
  "surrogate c \<longleftrightarrow> 0xD800 \<le> c \<and> c < 0xE000"

definition utf8_encode_cp :: "nat \<Rightarrow> nat list option" where
  "utf8_encode_cp c =
     (if c < 0x80 then Some [c]
      else if c < 0x800 then Some [0xC0 + c div 64, 0x80 + c mod 64]
      else if surrogate c then None
      else if c < 0x10000 then
        Some [0xE0 + c div 4096, 0x80 + c div 64 mod 64, 0x80 + c mod 64]
      else if c < 0x110000 then
        Some [0xF0 + c div 262144, 0x80 + c div 4096 mod 64, 0x80 + c div 64 mod 64,
              0x80 + c mod 64]
      else None)"

fun utf8_encode_nats :: "pystr \<Rightarrow> nat list option" where
  "utf8_encode_nats [] = Some []"
| "utf8_encode_nats (c # cs) =
     (case utf8_encode_cp c of None \<Rightarrow> None
      | Some bs \<Rightarrow> map_option ((@) bs) (utf8_encode_nats cs))"

definition is_cont :: "nat \<Rightarrow> bool" where
  "is_cont b \<longleftrightarrow> 0x80 \<le> b \<and> b < 0xC0"

fun utf8_decode_nats :: "nat list \<Rightarrow> pystr option" where
  "utf8_decode_nats [] = Some []"
| "utf8_decode_nats (b # bs) =
     (if b < 0x80 then map_option ((#) b) (utf8_decode_nats bs)
      else if 0xC2 \<le> b \<and> b < 0xE0 then
        (case bs of
           c1 # r \<Rightarrow>
             if is_cont c1 then map_option ((#) ((b - 0xC0) * 64 + (c1 - 0x80))) (utf8_decode_nats r)
             else None
         | _ \<Rightarrow> None)
      else if 0xE0 \<le> b \<and> b < 0xF0 then
        (case bs of
           c1 # c2 # r \<Rightarrow>
             (let v = (b - 0xE0) * 4096 + (c1 - 0x80) * 64 + (c2 - 0x80)
              in if is_cont c1 \<and> is_cont c2 \<and> 0x800 \<le> v \<and> \<not> surrogate v
                 then map_option ((#) v) (utf8_decode_nats r) else None)
         | _ \<Rightarrow> None)
      else if 0xF0 \<le> b \<and> b < 0xF5 then
        (case bs of
           c1 # c2 # c3 # r \<Rightarrow>
             (let v = (b - 0xF0) * 262144 + (c1 - 0x80) * 4096 + (c2 - 0x80) * 64 + (c3 - 0x80)
              in if is_cont c1 \<and> is_cont c2 \<and> is_cont c3 \<and> 0x10000 \<le> v \<and> v < 0x110000
                 then map_option ((#) v) (utf8_decode_nats r) else None)
         | _ \<Rightarrow> None)
      else None)"

declare utf8_decode_nats.simps(2) [simp del]

definition utf8_encode :: "pystr \<Rightarrow> bytes option" where
  "utf8_encode s = map_option (map word_of_nat) (utf8_encode_nats s)"

definition utf8_decode :: "bytes \<Rightarrow> pystr option" where
  "utf8_decode bs = utf8_decode_nats (map unat bs)"

lemma is_cont_low [simp]: "is_cont (0x80 + n mod 64)"
  by (simp add: is_cont_def less_imp_le_nat)

lemma utf8_encode_cp_bytes: "utf8_encode_cp c = Some bs \<Longrightarrow> b \<in> set bs \<Longrightarrow> b < 256"
proof -
  have m: "0x80 + n mod 64 < 256" for n :: nat
    using mod_less_divisor [of 64 n] by linarith
  assume "utf8_encode_cp c = Some bs" "b \<in> set bs"
  then show ?thesis
    by (auto simp: utf8_encode_cp_def m split: if_splits)
qed

lemma utf8_encode_nats_bytes: "utf8_encode_nats s = Some bs \<Longrightarrow> b \<in> set bs \<Longrightarrow> b < 256"
  by (induction s arbitrary: bs) (auto split: option.splits dest: utf8_encode_cp_bytes)

lemma decode_cp:
  assumes "utf8_encode_cp c = Some bs"
  shows "utf8_decode_nats (bs @ r) = map_option ((#) c) (utf8_decode_nats r)"
proof -
  have d2: "(c div 64) * 64 + c mod 64 = c" by simp
  have q: "c div 4096 = c div 64 div 64" "c div 262144 = c div 64 div 64 div 64"
    by (simp_all add: div_mult2_eq [symmetric])
  have step: "(n div 64 * (64 * k)) + n mod 64 * k = n * k" for n k :: nat
    by (metis distrib_right div_mult_mod_eq mult.assoc)
  have d3: "(c div 4096) * 4096 + (c div 64 mod 64) * 64 + c mod 64 = c"
    using step [of "c div 64" 64] step [of c 1] unfolding q by simp
  have d4: "(c div 262144) * 262144 + (c div 4096 mod 64) * 4096 + (c div 64 mod 64) * 64
      + c mod 64 = c"
    using step [of "c div 64 div 64" 4096] step [of "c div 64" 64] step [of c 1]
    unfolding q by simp
  consider "c < 0x80" | "0x80 \<le> c" "c < 0x800" | "0x800 \<le> c" "c < 0x10000" "\<not> surrogate c"
    | "0x10000 \<le> c" "c < 0x110000"
    using assms unfolding utf8_encode_cp_def by (meson leI option.distinct(1))
  then show ?thesis
  proof cases
    case 1
    with assms show ?thesis by (auto simp: utf8_encode_cp_def utf8_decode_nats.simps(2))
  next
    case 2
    then have "2 \<le> c div 64" "c div 64 < 32" by linarith+
    with 2 assms show ?thesis
      by (auto simp: utf8_encode_cp_def utf8_decode_nats.simps(2))
  next
    case 3
    then have "c div 4096 < 16" by linarith
    with 3 assms show ?thesis
      by (auto simp: utf8_encode_cp_def utf8_decode_nats.simps(2) d3 Let_def)
  next
    case 4
    then have "c div 262144 < 5" by linarith
    moreover have "\<not> surrogate c" using 4 by (simp add: surrogate_def)
    ultimately show ?thesis using 4 assms
      by (auto simp: utf8_encode_cp_def utf8_decode_nats.simps(2) d4 Let_def)
  qed
qed

lemma utf8_decode_encode_nats: "utf8_encode_nats s = Some bs \<Longrightarrow> utf8_decode_nats bs = Some s"
  by (induction s arbitrary: bs) (auto split: option.splits simp: decode_cp)

lemma utf8_roundtrip: "utf8_encode s = Some bs \<Longrightarrow> utf8_decode bs = Some s"
proof -
  assume "utf8_encode s = Some bs"
  then obtain ns where ns: "utf8_encode_nats s = Some ns" and bs: "bs = map word_of_nat ns"
    by (auto simp: utf8_encode_def)
  have "map (unat \<circ> (word_of_nat :: nat \<Rightarrow> byte)) ns = ns"
    using utf8_encode_nats_bytes [OF ns] by (intro map_idI) (simp add: unat_of_nat)
  with ns bs show ?thesis
    by (simp add: utf8_decode_def utf8_decode_encode_nats)
qed

end
