(* ===== verification/Wire.thy ===== *)
theory Wire
  imports Utf8
begin

unbundle bit_operations_syntax

text \<open>
  The encrypted WebSocket wrapper of \<open>aiosendspin/noise/wire.py\<close> with the constants of
  \<open>noise/constants.py\<close>: fragmentation of oversized plaintexts in the type-1 framing and in the
  legacy type-2/3 framing, the receive state machine that reassembles them, and the reserved
  type bytes. The Noise session is not under src/: its \<open>encrypt\<close> and \<open>decrypt\<close> are arguments
  \<open>enc\<close> and \<open>dec\<close> over an opaque session state (\<open>dec\<close> returns \<open>None\<close> where the library raises
  \<open>NoiseInvalidMessage\<close>).
\<close>

definition MSG_TYPE_JSON_BODY :: byte where "MSG_TYPE_JSON_BODY = 0"
definition MSG_TYPE_FRAGMENT :: byte where "MSG_TYPE_FRAGMENT = 1"
definition FRAGMENT_FLAG_LAST :: byte where "FRAGMENT_FLAG_LAST = 0x01"
definition FRAGMENT_FLAG_FIRST :: byte where "FRAGMENT_FLAG_FIRST = 0x02"
definition FRAGMENT_FLAGS_RESERVED :: byte where "FRAGMENT_FLAGS_RESERVED = 0xFC"
definition MSG_TYPE_FRAGMENT_MORE :: byte where "MSG_TYPE_FRAGMENT_MORE = 2"
definition MSG_TYPE_FRAGMENT_END :: byte where "MSG_TYPE_FRAGMENT_END = 3"
definition MAX_TRANSPORT_PLAINTEXT :: nat where "MAX_TRANSPORT_PLAINTEXT = 65535 - 16"
definition MAX_REASSEMBLED_MESSAGE_BYTES :: nat where
  "MAX_REASSEMBLED_MESSAGE_BYTES = 64 * 1024 * 1024"

lemmas wire_consts [const_defs] =
  MSG_TYPE_JSON_BODY_def MSG_TYPE_FRAGMENT_def FRAGMENT_FLAG_LAST_def FRAGMENT_FLAG_FIRST_def
  FRAGMENT_FLAGS_RESERVED_def MSG_TYPE_FRAGMENT_MORE_def MSG_TYPE_FRAGMENT_END_def

definition is_transport_binary_type :: "byte \<Rightarrow> bool" where
  "is_transport_binary_type b \<longleftrightarrow> b \<in> {MSG_TYPE_FRAGMENT, 2, 3}"

subsection \<open>Fragmentation\<close>

text \<open>\<open>_fragment\<close> and \<open>_fragment_legacy\<close>; both are called on an oversized (hence nonempty)
  plaintext only.\<close>

definition fragment_frame :: "nat \<Rightarrow> byte \<Rightarrow> nat \<times> bytes \<Rightarrow> bytes" where
  "fragment_frame last_index orig_type = (\<lambda>(index, chunk).
     let flags = if index = last_index then FRAGMENT_FLAG_LAST else 0;
         header = if index = 0
                  then [MSG_TYPE_FRAGMENT, flags OR FRAGMENT_FLAG_FIRST, orig_type]
                  else [MSG_TYPE_FRAGMENT, flags]
     in header @ chunk)"

definition fragment :: "bytes \<Rightarrow> bytes list" where
  "fragment plaintext =
     (let orig_type = hd plaintext;
          data = tl plaintext;
          first_cap = MAX_TRANSPORT_PLAINTEXT - 3;
          cont_cap = MAX_TRANSPORT_PLAINTEXT - 2;
          chs = take first_cap data # chunks cont_cap (drop first_cap data);
          last_index = length chs - 1
      in map (fragment_frame last_index orig_type) (enumerate 0 chs))"

definition legacy_frame :: "nat \<Rightarrow> nat \<times> bytes \<Rightarrow> bytes" where
  "legacy_frame last_index = (\<lambda>(index, chunk).
     (if index = last_index then MSG_TYPE_FRAGMENT_END else MSG_TYPE_FRAGMENT_MORE) # chunk)"

definition fragment_legacy :: "bytes \<Rightarrow> bytes list" where
  "fragment_legacy plaintext =
     (let orig_type = hd plaintext;
          data = tl plaintext;
          first_cap = MAX_TRANSPORT_PLAINTEXT - 2;
          cont_cap = MAX_TRANSPORT_PLAINTEXT - 1;
          rest = drop first_cap data;
          chs = chunks cont_cap rest;
          last_index = length chs - 1
      in ([MSG_TYPE_FRAGMENT_MORE, orig_type] @ take first_cap data)
         # map (legacy_frame last_index) (enumerate 0 chs))"

subsection \<open>The wrapper's state and its messages\<close>

text \<open>\<open>on_legacy_fragment\<close> is unset, or a callback that returns, or one that raises.\<close>

datatype legacy_cb = NoCallback | CallbackReturns | CallbackRaises

record 's ews =
  session :: 's
  reasm_buf :: "bytes option"
  reasm_type :: "byte option"
  reasm_legacy :: bool
  on_legacy_fragment :: legacy_cb
  legacy_notes :: nat
  legacy_fragment_framing :: bool

datatype close_kind = CLOSE | CLOSING | CLOSED

datatype raw_msg = RawClose close_kind | RawBinary bytes | RawError | RawOther

datatype wire_error =
    FrameFailedAuthentication
  | EmptyPlaintext
  | NonFragmentInFlight
  | UnexpectedFrame
  | MissingFlagsByte
  | ReservedBitsSet byte
  | FirstFragmentInFlight
  | MissingOrigType
  | OrigTypeIsFragment
  | ContinuationWithoutMessage
  | FragmentInsideLegacy
  | LegacyEndWithoutMessage
  | LegacyMissingOrigType
  | LegacyReservedOrigType byte
  | LegacyInsideFragmented
  | ReassemblyTooLarge

datatype ws_msg = MsgClose close_kind | MsgRawError | MsgText pystr | MsgBinary bytes
  | MsgError wire_error

text \<open>What decoding a frame does: wait for more frames, return a message, or raise.\<close>

datatype outcome = AwaitMore | Deliver ws_msg | RaiseUnicodeDecodeError | RaiseFromCallback

definition new_ews :: "'s \<Rightarrow> 's ews" where
  "new_ews s = \<lparr>session = s, reasm_buf = None, reasm_type = None, reasm_legacy = False,
     on_legacy_fragment = NoCallback, legacy_notes = 0, legacy_fragment_framing = False\<rparr>"

definition swap_session :: "('s \<Rightarrow> bool) \<Rightarrow> 's ews \<Rightarrow> 's \<Rightarrow> 's ews option" where
  "swap_session handshake_complete w new_session =
     (if \<not> handshake_complete new_session then None
      else Some (w\<lparr>session := new_session\<rparr>))"

definition start_reassembly :: "'s ews \<Rightarrow> byte \<Rightarrow> bool \<Rightarrow> 's ews" where
  "start_reassembly w orig_type legacy =
     w\<lparr>reasm_buf := Some [], reasm_type := Some orig_type, reasm_legacy := legacy\<rparr>"

definition reset_reassembly :: "'s ews \<Rightarrow> 's ews" where
  "reset_reassembly w = w\<lparr>reasm_buf := None, reasm_type := None, reasm_legacy := False\<rparr>"

definition wire_fail :: "'s ews \<Rightarrow> wire_error \<Rightarrow> 's ews \<times> outcome" where
  "wire_fail w e = (reset_reassembly w, Deliver (MsgError e))"

definition dispatch :: "bytes \<Rightarrow> outcome" where
  "dispatch plaintext =
     (if hd plaintext = MSG_TYPE_JSON_BODY
      then (case utf8_decode (tl plaintext) of
              None \<Rightarrow> RaiseUnicodeDecodeError
            | Some s \<Rightarrow> Deliver (MsgText s))
      else Deliver (MsgBinary plaintext))"

text \<open>\<open>_append_fragment\<close> asserts that a message is in flight; its callers ensure it.\<close>

definition append_fragment :: "'s ews \<Rightarrow> bytes \<Rightarrow> bool \<Rightarrow> 's ews \<times> outcome" where
  "append_fragment w data is_last =
     (let buf = the (reasm_buf w) in
      if length buf + length data > MAX_REASSEMBLED_MESSAGE_BYTES
      then wire_fail w ReassemblyTooLarge
      else let w' = w\<lparr>reasm_buf := Some (buf @ data)\<rparr> in
        if \<not> is_last then (w', AwaitMore)
        else (reset_reassembly w', dispatch (the (reasm_type w') # buf @ data)))"

definition on_fragment :: "'s ews \<Rightarrow> bytes \<Rightarrow> 's ews \<times> outcome" where
  "on_fragment w plaintext =
     (if length plaintext < 2 then wire_fail w MissingFlagsByte
      else let flags = plaintext ! 1; last = flags AND FRAGMENT_FLAG_LAST \<noteq> 0 in
        if flags AND FRAGMENT_FLAGS_RESERVED \<noteq> 0 then wire_fail w (ReservedBitsSet flags)
        else if flags AND FRAGMENT_FLAG_FIRST \<noteq> 0 then
          (if reasm_buf w \<noteq> None then wire_fail w FirstFragmentInFlight
           else if length plaintext < 3 then wire_fail w MissingOrigType
           else if plaintext ! 2 = MSG_TYPE_FRAGMENT then wire_fail w OrigTypeIsFragment
           else append_fragment (start_reassembly w (plaintext ! 2) False) (drop 3 plaintext) last)
        else if reasm_buf w = None then wire_fail w ContinuationWithoutMessage
        else if reasm_legacy w then wire_fail w FragmentInsideLegacy
        else append_fragment w (drop 2 plaintext) last)"

text \<open>The owner's \<open>on_legacy_fragment\<close> callback ran once more.\<close>

definition note_legacy :: "'s ews \<Rightarrow> 's ews" where
  "note_legacy w = w\<lparr>legacy_notes := Suc (legacy_notes w)\<rparr>"

definition on_legacy_fragment_frame :: "'s ews \<Rightarrow> bytes \<Rightarrow> 's ews \<times> outcome" where
  "on_legacy_fragment_frame w plaintext =
     (let last = plaintext ! 0 = MSG_TYPE_FRAGMENT_END in
      if reasm_buf w = None then
        (if last then wire_fail w LegacyEndWithoutMessage
         else if length plaintext < 2 then wire_fail w LegacyMissingOrigType
         else if is_transport_binary_type (plaintext ! 1)
         then wire_fail w (LegacyReservedOrigType (plaintext ! 1))
         else if on_legacy_fragment w = CallbackRaises then (w, RaiseFromCallback)
         else append_fragment
                (start_reassembly (note_legacy w) (plaintext ! 1) True)
                (drop 2 plaintext) False)
      else if \<not> reasm_legacy w then wire_fail w LegacyInsideFragmented
      else append_fragment w (drop 1 plaintext) last)"

definition on_plaintext :: "'s ews \<Rightarrow> bytes \<Rightarrow> 's ews \<times> outcome" where
  "on_plaintext w plaintext =
     (if plaintext = [] then wire_fail w EmptyPlaintext
      else let type_byte = plaintext ! 0 in
        if type_byte = MSG_TYPE_FRAGMENT then on_fragment w plaintext
        else if type_byte \<in> {MSG_TYPE_FRAGMENT_MORE, MSG_TYPE_FRAGMENT_END}
             \<and> on_legacy_fragment w \<noteq> NoCallback
        then on_legacy_fragment_frame w plaintext
        else if reasm_buf w \<noteq> None then wire_fail w NonFragmentInFlight
        else (w, dispatch plaintext))"

definition decode :: "('s \<Rightarrow> bytes \<Rightarrow> 's \<times> bytes option) \<Rightarrow> 's ews \<Rightarrow> raw_msg \<Rightarrow> 's ews \<times> outcome"
where
  "decode dec w msg =
     (case msg of
        RawClose k \<Rightarrow> (w, Deliver (MsgClose k))
      | RawBinary data \<Rightarrow>
          (case dec (session w) data of
             (s', None) \<Rightarrow> wire_fail (w\<lparr>session := s'\<rparr>) FrameFailedAuthentication
           | (s', Some plaintext) \<Rightarrow> on_plaintext (w\<lparr>session := s'\<rparr>) plaintext)
      | RawError \<Rightarrow> (w, Deliver MsgRawError)
      | RawOther \<Rightarrow> wire_fail w UnexpectedFrame)"

text \<open>\<open>receive\<close>: read frames until one yields a message or raises. The result carries the frames
  not read; running out of frames leaves the call waiting (\<open>AwaitMore\<close>).\<close>

fun receive :: "('s \<Rightarrow> bytes \<Rightarrow> 's \<times> bytes option) \<Rightarrow> 's ews \<Rightarrow> raw_msg list
    \<Rightarrow> 's ews \<times> outcome \<times> raw_msg list" where
  "receive dec w [] = (w, AwaitMore, [])"
| "receive dec w (m # ms) =
     (case decode dec w m of
        (w', AwaitMore) \<Rightarrow> receive dec w' ms
      | (w', out) \<Rightarrow> (w', out, ms))"

text \<open>\<open>receive_timed\<close>: also the clock reading taken when the last frame arrived.\<close>

fun receive_timed :: "('s \<Rightarrow> bytes \<Rightarrow> 's \<times> bytes option) \<Rightarrow> 's ews \<Rightarrow> (raw_msg \<times> int) list
    \<Rightarrow> 's ews \<times> outcome \<times> int option \<times> (raw_msg \<times> int) list" where
  "receive_timed dec w [] = (w, AwaitMore, None, [])"
| "receive_timed dec w ((m, now_us) # ms) =
     (case decode dec w m of
        (w', AwaitMore) \<Rightarrow> receive_timed dec w' ms
      | (w', out) \<Rightarrow> (w', out, Some now_us, ms))"

text \<open>\<open>__anext__\<close>: a close message ends the iteration (\<open>StopAsyncIteration\<close> is \<open>None\<close>).\<close>

definition anext :: "('s \<Rightarrow> bytes \<Rightarrow> 's \<times> bytes option) \<Rightarrow> 's ews \<Rightarrow> raw_msg list
    \<Rightarrow> 's ews \<times> outcome option \<times> raw_msg list" where
  "anext dec w ms =
     (case receive dec w ms of
        (w', Deliver (MsgClose k), rest) \<Rightarrow> (w', None, rest)
      | (w', out, rest) \<Rightarrow> (w', Some out, rest))"

subsection \<open>Sending\<close>

fun encrypt_all :: "('s \<Rightarrow> bytes \<Rightarrow> 's \<times> bytes) \<Rightarrow> 's \<Rightarrow> bytes list \<Rightarrow> 's \<times> raw_msg list" where
  "encrypt_all enc s [] = (s, [])"
| "encrypt_all enc s (p # ps) =
     (let (s', c) = enc s p; (s'', cs) = encrypt_all enc s' ps in (s'', RawBinary c # cs))"

definition plaintext_frames :: "bool \<Rightarrow> bytes \<Rightarrow> bytes list" where
  "plaintext_frames legacy plaintext =
     (if length plaintext \<le> MAX_TRANSPORT_PLAINTEXT then [plaintext]
      else (if legacy then fragment_legacy else fragment) plaintext)"

definition send_plaintext :: "('s \<Rightarrow> bytes \<Rightarrow> 's \<times> bytes) \<Rightarrow> 's ews \<Rightarrow> bytes
    \<Rightarrow> 's ews \<times> raw_msg list" where
  "send_plaintext enc w plaintext =
     (case encrypt_all enc (session w) (plaintext_frames (legacy_fragment_framing w) plaintext) of
        (s', frames) \<Rightarrow> (w\<lparr>session := s'\<rparr>, frames))"

datatype send_error = MissingTypeByte | ReservedType byte | UnicodeEncodeError

definition send_bytes :: "('s \<Rightarrow> bytes \<Rightarrow> 's \<times> bytes) \<Rightarrow> 's ews \<Rightarrow> bytes
    \<Rightarrow> send_error + ('s ews \<times> raw_msg list)" where
  "send_bytes enc w data =
     (if data = [] then Inl MissingTypeByte
      else if is_transport_binary_type (hd data) then Inl (ReservedType (hd data))
      else Inr (send_plaintext enc w data))"

definition send_str :: "('s \<Rightarrow> bytes \<Rightarrow> 's \<times> bytes) \<Rightarrow> 's ews \<Rightarrow> pystr
    \<Rightarrow> send_error + ('s ews \<times> raw_msg list)" where
  "send_str enc w text =
     (case utf8_encode text of
        None \<Rightarrow> Inl UnicodeEncodeError
      | Some body \<Rightarrow> Inr (send_plaintext enc w (MSG_TYPE_JSON_BODY # body)))"

lemmas wire_step_defs [step_defs] =
  start_reassembly_def reset_reassembly_def wire_fail_def append_fragment_def on_fragment_def
  on_legacy_fragment_frame_def on_plaintext_def

subsection \<open>The reassembly buffer\<close>

text \<open>What holds of the reassembly fields between two frames: type and buffer are set together, the
  legacy flag is only set while a message is in flight, and the buffer is bounded.\<close>

definition reasm_ok :: "'s ews \<Rightarrow> bool" where
  "reasm_ok w \<longleftrightarrow>
     (reasm_buf w = None \<longleftrightarrow> reasm_type w = None) \<and>
     (reasm_buf w = None \<longrightarrow> \<not> reasm_legacy w) \<and>
     (case reasm_buf w of None \<Rightarrow> True | Some b \<Rightarrow> length b \<le> MAX_REASSEMBLED_MESSAGE_BYTES)"

lemma reasm_ok_reset [simp]: "reasm_ok (reset_reassembly w)"
  by (simp add: reasm_ok_def reset_reassembly_def)

lemma reasm_ok_session [simp]: "reasm_ok (w\<lparr>session := s\<rparr>) = reasm_ok w"
  by (simp add: reasm_ok_def)

lemma reasm_ok_new [simp]: "reasm_ok (new_ews s)"
  by (simp add: reasm_ok_def new_ews_def)

lemma reasm_ok_append:
  "reasm_type w \<noteq> None \<Longrightarrow> reasm_ok (fst (append_fragment w data is_last))"
  by (auto simp: append_fragment_def wire_fail_def Let_def reasm_ok_def reset_reassembly_def)

lemma reasm_ok_on_plaintext: "reasm_ok w \<Longrightarrow> reasm_ok (fst (on_plaintext w p))"
proof -
  assume ok: "reasm_ok w"
  have buf: "reasm_buf w \<noteq> None \<Longrightarrow> reasm_type w \<noteq> None"
    using ok unfolding reasm_ok_def by auto
  have start: "reasm_ok (fst (append_fragment (start_reassembly v t l) d b))" for v :: "'a ews" and t l d b
    by (rule reasm_ok_append) (simp add: start_reassembly_def)
  have "reasm_ok (fst (on_fragment w p))"
    using ok buf by (auto simp: on_fragment_def wire_fail_def Let_def start intro!: reasm_ok_append)
  moreover have "reasm_ok (fst (on_legacy_fragment_frame w p))"
    using ok buf
    by (auto simp: on_legacy_fragment_frame_def wire_fail_def Let_def start intro!: reasm_ok_append)
  ultimately show ?thesis
    using ok by (simp add: on_plaintext_def wire_fail_def Let_def)
qed

lemma reasm_ok_decode [inv_intros]: "reasm_ok w \<Longrightarrow> reasm_ok (fst (decode dec w m))"
  by (auto simp: decode_def wire_fail_def reasm_ok_on_plaintext
      split: raw_msg.splits prod.splits option.splits)

interpretation wire_rx: invariant_machine "\<lambda>w m. fst (decode dec w m)" reasm_ok
  for dec :: "'s \<Rightarrow> bytes \<Rightarrow> 's \<times> bytes option"
  by unfold_locales (rule reasm_ok_decode)

lemma decode_error_resets:
  "decode dec w m = (w', Deliver (MsgError e)) \<Longrightarrow> reasm_buf w' = None \<and> reasm_type w' = None"
proof -
  have rr: "reasm_buf (reset_reassembly v) = None \<and> reasm_type (reset_reassembly v) = None"
    for v :: "'a ews"
    by (simp add: reset_reassembly_def)
  have disp: "dispatch p \<noteq> Deliver (MsgError e)" for p e
    by (auto simp: dispatch_def split: option.splits)
  have app: "append_fragment v d l = (v', Deliver (MsgError e)) \<Longrightarrow>
      reasm_buf v' = None \<and> reasm_type v' = None" for v v' :: "'a ews" and d l e
    by (auto simp: append_fragment_def wire_fail_def Let_def rr disp split: if_splits)
  assume "decode dec w m = (w', Deliver (MsgError e))"
  then show ?thesis
    by (auto simp: decode_def on_plaintext_def on_fragment_def on_legacy_fragment_frame_def
        wire_fail_def Let_def rr disp
        dest!: app split: raw_msg.splits prod.splits option.splits if_splits)
qed

subsection \<open>Feeding plaintext frames\<close>

text \<open>\<open>receive\<close> on frames already decrypted.\<close>

fun feed :: "'s ews \<Rightarrow> bytes list \<Rightarrow> 's ews \<times> outcome \<times> bytes list" where
  "feed w [] = (w, AwaitMore, [])"
| "feed w (p # ps) =
     (case on_plaintext w p of
        (w', AwaitMore) \<Rightarrow> feed w' ps
      | (w', out) \<Rightarrow> (w', out, ps))"

abbreviation with_session :: "'s \<Rightarrow> 's ews \<times> outcome \<Rightarrow> 's ews \<times> outcome" where
  "with_session s r \<equiv> map_prod (\<lambda>w. w\<lparr>session := s\<rparr>) id r"

lemma reset_session: "reset_reassembly (w\<lparr>session := s\<rparr>) = (reset_reassembly w)\<lparr>session := s\<rparr>"
  by (simp add: reset_reassembly_def)

lemma start_session:
  "start_reassembly (w\<lparr>session := s\<rparr>) t l = (start_reassembly w t l)\<lparr>session := s\<rparr>"
  by (simp add: start_reassembly_def)

lemma note_session: "note_legacy (w\<lparr>session := s\<rparr>) = (note_legacy w)\<lparr>session := s\<rparr>"
  by (simp add: note_legacy_def)

lemma fail_session: "wire_fail (w\<lparr>session := s\<rparr>) e = with_session s (wire_fail w e)"
  by (simp add: wire_fail_def reset_session)

lemma append_session:
  "append_fragment (w\<lparr>session := s\<rparr>) d l = with_session s (append_fragment w d l)"
  by (simp add: append_fragment_def wire_fail_def reset_reassembly_def Let_def)

lemmas session_commutes = start_session fail_session append_session
  if_distrib [where f = "map_prod f id" for f]

lemma on_fragment_session:
  "on_fragment (w\<lparr>session := s\<rparr>) p = with_session s (on_fragment w p)"
  by (simp add: on_fragment_def Let_def session_commutes cong: if_cong)

lemma on_legacy_session:
  "on_legacy_fragment_frame (w\<lparr>session := s\<rparr>) p = with_session s (on_legacy_fragment_frame w p)"
  by (simp add: on_legacy_fragment_frame_def Let_def note_session session_commutes cong: if_cong)

lemma on_plaintext_session:
  "on_plaintext (w\<lparr>session := s\<rparr>) p = with_session s (on_plaintext w p)"
  by (simp add: on_plaintext_def Let_def session_commutes on_fragment_session on_legacy_session
      cong: if_cong)

lemma feed_session:
  "feed (w\<lparr>session := s\<rparr>) ps = map_prod (\<lambda>w. w\<lparr>session := s\<rparr>) id (feed w ps)"
proof (induction ps arbitrary: w)
  case (Cons p ps)
  obtain w1 o1 where "on_plaintext w p = (w1, o1)" by fastforce
  then show ?case
    by (cases o1) (simp_all add: on_plaintext_session Cons.IH)
qed simp

lemma dispatch_not_AwaitMore [simp]: "dispatch p \<noteq> AwaitMore"
  by (auto simp: dispatch_def split: option.splits)

lemma case_dispatch: "(case dispatch p of AwaitMore \<Rightarrow> x | _ \<Rightarrow> y) = y"
  by (cases "dispatch p") (use dispatch_not_AwaitMore in auto)

text \<open>What the transport library documents: a ciphertext made by one end of a session pair is
  decrypted by the other end to the plaintext, and the pair stays in step.\<close>

definition sessions_in_step ::
  "('s \<Rightarrow> bytes \<Rightarrow> 's \<times> bytes) \<Rightarrow> ('r \<Rightarrow> bytes \<Rightarrow> 'r \<times> bytes option) \<Rightarrow> ('s \<Rightarrow> 'r \<Rightarrow> bool) \<Rightarrow> bool"
where
  "sessions_in_step enc dec sync \<longleftrightarrow>
     (\<forall>a b p. sync a b \<and> length p \<le> MAX_TRANSPORT_PLAINTEXT \<longrightarrow>
        (\<exists>b'. dec b (snd (enc a p)) = (b', Some p) \<and> sync (fst (enc a p)) b'))"

lemma receive_encrypt_all:
  assumes lib: "sessions_in_step enc dec sync"
    and "sync a (session w)"
    and "\<forall>p\<in>set ps. length p \<le> MAX_TRANSPORT_PLAINTEXT"
    and "feed w ps = (w', out, [])" and "out \<noteq> AwaitMore"
  shows "\<exists>b'. receive dec w (snd (encrypt_all enc a ps)) = (w'\<lparr>session := b'\<rparr>, out, [])
    \<and> sync (fst (encrypt_all enc a ps)) b'"
  using assms(2-)
proof (induction ps arbitrary: a w w')
  case Nil
  then show ?case by simp
next
  case (Cons p ps)
  obtain a1 c where enc: "enc a p = (a1, c)" by fastforce
  obtain b1 where dec: "dec (session w) c = (b1, Some p)" and sync: "sync a1 b1"
    using lib Cons.prems enc by (fastforce simp: sessions_in_step_def)
  obtain w1 o1 where on: "on_plaintext w p = (w1, o1)" by fastforce
  have step: "decode dec w (RawBinary c) = (w1\<lparr>session := b1\<rparr>, o1)"
    by (simp add: decode_def dec on_plaintext_session on)
  show ?case
  proof (cases "o1 = AwaitMore")
    case True
    with Cons.prems on have f: "feed w1 ps = (w', out, [])" by simp
    have "feed (w1\<lparr>session := b1\<rparr>) ps = (w'\<lparr>session := b1\<rparr>, out, [])"
      by (simp add: feed_session f)
    moreover obtain s2 fs where "encrypt_all enc a1 ps = (s2, fs)" by fastforce
    ultimately show ?thesis
      using Cons.IH [of a1 "w1\<lparr>session := b1\<rparr>" "w'\<lparr>session := b1\<rparr>"] Cons.prems(2,4) sync
        True step enc by simp
  next
    case False
    with Cons.prems on have "w1 = w'" "o1 = out" "ps = []"
      by (auto split: outcome.splits)
    with False show ?thesis
      using step enc sync by (auto split: outcome.splits)
  qed
qed

subsection \<open>A framing: what the sender promises the receiver\<close>

lemma reset_idle: "reasm_ok w \<Longrightarrow> reasm_buf w = None \<Longrightarrow> reset_reassembly w = w"
  by (cases w) (simp add: reasm_ok_def reset_reassembly_def)

lemma feed_whole:
  "p \<noteq> [] \<Longrightarrow> \<not> is_transport_binary_type (hd p) \<Longrightarrow> reasm_buf w = None \<Longrightarrow>
     feed w [p] = (w, dispatch p, [])"
  by (cases p; cases "dispatch p")
    (auto simp: on_plaintext_def is_transport_binary_type_def wire_consts dispatch_not_AwaitMore
      simp del: dispatch_not_AwaitMore dest: dispatch_not_AwaitMore [THEN notE])

locale framing =
  fixes frames :: "bytes \<Rightarrow> bytes list"
    and accepts :: "'s ews \<Rightarrow> bool"
    and noted :: "'s ews \<Rightarrow> 's ews"
  assumes frames_fit:
      "MAX_TRANSPORT_PLAINTEXT < length p \<Longrightarrow> f \<in> set (frames p) \<Longrightarrow>
         length f \<le> MAX_TRANSPORT_PLAINTEXT"
    and feed_frames:
      "accepts w \<Longrightarrow> reasm_buf w = None \<Longrightarrow> MAX_TRANSPORT_PLAINTEXT < length p \<Longrightarrow>
         length p \<le> Suc MAX_REASSEMBLED_MESSAGE_BYTES \<Longrightarrow> \<not> is_transport_binary_type (hd p) \<Longrightarrow>
         feed w (frames p) = (noted (reset_reassembly w), dispatch p, [])"
    and noted_buf: "reasm_buf (noted w) = reasm_buf w"
begin

definition sent_frames :: "bytes \<Rightarrow> bytes list" where
  "sent_frames p = (if length p \<le> MAX_TRANSPORT_PLAINTEXT then [p] else frames p)"

lemma sent_frames_fit: "f \<in> set (sent_frames p) \<Longrightarrow> length f \<le> MAX_TRANSPORT_PLAINTEXT"
  by (auto simp: sent_frames_def not_le intro: frames_fit split: if_splits)

lemma delivered:
  assumes lib: "sessions_in_step enc dec sync" and sync: "sync a (session w)"
    and rx: "accepts w" "reasm_buf w = None"
    and p: "p \<noteq> []" "\<not> is_transport_binary_type (hd p)"
      "length p \<le> Suc MAX_REASSEMBLED_MESSAGE_BYTES"
  shows "\<exists>w'. receive dec w (snd (encrypt_all enc a (sent_frames p))) = (w', dispatch p, []) \<and>
    sync (fst (encrypt_all enc a (sent_frames p))) (session w') \<and> reasm_buf w' = None"
proof -
  obtain w' where f: "feed w (sent_frames p) = (w', dispatch p, [])" "reasm_buf w' = None"
  proof (cases "length p \<le> MAX_TRANSPORT_PLAINTEXT")
    case True
    then show ?thesis
      using that [of w] feed_whole [OF p(1,2) rx(2)] rx by (simp add: sent_frames_def)
  next
    case False
    then have "feed w (sent_frames p) = (noted (reset_reassembly w), dispatch p, [])"
      using feed_frames [OF rx] p by (simp add: sent_frames_def)
    then show ?thesis
      using that [of "noted (reset_reassembly w)"] by (simp add: noted_buf reset_reassembly_def)
  qed
  from receive_encrypt_all [OF lib sync _ f(1)] sent_frames_fit
  obtain b' where "receive dec w (snd (encrypt_all enc a (sent_frames p)))
      = (w'\<lparr>session := b'\<rparr>, dispatch p, [])"
    "sync (fst (encrypt_all enc a (sent_frames p))) b'"
    by fastforce
  with f(2) show ?thesis by (intro exI [of _ "w'\<lparr>session := b'\<rparr>"]) simp
qed

end

subsection \<open>The type-1 framing\<close>

lemma append_fragment_more:
  "reasm_buf w = Some buf \<Longrightarrow> length buf + length d \<le> MAX_REASSEMBLED_MESSAGE_BYTES \<Longrightarrow>
     append_fragment w d False = (w\<lparr>reasm_buf := Some (buf @ d)\<rparr>, AwaitMore)"
  by (simp add: append_fragment_def)

lemma append_fragment_last:
  "reasm_buf w = Some buf \<Longrightarrow> reasm_type w = Some t \<Longrightarrow>
     length buf + length d \<le> MAX_REASSEMBLED_MESSAGE_BYTES \<Longrightarrow>
     append_fragment w d True = (reset_reassembly w, dispatch (t # buf @ d))"
  by (simp add: append_fragment_def reset_reassembly_def Let_def)

lemma on_plaintext_tail:
  "reasm_buf w \<noteq> None \<Longrightarrow> \<not> reasm_legacy w \<Longrightarrow> 0 < k \<Longrightarrow>
     on_plaintext w (fragment_frame l t (k, c)) = append_fragment w c (k = l)"
  by (auto simp: on_plaintext_def on_fragment_def fragment_frame_def wire_consts)

lemma on_plaintext_head:
  "reasm_buf w = None \<Longrightarrow> t \<noteq> MSG_TYPE_FRAGMENT \<Longrightarrow>
     on_plaintext w (fragment_frame l t (0, c))
       = append_fragment (start_reassembly w t False) c (0 = l)"
  by (auto simp: on_plaintext_def on_fragment_def fragment_frame_def wire_consts)

lemma feed_single:
  "on_plaintext w p = (w', out) \<Longrightarrow> feed w [p] = (w', out, [])"
  by (cases out) auto

lemma feed_tail:
  assumes "reasm_buf w = Some buf" "reasm_type w = Some t" "\<not> reasm_legacy w" "chs \<noteq> []" "0 < k"
    "length buf + length (concat chs) \<le> MAX_REASSEMBLED_MESSAGE_BYTES" "l = k + length chs - 1"
  shows "feed w (map (fragment_frame l t) (enumerate k chs))
    = (reset_reassembly w, dispatch (t # buf @ concat chs), [])"
  using assms
proof (induction chs arbitrary: w buf k)
  case (Cons c cs)
  show ?case
  proof (cases "cs = []")
    case True
    with Cons.prems have "on_plaintext w (fragment_frame l t (k, c))
        = (reset_reassembly w, dispatch (t # buf @ c))"
      by (simp add: on_plaintext_tail append_fragment_last)
    from feed_single [OF this] True show ?thesis by simp
  next
    case False
    let ?w = "w\<lparr>reasm_buf := Some (buf @ c)\<rparr>"
    from False Cons.prems have "k \<noteq> l" by (cases cs) auto
    with Cons.prems have "on_plaintext w (fragment_frame l t (k, c)) = (?w, AwaitMore)"
      by (simp add: on_plaintext_tail append_fragment_more)
    moreover have "feed ?w (map (fragment_frame l t) (enumerate (Suc k) cs))
        = (reset_reassembly ?w, dispatch (t # (buf @ c) @ concat cs), [])"
      using False Cons.prems by (intro Cons.IH) auto
    ultimately show ?thesis by (simp add: reset_reassembly_def)
  qed
qed simp

lemma feed_fragment:
  assumes "reasm_buf w = None" "MAX_TRANSPORT_PLAINTEXT < length p"
    "length p \<le> Suc MAX_REASSEMBLED_MESSAGE_BYTES" "hd p \<noteq> MSG_TYPE_FRAGMENT"
  shows "feed w (fragment p) = (reset_reassembly w, dispatch p, [])"
proof -
  obtain t d where p: "p = t # d" using assms(2) by (cases p) auto
  define c where "c = take (MAX_TRANSPORT_PLAINTEXT - 3) d"
  define cs where "cs = chunks (MAX_TRANSPORT_PLAINTEXT - 2) (drop (MAX_TRANSPORT_PLAINTEXT - 3) d)"
  have d: "d = c @ concat cs"
    by (simp add: c_def cs_def MAX_TRANSPORT_PLAINTEXT_def)
  have ne: "cs \<noteq> []"
    using assms(2) p by (simp add: cs_def MAX_TRANSPORT_PLAINTEXT_def)
  let ?w = "w\<lparr>reasm_buf := Some c, reasm_type := Some t, reasm_legacy := False\<rparr>"
  have len: "length c + length (concat cs) \<le> MAX_REASSEMBLED_MESSAGE_BYTES"
    using assms(3) p d by simp
  have "on_plaintext w (fragment_frame (length cs) t (0, c)) = (?w, AwaitMore)"
    using assms(1,4) p ne len
    by (simp add: on_plaintext_head append_fragment_more [where buf = "[]"] start_reassembly_def)
  moreover have "feed ?w (map (fragment_frame (length cs) t) (enumerate 1 cs))
      = (reset_reassembly ?w, dispatch (t # c @ concat cs), [])"
    by (rule feed_tail) (use ne len in auto)
  moreover have "fragment p = map (fragment_frame (length cs) t) (enumerate 0 (c # cs))"
    by (simp add: fragment_def p c_def cs_def Let_def)
  ultimately show ?thesis
    using p d by (simp add: reset_reassembly_def)
qed

lemma length_fragment_frame:
  "length (fragment_frame l t (i, c)) = (if i = 0 then 3 else 2) + length c"
  by (simp add: fragment_frame_def Let_def)

lemma in_enumerate_Cons:
  "(i, c) \<in> set (enumerate 0 (x # xs)) \<Longrightarrow> i = 0 \<and> c = x \<or> 0 < i \<and> c \<in> set xs"
  by (cases i) (auto simp: in_set_enumerate_eq)

lemma fragment_fits:
  assumes "f \<in> set (fragment p)"
  shows "length f \<le> MAX_TRANSPORT_PLAINTEXT"
proof -
  let ?c = "take (MAX_TRANSPORT_PLAINTEXT - 3) (tl p)"
  let ?cs = "chunks (MAX_TRANSPORT_PLAINTEXT - 2) (drop (MAX_TRANSPORT_PLAINTEXT - 3) (tl p))"
  obtain i c where f: "f = fragment_frame (length ?cs) (hd p) (i, c)"
    and ic: "(i, c) \<in> set (enumerate 0 (?c # ?cs))"
    using assms by (auto simp: fragment_def Let_def simp del: enumerate_simps)
  from in_enumerate_Cons [OF ic] show ?thesis
    unfolding f length_fragment_frame
    using chunks_bounds [of c "MAX_TRANSPORT_PLAINTEXT - 2"]
    by (auto simp: MAX_TRANSPORT_PLAINTEXT_def dest: chunks_bounds)
qed

interpretation type1: framing fragment "\<lambda>w. True" "\<lambda>w. w"
proof unfold_locales
  fix p f :: bytes assume "f \<in> set (fragment p)"
  then show "length f \<le> MAX_TRANSPORT_PLAINTEXT" by (rule fragment_fits)
next
  fix w :: "'s ews" and p
  assume "reasm_buf w = None" "MAX_TRANSPORT_PLAINTEXT < length p"
    "length p \<le> Suc MAX_REASSEMBLED_MESSAGE_BYTES" "\<not> is_transport_binary_type (hd p)"
  then show "feed w (fragment p) = (reset_reassembly w, dispatch p, [])"
    by (intro feed_fragment) (auto simp: is_transport_binary_type_def)
qed simp

subsection \<open>The legacy framing\<close>

lemma on_plaintext_legacy_tail:
  "reasm_buf w \<noteq> None \<Longrightarrow> reasm_legacy w \<Longrightarrow> on_legacy_fragment w \<noteq> NoCallback \<Longrightarrow>
     on_plaintext w (legacy_frame l (k, c)) = append_fragment w c (k = l)"
  by (auto simp: on_plaintext_def on_legacy_fragment_frame_def legacy_frame_def wire_consts)

lemma feed_legacy_tail:
  assumes "reasm_buf w = Some buf" "reasm_type w = Some t" "reasm_legacy w" "chs \<noteq> []"
    "on_legacy_fragment w \<noteq> NoCallback"
    "length buf + length (concat chs) \<le> MAX_REASSEMBLED_MESSAGE_BYTES" "l = k + length chs - 1"
  shows "feed w (map (legacy_frame l) (enumerate k chs))
    = (reset_reassembly w, dispatch (t # buf @ concat chs), [])"
  using assms
proof (induction chs arbitrary: w buf k)
  case (Cons c cs)
  show ?case
  proof (cases "cs = []")
    case True
    with Cons.prems have "on_plaintext w (legacy_frame l (k, c))
        = (reset_reassembly w, dispatch (t # buf @ c))"
      by (simp add: on_plaintext_legacy_tail append_fragment_last)
    from feed_single [OF this] True show ?thesis by simp
  next
    case False
    let ?w = "w\<lparr>reasm_buf := Some (buf @ c)\<rparr>"
    from False Cons.prems have "k \<noteq> l" by (cases cs) auto
    with Cons.prems have "on_plaintext w (legacy_frame l (k, c)) = (?w, AwaitMore)"
      by (simp add: on_plaintext_legacy_tail append_fragment_more)
    moreover have "feed ?w (map (legacy_frame l) (enumerate (Suc k) cs))
        = (reset_reassembly ?w, dispatch (t # (buf @ c) @ concat cs), [])"
      using False Cons.prems by (intro Cons.IH) auto
    ultimately show ?thesis by (simp add: reset_reassembly_def)
  qed
qed simp

lemma feed_fragment_legacy:
  assumes "reasm_buf w = None" "on_legacy_fragment w = CallbackReturns"
    "MAX_TRANSPORT_PLAINTEXT < length p"
    "length p \<le> Suc MAX_REASSEMBLED_MESSAGE_BYTES" "\<not> is_transport_binary_type (hd p)"
  shows "feed w (fragment_legacy p) = (note_legacy (reset_reassembly w), dispatch p, [])"
proof -
  obtain t d where p: "p = t # d" using assms(3) by (cases p) auto
  define c where "c = take (MAX_TRANSPORT_PLAINTEXT - 2) d"
  define cs where "cs = chunks (MAX_TRANSPORT_PLAINTEXT - 1) (drop (MAX_TRANSPORT_PLAINTEXT - 2) d)"
  have d: "d = c @ concat cs"
    by (simp add: c_def cs_def MAX_TRANSPORT_PLAINTEXT_def)
  have ne: "cs \<noteq> []"
    using assms(3) p by (simp add: cs_def MAX_TRANSPORT_PLAINTEXT_def)
  let ?w = "(start_reassembly (note_legacy w) t True)\<lparr>reasm_buf := Some c\<rparr>"
  have len: "length c + length (concat cs) \<le> MAX_REASSEMBLED_MESSAGE_BYTES"
    using assms(4) p d by simp
  have "on_plaintext w (MSG_TYPE_FRAGMENT_MORE # t # c) = (?w, AwaitMore)"
    using assms(1,2,5) p ne len
    by (simp add: on_plaintext_def on_legacy_fragment_frame_def wire_consts
        append_fragment_more [where buf = "[]"] start_reassembly_def)
  moreover have "feed ?w (map (legacy_frame (length cs - 1)) (enumerate 0 cs))
      = (reset_reassembly ?w, dispatch (t # c @ concat cs), [])"
    by (rule feed_legacy_tail)
      (use ne len assms(2) in \<open>auto simp: start_reassembly_def note_legacy_def\<close>)
  moreover have "fragment_legacy p = (MSG_TYPE_FRAGMENT_MORE # t # c)
      # map (legacy_frame (length cs - 1)) (enumerate 0 cs)"
    by (simp add: fragment_legacy_def p c_def cs_def Let_def)
  ultimately show ?thesis
    using p d by (simp add: reset_reassembly_def start_reassembly_def note_legacy_def)
qed

lemma fragment_legacy_fits:
  assumes "f \<in> set (fragment_legacy p)"
  shows "length f \<le> MAX_TRANSPORT_PLAINTEXT"
proof -
  let ?cs = "chunks (MAX_TRANSPORT_PLAINTEXT - 1) (drop (MAX_TRANSPORT_PLAINTEXT - 2) (tl p))"
  consider "f = [MSG_TYPE_FRAGMENT_MORE, hd p] @ take (MAX_TRANSPORT_PLAINTEXT - 2) (tl p)"
    | i c where "f = legacy_frame (length ?cs - 1) (i, c)" "(i, c) \<in> set (enumerate 0 ?cs)"
    using assms by (auto simp: fragment_legacy_def Let_def)
  then show ?thesis
  proof cases
    case 2
    then have "c \<in> set ?cs" by (auto simp: in_set_enumerate_eq)
    with 2(1) show ?thesis
      using chunks_bounds [of c "MAX_TRANSPORT_PLAINTEXT - 1"]
      by (fastforce simp: legacy_frame_def MAX_TRANSPORT_PLAINTEXT_def)
  qed (simp add: MAX_TRANSPORT_PLAINTEXT_def)
qed

interpretation legacy: framing fragment_legacy "\<lambda>w. on_legacy_fragment w = CallbackReturns"
  note_legacy
proof unfold_locales
  fix p f :: bytes assume "f \<in> set (fragment_legacy p)"
  then show "length f \<le> MAX_TRANSPORT_PLAINTEXT" by (rule fragment_legacy_fits)
next
  fix w :: "'s ews" and p
  assume "on_legacy_fragment w = CallbackReturns" "reasm_buf w = None"
    "MAX_TRANSPORT_PLAINTEXT < length p"
    "length p \<le> Suc MAX_REASSEMBLED_MESSAGE_BYTES" "\<not> is_transport_binary_type (hd p)"
  then show "feed w (fragment_legacy p) = (note_legacy (reset_reassembly w), dispatch p, [])"
    by (intro feed_fragment_legacy)
qed (simp add: note_legacy_def)

subsection \<open>End to end\<close>

text \<open>The two ends agree on the framing: legacy frames are sent only to a receiver that opted in.\<close>

definition framing_agreed :: "'s ews \<Rightarrow> 'r ews \<Rightarrow> bool" where
  "framing_agreed tx rx \<longleftrightarrow>
     (legacy_fragment_framing tx \<longrightarrow> on_legacy_fragment rx = CallbackReturns)"

lemma plaintext_frames_eq:
  "plaintext_frames l p = (if l then legacy.sent_frames p else type1.sent_frames p)"
  by (simp add: plaintext_frames_def legacy.sent_frames_def type1.sent_frames_def)

lemma send_plaintext_delivered:
  assumes "sessions_in_step enc dec sync" "sync (session tx) (session rx)"
    "framing_agreed tx rx" "reasm_buf rx = None"
    "p \<noteq> []" "\<not> is_transport_binary_type (hd p)" "length p \<le> Suc MAX_REASSEMBLED_MESSAGE_BYTES"
    "send_plaintext enc tx p = (tx', frames)"
  shows "\<exists>rx'. receive dec rx frames = (rx', dispatch p, []) \<and>
    sync (session tx') (session rx') \<and> reasm_buf rx' = None"
proof -
  let ?fs = "plaintext_frames (legacy_fragment_framing tx) p"
  have "\<exists>rx'. receive dec rx (snd (encrypt_all enc (session tx) ?fs)) = (rx', dispatch p, []) \<and>
      sync (fst (encrypt_all enc (session tx) ?fs)) (session rx') \<and> reasm_buf rx' = None"
    using assms legacy.delivered [OF assms(1,2)] type1.delivered [OF assms(1,2)]
    by (simp add: plaintext_frames_eq framing_agreed_def)
  with assms(8) show ?thesis
    by (auto simp: send_plaintext_def split: prod.splits)
qed

text \<open>C25. A text sent over the encrypted channel arrives whole: whatever its size up to the
  reassembly bound, and whichever framing the two ends agreed on, feeding the frames that
  \<open>send_str\<close> produced to an idle receiver makes \<open>receive\<close> return exactly that text after the last
  frame, leaves no partial message behind and keeps the two Noise sessions in step.\<close>

theorem send_str_received:
  assumes "sessions_in_step enc dec sync" and "sync (session tx) (session rx)"
    and "framing_agreed tx rx" and "reasm_buf rx = None"
    and "utf8_encode text = Some body" and "length body \<le> MAX_REASSEMBLED_MESSAGE_BYTES"
    and "send_str enc tx text = Inr (tx', frames)"
  shows "\<exists>rx'. receive dec rx frames = (rx', Deliver (MsgText text), []) \<and>
    sync (session tx') (session rx') \<and> reasm_buf rx' = None"
proof -
  have "dispatch (MSG_TYPE_JSON_BODY # body) = Deliver (MsgText text)"
    by (simp add: dispatch_def utf8_roundtrip [OF assms(5)])
  then show ?thesis
    using send_plaintext_delivered [OF assms(1-4), of "MSG_TYPE_JSON_BODY # body" tx' frames] assms(5-7)
    by (simp add: send_str_def is_transport_binary_type_def wire_consts)
qed

definition counting_enc :: "nat \<Rightarrow> bytes \<Rightarrow> nat \<times> bytes" where
  "counting_enc n p = (Suc n, word_of_nat n # p)"

definition counting_dec :: "nat \<Rightarrow> bytes \<Rightarrow> nat \<times> bytes option" where
  "counting_dec n c =
     (case c of [] \<Rightarrow> (n, None)
      | b # p \<Rightarrow> if b = word_of_nat n then (Suc n, Some p) else (n, None))"

lemma counting_in_step: "sessions_in_step counting_enc counting_dec (=)"
  by (simp add: sessions_in_step_def counting_enc_def counting_dec_def)

theorem send_str_received_witness:
  "\<exists>rx'. receive counting_dec (new_ews 7)
       (snd (send_plaintext counting_enc (new_ews 7) [0, 0x68, 0x69]))
     = (rx', Deliver (MsgText [0x68, 0x69]), []) \<and> session rx' = 8"
proof -
  have e: "utf8_encode [0x68, 0x69] = Some [0x68, 0x69]"
    by (simp add: utf8_encode_def utf8_encode_cp_def)
  have s: "send_str counting_enc (new_ews 7) [0x68, 0x69]
      = Inr (send_plaintext counting_enc (new_ews 7) [0, 0x68, 0x69])"
    by (simp add: send_str_def e MSG_TYPE_JSON_BODY_def)
  have t: "send_plaintext counting_enc (new_ews 7) [0, 0x68, 0x69]
      = ((new_ews 7)\<lparr>session := 8\<rparr>, [RawBinary [7, 0, 0x68, 0x69]])"
    by (simp add: send_plaintext_def plaintext_frames_def new_ews_def counting_enc_def
        MAX_TRANSPORT_PLAINTEXT_def)
  show ?thesis
    using send_str_received [OF counting_in_step, of "new_ews 7" "new_ews 7" "[0x68, 0x69]" "[0x68, 0x69]"
        "(new_ews 7)\<lparr>session := 8\<rparr>" "[RawBinary [7, 0, 0x68, 0x69]]"] e s t
    by (auto simp: framing_agreed_def new_ews_def MAX_REASSEMBLED_MESSAGE_BYTES_def)
qed

text \<open>The same for binary payloads, the oversized ones included: \<open>send_bytes\<close> refuses an empty
  payload and the reserved leading types, and everything else is delivered unchanged (type 0, the
  JSON body, apart, which the receiver reads as text).\<close>

theorem send_bytes_received:
  assumes "sessions_in_step enc dec sync" and "sync (session tx) (session rx)"
    and "framing_agreed tx rx" and "reasm_buf rx = None"
    and "length data \<le> Suc MAX_REASSEMBLED_MESSAGE_BYTES" and "hd data \<noteq> MSG_TYPE_JSON_BODY"
    and "send_bytes enc tx data = Inr (tx', frames)"
  shows "\<exists>rx'. receive dec rx frames = (rx', Deliver (MsgBinary data), []) \<and>
    sync (session tx') (session rx') \<and> reasm_buf rx' = None"
proof -
  have "dispatch data = Deliver (MsgBinary data)"
    using assms(6) by (simp add: dispatch_def)
  then show ?thesis
    using send_plaintext_delivered [OF assms(1-4), of data tx' frames] assms(5,7)
    by (auto simp: send_bytes_def split: if_splits)
qed

theorem send_bytes_received_witness:
  "\<exists>tx' frames rx'. send_bytes counting_enc (new_ews 0) (4 # replicate 70000 9) = Inr (tx', frames)
     \<and> receive counting_dec (new_ews 0) frames = (rx', Deliver (MsgBinary (4 # replicate 70000 9)), [])"
proof -
  let ?d = "4 # replicate 70000 9 :: bytes"
  obtain tx' frames where s: "send_bytes counting_enc (new_ews 0) ?d = Inr (tx', frames)"
    by (cases "send_plaintext counting_enc (new_ews 0) ?d")
      (simp add: send_bytes_def is_transport_binary_type_def MSG_TYPE_FRAGMENT_def)
  have "length ?d \<le> Suc MAX_REASSEMBLED_MESSAGE_BYTES"
    by (simp add: MAX_REASSEMBLED_MESSAGE_BYTES_def)
  with send_bytes_received [OF counting_in_step, of "new_ews 0" "new_ews 0" ?d tx' frames] s
  show ?thesis
    by (auto simp: framing_agreed_def new_ews_def MSG_TYPE_JSON_BODY_def)
qed

text \<open>What happens to a receiver in the life of a connection: a frame arrives, its owner opts into or out
  of the legacy fragments (\<open>_setup_connection\<close> of \<open>server/connection.py\<close> sets the callback), into the legacy
  framing, or swaps the session after a re-handshake.\<close>

datatype 's wire_op = FrameArrives raw_msg | SetLegacyCallback legacy_cb | SetLegacyFraming bool | SwapSession 's

fun wire_step :: "('s \<Rightarrow> bytes \<Rightarrow> 's \<times> bytes option) \<Rightarrow> ('s \<Rightarrow> bool) \<Rightarrow> 's ews \<Rightarrow> 's wire_op \<Rightarrow> 's ews" where
  "wire_step dec complete w (FrameArrives m) = fst (decode dec w m)"
| "wire_step dec complete w (SetLegacyCallback cb) = w\<lparr>on_legacy_fragment := cb\<rparr>"
| "wire_step dec complete w (SetLegacyFraming b) = w\<lparr>legacy_fragment_framing := b\<rparr>"
| "wire_step dec complete w (SwapSession s) = (case swap_session complete w s of None \<Rightarrow> w | Some w' \<Rightarrow> w')"

lemma reasm_ok_wire_step: "reasm_ok w \<Longrightarrow> reasm_ok (wire_step dec complete w x)"
proof (cases x)
  case (SetLegacyCallback cb)
  then show "reasm_ok w \<Longrightarrow> ?thesis" by (simp add: reasm_ok_def)
next
  case (SetLegacyFraming b)
  then show "reasm_ok w \<Longrightarrow> ?thesis" by (simp add: reasm_ok_def)
qed (simp_all add: reasm_ok_decode swap_session_def)

interpretation wire_life: invariant_machine "wire_step dec complete" reasm_ok
  for dec :: "'s \<Rightarrow> bytes \<Rightarrow> 's \<times> bytes option" and complete
  by unfold_locales (rule reasm_ok_wire_step)

text \<open>C37. Whatever frames a peer sends, however they decrypt, whether and when the legacy fragments are
  enabled and however often the session is swapped, the reassembly buffer never exceeds 64 MiB, is there
  exactly while a message is in flight, and its legacy flag never outlives that message.\<close>

theorem reassembly_always_bounded:
  "case reasm_buf (foldl (wire_step dec complete) (new_ews s) ops) of
     None \<Rightarrow> reasm_type (foldl (wire_step dec complete) (new_ews s) ops) = None
       \<and> \<not> reasm_legacy (foldl (wire_step dec complete) (new_ews s) ops)
   | Some b \<Rightarrow> reasm_type (foldl (wire_step dec complete) (new_ews s) ops) \<noteq> None
       \<and> length b \<le> 64 * 1024 * 1024"
  using wire_life.run_inv [where dec = dec and complete = complete and es = ops, OF reasm_ok_new [of s]]
  by (auto simp: reasm_ok_def MAX_REASSEMBLED_MESSAGE_BYTES_def split: option.splits)

text \<open>The legacy path is live: with the callback set, two legacy fragments are reassembled, in between
  holding the buffer.\<close>

lemma legacy_path_reachable:
  "reasm_legacy (foldl (wire_step (\<lambda>s c. (s, Some c)) (\<lambda>_. True)) (new_ews ())
     [SetLegacyCallback CallbackReturns, FrameArrives (RawBinary [2, 4, 9])])"
  by (simp add: decode_def new_ews_def on_plaintext_def on_legacy_fragment_frame_def wire_consts
      start_reassembly_def note_legacy_def append_fragment_def MAX_REASSEMBLED_MESSAGE_BYTES_def Let_def is_transport_binary_type_def)

text \<open>Every frame the sender hands to Noise fits one Noise transport message, under both
  framings.\<close>

theorem frames_fit_transport:
  "list_all (\<lambda>f. length f \<le> MAX_TRANSPORT_PLAINTEXT) (plaintext_frames legacy p)"
  by (auto simp: plaintext_frames_eq list_all_iff legacy.sent_frames_fit type1.sent_frames_fit)

text \<open>A protocol violation never leaves half a message behind: when a frame is answered with an
  ERROR message, the receiver holds no reassembly state afterwards.\<close>

theorem wire_error_discards_reassembly:
  "decode dec w m = (w', Deliver (MsgError e)) \<Longrightarrow> reasm_buf w' = None \<and> reasm_type w' = None"
  by (rule decode_error_resets)

theorem wire_error_discards_reassembly_witness:
  "reasm_buf (fst (decode (\<lambda>s c. (s, Some c)) ((new_ews ())\<lparr>reasm_buf := Some [1, 2],
      reasm_type := Some 4\<rparr>) (RawBinary [1, 4]))) = None"
proof -
  let ?w = "(new_ews ())\<lparr>reasm_buf := Some [1, 2], reasm_type := Some 4\<rparr>"
  have "decode (\<lambda>s c. (s, Some c)) ?w (RawBinary [1, 4])
      = (reset_reassembly ?w, Deliver (MsgError (ReservedBitsSet 4)))"
    by (simp add: decode_def new_ews_def on_plaintext_def on_fragment_def wire_consts wire_fail_def)
  from wire_error_discards_reassembly [OF this] this show ?thesis by simp
qed

end
