(* ===== verification/Json.thy ===== *)
theory Json
  imports Complex_Main Prelude
begin

text \<open>
  Parsed JSON documents and the checked readers of \<open>noise/trust_store.py\<close> (\<open>_section\<close>,
  \<open>_object\<close>, \<open>_bool\<close>, \<open>_str\<close>, \<open>_str_list\<close>, \<open>_opt_str\<close>). An object is an association list in
  file order; reading and printing the text of a document is the library's.
\<close>

datatype json =
    JNull
  | JBool bool
  | JInt int
  | JFloat rat
  | JStr string
  | JList "json list"
  | JObj "(string \<times> json) list"

type_synonym jobj = "(string, json) dict"

datatype load_error =
    KeyError string
  | TypeError string
  | ValueError string
  | UnknownPairMethodError string

definition read_bool :: "jobj \<Rightarrow> string \<Rightarrow> bool option \<Rightarrow> load_error + bool" where
  "read_bool data key dflt =
     (case (dget data key, dflt) of
        (None, None) \<Rightarrow> Inl (KeyError key)
      | (None, Some b) \<Rightarrow> Inr b
      | (Some (JBool b), _) \<Rightarrow> Inr b
      | (Some _, _) \<Rightarrow> Inl (TypeError key))"

definition read_str :: "jobj \<Rightarrow> string \<Rightarrow> load_error + string" where
  "read_str data key =
     (case dget data key of
        None \<Rightarrow> Inl (KeyError key)
      | Some (JStr s) \<Rightarrow> Inr s
      | Some _ \<Rightarrow> Inl (TypeError key))"

definition read_opt_str :: "jobj \<Rightarrow> string \<Rightarrow> load_error + string option" where
  "read_opt_str data key =
     (case dget data key of
        None \<Rightarrow> Inr None
      | Some JNull \<Rightarrow> Inr None
      | Some (JStr s) \<Rightarrow> Inr (Some s)
      | Some _ \<Rightarrow> Inl (TypeError key))"

definition read_list :: "jobj \<Rightarrow> string \<Rightarrow> load_error + json list" where
  "read_list data key =
     (case dget data key of
        None \<Rightarrow> Inr []
      | Some (JList xs) \<Rightarrow> Inr xs
      | Some _ \<Rightarrow> Inl (TypeError key))"

definition item_str :: "string \<Rightarrow> json \<Rightarrow> load_error + string" where
  "item_str key item = (case item of JStr s \<Rightarrow> Inr s | _ \<Rightarrow> Inl (TypeError key))"

definition read_str_list :: "jobj \<Rightarrow> string \<Rightarrow> load_error + string list" where
  "read_str_list data key = then_ok (read_list data key) (map_ok (item_str key))"

definition read_object :: "jobj \<Rightarrow> string \<Rightarrow> load_error + jobj" where
  "read_object data key =
     (case dget data key of Some (JObj d) \<Rightarrow> Inr d | _ \<Rightarrow> Inl (TypeError key))"

definition read_section :: "jobj \<Rightarrow> string \<Rightarrow> load_error + (string \<times> jobj) list" where
  "read_section data key =
     (case dget data key of
        None \<Rightarrow> Inr []
      | Some (JObj entries) \<Rightarrow>
          map_ok (\<lambda>(k, entry). case entry of JObj d \<Rightarrow> Inr (k, d) | _ \<Rightarrow> Inl (TypeError key)) entries
      | Some _ \<Rightarrow> Inl (TypeError key))"

definition opt_json :: "string option \<Rightarrow> json" where
  "opt_json v = (case v of None \<Rightarrow> JNull | Some s \<Rightarrow> JStr s)"

lemmas json_reads = read_bool_def read_str_def read_opt_str_def read_list_def read_str_list_def
  read_object_def

lemma map_ok_section [simp]:
  "map_ok (\<lambda>(k, entry). case entry of JObj d \<Rightarrow> Inr (k, d) | _ \<Rightarrow> Inl (TypeError key))
     (map (\<lambda>(k, v). (k, JObj (f v))) xs) = Inr (map (\<lambda>(k, v). (k, f v)) xs)"
  by (induction xs) auto

lemma map_ok_strs [simp]: "map_ok (item_str key) (map JStr ss) = Inr ss"
  by (induction ss) (simp_all add: item_str_def)

end
