(* ===== verification/Encoding.thy ===== *)
theory Encoding
  imports Prelude
begin

text \<open>
  The parts of Python's standard library that the key and token modules use: \<open>str\<close> predicates on
  Latin-1 characters, digits in a base, base64 (the lenient decoder of \<open>binascii.a2b_base64\<close>
  behind \<open>urlsafe_b64decode\<close>) and base32 (\<open>base64.b32encode\<close> and \<open>b32decode\<close>, as written in
  CPython). \<open>None\<close> is \<open>ValueError\<close> (\<open>binascii.Error\<close> is one).
\<close>

subsection \<open>Characters\<close>

abbreviation ord :: "char \<Rightarrow> nat" where "ord c \<equiv> of_char c"

definition isascii :: "string \<Rightarrow> bool" where
  "isascii s \<longleftrightarrow> list_all (\<lambda>c. ord c < 128) s"

text \<open>\<open>str.isdigit\<close>: besides the ASCII digits, Latin-1 holds three superscript digits.\<close>

definition isdigit :: "string \<Rightarrow> bool" where
  "isdigit s \<longleftrightarrow> s \<noteq> [] \<and>
     list_all (\<lambda>c. 48 \<le> ord c \<and> ord c \<le> 57 \<or> ord c \<in> {0xB2, 0xB3, 0xB9}) s"

definition is_space :: "char \<Rightarrow> bool" where
  "is_space c \<longleftrightarrow> 9 \<le> ord c \<and> ord c \<le> 13 \<or> 28 \<le> ord c \<and> ord c \<le> 32 \<or>
     ord c = 0x85 \<or> ord c = 0xA0"

definition strip :: "string \<Rightarrow> string" where
  "strip s = rev (dropWhile is_space (rev (dropWhile is_space s)))"

definition rstrip_char :: "char \<Rightarrow> string \<Rightarrow> string" where
  "rstrip_char c s = rev (dropWhile ((=) c) (rev s))"

definition upper_ascii_char :: "char \<Rightarrow> char" where
  "upper_ascii_char c = (if 97 \<le> ord c \<and> ord c \<le> 122 then char_of (ord c - 32) else c)"

text \<open>\<open>str.upper\<close> of an ASCII string.\<close>

definition upper_ascii :: "string \<Rightarrow> string" where
  "upper_ascii = map upper_ascii_char"

definition replace_char :: "char \<Rightarrow> char \<Rightarrow> string \<Rightarrow> string" where
  "replace_char a b = map (\<lambda>c. if c = a then b else c)"

definition removeprefix :: "string \<Rightarrow> string \<Rightarrow> string" where
  "removeprefix p s = (if take (length p) s = p then drop (length p) s else s)"

lemma dropWhile_prefix:
  "\<forall>y\<in>set ys. P y \<Longrightarrow> xs \<noteq> [] \<Longrightarrow> \<not> P (hd xs) \<Longrightarrow> dropWhile P (ys @ xs) = xs"
  by (induction ys) (auto simp: neq_Nil_conv)

lemma rstrip_char_append:
  assumes "\<forall>x\<in>set s. x \<noteq> c"
  shows "rstrip_char c (s @ replicate n c) = s"
proof (cases "s = []")
  case True
  then show ?thesis by (simp add: rstrip_char_def dropWhile_eq_Nil_conv)
next
  case False
  then have "dropWhile ((=) c) (replicate n c @ rev s) = rev s"
    using assms by (intro dropWhile_prefix) (auto simp: hd_rev)
  then show ?thesis by (simp add: rstrip_char_def)
qed

lemma strip_surrounded:
  assumes "list_all is_space u" "list_all is_space v"
    and "s \<noteq> []" "\<not> is_space (hd s)" "\<not> is_space (last s)"
  shows "strip (u @ s @ v) = s"
proof -
  have "dropWhile is_space (u @ s @ v) = s @ v"
    using assms by (intro dropWhile_prefix) (auto simp: list_all_iff)
  moreover have "dropWhile is_space (rev v @ rev s) = rev s"
    using assms by (intro dropWhile_prefix) (auto simp: list_all_iff hd_rev)
  ultimately show ?thesis by (simp add: strip_def)
qed

lemma strip_id: "s \<noteq> [] \<Longrightarrow> \<not> is_space (hd s) \<Longrightarrow> \<not> is_space (last s) \<Longrightarrow> strip s = s"
  using strip_surrounded [of "[]" "[]" s] by simp

lemma upper_ascii_idem: "list_all (\<lambda>c. \<not> (97 \<le> ord c \<and> ord c \<le> 122)) s \<Longrightarrow> upper_ascii s = s"
  by (auto simp: upper_ascii_def upper_ascii_char_def list_all_iff intro!: map_idI)

subsection \<open>Digits in a base\<close>

primrec to_digits :: "nat \<Rightarrow> nat \<Rightarrow> nat \<Rightarrow> nat list" where
  "to_digits b 0 n = []"
| "to_digits b (Suc w) n = to_digits b w (n div b) @ [n mod b]"

definition from_digits :: "nat \<Rightarrow> nat list \<Rightarrow> nat" where
  "from_digits b ds = foldl (\<lambda>acc d. acc * b + d) 0 ds"

lemma to_digits_numeral:
  "to_digits b (numeral k) n = to_digits b (pred_numeral k) (n div b) @ [n mod b]"
  by (simp add: numeral_eq_Suc)

lemma length_to_digits [simp]: "length (to_digits b w n) = w"
  by (induction w arbitrary: n) simp_all

lemma from_to_digits: "from_digits b (to_digits b w n) = n mod b ^ w"
proof (induction w arbitrary: n)
  case (Suc w)
  have "from_digits b (to_digits b (Suc w) n) = (n div b mod b ^ w) * b + n mod b"
    by (simp add: from_digits_def Suc.IH [unfolded from_digits_def])
  also have "\<dots> = n mod b ^ Suc w"
    by (simp add: mod_mult2_eq mult.commute)
  finally show ?case .
qed (simp add: from_digits_def)

lemma take_to_digits: "m \<le> w \<Longrightarrow> take m (to_digits b w n) = to_digits b m (n div b ^ (w - m))"
proof (induction w arbitrary: n)
  case (Suc w)
  show ?case
  proof (cases "m = Suc w")
    case False
    with Suc.prems have "m \<le> w" by simp
    with Suc.IH [of "n div b"] show ?thesis
      by (simp add: Suc_diff_le div_mult2_eq)
  qed simp
qed simp

lemma to_digits_bound: "0 < b \<Longrightarrow> d \<in> set (to_digits b w n) \<Longrightarrow> d < b"
  by (induction w arbitrary: n) auto

subsection \<open>Base64\<close>

definition b64_char :: "nat \<Rightarrow> char" where
  "b64_char n = (if n < 26 then char_of (65 + n) else if n < 52 then char_of (71 + n)
     else if n < 62 then char_of (n - 4) else if n = 62 then CHR ''-'' else CHR ''_'')"

text \<open>The decoder's table, after \<open>-\<close> and \<open>_\<close> are translated to \<open>+\<close> and \<open>/\<close>.\<close>

definition b64_val :: "char \<Rightarrow> nat option" where
  "b64_val c =
     (let n = ord c in
      if 65 \<le> n \<and> n \<le> 90 then Some (n - 65)
      else if 97 \<le> n \<and> n \<le> 122 then Some (n - 71)
      else if 48 \<le> n \<and> n \<le> 57 then Some (n + 4)
      else if c \<in> {CHR ''-'', CHR ''+''} then Some 62
      else if c \<in> {CHR ''_'', CHR ''/''} then Some 63
      else None)"

fun urlsafe_b64encode :: "bytes \<Rightarrow> string" where
  "urlsafe_b64encode [] = []"
| "urlsafe_b64encode [a] =
     [b64_char (unat a div 4), b64_char (unat a mod 4 * 16), CHR ''='', CHR ''='']"
| "urlsafe_b64encode [a, b] =
     [b64_char (unat a div 4), b64_char (unat a mod 4 * 16 + unat b div 16),
      b64_char (unat b mod 16 * 4), CHR ''='']"
| "urlsafe_b64encode (a # b # c # r) =
     [b64_char (unat a div 4), b64_char (unat a mod 4 * 16 + unat b div 16),
      b64_char (unat b mod 16 * 4 + unat c div 64), b64_char (unat c mod 64)]
     @ urlsafe_b64encode r"

text \<open>\<open>binascii.a2b_base64\<close>, not strict: \<open>q\<close> counts the characters of the current quad, \<open>l\<close> holds
  the bits left over, \<open>p\<close> the padding seen. Characters outside the alphabet are skipped; padding
  that completes a quad ends the input.\<close>

fun a2b_base64 :: "nat \<Rightarrow> nat \<Rightarrow> nat \<Rightarrow> string \<Rightarrow> bytes option" where
  "a2b_base64 q l p [] = (if q = 0 then Some [] else None)"
| "a2b_base64 q l p (c # cs) =
     (if c = CHR ''='' then
        (if 2 \<le> q then (if 4 \<le> q + Suc p then Some [] else a2b_base64 q l (Suc p) cs)
         else a2b_base64 q l p cs)
      else case b64_val c of
        None \<Rightarrow> a2b_base64 q l p cs
      | Some v \<Rightarrow>
          if q = 0 then a2b_base64 1 v 0 cs
          else if q = 1 then
            map_option ((#) (word_of_nat (l * 4 + v div 16))) (a2b_base64 2 (v mod 16) 0 cs)
          else if q = 2 then
            map_option ((#) (word_of_nat (l * 16 + v div 4))) (a2b_base64 3 (v mod 4) 0 cs)
          else map_option ((#) (word_of_nat (l * 64 + v))) (a2b_base64 0 0 0 cs))"

definition urlsafe_b64decode :: "string \<Rightarrow> bytes option" where
  "urlsafe_b64decode s = (if isascii s then a2b_base64 0 0 0 s else None)"

lemma char_of_eq_iff: "k < 256 \<Longrightarrow> char_of k = c \<longleftrightarrow> k = ord c"
  by (metis char_of_char mod_less of_char_of)

lemma word_of_unat [simp]: "word_of_nat (unat (a :: byte)) = a"
  by simp

lemma b64_char_val:
  assumes "n < 64"
  shows "b64_val (b64_char n) = Some n" "b64_char n \<noteq> CHR ''=''" "ord (b64_char n) < 128"
proof -
  consider "n < 26" | "26 \<le> n" "n < 52" | "52 \<le> n" "n < 62" | "n = 62" | "n = 63"
    using assms by linarith
  then have "b64_val (b64_char n) = Some n \<and> b64_char n \<noteq> CHR ''='' \<and> ord (b64_char n) < 128"
  proof cases
    case 1
    then show ?thesis by (simp add: b64_char_def b64_val_def char_of_eq_iff)
  next
    case 2
    then show ?thesis by (simp add: b64_char_def b64_val_def char_of_eq_iff)
  next
    case 3
    then obtain m where "n = 52 + m" "m < 10" using le_Suc_ex [of 52 n] by auto
    then show ?thesis by (simp add: b64_char_def b64_val_def char_of_eq_iff Let_def)
  qed (simp_all add: b64_char_def b64_val_def)
  then show "b64_val (b64_char n) = Some n" "b64_char n \<noteq> CHR ''=''" "ord (b64_char n) < 128"
    by simp_all
qed

lemma a2b_char [simp]:
  "n < 64 \<Longrightarrow> a2b_base64 q l p (b64_char n # cs) =
     (if q = 0 then a2b_base64 1 n 0 cs
      else if q = 1 then
        map_option ((#) (word_of_nat (l * 4 + n div 16))) (a2b_base64 2 (n mod 16) 0 cs)
      else if q = 2 then
        map_option ((#) (word_of_nat (l * 16 + n div 4))) (a2b_base64 3 (n mod 4) 0 cs)
      else map_option ((#) (word_of_nat (l * 64 + n))) (a2b_base64 0 0 0 cs))"
  by (simp add: b64_char_val)

lemma byte_split_bounds:
  fixes a b c :: byte
  shows "unat a div 4 < 64" "unat a mod 4 * 16 < 64" "unat a mod 4 * 16 + unat b div 16 < 64"
    "unat b mod 16 * 4 < 64" "unat b mod 16 * 4 + unat c div 64 < 64" "unat c mod 64 < 64"
  using unat_lt_256 [of a] unat_lt_256 [of b] unat_lt_256 [of c] by linarith+

lemma byte_rejoin:
  fixes a b c :: byte
  shows "word_of_nat (unat a div 4 * 4 + (unat a mod 4 * 16) div 16) = a"
    "word_of_nat (unat a div 4 * 4 + (unat a mod 4 * 16 + unat b div 16) div 16) = a"
    "word_of_nat ((unat a mod 4 * 16 + unat b div 16) mod 16 * 16 + (unat b mod 16 * 4) div 4) = b"
    "word_of_nat ((unat a mod 4 * 16 + unat b div 16) mod 16 * 16
       + (unat b mod 16 * 4 + unat c div 64) div 4) = b"
    "word_of_nat ((unat b mod 16 * 4 + unat c div 64) mod 4 * 64 + unat c mod 64) = c"
proof -
  have m: "x div 16 < 16" "x div 64 < 4" if "x < 256" for x :: nat using that by linarith+
  note mm = m [OF unat_lt_256]
  have "unat a div 4 * 4 + (unat a mod 4 * 16) div 16 = unat a" by simp
  then show "word_of_nat (unat a div 4 * 4 + (unat a mod 4 * 16) div 16) = a"
    by (simp only: word_of_unat)
  have "unat a div 4 * 4 + (unat a mod 4 * 16 + unat b div 16) div 16 = unat a"
    using mm(1) [of b] by simp
  then show "word_of_nat (unat a div 4 * 4 + (unat a mod 4 * 16 + unat b div 16) div 16) = a"
    by (simp only: word_of_unat)
  have "(unat a mod 4 * 16 + unat b div 16) mod 16 * 16 + (unat b mod 16 * 4) div 4 = unat b"
    using mm(1) [of b] by simp
  then show "word_of_nat ((unat a mod 4 * 16 + unat b div 16) mod 16 * 16
      + (unat b mod 16 * 4) div 4) = b"
    by (simp only: word_of_unat)
  have "(unat a mod 4 * 16 + unat b div 16) mod 16 * 16 + (unat b mod 16 * 4 + unat c div 64) div 4
      = unat b"
    using mm(1) [of b] mm(2) [of c] by simp
  then show "word_of_nat ((unat a mod 4 * 16 + unat b div 16) mod 16 * 16
      + (unat b mod 16 * 4 + unat c div 64) div 4) = b"
    by (simp only: word_of_unat)
  have "(unat b mod 16 * 4 + unat c div 64) mod 4 * 64 + unat c mod 64 = unat c"
    using mm(2) [of c] by (simp add: mod_add_left_eq [symmetric] mod_mult_right_eq [symmetric])
  then show "word_of_nat ((unat b mod 16 * 4 + unat c div 64) mod 4 * 64 + unat c mod 64) = c"
    by (simp only: word_of_unat)
qed

lemma a2b_urlsafe: "a2b_base64 0 0 0 (urlsafe_b64encode bs) = Some bs"
  by (induction bs rule: urlsafe_b64encode.induct)
    (simp_all only: urlsafe_b64encode.simps append_Cons append_Nil a2b_char byte_split_bounds
      byte_rejoin, simp_all)

lemma length_urlsafe_b64encode: "4 dvd length (urlsafe_b64encode bs)"
  by (induction bs rule: urlsafe_b64encode.induct) (simp_all, presburger+)

text \<open>The encoding without its padding, and the padding on its own.\<close>

lemma urlsafe_b64encode_split:
  "\<exists>s n. urlsafe_b64encode bs = s @ replicate n CHR ''='' \<and> n < 4 \<and>
     (\<forall>c\<in>set s. c \<noteq> CHR ''='' \<and> ord c < 128)"
proof (induction bs rule: urlsafe_b64encode.induct)
  case 1
  show ?case by (intro exI [of _ "[]"] exI [of _ 0]) simp
next
  case (2 a)
  show ?case
    by (intro exI [of _ "take 2 (urlsafe_b64encode [a])"] exI [of _ 2])
      (simp add: byte_split_bounds b64_char_val numeral_2_eq_2)
next
  case (3 a b)
  show ?case
    by (intro exI [of _ "take 3 (urlsafe_b64encode [a, b])"] exI [of _ 1])
      (simp add: byte_split_bounds b64_char_val)
next
  case (4 a b c r)
  then obtain s n where "urlsafe_b64encode r = s @ replicate n CHR ''=''" "n < 4"
    "\<forall>c\<in>set s. c \<noteq> CHR ''='' \<and> ord c < 128" by auto
  then show ?case
    by (intro exI [of _ "take 4 (urlsafe_b64encode (a # b # c # r)) @ s"] exI [of _ n])
      (simp add: byte_split_bounds b64_char_val)
qed

subsection \<open>Base32\<close>

definition b32_char :: "nat \<Rightarrow> char" where
  "b32_char n = (if n < 26 then char_of (65 + n) else char_of (24 + n))"

definition b32_val :: "char \<Rightarrow> nat option" where
  "b32_val c =
     (let n = ord c in
      if 65 \<le> n \<and> n \<le> 90 then Some (n - 65)
      else if 50 \<le> n \<and> n \<le> 55 then Some (n - 24)
      else None)"

text \<open>\<open>b32encode\<close>: every five bytes (the last group zero-filled) become eight characters; the
  characters that only encode filling are replaced by padding.\<close>

definition b32_padlen :: "nat \<Rightarrow> nat" where
  "b32_padlen leftover =
     (if leftover = 1 then 6 else if leftover = 2 then 4 else if leftover = 3 then 3
      else if leftover = 4 then 1 else 0)"

definition b32_quantum :: "bytes \<Rightarrow> string" where
  "b32_quantum bs =
     map b32_char (take (8 - b32_padlen (length bs))
       (to_digits 32 8 (from_bytes_be bs * 256 ^ (5 - length bs))))
     @ replicate (b32_padlen (length bs)) CHR ''=''"

definition b32encode :: "bytes \<Rightarrow> string" where
  "b32encode bs = concat (map b32_quantum (chunks 5 bs))"

text \<open>\<open>b32decode\<close> without case folding: the quanta are decoded, and the last one, if padded, is
  redone from its shifted accumulator and cut to the bytes it holds.\<close>

fun b32_vals :: "string \<Rightarrow> nat list option" where
  "b32_vals [] = Some []"
| "b32_vals (c # cs) =
     (case b32_val c of None \<Rightarrow> None | Some v \<Rightarrow> map_option ((#) v) (b32_vals cs))"

definition b32decode :: "string \<Rightarrow> bytes option" where
  "b32decode s =
     (if length s mod 8 \<noteq> 0 then None
      else let body = rstrip_char CHR ''='' s; padchars = length s - length body in
        case b32_vals body of
          None \<Rightarrow> None
        | Some vs \<Rightarrow>
            let accs = map (from_digits 32) (chunks 8 vs);
                decoded = concat (map (to_bytes_be 5) accs)
            in if padchars \<notin> {0, 1, 3, 4, 6} then None
               else if padchars \<noteq> 0 \<and> decoded \<noteq> []
               then Some (take (length decoded - 5) decoded @
                    take ((43 - 5 * padchars) div 8) (to_bytes_be 5 (last accs * 2 ^ (5 * padchars))))
               else Some decoded)"

lemma b32_char_val:
  assumes "n < 32"
  shows "b32_val (b32_char n) = Some n" "b32_char n \<noteq> CHR ''=''" "b32_char n \<noteq> CHR ''9''"
    "ord (b32_char n) < 128" "\<not> is_space (b32_char n)"
    "\<not> (97 \<le> ord (b32_char n) \<and> ord (b32_char n) \<le> 122)"
  using assms
  by (auto simp: b32_char_def b32_val_def char_of_eq_iff is_space_def Let_def)

lemma b32_vals_map: "\<forall>n\<in>set ns. n < 32 \<Longrightarrow> b32_vals (map b32_char ns) = Some ns"
  by (induction ns) (simp_all add: b32_char_val)

text \<open>One quantum, whole or cut.\<close>

lemma quantum_digits:
  assumes "length bs \<le> 5" "bs \<noteq> []"
  defines "k \<equiv> b32_padlen (length bs)"
  defines "ds \<equiv> take (8 - k) (to_digits 32 8 (from_bytes_be bs * 256 ^ (5 - length bs)))"
  shows "length ds = 8 - k" "\<forall>d\<in>set ds. d < 32"
    "from_digits 32 ds * 2 ^ (5 * k) = from_bytes_be bs * 256 ^ (5 - length bs)"
proof -
  let ?n = "from_bytes_be bs * 256 ^ (5 - length bs)"
  have k8: "k \<le> 8" by (simp add: k_def b32_padlen_def)
  show "length ds = 8 - k" by (simp add: ds_def)
  show "\<forall>d\<in>set ds. d < 32"
    unfolding ds_def using to_digits_bound [of 32 _ 8 ?n] by (auto dest!: in_set_takeD)
  have "?n < 256 ^ length bs * 256 ^ (5 - length bs)"
    using from_bytes_be_bound [of bs] by (intro mult_strict_right_mono) simp_all
  also have "\<dots> = (256::nat) ^ 5"
    using assms(1) by (simp add: power_add [symmetric])
  finally have n: "?n < 32 ^ 8" by simp
  have dvd: "(32::nat) ^ k dvd 256 ^ (5 - length bs)"
  proof -
    consider "length bs = 1" | "length bs = 2" | "length bs = 3" | "length bs = 4" | "length bs = 5"
      using assms(1,2) by (cases bs) (auto simp: le_Suc_eq numeral_eq_Suc)
    then show ?thesis
      by cases (simp_all add: k_def b32_padlen_def dvd_def)
  qed
  have "ds = to_digits 32 (8 - k) (?n div 32 ^ k)"
    unfolding ds_def by (subst take_to_digits) (use k8 in simp_all)
  then have "from_digits 32 ds = ?n div 32 ^ k mod 32 ^ (8 - k)"
    by (simp add: from_to_digits)
  also have "\<dots> = ?n div 32 ^ k"
  proof -
    have "?n < 32 ^ (8 - k) * 32 ^ k"
      using n k8 by (simp add: power_add [symmetric])
    then show ?thesis by (simp add: less_mult_imp_div_less)
  qed
  finally have "from_digits 32 ds * 32 ^ k = ?n"
    using dvd by (simp add: dvd_mult)
  moreover have "(2::nat) ^ (5 * k) = 32 ^ k" by (simp add: power_mult)
  ultimately show "from_digits 32 ds * 2 ^ (5 * k) = ?n" by simp
qed

definition quantum_vals :: "bytes \<Rightarrow> nat list" where
  "quantum_vals bs = take (8 - b32_padlen (length bs))
     (to_digits 32 8 (from_bytes_be bs * 256 ^ (5 - length bs)))"

definition b32_pad :: "bytes \<Rightarrow> nat" where
  "b32_pad bs = b32_padlen (length bs mod 5)"

lemma padlen_less: "b32_padlen n < 8" by (simp add: b32_padlen_def)

lemma padlen_5 [simp]: "b32_padlen 5 = 0" by (simp add: b32_padlen_def)

lemma b32_quantum_full: "length c = 5 \<Longrightarrow> b32_quantum c = map b32_char (quantum_vals c)"
  by (simp add: b32_quantum_def quantum_vals_def)

lemma chunks_cases5:
  assumes "bs \<noteq> []"
  obtains "length bs \<le> 5" "chunks 5 bs = [bs]"
  | "5 < length bs" "chunks 5 bs = take 5 bs # chunks 5 (drop 5 bs)"
  using assms chunks_step [of 5 bs] by (cases "length bs \<le> 5") simp_all

lemma padlen_mod: "0 < n \<Longrightarrow> n \<le> 5 \<Longrightarrow> b32_padlen (n mod 5) = b32_padlen n"
  by (cases "n = 5") (simp_all add: b32_padlen_def)

lemma b32_pad_drop: "5 < length bs \<Longrightarrow> b32_pad (drop 5 bs) = b32_pad bs"
  by (simp add: b32_pad_def le_mod_geq)

lemma b32encode_split:
  "b32encode bs = map b32_char (concat (map quantum_vals (chunks 5 bs))) @ replicate (b32_pad bs) CHR ''=''"
proof (induction bs rule: length_induct)
  case (1 bs)
  show ?case
  proof (cases "bs = []")
    case True
    then show ?thesis by (simp add: b32encode_def b32_pad_def b32_padlen_def)
  next
    case False
    then show ?thesis
    proof (cases rule: chunks_cases5)
      case 1
      then show ?thesis
        using False by (simp add: b32encode_def b32_quantum_def quantum_vals_def b32_pad_def padlen_mod)
    next
      case 2
      have "b32encode (drop 5 bs) = map b32_char (concat (map quantum_vals (chunks 5 (drop 5 bs))))
          @ replicate (b32_pad (drop 5 bs)) CHR ''=''"
        using "1" 2(1) by simp
      with 2 show ?thesis
        by (simp add: b32encode_def b32_quantum_full b32_pad_drop)
    qed
  qed
qed

lemma quantum_facts:
  assumes "bs \<noteq> []" "length bs \<le> 5"
  shows "length (quantum_vals bs) = 8 - b32_padlen (length bs)" "\<forall>d\<in>set (quantum_vals bs). d < 32"
    "from_digits 32 (quantum_vals bs) * 2 ^ (5 * b32_padlen (length bs))
       = from_bytes_be bs * 256 ^ (5 - length bs)"
  using quantum_digits [OF assms(2,1)] by (simp_all add: quantum_vals_def)

lemma chunks_quantum_vals:
  "chunks 8 (concat (map quantum_vals (chunks 5 bs))) = map quantum_vals (chunks 5 bs)"
proof (induction bs rule: length_induct)
  case (1 bs)
  show ?case
  proof (cases "bs = []")
    case False
    then show ?thesis
    proof (cases rule: chunks_cases5)
      case 1
      then have l: "length (quantum_vals bs) \<le> 8" "quantum_vals bs \<noteq> []"
        using quantum_facts(1) [OF False] padlen_less [of "length bs"] by force+
      with 1 show ?thesis by (simp add: chunks_step)
    next
      case 2
      have l: "length (quantum_vals (take 5 bs)) = 8"
        using 2 quantum_facts(1) [of "take 5 bs"] False by (simp add: b32_padlen_def)
      then have ne: "quantum_vals (take 5 bs) \<noteq> []" by auto
      have IH: "chunks 8 (concat (map quantum_vals (chunks 5 (drop 5 bs))))
          = map quantum_vals (chunks 5 (drop 5 bs))" using "1" 2(1) by simp
      show ?thesis by (simp add: 2(2) chunks_step ne l IH)
    qed
  qed simp
qed

lemma quantum_vals_bound: "d \<in> set (concat (map quantum_vals (chunks 5 bs))) \<Longrightarrow> d < 32"
proof -
  assume "d \<in> set (concat (map quantum_vals (chunks 5 bs)))"
  then obtain c where "c \<in> set (chunks 5 bs)" "d \<in> set (quantum_vals c)" by auto
  with quantum_facts(2) [of c] chunks_bounds [of c 5 bs] show ?thesis by auto
qed

lemma length_quantum_vals:
  "length (concat (map quantum_vals (chunks 5 bs))) + b32_pad bs = 8 * length (chunks 5 bs)"
proof (induction bs rule: length_induct)
  case (1 bs)
  show ?case
  proof (cases "bs = []")
    case False
    then show ?thesis
    proof (cases rule: chunks_cases5)
      case 1
      then show ?thesis
        using quantum_facts(1) [OF False] padlen_less [of "length bs"] False
        by (simp add: b32_pad_def padlen_mod)
    next
      case 2
      have "length (quantum_vals (take 5 bs)) = 8"
        using 2 quantum_facts(1) [of "take 5 bs"] False by (simp add: b32_padlen_def)
      moreover have "length (concat (map quantum_vals (chunks 5 (drop 5 bs)))) + b32_pad bs
          = 8 * length (chunks 5 (drop 5 bs))"
        using "1" 2(1) b32_pad_drop by (metis diff_less length_drop length_greater_0_conv False zero_less_numeral)
      ultimately show ?thesis using 2 by simp
    qed
  qed (simp add: b32_pad_def b32_padlen_def)
qed

text \<open>What the decoder computes: whole quanta as they are, the last one cut.\<close>

definition quantum_bytes :: "bytes \<Rightarrow> bytes" where
  "quantum_bytes c = to_bytes_be 5 (from_digits 32 (quantum_vals c))"

lemma quantum_bytes_full: "length c = 5 \<Longrightarrow> quantum_bytes c = c"
  using quantum_facts(3) [of c] to_from_bytes_be [of c]
  by (cases c) (auto simp: quantum_bytes_def b32_padlen_def)

lemma take_to_bytes_be: "m \<le> w \<Longrightarrow> take m (to_bytes_be w n) = to_bytes_be m (n div 256 ^ (w - m))"
proof (induction w arbitrary: n)
  case (Suc w)
  show ?case
  proof (cases "m = Suc w")
    case False
    with Suc show ?thesis by (simp add: Suc_diff_le div_mult2_eq)
  qed simp
qed simp

lemma short_length_cases: "c \<noteq> [] \<Longrightarrow> length c < 5 \<Longrightarrow> length c \<in> {1, 2, 3, 4}"
proof -
  assume "c \<noteq> []" "length c < 5"
  then have "0 < length c" "length c < 5" by auto
  then have "length c = 1 \<or> length c = 2 \<or> length c = 3 \<or> length c = 4" by arith
  then show ?thesis by simp
qed

lemma quantum_cut:
  assumes "c \<noteq> []" "length c < 5"
  shows "take ((43 - 5 * b32_padlen (length c)) div 8)
      (to_bytes_be 5 (from_digits 32 (quantum_vals c) * 2 ^ (5 * b32_padlen (length c)))) = c"
proof -
  have "(43 - 5 * b32_padlen (length c)) div 8 = length c"
    using short_length_cases [OF assms] by (auto simp: b32_padlen_def)
  moreover have "take (length c) (to_bytes_be 5 (from_bytes_be c * 256 ^ (5 - length c))) = c"
    using assms by (subst take_to_bytes_be) (simp_all add: to_from_bytes_be)
  ultimately show ?thesis using quantum_facts(3) [of c] assms by simp
qed

lemma chunks5_split:
  assumes "bs \<noteq> []"
  shows "\<exists>cs c. chunks 5 bs = cs @ [c] \<and> (\<forall>x\<in>set cs. length x = 5) \<and> c \<noteq> [] \<and> length c \<le> 5 \<and>
    b32_pad bs = b32_padlen (length c)"
  using assms
proof (induction bs rule: length_induct)
  case (1 bs)
  show ?case using "1.prems"
  proof (cases rule: chunks_cases5)
    case 1
    then show ?thesis using "1.prems" by (auto simp: b32_pad_def padlen_mod)
  next
    case 2
    then have "drop 5 bs \<noteq> []" "length (drop 5 bs) < length bs" by auto
    with "1.IH" obtain cs c where "chunks 5 (drop 5 bs) = cs @ [c]" "\<forall>x\<in>set cs. length x = 5"
      "c \<noteq> []" "length c \<le> 5" "b32_pad (drop 5 bs) = b32_padlen (length c)"
      by blast
    then show ?thesis
      using 2 b32_pad_drop by (intro exI [of _ "take 5 bs # cs"] exI [of _ c]) auto
  qed
qed

theorem b32decode_encode: "b32decode (b32encode bs) = Some bs"
proof -
  let ?vs = "concat (map quantum_vals (chunks 5 bs))"
  let ?k = "b32_pad bs"
  have ne: "\<forall>x\<in>set (map b32_char ?vs). x \<noteq> CHR ''=''"
    using quantum_vals_bound b32_char_val(2) by auto
  have body: "rstrip_char CHR ''='' (b32encode bs) = map b32_char ?vs"
    unfolding b32encode_split by (rule rstrip_char_append) (use ne in auto)
  have vals: "b32_vals (map b32_char ?vs) = Some ?vs"
    using quantum_vals_bound by (intro b32_vals_map) auto
  have len: "length (b32encode bs) = 8 * length (chunks 5 bs)"
    unfolding b32encode_split using length_quantum_vals [of bs] by simp
  have pad: "length (b32encode bs) - length ?vs = ?k"
    using len length_quantum_vals [of bs] by simp
  let ?dec = "concat (map quantum_bytes (chunks 5 bs))"
  have dec: "b32decode (b32encode bs) =
     (if ?k \<noteq> 0 \<and> ?dec \<noteq> []
      then Some (take (length ?dec - 5) ?dec @ take ((43 - 5 * ?k) div 8)
        (to_bytes_be 5 (last (map (from_digits 32) (map quantum_vals (chunks 5 bs))) * 2 ^ (5 * ?k))))
      else Some ?dec)"
  proof -
    have "?k \<in> {0, 1, 3, 4, 6}" by (simp add: b32_pad_def b32_padlen_def)
    moreover have "map (to_bytes_be 5) (map (from_digits 32) (map quantum_vals (chunks 5 bs)))
        = map quantum_bytes (chunks 5 bs)" by (simp add: quantum_bytes_def)
    moreover have "length (b32encode bs) mod 8 = 0" using len by simp
    ultimately show ?thesis
      unfolding b32decode_def body Let_def length_map pad vals option.case chunks_quantum_vals
      by (simp only: not_True_eq_False if_False simp_thms)
  qed
  show ?thesis
  proof (cases "bs = []")
    case True
    then show ?thesis unfolding dec by (simp add: b32_pad_def b32_padlen_def)
  next
    case False
    then obtain cs c where c: "chunks 5 bs = cs @ [c]" "\<forall>x\<in>set cs. length x = 5" "c \<noteq> []"
      "length c \<le> 5" "?k = b32_padlen (length c)"
      using chunks5_split by blast
    have cs: "concat (map quantum_bytes cs) = concat cs"
      using c(2) quantum_bytes_full by (metis map_idI)
    have bs: "concat cs @ c = bs"
      using concat_chunks [of 5 bs] c(1) by simp
    have l5: "length (quantum_bytes c) = 5" by (simp add: quantum_bytes_def)
    show ?thesis
    proof (cases "length c = 5")
      case True
      then have "?k = 0" using c(5) by (simp add: b32_padlen_def)
      then show ?thesis
        unfolding dec using c(1) cs bs quantum_bytes_full [OF True] by simp
    next
      case False
      then have lc: "length c < 5" using c(4) by simp
      then have "?k \<noteq> 0"
        using c(5) short_length_cases [OF c(3) lc] by (auto simp: b32_padlen_def)
      then show ?thesis
        unfolding dec using c(1,5) cs bs l5 quantum_cut [OF c(3) lc] by auto
    qed
  qed
qed

end
