(* ===== verification/Pairing_Token.thy ===== *)
theory Pairing_Token
  imports Encoding
begin

text \<open>
  Keys, pairing codes and pairing tokens: \<open>noise/keys.py\<close>, \<open>noise/pairing_code.py\<close> and
  \<open>noise/pairing_token.py\<close>. SHA-256 is an argument \<open>sha256\<close>; the theorems that need its
  digest size assume it. Random bytes are arguments of the operations that draw them. Every
  \<open>ValueError\<close> is a value of \<open>value_error\<close>.
\<close>

datatype value_error =
    BadSize string nat nat
  | NotBase64
  | BadClientIdSize
  | BadPairingPskSize
  | MalformedToken
  | UnsupportedTokenVersion
  | BadPairingCode

subsection \<open>Keys\<close>

definition PSK_SIZE :: nat where "PSK_SIZE = 32"
definition X25519_KEY_SIZE :: nat where "X25519_KEY_SIZE = 32"
definition PEER_ID_SIZE :: nat where "PEER_ID_SIZE = 43"

definition ascii_bytes :: "string \<Rightarrow> bytes" where
  "ascii_bytes s = map (\<lambda>c. word_of_nat (ord c)) s"

definition b64url_encode :: "bytes \<Rightarrow> string" where
  "b64url_encode data = rstrip_char CHR ''='' (urlsafe_b64encode data)"

definition b64url_decode :: "string \<Rightarrow> bytes option" where
  "b64url_decode value =
     (let pad = nat ((- int (length value)) mod 4)
      in urlsafe_b64decode (value @ replicate pad CHR ''=''))"

definition PSK_ID_LABEL :: bytes where "PSK_ID_LABEL = ascii_bytes ''sendspin-psk-id-v1''"

definition psk_id_for :: "(bytes \<Rightarrow> bytes) \<Rightarrow> bytes \<Rightarrow> value_error + string" where
  "psk_id_for sha256 psk =
     (if length psk \<noteq> PSK_SIZE then Inl (BadSize ''PSK'' PSK_SIZE (length psk))
      else Inr (b64url_encode (sha256 (PSK_ID_LABEL @ psk))))"

record identity =
  private_bytes :: bytes
  public_bytes :: bytes

text \<open>\<open>Identity.from_private_bytes\<close>; \<open>pub_of\<close> is the X25519 library's public-key computation.\<close>

definition identity_from_private_bytes :: "(bytes \<Rightarrow> bytes) \<Rightarrow> bytes \<Rightarrow> value_error + identity" where
  "identity_from_private_bytes pub_of priv =
     (if length priv \<noteq> X25519_KEY_SIZE
      then Inl (BadSize ''X25519 private key'' X25519_KEY_SIZE (length priv))
      else Inr \<lparr>private_bytes = priv, public_bytes = pub_of priv\<rparr>)"

definition peer_id :: "identity \<Rightarrow> string" where
  "peer_id i = b64url_encode (public_bytes i)"

definition private_b64u :: "identity \<Rightarrow> string" where
  "private_b64u i = b64url_encode (private_bytes i)"

subsection \<open>Pairing codes\<close>

definition NONCE_SIZE :: nat where "NONCE_SIZE = 32"
definition COMMIT_SIZE :: nat where "COMMIT_SIZE = 32"
definition DYNAMIC_DIGITS :: nat where "DYNAMIC_DIGITS = 6"
definition STATIC_DIGITS :: nat where "STATIC_DIGITS = 8"
definition QR_CODE_SIZE :: nat where "QR_CODE_SIZE = 24"
definition PAIRING_CODE_DERIVE_LABEL :: bytes where
  "PAIRING_CODE_DERIVE_LABEL = ascii_bytes ''sendspin-pairing-code-derive-v1''"
definition COMMIT_LABEL :: bytes where
  "COMMIT_LABEL = ascii_bytes ''sendspin-pair-commit-v1''"

lemmas code_consts [const_defs] =
  PSK_SIZE_def X25519_KEY_SIZE_def NONCE_SIZE_def COMMIT_SIZE_def DYNAMIC_DIGITS_def
  STATIC_DIGITS_def QR_CODE_SIZE_def

definition is_valid_static_pairing_code :: "string \<Rightarrow> bool" where
  "is_valid_static_pairing_code code \<longleftrightarrow>
     length code = STATIC_DIGITS \<and> isascii code \<and> isdigit code"

definition format_pairing_code :: "string \<Rightarrow> value_error + string" where
  "format_pairing_code code =
     (if length code \<notin> {DYNAMIC_DIGITS, STATIC_DIGITS} \<or> \<not> (isascii code \<and> isdigit code)
      then Inl BadPairingCode
      else let half = length code div 2 in Inr (take half code @ ''-'' @ drop half code))"

definition strip_separators :: "string \<Rightarrow> string" where
  "strip_separators code = filter (\<lambda>c. c \<noteq> CHR ''-'') (filter (\<lambda>c. c \<noteq> CHR '' '') code)"

definition check_size :: "bytes \<Rightarrow> nat \<Rightarrow> string \<Rightarrow> value_error + unit" where
  "check_size value expected name =
     (if length value \<noteq> expected then Inl (BadSize name expected (length value)) else Inr ())"

definition commit :: "(bytes \<Rightarrow> bytes) \<Rightarrow> bytes \<Rightarrow> value_error + bytes" where
  "commit sha256 nonce =
     (case check_size nonce NONCE_SIZE ''nonce'' of Inl e \<Rightarrow> Inl e
      | Inr _ \<Rightarrow> Inr (sha256 (COMMIT_LABEL @ nonce)))"

definition verify_commit :: "(bytes \<Rightarrow> bytes) \<Rightarrow> bytes \<Rightarrow> bytes \<Rightarrow> value_error + bool" where
  "verify_commit sha256 nonce commitment =
     (case commit sha256 nonce of Inl e \<Rightarrow> Inl e | Inr c \<Rightarrow> Inr (c = commitment))"

definition derive_digest :: "(bytes \<Rightarrow> bytes) \<Rightarrow> bytes \<Rightarrow> bytes \<Rightarrow> bytes \<Rightarrow> value_error + bytes" where
  "derive_digest sha256 handshake_hash nonce_a nonce_b =
     (case check_size handshake_hash 32 ''handshake_hash'' of Inl e \<Rightarrow> Inl e
      | Inr _ \<Rightarrow> (case check_size nonce_a NONCE_SIZE ''nonce_a'' of Inl e \<Rightarrow> Inl e
      | Inr _ \<Rightarrow> (case check_size nonce_b NONCE_SIZE ''nonce_b'' of Inl e \<Rightarrow> Inl e
      | Inr _ \<Rightarrow> Inr (sha256 (PAIRING_CODE_DERIVE_LABEL @ handshake_hash @ nonce_a @ nonce_b)))))"

definition digit_char :: "nat \<Rightarrow> char" where "digit_char d = char_of (48 + d)"

text \<open>\<open>f"{value:06d}"\<close> of a value below \<open>1_000_000\<close>.\<close>

definition derive_digits :: "(bytes \<Rightarrow> bytes) \<Rightarrow> bytes \<Rightarrow> bytes \<Rightarrow> bytes \<Rightarrow> value_error + string" where
  "derive_digits sha256 handshake_hash nonce_a nonce_b =
     (case derive_digest sha256 handshake_hash nonce_a nonce_b of Inl e \<Rightarrow> Inl e
      | Inr digest \<Rightarrow>
          Inr (map digit_char (to_digits 10 6 (from_bytes_be digest mod 1000000))))"

definition derive_qr_code :: "(bytes \<Rightarrow> bytes) \<Rightarrow> bytes \<Rightarrow> bytes \<Rightarrow> bytes \<Rightarrow> value_error + bytes" where
  "derive_qr_code sha256 handshake_hash nonce_a nonce_b =
     (case derive_digest sha256 handshake_hash nonce_a nonce_b of Inl e \<Rightarrow> Inl e
      | Inr digest \<Rightarrow> Inr (take QR_CODE_SIZE digest))"

subsection \<open>Pairing tokens\<close>

definition TOKEN_PREFIX :: string where "TOKEN_PREFIX = ''SP:''"
definition PSK_TOKEN_VERSION :: char where "PSK_TOKEN_VERSION = CHR ''0''"
definition PAIRING_CODE_TOKEN_VERSION :: char where "PAIRING_CODE_TOKEN_VERSION = CHR ''1''"
definition PSK_TOKEN_SIZE :: nat where "PSK_TOKEN_SIZE = X25519_KEY_SIZE + PSK_SIZE"

record psk_pairing_token =
  tok_client_id :: string
  tok_pairing_psk :: bytes

definition encode_token :: "char \<Rightarrow> bytes \<Rightarrow> string" where
  "encode_token version payload =
     (let body = replace_char CHR ''2'' CHR ''9'' (rstrip_char CHR ''='' (b32encode payload))
      in TOKEN_PREFIX @ [version] @ body)"

definition decode_token :: "string \<Rightarrow> char \<Rightarrow> value_error + bytes" where
  "decode_token value expect_version =
     (let text = strip value in
      if \<not> isascii text then Inl MalformedToken
      else let text = removeprefix TOKEN_PREFIX (upper_ascii text) in
        if text = [] then Inl MalformedToken
        else let version = hd text; body = tl text in
          if version \<noteq> expect_version then Inl UnsupportedTokenVersion
          else let pad = nat ((- int (length body)) mod 8) in
            case b32decode (replace_char CHR ''9'' CHR ''2'' body @ replicate pad CHR ''='') of
              None \<Rightarrow> Inl MalformedToken
            | Some payload \<Rightarrow> Inr payload)"

definition encode_psk_token :: "psk_pairing_token \<Rightarrow> value_error + string" where
  "encode_psk_token token =
     (case b64url_decode (tok_client_id token) of
        None \<Rightarrow> Inl NotBase64
      | Some client_id \<Rightarrow>
          if length client_id \<noteq> X25519_KEY_SIZE then Inl BadClientIdSize
          else if length (tok_pairing_psk token) \<noteq> PSK_SIZE then Inl BadPairingPskSize
          else Inr (encode_token PSK_TOKEN_VERSION (client_id @ tok_pairing_psk token)))"

definition decode_psk_token :: "string \<Rightarrow> value_error + psk_pairing_token" where
  "decode_psk_token value =
     (case decode_token value PSK_TOKEN_VERSION of
        Inl e \<Rightarrow> Inl e
      | Inr payload \<Rightarrow>
          if length payload < PSK_TOKEN_SIZE then Inl MalformedToken
          else Inr \<lparr>tok_client_id = b64url_encode (take X25519_KEY_SIZE payload),
            tok_pairing_psk = take (PSK_TOKEN_SIZE - X25519_KEY_SIZE) (drop X25519_KEY_SIZE payload)\<rparr>)"

definition encode_pairing_code_token :: "bytes \<Rightarrow> value_error + string" where
  "encode_pairing_code_token code =
     (if length code \<noteq> QR_CODE_SIZE
      then Inl (BadSize ''pairing code'' QR_CODE_SIZE (length code))
      else Inr (encode_token PAIRING_CODE_TOKEN_VERSION code))"

definition decode_pairing_code_token :: "string \<Rightarrow> value_error + bytes" where
  "decode_pairing_code_token value =
     (case decode_token value PAIRING_CODE_TOKEN_VERSION of
        Inl e \<Rightarrow> Inl e
      | Inr payload \<Rightarrow>
          if length payload < QR_CODE_SIZE then Inl MalformedToken
          else Inr (take QR_CODE_SIZE payload))"

subsection \<open>Base64url without padding\<close>

lemma pad_amount:
  assumes "(n + k) mod m = 0" "k < m" "0 < m"
  shows "nat ((- int n) mod int m) = k"
proof -
  from assms(1) obtain q where "n + k = m * q" by auto
  then have "int n + int k = int m * int q" by (metis of_nat_add of_nat_mult)
  then have "- int n = int k + int m * (- int q)" by simp
  then have "(- int n) mod int m = int k mod int m" by (metis mod_mult_self2)
  then show ?thesis using assms(2) by simp
qed

lemma b64url_split:
  obtains s n where "urlsafe_b64encode bs = s @ replicate n CHR ''=''" "n < 4"
    "b64url_encode bs = s" "(length s + n) mod 4 = 0" "isascii (s @ replicate n CHR ''='')"
proof -
  obtain s n where *: "urlsafe_b64encode bs = s @ replicate n CHR ''=''" "n < 4"
    "\<forall>c\<in>set s. c \<noteq> CHR ''='' \<and> ord c < 128"
    using urlsafe_b64encode_split by blast
  have enc: "b64url_encode bs = s"
    unfolding b64url_encode_def *(1) by (rule rstrip_char_append) (use *(3) in auto)
  have dvd: "(length s + n) mod 4 = 0"
    using length_urlsafe_b64encode [of bs] *(1) by simp
  have "list_all (\<lambda>c. ord c < 128) s" using *(3) unfolding list_all_iff by blast
  moreover have "list_all (\<lambda>c. ord c < 128) (replicate n CHR ''='')" by (induction n) simp_all
  ultimately have "isascii (s @ replicate n CHR ''='')"
    unfolding isascii_def list_all_append by blast
  then show ?thesis by (rule that [OF *(1,2) enc dvd])
qed

lemma b64url_decode_encode [simp]: "b64url_decode (b64url_encode bs) = Some bs"
proof -
  obtain s n where *: "urlsafe_b64encode bs = s @ replicate n CHR ''=''" "n < 4"
    "b64url_encode bs = s" "(length s + n) mod 4 = 0" "isascii (s @ replicate n CHR ''='')"
    by (rule b64url_split)
  have "nat ((- int (length s)) mod 4) = n"
    using pad_amount [of "length s" n 4] * by simp
  then have "b64url_decode s = a2b_base64 0 0 0 (urlsafe_b64encode bs)"
    by (simp add: b64url_decode_def urlsafe_b64decode_def *(1,5))
  with *(3) show ?thesis by (simp add: a2b_urlsafe)
qed

lemma b64url_encode_inj: "b64url_encode a = b64url_encode b \<longleftrightarrow> a = b"
  by (metis b64url_decode_encode option.inject)

subsection \<open>Tokens decode to what they encode\<close>

definition token_char :: "char \<Rightarrow> bool" where
  "token_char c \<longleftrightarrow> ord c < 128 \<and> \<not> is_space c \<and> \<not> (97 \<le> ord c \<and> ord c \<le> 122)"

lemma replace_back: "\<forall>c\<in>set s. c \<noteq> b \<Longrightarrow> replace_char b a (replace_char a b s) = s"
  by (auto simp: replace_char_def intro!: map_idI)

lemma encode_token_shape:
  obtains body k where "encode_token v p = TOKEN_PREFIX @ [v] @ body" "\<forall>c\<in>set body. token_char c"
    "replace_char CHR ''9'' CHR ''2'' body @ replicate k CHR ''='' = b32encode p"
    "nat ((- int (length body)) mod 8) = k"
proof -
  define vs where "vs = concat (map quantum_vals (chunks 5 p))"
  have vb: "\<forall>d\<in>set vs. d < 32" using quantum_vals_bound vs_def by blast
  have sp: "b32encode p = map b32_char vs @ replicate (b32_pad p) CHR ''=''"
    unfolding vs_def by (rule b32encode_split)
  have rs: "rstrip_char CHR ''='' (b32encode p) = map b32_char vs"
    unfolding sp by (rule rstrip_char_append) (use vb b32_char_val(2) in auto)
  let ?body = "replace_char CHR ''2'' CHR ''9'' (map b32_char vs)"
  have 1: "encode_token v p = TOKEN_PREFIX @ [v] @ ?body"
    by (simp add: encode_token_def rs)
  have 2: "\<forall>c\<in>set ?body. token_char c"
    using vb b32_char_val(4-6) by (auto simp: replace_char_def token_char_def is_space_def)
  have 3: "replace_char CHR ''9'' CHR ''2'' ?body = map b32_char vs"
    by (rule replace_back) (use vb b32_char_val(3) in auto)
  have "(length vs + b32_pad p) mod 8 = 0"
    using length_quantum_vals [of p] by (simp add: vs_def)
  then have "nat ((- int (length ?body)) mod 8) = b32_pad p"
    using pad_amount [of "length vs" "b32_pad p" 8] padlen_less
    by (simp add: replace_char_def b32_pad_def)
  with 1 2 3 show ?thesis using that [of ?body "b32_pad p"] sp by simp
qed

text \<open>Decoding tolerates lower case and surrounding white space.\<close>

lemma decode_encode_token:
  assumes v: "token_char v" and ws: "list_all is_space u" "list_all is_space w"
    and typed: "upper_ascii t = encode_token v p" "isascii t"
  shows "decode_token (u @ t @ w) v = Inr p"
proof -
  obtain body k where e: "encode_token v p = TOKEN_PREFIX @ [v] @ body"
    "\<forall>c\<in>set body. token_char c"
    "replace_char CHR ''9'' CHR ''2'' body @ replicate k CHR ''='' = b32encode p"
    "nat ((- int (length body)) mod 8) = k"
    by (rule encode_token_shape)
  have chars: "\<forall>c\<in>set (encode_token v p). token_char c"
    using e(1,2) v by (auto simp: TOKEN_PREFIX_def token_char_def is_space_def)
  have up: "\<not> is_space (upper_ascii_char c) \<Longrightarrow> ord c < 128 \<Longrightarrow> \<not> is_space c" for c
    by (auto simp: upper_ascii_char_def is_space_def split: if_splits)
  have sp: "\<forall>c\<in>set t. \<not> is_space c"
  proof
    fix c assume c: "c \<in> set t"
    then have "upper_ascii_char c \<in> set (encode_token v p)"
      using typed(1) by (metis image_eqI list.set_map upper_ascii_def)
    with chars have "\<not> is_space (upper_ascii_char c)" by (auto simp: token_char_def)
    moreover have "ord c < 128" using c typed(2) by (simp add: isascii_def list_all_iff)
    ultimately show "\<not> is_space c" by (rule up)
  qed
  have ne: "t \<noteq> []" using typed(1) e(1) by (auto simp: upper_ascii_def TOKEN_PREFIX_def)
  have st: "strip (u @ t @ w) = t"
    by (rule strip_surrounded) (use ws sp ne in auto)
  have rp: "removeprefix TOKEN_PREFIX (TOKEN_PREFIX @ [v] @ body) = v # body"
    by (simp add: removeprefix_def)
  show ?thesis
    using e(3,4) typed
    by (simp add: decode_token_def st e(1) rp [simplified] b32decode_encode)
qed

lemma upper_encode_token: "token_char v \<Longrightarrow> upper_ascii (encode_token v p) = encode_token v p"
  "token_char v \<Longrightarrow> isascii (encode_token v p)"
proof -
  assume v: "token_char v"
  obtain body k where e: "encode_token v p = TOKEN_PREFIX @ [v] @ body" "\<forall>c\<in>set body. token_char c"
    by (rule encode_token_shape)
  show "upper_ascii (encode_token v p) = encode_token v p" "isascii (encode_token v p)"
    using e v by (auto simp: TOKEN_PREFIX_def token_char_def isascii_def list_all_iff
        intro!: upper_ascii_idem)
qed

lemma version_chars [simp]: "token_char PSK_TOKEN_VERSION" "token_char PAIRING_CODE_TOKEN_VERSION"
  by (simp_all add: PSK_TOKEN_VERSION_def PAIRING_CODE_TOKEN_VERSION_def token_char_def is_space_def)

text \<open>A pairing token handed from a client to an operator survives transcription: decoding
  what \<open>encode_psk_token\<close> printed, in any letter case and with white space around it, gives back the
  client id and the Pairing PSK.\<close>

theorem psk_token_roundtrip:
  assumes "length pub = X25519_KEY_SIZE" "length psk = PSK_SIZE"
    and "encode_psk_token \<lparr>tok_client_id = b64url_encode pub, tok_pairing_psk = psk\<rparr> = Inr printed"
    and "list_all is_space u" "list_all is_space w" "upper_ascii typed = printed" "isascii typed"
  shows "decode_psk_token (u @ typed @ w)
    = Inr \<lparr>tok_client_id = b64url_encode pub, tok_pairing_psk = psk\<rparr>"
proof -
  have "printed = encode_token PSK_TOKEN_VERSION (pub @ psk)"
    using assms(1-3) by (simp add: encode_psk_token_def)
  then have "decode_token (u @ typed @ w) PSK_TOKEN_VERSION = Inr (pub @ psk)"
    using assms(4-) by (intro decode_encode_token) simp_all
  then show ?thesis
    using assms(1,2) by (simp add: decode_psk_token_def PSK_TOKEN_SIZE_def)
qed

theorem psk_token_roundtrip_witness:
  "decode_psk_token ('' '' @ encode_token PSK_TOKEN_VERSION (replicate 64 7) @ [CHR 0x0A])
     = Inr \<lparr>tok_client_id = b64url_encode (replicate 32 7), tok_pairing_psk = replicate 32 7\<rparr>"
proof -
  have r: "replicate 32 (7 :: byte) @ replicate 32 7 = replicate 64 7"
    by (simp add: replicate_add [symmetric])
  show ?thesis
    by (rule psk_token_roundtrip [where printed = "encode_token PSK_TOKEN_VERSION (replicate 64 7)"])
      (simp_all add: encode_psk_token_def X25519_KEY_SIZE_def PSK_SIZE_def r upper_encode_token
        is_space_def)
qed

text \<open>The token of a dynamic pairing code decodes to the 24-byte code, and a token of one kind is
  refused as a token of the other.\<close>

theorem pairing_code_token_roundtrip:
  assumes "length code = QR_CODE_SIZE"
  shows "\<exists>printed. encode_pairing_code_token code = Inr printed \<and>
    decode_pairing_code_token printed = Inr code \<and>
    decode_psk_token printed = Inl UnsupportedTokenVersion"
proof -
  let ?t = "encode_token PAIRING_CODE_TOKEN_VERSION code"
  have d: "decode_token ?t PAIRING_CODE_TOKEN_VERSION = Inr code"
    using decode_encode_token [of PAIRING_CODE_TOKEN_VERSION "[]" "[]" ?t code]
    by (simp add: upper_encode_token)
  have "decode_token ?t PSK_TOKEN_VERSION = Inl UnsupportedTokenVersion"
    using d by (auto simp: decode_token_def Let_def PSK_TOKEN_VERSION_def
        PAIRING_CODE_TOKEN_VERSION_def split: if_splits)
  with d assms show ?thesis
    by (simp add: encode_pairing_code_token_def decode_pairing_code_token_def decode_psk_token_def)
qed

theorem pairing_code_token_roundtrip_witness:
  "\<exists>printed. encode_pairing_code_token (replicate 24 255) = Inr printed \<and>
    decode_pairing_code_token printed = Inr (replicate 24 255) \<and>
    decode_psk_token printed = Inl UnsupportedTokenVersion"
  by (rule pairing_code_token_roundtrip) (simp add: QR_CODE_SIZE_def)

lemma digit_char_range: "d < 10 \<Longrightarrow> 48 \<le> ord (digit_char d) \<and> ord (digit_char d) \<le> 57"
  by (simp add: digit_char_def)

lemma digits_shape:
  fixes n :: nat
  defines "code \<equiv> map digit_char (to_digits 10 6 n)"
  shows "length code = DYNAMIC_DIGITS" "isascii code" "isdigit code"
    and "\<forall>x\<in>set code. 48 \<le> ord x \<and> ord x \<le> 57"
proof -
  show r: "\<forall>x\<in>set code. 48 \<le> ord x \<and> ord x \<le> 57"
    using digit_char_range to_digits_bound [of 10] by (auto simp: code_def)
  show len: "length code = DYNAMIC_DIGITS" by (simp add: code_def DYNAMIC_DIGITS_def)
  have "code \<noteq> []" using len by (auto simp: DYNAMIC_DIGITS_def)
  then show "isascii code" "isdigit code"
    using r by (fastforce simp: isascii_def isdigit_def list_all_iff)+
qed

lemma derive_digits_shape:
  assumes "derive_digits sha256 h a b = Inr code"
  shows "length code = DYNAMIC_DIGITS" "isascii code" "isdigit code"
    and "\<forall>x\<in>set code. 48 \<le> ord x \<and> ord x \<le> 57"
  using assms digits_shape by (auto simp: derive_digits_def split: sum.splits)

lemma strip_separators_digits:
  "\<forall>x\<in>set code. 48 \<le> ord x \<and> ord x \<le> 57 \<Longrightarrow> strip_separators code = code"
  by (auto simp: strip_separators_def filter_id_conv)

lemma strip_separators_append [simp]:
  "strip_separators (xs @ ys) = strip_separators xs @ strip_separators ys"
  "strip_separators (CHR ''-'' # xs) = strip_separators xs"
  by (simp_all add: strip_separators_def)

text \<open>The digits derived for a dynamic pairing code always print as a well-formed code, and the
  printed form with its separator reads back as the digits.\<close>

theorem derived_digits_format:
  assumes "derive_digits sha256 h a b = Inr code"
  shows "\<exists>printed. format_pairing_code code = Inr printed \<and> length code = DYNAMIC_DIGITS \<and>
    strip_separators printed = code"
proof -
  note shape = derive_digits_shape [OF assms]
  have "strip_separators (take n code) = take n code" "strip_separators (drop n code) = drop n code" for n
    using shape(4) by (auto intro!: strip_separators_digits dest: in_set_takeD in_set_dropD)
  then show ?thesis using shape by (simp add: format_pairing_code_def Let_def)
qed

theorem derived_digits_format_witness:
  "\<exists>printed. format_pairing_code ''001999'' = Inr printed \<and> strip_separators printed = ''001999''"
proof -
  have "derive_digits (\<lambda>_. to_bytes_be 32 7001999) (replicate 32 0) (replicate 32 1) (replicate 32 2)
      = Inr ''001999''"
  proof -
    have "from_bytes_be (to_bytes_be 32 7001999) = 7001999"
      by (rule from_to_bytes_be) simp
    moreover have "to_digits 10 6 (7001999 mod 1000000) = [0, 0, 1, 9, 9, 9]"
      by (simp add: to_digits_numeral)
    moreover have "map digit_char [0, 0, 1, 9, 9, 9] = ''001999''"
      by (simp add: digit_char_def char_of_eq_iff)
    ultimately show ?thesis
      by (simp only: derive_digits_def derive_digest_def check_size_def NONCE_SIZE_def
          length_replicate simp_thms if_False sum.case)
  qed
  from derived_digits_format [OF this] show ?thesis by blast
qed

end
