(* ===== verification/Trust_Store.thy ===== *)
theory Trust_Store
  imports Json Pairing_Token
begin

text \<open>
  The trust model and pairing-record stores of \<open>noise/trust_store.py\<close>: the records, the
  server-side and the client-side store with every operation that changes them, the eviction and
  supersession policies, and the JSON form of the file-backed stores. Timestamps are integers
  (microseconds); \<open>datetime.now(UTC)\<close> is an argument \<open>now\<close>, and the ISO-8601 conversions of
  \<open>datetime\<close> are the arguments \<open>to_iso\<close> and \<open>from_iso\<close>.

  A store's \<open>_save\<close> is a no-op unless the store is file-backed (\<open>persistent\<close>); then it writes the
  persisted fields to \<open>disk\<close> or, as \<open>save_plan\<close> dictates, raises. Every operation returns the
  store it leaves behind and whether it raised.
\<close>

subsection \<open>Records\<close>

datatype psk_category = LONG_TERM | PAIRING | SENTINEL

definition category_code :: "psk_category \<Rightarrow> string" where
  "category_code c = (case c of LONG_TERM \<Rightarrow> ''lt'' | PAIRING \<Rightarrow> ''pr'' | SENTINEL \<Rightarrow> ''sn'')"

definition category_from_code :: "string \<Rightarrow> psk_category option" where
  "category_from_code code =
     (if code = ''lt'' then Some LONG_TERM else if code = ''pr'' then Some PAIRING
      else if code = ''sn'' then Some SENTINEL else None)"

datatype pair_method = DYNAMIC_PAIRING_CODE | PAIRING_PSK | STATIC_PAIRING_CODE

record resolved_psk =
  res_psk_id :: string
  res_psk :: bytes
  res_category :: psk_category
  res_counterparty_id :: "string option"

record server_record =
  sr_psk_id :: string
  sr_psk :: bytes
  sr_client_id :: string
  sr_pair_methods :: "pair_method list"
  sr_created_at :: int
  sr_owner :: "string option"

record client_record =
  cr_psk_id :: string
  cr_psk :: bytes
  cr_server_id :: string
  cr_used :: bool
  cr_created_at :: int
  cr_last_used_at :: int

record pairing_config =
  dynamic_pairing_code_enabled :: bool
  static_pairing_code_enabled :: bool
  unpaired_access_enabled :: bool

record pairing_psk =
  pp_psk_id :: string
  pp_psk :: bytes

record staged_psk =
  st_psk_id :: string
  st_psk :: bytes
  st_created_at :: int

record trusted_unpaired =
  tu_client_id :: string
  tu_created_at :: int
  tu_approved_roles :: "string list"

definition default_config :: pairing_config where
  "default_config = \<lparr>dynamic_pairing_code_enabled = True, static_pairing_code_enabled = False,
     unpaired_access_enabled = False\<rparr>"

definition PAIRING_ROUND_LIMIT :: int where "PAIRING_ROUND_LIMIT = 20"
definition MIN_RECORD_CAPACITY :: int where "MIN_RECORD_CAPACITY = 5"
definition DEFAULT_RECORD_CAPACITY :: int where "DEFAULT_RECORD_CAPACITY = 16"
definition STAGED_PAIRING_PSK_LIFETIME :: int where
  "STAGED_PAIRING_PSK_LIFETIME = 24 * 60 * 60 * 1000000"

text \<open>\<open>_check_psk\<close> runs when a record is built.\<close>

definition check_psk :: "'r \<Rightarrow> bytes \<Rightarrow> load_error + 'r" where
  "check_psk r psk = (if length psk \<noteq> PSK_SIZE then Inl (ValueError ''PSK'') else Inr r)"

definition sr_as_resolved :: "server_record \<Rightarrow> resolved_psk" where
  "sr_as_resolved r = \<lparr>res_psk_id = sr_psk_id r, res_psk = sr_psk r, res_category = LONG_TERM,
     res_counterparty_id = Some (sr_client_id r)\<rparr>"

definition cr_as_resolved :: "client_record \<Rightarrow> resolved_psk" where
  "cr_as_resolved r = \<lparr>res_psk_id = cr_psk_id r, res_psk = cr_psk r, res_category = LONG_TERM,
     res_counterparty_id = Some (cr_server_id r)\<rparr>"

definition pp_as_resolved :: "pairing_psk \<Rightarrow> resolved_psk" where
  "pp_as_resolved p = \<lparr>res_psk_id = pp_psk_id p, res_psk = pp_psk p, res_category = PAIRING,
     res_counterparty_id = None\<rparr>"

definition st_as_resolved :: "staged_psk \<Rightarrow> resolved_psk" where
  "st_as_resolved p = \<lparr>res_psk_id = st_psk_id p, res_psk = st_psk p, res_category = PAIRING,
     res_counterparty_id = None\<rparr>"

definition with_method :: "server_record \<Rightarrow> pair_method \<Rightarrow> server_record" where
  "with_method r m =
     (if m \<in> set (sr_pair_methods r) then r
      else r\<lparr>sr_pair_methods := sr_pair_methods r @ [m]\<rparr>)"

definition is_expired :: "int \<Rightarrow> staged_psk \<Rightarrow> bool" where
  "is_expired now staged \<longleftrightarrow> now - st_created_at staged > STAGED_PAIRING_PSK_LIFETIME"

subsection \<open>The server-side store\<close>

record server_mem =
  s_records :: "(string, server_record) dict"
  s_staged :: "(string, staged_psk) dict"
  s_trusted :: "(string, trusted_unpaired) dict"

record server_store = server_mem +
  s_persistent :: bool
  s_disk :: "server_mem option"
  s_save_plan :: "bool list"

definition new_server_store :: "bool \<Rightarrow> server_store" where
  "new_server_store persist = \<lparr>s_records = [], s_staged = [], s_trusted = [],
     s_persistent = persist, s_disk = None, s_save_plan = []\<rparr>"

text \<open>What \<open>_save\<close> writes: everything but the expired staged PSKs.\<close>

definition server_image :: "int \<Rightarrow> server_store \<Rightarrow> server_mem" where
  "server_image now st = \<lparr>s_records = s_records st,
     s_staged = filter (\<lambda>(c, p). \<not> is_expired now p) (s_staged st), s_trusted = s_trusted st\<rparr>"

definition server_save :: "int \<Rightarrow> server_store \<Rightarrow> server_store \<times> bool" where
  "server_save now st =
     (if \<not> s_persistent st then (st, False)
      else case s_save_plan st of
        False # rest \<Rightarrow> (st\<lparr>s_save_plan := rest\<rparr>, True)
      | plan \<Rightarrow> (st\<lparr>s_disk := Some (server_image now st), s_save_plan := tl plan\<rparr>, False))"

definition s_record_by_client_id :: "server_store \<Rightarrow> string \<Rightarrow> server_record option" where
  "s_record_by_client_id st client_id = dget (s_records st) client_id"

definition s_list_records :: "server_store \<Rightarrow> server_record list" where
  "s_list_records st = dvalues (s_records st)"

definition s_store_record :: "int \<Rightarrow> server_record \<Rightarrow> server_store \<Rightarrow> server_store \<times> bool" where
  "s_store_record now r st =
     server_save now (st\<lparr>s_records := dset (sr_client_id r) r (s_records st)\<rparr>)"

definition s_remove_record :: "int \<Rightarrow> string \<Rightarrow> server_store \<Rightarrow> server_store \<times> bool" where
  "s_remove_record now client_id st =
     (if dget (s_records st) client_id \<noteq> None
      then server_save now (st\<lparr>s_records := ddel client_id (s_records st)\<rparr>)
      else (st, False))"

definition s_staged_pairing_psk :: "int \<Rightarrow> server_store \<Rightarrow> string \<Rightarrow> staged_psk option" where
  "s_staged_pairing_psk now st client_id =
     (case dget (s_staged st) client_id of
        None \<Rightarrow> None
      | Some staged \<Rightarrow> if is_expired now staged then None else Some staged)"

definition s_list_staged :: "int \<Rightarrow> server_store \<Rightarrow> staged_psk list" where
  "s_list_staged now st = filter (\<lambda>p. \<not> is_expired now p) (dvalues (s_staged st))"

definition s_stage_pairing_psk ::
  "int \<Rightarrow> string \<Rightarrow> staged_psk \<Rightarrow> server_store \<Rightarrow> server_store \<times> bool" where
  "s_stage_pairing_psk now client_id p st =
     server_save now (st\<lparr>s_staged := dset client_id p (s_staged st)\<rparr>)"

definition s_unstage_pairing_psk :: "int \<Rightarrow> string \<Rightarrow> server_store \<Rightarrow> server_store \<times> bool" where
  "s_unstage_pairing_psk now client_id st =
     (if dget (s_staged st) client_id \<noteq> None
      then server_save now (st\<lparr>s_staged := ddel client_id (s_staged st)\<rparr>)
      else (st, False))"

definition s_trusted_unpaired :: "server_store \<Rightarrow> string \<Rightarrow> trusted_unpaired option" where
  "s_trusted_unpaired st client_id = dget (s_trusted st) client_id"

definition s_list_trusted :: "server_store \<Rightarrow> trusted_unpaired list" where
  "s_list_trusted st = dvalues (s_trusted st)"

definition s_add_trusted_unpaired ::
  "int \<Rightarrow> trusted_unpaired \<Rightarrow> server_store \<Rightarrow> server_store \<times> bool" where
  "s_add_trusted_unpaired now c st =
     server_save now (st\<lparr>s_trusted := dset (tu_client_id c) c (s_trusted st)\<rparr>)"

definition s_remove_trusted_unpaired :: "int \<Rightarrow> string \<Rightarrow> server_store \<Rightarrow> server_store \<times> bool" where
  "s_remove_trusted_unpaired now client_id st =
     (if dget (s_trusted st) client_id \<noteq> None
      then server_save now (st\<lparr>s_trusted := ddel client_id (s_trusted st)\<rparr>)
      else (st, False))"

definition s_records_by_owner :: "server_store \<Rightarrow> string \<Rightarrow> server_record list" where
  "s_records_by_owner st owner = filter (\<lambda>r. sr_owner r = Some owner) (s_list_records st)"

lemmas server_op_defs [step_defs] =
  s_store_record_def s_remove_record_def s_stage_pairing_psk_def s_unstage_pairing_psk_def
  s_add_trusted_unpaired_def s_remove_trusted_unpaired_def

subsection \<open>The client-side store\<close>

record client_mem =
  c_records :: "(string, client_record) dict"
  c_config :: pairing_config
  c_pairing_psk :: "pairing_psk option"
  c_static_code :: "string option"
  c_rounds :: int
  c_last_playback :: "string option"

record client_store = client_mem +
  record_capacity :: int
  c_persistent :: bool
  c_disk :: "client_mem option"
  c_save_plan :: "bool list"

definition new_client_store :: "int \<Rightarrow> bool \<Rightarrow> load_error + client_store" where
  "new_client_store capacity persist =
     (if capacity < MIN_RECORD_CAPACITY then Inl (ValueError ''record_capacity'')
      else Inr \<lparr>c_records = [], c_config = default_config, c_pairing_psk = None,
        c_static_code = None, c_rounds = 0, c_last_playback = None, record_capacity = capacity,
        c_persistent = persist, c_disk = None, c_save_plan = []\<rparr>)"

definition client_image :: "client_store \<Rightarrow> client_mem" where
  "client_image st = client_mem.truncate st"

definition client_save :: "client_store \<Rightarrow> client_store \<times> bool" where
  "client_save st =
     (if \<not> c_persistent st then (st, False)
      else case c_save_plan st of
        False # rest \<Rightarrow> (st\<lparr>c_save_plan := rest\<rparr>, True)
      | plan \<Rightarrow> (st\<lparr>c_disk := Some (client_image st), c_save_plan := tl plan\<rparr>, False))"

text \<open>The only operation that undoes its change when the save fails.\<close>

definition set_last_playback_server_id ::
  "string option \<Rightarrow> client_store \<Rightarrow> client_store \<times> bool" where
  "set_last_playback_server_id server_id st =
     (if server_id = c_last_playback st then (st, False)
      else let previous = c_last_playback st in
        case client_save (st\<lparr>c_last_playback := server_id\<rparr>) of
          (st', True) \<Rightarrow> (st'\<lparr>c_last_playback := previous\<rparr>, True)
        | (st', False) \<Rightarrow> (st', False))"

definition resolve_by_psk_id :: "client_store \<Rightarrow> string \<Rightarrow> resolved_psk option" where
  "resolve_by_psk_id st psk_id =
     (case dget (c_records st) psk_id of
        Some r \<Rightarrow> Some (cr_as_resolved r)
      | None \<Rightarrow>
          (case c_pairing_psk st of
             Some p \<Rightarrow> if pp_psk_id p = psk_id then Some (pp_as_resolved p) else None
           | None \<Rightarrow> None))"

definition record_by_psk_id :: "client_store \<Rightarrow> string \<Rightarrow> client_record option" where
  "record_by_psk_id st psk_id = dget (c_records st) psk_id"

definition newest_step :: "(string, client_record) dict \<Rightarrow> client_record
    \<Rightarrow> (string, client_record) dict" where
  "newest_step newest r =
     (case dget newest (cr_server_id r) of
        None \<Rightarrow> dset (cr_server_id r) r newest
      | Some current \<Rightarrow>
          if cr_created_at r \<ge> cr_created_at current then dset (cr_server_id r) r newest
          else newest)"

definition newest_per_server :: "client_record list \<Rightarrow> (string, client_record) dict" where
  "newest_per_server records = foldl newest_step [] records"

definition list_records :: "client_store \<Rightarrow> client_record list" where
  "list_records st = dvalues (c_records st)"

definition record_by_server_id :: "client_store \<Rightarrow> string \<Rightarrow> client_record option" where
  "record_by_server_id st server_id = dget (newest_per_server (list_records st)) server_id"

definition store_record :: "client_record \<Rightarrow> client_store \<Rightarrow> client_store \<times> bool" where
  "store_record r st = client_save (st\<lparr>c_records := dset (cr_psk_id r) r (c_records st)\<rparr>)"

definition remove_record :: "string \<Rightarrow> client_store \<Rightarrow> client_store \<times> bool" where
  "remove_record psk_id st =
     (if dget (c_records st) psk_id \<noteq> None
      then client_save (st\<lparr>c_records := ddel psk_id (c_records st)\<rparr>)
      else (st, False))"

definition mark_record_used :: "int \<Rightarrow> string \<Rightarrow> client_store \<Rightarrow> client_store \<times> bool" where
  "mark_record_used now psk_id st =
     (case dget (c_records st) psk_id of
        None \<Rightarrow> (st, False)
      | Some r \<Rightarrow> client_save (st\<lparr>c_records :=
          dset psk_id (r\<lparr>cr_used := True, cr_last_used_at := now\<rparr>) (c_records st)\<rparr>))"

definition store_pairing_config :: "pairing_config \<Rightarrow> client_store \<Rightarrow> client_store \<times> bool" where
  "store_pairing_config config st = client_save (st\<lparr>c_config := config\<rparr>)"

definition set_pairing_psk :: "pairing_psk \<Rightarrow> client_store \<Rightarrow> client_store \<times> bool" where
  "set_pairing_psk p st = client_save (st\<lparr>c_pairing_psk := Some p\<rparr>)"

definition clear_pairing_psk :: "client_store \<Rightarrow> client_store \<times> bool" where
  "clear_pairing_psk st =
     (if c_pairing_psk st \<noteq> None then client_save (st\<lparr>c_pairing_psk := None\<rparr>) else (st, False))"

definition set_static_pairing_code :: "string \<Rightarrow> client_store
    \<Rightarrow> load_error + client_store \<times> bool" where
  "set_static_pairing_code code st =
     (if \<not> is_valid_static_pairing_code code then Inl (ValueError ''static pairing code'')
      else Inr (client_save (st\<lparr>c_static_code := Some code\<rparr>)))"

definition clear_static_pairing_code :: "client_store \<Rightarrow> client_store \<times> bool" where
  "clear_static_pairing_code st =
     (if c_static_code st \<noteq> None then client_save (st\<lparr>c_static_code := None\<rparr>) else (st, False))"

definition record_pairing_round :: "client_store \<Rightarrow> client_store \<times> bool" where
  "record_pairing_round st = client_save (st\<lparr>c_rounds := c_rounds st + 1\<rparr>)"

definition reset_pairing_rounds :: "client_store \<Rightarrow> client_store \<times> bool" where
  "reset_pairing_rounds st =
     (if c_rounds st \<noteq> 0 then client_save (st\<lparr>c_rounds := 0\<rparr>) else (st, False))"

definition is_pairing_round_limit_reached :: "client_store \<Rightarrow> bool" where
  "is_pairing_round_limit_reached st \<longleftrightarrow> c_rounds st \<ge> PAIRING_ROUND_LIMIT"

text \<open>\<open>resolve_pairing_outcome\<close>: the fresh PSK is an argument.\<close>

definition resolve_pairing_outcome :: "(bytes \<Rightarrow> bytes) \<Rightarrow> int \<Rightarrow> bytes \<Rightarrow> string
    \<Rightarrow> value_error + bytes \<times> client_record" where
  "resolve_pairing_outcome sha256 now fresh_psk server_id =
     then_ok (psk_id_for sha256 fresh_psk) (\<lambda>psk_id.
       Inr (fresh_psk, \<lparr>cr_psk_id = psk_id, cr_psk = fresh_psk, cr_server_id = server_id,
         cr_used = False, cr_created_at = now, cr_last_used_at = now\<rparr>))"

definition evict_over_capacity :: "string list \<Rightarrow> client_store \<Rightarrow> client_store \<times> bool" where
  "evict_over_capacity keep st =
     (let per_server = list_records st;
          excess = int (length per_server) - record_capacity st
      in if excess \<le> 0 then (st, False)
         else let evictable = sort_key cr_last_used_at
                (filter (\<lambda>r. cr_psk_id r \<notin> set keep) per_server)
              in run_all remove_record (map cr_psk_id (take (nat excess) evictable)) st)"

definition stale_for :: "client_record \<Rightarrow> string list \<Rightarrow> client_record list \<Rightarrow> string list" where
  "stale_for r protected existing =
     map cr_psk_id (filter (\<lambda>e. cr_server_id e = cr_server_id r \<and> cr_psk_id e \<noteq> cr_psk_id r
       \<and> cr_psk_id e \<notin> set protected) existing)"

definition replace_record_for_server_id :: "client_record \<Rightarrow> string list \<Rightarrow> client_store
    \<Rightarrow> client_store \<times> bool" where
  "replace_record_for_server_id r protected st =
     (let stale = stale_for r protected (list_records st)
      in after_ok (after_ok (store_record r st) (run_all remove_record stale))
           (evict_over_capacity (cr_psk_id r # protected)))"

text \<open>The values of the table are distinct objects, so \<open>is not\<close> is inequality of records.\<close>

definition remove_superseded_records :: "string list \<Rightarrow> client_store \<Rightarrow> client_store \<times> bool" where
  "remove_superseded_records protected st =
     (let records = list_records st; newest = newest_per_server records
      in run_all remove_record
           (map cr_psk_id (filter (\<lambda>r. dget newest (cr_server_id r) \<noteq> Some r
              \<and> cr_psk_id r \<notin> set protected) records)) st)"

lemmas client_op_defs [step_defs] =
  store_record_def remove_record_def mark_record_used_def store_pairing_config_def
  set_pairing_psk_def clear_pairing_psk_def clear_static_pairing_code_def
  record_pairing_round_def reset_pairing_rounds_def

subsection \<open>What saving leaves alone\<close>

lemma client_save_frame [simp]:
  "c_records (fst (client_save st)) = c_records st"
  "c_config (fst (client_save st)) = c_config st"
  "c_pairing_psk (fst (client_save st)) = c_pairing_psk st"
  "c_static_code (fst (client_save st)) = c_static_code st"
  "c_rounds (fst (client_save st)) = c_rounds st"
  "c_last_playback (fst (client_save st)) = c_last_playback st"
  "record_capacity (fst (client_save st)) = record_capacity st"
  "c_persistent (fst (client_save st)) = c_persistent st"
  by (auto simp: client_save_def split: list.splits bool.splits)

lemma server_save_frame [simp]:
  "s_records (fst (server_save now st)) = s_records st"
  "s_staged (fst (server_save now st)) = s_staged st"
  "s_trusted (fst (server_save now st)) = s_trusted st"
  "s_persistent (fst (server_save now st)) = s_persistent st"
  by (auto simp: server_save_def split: list.splits bool.splits)

lemma remove_record_records:
  "c_records (fst (remove_record k st)) = ddel k (c_records st)"
  by (simp add: remove_record_def ddel_absent)

lemma store_record_records:
  "c_records (fst (store_record r st)) = dset (cr_psk_id r) r (c_records st)"
  by (simp add: store_record_def)

lemma remove_record_capacity [simp]: "record_capacity (fst (remove_record k st)) = record_capacity st"
  by (simp add: remove_record_def)

lemma set_last_playback_state:
  "fst (set_last_playback_server_id s st) =
     (if s = c_last_playback st then st
      else let r = client_save (st\<lparr>c_last_playback := s\<rparr>)
        in if snd r then (fst r)\<lparr>c_last_playback := c_last_playback st\<rparr> else fst r)"
  by (auto simp: set_last_playback_server_id_def Let_def split: prod.splits bool.splits)

text \<open>The tables of both stores are keyed tables.\<close>

interpretation server_records: keyed_table s_record_by_client_id
  "\<lambda>st r. fst (s_store_record now r st)" "\<lambda>st k. fst (s_remove_record now k st)" sr_client_id
  for now
  by unfold_locales (auto simp: s_record_by_client_id_def s_store_record_def s_remove_record_def)

interpretation trusted_clients: keyed_table s_trusted_unpaired
  "\<lambda>st c. fst (s_add_trusted_unpaired now c st)"
  "\<lambda>st k. fst (s_remove_trusted_unpaired now k st)" tu_client_id
  for now
  by unfold_locales
    (auto simp: s_trusted_unpaired_def s_add_trusted_unpaired_def s_remove_trusted_unpaired_def)

interpretation client_records: keyed_table record_by_psk_id
  "\<lambda>st r. fst (store_record r st)" "\<lambda>st k. fst (remove_record k st)" cr_psk_id
  by unfold_locales (auto simp: record_by_psk_id_def store_record_records remove_record_records)

subsection \<open>The invariant of the client store\<close>

definition client_store_ok :: "client_store \<Rightarrow> bool" where
  "client_store_ok st \<longleftrightarrow>
     dict_ok (c_records st) \<and>
     (\<forall>(k, r) \<in> set (c_records st). cr_psk_id r = k \<and> length (cr_psk r) = PSK_SIZE) \<and>
     record_capacity st \<ge> MIN_RECORD_CAPACITY \<and> 0 \<le> c_rounds st \<and>
     (case c_static_code st of None \<Rightarrow> True | Some code \<Rightarrow> is_valid_static_pairing_code code) \<and>
     (case c_pairing_psk st of None \<Rightarrow> True | Some p \<Rightarrow> length (pp_psk p) = PSK_SIZE)"

datatype client_op =
    StoreRecord client_record
  | RemoveRecord string
  | MarkUsed int string
  | StoreConfig pairing_config
  | SetPairingPsk pairing_psk
  | ClearPairingPsk
  | SetStaticCode string
  | ClearStaticCode
  | RecordRound
  | ResetRounds
  | SetLastPlayback "string option"
  | ReplaceForServer client_record "string list"
  | RemoveSuperseded "string list"

text \<open>Records and Pairing PSKs that exist at all have passed \<open>_check_psk\<close>.\<close>

fun op_psks_ok :: "client_op \<Rightarrow> bool" where
  "op_psks_ok (StoreRecord r) \<longleftrightarrow> length (cr_psk r) = PSK_SIZE"
| "op_psks_ok (SetPairingPsk p) \<longleftrightarrow> length (pp_psk p) = PSK_SIZE"
| "op_psks_ok (ReplaceForServer r _) \<longleftrightarrow> length (cr_psk r) = PSK_SIZE"
| "op_psks_ok _ \<longleftrightarrow> True"

fun client_op_step :: "client_store \<Rightarrow> client_op \<Rightarrow> client_store" where
  "client_op_step st (StoreRecord r) = fst (store_record r st)"
| "client_op_step st (RemoveRecord k) = fst (remove_record k st)"
| "client_op_step st (MarkUsed now k) = fst (mark_record_used now k st)"
| "client_op_step st (StoreConfig c) = fst (store_pairing_config c st)"
| "client_op_step st (SetPairingPsk p) = fst (set_pairing_psk p st)"
| "client_op_step st ClearPairingPsk = fst (clear_pairing_psk st)"
| "client_op_step st (SetStaticCode code) =
     (case set_static_pairing_code code st of Inl _ \<Rightarrow> st | Inr r \<Rightarrow> fst r)"
| "client_op_step st ClearStaticCode = fst (clear_static_pairing_code st)"
| "client_op_step st RecordRound = fst (record_pairing_round st)"
| "client_op_step st ResetRounds = fst (reset_pairing_rounds st)"
| "client_op_step st (SetLastPlayback s) = fst (set_last_playback_server_id s st)"
| "client_op_step st (ReplaceForServer r p) = fst (replace_record_for_server_id r p st)"
| "client_op_step st (RemoveSuperseded p) = fst (remove_superseded_records p st)"

text \<open>An operation whose record or PSK is malformed cannot be called: building it raises first.\<close>

definition guarded_step :: "client_store \<Rightarrow> client_op \<Rightarrow> client_store" where
  "guarded_step st op = (if op_psks_ok op then client_op_step st op else st)"

lemma ok_save [simp]: "client_store_ok (fst (client_save st)) = client_store_ok st"
  by (simp add: client_store_ok_def)

lemma ok_set_records:
  "client_store_ok st \<Longrightarrow> cr_psk_id r = k \<Longrightarrow> length (cr_psk r) = PSK_SIZE \<Longrightarrow>
     client_store_ok (st\<lparr>c_records := dset k r (c_records st)\<rparr>)"
  by (auto simp: client_store_ok_def set_dset)

lemma ok_store: "client_store_ok st \<Longrightarrow> length (cr_psk r) = PSK_SIZE \<Longrightarrow>
    client_store_ok (fst (store_record r st))"
  by (simp add: store_record_def ok_set_records)

lemma ok_remove: "client_store_ok st \<Longrightarrow> client_store_ok (fst (remove_record k st))"
  by (auto simp: remove_record_def client_store_ok_def set_ddel)

lemma ok_record: "client_store_ok st \<Longrightarrow> dget (c_records st) k = Some r \<Longrightarrow>
    cr_psk_id r = k \<and> length (cr_psk r) = PSK_SIZE"
  by (auto simp: client_store_ok_def dest!: map_of_SomeD)

lemma ok_mark: "client_store_ok st \<Longrightarrow> client_store_ok (fst (mark_record_used now k st))"
  by (auto simp: mark_record_used_def split: option.splits intro!: ok_set_records dest: ok_record)

lemma ok_run_remove: "client_store_ok st \<Longrightarrow> client_store_ok (fst (run_all remove_record ks st))"
  by (rule run_all_inv [where P = client_store_ok]) (rule ok_remove)

lemma ok_evict: "client_store_ok st \<Longrightarrow> client_store_ok (fst (evict_over_capacity keep st))"
  by (simp add: evict_over_capacity_def Let_def ok_run_remove)

lemma ok_replace: "client_store_ok st \<Longrightarrow> length (cr_psk r) = PSK_SIZE \<Longrightarrow>
    client_store_ok (fst (replace_record_for_server_id r p st))"
  unfolding replace_record_for_server_id_def Let_def
  by (intro after_ok_inv [where P = client_store_ok] ok_store ok_run_remove ok_evict)

lemma ok_last_playback:
  "client_store_ok st \<Longrightarrow> client_store_ok (fst (set_last_playback_server_id s st))"
proof -
  assume ok: "client_store_ok st"
  have frame: "client_store_ok (v\<lparr>c_last_playback := x\<rparr>) = client_store_ok v" for v x
    by (simp add: client_store_ok_def)
  have "client_store_ok (fst (client_save (st\<lparr>c_last_playback := s\<rparr>)))"
    using ok frame by simp
  then show ?thesis
    using ok frame by (simp add: set_last_playback_state Let_def)
qed

lemma guarded_step_ok [inv_intros]: "client_store_ok st \<Longrightarrow> client_store_ok (guarded_step st op)"
proof (cases op)
  case (SetStaticCode code)
  assume "client_store_ok st"
  then show ?thesis
    using SetStaticCode
    by (auto simp: guarded_step_def set_static_pairing_code_def) (auto simp: client_store_ok_def)
qed (auto simp: guarded_step_def ok_store ok_remove ok_mark ok_replace ok_last_playback ok_run_remove
      remove_superseded_records_def Let_def store_pairing_config_def set_pairing_psk_def
      clear_pairing_psk_def clear_static_pairing_code_def record_pairing_round_def
      reset_pairing_rounds_def, auto simp: client_store_ok_def)

interpretation client_ops: invariant_machine guarded_step client_store_ok
  by unfold_locales (rule guarded_step_ok)

lemma guarded_step_capacity: "record_capacity (guarded_step st op) = record_capacity st"
proof -
  have run: "record_capacity (fst (run_all remove_record ks v)) = record_capacity v" for ks v
    by (rule run_all_inv [where P = "\<lambda>u. record_capacity u = record_capacity v"]) simp_all
  have evict: "record_capacity (fst (evict_over_capacity keep v)) = record_capacity v" for keep v
    by (simp add: evict_over_capacity_def Let_def run)
  have rep: "record_capacity (fst (replace_record_for_server_id r p v)) = record_capacity v" for r p v
    by (simp add: replace_record_for_server_id_def Let_def after_ok_def run evict store_record_def)
  have last: "record_capacity (fst (set_last_playback_server_id s v)) = record_capacity v" for s v
    by (simp add: set_last_playback_state Let_def)
  show ?thesis
    by (cases op) (auto simp: guarded_step_def step_defs set_static_pairing_code_def rep last run
        remove_superseded_records_def Let_def split: option.splits)
qed

interpretation client_ops: framed_machine guarded_step client_store_ok record_capacity
  by unfold_locales (rule guarded_step_capacity)

subsection \<open>The newest record of each server\<close>

lemma newest_per_server_snoc:
  "newest_per_server (rs @ [r]) = newest_step (newest_per_server rs) r"
  by (simp add: newest_per_server_def)

lemma newest_per_server_spec:
  "case dget (newest_per_server rs) s of
     None \<Rightarrow> \<forall>r\<in>set rs. cr_server_id r \<noteq> s
   | Some r \<Rightarrow> r \<in> set rs \<and> cr_server_id r = s \<and>
       (\<forall>r'\<in>set rs. cr_server_id r' = s \<longrightarrow> cr_created_at r' \<le> cr_created_at r)"
proof (induction rs rule: rev_induct)
  case (snoc r rs)
  then show ?case
    by (auto simp: newest_per_server_snoc newest_step_def split: option.splits if_splits)
qed (simp add: newest_per_server_def)

lemma newest_last:
  assumes "\<forall>r'\<in>set rs. cr_server_id r' = cr_server_id r \<longrightarrow> cr_created_at r' \<le> cr_created_at r"
  shows "dget (newest_per_server (rs @ [r])) (cr_server_id r) = Some r"
  using newest_per_server_spec [of rs "cr_server_id r"] assms
  by (auto simp: newest_per_server_snoc newest_step_def split: option.splits)

subsection \<open>Removing many records\<close>

lemma ddel_filter: "ddel k d = filter (\<lambda>p. fst p \<noteq> k) d"
  by (induction d) auto

lemma run_remove_records:
  "\<not> snd (run_all remove_record ks st) \<Longrightarrow>
     c_records (fst (run_all remove_record ks st)) = filter (\<lambda>p. fst p \<notin> set ks) (c_records st)"
proof (induction ks arbitrary: st)
  case (Cons k ks)
  then have ok: "\<not> snd (remove_record k st)"
    by (auto simp: after_ok_def split: if_splits)
  with Cons show ?case
    by (simp add: after_ok_def remove_record_records ddel_filter)
qed simp

lemma run_remove_subset:
  "p \<in> set (c_records st) \<Longrightarrow> fst p \<notin> set ks \<Longrightarrow> p \<in> set (c_records (fst (run_all remove_record ks st)))"
proof (induction ks arbitrary: st)
  case (Cons k ks)
  then show ?case
    by (auto simp: after_ok_def remove_record_records set_ddel intro!: Cons.IH)
qed simp

lemma run_remove_capacity [simp]:
  "record_capacity (fst (run_all remove_record ks st)) = record_capacity st"
  by (rule run_all_inv [where P = "\<lambda>u. record_capacity u = record_capacity st"]) simp_all

text \<open>Under the invariant a record's key is its \<open>psk_id\<close>.\<close>

lemma ok_keys: "client_store_ok st \<Longrightarrow> p \<in> set (c_records st) \<Longrightarrow> cr_psk_id (snd p) = fst p"
  by (auto simp: client_store_ok_def)

lemma ok_psk_ids: "client_store_ok st \<Longrightarrow> map cr_psk_id (list_records st) = map fst (c_records st)"
  by (auto simp: list_records_def dest: ok_keys)

lemma ok_distinct: "client_store_ok st \<Longrightarrow> distinct (map cr_psk_id (list_records st))"
  by (simp add: ok_psk_ids) (simp add: client_store_ok_def dict_ok_def)

subsection \<open>Eviction\<close>

text \<open>The records an eviction removes: the least recently used outside \<open>keep\<close>, as many as exceed
  the capacity, or all of them.\<close>

definition evicted :: "string list \<Rightarrow> client_store \<Rightarrow> client_record list" where
  "evicted keep st = take (nat (int (length (list_records st)) - record_capacity st))
     (sort_key cr_last_used_at (filter (\<lambda>r. cr_psk_id r \<notin> set keep) (list_records st)))"

lemma evict_is_run:
  "evict_over_capacity keep st = run_all remove_record (map cr_psk_id (evicted keep st)) st"
  by (simp add: evict_over_capacity_def evicted_def Let_def)

lemma evicted_sub: "r \<in> set (evicted keep st) \<Longrightarrow> r \<in> set (list_records st) \<and> cr_psk_id r \<notin> set keep"
  by (auto simp: evicted_def dest!: in_set_takeD)

lemma take_sorted_le:
  assumes "sorted (map f xs)" "x \<in> set (take n xs)" "y \<in> set (drop n xs)"
  shows "f x \<le> f y"
proof -
  have "sorted (map f (take n xs) @ map f (drop n xs))"
    using assms(1) by (metis append_take_drop_id map_append)
  with assms(2,3) show ?thesis by (auto simp: sorted_append)
qed

lemma evicted_lru:
  assumes "r \<in> set (evicted keep st)" "s \<in> set (list_records st)" "cr_psk_id s \<notin> set keep"
    "s \<notin> set (evicted keep st)"
  shows "cr_last_used_at r \<le> cr_last_used_at s"
proof -
  let ?xs = "sort_key cr_last_used_at (filter (\<lambda>r. cr_psk_id r \<notin> set keep) (list_records st))"
  let ?n = "nat (int (length (list_records st)) - record_capacity st)"
  have "s \<in> set ?xs" using assms(2,3) by simp
  then have "s \<in> set (take ?n ?xs) \<union> set (drop ?n ?xs)" by (metis append_take_drop_id set_append)
  then have "s \<in> set (drop ?n ?xs)" using assms(4) unfolding evicted_def by blast
  moreover have "sorted (map cr_last_used_at ?xs)" by simp
  ultimately show ?thesis using assms(1) take_sorted_le by (metis evicted_def)
qed

lemma length_filter_notin:
  assumes "distinct (map f xs)" "set ks \<subseteq> set (map f xs)" "distinct ks"
  shows "length (filter (\<lambda>x. f x \<notin> set ks) xs) + length ks = length xs"
proof -
  have "set (map f (filter (\<lambda>x. f x \<in> set ks) xs)) = set ks" using assms(2) by auto
  moreover have "distinct (map f (filter (\<lambda>x. f x \<in> set ks) xs))"
    using assms(1) by (simp add: distinct_map_filter)
  ultimately have "length (filter (\<lambda>x. f x \<in> set ks) xs) = length ks"
    using assms(3) by (metis distinct_card length_map)
  then show ?thesis
    using sum_length_filter_compl [of "\<lambda>x. f x \<in> set ks" xs] by simp
qed

lemma evict_length:
  assumes ok: "client_store_ok st" and fin: "\<not> snd (evict_over_capacity keep st)"
  shows "int (length (c_records (fst (evict_over_capacity keep st))))
    \<le> max (record_capacity st) (int (length (filter (\<lambda>r. cr_psk_id r \<in> set keep) (list_records st))))"
proof -
  let ?ev = "map cr_psk_id (evicted keep st)"
  let ?xs = "filter (\<lambda>r. cr_psk_id r \<notin> set keep) (list_records st)"
  let ?n = "int (length (list_records st))"
  have d: "distinct (map fst (c_records st))"
    using ok by (simp add: client_store_ok_def dict_ok_def)
  have perm: "distinct (map cr_psk_id (sort_key cr_last_used_at ?xs))"
    using ok_distinct [OF ok] by (simp add: distinct_map distinct_map_filter inj_on_def)
  have "distinct ?ev"
    using perm unfolding evicted_def take_map [symmetric] by (rule distinct_take)
  moreover have "set ?ev \<subseteq> set (map fst (c_records st))"
    using evicted_sub ok_psk_ids [OF ok] by (metis (no_types, lifting) image_mono list.set_map subsetI)
  ultimately have "length (filter (\<lambda>p. fst p \<notin> set ?ev) (c_records st)) + length ?ev
      = length (c_records st)"
    using d by (intro length_filter_notin)
  then have len: "int (length (c_records (fst (evict_over_capacity keep st)))) = ?n - int (length ?ev)"
    using run_remove_records fin by (simp add: evict_is_run list_records_def)
  have "length ?ev = min (nat (?n - record_capacity st)) (length ?xs)"
    by (simp add: evicted_def min.commute)
  moreover have "length (filter (\<lambda>r. cr_psk_id r \<in> set keep) (list_records st)) + length ?xs
      = length (list_records st)"
    using sum_length_filter_compl [of "\<lambda>r. cr_psk_id r \<in> set keep" "list_records st"] by simp
  ultimately show ?thesis unfolding len by linarith
qed

subsection \<open>Replacing a server's record\<close>

text \<open>The store after the new record is in and the stale ones are out, before eviction.\<close>

definition after_stale :: "client_record \<Rightarrow> string list \<Rightarrow> client_store \<Rightarrow> client_store \<times> bool" where
  "after_stale r protected st =
     after_ok (store_record r st) (run_all remove_record (stale_for r protected (list_records st)))"

lemma replace_is:
  "replace_record_for_server_id r protected st =
     after_ok (after_stale r protected st) (evict_over_capacity (cr_psk_id r # protected))"
  by (simp add: replace_record_for_server_id_def after_stale_def Let_def)

lemma stale_not_kept: "k \<in> set (stale_for r protected rs) \<Longrightarrow> k \<noteq> cr_psk_id r \<and> k \<notin> set protected"
  by (auto simp: stale_for_def)

lemma ok_after_stale: "client_store_ok st \<Longrightarrow> length (cr_psk r) = PSK_SIZE \<Longrightarrow>
    client_store_ok (fst (after_stale r protected st))"
  unfolding after_stale_def by (intro after_ok_inv [where P = client_store_ok] ok_store ok_run_remove)

lemma after_stale_records:
  assumes "\<not> snd (after_stale r protected st)"
  shows "c_records (fst (after_stale r protected st)) =
    filter (\<lambda>p. fst p \<notin> set (stale_for r protected (list_records st)))
      (dset (cr_psk_id r) r (c_records st))"
  using assms run_remove_records
  by (auto simp: after_stale_def after_ok_def store_record_records split: if_splits)

lemma after_stale_capacity [simp]:
  "record_capacity (fst (after_stale r protected st)) = record_capacity st"
  by (simp add: after_stale_def after_ok_def store_record_def)

lemma replace_keeps:
  assumes "client_store_ok st" "length (cr_psk r) = PSK_SIZE"
    and "p \<in> set (dset (cr_psk_id r) r (c_records st))" "fst p \<in> set (cr_psk_id r # protected)"
  shows "p \<in> set (c_records (fst (replace_record_for_server_id r protected st)))"
proof -
  have st: "p \<in> set (c_records (fst (store_record r st)))"
    using assms(3) by (simp add: store_record_records)
  have "fst p \<notin> set (stale_for r protected (list_records st))"
    using assms(4) stale_not_kept by fastforce
  with st have m: "p \<in> set (c_records (fst (after_stale r protected st)))"
    by (simp add: after_stale_def after_ok_def run_remove_subset)
  have "fst p \<notin> set (map cr_psk_id (evicted (cr_psk_id r # protected) (fst (after_stale r protected st))))"
    using assms(4) evicted_sub by fastforce
  with m show ?thesis
    by (simp add: replace_is after_ok_def evict_is_run run_remove_subset del: set_map)
qed

lemma replace_done:
  assumes "replace_record_for_server_id r protected st = (st', False)"
  shows "\<not> snd (after_stale r protected st)"
    "evict_over_capacity (cr_psk_id r # protected) (fst (after_stale r protected st)) = (st', False)"
  using assms by (auto simp: replace_is after_ok_def split: if_splits)

text \<open>Storing a pairing keeps the store within its capacity: after
  \<open>replace_record_for_server_id\<close> completes, the client holds at most \<open>record_capacity\<close> records,
  unless more than that many are the new record or back open connections, and then it holds no
  others.\<close>

theorem replace_within_capacity:
  assumes "client_store_ok st" and "length (cr_psk r) = PSK_SIZE"
    and "replace_record_for_server_id r protected st = (st', False)"
  shows "int (length (c_records st')) \<le> max (record_capacity st)
    (int (length (filter (\<lambda>e. cr_psk_id e \<in> set (cr_psk_id r # protected)) (list_records st'))))"
proof -
  let ?keep = "cr_psk_id r # protected"
  let ?m = "fst (after_stale r protected st)"
  have d: "\<not> snd (after_stale r protected st)" "st' = fst (evict_over_capacity ?keep ?m)"
    "\<not> snd (evict_over_capacity ?keep ?m)"
    using replace_done [OF assms(3)] by simp_all
  have okm: "client_store_ok ?m" by (rule ok_after_stale [OF assms(1,2)])
  have recs: "c_records st' = filter (\<lambda>p. fst p \<notin> set (map cr_psk_id (evicted ?keep ?m))) (c_records ?m)"
    using d by (simp add: evict_is_run run_remove_records)
  have "filter (\<lambda>e. cr_psk_id e \<in> set ?keep) (list_records ?m)
      = filter (\<lambda>e. cr_psk_id e \<in> set ?keep) (list_records st')"
  proof -
    have "filter (\<lambda>p. cr_psk_id (snd p) \<in> set ?keep) (c_records ?m)
        = filter (\<lambda>p. cr_psk_id (snd p) \<in> set ?keep) (c_records st')"
      unfolding recs filter_filter
      using evicted_sub [of _ ?keep ?m] ok_keys [OF okm] by (intro filter_cong) fastforce+
    then show ?thesis by (simp add: list_records_def filter_map o_def)
  qed
  with evict_length [OF okm d(3)] d(2) show ?thesis by simp
qed

definition demo_record :: "string \<Rightarrow> nat \<Rightarrow> string \<Rightarrow> client_record" where
  "demo_record i n server = \<lparr>cr_psk_id = i, cr_psk = replicate 32 (word_of_nat n),
     cr_server_id = server, cr_used = False, cr_created_at = int n, cr_last_used_at = int n\<rparr>"

definition demo_store :: client_store where
  "demo_store = \<lparr>c_records = [(''a'', demo_record ''a'' 1 ''s1''),
       (''b'', demo_record ''b'' 2 ''s2''), (''c'', demo_record ''c'' 3 ''s3''),
       (''d'', demo_record ''d'' 4 ''s4''), (''e'', demo_record ''e'' 5 ''s5'')],
     c_config = default_config, c_pairing_psk = None, c_static_code = None, c_rounds = 0,
     c_last_playback = None, record_capacity = 5, c_persistent = False, c_disk = None,
     c_save_plan = []\<rparr>"

lemma demo_store_ok: "client_store_ok demo_store"
  by (simp add: client_store_ok_def demo_store_def dict_ok_def demo_record_def PSK_SIZE_def
      MIN_RECORD_CAPACITY_def)

lemma demo_psk: "length (cr_psk (demo_record i n s)) = PSK_SIZE"
  by (simp add: demo_record_def PSK_SIZE_def)

lemma not_persistent_run:
  "\<not> c_persistent st \<Longrightarrow> \<not> snd (run_all remove_record ks st) \<and> \<not> c_persistent (fst (run_all remove_record ks st))"
proof (induction ks arbitrary: st)
  case (Cons k ks)
  have "\<not> snd (remove_record k st)" "\<not> c_persistent (fst (remove_record k st))"
    using Cons.prems by (simp_all add: remove_record_def client_save_def)
  with Cons.IH show ?case by (simp add: after_ok_def)
qed simp

lemma in_memory_never_raises:
  "\<not> c_persistent st \<Longrightarrow> replace_record_for_server_id r protected st =
     (fst (replace_record_for_server_id r protected st), False)"
proof -
  assume np: "\<not> c_persistent st"
  have "\<not> snd (after_stale r protected st) \<and> \<not> c_persistent (fst (after_stale r protected st))"
    using np not_persistent_run
    by (simp add: after_stale_def after_ok_def store_record_def client_save_def)
  then have "\<not> snd (replace_record_for_server_id r protected st)"
    using not_persistent_run by (simp add: replace_is after_ok_def evict_is_run)
  then show ?thesis by (simp add: prod_eq_iff)
qed

theorem replace_within_capacity_witness:
  "\<exists>st'. replace_record_for_server_id (demo_record ''f'' 6 ''new'') [] demo_store = (st', False) \<and>
     int (length (c_records st')) \<le> max 5 (int (length (filter
       (\<lambda>e. cr_psk_id e \<in> {cr_psk_id (demo_record ''f'' 6 ''new'')}) (list_records st'))))"
proof -
  have np: "\<not> c_persistent demo_store" and cap: "record_capacity demo_store = 5"
    by (simp_all add: demo_store_def)
  note run = in_memory_never_raises [OF np, of "demo_record ''f'' 6 ''new''" "[]"]
  show ?thesis
    using replace_within_capacity [OF demo_store_ok demo_psk run] run cap by auto
qed

text \<open>C27. A pairing never costs an open connection its record, and the new record is in: whatever is
  evicted or superseded, and even when a save fails half way, the record just paired and every
  protected record survive.\<close>

theorem replace_keeps_protected:
  assumes "client_store_ok st" and "length (cr_psk r) = PSK_SIZE"
  shows "record_by_psk_id (fst (replace_record_for_server_id r protected st)) (cr_psk_id r) = Some r \<and>
    (k \<in> set protected \<and> k \<noteq> cr_psk_id r \<and> record_by_psk_id st k = Some e \<longrightarrow>
       record_by_psk_id (fst (replace_record_for_server_id r protected st)) k = Some e)"
proof -
  let ?st' = "fst (replace_record_for_server_id r protected st)"
  have ok': "dict_ok (c_records ?st')"
    using ok_replace [OF assms] by (simp add: client_store_ok_def)
  have okd: "dict_ok (dset (cr_psk_id r) r (c_records st))"
    using assms(1) by (simp add: client_store_ok_def)
  have "(cr_psk_id r, r) \<in> set (c_records ?st')"
    by (rule replace_keeps [OF assms]) (use okd in \<open>simp_all add: dict_ok_values\<close>)
  moreover have "(k, e) \<in> set (c_records ?st')"
    if "k \<in> set protected" "k \<noteq> cr_psk_id r" "record_by_psk_id st k = Some e"
    by (rule replace_keeps [OF assms])
      (use that okd in \<open>simp_all add: dict_ok_values record_by_psk_id_def\<close>)
  ultimately show ?thesis
    using ok' by (simp add: dict_ok_values record_by_psk_id_def)
qed

theorem replace_keeps_protected_witness:
  "record_by_psk_id (fst (replace_record_for_server_id (demo_record ''f'' 6 ''new'') [''a''] demo_store)) ''a''
     = Some (demo_record ''a'' 1 ''s1'')"
proof -
  have "record_by_psk_id demo_store ''a'' = Some (demo_record ''a'' 1 ''s1'')"
    by (simp add: record_by_psk_id_def demo_store_def)
  moreover have "cr_psk_id (demo_record ''f'' 6 ''new'') \<noteq> ''a''"
    by (simp add: demo_record_def)
  ultimately show ?thesis
    using replace_keeps_protected [OF demo_store_ok demo_psk, of "''f''" 6 "''new''" "[''a'']" "''a''"
        "demo_record ''a'' 1 ''s1''"] by simp
qed

text \<open>C28. Eviction is least-recently-used: a record that an eviction drops was last used no later
  than any record outside the kept ones that it leaves in place.\<close>

theorem eviction_is_lru:
  assumes "client_store_ok st" and "evict_over_capacity keep st = (st', False)"
    and "record_by_psk_id st k = Some r" and "record_by_psk_id st' k = None"
    and "record_by_psk_id st' k' = Some s" and "k' \<notin> set keep"
  shows "cr_last_used_at r \<le> cr_last_used_at s"
proof (rule evicted_lru [of r keep st])
  have recs: "c_records st' = filter (\<lambda>p. fst p \<notin> set (map cr_psk_id (evicted keep st))) (c_records st)"
    using run_remove_records [of "map cr_psk_id (evicted keep st)" st] assms(2)
    by (simp add: evict_is_run)
  have ok: "dict_ok (c_records st)" using assms(1) by (simp add: client_store_ok_def)
  then have ok': "dict_ok (c_records st')"
    unfolding recs by (simp add: dict_ok_def distinct_map_filter)
  have r: "(k, r) \<in> set (c_records st)"
    using assms(3) ok by (simp add: dict_ok_values record_by_psk_id_def)
  have "(k, r) \<notin> set (c_records st')"
    using assms(4) ok' by (simp add: dict_ok_values record_by_psk_id_def)
  with r recs obtain e where e: "e \<in> set (evicted keep st)" "cr_psk_id e = k" by auto
  then have "e \<in> set (list_records st)" using evicted_sub by blast
  then have "(k, e) \<in> set (c_records st)"
    using e(2) ok_keys [OF assms(1)] by (auto simp: list_records_def)
  with r ok have "e = r" by (simp add: dict_ok_values)
  with e(1) show "r \<in> set (evicted keep st)" by simp
  have s': "(k', s) \<in> set (c_records st')"
    using assms(5) ok' by (simp add: dict_ok_values record_by_psk_id_def)
  then have s: "(k', s) \<in> set (c_records st)" unfolding recs by simp
  then have sk: "cr_psk_id s = k'" using ok_keys [OF assms(1)] by force
  show "s \<in> set (list_records st)" using s by (force simp: list_records_def)
  show "cr_psk_id s \<notin> set keep" using sk assms(6) by simp
  show "s \<notin> set (evicted keep st)" using s' sk unfolding recs by auto
qed

theorem eviction_is_lru_witness:
  "cr_last_used_at (demo_record ''a'' 1 ''s1'') \<le> cr_last_used_at (demo_record ''b'' 2 ''s2'')"
proof -
  let ?st = "demo_store\<lparr>record_capacity := 5\<rparr>\<lparr>c_records := c_records demo_store
      @ [(''f'', demo_record ''f'' 6 ''new'')]\<rparr>"
  have ok: "client_store_ok ?st"
    by (simp add: client_store_ok_def demo_store_def dict_ok_def demo_record_def PSK_SIZE_def
        MIN_RECORD_CAPACITY_def)
  have ev: "evicted [] ?st = [demo_record ''a'' 1 ''s1'']"
    by (simp add: evicted_def list_records_def demo_store_def demo_record_def)
  have e: "evict_over_capacity [] ?st = (?st\<lparr>c_records := tl (c_records ?st)\<rparr>, False)"
    by (simp add: evict_is_run ev after_ok_def remove_record_def client_save_def)
      (simp add: demo_store_def demo_record_def)
  show ?thesis
    by (rule eviction_is_lru [OF ok e, of "''a''" _ "''b''"])
      (simp_all add: record_by_psk_id_def demo_store_def)
qed

text \<open>What a completed pairing leaves of the records of its server.\<close>

lemma replace_other_records:
  assumes "client_store_ok st" and "length (cr_psk r) = PSK_SIZE"
    and "replace_record_for_server_id r protected st = (st', False)"
    and "e \<in> set (list_records st')" and "cr_server_id e = cr_server_id r"
  shows "e = r \<or> cr_psk_id e \<in> set protected"
proof (rule ccontr)
  let ?keep = "cr_psk_id r # protected"
  let ?m = "fst (after_stale r protected st)"
  assume contra: "\<not> (e = r \<or> cr_psk_id e \<in> set protected)"
  have d: "\<not> snd (after_stale r protected st)" "st' = fst (evict_over_capacity ?keep ?m)"
    "\<not> snd (evict_over_capacity ?keep ?m)"
    using replace_done [OF assms(3)] by simp_all
  have okm: "client_store_ok ?m" by (rule ok_after_stale [OF assms(1,2)])
  obtain k where k: "(k, e) \<in> set (c_records st')"
    using assms(4) by (auto simp: list_records_def)
  then have km: "(k, e) \<in> set (c_records ?m)"
    using d run_remove_records [of "map cr_psk_id (evicted ?keep ?m)" ?m]
    by (simp add: evict_is_run)
  then have ke: "cr_psk_id e = k" using ok_keys [OF okm] by force
  have "dict_ok (c_records st)" using assms(1) by (simp add: client_store_ok_def)
  then have "(k, e) \<in> set (c_records st) \<and> k \<noteq> cr_psk_id r \<or> e = r"
    using km after_stale_records [OF d(1)] by (auto simp: set_dset)
  with contra ke have "k \<in> set (stale_for r protected (list_records st))"
    using assms(5) by (force simp: stale_for_def list_records_def)
  with km after_stale_records [OF d(1)] show False by simp
qed

text \<open>After a completed pairing the new record is the one the client looks up for that server:
  every other record of the server left in the store backs an open connection, and
  \<open>record_by_server_id\<close> returns the new one whenever those are older.\<close>

theorem replace_supersedes:
  assumes "client_store_ok st" and "length (cr_psk r) = PSK_SIZE"
    and "replace_record_for_server_id r protected st = (st', False)"
  shows "{e \<in> set (list_records st'). cr_server_id e = cr_server_id r} \<subseteq> {r} \<union> {e. cr_psk_id e \<in> set protected} \<and>
    ((\<forall>e\<in>set (list_records st'). cr_server_id e = cr_server_id r \<and> e \<noteq> r \<longrightarrow> cr_created_at e < cr_created_at r)
      \<longrightarrow> record_by_server_id st' (cr_server_id r) = Some r)"
proof -
  have "(cr_psk_id r, r) \<in> set (c_records st')"
    using replace_keeps [OF assms(1,2), of "(cr_psk_id r, r)" protected] assms
    by (simp add: client_store_ok_def set_dset)
  then have "r \<in> set (list_records st')" by (force simp: list_records_def)
  then show ?thesis
    using newest_per_server_spec [of "list_records st'" "cr_server_id r"] replace_other_records [OF assms]
    by (fastforce simp: record_by_server_id_def split: option.splits)
qed

theorem replace_supersedes_witness:
  "record_by_server_id (fst (replace_record_for_server_id (demo_record ''f'' 6 ''s1'') [] demo_store)) ''s1'' =
     Some (demo_record ''f'' 6 ''s1'')"
proof -
  have "\<not> c_persistent demo_store" by (simp add: demo_store_def)
  note run = in_memory_never_raises [OF this, of "demo_record ''f'' 6 ''s1''" "[]"]
  have s: "cr_server_id (demo_record ''f'' 6 ''s1'') = ''s1''" by (simp add: demo_record_def)
  have "{e \<in> set (list_records (fst (replace_record_for_server_id (demo_record ''f'' 6 ''s1'') [] demo_store))).
      cr_server_id e = ''s1''} \<subseteq> {demo_record ''f'' 6 ''s1''}"
    using replace_other_records [OF demo_store_ok demo_psk run] s by auto
  with replace_supersedes [OF demo_store_ok demo_psk run] s show ?thesis by auto
qed

end
