(* ===== verification/Trust_File.thy ===== *)
theory Trust_File
  imports Trust_Store "HOL-Library.Char_ord" "HOL-Library.List_Lexorder"
begin

text \<open>
  The JSON form of the pairing stores (\<open>to_dict\<close>/\<open>from_dict\<close>, \<open>_load\<close> and the payload of \<open>_save\<close>
  in \<open>noise/trust_store.py\<close>), the legacy spellings it still reads, and the round trip of what a
  file-backed store saves. \<open>to_iso\<close> and \<open>from_iso\<close> are \<open>datetime.isoformat\<close> and
  \<open>datetime.fromisoformat\<close>. A \<open>frozenset\<close> of role families is its sorted list.
\<close>

definition pair_method_value :: "pair_method \<Rightarrow> string" where
  "pair_method_value m = (case m of DYNAMIC_PAIRING_CODE \<Rightarrow> ''dynamic_pairing_code''
     | PAIRING_PSK \<Rightarrow> ''pairing_psk'' | STATIC_PAIRING_CODE \<Rightarrow> ''static_pairing_code'')"

definition stored_method_name :: "pair_method \<Rightarrow> string" where
  "stored_method_name m = (case m of DYNAMIC_PAIRING_CODE \<Rightarrow> ''dynamic_pin''
     | STATIC_PAIRING_CODE \<Rightarrow> ''static_pin'' | _ \<Rightarrow> pair_method_value m)"

definition parse_pair_method :: "string \<Rightarrow> load_error + pair_method" where
  "parse_pair_method item =
     (if item = ''dynamic_pin'' then Inr DYNAMIC_PAIRING_CODE
      else if item = ''static_pin'' then Inr STATIC_PAIRING_CODE
      else if item = ''dynamic_pairing_code'' then Inr DYNAMIC_PAIRING_CODE
      else if item = ''pairing_psk'' then Inr PAIRING_PSK
      else if item = ''static_pairing_code'' then Inr STATIC_PAIRING_CODE
      else Inl (UnknownPairMethodError item))"

fun collect_methods :: "string \<Rightarrow> pair_method list \<Rightarrow> json list \<Rightarrow> load_error + pair_method list" where
  "collect_methods key acc [] = Inr acc"
| "collect_methods key acc (item # items) =
     then_ok (item_str key item) (\<lambda>s. then_ok (parse_pair_method s) (\<lambda>m.
       collect_methods key (if m \<in> set acc then acc else acc @ [m]) items))"

definition read_pair_methods :: "jobj \<Rightarrow> string \<Rightarrow> load_error + pair_method list" where
  "read_pair_methods data key = then_ok (read_list data key) (collect_methods key [])"

definition decode_b64 :: "string \<Rightarrow> load_error + bytes" where
  "decode_b64 s = (case b64url_decode s of None \<Rightarrow> Inl (ValueError ''base64'') | Some b \<Rightarrow> Inr b)"

definition parse_iso :: "(string \<Rightarrow> int option) \<Rightarrow> string \<Rightarrow> load_error + int" where
  "parse_iso from_iso s =
     (case from_iso s of None \<Rightarrow> Inl (ValueError ''isoformat'') | Some t \<Rightarrow> Inr t)"

subsection \<open>Records\<close>

definition sr_to_dict :: "(int \<Rightarrow> string) \<Rightarrow> server_record \<Rightarrow> jobj" where
  "sr_to_dict to_iso r =
     [(''psk_id'', JStr (sr_psk_id r)), (''psk'', JStr (b64url_encode (sr_psk r))),
      (''client_id'', JStr (sr_client_id r)),
      (''pair_methods'', JList (map (JStr \<circ> stored_method_name) (sr_pair_methods r))),
      (''created_at'', JStr (to_iso (sr_created_at r))), (''owner'', opt_json (sr_owner r))]"

definition sr_from_dict :: "(string \<Rightarrow> int option) \<Rightarrow> jobj \<Rightarrow> load_error + server_record" where
  "sr_from_dict from_iso data =
     then_ok (read_str data ''psk_id'') (\<lambda>psk_id.
     then_ok (then_ok (read_str data ''psk'') decode_b64) (\<lambda>psk.
     then_ok (read_str data ''client_id'') (\<lambda>client_id.
     then_ok (read_pair_methods data ''pair_methods'') (\<lambda>methods.
     then_ok (then_ok (read_str data ''created_at'') (parse_iso from_iso)) (\<lambda>created_at.
     then_ok (read_opt_str data ''owner'') (\<lambda>owner.
       check_psk \<lparr>sr_psk_id = psk_id, sr_psk = psk, sr_client_id = client_id,
         sr_pair_methods = methods, sr_created_at = created_at, sr_owner = owner\<rparr> psk))))))"

definition cr_to_dict :: "(int \<Rightarrow> string) \<Rightarrow> client_record \<Rightarrow> jobj" where
  "cr_to_dict to_iso r =
     [(''psk_id'', JStr (cr_psk_id r)), (''psk'', JStr (b64url_encode (cr_psk r))),
      (''server_id'', JStr (cr_server_id r)), (''used'', JBool (cr_used r)),
      (''created_at'', JStr (to_iso (cr_created_at r))),
      (''last_used_at'', JStr (to_iso (cr_last_used_at r)))]"

definition cr_from_dict :: "(string \<Rightarrow> int option) \<Rightarrow> jobj \<Rightarrow> load_error + client_record" where
  "cr_from_dict from_iso data =
     then_ok (then_ok (read_str data ''created_at'') (parse_iso from_iso)) (\<lambda>created_at.
     then_ok (read_opt_str data ''last_used_at'') (\<lambda>last_used.
     then_ok (read_str data ''psk_id'') (\<lambda>psk_id.
     then_ok (then_ok (read_str data ''psk'') decode_b64) (\<lambda>psk.
     then_ok (read_str data ''server_id'') (\<lambda>server_id.
     then_ok (read_bool data ''used'' None) (\<lambda>used.
     then_ok (case last_used of None \<Rightarrow> Inr created_at | Some s \<Rightarrow> parse_iso from_iso s) (\<lambda>last.
       check_psk \<lparr>cr_psk_id = psk_id, cr_psk = psk, cr_server_id = server_id, cr_used = used,
         cr_created_at = created_at, cr_last_used_at = last\<rparr> psk)))))))"

definition config_to_dict :: "pairing_config \<Rightarrow> jobj" where
  "config_to_dict c =
     [(''dynamic_pin_enabled'', JBool (dynamic_pairing_code_enabled c)),
      (''static_pin_enabled'', JBool (static_pairing_code_enabled c)),
      (''unpaired_access_enabled'', JBool (unpaired_access_enabled c))]"

definition config_from_dict :: "jobj \<Rightarrow> load_error + pairing_config" where
  "config_from_dict data =
     then_ok (read_bool data ''dynamic_pin_enabled'' (Some True)) (\<lambda>d.
     then_ok (read_bool data ''static_pin_enabled'' (Some False)) (\<lambda>s.
     then_ok (read_bool data ''unpaired_access_enabled'' (Some False)) (\<lambda>u.
       Inr \<lparr>dynamic_pairing_code_enabled = d, static_pairing_code_enabled = s,
         unpaired_access_enabled = u\<rparr>)))"

definition pp_to_dict :: "pairing_psk \<Rightarrow> jobj" where
  "pp_to_dict p = [(''psk_id'', JStr (pp_psk_id p)), (''psk'', JStr (b64url_encode (pp_psk p)))]"

definition pp_from_dict :: "jobj \<Rightarrow> load_error + pairing_psk" where
  "pp_from_dict data =
     then_ok (read_str data ''psk_id'') (\<lambda>psk_id.
     then_ok (then_ok (read_str data ''psk'') decode_b64) (\<lambda>psk.
       check_psk \<lparr>pp_psk_id = psk_id, pp_psk = psk\<rparr> psk))"

definition st_to_dict :: "(int \<Rightarrow> string) \<Rightarrow> staged_psk \<Rightarrow> jobj" where
  "st_to_dict to_iso p =
     [(''psk_id'', JStr (st_psk_id p)), (''psk'', JStr (b64url_encode (st_psk p))),
      (''created_at'', JStr (to_iso (st_created_at p)))]"

definition st_from_dict :: "(string \<Rightarrow> int option) \<Rightarrow> jobj \<Rightarrow> load_error + staged_psk" where
  "st_from_dict from_iso data =
     then_ok (read_str data ''psk_id'') (\<lambda>psk_id.
     then_ok (then_ok (read_str data ''psk'') decode_b64) (\<lambda>psk.
     then_ok (then_ok (read_str data ''created_at'') (parse_iso from_iso)) (\<lambda>created_at.
       check_psk \<lparr>st_psk_id = psk_id, st_psk = psk, st_created_at = created_at\<rparr> psk)))"

definition tu_to_dict :: "(int \<Rightarrow> string) \<Rightarrow> trusted_unpaired \<Rightarrow> jobj" where
  "tu_to_dict to_iso c =
     [(''client_id'', JStr (tu_client_id c)), (''created_at'', JStr (to_iso (tu_created_at c))),
      (''approved_roles'', JList (map JStr (sort (tu_approved_roles c))))]"

definition tu_from_dict :: "(string \<Rightarrow> int option) \<Rightarrow> jobj \<Rightarrow> load_error + trusted_unpaired" where
  "tu_from_dict from_iso data =
     then_ok (read_str data ''client_id'') (\<lambda>client_id.
     then_ok (then_ok (read_str data ''created_at'') (parse_iso from_iso)) (\<lambda>created_at.
     then_ok (read_str_list data ''approved_roles'') (\<lambda>roles.
       Inr \<lparr>tu_client_id = client_id, tu_created_at = created_at,
         tu_approved_roles = sort (remdups roles)\<rparr>)))"

subsection \<open>The server store's file\<close>

definition server_payload :: "(int \<Rightarrow> string) \<Rightarrow> server_mem \<Rightarrow> jobj" where
  "server_payload to_iso m =
     [(''records'', JObj (map (\<lambda>(c, r). (c, JObj (sr_to_dict to_iso r))) (s_records m))),
      (''staged_pairing_psks'', JObj (map (\<lambda>(c, p). (c, JObj (st_to_dict to_iso p))) (s_staged m))),
      (''trusted_unpaired_clients'', JObj (map (\<lambda>(c, t). (c, JObj (tu_to_dict to_iso t))) (s_trusted m)))]"

text \<open>A record with a pair method this version does not know is skipped; other errors end the load.\<close>

fun load_server_records :: "(string \<Rightarrow> int option) \<Rightarrow> (string, server_record) dict
    \<Rightarrow> (string \<times> jobj) list \<Rightarrow> load_error + (string, server_record) dict" where
  "load_server_records from_iso acc [] = Inr acc"
| "load_server_records from_iso acc ((cid, v) # rest) =
     (case sr_from_dict from_iso v of
        Inr r \<Rightarrow> load_server_records from_iso (dset cid r acc) rest
      | Inl (UnknownPairMethodError _) \<Rightarrow> load_server_records from_iso acc rest
      | Inl e \<Rightarrow> Inl e)"

fun load_entries :: "(jobj \<Rightarrow> load_error + 'v) \<Rightarrow> (string, 'v) dict \<Rightarrow> (string \<times> jobj) list
    \<Rightarrow> load_error + (string, 'v) dict" where
  "load_entries parse acc [] = Inr acc"
| "load_entries parse acc ((k, v) # rest) =
     then_ok (parse v) (\<lambda>x. load_entries parse (dset k x acc) rest)"

definition server_load :: "(string \<Rightarrow> int option) \<Rightarrow> jobj option \<Rightarrow> load_error + server_store" where
  "server_load from_iso file =
     (case file of
        None \<Rightarrow> Inr (new_server_store True)
      | Some data \<Rightarrow>
          then_ok (then_ok (read_section data ''records'') (load_server_records from_iso [])) (\<lambda>records.
          then_ok (then_ok (read_section data ''staged_pairing_psks'')
             (load_entries (st_from_dict from_iso) [])) (\<lambda>staged.
          then_ok (then_ok (read_section data ''trusted_unpaired_clients'')
             (load_entries (tu_from_dict from_iso) [])) (\<lambda>trusted.
            Inr ((new_server_store True)\<lparr>s_records := records, s_staged := staged,
              s_trusted := trusted\<rparr>)))))"

subsection \<open>The client store's file\<close>

definition client_payload :: "(int \<Rightarrow> string) \<Rightarrow> client_mem \<Rightarrow> jobj" where
  "client_payload to_iso m =
     [(''records'', JObj (map (\<lambda>(k, r). (k, JObj (cr_to_dict to_iso r))) (c_records m))),
      (''pairing_config'', JObj (config_to_dict (c_config m))),
      (''pairing_psk'', case c_pairing_psk m of None \<Rightarrow> JNull | Some p \<Rightarrow> JObj (pp_to_dict p)),
      (''static_pin'', opt_json (c_static_code m)),
      (''pin_failures'', JInt (c_rounds m)),
      (''last_playback_server_id'', opt_json (c_last_playback m))]"

text \<open>Records of stores written before 10.0 have no \<open>server_id\<close> and are dropped.\<close>

fun load_client_records :: "(string \<Rightarrow> int option) \<Rightarrow> (string, client_record) dict
    \<Rightarrow> (string \<times> jobj) list \<Rightarrow> load_error + (string, client_record) dict" where
  "load_client_records from_iso acc [] = Inr acc"
| "load_client_records from_iso acc ((psk_id, v) # rest) =
     (if dget v ''server_id'' \<in> {None, Some JNull} then load_client_records from_iso acc rest
      else then_ok (cr_from_dict from_iso v)
        (\<lambda>r. load_client_records from_iso (dset psk_id r acc) rest))"

definition read_pin_failures :: "jobj \<Rightarrow> load_error + int" where
  "read_pin_failures data =
     (let raw = (case dget data ''pin_failures'' of
          None \<Rightarrow> JInt 0
        | Some (JObj counters) \<Rightarrow>
            (case dget counters ''dynamic_pin'' of None \<Rightarrow> JInt 0 | Some v \<Rightarrow> v)
        | Some v \<Rightarrow> v)
      in case raw of JInt n \<Rightarrow> Inr n | _ \<Rightarrow> Inl (TypeError ''pin_failures''))"

definition client_load :: "(string \<Rightarrow> int option) \<Rightarrow> int \<Rightarrow> jobj option \<Rightarrow> load_error + client_store" where
  "client_load from_iso capacity file =
     then_ok (new_client_store capacity True) (\<lambda>st.
       case file of
         None \<Rightarrow> Inr (fst (client_save st))
       | Some data \<Rightarrow>
           then_ok (then_ok (read_section data ''records'') (load_client_records from_iso [])) (\<lambda>records.
           then_ok (then_ok (read_object data ''pairing_config'') config_from_dict) (\<lambda>config.
           then_ok (case dget data ''pairing_psk'' of
               Some (JObj d) \<Rightarrow> then_ok (pp_from_dict d) (\<lambda>p. Inr (Some p)) | _ \<Rightarrow> Inr None) (\<lambda>psk.
           then_ok (read_opt_str data ''static_pin'') (\<lambda>code.
           then_ok (read_pin_failures data) (\<lambda>rounds.
           then_ok (read_opt_str data ''last_playback_server_id'') (\<lambda>last.
             Inr (st\<lparr>c_records := records, c_config := config, c_pairing_psk := psk,
               c_static_code := code, c_rounds := rounds, c_last_playback := last\<rparr>))))))))"

subsection \<open>Round trips of records\<close>

lemma decode_b64_encode [simp]: "decode_b64 (b64url_encode b) = Inr b"
  by (simp add: decode_b64_def)

lemma collect_stored:
  "distinct (acc @ ms) \<Longrightarrow>
     collect_methods key acc (map (JStr \<circ> stored_method_name) ms) = Inr (acc @ ms)"
proof (induction ms arbitrary: acc)
  case (Cons m ms)
  have "parse_pair_method (stored_method_name m) = Inr m"
    by (cases m) (simp_all add: stored_method_name_def pair_method_value_def parse_pair_method_def)
  with Cons show ?case by (simp add: item_str_def)
qed simp

definition iso_inverse :: "(int \<Rightarrow> string) \<Rightarrow> (string \<Rightarrow> int option) \<Rightarrow> bool" where
  "iso_inverse to_iso from_iso \<longleftrightarrow> (\<forall>t. from_iso (to_iso t) = Some t)"

lemma parse_iso_inverse: "iso_inverse to_iso from_iso \<Longrightarrow> parse_iso from_iso (to_iso t) = Inr t"
  by (simp add: iso_inverse_def parse_iso_def)

lemma sr_roundtrip:
  "iso_inverse to_iso from_iso \<Longrightarrow> length (sr_psk r) = PSK_SIZE \<Longrightarrow> distinct (sr_pair_methods r) \<Longrightarrow>
     sr_from_dict from_iso (sr_to_dict to_iso r) = Inr r"
  using collect_stored [of "[]" "sr_pair_methods r" "''pair_methods''"]
  by (simp add: sr_from_dict_def sr_to_dict_def json_reads read_pair_methods_def parse_iso_inverse
      check_psk_def opt_json_def split: option.splits)

lemma cr_roundtrip:
  "iso_inverse to_iso from_iso \<Longrightarrow> length (cr_psk r) = PSK_SIZE \<Longrightarrow>
     cr_from_dict from_iso (cr_to_dict to_iso r) = Inr r"
  by (simp add: cr_from_dict_def cr_to_dict_def json_reads parse_iso_inverse check_psk_def)

lemma st_roundtrip:
  "iso_inverse to_iso from_iso \<Longrightarrow> length (st_psk r) = PSK_SIZE \<Longrightarrow>
     st_from_dict from_iso (st_to_dict to_iso r) = Inr r"
  by (simp add: st_from_dict_def st_to_dict_def json_reads parse_iso_inverse check_psk_def)

lemma tu_roundtrip:
  "iso_inverse to_iso from_iso \<Longrightarrow> sorted (tu_approved_roles r) \<Longrightarrow> distinct (tu_approved_roles r) \<Longrightarrow>
     tu_from_dict from_iso (tu_to_dict to_iso r) = Inr r"
  by (simp add: tu_from_dict_def tu_to_dict_def json_reads parse_iso_inverse sorted_sort_id
      distinct_remdups_id)

lemma pp_roundtrip:
  "length (pp_psk r) = PSK_SIZE \<Longrightarrow> pp_from_dict (pp_to_dict r) = Inr r"
  by (simp add: pp_from_dict_def pp_to_dict_def json_reads check_psk_def)

lemma config_roundtrip: "config_from_dict (config_to_dict c) = Inr c"
  by (simp add: config_from_dict_def config_to_dict_def json_reads)

subsection \<open>Round trips of tables\<close>

lemma dset_fresh: "k \<notin> fst ` set d \<Longrightarrow> dset k v d = d @ [(k, v)]"
  by (induction d) auto

lemma load_entries_roundtrip:
  assumes "dict_ok (acc @ d)" "\<forall>(k, x)\<in>set d. parse (show x) = Inr x"
  shows "load_entries parse acc (map (\<lambda>(k, x). (k, show x)) d) = Inr (acc @ d)"
  using assms
proof (induction d arbitrary: acc)
  case (Cons p d)
  obtain k x where p: "p = (k, x)" by fastforce
  have "dset k x acc = acc @ [p]"
    using Cons.prems(1) p by (intro dset_fresh [of k acc x, unfolded p [symmetric]]) (auto simp: dict_ok_def)
  with Cons p show ?case by simp
qed simp

lemma load_server_roundtrip:
  assumes "dict_ok (acc @ d)" "\<forall>(k, x)\<in>set d. sr_from_dict from_iso (show x) = Inr x"
  shows "load_server_records from_iso acc (map (\<lambda>(k, x). (k, show x)) d) = Inr (acc @ d)"
  using assms
proof (induction d arbitrary: acc)
  case (Cons p d)
  obtain k x where p: "p = (k, x)" by fastforce
  have "dset k x acc = acc @ [(k, x)]"
    using Cons.prems(1) p by (intro dset_fresh) (auto simp: dict_ok_def)
  with Cons p show ?case by simp
qed simp

lemma load_client_roundtrip:
  assumes "iso_inverse to_iso from_iso" "dict_ok (acc @ d)" "\<forall>(k, x)\<in>set d. length (cr_psk x) = PSK_SIZE"
  shows "load_client_records from_iso acc (map (\<lambda>(k, x). (k, cr_to_dict to_iso x)) d) = Inr (acc @ d)"
  using assms
proof (induction d arbitrary: acc)
  case (Cons p d)
  obtain k x where p: "p = (k, x)" by fastforce
  have "dset k x acc = acc @ [(k, x)]"
    using Cons.prems(2) p by (intro dset_fresh) (auto simp: dict_ok_def)
  moreover have "dget (cr_to_dict to_iso x) ''server_id'' = Some (JStr (cr_server_id x))"
    by (simp add: cr_to_dict_def)
  moreover have "cr_from_dict from_iso (cr_to_dict to_iso x) = Inr x"
    using Cons.prems p by (intro cr_roundtrip) auto
  ultimately show ?case using Cons p by simp
qed simp

definition server_mem_ok :: "server_mem \<Rightarrow> bool" where
  "server_mem_ok m \<longleftrightarrow> dict_ok (s_records m) \<and> dict_ok (s_staged m) \<and> dict_ok (s_trusted m) \<and>
     (\<forall>(k, r) \<in> set (s_records m). length (sr_psk r) = PSK_SIZE \<and> distinct (sr_pair_methods r)) \<and>
     (\<forall>(k, p) \<in> set (s_staged m). length (st_psk p) = PSK_SIZE) \<and>
     (\<forall>(k, t) \<in> set (s_trusted m). sorted (tu_approved_roles t) \<and> distinct (tu_approved_roles t))"

text \<open>C29. What a file-backed client store saves, it loads: opening the file written by \<open>_save\<close>
  gives back the records in order, the pairing policy, the Pairing PSK, the static code, the round
  count and the last playback server.\<close>

theorem client_file_roundtrip:
  assumes "iso_inverse to_iso from_iso" and "client_store_ok st" and "c_save_plan st = []"
    and "c_persistent st"
  shows "\<exists>m st'. c_disk (fst (client_save st)) = Some m \<and>
    client_load from_iso (record_capacity st) (Some (client_payload to_iso m)) = Inr st' \<and>
    client_image st' = client_image st"
proof -
  let ?m = "client_image st"
  have m: "c_disk (fst (client_save st)) = Some ?m"
    using assms(3,4) by (simp add: client_save_def)
  have recs: "c_records ?m = c_records st" and other: "c_config ?m = c_config st"
    "c_pairing_psk ?m = c_pairing_psk st" "c_static_code ?m = c_static_code st"
    "c_rounds ?m = c_rounds st" "c_last_playback ?m = c_last_playback st"
    by (simp_all add: client_image_def client_mem.defs)
  have load: "load_client_records from_iso [] (map (\<lambda>(k, x). (k, cr_to_dict to_iso x)) (c_records st))
      = Inr (c_records st)"
    using load_client_roundtrip [OF assms(1), of "[]" "c_records st"] assms(2)
    by (auto simp: client_store_ok_def)
  have cap: "\<not> record_capacity st < MIN_RECORD_CAPACITY" using assms(2) by (simp add: client_store_ok_def)
  have psk: "(case case c_pairing_psk st of None \<Rightarrow> JNull | Some p \<Rightarrow> JObj (pp_to_dict p) of
      JObj d \<Rightarrow> then_ok (pp_from_dict d) (\<lambda>p. Inr (Some p)) | _ \<Rightarrow> Inr None) = Inr (c_pairing_psk st)"
    using assms(2) by (auto simp: client_store_ok_def pp_roundtrip split: option.splits)
  have "\<exists>st'. client_load from_iso (record_capacity st) (Some (client_payload to_iso ?m)) = Inr st' \<and>
      client_image st' = client_image st"
    unfolding client_load_def client_payload_def recs other
    using load psk cap
    by (simp add: new_client_store_def json_reads read_section_def config_roundtrip
        read_pin_failures_def opt_json_def client_image_def client_mem.defs split: option.splits)
  with m show ?thesis by blast
qed

definition demo_iso :: "int \<Rightarrow> string" where
  "demo_iso t = (if 0 \<le> t then replicate (nat t) CHR ''p''
     else CHR ''m'' # replicate (nat (- t)) CHR ''p'')"

definition demo_from_iso :: "string \<Rightarrow> int option" where
  "demo_from_iso s = Some (if s \<noteq> [] \<and> hd s = CHR ''m'' then 1 - int (length s) else int (length s))"

lemma demo_iso_inverse: "iso_inverse demo_iso demo_from_iso"
  by (auto simp: iso_inverse_def demo_iso_def demo_from_iso_def hd_replicate)

theorem client_file_roundtrip_witness:
  "\<exists>m st'. c_disk (fst (client_save (demo_store\<lparr>c_persistent := True\<rparr>))) = Some m \<and>
     client_load demo_from_iso 5 (Some (client_payload demo_iso m)) = Inr st' \<and>
     map fst (c_records st') = [''a'', ''b'', ''c'', ''d'', ''e'']"
proof -
  let ?st = "demo_store\<lparr>c_persistent := True\<rparr>"
  have ok: "client_store_ok ?st"
    using demo_store_ok by (simp add: client_store_ok_def)
  have f: "c_save_plan ?st = []" "c_persistent ?st" "record_capacity ?st = 5"
    by (simp_all add: demo_store_def)
  obtain m st' where "c_disk (fst (client_save ?st)) = Some m"
    "client_load demo_from_iso 5 (Some (client_payload demo_iso m)) = Inr st'"
    "client_image st' = client_image ?st"
    using client_file_roundtrip [OF demo_iso_inverse ok f(1,2)] f(3) by auto
  moreover from this(3) have "c_records st' = c_records ?st"
    by (simp add: client_image_def client_mem.defs)
  ultimately show ?thesis by (auto simp: demo_store_def)
qed

text \<open>What a file-backed server store saves, it loads: the records, the trusted clients and the
  staged PSKs that had not expired when the file was written.\<close>

theorem server_file_roundtrip:
  assumes "iso_inverse to_iso from_iso" and "server_mem_ok (server_image now st)"
    and "s_save_plan st = []" and "s_persistent st"
  shows "\<exists>m st'. s_disk (fst (server_save now st)) = Some m \<and>
    server_load from_iso (Some (server_payload to_iso m)) = Inr st' \<and>
    server_image now st' = server_image now st"
proof -
  let ?m = "server_image now st"
  have m: "s_disk (fst (server_save now st)) = Some ?m"
    using assms(3,4) by (simp add: server_save_def)
  have r: "load_server_records from_iso [] (map (\<lambda>(k, x). (k, sr_to_dict to_iso x)) (s_records ?m))
      = Inr (s_records ?m)"
  proof -
    have "\<forall>(k, x)\<in>set (s_records ?m). sr_from_dict from_iso (sr_to_dict to_iso x) = Inr x"
      using assms(1,2) by (auto simp: server_mem_ok_def intro!: sr_roundtrip)
    with load_server_roundtrip [of "[]" "s_records ?m" from_iso "sr_to_dict to_iso"] assms(2)
    show ?thesis by (simp add: server_mem_ok_def)
  qed
  have p: "load_entries (st_from_dict from_iso) [] (map (\<lambda>(k, x). (k, st_to_dict to_iso x)) (s_staged ?m))
      = Inr (s_staged ?m)"
  proof -
    have "\<forall>(k, x)\<in>set (s_staged ?m). st_from_dict from_iso (st_to_dict to_iso x) = Inr x"
      using assms(1,2) by (auto simp: server_mem_ok_def intro!: st_roundtrip)
    with load_entries_roundtrip [of "[]" "s_staged ?m" "st_from_dict from_iso" "st_to_dict to_iso"] assms(2)
    show ?thesis by (simp add: server_mem_ok_def)
  qed
  have t: "load_entries (tu_from_dict from_iso) [] (map (\<lambda>(k, x). (k, tu_to_dict to_iso x)) (s_trusted ?m))
      = Inr (s_trusted ?m)"
  proof -
    have "\<forall>(k, x)\<in>set (s_trusted ?m). tu_from_dict from_iso (tu_to_dict to_iso x) = Inr x"
      using assms(1,2) by (auto simp: server_mem_ok_def intro!: tu_roundtrip)
    with load_entries_roundtrip [of "[]" "s_trusted ?m" "tu_from_dict from_iso" "tu_to_dict to_iso"] assms(2)
    show ?thesis by (simp add: server_mem_ok_def)
  qed
  let ?st' = "(new_server_store True)\<lparr>s_records := s_records ?m, s_staged := s_staged ?m,
    s_trusted := s_trusted ?m\<rparr>"
  have "server_load from_iso (Some (server_payload to_iso ?m)) = Inr ?st'"
    using r p t by (simp add: server_load_def server_payload_def read_section_def)
  moreover have "server_image now ?st' = ?m"
    by (simp add: server_image_def)
  ultimately show ?thesis using m by blast
qed

theorem server_file_roundtrip_witness:
  "\<exists>m st'. s_disk (fst (server_save 5 ((new_server_store True)\<lparr>s_staged :=
       [(''x'', \<lparr>st_psk_id = ''i'', st_psk = replicate 32 1, st_created_at = 3\<rparr>)]\<rparr>))) = Some m \<and>
     server_load demo_from_iso (Some (server_payload demo_iso m)) = Inr st' \<and>
     map fst (s_staged (server_image 5 st')) = [''x'']"
proof -
  let ?st = "(new_server_store True)\<lparr>s_staged :=
    [(''x'', \<lparr>st_psk_id = ''i'', st_psk = replicate 32 1, st_created_at = 3\<rparr>)]\<rparr>"
  have im: "s_staged (server_image 5 ?st) = s_staged ?st"
    by (simp add: server_image_def is_expired_def STAGED_PAIRING_PSK_LIFETIME_def new_server_store_def)
  have ok: "server_mem_ok (server_image 5 ?st)"
    using im by (simp add: server_mem_ok_def new_server_store_def server_image_def PSK_SIZE_def dict_ok_def)
  have f: "s_save_plan ?st = []" "s_persistent ?st"
    by (simp_all add: new_server_store_def)
  from server_file_roundtrip [OF demo_iso_inverse ok f] im show ?thesis
    by (auto simp: new_server_store_def)
qed

text \<open>C26. However a client's operations interleave, its store keeps its invariant and its capacity:
  every record sits under its own \<open>psk_id\<close>, every PSK has 32 bytes, a configured static code is eight
  ASCII digits and the round count is not negative.\<close>

theorem client_store_invariant:
  assumes "new_client_store capacity persist = Inr st"
  shows "client_store_ok (foldl guarded_step st ops) \<and>
    record_capacity (foldl guarded_step st ops) = capacity"
proof -
  have "client_store_ok st" and "record_capacity st = capacity"
    using assms by (auto simp: new_client_store_def client_store_ok_def split: if_splits)
  then show ?thesis
    using client_ops.run_inv client_ops.run_view by simp
qed

theorem client_store_invariant_witness:
  "\<exists>st. new_client_store 5 False = Inr st \<and> client_store_ok (foldl guarded_step st
     [StoreRecord (demo_record ''a'' 1 ''s''), SetStaticCode ''12345678'', RecordRound])"
proof -
  obtain st where st: "new_client_store 5 False = Inr st"
    by (simp add: new_client_store_def MIN_RECORD_CAPACITY_def)
  with client_store_invariant [OF st] show ?thesis by blast
qed

text \<open>A failed save does not desynchronise the last playback server: when persisting it raises,
  the in-memory value is the previous one, and the file is untouched.\<close>

theorem last_playback_rolls_back:
  "set_last_playback_server_id s st = (st', True) \<Longrightarrow>
     client_image st' = client_image st \<and> c_disk st' = c_disk st"
  by (auto simp: set_last_playback_server_id_def Let_def client_save_def client_image_def
      client_mem.defs split: if_splits list.splits bool.splits)

theorem last_playback_rolls_back_witness:
  "c_last_playback (fst (set_last_playback_server_id (Some ''x'')
     (demo_store\<lparr>c_persistent := True, c_save_plan := [False]\<rparr>))) = None"
proof -
  let ?st = "demo_store\<lparr>c_persistent := True, c_save_plan := [False]\<rparr>"
  obtain st' where "set_last_playback_server_id (Some ''x'') ?st = (st', True)"
    by (simp add: set_last_playback_server_id_def Let_def client_save_def demo_store_def)
  with last_playback_rolls_back [OF this] show ?thesis
    by (simp add: client_image_def client_mem.defs demo_store_def)
qed

text \<open>A staged Pairing PSK admits its client for 24 hours and no longer, and neither the listing
  nor the file ever shows an expired one.\<close>

theorem staged_psk_expires:
  "s_staged_pairing_psk now (fst (s_stage_pairing_psk t client_id p st)) client_id =
     (if now - st_created_at p > 24 * 60 * 60 * 1000000 then None else Some p) \<and>
   list_all (\<lambda>q. now - st_created_at q \<le> 24 * 60 * 60 * 1000000) (s_list_staged now st) \<and>
   list_all (\<lambda>(c, q). now - st_created_at q \<le> 24 * 60 * 60 * 1000000) (s_staged (server_image now st))"
  by (auto simp: s_staged_pairing_psk_def s_stage_pairing_psk_def s_list_staged_def server_image_def
      is_expired_def STAGED_PAIRING_PSK_LIFETIME_def list_all_iff)

text \<open>C21. Clearing superseded records leaves, for each server, its newest record and the protected
  ones, and nothing else goes.\<close>

theorem remove_superseded_exact:
  assumes "client_store_ok st" and "remove_superseded_records protected st = (st', False)"
  shows "set (list_records st') = {r \<in> set (list_records st).
    record_by_server_id st (cr_server_id r) = Some r \<or> cr_psk_id r \<in> set protected}"
proof -
  let ?ks = "map cr_psk_id (filter (\<lambda>r. dget (newest_per_server (list_records st)) (cr_server_id r) \<noteq> Some r
      \<and> cr_psk_id r \<notin> set protected) (list_records st))"
  have recs: "c_records st' = filter (\<lambda>p. fst p \<notin> set ?ks) (c_records st)"
    using run_remove_records [of ?ks st] assms(2) by (simp add: remove_superseded_records_def Let_def)
  have inj: "inj_on cr_psk_id (set (list_records st))"
    using ok_distinct [OF assms(1)] by (simp add: distinct_map)
  have mem: "r \<in> set (list_records st') \<longleftrightarrow> r \<in> set (list_records st) \<and> cr_psk_id r \<notin> set ?ks" for r
  proof -
    have "r \<in> set (list_records st') \<longleftrightarrow> (\<exists>k. (k, r) \<in> set (c_records st) \<and> k \<notin> set ?ks)"
      unfolding recs list_records_def set_map set_filter by force
    also have "\<dots> \<longleftrightarrow> (\<exists>k. (k, r) \<in> set (c_records st) \<and> cr_psk_id r \<notin> set ?ks)"
      using ok_keys [OF assms(1)] by fastforce
    also have "\<dots> \<longleftrightarrow> r \<in> set (list_records st) \<and> cr_psk_id r \<notin> set ?ks"
      unfolding list_records_def set_map by force
    finally show ?thesis .
  qed
  have ks: "cr_psk_id r \<in> set ?ks \<longleftrightarrow>
      record_by_server_id st (cr_server_id r) \<noteq> Some r \<and> cr_psk_id r \<notin> set protected"
    if "r \<in> set (list_records st)" for r
    unfolding set_map set_filter record_by_server_id_def
    using that inj_onD [OF inj] by (smt (verit, best) image_iff mem_Collect_eq)
  show ?thesis unfolding set_eq_iff mem_Collect_eq using mem ks by blast
qed

theorem remove_superseded_exact_witness:
  "set (list_records (fst (remove_superseded_records [''b''] demo_store))) =
     {r \<in> set (list_records demo_store).
       record_by_server_id demo_store (cr_server_id r) = Some r \<or> cr_psk_id r \<in> {''b''}}"
proof -
  have "\<not> c_persistent demo_store" by (simp add: demo_store_def)
  then have "remove_superseded_records [''b''] demo_store
      = (fst (remove_superseded_records [''b''] demo_store), False)"
    using not_persistent_run by (simp add: remove_superseded_records_def Let_def prod_eq_iff)
  from remove_superseded_exact [OF demo_store_ok this] show ?thesis by simp
qed

end
