(* ===== verification/Pairing.thy ===== *)
theory Pairing
  imports Trust_Store Utf8
begin

text \<open>
  The pairing exchanges of \<open>noise/pairing.py\<close>, both sides. A side is a program over its state: the
  frames the encrypted channel will deliver (\<open>inbox\<close>), the messages it has sent (\<open>outbox\<close>), its
  pairing store, the operator's inputs (\<open>entered\<close>) and the deviations reported through
  \<open>on_noncompliance\<close>. A program returns a value or raises; \<open>andthen\<close> is sequencing.

  Time: a wait ends when a frame arrives or the enclosing \<open>asyncio.timeout\<close> expires, so reading
  from an empty inbox is the expiry (\<open>Expired\<close>), which the timeout blocks turn into the pairing
  error the code raises. The CPace, AEAD and SHA-256 implementations are not under src/: they are
  the functions of a \<open>crypto\<close> record, and random draws are the function \<open>random\<close>.
\<close>

subsection \<open>Messages, errors, state\<close>

datatype abort_reason = ATTEMPT_TIMEOUT | CONCURRENT_ATTEMPT | METHOD_NOT_SUPPORTED
  | PAIRING_CODE_MISMATCH | USER_CANCELLED

datatype pairing_msg =
    ClientPairInit (pair_index: int) (commit_B: "string option")
  | ClientPairPending (pair_index: int) (pend_message: "pystr option")
  | ServerPairInit (nonce_A: "string option") (pin_length: "nat option")
  | ServerPairAuth (pake_msg_1: string)
  | ClientPairAuth (pake_msg_2: string)
  | ServerPairConfirm (server_kc: string)
  | ClientPairConfirm (client_kc: string) (wrapped_nonce_B: "string option") (nonce_B: "string option")
  | ClientPairRetry
  | ClientPairFinalize (long_term_psk: "string option") (wrapped_psk: "string option")
  | ServerPairFinalize
  | PairAbort (abort_why: abort_reason)

datatype msg_kind = KClientInit | KPending | KServerInit | KServerAuth | KClientAuth
  | KServerConfirm | KClientConfirm | KRetry | KClientFinalize | KServerFinalize | KAbort

fun kind_of :: "pairing_msg \<Rightarrow> msg_kind" where
  "kind_of (ClientPairInit _ _) = KClientInit"
| "kind_of (ClientPairPending _ _) = KPending"
| "kind_of (ServerPairInit _ _) = KServerInit"
| "kind_of (ServerPairAuth _) = KServerAuth"
| "kind_of (ClientPairAuth _) = KClientAuth"
| "kind_of (ServerPairConfirm _) = KServerConfirm"
| "kind_of (ClientPairConfirm _ _ _) = KClientConfirm"
| "kind_of ClientPairRetry = KRetry"
| "kind_of (ClientPairFinalize _ _) = KClientFinalize"
| "kind_of ServerPairFinalize = KServerFinalize"
| "kind_of (PairAbort _) = KAbort"

datatype pairing_frame = FClosed | FNotText | FMalformed | FMsg pairing_msg

text \<open>Waiting for the operator races with the client's frames; both ready counts as the frame.\<close>

datatype race = CodeEntered string | ProviderRaised | FrameFirst | NeverEntered

datatype pairing_fault =
    ConnectionClosed | NotJson | MalformedMessage | UnexpectedKind msg_kind
  | IndexAhead | IndexMismatch | PendingNotInFlow | CommitNotInFlow | CommitMissing
  | NonceMissing | NonceRepeated | BadField string | CPaceInit | CPaceShare string
  | WrappedNonceMissing | WrappedNonceUnexpected | OnlyNonceB | AeadFailure string
  | CommitMismatch | CodeNotBound | BothPsks | PskMissing | WrappedPskMissing | PskReused
  | ExpectedAbort | CompletionTimedOut

datatype pair_error =
    PairingError pairing_fault
  | PairingTimeoutError string
  | InvalidPairingCodeError
  | LocalPairingAbortError abort_reason
  | RemotePairingAbortError abort_reason
  | Expired
  | SendFailed
  | StoreFailed
  | EmitterFailed
  | ProviderFailed
  | PyValueError
  | PyOverflowError
  | OutOfFuel

datatype deviation =
    NotCanonical string
  | SentBeforeInit msg_kind
  | IndexBelowOne msg_kind
  | PendingTooLong
  | RetryPastLimit

text \<open>How a step under the timeout of the finalize goes: in time, not at all, or it takes effect but does
  not return in time.\<close>

datatype stall = Prompt | NeverStarts | NeverReturns

record 'st pst =
  inbox :: "pairing_frame list"
  outbox :: "pairing_msg list"
  send_plan :: "bool list"
  entered :: "race list"
  emitted :: "string list"
  emit_plan :: "bool list"
  deviations :: "deviation list"
  pendings :: "pystr option list"
  pair_inits :: nat
  legacy_finalizes :: nat
  finalize_calls :: nat
  random :: "nat \<Rightarrow> bytes"
  drawn :: nat
  stalls :: "stall list"
  pstore :: 'st

type_synonym ('st, 'a) pm = "'st pst \<Rightarrow> (pair_error + 'a) \<times> 'st pst"

definition ret :: "'a \<Rightarrow> ('st, 'a) pm" where "ret x s = (Inr x, s)"

definition fail :: "pair_error \<Rightarrow> ('st, 'a) pm" where "fail e s = (Inl e, s)"

definition andthen :: "('st, 'a) pm \<Rightarrow> ('a \<Rightarrow> ('st, 'b) pm) \<Rightarrow> ('st, 'b) pm" where
  "andthen m f s = (case m s of (Inl e, s') \<Rightarrow> (Inl e, s') | (Inr x, s') \<Rightarrow> f x s')"

definition update :: "('st pst \<Rightarrow> 'st pst) \<Rightarrow> ('st, unit) pm" where "update f s = (Inr (), f s)"

definition require :: "bool \<Rightarrow> pair_error \<Rightarrow> ('st, unit) pm" where
  "require b e = (if b then ret () else fail e)"

definition get_store :: "('st, 'st) pm" where "get_store s = (Inr (pstore s), s)"

text \<open>Run a store operation; a save that raises ends the attempt.\<close>

definition on_store :: "('st \<Rightarrow> 'st \<times> bool) \<Rightarrow> ('st, unit) pm" where
  "on_store op s =
     (case op (pstore s) of (st', raised) \<Rightarrow>
        (if raised then Inl StoreFailed else Inr (), s\<lparr>pstore := st'\<rparr>))"

definition send :: "pairing_msg \<Rightarrow> ('st, unit) pm" where
  "send m s =
     (case send_plan s of
        False # rest \<Rightarrow> (Inl SendFailed, s\<lparr>send_plan := rest\<rparr>)
      | plan \<Rightarrow> (Inr (), s\<lparr>outbox := outbox s @ [m], send_plan := tl plan\<rparr>))"

definition draw :: "('st, bytes) pm" where
  "draw s = (Inr (random s (drawn s)), s\<lparr>drawn := Suc (drawn s)\<rparr>)"

definition add_note :: "bool \<Rightarrow> deviation \<Rightarrow> ('st, unit) pm" where
  "add_note nc n = (if nc then update (\<lambda>s. s\<lparr>deviations := deviations s @ [n]\<rparr>) else ret ())"

text \<open>\<open>abort_pairing\<close>: the send is best effort.\<close>

definition abort_pairing :: "abort_reason \<Rightarrow> ('st, 'a) pm" where
  "abort_pairing reason s =
     (Inl (LocalPairingAbortError reason), snd (send (PairAbort reason) s))"

definition client_timeout :: "('st, 'a) pm \<Rightarrow> ('st, 'a) pm" where
  "client_timeout m s =
     (case m s of (Inl Expired, s') \<Rightarrow> abort_pairing ATTEMPT_TIMEOUT s' | r \<Rightarrow> r)"

definition server_timeout :: "string \<Rightarrow> ('st, 'a) pm \<Rightarrow> ('st, 'a) pm" where
  "server_timeout what m s =
     (case m s of (Inl Expired, s') \<Rightarrow> (Inl (PairingTimeoutError what), s') | r \<Rightarrow> r)"

text \<open>A step of the finalize under its timeout, as \<open>stalls\<close> has it go.\<close>

definition awaiting :: "('st, 'a) pm \<Rightarrow> ('st, 'a) pm" where
  "awaiting m s =
     (let s' = s\<lparr>stalls := tl (stalls s)\<rparr> in
      case stalls s of
        NeverStarts # _ \<Rightarrow> (Inl Expired, s')
      | NeverReturns # _ \<Rightarrow> (Inl Expired, snd (m s'))
      | _ \<Rightarrow> m s')"

subsection \<open>Receiving\<close>

text \<open>\<open>_receive_pairing\<close>: frames of a \<open>discard\<close> kind and aborts with a \<open>discard_aborts\<close> reason are
  skipped; \<open>flag\<close> reports each discarded message (\<open>on_discard\<close>).\<close>

fun recv_loop :: "msg_kind set \<Rightarrow> msg_kind set \<Rightarrow> bool \<Rightarrow> abort_reason set \<Rightarrow> pairing_frame list
    \<Rightarrow> deviation list \<Rightarrow> (pair_error + pairing_msg) \<times> deviation list \<times> pairing_frame list" where
  "recv_loop kinds discard flag discard_aborts [] ns = (Inl Expired, ns, [])"
| "recv_loop kinds discard flag discard_aborts (FClosed # fs) ns =
     (Inl (PairingError ConnectionClosed), ns, fs)"
| "recv_loop kinds discard flag discard_aborts (FNotText # fs) ns = (Inl (PairingError NotJson), ns, fs)"
| "recv_loop kinds discard flag discard_aborts (FMalformed # fs) ns =
     (Inl (PairingError MalformedMessage), ns, fs)"
| "recv_loop kinds discard flag discard_aborts (FMsg m # fs) ns =
     (if kind_of m = KAbort then
        (if abort_why m \<in> discard_aborts then recv_loop kinds discard flag discard_aborts fs ns
         else (Inl (RemotePairingAbortError (abort_why m)), ns, fs))
      else if kind_of m \<in> discard then
        recv_loop kinds discard flag discard_aborts fs
          (if flag then ns @ [SentBeforeInit (kind_of m)] else ns)
      else if kind_of m \<notin> kinds then (Inl (PairingError (UnexpectedKind (kind_of m))), ns, fs)
      else (Inr m, ns, fs))"

definition receive_pairing :: "msg_kind set \<Rightarrow> msg_kind set \<Rightarrow> bool \<Rightarrow> abort_reason set
    \<Rightarrow> ('st, pairing_msg) pm" where
  "receive_pairing kinds discard flag discard_aborts s =
     (case recv_loop kinds discard flag discard_aborts (inbox s) (deviations s) of
        (r, ns, fs) \<Rightarrow> (r, s\<lparr>inbox := fs, deviations := ns\<rparr>))"

definition receive_kind :: "msg_kind set \<Rightarrow> ('st, pairing_msg) pm" where
  "receive_kind kinds = receive_pairing kinds {} False {}"

definition LEFTOVER_ABORT_REASONS :: "abort_reason set" where
  "LEFTOVER_ABORT_REASONS = {ATTEMPT_TIMEOUT, PAIRING_CODE_MISMATCH}"

text \<open>\<open>_receive_pairing(ws, PairAbortMessage)\<close> raises on the abort itself.\<close>

definition receive_pairing_abort :: "('st, 'a) pm" where
  "receive_pairing_abort =
     andthen (receive_kind {KAbort}) (\<lambda>_. fail (PairingError ExpectedAbort))"

definition await_pairing_code :: "('st, string) pm" where
  "await_pairing_code s =
     (case entered s of
        CodeEntered code # rest \<Rightarrow> (Inr code, s\<lparr>entered := rest\<rparr>)
      | ProviderRaised # rest \<Rightarrow> (Inl ProviderFailed, s\<lparr>entered := rest\<rparr>)
      | FrameFirst # rest \<Rightarrow> receive_pairing_abort (s\<lparr>entered := rest\<rparr>)
      | _ \<Rightarrow> (Inl Expired, s))"

definition decode_field :: "bool \<Rightarrow> string \<Rightarrow> string \<Rightarrow> nat \<Rightarrow> ('st, bytes) pm" where
  "decode_field nc value what expect_len =
     (case b64url_decode value of
        None \<Rightarrow> fail (PairingError (BadField what))
      | Some raw \<Rightarrow>
          if length raw \<noteq> expect_len then fail (PairingError (BadField what))
          else andthen (if b64url_encode raw \<noteq> value then add_note nc (NotCanonical what) else ret ())
            (\<lambda>_. ret raw))"

definition flag_pairing_index_below_one :: "bool \<Rightarrow> pairing_msg \<Rightarrow> ('st, unit) pm" where
  "flag_pairing_index_below_one nc m =
     (if pair_index m < 1 then add_note nc (IndexBelowOne (kind_of m)) else ret ())"

definition PAIR_PENDING_MESSAGE_MAX_LEN :: nat where "PAIR_PENDING_MESSAGE_MAX_LEN = 200"

text \<open>\<open>encoded[:n].decode(errors="ignore")\<close> of a text: the characters whose encodings fit whole.\<close>

fun utf8_prefix :: "nat \<Rightarrow> pystr \<Rightarrow> pystr" where
  "utf8_prefix n [] = []"
| "utf8_prefix n (c # cs) =
     (case utf8_encode_cp c of
        None \<Rightarrow> []
      | Some bs \<Rightarrow> if length bs \<le> n then c # utf8_prefix (n - length bs) cs else [])"

definition truncate_pending :: "bool \<Rightarrow> pystr option \<Rightarrow> ('st, pystr option) pm" where
  "truncate_pending nc message =
     (case message of
        None \<Rightarrow> ret None
      | Some t \<Rightarrow>
          (case utf8_encode t of
             None \<Rightarrow> fail PyValueError
           | Some encoded \<Rightarrow>
               if length encoded > PAIR_PENDING_MESSAGE_MAX_LEN
               then andthen (add_note nc PendingTooLong)
                 (\<lambda>_. ret (Some (utf8_prefix PAIR_PENDING_MESSAGE_MAX_LEN t)))
               else ret (Some t)))"

text \<open>The loop of \<open>_receive_pair_init\<close>: leftovers of superseded attempts are skipped. Every turn
  reads at least one frame, so as many turns as there are frames suffice.\<close>

fun match_index_loop :: "nat \<Rightarrow> int \<Rightarrow> bool \<Rightarrow> ('st, pairing_msg) pm" where
  "match_index_loop 0 pairing_index nc = fail OutOfFuel"
| "match_index_loop (Suc fuel) pairing_index nc =
     andthen (receive_pairing {KClientInit, KPending}
        {KClientAuth, KClientConfirm, KClientFinalize, KRetry}
        (nc \<and> \<not> pairing_index > 1)
        (if pairing_index > 1 then LEFTOVER_ABORT_REASONS else {})) (\<lambda>m.
       if pair_index m > pairing_index then fail (PairingError IndexAhead)
       else if pair_index m = pairing_index then ret m
       else andthen (flag_pairing_index_below_one nc m) (\<lambda>_. match_index_loop fuel pairing_index nc))"

definition receive_pair_init :: "int \<Rightarrow> bool \<Rightarrow> bool \<Rightarrow> ('st, pairing_msg) pm" where
  "receive_pair_init pairing_index has_on_pending nc s =
     andthen (server_timeout ''client/pair-init''
        (match_index_loop (Suc (length (inbox s))) pairing_index nc)) (\<lambda>m.
       if kind_of m = KClientInit then ret m
       else andthen (truncate_pending nc (pend_message m)) (\<lambda>shown.
         andthen (if has_on_pending then update (\<lambda>s. s\<lparr>pendings := pendings s @ [shown]\<rparr>) else ret ())
           (\<lambda>_. andthen (server_timeout ''gesture-gated client/pair-init'' (receive_kind {KClientInit}))
             (\<lambda>init. if pair_index init \<noteq> pairing_index then fail (PairingError IndexMismatch)
                     else ret init)))) s"

subsection \<open>Cryptography\<close>

datatype suite = CHACHAPOLY | AESGCM

text \<open>The interface of the cpace and cryptography packages the exchanges use.\<close>

record 'c crypto =
  sha256 :: "bytes \<Rightarrow> bytes"
  cp_start :: "bytes \<Rightarrow> bool \<Rightarrow> bytes \<Rightarrow> bytes \<Rightarrow> bytes \<Rightarrow> 'c option"
  cp_share :: "'c \<Rightarrow> bytes"
  cp_derive :: "'c \<Rightarrow> bytes \<Rightarrow> bytes \<Rightarrow> 'c option"
  cp_tag :: "'c \<Rightarrow> bytes"
  cp_verify :: "'c \<Rightarrow> bytes \<Rightarrow> bool"
  cp_isk :: "'c \<Rightarrow> bytes"
  aead_encrypt :: "suite \<Rightarrow> bytes \<Rightarrow> bytes \<Rightarrow> bytes \<Rightarrow> bytes"
  aead_decrypt :: "suite \<Rightarrow> bytes \<Rightarrow> bytes \<Rightarrow> bytes \<Rightarrow> bytes option"

definition PAKE_SID_LABEL :: bytes where "PAKE_SID_LABEL = ascii_bytes ''sendspin-pair-pake-v1''"
definition PAKE_AD_SERVER :: bytes where "PAKE_AD_SERVER = ascii_bytes ''server''"
definition PAKE_AD_CLIENT :: bytes where "PAKE_AD_CLIENT = ascii_bytes ''client''"
definition PAKE_SHARE_SIZE :: nat where "PAKE_SHARE_SIZE = 32"
definition KC_TAG_SIZE :: nat where "KC_TAG_SIZE = 64"
definition PSK_WRAP_LABEL :: bytes where
  "PSK_WRAP_LABEL = ascii_bytes ''sendspin-pair-psk-wrap-v1''"
definition NONCE_WRAP_LABEL :: bytes where
  "NONCE_WRAP_LABEL = ascii_bytes ''sendspin-pair-nonce-wrap-v1''"
definition LEGACY_PIN_DERIVE_LABEL :: bytes where
  "LEGACY_PIN_DERIVE_LABEL = ascii_bytes ''sendspin-pin-derive-v1''"
definition WRAP_NONCE :: bytes where "WRAP_NONCE = replicate 12 0"
definition AEAD_TAG_SIZE :: nat where "AEAD_TAG_SIZE = 16"
definition SENTINEL_PSK :: "(bytes \<Rightarrow> bytes) \<Rightarrow> bytes" where
  "SENTINEL_PSK hash = hash (ascii_bytes ''sendspin-sentinel-psk-v1'')"

text \<open>\<open>n.to_bytes(4, "big")\<close>, an \<open>OverflowError\<close> outside \<open>[0, 2 ^ 32)\<close>.\<close>

definition to_bytes_4 :: "int \<Rightarrow> bytes option" where
  "to_bytes_4 n = (if 0 \<le> n \<and> n < 2 ^ 32 then Some (to_bytes_be 4 (nat n)) else None)"

definition pake_sid :: "bytes \<Rightarrow> int \<Rightarrow> int \<Rightarrow> bytes option" where
  "pake_sid handshake_hash pairing_index round_number =
     (case to_bytes_4 pairing_index of None \<Rightarrow> None
      | Some ib \<Rightarrow> (case to_bytes_4 round_number of None \<Rightarrow> None
      | Some rb \<Rightarrow> Some (PAKE_SID_LABEL @ handshake_hash @ ib @ rb)))"

definition legacy_pake_sid :: "bytes \<Rightarrow> int \<Rightarrow> bytes option" where
  "legacy_pake_sid handshake_hash pairing_index =
     map_option (\<lambda>ib. PAKE_SID_LABEL @ handshake_hash @ ib) (to_bytes_4 pairing_index)"

definition legacy_pin_digits :: "(bytes \<Rightarrow> bytes) \<Rightarrow> bytes \<Rightarrow> bytes \<Rightarrow> bytes \<Rightarrow> string" where
  "legacy_pin_digits hash handshake_hash nonce_a nonce_b =
     map digit_char (to_digits 10 6 (from_bytes_be
       (hash (LEGACY_PIN_DERIVE_LABEL @ handshake_hash @ nonce_a @ nonce_b)) mod 1000000))"

definition wrap_key :: "'c crypto \<Rightarrow> bytes \<Rightarrow> bytes \<Rightarrow> 'c \<Rightarrow> bytes" where
  "wrap_key cr label sid cpace = sha256 cr (label @ sid @ cp_isk cr cpace)"

definition lift_opt :: "pair_error \<Rightarrow> 'a option \<Rightarrow> ('st, 'a) pm" where
  "lift_opt e x = (case x of None \<Rightarrow> fail e | Some v \<Rightarrow> ret v)"

definition lift_val :: "value_error + 'a \<Rightarrow> ('st, 'a) pm" where
  "lift_val x = (case x of Inl _ \<Rightarrow> fail PyValueError | Inr v \<Rightarrow> ret v)"

subsection \<open>Operator input and attempts\<close>

datatype code_format = DIGITS | QR_CODE

definition entered_dynamic_prs :: "code_format \<Rightarrow> string \<Rightarrow> pair_error + bytes" where
  "entered_dynamic_prs pairing_format typed =
     (case pairing_format of
        DIGITS \<Rightarrow>
          (let code = strip_separators typed in
           if \<not> isascii code \<or> \<not> isdigit code \<or> length code \<noteq> DYNAMIC_DIGITS
           then Inl InvalidPairingCodeError else Inr (ascii_bytes code))
      | QR_CODE \<Rightarrow>
          (case decode_pairing_code_token typed of
             Inl _ \<Rightarrow> Inl InvalidPairingCodeError | Inr prs \<Rightarrow> Inr prs))"

record pairing_attempt =
  att_method :: pair_method
  att_has_provider :: bool
  att_format :: "code_format option"
  att_psk :: "bytes option"
  att_client_id :: "string option"
  att_on_pair_pending :: bool
  att_owner :: "string option"

text \<open>\<open>PairingAttempt.__post_init__\<close>: \<open>None\<close> is its \<open>ValueError\<close>.\<close>

definition new_pairing_attempt :: "pairing_attempt \<Rightarrow> pairing_attempt option" where
  "new_pairing_attempt a =
     (if att_method a = PAIRING_PSK then
        (case att_psk a of
           None \<Rightarrow> None
         | Some psk \<Rightarrow>
             if length psk \<noteq> PSK_SIZE then None
             else if att_has_provider a \<or> att_format a \<noteq> None then None
             else if att_on_pair_pending a then None
             else if att_client_id a = None then None
             else Some a)
      else if \<not> att_has_provider a then None
      else if att_psk a \<noteq> None \<or> att_client_id a \<noteq> None then None
      else if att_method a = DYNAMIC_PAIRING_CODE
        then if att_format a = None then None else Some a
      else if att_format a \<noteq> None then None
      else Some a)"

subsection \<open>The PAKE\<close>

definition run_server_pake :: "'c crypto \<Rightarrow> bytes \<Rightarrow> bytes \<Rightarrow> bool \<Rightarrow> ('st, 'c) pm" where
  "run_server_pake cr prs sid nc =
     andthen draw (\<lambda>rnd.
     andthen (lift_opt (PairingError CPaceInit) (cp_start cr rnd True prs sid PAKE_AD_SERVER)) (\<lambda>cpace.
     andthen (send (ServerPairAuth (b64url_encode (cp_share cr cpace)))) (\<lambda>_.
     andthen (receive_kind {KClientAuth}) (\<lambda>auth.
     andthen (decode_field nc (pake_msg_2 auth) ''pake_msg_2'' PAKE_SHARE_SIZE) (\<lambda>peer_share.
     andthen (lift_opt (PairingError (CPaceShare ''pake_msg_2''))
               (cp_derive cr cpace peer_share PAKE_AD_CLIENT)) (\<lambda>cpace.
     andthen (send (ServerPairConfirm (b64url_encode (cp_tag cr cpace)))) (\<lambda>_. ret cpace)))))))"

definition run_client_pake :: "'c crypto \<Rightarrow> bytes \<Rightarrow> bytes \<Rightarrow> ('st, 'c \<times> bool) pm" where
  "run_client_pake cr prs sid =
     andthen draw (\<lambda>rnd.
     andthen (lift_opt (PairingError CPaceInit) (cp_start cr rnd False prs sid PAKE_AD_CLIENT)) (\<lambda>cpace.
     andthen (receive_kind {KServerAuth}) (\<lambda>auth.
     andthen (send (ClientPairAuth (b64url_encode (cp_share cr cpace)))) (\<lambda>_.
     andthen (decode_field False (pake_msg_1 auth) ''pake_msg_1'' PAKE_SHARE_SIZE) (\<lambda>peer_share.
     andthen (lift_opt (PairingError (CPaceShare ''pake_msg_1''))
               (cp_derive cr cpace peer_share PAKE_AD_SERVER)) (\<lambda>cpace.
     andthen (receive_kind {KServerConfirm}) (\<lambda>confirm.
     andthen (decode_field False (server_kc confirm) ''server_kc'' KC_TAG_SIZE) (\<lambda>kc.
     ret (cpace, cp_verify cr cpace kc)))))))))"

subsection \<open>Finalizing\<close>

record 'c pair_env =
  crypt :: "'c crypto"
  ws_suite :: suite
  clock_now :: int
  local_server_id :: string
  remote_client_id :: string
  protected_ids :: "string list"
  attempt_owner :: "string option"
  nonc :: bool

definition finalize_client :: "'c pair_env \<Rightarrow> bytes option \<Rightarrow> (client_store, unit) pm" where
  "finalize_client env key =
     andthen draw (\<lambda>fresh.
     andthen (lift_val (resolve_pairing_outcome (sha256 (crypt env)) (clock_now env) fresh
                (local_server_id env))) (\<lambda>(psk, rec).
     andthen (update (\<lambda>s. s\<lparr>finalize_calls := Suc (finalize_calls s)\<rparr>)) (\<lambda>_.
     andthen (send (case key of
         None \<Rightarrow> ClientPairFinalize (Some (b64url_encode psk)) None
       | Some k \<Rightarrow> ClientPairFinalize None
           (Some (b64url_encode (aead_encrypt (crypt env) (ws_suite env) k WRAP_NONCE psk))))) (\<lambda>_.
     andthen (receive_kind {KServerFinalize}) (\<lambda>_.
     on_store (replace_record_for_server_id rec (protected_ids env)))))))"

definition unwrap_psk :: "'c pair_env \<Rightarrow> pairing_msg \<Rightarrow> bytes option \<Rightarrow> ('st, bytes) pm" where
  "unwrap_psk env m key =
     (if long_term_psk m \<noteq> None \<and> wrapped_psk m \<noteq> None then fail (PairingError BothPsks)
      else case key of
        None \<Rightarrow>
          (case long_term_psk m of
             None \<Rightarrow> fail (PairingError PskMissing)
           | Some v \<Rightarrow> decode_field (nonc env) v ''long_term_psk'' PSK_SIZE)
      | Some k \<Rightarrow>
          (case wrapped_psk m of
             None \<Rightarrow> fail (PairingError WrappedPskMissing)
           | Some v \<Rightarrow>
               andthen (decode_field (nonc env) v ''wrapped_psk'' (PSK_SIZE + AEAD_TAG_SIZE)) (\<lambda>w.
                 lift_opt (PairingError (AeadFailure ''wrapped_psk''))
                   (aead_decrypt (crypt env) (ws_suite env) k WRAP_NONCE w))))"

definition finalized_record :: "'c pair_env \<Rightarrow> server_record option \<Rightarrow> pair_method \<Rightarrow> bytes \<Rightarrow> string
    \<Rightarrow> server_record" where
  "finalized_record env existing method psk psk_id =
     (case existing of
        None \<Rightarrow> \<lparr>sr_psk_id = psk_id, sr_psk = psk, sr_client_id = remote_client_id env,
          sr_pair_methods = [method], sr_created_at = clock_now env, sr_owner = attempt_owner env\<rparr>
      | Some r \<Rightarrow> (with_method r method)\<lparr>sr_psk_id := psk_id, sr_psk := psk,
          sr_owner := attempt_owner env\<rparr>)"

definition FINALIZE_TIMEOUT :: string where
  "FINALIZE_TIMEOUT = ''completion of the pairing finalize''"

text \<open>Past the stored record a timeout is no \<open>PairingTimeoutError\<close>.\<close>

definition completion_timeout :: "('st, 'a) pm \<Rightarrow> ('st, 'a) pm" where
  "completion_timeout m s =
     (case m s of (Inl Expired, s') \<Rightarrow> (Inl (PairingError CompletionTimedOut), s') | r \<Rightarrow> r)"

text \<open>The end of \<open>_commit_finalize\<close>: persist before acking, then drop the client's lesser grants. The
  first timeout of the source spans the lookup of the existing record too; what lies between the two
  awaits nothing.\<close>

definition store_and_ack :: "'c pair_env \<Rightarrow> server_record \<Rightarrow> (server_store, server_record) pm" where
  "store_and_ack env rec =
     andthen (server_timeout FINALIZE_TIMEOUT (awaiting (on_store (s_store_record (clock_now env) rec)))) (\<lambda>_.
     andthen (completion_timeout
       (andthen (awaiting (send ServerPairFinalize)) (\<lambda>_.
        andthen (awaiting (on_store (s_unstage_pairing_psk (clock_now env) (remote_client_id env)))) (\<lambda>_.
        awaiting (on_store (s_remove_trusted_unpaired (clock_now env) (remote_client_id env))))))) (\<lambda>_.
     ret rec))"

definition commit_finalize :: "'c pair_env \<Rightarrow> pairing_msg \<Rightarrow> pair_method \<Rightarrow> bytes option
    \<Rightarrow> bytes option \<Rightarrow> (server_store, server_record) pm" where
  "commit_finalize env m method key pairing_psk =
     andthen (server_timeout FINALIZE_TIMEOUT (awaiting get_store)) (\<lambda>st.
     let existing = s_record_by_client_id st (remote_client_id env) in
     andthen (unwrap_psk env m key) (\<lambda>psk.
     andthen (require (psk \<noteq> SENTINEL_PSK (sha256 (crypt env)) \<and> Some psk \<noteq> pairing_psk)
       (PairingError PskReused)) (\<lambda>_.
     andthen (lift_val (psk_id_for (sha256 (crypt env)) psk)) (\<lambda>psk_id.
     store_and_ack env (finalized_record env existing method psk psk_id)))))"

definition finalize_server :: "'c pair_env \<Rightarrow> pair_method \<Rightarrow> bytes option \<Rightarrow> pairing_msg option
    \<Rightarrow> bytes option \<Rightarrow> (server_store, server_record) pm" where
  "finalize_server env method key received pairing_psk =
     andthen (case received of None \<Rightarrow> receive_kind {KClientFinalize} | Some m \<Rightarrow> ret m) (\<lambda>m.
     commit_finalize env m method key pairing_psk)"

subsection \<open>The Pairing PSK flow\<close>

definition run_pairing_psk_client :: "'c pair_env \<Rightarrow> int \<Rightarrow> (client_store, unit) pm" where
  "run_pairing_psk_client env pairing_index =
     client_timeout (andthen (send (ClientPairInit pairing_index None)) (\<lambda>_. finalize_client env None))"

text \<open>The first-message loop of \<open>run_pairing_psk_server\<close>; \<open>legacy\<close> says that \<open>on_legacy_finalize\<close>
  is set. The result is the finalize accepted early, if any.\<close>

fun psk_init_loop :: "nat \<Rightarrow> int \<Rightarrow> bool \<Rightarrow> bool \<Rightarrow> bool \<Rightarrow> ('st, pairing_msg option) pm" where
  "psk_init_loop 0 pairing_index legacy nc seen = fail OutOfFuel"
| "psk_init_loop (Suc fuel) pairing_index legacy nc seen =
     andthen (receive_pairing {KClientInit, KPending, KClientFinalize}
        {KClientAuth, KClientConfirm, KRetry}
        (nc \<and> \<not> pairing_index > 1)
        (if pairing_index > 1 then LEFTOVER_ABORT_REASONS else {})) (\<lambda>m.
     if kind_of m = KClientFinalize then
       (if legacy \<and> \<not> seen \<and> long_term_psk m \<noteq> None \<and> wrapped_psk m = None
        then andthen (update (\<lambda>s. s\<lparr>legacy_finalizes := Suc (legacy_finalizes s)\<rparr>)) (\<lambda>_. ret (Some m))
        else andthen (add_note (nc \<and> \<not> pairing_index > 1) (SentBeforeInit KClientFinalize))
          (\<lambda>_. psk_init_loop fuel pairing_index legacy nc seen))
     else andthen (if kind_of m = KClientInit
                   then update (\<lambda>s. s\<lparr>pair_inits := Suc (pair_inits s)\<rparr>) else ret ()) (\<lambda>_.
       let seen' = (seen \<or> kind_of m = KClientInit) in
       if pair_index m > pairing_index then fail (PairingError IndexAhead)
       else if pair_index m < pairing_index then
         andthen (flag_pairing_index_below_one nc m)
           (\<lambda>_. psk_init_loop fuel pairing_index legacy nc seen')
       else if kind_of m = KPending then fail (PairingError PendingNotInFlow)
       else if commit_B m \<noteq> None then fail (PairingError CommitNotInFlow)
       else ret None))"

definition run_pairing_psk_server :: "'c pair_env \<Rightarrow> int \<Rightarrow> bool \<Rightarrow> bytes option
    \<Rightarrow> (server_store, server_record) pm" where
  "run_pairing_psk_server env pairing_index legacy pairing_psk s =
     andthen (server_timeout ''client/pair-init''
        (psk_init_loop (Suc (length (inbox s))) pairing_index legacy (nonc env) False)) (\<lambda>early.
     server_timeout ''the rest of the attempt''
       (finalize_server env PAIRING_PSK None early pairing_psk)) s"

subsection \<open>The dynamic-pairing-code flow\<close>

definition emit :: "string \<Rightarrow> ('st, unit) pm" where
  "emit code s =
     (case emit_plan s of
        False # rest \<Rightarrow> (Inl EmitterFailed, s\<lparr>emitted := emitted s @ [code], emit_plan := rest\<rparr>)
      | plan \<Rightarrow> (Inr (), s\<lparr>emitted := emitted s @ [code], emit_plan := tl plan\<rparr>))"

text \<open>After a round whose confirmation did not verify: abort at the round limit, else offer a retry.\<close>

definition client_retry :: "(client_store, unit) pm" where
  "client_retry =
     andthen get_store (\<lambda>st.
     andthen (if is_pairing_round_limit_reached st then abort_pairing PAIRING_CODE_MISMATCH
              else ret ()) (\<lambda>_.
     andthen (send ClientPairRetry) (\<lambda>_.
     andthen (receive_kind {KServerInit}) (\<lambda>init.
     require (nonce_A init = None) (PairingError NonceRepeated)))))"

text \<open>The rounds of the client: each emits its code and runs one PAKE; the result is the session id
  and the verified CPace state.\<close>

fun dyn_client_rounds :: "'c pair_env \<Rightarrow> bytes \<Rightarrow> int \<Rightarrow> bytes \<Rightarrow> string \<Rightarrow> nat \<Rightarrow> int
    \<Rightarrow> (client_store, bytes \<times> 'c) pm" where
  "dyn_client_rounds env hh pairing_index prs code 0 round_number = fail OutOfFuel"
| "dyn_client_rounds env hh pairing_index prs code (Suc fuel) round_number =
     andthen (on_store record_pairing_round) (\<lambda>_.
     andthen (emit code) (\<lambda>_.
     andthen (lift_opt PyOverflowError (pake_sid hh pairing_index round_number)) (\<lambda>sid.
     andthen (run_client_pake (crypt env) prs sid) (\<lambda>(cpace, verified).
     if verified then ret (sid, cpace)
     else andthen client_retry (\<lambda>_.
       dyn_client_rounds env hh pairing_index prs code fuel (round_number + 1))))))"

text \<open>The code a client shows: its CPace password and its printed form.\<close>

definition shown_code :: "'c pair_env \<Rightarrow> code_format \<Rightarrow> bytes \<Rightarrow> bytes \<Rightarrow> bytes
    \<Rightarrow> value_error + bytes \<times> string" where
  "shown_code env pairing_format hh nonce_a nonce_b =
     (case pairing_format of
        DIGITS \<Rightarrow> then_ok (derive_digits (sha256 (crypt env)) hh nonce_a nonce_b)
                    (\<lambda>code. Inr (ascii_bytes code, code))
      | QR_CODE \<Rightarrow> then_ok (derive_qr_code (sha256 (crypt env)) hh nonce_a nonce_b)
                    (\<lambda>prs. then_ok (encode_pairing_code_token prs) (\<lambda>code. Inr (prs, code))))"

definition run_dynamic_pairing_code_client :: "'c pair_env \<Rightarrow> bytes \<Rightarrow> int \<Rightarrow> code_format
    \<Rightarrow> (client_store, unit) pm" where
  "run_dynamic_pairing_code_client env hh pairing_index pairing_format =
     andthen draw (\<lambda>nonce_b.
     client_timeout (
       andthen (lift_val (commit (sha256 (crypt env)) nonce_b)) (\<lambda>c.
       andthen (send (ClientPairInit pairing_index (Some (b64url_encode c)))) (\<lambda>_.
       andthen (receive_kind {KServerInit}) (\<lambda>init.
       andthen (lift_opt (PairingError NonceMissing) (nonce_A init)) (\<lambda>field.
       andthen (decode_field False field ''nonce_A'' NONCE_SIZE) (\<lambda>nonce_a.
       andthen (lift_val (shown_code env pairing_format hh nonce_a nonce_b)) (\<lambda>(prs, code).
       andthen (\<lambda>s. dyn_client_rounds env hh pairing_index prs code (Suc (length (inbox s))) 1 s)
         (\<lambda>(sid, cpace).
       andthen (on_store reset_pairing_rounds) (\<lambda>_.
       andthen (send (ClientPairConfirm (b64url_encode (cp_tag (crypt env) cpace))
         (Some (b64url_encode (aead_encrypt (crypt env) (ws_suite env)
            (wrap_key (crypt env) NONCE_WRAP_LABEL sid cpace) WRAP_NONCE nonce_b))) None)) (\<lambda>_.
       finalize_client env (Some (wrap_key (crypt env) PSK_WRAP_LABEL sid cpace)))))))))))))"

fun dyn_server_rounds :: "'c pair_env \<Rightarrow> bytes \<Rightarrow> int \<Rightarrow> code_format \<Rightarrow> bool \<Rightarrow> nat \<Rightarrow> int \<Rightarrow> pairing_msg
    \<Rightarrow> ('st, bytes \<times> bytes \<times> 'c \<times> pairing_msg) pm" where
  "dyn_server_rounds env hh pairing_index pairing_format legacy_rounds 0 round_number init =
     fail OutOfFuel"
| "dyn_server_rounds env hh pairing_index pairing_format legacy_rounds (Suc fuel) round_number init =
     andthen (send init) (\<lambda>_.
     andthen await_pairing_code (\<lambda>typed.
     andthen (case entered_dynamic_prs pairing_format typed of Inl e \<Rightarrow> fail e | Inr prs \<Rightarrow> ret prs) (\<lambda>prs.
     andthen (lift_opt PyOverflowError (if legacy_rounds then legacy_pake_sid hh pairing_index
              else pake_sid hh pairing_index round_number)) (\<lambda>sid.
     andthen (run_server_pake (crypt env) prs sid (nonc env)) (\<lambda>cpace.
     if legacy_rounds
     then andthen (receive_kind {KClientConfirm}) (\<lambda>confirm. ret (prs, sid, cpace, confirm))
     else andthen (receive_kind {KClientConfirm, KRetry}) (\<lambda>reply.
       if kind_of reply = KClientConfirm then ret (prs, sid, cpace, reply)
       else andthen (add_note (nonc env \<and> round_number \<ge> PAIRING_ROUND_LIMIT) RetryPastLimit) (\<lambda>_.
         dyn_server_rounds env hh pairing_index pairing_format legacy_rounds fuel (round_number + 1)
           (ServerPairInit None None))))))))"

text \<open>Opening the nonce of \<open>client/pair-confirm\<close>: bare for a dynamic PIN, else wrapped.\<close>

definition revealed_nonce :: "'c pair_env \<Rightarrow> bool \<Rightarrow> bytes \<Rightarrow> 'c \<Rightarrow> pairing_msg \<Rightarrow> ('st, bytes) pm" where
  "revealed_nonce env legacy_pin sid cpace confirm =
     (if legacy_pin then
        (case nonce_B confirm of
           None \<Rightarrow> fail (PairingError OnlyNonceB)
         | Some v \<Rightarrow>
             if wrapped_nonce_B confirm \<noteq> None then fail (PairingError OnlyNonceB)
             else decode_field (nonc env) v ''nonce_B'' NONCE_SIZE)
      else
        (case wrapped_nonce_B confirm of
           None \<Rightarrow> fail (PairingError WrappedNonceMissing)
         | Some v \<Rightarrow>
             andthen (decode_field (nonc env) v ''wrapped_nonce_B'' (NONCE_SIZE + AEAD_TAG_SIZE)) (\<lambda>w.
               lift_opt (PairingError (AeadFailure ''wrapped_nonce_B''))
                 (aead_decrypt (crypt env) (ws_suite env)
                   (wrap_key (crypt env) NONCE_WRAP_LABEL sid cpace) WRAP_NONCE w))))"

definition derived_prs :: "'c pair_env \<Rightarrow> code_format \<Rightarrow> bool \<Rightarrow> bytes \<Rightarrow> bytes \<Rightarrow> bytes
    \<Rightarrow> value_error + bytes" where
  "derived_prs env pairing_format legacy_pin hh nonce_a nonce_b =
     (if legacy_pin then Inr (ascii_bytes (legacy_pin_digits (sha256 (crypt env)) hh nonce_a nonce_b))
      else case pairing_format of
        DIGITS \<Rightarrow> then_ok (derive_digits (sha256 (crypt env)) hh nonce_a nonce_b)
                    (\<lambda>code. Inr (ascii_bytes code))
      | QR_CODE \<Rightarrow> derive_qr_code (sha256 (crypt env)) hh nonce_a nonce_b)"

definition verify_client_kc :: "'c pair_env \<Rightarrow> 'c \<Rightarrow> pairing_msg \<Rightarrow> ('st, unit) pm" where
  "verify_client_kc env cpace confirm =
     andthen (decode_field (nonc env) (client_kc confirm) ''client_kc'' KC_TAG_SIZE) (\<lambda>kc.
       if cp_verify (crypt env) cpace kc then ret () else abort_pairing PAIRING_CODE_MISMATCH)"

text \<open>What the server does with \<open>client/pair-confirm\<close>.\<close>

definition dyn_server_confirm :: "'c pair_env \<Rightarrow> bytes \<Rightarrow> code_format \<Rightarrow> bool \<Rightarrow> bytes \<Rightarrow> bytes
    \<Rightarrow> bytes \<Rightarrow> bytes \<Rightarrow> 'c \<Rightarrow> pairing_msg \<Rightarrow> (server_store, server_record) pm" where
  "dyn_server_confirm env hh pairing_format legacy_pin nonce_a commitment prs sid cpace confirm =
     andthen (verify_client_kc env cpace confirm) (\<lambda>_.
     andthen (revealed_nonce env legacy_pin sid cpace confirm) (\<lambda>nonce_b.
     andthen (lift_val (verify_commit (sha256 (crypt env)) nonce_b commitment)) (\<lambda>opens.
     andthen (require opens (PairingError CommitMismatch)) (\<lambda>_.
     andthen (lift_val (derived_prs env pairing_format legacy_pin hh nonce_a nonce_b)) (\<lambda>derived.
     andthen (require (prs = derived) (PairingError CodeNotBound)) (\<lambda>_.
     finalize_server env DYNAMIC_PAIRING_CODE
       (Some (wrap_key (crypt env) PSK_WRAP_LABEL sid cpace)) None None))))))"

definition run_dynamic_pairing_code_server :: "'c pair_env \<Rightarrow> bytes \<Rightarrow> int \<Rightarrow> code_format \<Rightarrow> bool \<Rightarrow> bool
    \<Rightarrow> bool \<Rightarrow> (server_store, server_record) pm" where
  "run_dynamic_pairing_code_server env hh pairing_index pairing_format has_on_pending legacy_rounds
     legacy_pin =
     andthen (receive_pair_init pairing_index has_on_pending (nonc env)) (\<lambda>init.
     andthen (lift_opt (PairingError CommitMissing) (commit_B init)) (\<lambda>field.
     andthen (decode_field (nonc env) field ''commit_B'' COMMIT_SIZE) (\<lambda>commitment.
     server_timeout ''the rest of the attempt'' (
       andthen draw (\<lambda>nonce_a.
       andthen (\<lambda>s. dyn_server_rounds env hh pairing_index pairing_format legacy_rounds
         (Suc (length (inbox s))) 1
         (ServerPairInit (Some (b64url_encode nonce_a)) (if legacy_pin then Some DYNAMIC_DIGITS else None))
         s) (\<lambda>(prs, sid, cpace, confirm).
       dyn_server_confirm env hh pairing_format legacy_pin nonce_a commitment prs sid cpace confirm))))))"

subsection \<open>The static-pairing-code flow\<close>

definition encode_ascii :: "string \<Rightarrow> bytes option" where
  "encode_ascii code = (if isascii code then Some (ascii_bytes code) else None)"

definition run_static_pairing_code_client :: "'c pair_env \<Rightarrow> bytes \<Rightarrow> int \<Rightarrow> string
    \<Rightarrow> (client_store, unit) pm" where
  "run_static_pairing_code_client env hh pairing_index static_pairing_code =
     andthen (lift_opt PyOverflowError (pake_sid hh pairing_index 1)) (\<lambda>sid.
     client_timeout (
       andthen (send (ClientPairInit pairing_index None)) (\<lambda>_.
       andthen (lift_opt PyValueError (encode_ascii static_pairing_code)) (\<lambda>prs.
       andthen (run_client_pake (crypt env) prs sid) (\<lambda>(cpace, verified).
       andthen (if verified then ret () else abort_pairing PAIRING_CODE_MISMATCH) (\<lambda>_.
       andthen (send (ClientPairConfirm (b64url_encode (cp_tag (crypt env) cpace)) None None)) (\<lambda>_.
       finalize_client env (Some (wrap_key (crypt env) PSK_WRAP_LABEL sid cpace)))))))))"

definition run_static_pairing_code_server :: "'c pair_env \<Rightarrow> bytes \<Rightarrow> int \<Rightarrow> bool \<Rightarrow> bool
    \<Rightarrow> (server_store, server_record) pm" where
  "run_static_pairing_code_server env hh pairing_index has_on_pending legacy_rounds =
     andthen (lift_opt PyOverflowError (if legacy_rounds then legacy_pake_sid hh pairing_index
              else pake_sid hh pairing_index 1)) (\<lambda>sid.
     andthen (receive_pair_init pairing_index has_on_pending (nonc env)) (\<lambda>init.
     andthen (require (commit_B init = None) (PairingError CommitNotInFlow)) (\<lambda>_.
     server_timeout ''the rest of the attempt'' (
       andthen await_pairing_code (\<lambda>typed.
       let code = strip_separators typed in
       andthen (require (is_valid_static_pairing_code code) InvalidPairingCodeError) (\<lambda>_.
       andthen (run_server_pake (crypt env) (ascii_bytes code) sid (nonc env)) (\<lambda>cpace.
       andthen (receive_kind {KClientConfirm}) (\<lambda>confirm.
       andthen (require (wrapped_nonce_B confirm = None) (PairingError WrappedNonceUnexpected)) (\<lambda>_.
       andthen (verify_client_kc env cpace confirm) (\<lambda>_.
       finalize_server env STATIC_PAIRING_CODE
         (Some (wrap_key (crypt env) PSK_WRAP_LABEL sid cpace)) None None))))))))))"

end
