(* ===== verification/Pairing_Logic.thy ===== *)
theory Pairing_Logic
  imports Pairing "HOL-Library.Sublist"
begin

text \<open>
  A small program logic for the pairing exchanges: \<open>quiet m\<close> says that \<open>m\<close> leaves the store alone,
  reads its frames in order, only appends to what it sent and never acknowledges a finalize;
  \<open>reads m\<close> says that a result of \<open>m\<close> has consumed a frame; \<open>never e m\<close> that \<open>m\<close> does not raise
  \<open>e\<close>; \<open>no_fuel n m\<close> that \<open>n\<close> turns are enough when fewer than \<open>n\<close> frames are left.
\<close>

named_theorems quiet_intros \<open>programs that only communicate\<close>
named_theorems reads_intros \<open>programs that consume a frame\<close>
named_theorems never_intros \<open>programs that do not raise a given error\<close>

lemmas pm_defs = ret_def fail_def andthen_def update_def require_def get_store_def

subsection \<open>Programs that only communicate\<close>

definition comm :: "'st pst \<Rightarrow> 'st pst \<Rightarrow> bool" where
  "comm s s' \<longleftrightarrow> pstore s' = pstore s \<and> suffix (inbox s') (inbox s) \<and> prefix (outbox s) (outbox s')
     \<and> suffix (entered s') (entered s) \<and> random s' = random s \<and> drawn s \<le> drawn s'
     \<and> emitted s' = emitted s \<and> ServerPairFinalize \<notin> set (drop (length (outbox s)) (outbox s'))"

definition quiet :: "('st, 'a) pm \<Rightarrow> bool" where
  "quiet m \<longleftrightarrow> (\<forall>s. comm s (snd (m s)))"

lemma comm_refl [simp, intro]: "comm s s"
  by (simp add: comm_def)

lemma comm_trans: "comm s t \<Longrightarrow> comm t u \<Longrightarrow> comm s u"
  unfolding comm_def
  by (auto simp: prefix_def intro: suffix_order.trans)

lemma quietI: "(\<And>s. comm s (snd (m s))) \<Longrightarrow> quiet m"
  by (simp add: quiet_def)

lemma quietD: "quiet m \<Longrightarrow> comm s (snd (m s))"
  by (simp add: quiet_def)

lemma quiet_run: "quiet m \<Longrightarrow> m s = (r, s') \<Longrightarrow> comm s s'"
  by (metis quietD snd_conv)

lemma andthen_run:
  "andthen m f s = (case m s of (Inl e, s') \<Rightarrow> (Inl e, s') | (Inr x, s') \<Rightarrow> f x s')"
  by (rule andthen_def)

lemma quiet_andthen [quiet_intros]: "quiet m \<Longrightarrow> (\<And>x. quiet (f x)) \<Longrightarrow> quiet (andthen m f)"
  by (rule quietI)
     (auto simp: andthen_def split: prod.split sum.split
       intro: quiet_run comm_trans [OF quiet_run quietD])

lemma quiet_ret [quiet_intros]: "quiet (ret x)"
  by (simp add: quiet_def ret_def)

lemma quiet_fail [quiet_intros]: "quiet (fail e)"
  by (simp add: quiet_def fail_def)

lemma quiet_awaiting [quiet_intros]:
  assumes "quiet m"
  shows "quiet (awaiting m)"
proof (rule quietI)
  fix s :: "'a pst"
  have "comm s (s\<lparr>stalls := x\<rparr>)" for x by (simp add: comm_def)
  then show "comm s (snd (awaiting m s))"
    using comm_trans [OF _ quietD [OF assms]]
    by (auto simp: awaiting_def Let_def split: list.split stall.split)
qed

lemma quiet_if [quiet_intros]: "quiet m \<Longrightarrow> quiet n \<Longrightarrow> quiet (if b then m else n)"
  by simp

lemma quiet_require [quiet_intros]: "quiet (require b e)"
  unfolding require_def by (intro quiet_intros)

lemma quiet_lift_opt [quiet_intros]: "quiet (lift_opt e x)"
  unfolding lift_opt_def by (cases x) (simp_all add: quiet_intros)

lemma quiet_lift_val [quiet_intros]: "quiet (lift_val x)"
  unfolding lift_val_def by (cases x) (simp_all add: quiet_intros)

lemma quiet_get_store [quiet_intros]: "quiet get_store"
  by (simp add: quiet_def get_store_def)

lemma quiet_draw [quiet_intros]: "quiet draw"
  by (simp add: quiet_def draw_def comm_def)

lemma quiet_add_note [quiet_intros]: "quiet (add_note nc n)"
  by (simp add: quiet_def add_note_def update_def ret_def comm_def)

lemma quiet_send [quiet_intros]: "m \<noteq> ServerPairFinalize \<Longrightarrow> quiet (send m)"
  by (rule quietI) (auto simp: send_def comm_def split: list.split bool.split)

lemma quiet_abort [quiet_intros]: "quiet (abort_pairing r)"
  using quiet_send [of "PairAbort r"] by (simp add: quiet_def abort_pairing_def)

lemma quiet_client_timeout [quiet_intros]: "quiet m \<Longrightarrow> quiet (client_timeout m)"
  by (rule quietI)
     (auto simp: client_timeout_def split: prod.split sum.split pair_error.split
       intro: quiet_run comm_trans [OF quiet_run quietD [OF quiet_abort]])

lemma quiet_server_timeout [quiet_intros]: "quiet m \<Longrightarrow> quiet (server_timeout w m)"
  by (rule quietI)
     (auto simp: server_timeout_def split: prod.split sum.split pair_error.split intro: quiet_run)

lemma recv_loop_suffix: "recv_loop k d f a fs ns = (r, ns', fs') \<Longrightarrow> suffix fs' fs"
  by (induction k d f a fs ns rule: recv_loop.induct)
     (auto intro: suffix_ConsI split: if_splits)

lemma quiet_receive [quiet_intros]: "quiet (receive_pairing k d f a)"
  by (rule quietI) (auto simp: receive_pairing_def comm_def split: prod.split dest: recv_loop_suffix)

lemma quiet_receive_kind [quiet_intros]: "quiet (receive_kind k)"
  unfolding receive_kind_def by (rule quiet_receive)

lemma quiet_receive_abort [quiet_intros]: "quiet receive_pairing_abort"
  unfolding receive_pairing_abort_def by (intro quiet_intros)

lemma comm_entered: "comm (s\<lparr>entered := es\<rparr>) t \<Longrightarrow> suffix es (entered s) \<Longrightarrow> comm s t"
  by (auto simp: comm_def intro: suffix_order.trans)

lemma quiet_await_code [quiet_intros]: "quiet await_pairing_code"
proof (rule quietI)
  fix s :: "'a pst"
  have frame: "comm s (snd (receive_pairing_abort (s\<lparr>entered := es\<rparr>)))" if "entered s = x # es" for x es
    by (rule comm_entered [OF quietD [OF quiet_receive_abort]]) (simp add: that suffix_ConsI)
  have drop: "comm s (s\<lparr>entered := es\<rparr>)" if "entered s = x # es" for x es
    by (simp add: comm_def that suffix_ConsI)
  show "comm s (snd (await_pairing_code s))"
    by (simp add: await_pairing_code_def frame drop split: list.split race.split)
qed

lemma quiet_decode_field [quiet_intros]: "quiet (decode_field nc v w n)"
  unfolding decode_field_def
  by (auto split: option.split intro!: quiet_intros)

lemma quiet_flag [quiet_intros]: "quiet (flag_pairing_index_below_one nc m)"
  unfolding flag_pairing_index_below_one_def by (intro quiet_intros)

lemma quiet_truncate [quiet_intros]: "quiet (truncate_pending nc m)"
  unfolding truncate_pending_def
  by (auto split: option.split intro!: quiet_intros)

lemma quiet_match_index [quiet_intros]: "quiet (match_index_loop n i nc)"
proof (induction n)
  case (Suc n)
  show ?case unfolding match_index_loop.simps by (intro quiet_intros Suc.IH)
qed (simp add: quiet_intros)

lemma quiet_pending [quiet_intros]: "quiet (update (\<lambda>s. s\<lparr>pendings := pendings s @ [x]\<rparr>))"
  "quiet (update (\<lambda>s. s\<lparr>pair_inits := Suc (pair_inits s)\<rparr>))"
  "quiet (update (\<lambda>s. s\<lparr>legacy_finalizes := Suc (legacy_finalizes s)\<rparr>))"
  "quiet (update (\<lambda>s. s\<lparr>finalize_calls := Suc (finalize_calls s)\<rparr>))"
  by (simp_all add: quiet_def update_def comm_def)

text \<open>The fuel is computed from the state a program starts in.\<close>

lemma quiet_receive_pair_init [quiet_intros]: "quiet (receive_pair_init i p nc)"
  by (rule quietI, unfold receive_pair_init_def, rule quietD) (intro quiet_intros)

lemma quiet_server_pake [quiet_intros]: "quiet (run_server_pake cr prs sid nc)"
  unfolding run_server_pake_def by (intro quiet_intros) simp_all

lemma quiet_client_pake [quiet_intros]: "quiet (run_client_pake cr prs sid)"
  unfolding run_client_pake_def by (intro quiet_intros) simp_all

lemma quiet_psk_init [quiet_intros]: "quiet (psk_init_loop n i l nc seen)"
proof (induction n arbitrary: seen)
  case (Suc n)
  show ?case unfolding psk_init_loop.simps Let_def by (intro quiet_intros Suc.IH)
qed (simp add: quiet_intros)

lemma quiet_dyn_server [quiet_intros]:
  "init \<noteq> ServerPairFinalize \<Longrightarrow> quiet (dyn_server_rounds env hh i fmt lr n r init)"
proof (induction n arbitrary: r init)
  case (Suc n)
  have "quiet (case entered_dynamic_prs fmt t of Inl e \<Rightarrow> fail e | Inr prs \<Rightarrow> ret prs)" for t
    by (cases "entered_dynamic_prs fmt t") (simp_all add: quiet_intros)
  then show ?case unfolding dyn_server_rounds.simps
    by (intro quiet_intros Suc.IH Suc.prems) simp_all
qed (simp add: quiet_intros)

lemma quiet_revealed [quiet_intros]: "quiet (revealed_nonce env lp sid c m)"
  unfolding revealed_nonce_def by (auto split: option.split intro!: quiet_intros)

lemma quiet_verify_kc [quiet_intros]: "quiet (verify_client_kc env c m)"
  unfolding verify_client_kc_def by (intro quiet_intros)

lemma quiet_unwrap [quiet_intros]: "quiet (unwrap_psk env m k)"
  unfolding unwrap_psk_def by (auto split: option.split intro!: quiet_intros)

lemma quiet_psk_start: "quiet (\<lambda>s. psk_init_loop (Suc (length (inbox s))) i l nc seen s)"
  by (rule quietI, rule quietD) (intro quiet_intros)

lemma quiet_rounds_start:
  "init \<noteq> ServerPairFinalize \<Longrightarrow>
     quiet (\<lambda>s. dyn_server_rounds env hh i fmt lr (Suc (length (inbox s))) r init s)"
  by (rule quietI, rule quietD) (intro quiet_intros)

subsection \<open>The loops end\<close>

definition shrinks :: "('st, 'a) pm \<Rightarrow> bool" where
  "shrinks m \<longleftrightarrow> (\<forall>s. length (inbox (snd (m s))) \<le> length (inbox s))"

definition reads :: "('st, 'a) pm \<Rightarrow> bool" where
  "reads m \<longleftrightarrow> (\<forall>s x s'. m s = (Inr x, s') \<longrightarrow> length (inbox s') < length (inbox s))"

text \<open>\<open>no_fuel n m\<close>: started with fewer than \<open>n\<close> frames, \<open>m\<close> does not run out of fuel.\<close>

definition no_fuel :: "nat \<Rightarrow> ('st, 'a) pm \<Rightarrow> bool" where
  "no_fuel n m \<longleftrightarrow> (\<forall>s. length (inbox s) < n \<longrightarrow> fst (m s) \<noteq> Inl OutOfFuel)"

definition never :: "pair_error \<Rightarrow> ('st, 'a) pm \<Rightarrow> bool" where
  "never e m \<longleftrightarrow> (\<forall>s. fst (m s) \<noteq> Inl e)"

lemma neverD: "never e m \<Longrightarrow> m s \<noteq> (Inl e, s')"
  unfolding never_def by (metis fst_conv)

lemma comm_length: "comm s s' \<Longrightarrow> length (inbox s') \<le> length (inbox s)"
  by (simp add: comm_def suffix_length_le)

lemma shrinks_quiet: "quiet m \<Longrightarrow> shrinks m"
  unfolding shrinks_def by (blast dest: quietD comm_length)

lemma shrinks_on_store: "shrinks (on_store op)"
  by (simp add: shrinks_def on_store_def split: prod.split)

lemma shrinks_emit: "shrinks (emit code)"
  by (simp add: shrinks_def emit_def split: list.split bool.split)

lemma shrinks_run: "shrinks m \<Longrightarrow> m s = (r, s') \<Longrightarrow> length (inbox s') \<le> length (inbox s)"
  unfolding shrinks_def by (metis snd_conv)

lemma shrinks_andthen: "shrinks m \<Longrightarrow> (\<And>x. shrinks (f x)) \<Longrightarrow> shrinks (andthen m f)"
  by (simp add: shrinks_def andthen_def split: prod.split sum.split)
     (metis order.trans snd_conv)

lemma reads_andthen1: "reads m \<Longrightarrow> (\<And>x. shrinks (f x)) \<Longrightarrow> reads (andthen m f)"
  unfolding reads_def andthen_def
  by (auto split: prod.splits sum.splits) (meson le_less_trans less_le_trans shrinks_run)

lemma reads_andthen2: "shrinks m \<Longrightarrow> (\<And>x. reads (f x)) \<Longrightarrow> reads (andthen m f)"
  unfolding reads_def andthen_def
  by (auto split: prod.splits sum.splits) (meson less_le_trans shrinks_run)

lemma recv_loop_reads: "recv_loop k d f a fs ns = (Inr m, ns', fs') \<Longrightarrow> length fs' < length fs"
  by (induction k d f a fs ns rule: recv_loop.induct) (auto split: if_splits)

lemma reads_receive: "reads (receive_pairing k d f a)"
  by (auto simp: reads_def receive_pairing_def split: prod.splits dest: recv_loop_reads)

lemma reads_receive_kind: "reads (receive_kind k)"
  unfolding receive_kind_def by (rule reads_receive)

lemma recv_loop_never: "fst (recv_loop k d f a fs ns) \<noteq> Inl OutOfFuel"
  by (induction k d f a fs ns rule: recv_loop.induct) auto

lemma never_receive [never_intros]: "never OutOfFuel (receive_pairing k d f a)"
  using recv_loop_never by (auto simp: never_def receive_pairing_def split: prod.splits) (metis fst_conv)

lemma never_receive_kind [never_intros]: "never OutOfFuel (receive_kind k)"
  unfolding receive_kind_def by (rule never_receive)

lemma never_andthen [never_intros]: "never e m \<Longrightarrow> (\<And>x. never e (f x)) \<Longrightarrow> never e (andthen m f)"
  unfolding never_def andthen_def by (auto split: prod.split sum.split) (metis fst_conv)

lemma never_if [never_intros]: "never e m \<Longrightarrow> never e n \<Longrightarrow> never e (if b then m else n)"
  by simp

lemma never_basic [never_intros]:
  "never e (ret x)" "e' \<noteq> e \<Longrightarrow> never e (fail e')" "e' \<noteq> e \<Longrightarrow> never e (require b e')"
  "e' \<noteq> e \<Longrightarrow> never e (lift_opt e' v)" "PyValueError \<noteq> e \<Longrightarrow> never e (lift_val w)"
  "never e get_store" "never e draw" "never e (add_note nc d)" "never e (update g)"
  "SendFailed \<noteq> e \<Longrightarrow> never e (send msg)" "StoreFailed \<noteq> e \<Longrightarrow> never e (on_store op)"
  "EmitterFailed \<noteq> e \<Longrightarrow> never e (emit code)"
  "LocalPairingAbortError r \<noteq> e \<Longrightarrow> never e (abort_pairing r)"
  by (auto simp: never_def pm_defs lift_opt_def lift_val_def draw_def add_note_def send_def
      on_store_def emit_def abort_pairing_def split: option.split sum.split list.split bool.split prod.split)

lemma never_awaiting [never_intros]: "Expired \<noteq> e \<Longrightarrow> never e m \<Longrightarrow> never e (awaiting m)"
  by (simp add: never_def awaiting_def Let_def split: list.split stall.split)

lemma never_completion [never_intros]: "never OutOfFuel m \<Longrightarrow> never OutOfFuel (completion_timeout m)"
  by (auto simp: never_def completion_timeout_def split: prod.split sum.split pair_error.split) (metis fst_conv)

lemma never_decode_field [never_intros]: "never OutOfFuel (decode_field nc v w n)"
  unfolding decode_field_def by (auto split: option.split intro!: never_intros)

lemma never_truncate [never_intros]: "never OutOfFuel (truncate_pending nc m)"
  unfolding truncate_pending_def by (auto split: option.split intro!: never_intros)

lemma never_flag [never_intros]: "never OutOfFuel (flag_pairing_index_below_one nc m)"
  unfolding flag_pairing_index_below_one_def by (intro never_intros)

lemma never_receive_abort [never_intros]: "never OutOfFuel receive_pairing_abort"
  unfolding receive_pairing_abort_def by (intro never_intros) simp

lemma never_await [never_intros]: "never OutOfFuel await_pairing_code"
  using never_receive_abort
  by (auto simp: never_def await_pairing_code_def split: list.split race.split)

lemma never_client_timeout [never_intros]: "never OutOfFuel m \<Longrightarrow> never OutOfFuel (client_timeout m)"
  by (auto simp: never_def client_timeout_def abort_pairing_def split: prod.split sum.split pair_error.split)
     (metis fst_conv)

lemma never_server_timeout [never_intros]: "never OutOfFuel m \<Longrightarrow> never OutOfFuel (server_timeout w m)"
  by (auto simp: never_def server_timeout_def split: prod.split sum.split pair_error.split)
     (metis fst_conv)

lemma never_pakes [never_intros]:
  "never OutOfFuel (run_server_pake cr prs sid nc)" "never OutOfFuel (run_client_pake cr prs sid)"
  unfolding run_server_pake_def run_client_pake_def by (intro never_intros; simp)+

lemma never_finalize [never_intros]:
  "never OutOfFuel (finalize_client env k)" "never OutOfFuel (unwrap_psk env m k)"
  unfolding finalize_client_def unwrap_psk_def
  by (auto split: option.split prod.split intro!: never_intros)

lemma no_fuel_never: "never OutOfFuel m \<Longrightarrow> no_fuel n m"
  by (simp add: never_def no_fuel_def)

lemma no_fuel_if: "no_fuel n m \<Longrightarrow> no_fuel n k \<Longrightarrow> no_fuel n (if b then m else k)"
  by simp

lemma no_fuel_step:
  "never OutOfFuel m \<Longrightarrow> shrinks m \<Longrightarrow> (\<And>x. no_fuel n (f x)) \<Longrightarrow> no_fuel n (andthen m f)"
  unfolding no_fuel_def andthen_def
  by (auto split: prod.split sum.split dest: neverD) (meson le_less_trans shrinks_run)

lemma no_fuel_read:
  "never OutOfFuel m \<Longrightarrow> reads m \<Longrightarrow> (\<And>x. no_fuel n (f x)) \<Longrightarrow> no_fuel (Suc n) (andthen m f)"
  unfolding no_fuel_def andthen_def reads_def
  by (auto split: prod.split sum.split dest: neverD) (meson less_Suc_eq_le less_le_trans)

lemma no_fuel_start: "(\<And>n. no_fuel n (m n)) \<Longrightarrow> fst (m (Suc (length (inbox s))) s) \<noteq> Inl OutOfFuel"
  unfolding no_fuel_def by blast

lemma never_start: "(\<And>n. no_fuel n (m n)) \<Longrightarrow> never OutOfFuel (\<lambda>s. m (Suc (length (inbox s))) s)"
  unfolding never_def by (intro allI no_fuel_start)

lemma no_fuel_match_index: "no_fuel n (match_index_loop n i nc)"
proof (induction n)
  case (Suc n)
  show ?case unfolding match_index_loop.simps
    by (intro no_fuel_read no_fuel_if no_fuel_step Suc.IH never_intros reads_receive)
       (auto intro!: no_fuel_never never_intros shrinks_quiet quiet_flag)
qed (simp add: no_fuel_def)

lemma no_fuel_psk_init: "no_fuel n (psk_init_loop n i l nc seen)"
proof (induction n arbitrary: seen)
  case (Suc n)
  show ?case unfolding psk_init_loop.simps Let_def
    by (intro no_fuel_read no_fuel_if no_fuel_step Suc.IH never_intros reads_receive)
       (auto intro!: no_fuel_never never_intros shrinks_quiet quiet_intros)
qed (simp add: no_fuel_def)

lemma reads_server_pake: "reads (run_server_pake cr prs sid nc)"
  unfolding run_server_pake_def
  by (intro reads_andthen2 reads_andthen1 [OF reads_receive_kind] shrinks_quiet quiet_intros) simp_all

lemma reads_client_pake: "reads (run_client_pake cr prs sid)"
  unfolding run_client_pake_def
  by (intro reads_andthen2 reads_andthen1 [OF reads_receive_kind] shrinks_quiet quiet_intros) simp_all

lemma quiet_entered: "quiet (case entered_dynamic_prs fmt t of Inl e \<Rightarrow> fail e | Inr prs \<Rightarrow> ret prs)"
  by (cases "entered_dynamic_prs fmt t") (simp_all add: quiet_intros)

lemma never_entered: "never OutOfFuel (case entered_dynamic_prs fmt t of Inl e \<Rightarrow> fail e | Inr prs \<Rightarrow> ret prs)"
  by (auto simp: never_def fail_def ret_def entered_dynamic_prs_def Let_def
      split: code_format.split sum.split if_splits)

lemma no_fuel_dyn_server:
  "init \<noteq> ServerPairFinalize \<Longrightarrow> no_fuel n (dyn_server_rounds env hh i fmt lr n r init)"
proof (induction n arbitrary: r init)
  case (Suc n)
  show ?case unfolding dyn_server_rounds.simps
    by (intro no_fuel_read [OF _ reads_server_pake] no_fuel_step [OF _ shrinks_quiet] no_fuel_if
        Suc.IH Suc.prems never_intros never_entered quiet_intros quiet_entered)
      (simp_all add: no_fuel_never never_intros)
qed (simp add: no_fuel_def)

lemma quiet_client_retry [quiet_intros]: "quiet client_retry"
  unfolding client_retry_def by (intro quiet_intros) simp

lemma never_client_retry [never_intros]: "never OutOfFuel client_retry"
  unfolding client_retry_def by (intro never_intros; simp)

lemma no_fuel_dyn_client: "no_fuel n (dyn_client_rounds env hh i prs code n r)"
proof (induction n arbitrary: r)
  case (Suc n)
  have tail: "no_fuel n (case x of (cpace, verified) \<Rightarrow> if verified then ret (sid, cpace)
      else andthen client_retry (\<lambda>_. dyn_client_rounds env hh i prs code n (r + 1)))" for x sid
  proof -
    have "no_fuel n (andthen client_retry (\<lambda>_. dyn_client_rounds env hh i prs code n (r + 1)))"
      by (intro no_fuel_step never_client_retry shrinks_quiet quiet_client_retry Suc.IH)
    then show ?thesis by (cases x) (simp add: no_fuel_never never_basic)
  qed
  show ?case unfolding dyn_client_rounds.simps
    by (intro no_fuel_step [OF _ shrinks_on_store] no_fuel_step [OF _ shrinks_emit]
        no_fuel_read [OF _ reads_client_pake] no_fuel_step [OF _ shrinks_quiet] tail
        never_intros quiet_intros) simp_all
qed (simp add: no_fuel_def)

lemma never_dyn_runs [never_intros]:
  "init \<noteq> ServerPairFinalize \<Longrightarrow>
     never OutOfFuel (\<lambda>s. dyn_server_rounds env hh i fmt lr (Suc (length (inbox s))) r init s)"
  "never OutOfFuel (\<lambda>s. psk_init_loop (Suc (length (inbox s))) i l nc seen s)"
  by (rule never_start, erule no_fuel_dyn_server) (rule never_start, rule no_fuel_psk_init)

lemma never_at: "never e m \<Longrightarrow> fst (m s) \<noteq> Inl e"
  by (simp add: never_def)

lemma no_fuel_seq:
  fixes m :: "('st, 'a) pm"
  assumes "no_fuel n m" "shrinks m" "\<And>x. no_fuel n (f x)"
  shows "no_fuel n (andthen m f)"
  unfolding no_fuel_def
proof (intro allI impI)
  fix s :: "'st pst"
  assume len: "length (inbox s) < n"
  obtain r t where run: "m s = (r, t)" by (cases "m s")
  then have "length (inbox t) < n" using shrinks_run [OF assms(2) run] len by simp
  then show "fst (andthen m f s) \<noteq> Inl OutOfFuel"
    using assms(1,3) len run by (cases r) (auto simp: no_fuel_def andthen_def)
qed

lemma no_fuel_server_timeout: "no_fuel n m \<Longrightarrow> no_fuel n (server_timeout w m)"
  by (auto simp: no_fuel_def server_timeout_def split: prod.split sum.split pair_error.split)

lemma no_fuel_client_timeout: "no_fuel n m \<Longrightarrow> no_fuel n (client_timeout m)"
  by (auto simp: no_fuel_def client_timeout_def abort_pairing_def
      split: prod.split sum.split pair_error.split)

lemma never_receive_pair_init [never_intros]: "never OutOfFuel (receive_pair_init i p nc)"
  unfolding never_def receive_pair_init_def
  by (intro allI, rule no_fuel_start [where m = "\<lambda>n. andthen (server_timeout _ (match_index_loop n i nc)) _"])
     (intro no_fuel_seq no_fuel_server_timeout no_fuel_match_index shrinks_quiet quiet_intros,
       intro no_fuel_never never_intros, simp_all)

lemma never_decode_field_gen: "(\<And>f. PairingError f \<noteq> e) \<Longrightarrow> never e (decode_field nc v w n)"
  unfolding decode_field_def by (auto split: option.split intro!: never_intros)

lemma never_commit [never_intros]: "never OutOfFuel (commit_finalize env m method key psk)"
  unfolding commit_finalize_def store_and_ack_def Let_def by (intro never_intros; simp)

lemma never_finalize_server [never_intros]: "never OutOfFuel (finalize_server env method key r psk)"
  unfolding finalize_server_def
  by (auto split: option.split intro!: never_andthen never_intros)

lemma never_dyn_client [never_intros]:
  "never OutOfFuel (\<lambda>s. dyn_client_rounds env hh i prs code (Suc (length (inbox s))) r s)"
  by (rule never_start) (rule no_fuel_dyn_client)

lemma never_verify_kc [never_intros]: "never OutOfFuel (verify_client_kc env c m)"
  unfolding verify_client_kc_def by (intro never_intros) simp

lemma never_revealed [never_intros]: "never OutOfFuel (revealed_nonce env lp sid c m)"
  unfolding revealed_nonce_def
  by (auto split: option.split intro!: never_andthen never_decode_field never_basic)

lemma never_prod [never_intros]: "(\<And>a b. never e (f a b)) \<Longrightarrow> never e (case x of (a, b) \<Rightarrow> f a b)"
  by (cases x) simp

lemma no_fuel_prod: "(\<And>a b. no_fuel n (f a b)) \<Longrightarrow> no_fuel n (case x of (a, b) \<Rightarrow> f a b)"
  by (cases x) simp

lemma quiet_prod [quiet_intros]: "(\<And>a b. quiet (f a b)) \<Longrightarrow> quiet (case x of (a, b) \<Rightarrow> f a b)"
  by (cases x) simp

subsection \<open>What a result tells\<close>

named_theorems result_iff \<open>a program returned, in terms of its parts\<close>

lemma andthen_ok [result_iff]:
  "andthen m f s = (Inr y, s') \<longleftrightarrow> (\<exists>x t. m s = (Inr x, t) \<and> f x t = (Inr y, s'))"
  by (auto simp: andthen_def split: prod.splits sum.splits)

lemma basic_ok [result_iff]:
  "ret x s = (Inr y, s') \<longleftrightarrow> y = x \<and> s' = s"
  "fail e s \<noteq> (Inr y, s')"
  "require b e s = (Inr u, s') \<longleftrightarrow> b \<and> s' = s"
  "lift_opt e v s = (Inr y, s') \<longleftrightarrow> v = Some y \<and> s' = s"
  "lift_val w s = (Inr y, s') \<longleftrightarrow> w = Inr y \<and> s' = s"
  "get_store s = (Inr st, s') \<longleftrightarrow> st = pstore s \<and> s' = s"
  "update g s = (Inr u, s') \<longleftrightarrow> s' = g s"
  "abort_pairing r s \<noteq> (Inr y, s')"
  by (auto simp: pm_defs lift_opt_def lift_val_def abort_pairing_def
      split: option.split sum.split prod.split)

lemma timeout_ok [result_iff]:
  "server_timeout w m s = (Inr y, s') \<longleftrightarrow> m s = (Inr y, s')"
  "client_timeout m s = (Inr y, s') \<longleftrightarrow> m s = (Inr y, s')"
  by (auto simp: server_timeout_def client_timeout_def abort_pairing_def
      split: prod.splits sum.splits pair_error.splits)

lemma draw_ok [result_iff]:
  "draw s = (Inr y, s') \<longleftrightarrow> y = random s (drawn s) \<and> s' = s\<lparr>drawn := Suc (drawn s)\<rparr>"
  by (auto simp: draw_def)

lemma if_ok [result_iff]:
  "(if b then m else n) s = (Inr y, s') \<longleftrightarrow> (if b then m s = (Inr y, s') else n s = (Inr y, s'))"
  by simp

lemma prod_ok [result_iff]:
  "(case p of (a, b) \<Rightarrow> f a b) s = (Inr y, s') \<longleftrightarrow> f (fst p) (snd p) s = (Inr y, s')"
  by (cases p) simp

lemma send_ok: "send m s = (Inr u, s') \<Longrightarrow> m \<in> set (outbox s') \<and> pstore s' = pstore s"
  by (auto simp: send_def split: list.splits bool.splits)

lemma recv_loop_ok:
  "recv_loop k d f a fs ns = (Inr m, ns', fs') \<Longrightarrow> FMsg m \<in> set fs \<and> kind_of m \<in> k"
  by (induction k d f a fs ns rule: recv_loop.induct) (auto split: if_splits)

lemma receive_ok:
  "receive_pairing k d f a s = (Inr m, s') \<Longrightarrow> FMsg m \<in> set (inbox s) \<and> kind_of m \<in> k"
  by (auto simp: receive_pairing_def split: prod.splits dest: recv_loop_ok)

lemma receive_kind_ok: "receive_kind k s = (Inr m, s') \<Longrightarrow> FMsg m \<in> set (inbox s) \<and> kind_of m \<in> k"
  unfolding receive_kind_def by (rule receive_ok)

lemma decode_field_ok:
  "decode_field nc v w n s = (Inr raw, s') \<Longrightarrow> b64url_decode v = Some raw \<and> length raw = n"
  by (auto simp: decode_field_def result_iff split: option.splits if_splits)

lemma receive_abort_fails: "receive_pairing_abort s \<noteq> (Inr x, s')"
  by (simp add: receive_pairing_abort_def result_iff)

lemma await_code_ok: "await_pairing_code s = (Inr code, s') \<Longrightarrow> CodeEntered code \<in> set (entered s)"
  by (auto simp: await_pairing_code_def receive_abort_fails split: list.splits race.splits)

lemma comm_inbox: "comm s t \<Longrightarrow> x \<in> set (inbox t) \<Longrightarrow> x \<in> set (inbox s)"
  by (auto simp: comm_def suffix_def)

lemma comm_entered_mem: "comm s t \<Longrightarrow> x \<in> set (entered t) \<Longrightarrow> x \<in> set (entered s)"
  by (auto simp: comm_def suffix_def)

lemma comm_outbox: "comm s t \<Longrightarrow> x \<in> set (outbox s) \<Longrightarrow> x \<in> set (outbox t)"
  by (auto simp: comm_def prefix_def)

lemma match_index_ok:
  "match_index_loop n i nc s = (Inr m, s') \<Longrightarrow>
     FMsg m \<in> set (inbox s) \<and> kind_of m \<in> {KClientInit, KPending} \<and> pair_index m = i"
proof (induction n arbitrary: s)
  case (Suc n)
  then obtain m' t where recv: "receive_pairing {KClientInit, KPending}
        {KClientAuth, KClientConfirm, KClientFinalize, KRetry} (nc \<and> \<not> i > 1)
        (if i > 1 then LEFTOVER_ABORT_REASONS else {}) s = (Inr m', t)"
    and rest: "(if pair_index m' > i then fail (PairingError IndexAhead)
       else if pair_index m' = i then ret m'
       else andthen (flag_pairing_index_below_one nc m') (\<lambda>_. match_index_loop n i nc)) t = (Inr m, s')"
    by (auto simp: andthen_ok)
  show ?case
  proof (cases "pair_index m' = i")
    case True
    then show ?thesis using rest receive_ok [OF recv] by (simp add: basic_ok)
  next
    case False
    then obtain u where flag: "flag_pairing_index_below_one nc m' t = (Inr (), u)"
      and loop: "match_index_loop n i nc u = (Inr m, s')"
      using rest by (auto simp: result_iff split: if_splits)
    have "comm s u"
      using comm_trans [OF quiet_run [OF quiet_receive recv] quiet_run [OF quiet_flag flag]] .
    then show ?thesis using Suc.IH [OF loop] comm_inbox by blast
  qed
qed (simp add: result_iff)

lemma receive_pair_init_ok:
  assumes "receive_pair_init i p nc s = (Inr m, s')"
  shows "FMsg m \<in> set (inbox s) \<and> kind_of m = KClientInit \<and> pair_index m = i"
proof -
  obtain m' t where loop: "match_index_loop (Suc (length (inbox s))) i nc s = (Inr m', t)"
    and rest: "(if kind_of m' = KClientInit then ret m'
       else andthen (truncate_pending nc (pend_message m')) (\<lambda>shown.
         andthen (if p then update (\<lambda>s. s\<lparr>pendings := pendings s @ [shown]\<rparr>) else ret ())
           (\<lambda>_. andthen (server_timeout ''gesture-gated client/pair-init'' (receive_kind {KClientInit}))
             (\<lambda>init. if pair_index init \<noteq> i then fail (PairingError IndexMismatch)
                     else ret init)))) t = (Inr m, s')"
    using assms by (auto simp: receive_pair_init_def andthen_ok timeout_ok simp del: match_index_loop.simps)
  have c: "comm s t" by (rule quiet_run [OF quiet_match_index loop])
  show ?thesis
  proof (cases "kind_of m' = KClientInit")
    case True
    then show ?thesis using rest match_index_ok [OF loop] by (simp add: basic_ok)
  next
    case False
    then obtain shown u v x w y where tr: "truncate_pending nc (pend_message m') t = (Inr shown, u)"
      and up: "(if p then update (\<lambda>s. s\<lparr>pendings := pendings s @ [shown]\<rparr>) else ret ()) u = (Inr y, v)"
      and recv: "receive_kind {KClientInit} v = (Inr x, w)"
      and fin: "(if pair_index x \<noteq> i then fail (PairingError IndexMismatch) else ret x) w = (Inr m, s')"
      using rest False unfolding if_not_P [OF False] andthen_ok timeout_ok by blast
    have m: "m = x" "pair_index x = i"
      using fin by (auto simp: basic_ok split: if_splits)
    have "comm u v"
      using quiet_run [where m = "if p then _ else _", OF _ up] by (blast intro: quiet_intros)
    then have "comm t v"
      by (rule comm_trans [OF quiet_run [OF quiet_truncate tr]])
    then show ?thesis
      using receive_kind_ok [OF recv] m comm_inbox comm_trans [OF c] by blast
  qed
qed

text \<open>What one finished round of the server knows.\<close>

definition round_evidence :: "'c pair_env \<Rightarrow> code_format \<Rightarrow> 'st pst \<Rightarrow> bytes \<Rightarrow> bytes \<Rightarrow> 'c \<Rightarrow> pairing_msg
    \<Rightarrow> bool" where
  "round_evidence env fmt s prs sid cpace confirm \<longleftrightarrow>
     (\<exists>typed. CodeEntered typed \<in> set (entered s) \<and> entered_dynamic_prs fmt typed = Inr prs) \<and>
     (\<exists>rnd c share. cp_start (crypt env) rnd True prs sid PAKE_AD_SERVER = Some c \<and>
        cp_derive (crypt env) c share PAKE_AD_CLIENT = Some cpace) \<and>
     FMsg confirm \<in> set (inbox s) \<and> kind_of confirm = KClientConfirm"

lemma round_evidence_comm:
  "round_evidence env fmt t prs sid cpace confirm \<Longrightarrow> comm s t \<Longrightarrow>
     round_evidence env fmt s prs sid cpace confirm"
  unfolding round_evidence_def by (blast intro: comm_inbox comm_entered_mem)

lemma entered_ok:
  "(case entered_dynamic_prs fmt t of Inl e \<Rightarrow> fail e | Inr prs \<Rightarrow> ret prs) s = (Inr prs, s') \<longleftrightarrow>
     entered_dynamic_prs fmt t = Inr prs \<and> s' = s"
  by (auto simp: result_iff split: sum.splits)

lemma server_pake_ok:
  assumes "run_server_pake cr prs sid nc s = (Inr cpace, s')"
  shows "\<exists>rnd c share. cp_start cr rnd True prs sid PAKE_AD_SERVER = Some c \<and>
     cp_derive cr c share PAKE_AD_CLIENT = Some cpace"
  using assms unfolding run_server_pake_def andthen_ok basic_ok by blast

lemma dyn_server_rounds_ok:
  assumes "dyn_server_rounds env hh i fmt lr n r init s = (Inr (prs, sid, cpace, confirm), s')"
    and "init \<noteq> ServerPairFinalize"
  shows "round_evidence env fmt s prs sid cpace confirm \<and> init \<in> set (outbox s')"
  using assms
proof (induction n arbitrary: r init s)
  case (Suc n)
  from Suc.prems(1) obtain u1 s1 typed s2 prs' sid' s3 cp s4 where
      sent: "send init s = (Inr u1, s1)"
    and code: "await_pairing_code s1 = (Inr typed, s2)"
    and prs': "entered_dynamic_prs fmt typed = Inr prs'"
    and pake: "run_server_pake (crypt env) prs' sid' (nonc env) s2 = (Inr cp, s4)"
    and tail: "(if lr
       then andthen (receive_kind {KClientConfirm}) (\<lambda>confirm. ret (prs', sid', cp, confirm))
       else andthen (receive_kind {KClientConfirm, KRetry}) (\<lambda>reply.
       if kind_of reply = KClientConfirm then ret (prs', sid', cp, reply)
       else andthen (add_note (nonc env \<and> r \<ge> PAIRING_ROUND_LIMIT) RetryPastLimit) (\<lambda>_.
         dyn_server_rounds env hh i fmt lr n (r + 1) (ServerPairInit None None)))) s4
       = (Inr (prs, sid, cpace, confirm), s')"
    unfolding dyn_server_rounds.simps andthen_ok entered_ok basic_ok by blast
  have c1: "comm s s1" by (rule quiet_run [OF quiet_send [OF Suc.prems(2)] sent])
  have c2: "comm s s2" by (rule comm_trans [OF c1 quiet_run [OF quiet_await_code code]])
  have c4: "comm s s4" by (rule comm_trans [OF c2 quiet_run [OF quiet_server_pake pake]])
  have out1: "init \<in> set (outbox s1)" using send_ok [OF sent] by simp
  have out4: "init \<in> set (outbox s4)"
    using comm_outbox [OF quiet_run [OF quiet_await_code code]]
      comm_outbox [OF quiet_run [OF quiet_server_pake pake]] out1 by blast
  have typed: "CodeEntered typed \<in> set (entered s)"
    using await_code_ok [OF code] comm_entered_mem [OF c1] by blast
  have here: "round_evidence env fmt s prs' sid' cp m"
    if "receive_kind k s4 = (Inr m, t)" "kind_of m = KClientConfirm" for k m t
    using that receive_kind_ok [OF that(1)] typed prs' server_pake_ok [OF pake] comm_inbox [OF c4]
    unfolding round_evidence_def by blast
  have keep: "init \<in> set (outbox t)" if "receive_kind k s4 = (Inr m, t)" for k m t
    using comm_outbox [OF quiet_run [OF quiet_receive_kind that]] out4 .
  show ?case
  proof (cases lr)
    case True
    with tail obtain t where "receive_kind {KClientConfirm} s4 = (Inr confirm, t)"
      and eq: "prs = prs'" "sid = sid'" "cpace = cp" "s' = t"
      by (auto simp: andthen_ok basic_ok)
    then show ?thesis using here keep receive_kind_ok by blast
  next
    case False
    with tail obtain reply t where recv: "receive_kind {KClientConfirm, KRetry} s4 = (Inr reply, t)"
      and rest: "(if kind_of reply = KClientConfirm then ret (prs', sid', cp, reply)
       else andthen (add_note (nonc env \<and> r \<ge> PAIRING_ROUND_LIMIT) RetryPastLimit) (\<lambda>_.
         dyn_server_rounds env hh i fmt lr n (r + 1) (ServerPairInit None None))) t
         = (Inr (prs, sid, cpace, confirm), s')"
      by (auto simp: andthen_ok simp del: dyn_server_rounds.simps split: if_splits)
    have ct: "comm s t" by (rule comm_trans [OF c4 quiet_run [OF quiet_receive_kind recv]])
    show ?thesis
    proof (cases "kind_of reply = KClientConfirm")
      case True
      then show ?thesis using rest here [OF recv] keep [OF recv] by (simp add: basic_ok)
    next
      case False
      with rest obtain y u where flagged: "add_note (nonc env \<and> r \<ge> PAIRING_ROUND_LIMIT) RetryPastLimit t
          = (Inr y, u)"
        and loop: "dyn_server_rounds env hh i fmt lr n (r + 1) (ServerPairInit None None) u
          = (Inr (prs, sid, cpace, confirm), s')"
        by (auto simp: andthen_ok)
      have cu: "comm t u" by (rule quiet_run [OF quiet_add_note flagged])
      have "comm u s'" by (rule quiet_run [OF quiet_dyn_server loop]) simp
      then have "init \<in> set (outbox s')"
        using keep [OF recv] comm_outbox [OF cu] comm_outbox by blast
      then show ?thesis
        using round_evidence_comm [OF conjunct1 [OF Suc.IH [OF loop]] comm_trans [OF ct cu]] by simp
    qed
  qed
qed (simp add: result_iff)

subsection \<open>How a server exchange ends\<close>

lemma server_save_disk:
  "\<not> snd (server_save now st) \<Longrightarrow> s_persistent st \<Longrightarrow>
     \<exists>img. s_disk (fst (server_save now st)) = Some img \<and> s_records img = s_records st"
  "s_disk st = Some img \<Longrightarrow> s_records img = s_records st \<Longrightarrow>
     \<exists>img'. s_disk (fst (server_save now st)) = Some img' \<and> s_records img' = s_records st"
  by (auto simp: server_save_def server_image_def split: list.splits bool.splits)

text \<open>Removing a grant keeps the records, in memory and on disk.\<close>

definition records_held :: "(string, server_record) dict \<Rightarrow> server_store \<Rightarrow> bool" where
  "records_held rs st \<longleftrightarrow> s_records st = rs \<and>
     (s_persistent st \<longrightarrow> (\<exists>img. s_disk st = Some img \<and> s_records img = rs))"

lemma records_held_drop:
  assumes "records_held rs st"
  shows "records_held rs (fst (s_unstage_pairing_psk now c st))"
    and "records_held rs (fst (s_remove_trusted_unpaired now c st))"
proof -
  have "records_held rs (fst (server_save now (st\<lparr>s_staged := x\<rparr>)))"
    "records_held rs (fst (server_save now (st\<lparr>s_trusted := y\<rparr>)))" for x y
    using assms server_save_disk(2) [of "st\<lparr>s_staged := x\<rparr>"] server_save_disk(2) [of "st\<lparr>s_trusted := y\<rparr>"]
    by (auto simp: records_held_def server_save_frame)
  then show "records_held rs (fst (s_unstage_pairing_psk now c st))"
    and "records_held rs (fst (s_remove_trusted_unpaired now c st))"
    using assms by (auto simp: s_unstage_pairing_psk_def s_remove_trusted_unpaired_def)
qed

lemma on_store_cases:
  obtains "on_store op s = (Inl StoreFailed, s\<lparr>pstore := fst (op (pstore s))\<rparr>)" "snd (op (pstore s))"
  | "on_store op s = (Inr (), s\<lparr>pstore := fst (op (pstore s))\<rparr>)" "\<not> snd (op (pstore s))"
  by (cases "op (pstore s)"; cases "snd (op (pstore s))") (auto simp: on_store_def)

text \<open>A step under the finalize timeout does its work or is cut off; it may be cut off with its work done.\<close>

lemma awaited_store:
  assumes "awaiting (on_store f) s = (r, s')"
  obtains (skipped) "r = Inl Expired" "pstore s' = pstore s" "outbox s' = outbox s"
  | (applied) "r \<in> {Inl Expired, Inl StoreFailed, Inr ()}" "pstore s' = fst (f (pstore s))" "outbox s' = outbox s"
      "r = Inr () \<longrightarrow> \<not> snd (f (pstore s))"
  using assms
  by (auto simp: awaiting_def on_store_def Let_def split: list.splits stall.splits prod.splits if_splits)

lemma awaited_send:
  assumes "awaiting (send m) s = (r, s')"
  obtains (unsent) "r \<in> {Inl Expired, Inl SendFailed}" "outbox s' = outbox s" "pstore s' = pstore s"
  | (sent) "r \<in> {Inl Expired, Inr ()}" "outbox s' = outbox s @ [m]" "pstore s' = pstore s"
  using assms
  by (auto simp: awaiting_def send_def Let_def split: list.splits stall.splits bool.splits)

lemma completion_states:
  assumes "completion_timeout (andthen (awaiting (send m)) (\<lambda>_. andthen (awaiting (on_store g)) (\<lambda>_.
      awaiting (on_store h)))) s = (r, s')"
  obtains (unsent) "r \<in> {Inl SendFailed, Inl (PairingError CompletionTimedOut)}" "outbox s' = outbox s"
      "pstore s' = pstore s"
  | (sent) "r \<in> {Inl StoreFailed, Inl (PairingError CompletionTimedOut), Inr ()}" "outbox s' = outbox s @ [m]"
      "pstore s' \<in> {pstore s, fst (g (pstore s)), fst (h (fst (g (pstore s))))}"
      "r = Inr () \<longrightarrow> pstore s' = fst (h (fst (g (pstore s))))"
proof -
  let ?rest = "andthen (awaiting (on_store g)) (\<lambda>_. awaiting (on_store h))"
  obtain r1 s1 where first: "awaiting (send m) s = (r1, s1)" by fastforce
  obtain r2 s2 where second: "awaiting (on_store g) s1 = (r2, s2)" by fastforce
  obtain r3 s3 where third: "awaiting (on_store h) s2 = (r3, s3)" by fastforce
  have "andthen (awaiting (send m)) (\<lambda>_. ?rest) s = (case r1 of Inl e \<Rightarrow> (Inl e, s1) | Inr _ \<Rightarrow>
      (case r2 of Inl e \<Rightarrow> (Inl e, s2) | Inr _ \<Rightarrow> (r3, s3)))"
    by (simp add: andthen_def first second third split: sum.split)
  then have run: "completion_timeout (\<lambda>_. case r1 of Inl e \<Rightarrow> (Inl e, s1) | Inr _ \<Rightarrow>
      (case r2 of Inl e \<Rightarrow> (Inl e, s2) | Inr _ \<Rightarrow> (r3, s3))) s = (r, s')"
    using assms by (simp add: completion_timeout_def)
  show thesis
    using first
  proof (cases rule: awaited_send)
    case unsent
    then show thesis using run that(1) by (auto simp: completion_timeout_def)
  next
    case sent
    show thesis
      using second
    proof (cases rule: awaited_store)
      case skipped
      then show thesis using run sent that(2) by (auto simp: completion_timeout_def)
    next
      case g: applied
      show thesis
        using third
        by (cases rule: awaited_store) (use run sent g that(2) in \<open>auto simp: completion_timeout_def\<close>)
    qed
  qed
qed

text \<open>The states \<open>store_and_ack\<close> can leave.\<close>

lemma store_and_ack_states:
  assumes "store_and_ack env rec s = (r, s')"
  defines "timed_out \<equiv> Inl (PairingTimeoutError FINALIZE_TIMEOUT)"
    and "st1 \<equiv> fst (s_store_record (clock_now env) rec (pstore s))"
    and "g \<equiv> \<lambda>st. fst (s_unstage_pairing_psk (clock_now env) (remote_client_id env) st)"
    and "h \<equiv> \<lambda>st. fst (s_remove_trusted_unpaired (clock_now env) (remote_client_id env) st)"
  obtains (unstored) "r = timed_out" "outbox s' = outbox s" "pstore s' = pstore s"
  | (stored) "r \<in> {timed_out, Inl StoreFailed, Inl SendFailed, Inl (PairingError CompletionTimedOut)}"
      "outbox s' = outbox s" "pstore s' = st1"
  | (acked) "r \<in> {Inl StoreFailed, Inl (PairingError CompletionTimedOut), Inr rec}"
      "outbox s' = outbox s @ [ServerPairFinalize]" "\<not> snd (s_store_record (clock_now env) rec (pstore s))"
      "pstore s' \<in> {st1, g st1, h (g st1)}" "r = Inr rec \<longrightarrow> pstore s' = h (g st1)"
proof -
  let ?store = "awaiting (on_store (s_store_record (clock_now env) rec))"
  let ?ack = "completion_timeout
      (andthen (awaiting (send ServerPairFinalize)) (\<lambda>_.
       andthen (awaiting (on_store (s_unstage_pairing_psk (clock_now env) (remote_client_id env)))) (\<lambda>_.
       awaiting (on_store (s_remove_trusted_unpaired (clock_now env) (remote_client_id env))))))"
  obtain r1 s1 where first: "?store s = (r1, s1)" by fastforce
  obtain r2 s2 where second: "?ack s1 = (r2, s2)" by fastforce
  have run: "(case r1 of Inl e \<Rightarrow> server_timeout FINALIZE_TIMEOUT (\<lambda>_. (Inl e, s1)) s
      | Inr _ \<Rightarrow> (case r2 of Inl e \<Rightarrow> (Inl e, s2) | Inr _ \<Rightarrow> (Inr rec, s2))) = (r, s')"
    using assms(1)
    by (cases r1; cases r2)
       (simp_all add: store_and_ack_def andthen_def server_timeout_def first second ret_def split: pair_error.splits)
  show thesis
    using first
  proof (cases rule: awaited_store)
    case skipped
    then show thesis using run that(1) by (auto simp: server_timeout_def timed_out_def)
  next
    case applied
    show thesis
    proof (cases r1)
      case (Inl e)
      then show thesis
        using run applied that(2) by (auto simp: server_timeout_def timed_out_def st1_def)
    next
      case (Inr y)
      show thesis
        using second
        by (cases rule: completion_states)
           (use Inr run applied that(2,3) in \<open>auto simp: st1_def g_def h_def\<close>)
    qed
  qed
qed

lemma store_and_ack_records:
  assumes "store_and_ack env rec s = (r, s')"
  shows "r \<in> {Inr rec, Inl StoreFailed, Inl SendFailed, Inl (PairingError CompletionTimedOut),
      Inl (PairingTimeoutError FINALIZE_TIMEOUT)}"
    and "r = Inl (PairingTimeoutError FINALIZE_TIMEOUT) \<and> s_records (pstore s') = s_records (pstore s) \<or>
      s_records (pstore s') = dset (sr_client_id rec) rec (s_records (pstore s))"
    and "outbox s' = outbox s \<or> outbox s' = outbox s @ [ServerPairFinalize] \<and>
      r \<in> {Inl StoreFailed, Inl (PairingError CompletionTimedOut), Inr rec} \<and>
      records_held (dset (sr_client_id rec) rec (s_records (pstore s))) (pstore s')"
    and "r = Inr rec \<longrightarrow> outbox s' = outbox s @ [ServerPairFinalize] \<and>
      s_staged (pstore s') = ddel (remote_client_id env) (s_staged (pstore s)) \<and>
      s_trusted (pstore s') = ddel (remote_client_id env) (s_trusted (pstore s))"
    and "s_staged (pstore s') \<in> {s_staged (pstore s), ddel (remote_client_id env) (s_staged (pstore s))}"
    and "s_trusted (pstore s') \<in> {s_trusted (pstore s), ddel (remote_client_id env) (s_trusted (pstore s))}"
proof -
  let ?store = "s_store_record (clock_now env) rec"
  let ?g = "s_unstage_pairing_psk (clock_now env) (remote_client_id env)"
  let ?h = "s_remove_trusted_unpaired (clock_now env) (remote_client_id env)"
  let ?rs = "dset (sr_client_id rec) rec (s_records (pstore s))"
  have mem: "s_records (fst (?store (pstore s))) = ?rs"
    "s_staged (fst (?store (pstore s))) = s_staged (pstore s)"
    "s_trusted (fst (?store (pstore s))) = s_trusted (pstore s)"
    by (simp_all add: s_store_record_def server_save_frame)
  have drop: "s_records (fst (?g v)) = s_records v" "s_records (fst (?h v)) = s_records v"
    "s_staged (fst (?g v)) = ddel (remote_client_id env) (s_staged v)" "s_staged (fst (?h v)) = s_staged v"
    "s_trusted (fst (?g v)) = s_trusted v" "s_trusted (fst (?h v)) = ddel (remote_client_id env) (s_trusted v)" for v
    by (simp_all add: s_unstage_pairing_psk_def s_remove_trusted_unpaired_def server_save_frame ddel_absent)
  have held: "records_held ?rs (fst (?store (pstore s)))" if "\<not> snd (?store (pstore s))"
    using that mem server_save_disk(1) [of "clock_now env"
        "pstore s\<lparr>s_records := dset (sr_client_id rec) rec (s_records (pstore s))\<rparr>"]
    by (auto simp: records_held_def s_store_record_def server_save_frame)
  show "r \<in> {Inr rec, Inl StoreFailed, Inl SendFailed, Inl (PairingError CompletionTimedOut),
      Inl (PairingTimeoutError FINALIZE_TIMEOUT)}"
    using assms by (cases rule: store_and_ack_states) auto
  show "r = Inl (PairingTimeoutError FINALIZE_TIMEOUT) \<and> s_records (pstore s') = s_records (pstore s) \<or>
      s_records (pstore s') = ?rs"
    using assms by (cases rule: store_and_ack_states) (auto simp: mem drop)
  show "outbox s' = outbox s \<or> outbox s' = outbox s @ [ServerPairFinalize] \<and>
      r \<in> {Inl StoreFailed, Inl (PairingError CompletionTimedOut), Inr rec} \<and> records_held ?rs (pstore s')"
    using assms
  proof (cases rule: store_and_ack_states)
    case acked
    have "records_held ?rs (pstore s')"
      using acked(4) held [OF acked(3)] records_held_drop by fastforce
    then show ?thesis using acked(1,2) by auto
  qed auto
  show "r = Inr rec \<longrightarrow> outbox s' = outbox s @ [ServerPairFinalize] \<and>
      s_staged (pstore s') = ddel (remote_client_id env) (s_staged (pstore s)) \<and>
      s_trusted (pstore s') = ddel (remote_client_id env) (s_trusted (pstore s))"
    using assms by (cases rule: store_and_ack_states) (auto simp: mem drop)
  show "s_staged (pstore s') \<in> {s_staged (pstore s), ddel (remote_client_id env) (s_staged (pstore s))}"
    using assms by (cases rule: store_and_ack_states) (auto simp: mem drop)
  show "s_trusted (pstore s') \<in> {s_trusted (pstore s), ddel (remote_client_id env) (s_trusted (pstore s))}"
    using assms by (cases rule: store_and_ack_states) (auto simp: mem drop)
qed

text \<open>\<open>finalizes env p\<close>: a run of \<open>p\<close> either fails having only communicated, or ends by storing a
  record built from a PSK the client delivered.\<close>

definition minted :: "'c pair_env \<Rightarrow> server_store \<Rightarrow> server_record \<Rightarrow> bool" where
  "minted env st rec \<longleftrightarrow> (\<exists>psk psk_id method.
     rec = finalized_record env (s_record_by_client_id st (remote_client_id env)) method psk psk_id \<and>
     psk_id_for (sha256 (crypt env)) psk = Inr psk_id \<and> psk \<noteq> SENTINEL_PSK (sha256 (crypt env)))"

definition ends_in :: "'c pair_env \<Rightarrow> (server_record \<Rightarrow> bool) \<Rightarrow> (server_store, server_record) pm
    \<Rightarrow> server_store pst \<Rightarrow> bool" where
  "ends_in env P p s \<longleftrightarrow>
     (\<exists>e t. p s = (Inl e, t) \<and> comm s t) \<or> (\<exists>rec t. comm s t \<and> P rec \<and> p s = store_and_ack env rec t)"

definition finalizes :: "'c pair_env \<Rightarrow> (server_store, server_record) pm \<Rightarrow> bool" where
  "finalizes env p \<longleftrightarrow> (\<forall>s. ends_in env (minted env (pstore s)) p s)"

lemma ends_in_quiet:
  assumes "quiet m" and f: "\<And>x t. m s = (Inr x, t) \<Longrightarrow> comm s t \<Longrightarrow> ends_in env P (f x) t"
  shows "ends_in env P (andthen m f) s"
proof -
  obtain r t where run: "m s = (r, t)" by (cases "m s")
  have c: "comm s t" by (rule quiet_run [OF assms(1) run])
  show ?thesis
  proof (cases r)
    case (Inl e)
    then show ?thesis using run c by (auto simp: andthen_def ends_in_def)
  next
    case (Inr x)
    then have eq: "andthen m f s = f x t" using run by (simp add: andthen_def)
    have "ends_in env P (f x) t" using f run c Inr by simp
    then show ?thesis unfolding ends_in_def eq using comm_trans [OF c] by blast
  qed
qed

lemma finalizes_quiet:
  assumes "quiet m" "\<And>x. finalizes env (f x)"
  shows "finalizes env (andthen m f)"
  unfolding finalizes_def
proof
  fix s
  show "ends_in env (minted env (pstore s)) (andthen m f) s"
  proof (rule ends_in_quiet [OF assms(1)])
    fix x t assume "comm s t"
    then have "pstore t = pstore s" by (simp add: comm_def)
    then show "ends_in env (minted env (pstore s)) (f x) t"
      using assms(2) [of x] unfolding finalizes_def by metis
  qed
qed

lemma finalizes_timeout:
  assumes "finalizes env p"
  shows "finalizes env (server_timeout w p)"
  unfolding finalizes_def
proof
  fix s
  have keep: "server_timeout w p s = store_and_ack env rec t" if "p s = store_and_ack env rec t" for rec t
    using that store_and_ack_records(1) [of env rec t]
    by (auto simp: server_timeout_def split: prod.split sum.split pair_error.split)
  have fails: "\<exists>e. server_timeout w p s = (Inl e, t)" if "p s = (Inl e, t)" for e t
    using that by (cases e) (auto simp: server_timeout_def)
  show "ends_in env (minted env (pstore s)) (server_timeout w p) s"
    using assms [unfolded finalizes_def ends_in_def, rule_format, of s] keep fails
    unfolding ends_in_def by blast
qed

lemma finalizes_commit: "finalizes env (commit_finalize env m method key psk0)"
  unfolding finalizes_def
proof
  fix s :: "server_store pst"
  have "ends_in env (minted env (pstore s)) (commit_finalize env m method key psk0) s"
    unfolding commit_finalize_def Let_def
  proof (intro ends_in_quiet quiet_intros)
    fix st psk and t u v w x :: "server_store pst" and y :: unit and psk_id
    let ?ex = "s_record_by_client_id st (remote_client_id env)"
    assume "server_timeout FINALIZE_TIMEOUT (awaiting get_store) s = (Inr st, t)"
    then have st: "st = pstore s"
      by (auto simp: server_timeout_def awaiting_def get_store_def Let_def split: list.splits stall.splits)
    assume req: "require (psk \<noteq> SENTINEL_PSK (sha256 (crypt env)) \<and> Some psk \<noteq> psk0)
       (PairingError PskReused) u = (Inr y, v)"
      and "lift_val (psk_id_for (sha256 (crypt env)) psk) v = (Inr psk_id, w)"
    then have "minted env (pstore s) (finalized_record env ?ex method psk psk_id)"
      unfolding minted_def basic_ok st by blast
    then show "ends_in env (minted env (pstore s))
        (store_and_ack env (finalized_record env ?ex method psk psk_id)) w"
      unfolding ends_in_def using comm_refl by blast
  qed
  then show "ends_in env (minted env (pstore s)) (commit_finalize env m method key psk0) s" .
qed

lemma finalizes_finalize_server: "finalizes env (finalize_server env method key r psk0)"
  unfolding finalize_server_def
  by (rule finalizes_quiet [OF _ finalizes_commit]) (auto split: option.split intro!: quiet_ret quiet_receive_kind)

lemma finalizes_prod: "(\<And>a b. finalizes env (f a b)) \<Longrightarrow> finalizes env (case x of (a, b) \<Rightarrow> f a b)"
  by (cases x) simp

text \<open>The three exchanges of the server.\<close>

definition server_exchanges :: "'c pair_env \<Rightarrow> (server_store, server_record) pm set" where
  "server_exchanges env =
     {run_pairing_psk_server env i lf psk | i lf psk. True} \<union>
     {run_dynamic_pairing_code_server env hh i fmt pend lr lp | hh i fmt pend lr lp. True} \<union>
     {run_static_pairing_code_server env hh i pend lr | hh i pend lr. True}"

lemma finalizes_psk_server: "finalizes env (run_pairing_psk_server env i lf psk)"
proof -
  have "finalizes env (andthen (server_timeout w (psk_init_loop n i lf nc False)) (\<lambda>early.
     server_timeout w' (finalize_server env PAIRING_PSK None early psk)))" for n nc w w'
    by (intro finalizes_quiet finalizes_timeout finalizes_finalize_server quiet_intros)
  then show ?thesis
    by (simp add: finalizes_def ends_in_def run_pairing_psk_server_def del: psk_init_loop.simps)
qed

lemma server_exchange_finalizes:
  assumes "p \<in> server_exchanges env"
  shows "finalizes env p"
proof -
  have "finalizes env (run_dynamic_pairing_code_server env hh i fmt pend lr lp)" for hh i fmt pend lr lp
    unfolding run_dynamic_pairing_code_server_def dyn_server_confirm_def
    by (intro finalizes_quiet finalizes_timeout finalizes_finalize_server finalizes_prod
        quiet_rounds_start quiet_intros) simp
  moreover have "finalizes env (run_static_pairing_code_server env hh i pend lr)" for hh i pend lr
    unfolding run_static_pairing_code_server_def Let_def
    by (intro finalizes_quiet finalizes_timeout finalizes_finalize_server quiet_intros)
  ultimately show ?thesis
    using assms finalizes_psk_server by (auto simp: server_exchanges_def)
qed

lemma ends_in_outbox:
  assumes "ends_in env P p s" "p s = (Inr rec, s')" "x \<in> set (outbox s)"
  shows "x \<in> set (outbox s')"
proof -
  obtain rec' t where "comm s t" and run: "store_and_ack env rec' t = (Inr rec, s')"
    using assms(1,2) by (auto simp: ends_in_def)
  then show ?thesis
    using comm_outbox [OF _ assms(3)] store_and_ack_records(3) [OF run] by fastforce
qed

lemma finalizes_confirm:
  "finalizes env (dyn_server_confirm env hh fmt lp nonce_a commitment prs sid cpace confirm)"
  unfolding dyn_server_confirm_def
  by (intro finalizes_quiet finalizes_finalize_server quiet_intros)

end
