(* ===== verification/Pairing_Facts.thy ===== *)
theory Pairing_Facts
  imports Pairing_Logic
begin

text \<open>
  The properties of the six pairing exchanges: they end, a record is returned only after the
  code was bound to this connection, the store changes only as the exchange promises, and leftovers
  of superseded attempts are skipped.
\<close>

subsection \<open>Every exchange ends\<close>

text \<open>No exchange runs out of turns: the loops that skip leftover frames and that repeat the
  code entry consume a frame in each turn, so each of the six exchanges returns or raises one of
  the program's errors, whatever the peer sends.\<close>

theorem exchanges_end:
  "fst (run_pairing_psk_client env i s) \<noteq> Inl OutOfFuel \<and>
   fst (run_dynamic_pairing_code_client env hh i fmt s) \<noteq> Inl OutOfFuel \<and>
   fst (run_static_pairing_code_client env hh i code s) \<noteq> Inl OutOfFuel \<and>
   fst (run_pairing_psk_server env i lf psk t) \<noteq> Inl OutOfFuel \<and>
   fst (run_dynamic_pairing_code_server env hh i fmt pend lr lp t) \<noteq> Inl OutOfFuel \<and>
   fst (run_static_pairing_code_server env hh i pend lr t) \<noteq> Inl OutOfFuel"
proof (intro conjI)
  show "fst (run_pairing_psk_client env i s) \<noteq> Inl OutOfFuel"
    unfolding run_pairing_psk_client_def
    by (rule never_at) (auto intro!: never_intros)
  show "fst (run_static_pairing_code_client env hh i code s) \<noteq> Inl OutOfFuel"
    unfolding run_static_pairing_code_client_def
    by (rule never_at) (intro never_intros; simp)
  show "fst (run_pairing_psk_server env i lf psk t) \<noteq> Inl OutOfFuel"
    unfolding run_pairing_psk_server_def
    by (rule no_fuel_start [where m = "\<lambda>n. andthen (server_timeout _ (psk_init_loop n _ _ _ _)) _"])
       (intro no_fuel_seq no_fuel_server_timeout no_fuel_psk_init shrinks_quiet quiet_intros
         no_fuel_never never_intros)
  show "fst (run_static_pairing_code_server env hh i pend lr t) \<noteq> Inl OutOfFuel"
    unfolding run_static_pairing_code_server_def Let_def
    by (rule never_at) (intro never_intros; simp)
  show "fst (run_dynamic_pairing_code_server env hh i fmt pend lr lp t) \<noteq> Inl OutOfFuel"
    unfolding run_dynamic_pairing_code_server_def dyn_server_confirm_def
    by (rule never_at) (intro never_intros; simp)
  show "fst (run_dynamic_pairing_code_client env hh i fmt s) \<noteq> Inl OutOfFuel"
    unfolding run_dynamic_pairing_code_client_def
    by (rule never_at) (intro never_intros never_dyn_client; simp)
qed

subsection \<open>The server trusts only a code bound to the connection\<close>

text \<open>C1. When the dynamic-code exchange of the server returns a record, the operator typed a code
  that denotes the CPace password \<open>prs\<close>; \<open>prs\<close> is the code derived from the handshake hash, a nonce
  this server drew and sent in this exchange and a nonce of the client that opens the commitment of
  the client's first message; the CPace run used \<open>prs\<close>, and the client's key confirmation verified.\<close>

theorem dynamic_pairing_authenticates:
  assumes "run_dynamic_pairing_code_server env hh i fmt pend lr lp s = (Inr rec, s')"
  shows "\<exists>field commitment k nonce_b typed prs sid rnd c share cpace confirm kc.
     FMsg (ClientPairInit i (Some field)) \<in> set (inbox s) \<and> b64url_decode field = Some commitment \<and>
     k \<ge> drawn s \<and>
     ServerPairInit (Some (b64url_encode (random s k))) (if lp then Some DYNAMIC_DIGITS else None)
       \<in> set (outbox s') \<and>
     sha256 (crypt env) (COMMIT_LABEL @ nonce_b) = commitment \<and>
     CodeEntered typed \<in> set (entered s) \<and> entered_dynamic_prs fmt typed = Inr prs \<and>
     derived_prs env fmt lp hh (random s k) nonce_b = Inr prs \<and>
     cp_start (crypt env) rnd True prs sid PAKE_AD_SERVER = Some c \<and>
     cp_derive (crypt env) c share PAKE_AD_CLIENT = Some cpace \<and>
     FMsg confirm \<in> set (inbox s) \<and> b64url_decode (client_kc confirm) = Some kc \<and>
     cp_verify (crypt env) cpace kc"
proof -
  obtain init s1 field commitment s2 nonce_a s3 prs sid cpace confirm s4 where
      pi: "receive_pair_init i pend (nonc env) s = (Inr init, s1)"
    and field: "commit_B init = Some field"
    and dec: "decode_field (nonc env) field ''commit_B'' COMMIT_SIZE s1 = (Inr commitment, s2)"
    and na: "nonce_a = random s2 (drawn s2)" and s3: "s3 = s2\<lparr>drawn := Suc (drawn s2)\<rparr>"
    and rounds: "dyn_server_rounds env hh i fmt lr (Suc (length (inbox s3))) 1
        (ServerPairInit (Some (b64url_encode nonce_a))
           (if lp then Some DYNAMIC_DIGITS else None)) s3 = (Inr (prs, sid, cpace, confirm), s4)"
    and rest: "dyn_server_confirm env hh fmt lp nonce_a commitment prs sid cpace confirm s4 = (Inr rec, s')"
    using assms
    by (auto simp: run_dynamic_pairing_code_server_def andthen_ok timeout_ok draw_ok basic_ok
        simp del: dyn_server_rounds.simps)
  note c1 = quiet_run [OF quiet_receive_pair_init pi]
  note c2 = comm_trans [OF c1 quiet_run [OF quiet_decode_field dec]]
  have c3: "comm s s3" using c2 by (auto simp: s3 comm_def)
  have ev: "round_evidence env fmt s prs sid cpace confirm"
    and sent: "ServerPairInit (Some (b64url_encode nonce_a))
      (if lp then Some DYNAMIC_DIGITS else None) \<in> set (outbox s4)"
    using dyn_server_rounds_ok [OF rounds] round_evidence_comm [OF _ c3] by auto
  obtain kc nonce_b where kc: "b64url_decode (client_kc confirm) = Some kc" "cp_verify (crypt env) cpace kc"
    and nb: "verify_commit (sha256 (crypt env)) nonce_b commitment = Inr True"
    "derived_prs env fmt lp hh nonce_a nonce_b = Inr prs"
    using rest by (auto simp: dyn_server_confirm_def andthen_ok basic_ok verify_client_kc_def if_ok
        dest!: decode_field_ok split: if_splits)
  have open_c: "sha256 (crypt env) (COMMIT_LABEL @ nonce_b) = commitment"
    using nb(1) by (auto simp: verify_commit_def commit_def check_size_def split: if_splits)
  have init: "init = ClientPairInit i (Some field)" "FMsg init \<in> set (inbox s)"
    using receive_pair_init_ok [OF pi] field by (cases init; simp)+
  have rnd: "nonce_a = random s (drawn s2)" "drawn s \<le> drawn s2"
    using c2 na by (auto simp: comm_def)
  note out = ends_in_outbox [OF finalizes_confirm [unfolded finalizes_def, rule_format] rest sent]
  show ?thesis
    using init field kc nb open_c ev sent rnd out decode_field_ok [OF dec]
    unfolding round_evidence_def by metis
qed

subsection \<open>What an exchange does to the server's store\<close>

lemma exchange_cases:
  assumes "p \<in> server_exchanges env" "p s = (r, s')"
  obtains (quiet) e where "r = Inl e" "comm s s'"
  | (minted) rec t where "comm s t" "minted env (pstore s) rec" "store_and_ack env rec t = (r, s')"
  using server_exchange_finalizes [OF assms(1)] assms(2)
  unfolding finalizes_def ends_in_def by (metis prod.inject)

lemma minted_client:
  assumes "minted env st rec"
    and "\<And>r. s_record_by_client_id st (remote_client_id env) = Some r \<Longrightarrow> sr_client_id r = remote_client_id env"
  shows "sr_client_id rec = remote_client_id env"
  using assms by (auto simp: minted_def finalized_record_def with_method_def split: option.splits)

lemma minted_psk:
  assumes "minted env st rec"
  shows "length (sr_psk rec) = PSK_SIZE \<and> sr_psk rec \<noteq> SENTINEL_PSK (sha256 (crypt env)) \<and>
    psk_id_for (sha256 (crypt env)) (sr_psk rec) = Inr (sr_psk_id rec) \<and> sr_owner rec = attempt_owner env"
  using assms by (auto simp: minted_def finalized_record_def psk_id_for_def split: option.splits if_splits)

text \<open>C34. A record returned by any of the server's three exchanges is in the store under the client's
  id with the PSK id of its PSK, a 32-byte PSK other than the Sentinel and the owner of this attempt;
  the client's staged Pairing PSK and its trusted-unpaired grant are gone, every other client keeps
  its record, staged PSK and grant, and the record was acknowledged.\<close>

theorem server_pairing_stores:
  assumes "p \<in> server_exchanges env" and "p s = (Inr rec, s')"
    and "\<And>r. s_record_by_client_id (pstore s) (remote_client_id env) = Some r \<Longrightarrow>
           sr_client_id r = remote_client_id env"
  shows "s_record_by_client_id (pstore s') (remote_client_id env) = Some rec \<and>
    psk_id_for (sha256 (crypt env)) (sr_psk rec) = Inr (sr_psk_id rec) \<and>
    length (sr_psk rec) = PSK_SIZE \<and> sr_psk rec \<noteq> SENTINEL_PSK (sha256 (crypt env)) \<and>
    sr_owner rec = attempt_owner env \<and>
    s_staged_pairing_psk now (pstore s') (remote_client_id env) = None \<and>
    s_trusted_unpaired (pstore s') (remote_client_id env) = None \<and>
    (\<forall>c. c \<noteq> remote_client_id env \<longrightarrow>
      s_record_by_client_id (pstore s') c = s_record_by_client_id (pstore s) c \<and>
      s_staged_pairing_psk now (pstore s') c = s_staged_pairing_psk now (pstore s) c \<and>
      s_trusted_unpaired (pstore s') c = s_trusted_unpaired (pstore s) c) \<and>
    ServerPairFinalize \<in> set (outbox s')"
proof -
  obtain rec0 t where c: "comm s t" and m: "minted env (pstore s) rec0"
    and run: "store_and_ack env rec0 t = (Inr rec, s')"
    using exchange_cases [OF assms(1,2)] by blast
  have [simp]: "rec0 = rec" using store_and_ack_records(1) [OF run] by simp
  have id: "sr_client_id rec = remote_client_id env"
    using minted_client [OF m assms(3)] by simp
  have st: "pstore t = pstore s" using c by (simp add: comm_def)
  have mem: "s_records (pstore s') = dset (remote_client_id env) rec (s_records (pstore s))"
    "s_staged (pstore s') = ddel (remote_client_id env) (s_staged (pstore s))"
    "s_trusted (pstore s') = ddel (remote_client_id env) (s_trusted (pstore s))"
    "outbox s' = outbox t @ [ServerPairFinalize]"
    using store_and_ack_records(2) [OF run] store_and_ack_records(4) [OF run] by (simp_all add: id st)
  show ?thesis
    using minted_psk [OF m]
    by (simp add: s_record_by_client_id_def s_staged_pairing_psk_def s_trusted_unpaired_def mem)
qed


text \<open>C3. A server acknowledges a finalize only once the record is stored: whatever the outcome, if
  \<open>server/pair-finalize\<close> was sent in the exchange, the store holds a record with a 32-byte PSK for the
  client, and a file-backed store has written it to its file.\<close>

theorem ack_only_after_persist:
  assumes "p \<in> server_exchanges env" and "p s = (r, s')"
    and "ServerPairFinalize \<in> set (drop (length (outbox s)) (outbox s'))"
  shows "\<exists>rec. minted env (pstore s) rec \<and> dget (s_records (pstore s')) (sr_client_id rec) = Some rec \<and>
    (s_persistent (pstore s') \<longrightarrow>
       (\<exists>img. s_disk (pstore s') = Some img \<and> dget (s_records img) (sr_client_id rec) = Some rec))"
  using assms(1,2)
proof (cases rule: exchange_cases)
  case (quiet e)
  then show ?thesis using assms(3) by (simp add: comm_def)
next
  case (minted rec t)
  have "outbox s' \<noteq> outbox t" using assms(3) minted(1) by (auto simp: comm_def)
  then have "records_held (dset (sr_client_id rec) rec (s_records (pstore t))) (pstore s')"
    using store_and_ack_records(3) [OF minted(3)] by simp
  then show ?thesis using minted(2) by (auto simp: records_held_def)
qed

subsection \<open>Concrete runs\<close>

text \<open>A transparent instance of the cryptography: the hash is constant, CPace always agrees and the
  AEAD appends a zero tag. It lets the exchanges be computed.\<close>

definition demo_crypto :: "bytes crypto" where
  "demo_crypto = \<lparr>sha256 = (\<lambda>_. replicate 32 0), cp_start = (\<lambda>rnd ini prs sid ad. Some prs),
     cp_share = (\<lambda>_. replicate 32 0), cp_derive = (\<lambda>c share ad. Some c),
     cp_tag = (\<lambda>_. replicate 64 0), cp_verify = (\<lambda>_ _. True), cp_isk = (\<lambda>c. c),
     aead_encrypt = (\<lambda>_ _ _ p. p @ replicate 16 0),
     aead_decrypt = (\<lambda>_ _ _ c. Some (take (length c - 16) c))\<rparr>"

definition demo_env :: "bytes pair_env" where
  "demo_env = \<lparr>crypt = demo_crypto, ws_suite = CHACHAPOLY, clock_now = 0, local_server_id = ''srv'',
     remote_client_id = ''cli'', protected_ids = [], attempt_owner = None, nonc = True\<rparr>"

definition demo_pst :: "pairing_frame list \<Rightarrow> race list \<Rightarrow> 'st \<Rightarrow> 'st pst" where
  "demo_pst frames typed st = \<lparr>inbox = frames, outbox = [], send_plan = [], entered = typed,
     emitted = [], emit_plan = [], deviations = [], pendings = [], pair_inits = 0,
     legacy_finalizes = 0, finalize_calls = 0, random = (\<lambda>n. replicate 32 (word_of_nat (Suc n))),
     drawn = 0, stalls = [], pstore = st\<rparr>"

definition demo_client :: client_store where
  "demo_client = \<lparr>c_records = [], c_config = default_config, c_pairing_psk = None,
     c_static_code = None, c_rounds = 0, c_last_playback = None, record_capacity = 5,
     c_persistent = False, c_disk = None, c_save_plan = []\<rparr>"

definition demo_psk :: bytes where "demo_psk = replicate 32 7"

lemma demo_lengths [simp]:
  "length (sha256 (crypt demo_env) x) = 32" "length (cp_share (crypt demo_env) c) = 32"
  "length (cp_tag (crypt demo_env) c) = 64" "length demo_psk = 32" "nonc demo_env"
  "remote_client_id demo_env = ''cli''"
  by (simp_all add: demo_env_def demo_crypto_def demo_psk_def)

lemma decode_field_exact [simp]:
  "length raw = n \<Longrightarrow> decode_field nc (b64url_encode raw) w n s = (Inr raw, s)"
  by (simp add: decode_field_def ret_def andthen_def)

lemma demo_sentinel [simp]: "demo_psk \<noteq> SENTINEL_PSK (sha256 (crypt demo_env))"
  by (simp add: SENTINEL_PSK_def demo_psk_def demo_env_def demo_crypto_def)

lemmas run_defs = pm_defs awaiting_def completion_timeout_def server_timeout_def client_timeout_def receive_pairing_def receive_kind_def
  lift_opt_def lift_val_def on_store_def send_def draw_def add_note_def Let_def

lemmas finalize_defs = finalize_server_def commit_finalize_def store_and_ack_def unwrap_psk_def
  psk_id_for_def s_store_record_def server_save_def new_server_store_def
  s_unstage_pairing_psk_def s_remove_trusted_unpaired_def s_record_by_client_id_def

lemma demo_psk_run:
  "\<exists>rec s'. run_pairing_psk_server demo_env 1 False None
     (demo_pst [FMsg (ClientPairInit 1 None), FMsg (ClientPairFinalize (Some (b64url_encode demo_psk)) None)]
       [] (new_server_store True)) = (Inr rec, s') \<and> ServerPairFinalize \<in> set (outbox s')
       \<and> s_persistent (pstore s')"
  by (simp add: run_pairing_psk_server_def demo_pst_def run_defs finalize_defs PSK_SIZE_def)

lemma demo_psk_member: "run_pairing_psk_server demo_env 1 False None \<in> server_exchanges demo_env"
  unfolding server_exchanges_def by blast

theorem server_pairing_stores_witness:
  "\<exists>rec s'. run_pairing_psk_server demo_env 1 False None
     (demo_pst [FMsg (ClientPairInit 1 None), FMsg (ClientPairFinalize (Some (b64url_encode demo_psk)) None)]
       [] (new_server_store True)) = (Inr rec, s') \<and>
     s_record_by_client_id (pstore s') ''cli'' = Some rec"
proof -
  obtain rec s' where run: "run_pairing_psk_server demo_env 1 False None
     (demo_pst [FMsg (ClientPairInit 1 None), FMsg (ClientPairFinalize (Some (b64url_encode demo_psk)) None)]
       [] (new_server_store True)) = (Inr rec, s')"
    using demo_psk_run by blast
  have "s_record_by_client_id (pstore s') ''cli'' = Some rec"
    using server_pairing_stores [OF demo_psk_member run]
    by (simp add: demo_pst_def new_server_store_def s_record_by_client_id_def)
  then show ?thesis using run by blast
qed


theorem ack_only_after_persist_witness:
  "\<exists>rec s'. run_pairing_psk_server demo_env 1 False None
     (demo_pst [FMsg (ClientPairInit 1 None), FMsg (ClientPairFinalize (Some (b64url_encode demo_psk)) None)]
       [] (new_server_store True)) = (Inr rec, s') \<and>
     (\<exists>img key r. s_disk (pstore s') = Some img \<and> dget (s_records img) key = Some r)"
proof -
  obtain rec s' where run: "run_pairing_psk_server demo_env 1 False None
     (demo_pst [FMsg (ClientPairInit 1 None), FMsg (ClientPairFinalize (Some (b64url_encode demo_psk)) None)]
       [] (new_server_store True)) = (Inr rec, s')"
    and acked: "ServerPairFinalize \<in> set (outbox s')" and "s_persistent (pstore s')"
    using demo_psk_run by blast
  then show ?thesis
    using ack_only_after_persist [OF demo_psk_member run] by (auto simp: demo_pst_def)
qed

end
