(* ===== verification/Pairing_Agreement.thy ===== *)
theory Pairing_Agreement
  imports Pairing_Facts
begin

text \<open>
  The two sides of the dynamic-code exchange run against each other: given a sound cryptography,
  each side, fed the messages the other one sends, sends exactly those messages and succeeds, and both stores
  end with the same PSK.
\<close>

subsection \<open>Honest sides agree\<close>

text \<open>What the exchanges rely on: 32-byte hashes, an AEAD that decrypts what it encrypted and adds a
  16-byte tag, and a CPace whose two sides, started from one password and session id, verify each
  other's tags and share a key. These are the documented guarantees of the libraries.\<close>

definition crypto_sound :: "'c crypto \<Rightarrow> bool" where
  "crypto_sound cr \<longleftrightarrow>
     (\<forall>x. length (sha256 cr x) = 32) \<and>
     (\<forall>su k n p. length (aead_encrypt cr su k n p) = length p + 16 \<and>
        aead_decrypt cr su k n (aead_encrypt cr su k n p) = Some p) \<and>
     (\<forall>ra rb prs sid. \<exists>a b a' b'.
        cp_start cr ra True prs sid PAKE_AD_SERVER = Some a \<and>
        cp_start cr rb False prs sid PAKE_AD_CLIENT = Some b \<and>
        length (cp_share cr a) = 32 \<and> length (cp_share cr b) = 32 \<and>
        cp_derive cr a (cp_share cr b) PAKE_AD_CLIENT = Some a' \<and>
        cp_derive cr b (cp_share cr a) PAKE_AD_SERVER = Some b' \<and>
        length (cp_tag cr a') = 64 \<and> length (cp_tag cr b') = 64 \<and>
        cp_verify cr a' (cp_tag cr b') \<and> cp_verify cr b' (cp_tag cr a') \<and>
        cp_isk cr a' = cp_isk cr b')"

definition attempt_start :: "(nat \<Rightarrow> bytes) \<Rightarrow> pairing_frame list \<Rightarrow> race list \<Rightarrow> 'st \<Rightarrow> 'st pst" where
  "attempt_start rnd frames typed st = \<lparr>inbox = frames, outbox = [], send_plan = [], entered = typed,
     emitted = [], emit_plan = [], deviations = [], pendings = [], pair_inits = 0,
     legacy_finalizes = 0, finalize_calls = 0, random = rnd, drawn = 0, stalls = [], pstore = st\<rparr>"

lemma server_save_memory [simp]: "\<not> s_persistent st \<Longrightarrow> server_save now st = (st, False)"
  by (simp add: server_save_def)

lemma client_save_memory [simp]: "\<not> c_persistent st \<Longrightarrow> client_save st = (st, False)"
  by (simp add: client_save_def)




lemma prs_of_digits:
  assumes "derive_digits h hh na nb = Inr code"
  shows "entered_dynamic_prs DIGITS code = Inr (ascii_bytes code)"
  using derive_digits_shape [OF assms] by (simp add: entered_dynamic_prs_def strip_separators_digits)

definition crypto_round :: "'c crypto \<Rightarrow> bytes \<Rightarrow> bytes \<Rightarrow> bytes \<Rightarrow> bytes \<Rightarrow> 'c \<Rightarrow> 'c \<Rightarrow> 'c \<Rightarrow> 'c \<Rightarrow> bool" where
  "crypto_round cr ra rb prs sid a b a' b' \<longleftrightarrow>
        cp_start cr ra True prs sid PAKE_AD_SERVER = Some a \<and>
        cp_start cr rb False prs sid PAKE_AD_CLIENT = Some b \<and>
        length (cp_share cr a) = 32 \<and> length (cp_share cr b) = 32 \<and>
        cp_derive cr a (cp_share cr b) PAKE_AD_CLIENT = Some a' \<and>
        cp_derive cr b (cp_share cr a) PAKE_AD_SERVER = Some b' \<and>
        length (cp_tag cr a') = 64 \<and> length (cp_tag cr b') = 64 \<and>
        cp_verify cr a' (cp_tag cr b') \<and> cp_verify cr b' (cp_tag cr a') \<and>
        cp_isk cr a' = cp_isk cr b'"

lemmas size_defs = PSK_SIZE_def NONCE_SIZE_def COMMIT_SIZE_def PAKE_SHARE_SIZE_def KC_TAG_SIZE_def
  AEAD_TAG_SIZE_def

lemma server_pake_run:
  assumes "crypto_round cr (random s (drawn s)) rb prs sid a b a' b'"
    and "send_plan s = []" and "inbox s = FMsg (ClientPairAuth (b64url_encode (cp_share cr b))) # fs"
  shows "run_server_pake cr prs sid nc s = (Inr a', s\<lparr>inbox := fs, drawn := Suc (drawn s),
    outbox := outbox s @ [ServerPairAuth (b64url_encode (cp_share cr a)),
      ServerPairConfirm (b64url_encode (cp_tag cr a'))]\<rparr>)"
  using assms
  by (simp add: crypto_round_def run_server_pake_def run_defs size_defs)


text \<open>The messages of a completed exchange.\<close>

definition server_messages :: "'c crypto \<Rightarrow> bytes \<Rightarrow> 'c \<Rightarrow> 'c \<Rightarrow> pairing_msg list" where
  "server_messages cr na a a' = [ServerPairInit (Some (b64url_encode na)) None,
     ServerPairAuth (b64url_encode (cp_share cr a)),
     ServerPairConfirm (b64url_encode (cp_tag cr a')), ServerPairFinalize]"

definition client_messages :: "'c pair_env \<Rightarrow> int \<Rightarrow> bytes \<Rightarrow> bytes \<Rightarrow> bytes \<Rightarrow> 'c \<Rightarrow> 'c \<Rightarrow> pairing_msg list" where
  "client_messages env i nb psk sid b b' =
     [ClientPairInit i (Some (b64url_encode (sha256 (crypt env) (COMMIT_LABEL @ nb)))),
      ClientPairAuth (b64url_encode (cp_share (crypt env) b)),
      ClientPairConfirm (b64url_encode (cp_tag (crypt env) b'))
        (Some (b64url_encode (aead_encrypt (crypt env) (ws_suite env)
           (wrap_key (crypt env) NONCE_WRAP_LABEL sid b') WRAP_NONCE nb))) None,
      ClientPairFinalize None
        (Some (b64url_encode (aead_encrypt (crypt env) (ws_suite env)
           (wrap_key (crypt env) PSK_WRAP_LABEL sid b') WRAP_NONCE psk)))]"




lemma aead_facts:
  assumes "crypto_sound cr"
  shows "length (sha256 cr x) = 32" "length (aead_encrypt cr su k n p) = length p + 16"
    "aead_decrypt cr su k n (aead_encrypt cr su k n p) = Some p"
  using assms by (simp_all add: crypto_sound_def)

lemma server_run:
  assumes sound: "crypto_sound (crypt env)"
    and cp: "crypto_round (crypt env) (rs 1) rb (ascii_bytes code) sid a b a' b'"
    and sid: "pake_sid hh i 1 = Some sid"
    and code: "derive_digits (sha256 (crypt env)) hh (rs 0) nb = Inr code"
    and len: "length nb = 32" "length psk = 32"
    and psk: "psk \<noteq> SENTINEL_PSK (sha256 (crypt env))"
    and mem: "\<not> s_persistent ss"
  shows "\<exists>rec s'. run_dynamic_pairing_code_server env hh i DIGITS pend False False
      (attempt_start rs (map FMsg (client_messages env i nb psk sid b b')) [CodeEntered code] ss) =
      (Inr rec, s') \<and>
    outbox s' = server_messages (crypt env) (rs 0) a a' \<and> sr_psk rec = psk \<and>
    sr_psk_id rec = b64url_encode (sha256 (crypt env) (PSK_ID_LABEL @ psk))"
proof -
  have keys: "wrap_key (crypt env) l sid a' = wrap_key (crypt env) l sid b'" for l
    using cp by (simp add: wrap_key_def crypto_round_def)
  have tag: "length (cp_tag (crypt env) b') = 64" "cp_verify (crypt env) a' (cp_tag (crypt env) b')"
    using cp by (simp_all add: crypto_round_def)
  define confirm where "confirm = client_messages env i nb psk sid b b' ! 2"
  define fin where "fin = client_messages env i nb psk sid b b' ! 3"
  have msgs: "client_messages env i nb psk sid b b' =
     [ClientPairInit i (Some (b64url_encode (sha256 (crypt env) (COMMIT_LABEL @ nb)))),
      ClientPairAuth (b64url_encode (cp_share (crypt env) b)), confirm, fin]"
    by (simp add: confirm_def fin_def client_messages_def)
  have rounds: "dyn_server_rounds env hh i DIGITS False (Suc n) 1 init s =
      (Inr (ascii_bytes code, sid, a', confirm), s\<lparr>inbox := [FMsg fin], drawn := 2, entered := [],
        outbox := outbox s @ [init, ServerPairAuth (b64url_encode (cp_share (crypt env) a)),
          ServerPairConfirm (b64url_encode (cp_tag (crypt env) a'))]\<rparr>)"
    if "random s = rs" "drawn s = 1" "send_plan s = []" "entered s = [CodeEntered code]"
      "inbox s = [FMsg (ClientPairAuth (b64url_encode (cp_share (crypt env) b))), FMsg confirm, FMsg fin]"
    for n s init
    using cp sid that prs_of_digits [OF code]
    by (simp add: server_pake_run [where rb = rb and a = a and b = b and a' = a' and b' = b'
          and fs = "[FMsg confirm, FMsg fin]"]
        run_defs await_pairing_code_def confirm_def client_messages_def)
  have judged: "\<exists>rec s'. dyn_server_confirm env hh DIGITS False (rs 0)
      (sha256 (crypt env) (COMMIT_LABEL @ nb)) (ascii_bytes code) sid a' confirm s = (Inr rec, s') \<and>
      outbox s' = outbox s @ [ServerPairFinalize] \<and> sr_psk rec = psk \<and>
      sr_psk_id rec = b64url_encode (sha256 (crypt env) (PSK_ID_LABEL @ psk))"
    if "inbox s = [FMsg fin]" "send_plan s = []" "stalls s = []" "pstore s = ss" for s
    using that tag len psk code mem
    by (simp add: dyn_server_confirm_def run_defs finalize_defs keys verify_client_kc_def
        revealed_nonce_def verify_commit_def commit_def check_size_def derived_prs_def
        confirm_def fin_def client_messages_def size_defs aead_facts [OF sound] finalized_record_def
        split: option.split)
  have "\<forall>s. \<exists>rec s'. inbox s = [FMsg fin] \<and> send_plan s = [] \<and> stalls s = [] \<and> pstore s = ss \<longrightarrow>
      dyn_server_confirm env hh DIGITS False (rs 0) (sha256 (crypt env) (COMMIT_LABEL @ nb))
        (ascii_bytes code) sid a' confirm s = (Inr rec, s') \<and>
      outbox s' = outbox s @ [ServerPairFinalize] \<and> sr_psk rec = psk \<and>
      sr_psk_id rec = b64url_encode (sha256 (crypt env) (PSK_ID_LABEL @ psk))"
    using judged by blast
  then obtain rec_of after where final:
    "\<And>s. inbox s = [FMsg fin] \<Longrightarrow> send_plan s = [] \<Longrightarrow> stalls s = [] \<Longrightarrow> pstore s = ss \<Longrightarrow>
      dyn_server_confirm env hh DIGITS False (rs 0) (sha256 (crypt env) (COMMIT_LABEL @ nb))
        (ascii_bytes code) sid a' confirm s = (Inr (rec_of s), after s) \<and>
      outbox (after s) = outbox s @ [ServerPairFinalize] \<and> sr_psk (rec_of s) = psk \<and>
      sr_psk_id (rec_of s) = b64url_encode (sha256 (crypt env) (PSK_ID_LABEL @ psk))"
    by metis
  show ?thesis
    unfolding msgs
    by (simp add: run_dynamic_pairing_code_server_def attempt_start_def server_messages_def
        receive_pair_init_def run_defs rounds size_defs aead_facts [OF sound] final del: dyn_server_rounds.simps)
qed


lemma demo_sound: "crypto_sound demo_crypto"
  by (simp add: crypto_sound_def demo_crypto_def)


theorem dynamic_pairing_authenticates_witness:
  "\<exists>rec s' from_client typed. run_dynamic_pairing_code_server demo_env (replicate 32 1) 1 DIGITS False False False
     (attempt_start (\<lambda>n. replicate 32 5) (map FMsg from_client) [CodeEntered typed] (new_server_store False))
     = (Inr rec, s') \<and>
     (\<exists>nonce_b prs. entered_dynamic_prs DIGITS typed = Inr prs \<and>
        derived_prs demo_env DIGITS False (replicate 32 1) (replicate 32 5) nonce_b = Inr prs)"
proof -
  have d: "crypt demo_env = demo_crypto" by (simp add: demo_env_def)
  obtain sid where sid: "pake_sid (replicate 32 1) 1 1 = Some sid"
    by (simp add: pake_sid_def to_bytes_4_def)
  obtain code where code: "derive_digits (sha256 (crypt demo_env)) (replicate 32 1) (replicate 32 5)
      (replicate 32 6) = Inr code"
    by (simp add: derive_digits_def derive_digest_def check_size_def NONCE_SIZE_def)
  obtain a b a' b' where cp: "crypto_round (crypt demo_env) (replicate 32 5) (replicate 32 6)
      (ascii_bytes code) sid a b a' b'"
    using demo_sound unfolding crypto_sound_def crypto_round_def d by metis
  obtain rec s' where run: "run_dynamic_pairing_code_server demo_env (replicate 32 1) 1 DIGITS False False False
     (attempt_start (\<lambda>n. replicate 32 5) (map FMsg (client_messages demo_env 1 (replicate 32 6) demo_psk sid b b'))
        [CodeEntered code] (new_server_store False)) = (Inr rec, s')"
    using server_run [where rs = "\<lambda>n. replicate 32 5" and env = demo_env, OF _ cp sid code, of demo_psk
        "new_server_store False" False] demo_sound demo_sentinel
    by (auto simp: d new_server_store_def)
  have "\<exists>nonce_b prs. entered_dynamic_prs DIGITS code = Inr prs \<and>
        derived_prs demo_env DIGITS False (replicate 32 1) (replicate 32 5) nonce_b = Inr prs"
    using dynamic_pairing_authenticates [OF run] by (auto simp: attempt_start_def)
  then show ?thesis using run by blast
qed

end
