(* ===== verification/Pairing_Client.thy ===== *)
theory Pairing_Client
  imports Pairing_Facts
begin

text \<open>
  Properties of the client's exchanges: how many codes an attempt shows, and when a pairing record is
  stored; and of the wait that opens the server's exchanges, which skips the leftovers of superseded
  attempts.
\<close>

subsection \<open>Leftovers of superseded attempts\<close>

text \<open>Frames a client may have sent for an earlier pairing activation.\<close>

definition leftover :: "int \<Rightarrow> pairing_frame \<Rightarrow> bool" where
  "leftover i f \<longleftrightarrow> (case f of
     FMsg m \<Rightarrow>
       kind_of m \<in> {KClientAuth, KClientConfirm, KClientFinalize, KRetry} \<or>
       (kind_of m \<in> {KClientInit, KPending} \<and> pair_index m < i) \<or>
       (kind_of m = KAbort \<and> 1 < i \<and> abort_why m \<in> LEFTOVER_ABORT_REASONS)
   | _ \<Rightarrow> False)"

lemma recv_loop_leftovers:
  assumes "list_all (leftover i) fs"
  shows "(\<exists>ns'. recv_loop {KClientInit, KPending} {KClientAuth, KClientConfirm, KClientFinalize, KRetry} flag
       (if i > 1 then LEFTOVER_ABORT_REASONS else {}) (fs @ FMsg (ClientPairInit i c) # rest) ns
       = (Inr (ClientPairInit i c), ns', rest)) \<or>
    (\<exists>m ns' fs'. recv_loop {KClientInit, KPending} {KClientAuth, KClientConfirm, KClientFinalize, KRetry} flag
       (if i > 1 then LEFTOVER_ABORT_REASONS else {}) (fs @ FMsg (ClientPairInit i c) # rest) ns
       = (Inr m, ns', fs' @ FMsg (ClientPairInit i c) # rest) \<and> pair_index m < i \<and>
       length fs' < length fs \<and> list_all (leftover i) fs')"
  using assms
proof (induction fs arbitrary: ns)
  case Nil
  then show ?case by simp
next
  case (Cons f fs)
  let ?loop = "\<lambda>fs ns. recv_loop {KClientInit, KPending} {KClientAuth, KClientConfirm, KClientFinalize, KRetry}
    flag (if i > 1 then LEFTOVER_ABORT_REASONS else {}) (fs @ FMsg (ClientPairInit i c) # rest) ns"
  from Cons.prems obtain m where f: "f = FMsg m" by (cases f) (auto simp: leftover_def)
  have lo: "leftover i (FMsg m)" "list_all (leftover i) fs" using Cons.prems f by auto
  show ?case
  proof (cases "kind_of m \<in> {KClientInit, KPending}")
    case True
    then have "pair_index m < i" using lo(1) by (auto simp: leftover_def)
    then show ?thesis
      using True lo(2) by (intro disjI2 exI [of _ m] exI [of _ ns] exI [of _ fs]) (auto simp: f)
  next
    case False
    then consider "kind_of m \<in> {KClientAuth, KClientConfirm, KClientFinalize, KRetry}"
      | "kind_of m = KAbort" "1 < i" "abort_why m \<in> LEFTOVER_ABORT_REASONS"
      using lo(1) by (auto simp: leftover_def)
    then obtain ns2 where step: "?loop (f # fs) ns = ?loop fs ns2"
      by cases (auto simp: f)
    have longer: "length fs' < length (f # fs)" if "length fs' < length fs" for fs' :: "pairing_frame list"
      using that by simp
    show ?thesis
      unfolding step using Cons.IH [OF lo(2), of ns2] longer by blast
  qed
qed

lemma flag_run: "\<exists>ds. flag_pairing_index_below_one nc m t = (Inr (), t\<lparr>deviations := ds\<rparr>)"
proof (cases "nc \<and> pair_index m < 1")
  case True
  then show ?thesis by (auto simp: flag_pairing_index_below_one_def add_note_def update_def)
next
  case False
  then show ?thesis
    by (intro exI [of _ "deviations t"]) (auto simp: flag_pairing_index_below_one_def add_note_def ret_def)
qed

lemma match_index_leftovers:
  assumes "list_all (leftover i) fs" "inbox s = fs @ FMsg (ClientPairInit i c) # rest" "length fs < n"
  shows "\<exists>s'. match_index_loop n i nc s = (Inr (ClientPairInit i c), s') \<and> inbox s' = rest \<and>
    outbox s' = outbox s \<and> pstore s' = pstore s \<and> pendings s' = pendings s"
  using assms
proof (induction n arbitrary: fs s)
  case (Suc n)
  let ?recv = "receive_pairing {KClientInit, KPending} {KClientAuth, KClientConfirm, KClientFinalize, KRetry}
     (nc \<and> \<not> i > 1) (if i > 1 then LEFTOVER_ABORT_REASONS else {}) s"
  from recv_loop_leftovers [OF Suc.prems(1), of "nc \<and> \<not> i > 1" c rest "deviations s"]
  consider (hit) ns' where "?recv = (Inr (ClientPairInit i c), s\<lparr>inbox := rest, deviations := ns'\<rparr>)"
    | (skip) m ns' fs' where
      "?recv = (Inr m, s\<lparr>inbox := fs' @ FMsg (ClientPairInit i c) # rest, deviations := ns'\<rparr>)"
      "pair_index m < i" "length fs' < length fs" "list_all (leftover i) fs'"
    using Suc.prems(2) by (auto simp: receive_pairing_def)
  then show ?case
  proof cases
    case hit
    then show ?thesis by (simp add: andthen_def ret_def)
  next
    case (skip m ns' fs')
    let ?t = "s\<lparr>inbox := fs' @ FMsg (ClientPairInit i c) # rest, deviations := ns'\<rparr>"
    obtain ds where flag: "flag_pairing_index_below_one nc m ?t = (Inr (), ?t\<lparr>deviations := ds\<rparr>)"
      using flag_run by blast
    obtain s' where loop: "match_index_loop n i nc (?t\<lparr>deviations := ds\<rparr>) = (Inr (ClientPairInit i c), s')"
      "inbox s' = rest" "outbox s' = outbox s" "pstore s' = pstore s" "pendings s' = pendings s"
      using Suc.IH [OF skip(4), of "?t\<lparr>deviations := ds\<rparr>"] skip(3) Suc.prems(3) by auto
    show ?thesis
      using skip(1,2) flag loop by (simp add: andthen_def)
  qed
qed simp

text \<open>A pairing attempt is not disturbed by what a superseded one left in flight: in front of this
  attempt's \<open>client/pair-init\<close>, messages of an earlier activation and, from the second activation on,
  aborts with a leftover reason are skipped, without a message sent or the store touched.\<close>

theorem leftovers_skipped:
  assumes "list_all (leftover i) fs"
  shows "inbox s = fs @ FMsg (ClientPairInit i c) # rest \<longrightarrow>
    (\<exists>s'. receive_pair_init i pend nc s = (Inr (ClientPairInit i c), s') \<and> inbox s' = rest \<and>
      outbox s' = outbox s \<and> pstore s' = pstore s \<and> pendings s' = pendings s)"
proof
  assume box: "inbox s = fs @ FMsg (ClientPairInit i c) # rest"
  obtain s' where "match_index_loop (Suc (length (inbox s))) i nc s = (Inr (ClientPairInit i c), s')"
    "inbox s' = rest" "outbox s' = outbox s" "pstore s' = pstore s" "pendings s' = pendings s"
    using match_index_leftovers [OF assms box, of "Suc (length (inbox s))"] box by auto
  then show "\<exists>s'. receive_pair_init i pend nc s = (Inr (ClientPairInit i c), s') \<and> inbox s' = rest \<and>
      outbox s' = outbox s \<and> pstore s' = pstore s \<and> pendings s' = pendings s"
    by (simp add: receive_pair_init_def server_timeout_def andthen_def ret_def del: match_index_loop.simps)
qed

theorem leftovers_skipped_witness:
  "\<exists>s'. receive_pair_init 2 False True (demo_pst [FMsg (ClientPairInit 1 (Some ''x'')), FMsg ClientPairRetry,
      FMsg (PairAbort ATTEMPT_TIMEOUT), FMsg (ClientPairInit 2 None)] [] (0 :: nat))
     = (Inr (ClientPairInit 2 None), s') \<and> inbox s' = []"
  using leftovers_skipped [of 2 "[FMsg (ClientPairInit 1 (Some ''x'')), FMsg ClientPairRetry,
      FMsg (PairAbort ATTEMPT_TIMEOUT)]" "demo_pst [FMsg (ClientPairInit 1 (Some ''x'')), FMsg ClientPairRetry,
      FMsg (PairAbort ATTEMPT_TIMEOUT), FMsg (ClientPairInit 2 None)] [] (0 :: nat)" None "[]" False True]
  by (auto simp: leftover_def LEFTOVER_ABORT_REASONS_def demo_pst_def)

subsection \<open>How many codes an attempt shows\<close>

definition shown :: "'st pst \<Rightarrow> int" where "shown s = int (length (emitted s))"

text \<open>The codes a store with this round count still lets an attempt show: at least one.\<close>

definition rounds_left :: "client_store \<Rightarrow> int" where
  "rounds_left st = max 1 (PAIRING_ROUND_LIMIT - c_rounds st)"

lemma quiet_shown: "quiet m \<Longrightarrow> m s = (r, s') \<Longrightarrow> shown s' = shown s \<and> pstore s' = pstore s"
  using quiet_run by (fastforce simp: comm_def shown_def)

lemma record_round_rounds: "c_rounds (fst (record_pairing_round st)) = c_rounds st + 1"
  by (auto simp: record_pairing_round_def client_save_def split: list.split bool.split)

lemma on_store_shown:
  "on_store op s = (r, s') \<Longrightarrow> shown s' = shown s \<and> pstore s' = fst (op (pstore s))"
  by (auto simp: on_store_def shown_def split: prod.splits)

lemma emit_shown: "emit code s = (r, s') \<Longrightarrow> shown s' = shown s + 1 \<and> pstore s' = pstore s"
  by (auto simp: emit_def shown_def split: list.splits bool.splits)

text \<open>\<open>upto b m s\<close>: a run of \<open>m\<close> from \<open>s\<close> ends with at most \<open>b\<close> codes shown.\<close>

definition upto_shown :: "int \<Rightarrow> ('st, 'a) pm \<Rightarrow> 'st pst \<Rightarrow> bool" where
  "upto_shown b m s \<longleftrightarrow> shown (snd (m s)) \<le> b"

lemma upto_andthen:
  assumes "\<And>r t. m s = (r, t) \<Longrightarrow> shown t \<le> b"
    and "\<And>x t. m s = (Inr x, t) \<Longrightarrow> upto_shown b (f x) t"
  shows "upto_shown b (andthen m f) s"
  using assms by (auto simp: upto_shown_def andthen_def split: prod.split sum.split)

lemma upto_quiet_then:
  assumes "quiet m" "shown s \<le> b"
    and "\<And>x t. m s = (Inr x, t) \<Longrightarrow> shown t = shown s \<Longrightarrow> pstore t = pstore s \<Longrightarrow> upto_shown b (f x) t"
  shows "upto_shown b (andthen m f) s"
  using quiet_shown [OF assms(1)] assms(2,3) by (intro upto_andthen) auto

lemma upto_quiet: "quiet m \<Longrightarrow> shown s \<le> b \<Longrightarrow> upto_shown b m s"
  unfolding upto_shown_def by (cases "m s") (auto dest: quiet_shown)

lemma andthen_cases [consumes 1, case_names raised went]:
  assumes "andthen m f s = (r, s')"
    and "\<And>e. m s = (Inl e, s') \<Longrightarrow> r = Inl e \<Longrightarrow> P"
    and "\<And>x t. m s = (Inr x, t) \<Longrightarrow> f x t = (r, s') \<Longrightarrow> P"
  shows P
  using assms by (auto simp: andthen_def split: prod.splits sum.splits)

lemma upto_mono: "upto_shown b m s \<Longrightarrow> b \<le> b' \<Longrightarrow> upto_shown b' m s"
  by (simp add: upto_shown_def)

lemma retry_below_limit: "client_retry s = (Inr u, t) \<Longrightarrow> \<not> is_pairing_round_limit_reached (pstore s)"
  by (auto simp: client_retry_def result_iff split: if_splits)

lemma dyn_client_shown:
  "upto_shown (shown s + rounds_left (pstore s)) (dyn_client_rounds env hh i prs code n rn) s"
proof (induction n arbitrary: rn s)
  case 0
  then show ?case by (simp add: upto_shown_def fail_def rounds_left_def)
next
  case (Suc n)
  let ?b = "shown s + rounds_left (pstore s)"
  have emitted_one: "upto_shown ?b (andthen (lift_opt PyOverflowError (pake_sid hh i rn)) (\<lambda>sid.
      andthen (run_client_pake (crypt env) prs sid) (\<lambda>(cpace, verified).
      if verified then ret (sid, cpace)
      else andthen client_retry (\<lambda>_. dyn_client_rounds env hh i prs code n (rn + 1))))) u"
    if u: "shown u = shown s + 1" "c_rounds (pstore u) = c_rounds (pstore s) + 1" for u
  proof -
    have le: "shown u \<le> ?b" using u by (simp add: rounds_left_def)
    have again: "upto_shown ?b (dyn_client_rounds env hh i prs code n (rn + 1)) v"
      if "shown v = shown u" "pstore v = pstore u" "\<not> is_pairing_round_limit_reached (pstore u)" for v
      using that u
      by (intro upto_mono [OF Suc.IH]) (auto simp: rounds_left_def is_pairing_round_limit_reached_def)
    have retry: "upto_shown ?b (andthen client_retry
        (\<lambda>_. dyn_client_rounds env hh i prs code n (rn + 1))) v"
      if "shown v = shown u" "pstore v = pstore u" for v
    proof (rule upto_quiet_then [OF quiet_client_retry])
      show "shown v \<le> ?b" using that le by simp
      fix x t assume "client_retry v = (Inr x, t)" "shown t = shown v" "pstore t = pstore v"
      then show "upto_shown ?b (dyn_client_rounds env hh i prs code n (rn + 1)) t"
        using again that retry_below_limit by metis
    qed
    show ?thesis
      using le retry
      by (intro upto_quiet_then [OF quiet_lift_opt] upto_quiet_then [OF quiet_client_pake])
         (auto split: prod.split intro!: upto_quiet quiet_ret)
  qed
  show ?case
    unfolding dyn_client_rounds.simps
  proof (rule upto_andthen, drule on_store_shown, simp add: rounds_left_def, rule upto_andthen)
    fix x t r u
    assume rec: "on_store record_pairing_round s = (Inr x, t)" and "emit code t = (r, u)"
    then show "shown u \<le> ?b"
      using on_store_shown [OF rec] by (auto simp: emit_shown rounds_left_def)
  next
    fix x y t u
    assume rec: "on_store record_pairing_round s = (Inr x, t)" and em: "emit code t = (Inr y, u)"
    show "upto_shown ?b (andthen (lift_opt PyOverflowError (pake_sid hh i rn)) (\<lambda>sid.
      andthen (run_client_pake (crypt env) prs sid) (\<lambda>(cpace, verified).
      if verified then ret (sid, cpace)
      else andthen client_retry (\<lambda>_. dyn_client_rounds env hh i prs code n (rn + 1))))) u"
      using on_store_shown [OF rec] emit_shown [OF em]
      by (intro emitted_one) (simp_all add: record_round_rounds)
  qed
qed

definition keeps_shown :: "('st, 'a) pm \<Rightarrow> bool" where
  "keeps_shown m \<longleftrightarrow> (\<forall>s. shown (snd (m s)) = shown s)"

lemma keeps_shown_andthen: "keeps_shown m \<Longrightarrow> (\<And>x. keeps_shown (f x)) \<Longrightarrow> keeps_shown (andthen m f)"
  by (simp add: keeps_shown_def andthen_def split: prod.split sum.split) (metis snd_conv)

lemma keeps_shown_quiet: "quiet m \<Longrightarrow> keeps_shown m"
  by (metis keeps_shown_def prod.collapse quiet_shown)

lemma keeps_shown_on_store: "keeps_shown (on_store op)"
  by (metis keeps_shown_def on_store_shown prod.collapse)

lemma keeps_shown_prod: "(\<And>a b. keeps_shown (f a b)) \<Longrightarrow> keeps_shown (case x of (a, b) \<Rightarrow> f a b)"
  by (cases x) simp

lemmas keeps_prims = quiet_draw [THEN keeps_shown_quiet] quiet_lift_val [THEN keeps_shown_quiet]
  quiet_send [THEN keeps_shown_quiet] quiet_receive_kind [THEN keeps_shown_quiet]
  quiet_pending [THEN keeps_shown_quiet]

lemma upto_prod: "(\<And>a b. x = (a, b) \<Longrightarrow> upto_shown n (f a b) s) \<Longrightarrow> upto_shown n (case x of (a, b) \<Rightarrow> f a b) s"
  by (cases x) simp

lemma keeps_shown_finalize: "keeps_shown (finalize_client env key)"
  unfolding finalize_client_def
  by (intro keeps_shown_andthen keeps_shown_prod keeps_shown_on_store keeps_prims)
     (auto split: option.split)

lemma upto_then_keeps:
  assumes "upto_shown b m s" "\<And>x. keeps_shown (f x)"
  shows "upto_shown b (andthen m f) s"
  using assms by (auto simp: upto_shown_def andthen_def keeps_shown_def split: prod.split sum.split)

lemma abort_shown [simp]: "shown (snd (abort_pairing why t)) = shown t"
  by (simp add: abort_pairing_def send_def shown_def split: list.split bool.split)

lemma upto_client_timeout: "upto_shown b m s \<Longrightarrow> upto_shown b (client_timeout m) s"
  by (auto simp: upto_shown_def client_timeout_def split: prod.split sum.split pair_error.split)

text \<open>C36. An attempt of the client shows at most as many dynamic codes as the persisted round count
  leaves below the limit of 20, and at most one when the limit is already reached, whatever the server
  sends.\<close>

theorem client_codes_bounded:
  "int (length (emitted (snd (run_dynamic_pairing_code_client env hh i fmt s)))) \<le>
     int (length (emitted s)) + max 1 (20 - c_rounds (pstore s))"
proof -
  have "upto_shown (shown s + rounds_left (pstore s)) (run_dynamic_pairing_code_client env hh i fmt) s"
    (is "upto_shown ?b _ s")
  proof -
    have rounds: "upto_shown ?b (\<lambda>s. dyn_client_rounds env hh i prs code (Suc (length (inbox s))) 1 s) t"
      if "shown t = shown s" "pstore t = pstore s" for t prs code
      using dyn_client_shown [of t env hh i prs code "Suc (length (inbox t))" 1] that
      by (simp add: upto_shown_def)
    have le: "shown s \<le> ?b" by (simp add: rounds_left_def)
    show ?thesis
      unfolding run_dynamic_pairing_code_client_def
      using le
      by (intro upto_quiet_then [OF quiet_draw] upto_client_timeout upto_prod
          upto_quiet_then [OF quiet_lift_val] upto_quiet_then [OF quiet_send]
          upto_quiet_then [OF quiet_receive_kind] upto_quiet_then [OF quiet_lift_opt]
          upto_quiet_then [OF quiet_decode_field] upto_then_keeps [OF rounds]
          keeps_shown_andthen keeps_shown_prod keeps_shown_on_store keeps_shown_finalize keeps_prims)
        simp_all
  qed
  then show ?thesis by (simp add: upto_shown_def shown_def rounds_left_def PAIRING_ROUND_LIMIT_def)
qed

subsection \<open>When the client stores a record\<close>

text \<open>What the client's exchanges do before they finalize: the records stay.\<close>

definition roll :: "client_store pst \<Rightarrow> client_store pst \<Rightarrow> bool" where
  "roll s t \<longleftrightarrow> c_records (pstore t) = c_records (pstore s) \<and>
     (client_store_ok (pstore s) \<longrightarrow> client_store_ok (pstore t)) \<and>
     suffix (inbox t) (inbox s) \<and> random t = random s \<and> drawn s \<le> drawn t"

definition rolls :: "(client_store, 'a) pm \<Rightarrow> bool" where
  "rolls m \<longleftrightarrow> (\<forall>s. roll s (snd (m s)))"

lemma roll_trans: "roll s t \<Longrightarrow> roll t u \<Longrightarrow> roll s u"
  by (auto simp: roll_def intro: suffix_order.trans)

lemma roll_refl [simp]: "roll s s" by (simp add: roll_def)

lemma rolls_run: "rolls m \<Longrightarrow> m s = (r, t) \<Longrightarrow> roll s t"
  unfolding rolls_def by (metis snd_conv)

lemma rolls_quiet: "quiet m \<Longrightarrow> rolls m"
  using quietD by (fastforce simp: rolls_def roll_def comm_def)

lemma rolls_andthen: "rolls m \<Longrightarrow> (\<And>x. rolls (f x)) \<Longrightarrow> rolls (andthen m f)"
  by (auto simp: rolls_def andthen_def split: prod.split sum.split)
     (metis snd_conv, metis roll_trans snd_conv)

lemma rolls_on_store:
  "(\<And>st. c_records (fst (op st)) = c_records st \<and> (client_store_ok st \<longrightarrow> client_store_ok (fst (op st))))
     \<Longrightarrow> rolls (on_store op)"
  by (simp add: rolls_def roll_def on_store_def split: prod.split) (metis fst_conv)

lemma rolls_rounds: "rolls (on_store record_pairing_round)" "rolls (on_store reset_pairing_rounds)"
  by (intro rolls_on_store; auto simp: record_pairing_round_def reset_pairing_rounds_def
      client_store_ok_def)+

lemma rolls_emit: "rolls (emit code)"
  by (auto simp: rolls_def roll_def emit_def split: list.split bool.split)

lemma rolls_prod: "(\<And>a b. rolls (f a b)) \<Longrightarrow> rolls (case x of (a, b) \<Rightarrow> f a b)"
  by (cases x) simp

lemma rolls_if: "rolls m \<Longrightarrow> rolls n \<Longrightarrow> rolls (if b then m else n)"
  by simp

lemma rolls_dyn_rounds: "rolls (dyn_client_rounds env hh i prs code n rn)"
proof (induction n arbitrary: rn)
  case (Suc n)
  show ?case unfolding dyn_client_rounds.simps
    by (intro rolls_andthen rolls_rounds rolls_emit rolls_prod rolls_if Suc.IH rolls_quiet quiet_intros)
qed (simp add: rolls_quiet quiet_fail)

text \<open>\<open>stores_on_ack env p\<close>: a run of \<open>p\<close> leaves the records alone, or the server acknowledged and the
  client ran \<open>replace_record_for_server_id\<close> on a record with a PSK it drew in this run.\<close>

definition fresh_record :: "'c pair_env \<Rightarrow> client_store pst \<Rightarrow> client_record \<Rightarrow> bool" where
  "fresh_record env s rec \<longleftrightarrow> (\<exists>k. drawn s \<le> k \<and> cr_psk rec = random s k) \<and>
     length (cr_psk rec) = PSK_SIZE \<and> cr_server_id rec = local_server_id env \<and>
     psk_id_for (sha256 (crypt env)) (cr_psk rec) = Inr (cr_psk_id rec)"

definition acked_store :: "'c pair_env \<Rightarrow> client_store pst \<Rightarrow> pair_error + unit \<Rightarrow> client_store pst \<Rightarrow> bool" where
  "acked_store env s r s' \<longleftrightarrow> FMsg ServerPairFinalize \<in> set (inbox s) \<and>
     (\<exists>rec st. c_records st = c_records (pstore s) \<and> (client_store_ok (pstore s) \<longrightarrow> client_store_ok st) \<and>
        fresh_record env s rec \<and>
        pstore s' = fst (replace_record_for_server_id rec (protected_ids env) st) \<and>
        (r = Inr () \<longrightarrow> \<not> snd (replace_record_for_server_id rec (protected_ids env) st)))"

definition stores_on_ack :: "'c pair_env \<Rightarrow> (client_store, unit) pm \<Rightarrow> bool" where
  "stores_on_ack env p \<longleftrightarrow> (\<forall>s r s'. p s = (r, s') \<longrightarrow> (r \<noteq> Inr () \<and> roll s s') \<or> acked_store env s r s')"

lemma acked_roll: "acked_store env t r s' \<Longrightarrow> roll s t \<Longrightarrow> acked_store env s r s'"
  unfolding acked_store_def
proof (elim conjE exE)
  fix rec st
  assume r: "roll s t" and "FMsg ServerPairFinalize \<in> set (inbox t)"
    and st: "c_records st = c_records (pstore t)" "client_store_ok (pstore t) \<longrightarrow> client_store_ok st"
    and fresh: "fresh_record env t rec"
    and rest: "pstore s' = fst (replace_record_for_server_id rec (protected_ids env) st)"
      "r = Inr () \<longrightarrow> \<not> snd (replace_record_for_server_id rec (protected_ids env) st)"
  then have "FMsg ServerPairFinalize \<in> set (inbox s)" by (auto simp: roll_def suffix_def)
  moreover have "fresh_record env s rec"
    using r fresh order_trans unfolding fresh_record_def roll_def by metis
  ultimately show "FMsg ServerPairFinalize \<in> set (inbox s) \<and> (\<exists>rec st.
      c_records st = c_records (pstore s) \<and> (client_store_ok (pstore s) \<longrightarrow> client_store_ok st) \<and>
      fresh_record env s rec \<and> pstore s' = fst (replace_record_for_server_id rec (protected_ids env) st) \<and>
      (r = Inr () \<longrightarrow> \<not> snd (replace_record_for_server_id rec (protected_ids env) st)))"
    using r st rest unfolding roll_def by metis
qed

lemma stores_andthen:
  assumes "rolls m" "\<And>x. stores_on_ack env (f x)"
  shows "stores_on_ack env (andthen m f)"
  unfolding stores_on_ack_def
proof (intro allI impI)
  fix s r s' assume run: "andthen m f s = (r, s')"
  obtain r0 t where m: "m s = (r0, t)" by (cases "m s")
  have c: "roll s t" by (rule rolls_run [OF assms(1) m])
  show "r \<noteq> Inr () \<and> roll s s' \<or> acked_store env s r s'"
  proof (cases r0)
    case (Inl e)
    then show ?thesis using run m c by (auto simp: andthen_def)
  next
    case (Inr x)
    then have "f x t = (r, s')" using run m by (simp add: andthen_def)
    then show ?thesis
      using assms(2) [of x] roll_trans [OF c] acked_roll [OF _ c] unfolding stores_on_ack_def by blast
  qed
qed

lemma stores_prod: "(\<And>a b. stores_on_ack env (f a b)) \<Longrightarrow> stores_on_ack env (case x of (a, b) \<Rightarrow> f a b)"
  by (cases x) simp

lemma stores_client_timeout:
  assumes "stores_on_ack env p"
  shows "stores_on_ack env (client_timeout p)"
  unfolding stores_on_ack_def
proof (intro allI impI)
  fix s r s' assume run: "client_timeout p s = (r, s')"
  obtain r0 t where p: "p s = (r0, t)" by (cases "p s")
  show "r \<noteq> Inr () \<and> roll s s' \<or> acked_store env s r s'"
  proof (cases "r0 = Inl Expired")
    case False
    then have "r = r0 \<and> s' = t"
      using run p by (auto simp: client_timeout_def split: sum.splits pair_error.splits)
    then show ?thesis using assms p unfolding stores_on_ack_def by blast
  next
    case True
    then have ab: "abort_pairing ATTEMPT_TIMEOUT t = (r, s')"
      using run p by (simp add: client_timeout_def)
    have c: "roll t s'" by (rule rolls_run [OF rolls_quiet [OF quiet_abort] ab])
    have r: "r \<noteq> Inr ()" using ab by (auto simp: abort_pairing_def)
    have s': "pstore s' = pstore t"
      using quiet_run [OF quiet_abort ab] by (simp add: comm_def)
    show ?thesis
      using assms p True r roll_trans [OF _ c] s' unfolding stores_on_ack_def acked_store_def
      by (metis (no_types, lifting))
  qed
qed

lemma resolved_fresh:
  assumes "resolve_pairing_outcome (sha256 (crypt env)) (clock_now env) (random s (drawn s))
      (local_server_id env) = Inr (psk, rec)"
  shows "fresh_record env s rec"
  using assms by (auto simp: resolve_pairing_outcome_def fresh_record_def then_ok_Inr psk_id_for_def
      split: if_splits)

lemma andthen_first:
  "andthen (ret x) f s = f x s" "andthen (update g) h s = h () (g s)"
  "andthen draw k s = k (random s (drawn s)) (s\<lparr>drawn := Suc (drawn s)\<rparr>)"
  by (simp_all add: andthen_def ret_def update_def draw_def)

lemma stores_finalize: "stores_on_ack env (finalize_client env key)"
  unfolding stores_on_ack_def
proof (intro allI impI)
  fix s r s' assume run: "finalize_client env key s = (r, s')"
  let ?res = "resolve_pairing_outcome (sha256 (crypt env)) (clock_now env) (random s (drawn s))
    (local_server_id env)"
  let ?t = "s\<lparr>drawn := Suc (drawn s), finalize_calls := Suc (finalize_calls s)\<rparr>"
  have c: "roll s ?t" "roll s (s\<lparr>drawn := Suc (drawn s)\<rparr>)" by (simp_all add: roll_def)
  show "r \<noteq> Inr () \<and> roll s s' \<or> acked_store env s r s'"
  proof (cases ?res)
    case (Inl e)
    then show ?thesis
      using run c(2) by (auto simp: finalize_client_def andthen_def draw_def lift_val_def fail_def)
  next
    case (Inr pr)
    then obtain psk rec where res: "?res = Inr (psk, rec)" by (cases pr) simp
    obtain msg where msg: "msg \<noteq> ServerPairFinalize" and rest: "andthen (send msg) (\<lambda>_.
        andthen (receive_kind {KServerFinalize}) (\<lambda>_.
        on_store (replace_record_for_server_id rec (protected_ids env)))) ?t = (r, s')"
      using run res
      by (cases key) (auto simp: finalize_client_def andthen_first lift_val_def)
    from rest show ?thesis
    proof (cases rule: andthen_cases)
      case (raised e)
      then show ?thesis
        using roll_trans [OF c(1) rolls_run [OF rolls_quiet [OF quiet_send [OF msg]] raised(1)]] by simp
    next
      case (went x u)
      have cu: "roll s u"
        by (rule roll_trans [OF c(1) rolls_run [OF rolls_quiet [OF quiet_send [OF msg]] went(1)]])
      from went(2) show ?thesis
      proof (cases rule: andthen_cases)
        case (raised e)
        then show ?thesis
          using roll_trans [OF cu rolls_run [OF rolls_quiet [OF quiet_receive_kind] raised(1)]] by simp
      next
        case (went m v)
        have cv: "roll s v"
          by (rule roll_trans [OF cu rolls_run [OF rolls_quiet [OF quiet_receive_kind] went(1)]])
        have "FMsg m \<in> set (inbox u)" "m = ServerPairFinalize"
          using receive_kind_ok [OF went(1)] by (cases m; simp)+
        then have ack: "FMsg ServerPairFinalize \<in> set (inbox s)"
          using cu by (auto simp: roll_def suffix_def)
        have "acked_store env s r s'"
          unfolding acked_store_def
          using ack cv went(2) resolved_fresh [OF res]
          by (intro conjI exI [of _ rec] exI [of _ "pstore v"])
             (auto simp: roll_def on_store_def split: prod.splits if_splits)
        then show ?thesis by simp
      qed
    qed
  qed
qed

text \<open>The three exchanges of the client.\<close>

definition client_exchanges :: "'c pair_env \<Rightarrow> (client_store, unit) pm set" where
  "client_exchanges env =
     {run_pairing_psk_client env i | i. True} \<union>
     {run_dynamic_pairing_code_client env hh i fmt | hh i fmt. True} \<union>
     {run_static_pairing_code_client env hh i code | hh i code. True}"

lemma rolls_rounds_start: "rolls (\<lambda>s. dyn_client_rounds env hh i prs code (Suc (length (inbox s))) 1 s)"
  using rolls_dyn_rounds unfolding rolls_def by blast

lemma client_exchange_stores:
  assumes "p \<in> client_exchanges env"
  shows "stores_on_ack env p"
proof -
  have "stores_on_ack env (run_pairing_psk_client env i)" for i
    unfolding run_pairing_psk_client_def
    by (intro stores_client_timeout stores_andthen stores_finalize rolls_quiet quiet_intros) simp
  moreover have "stores_on_ack env (run_dynamic_pairing_code_client env hh i fmt)" for hh i fmt
    unfolding run_dynamic_pairing_code_client_def
    by (intro stores_client_timeout stores_andthen stores_prod stores_finalize rolls_rounds_start
        rolls_rounds rolls_quiet quiet_intros) simp_all
  moreover have "stores_on_ack env (run_static_pairing_code_client env hh i code)" for hh i code
    unfolding run_static_pairing_code_client_def
    by (intro stores_client_timeout stores_andthen stores_prod stores_finalize rolls_quiet quiet_intros)
       simp_all
  ultimately show ?thesis using assms by (auto simp: client_exchanges_def)
qed

text \<open>C33. A client's exchange changes its pairing records only after the server acknowledged the
  finalize; when the exchange completes, the store holds a record for this server with a 32-byte PSK
  drawn in this very run, under the PSK id of that PSK.\<close>

theorem client_stores_on_ack:
  assumes "p \<in> client_exchanges env" and "p s = (r, s')" and "client_store_ok (pstore s)"
  shows "(c_records (pstore s') \<noteq> c_records (pstore s) \<or> r = Inr () \<longrightarrow>
       FMsg ServerPairFinalize \<in> set (inbox s)) \<and>
    (r = Inr () \<longrightarrow> (\<exists>rec. fresh_record env s rec \<and> record_by_psk_id (pstore s') (cr_psk_id rec) = Some rec))"
  using client_exchange_stores [OF assms(1)] assms(2)
  unfolding stores_on_ack_def
proof (elim allE impE disjE)
  assume "r \<noteq> Inr () \<and> roll s s'"
  then show ?thesis by (simp add: roll_def)
next
  assume ack: "acked_store env s r s'"
  then obtain rec st where box: "FMsg ServerPairFinalize \<in> set (inbox s)"
    and st: "c_records st = c_records (pstore s)" "(client_store_ok (pstore s) \<longrightarrow> client_store_ok st)"
    and fresh: "fresh_record env s rec"
    and s': "pstore s' = fst (replace_record_for_server_id rec (protected_ids env) st)"
    by (auto simp: acked_store_def)
  have ok: "client_store_ok st" using assms(3) st by simp
  have len: "length (cr_psk rec) = PSK_SIZE" using fresh by (simp add: fresh_record_def)
  have "(cr_psk_id rec, rec) \<in> set (c_records (pstore s'))"
    unfolding s' by (rule replace_keeps [OF ok len]) (simp_all add: map_of_SomeD)
  moreover have "client_store_ok (pstore s')"
    unfolding s' by (rule ok_replace [OF ok len])
  ultimately have "record_by_psk_id (pstore s') (cr_psk_id rec) = Some rec"
    by (simp add: record_by_psk_id_def dict_ok_values [symmetric] client_store_ok_def)
  then show ?thesis using box fresh by blast
qed auto

theorem client_stores_on_ack_witness:
  "\<exists>s'. run_pairing_psk_client demo_env 1 (demo_pst [FMsg ServerPairFinalize] [] demo_client) = (Inr (), s') \<and>
     c_records (pstore s') \<noteq> []"
proof -
  have mem: "run_pairing_psk_client demo_env 1 \<in> client_exchanges demo_env"
    unfolding client_exchanges_def by blast
  obtain s' where run: "run_pairing_psk_client demo_env 1
      (demo_pst [FMsg ServerPairFinalize] [] demo_client) = (Inr (), s')"
    by (simp add: run_pairing_psk_client_def demo_pst_def demo_client_def finalize_client_def run_defs
        resolve_pairing_outcome_def psk_id_for_def PSK_SIZE_def replace_record_for_server_id_def
        store_record_def stale_for_def list_records_def client_save_def after_ok_def
        evict_over_capacity_def)
  have "client_store_ok demo_client"
    by (simp add: client_store_ok_def demo_client_def MIN_RECORD_CAPACITY_def)
  then obtain rec where "record_by_psk_id (pstore s') (cr_psk_id rec) = Some rec"
    using client_stores_on_ack [OF mem run] by (auto simp: demo_pst_def)
  then show ?thesis using run by (auto simp: record_by_psk_id_def)
qed

end
