(* ===== verification/Buffer_Tracker.thy ===== *)
theory Buffer_Tracker
  imports Prelude
begin

text \<open>
  The per-client buffer accounting of \<open>server/audio.py\<close>. Times are integers in microseconds and the
  clock reading of an operation is its argument \<open>now\<close> (\<open>time_until_ready\<close> reads the clock
  twice). A chunk's identity, which the code compares with \<open>is\<close>, is the number it was registered
  under.
\<close>

subsection \<open>State and operations\<close>

record chunk =
  chunk_id :: nat
  end_time_us :: int
  byte_count :: int
  duration_us :: int

record tracker =
  capacity_bytes :: int
  max_duration_us :: int
  buffered :: "chunk list"
  buffered_bytes :: int
  buffered_duration_us :: int
  completed :: "chunk list"
  output_delay_us :: int
  transmitting :: "nat option"
  oversize_logged :: bool
  next_id :: nat

definition TRANSMISSION_RECHECK_US :: int where "TRANSMISSION_RECHECK_US = 1000"

definition new_tracker :: "int \<Rightarrow> int \<Rightarrow> tracker" where
  "new_tracker capacity max_dur = \<lparr>capacity_bytes = capacity, max_duration_us = max_dur, buffered = [],
     buffered_bytes = 0, buffered_duration_us = 0, completed = [], output_delay_us = 0,
     transmitting = None, oversize_logged = False, next_id = 0\<rparr>"

definition completion_us :: "tracker \<Rightarrow> chunk \<Rightarrow> int" where
  "completion_us t c = end_time_us c - output_delay_us t"

text \<open>The two loops of \<open>prune_consumed\<close>: the first stops at the chunk being transmitted.\<close>

fun pop_completed :: "int \<Rightarrow> chunk list \<Rightarrow> tracker \<Rightarrow> tracker" where
  "pop_completed now [] t = t\<lparr>buffered := []\<rparr>"
| "pop_completed now (c # cs) t =
     (if completion_us t c \<le> now \<and> transmitting t \<noteq> Some (chunk_id c)
      then pop_completed now cs (t\<lparr>buffered_bytes := buffered_bytes t - byte_count c,
             buffered_duration_us := buffered_duration_us t - duration_us c,
             completed := completed t @ [c]\<rparr>)
      else t\<lparr>buffered := c # cs\<rparr>)"

definition drop_ended :: "int \<Rightarrow> tracker \<Rightarrow> tracker" where
  "drop_ended now t = t\<lparr>completed := dropWhile (\<lambda>c. end_time_us c \<le> now) (completed t)\<rparr>"

definition prune_consumed :: "int \<Rightarrow> tracker \<Rightarrow> tracker" where
  "prune_consumed now t = drop_ended now (pop_completed now (buffered t) t)"

definition set_output_delay :: "int \<Rightarrow> int \<Rightarrow> tracker \<Rightarrow> tracker" where
  "set_output_delay now v t =
     (if v = output_delay_us t then t
      else let cs = completed t @ buffered t in
        prune_consumed now (t\<lparr>output_delay_us := v, completed := [], buffered := cs,
          buffered_bytes := sum_list (map byte_count cs),
          buffered_duration_us := sum_list (map duration_us cs)\<rparr>))"

definition buffered_horizon_us :: "int \<Rightarrow> tracker \<Rightarrow> int \<times> tracker" where
  "buffered_horizon_us now t =
     (let t = prune_consumed now t in
      (if buffered t = [] then 0 else max (completion_us t (last (buffered t)) - now) 0, t))"

definition has_capacity_now :: "int \<Rightarrow> int \<Rightarrow> tracker \<Rightarrow> bool \<times> tracker" where
  "has_capacity_now now bytes_needed t =
     (if bytes_needed \<le> 0 then (True, t)
      else let t = prune_consumed now t in (buffered_bytes t + bytes_needed \<le> capacity_bytes t, t))"

definition has_duration_capacity :: "int \<Rightarrow> int \<Rightarrow> tracker \<Rightarrow> bool \<times> tracker" where
  "has_duration_capacity now needed t =
     (if max_duration_us t = 0 then (True, t)
      else if needed \<le> 0 then (True, t)
      else let t = prune_consumed now t in
        (buffered_duration_us t + needed \<le> max_duration_us t, t))"

definition time_until_duration_capacity :: "int \<Rightarrow> int \<Rightarrow> tracker \<Rightarrow> int \<times> tracker" where
  "time_until_duration_capacity now needed t =
     (if max_duration_us t = 0 then (0, t)
      else if needed \<le> 0 then (0, t)
      else let t = prune_consumed now t; projected = buffered_duration_us t + needed in
        (if projected \<le> max_duration_us t then 0 else projected - max_duration_us t, t))"

definition time_until_end_time_capacity :: "int \<Rightarrow> int \<Rightarrow> tracker \<Rightarrow> int \<times> tracker" where
  "time_until_end_time_capacity now end_us t =
     (if max_duration_us t = 0 then (0, t)
      else let t = prune_consumed now t; completion = end_us - output_delay_us t in
        if completion \<le> now then (0, t)
        else let latest = (if buffered t = [] then now
                           else max now (completion_us t (last (buffered t))));
                 horizon = max latest completion - now in
          (if horizon \<le> max_duration_us t then 0 else horizon - max_duration_us t, t))"

text \<open>The simulation loop of \<open>time_until_capacity\<close>.\<close>

fun capacity_wait :: "int \<Rightarrow> int \<Rightarrow> tracker \<Rightarrow> chunk list \<Rightarrow> int \<Rightarrow> int \<Rightarrow> int" where
  "capacity_wait now needed t [] wait vbytes = wait"
| "capacity_wait now needed t (c # cs) wait vbytes =
     (if vbytes + needed \<le> capacity_bytes t then wait
      else if transmitting t = Some (chunk_id c) then max wait TRANSMISSION_RECHECK_US
      else capacity_wait now needed t cs (max wait (completion_us t c - now)) (vbytes - byte_count c))"

definition time_until_capacity :: "int \<Rightarrow> int \<Rightarrow> tracker \<Rightarrow> int \<times> tracker" where
  "time_until_capacity now needed t =
     (if needed \<le> 0 then (0, t)
      else let t = prune_consumed now t in
        (capacity_wait now needed t (buffered t) 0 (buffered_bytes t), t))"

definition time_until_ready :: "int \<Rightarrow> int \<Rightarrow> int \<Rightarrow> int \<Rightarrow> int option \<Rightarrow> tracker \<Rightarrow> int \<times> tracker" where
  "time_until_ready now now' bytes_needed duration_needed end_us t =
     (let (byte_wait, t) = time_until_capacity now bytes_needed t;
          (duration_wait, t) = (case end_us of
             Some e \<Rightarrow> time_until_end_time_capacity now' e t
           | None \<Rightarrow> time_until_duration_capacity now' duration_needed t)
      in (max byte_wait duration_wait, t))"

definition register :: "int \<Rightarrow> int \<Rightarrow> int \<Rightarrow> tracker \<Rightarrow> chunk option \<times> tracker" where
  "register end_us bytes duration t =
     (if bytes \<le> 0 then (None, t)
      else let c = \<lparr>chunk_id = next_id t, end_time_us = end_us, byte_count = bytes, duration_us = duration\<rparr> in
        (Some c, t\<lparr>buffered := buffered t @ [c], buffered_bytes := buffered_bytes t + bytes,
           buffered_duration_us := buffered_duration_us t + duration,
           transmitting := Some (chunk_id c), next_id := Suc (next_id t)\<rparr>))"

definition finish_transmission :: "chunk \<Rightarrow> tracker \<Rightarrow> tracker" where
  "finish_transmission c t =
     (if transmitting t = Some (chunk_id c) then t\<lparr>transmitting := None\<rparr> else t)"

definition reset :: "tracker \<Rightarrow> tracker" where
  "reset t = t\<lparr>buffered := [], completed := [], buffered_bytes := 0, buffered_duration_us := 0,
     transmitting := None, oversize_logged := False\<rparr>"

lemmas tracker_op_defs [step_defs] =
  set_output_delay_def buffered_horizon_us_def has_capacity_now_def has_duration_capacity_def
  time_until_duration_capacity_def time_until_end_time_capacity_def time_until_capacity_def
  register_def finish_transmission_def reset_def

subsection \<open>The accounting invariant\<close>

definition tracker_ok :: "tracker \<Rightarrow> bool" where
  "tracker_ok t \<longleftrightarrow>
     buffered_bytes t = sum_list (map byte_count (buffered t)) \<and>
     buffered_duration_us t = sum_list (map duration_us (buffered t)) \<and>
     (\<forall>c\<in>set (completed t @ buffered t). 0 < byte_count c \<and> chunk_id c < next_id t) \<and>
     distinct (map chunk_id (completed t @ buffered t)) \<and>
     (\<forall>i. transmitting t = Some i \<longrightarrow> i \<in> chunk_id ` set (buffered t))"

datatype tracker_op =
    SetDelay int int | Horizon int | HasBytes int int | HasDuration int int
  | WaitDuration int int | WaitEnd int int | WaitBytes int int
  | WaitReady int int int int "int option"
  | Register int int int | Finish chunk | Reset | MarkOversize

fun tracker_step :: "tracker \<Rightarrow> tracker_op \<Rightarrow> tracker" where
  "tracker_step t (SetDelay now v) = set_output_delay now v t"
| "tracker_step t (Horizon now) = snd (buffered_horizon_us now t)"
| "tracker_step t (HasBytes now n) = snd (has_capacity_now now n t)"
| "tracker_step t (HasDuration now n) = snd (has_duration_capacity now n t)"
| "tracker_step t (WaitDuration now n) = snd (time_until_duration_capacity now n t)"
| "tracker_step t (WaitEnd now e) = snd (time_until_end_time_capacity now e t)"
| "tracker_step t (WaitBytes now n) = snd (time_until_capacity now n t)"
| "tracker_step t (WaitReady now now' n d e) = snd (time_until_ready now now' n d e t)"
| "tracker_step t (Register e n d) = snd (register e n d t)"
| "tracker_step t (Finish c) = finish_transmission c t"
| "tracker_step t Reset = reset t"
| "tracker_step t MarkOversize = t\<lparr>oversize_logged := True\<rparr>"

text \<open>Popping in one step: the prefix that is complete and not being transmitted.\<close>

definition done_at :: "int \<Rightarrow> tracker \<Rightarrow> chunk \<Rightarrow> bool" where
  "done_at now t c \<longleftrightarrow> completion_us t c \<le> now \<and> transmitting t \<noteq> Some (chunk_id c)"

lemma pop_completed_eq:
  "pop_completed now cs t =
     (let gone = takeWhile (done_at now t) cs in
      t\<lparr>buffered := dropWhile (done_at now t) cs,
        buffered_bytes := buffered_bytes t - sum_list (map byte_count gone),
        buffered_duration_us := buffered_duration_us t - sum_list (map duration_us gone),
        completed := completed t @ gone\<rparr>)"
proof (induction now cs t rule: pop_completed.induct)
  case (2 now c cs t)
  let ?t = "t\<lparr>buffered_bytes := buffered_bytes t - byte_count c,
             buffered_duration_us := buffered_duration_us t - duration_us c, completed := completed t @ [c]\<rparr>"
  have same: "done_at now ?t = done_at now t"
    by (rule ext) (simp add: done_at_def completion_us_def)
  show ?case
  proof (cases "done_at now t c")
    case True
    then show ?thesis using 2 by (simp add: done_at_def [of now t c] same Let_def algebra_simps)
  next
    case False
    then have "pop_completed now (c # cs) t = t\<lparr>buffered := c # cs\<rparr>"
      by (simp only: pop_completed.simps done_at_def [symmetric] if_False)
    then show ?thesis using False by (simp add: Let_def)
  qed
qed simp

lemma prune_fields:
  "buffered (prune_consumed now t) = dropWhile (done_at now t) (buffered t)"
  "buffered_bytes (prune_consumed now t) =
     buffered_bytes t - sum_list (map byte_count (takeWhile (done_at now t) (buffered t)))"
  "buffered_duration_us (prune_consumed now t) =
     buffered_duration_us t - sum_list (map duration_us (takeWhile (done_at now t) (buffered t)))"
  "completed (prune_consumed now t) = dropWhile (\<lambda>c. end_time_us c \<le> now)
     (completed t @ takeWhile (done_at now t) (buffered t))"
  "output_delay_us (prune_consumed now t) = output_delay_us t"
  "transmitting (prune_consumed now t) = transmitting t"
  "capacity_bytes (prune_consumed now t) = capacity_bytes t"
  "max_duration_us (prune_consumed now t) = max_duration_us t"
  "next_id (prune_consumed now t) = next_id t"
  "oversize_logged (prune_consumed now t) = oversize_logged t"
  by (simp_all add: prune_consumed_def drop_ended_def pop_completed_eq Let_def)

lemma sum_takeWhile: "sum_list (map f (takeWhile P xs)) + sum_list (map f (dropWhile P xs)) = (sum_list (map f xs) :: int)"
  by (metis map_append sum_list_append takeWhile_dropWhile_id)

lemma prune_chunks: "set (completed (prune_consumed now t) @ buffered (prune_consumed now t)) \<subseteq>
   set (completed t @ buffered t)"
  by (auto simp: prune_fields dest!: set_dropWhileD dest: set_takeWhileD)

lemma prune_distinct:
  assumes "distinct (map chunk_id (completed t @ buffered t))"
  shows "distinct (map chunk_id (completed (prune_consumed now t) @ buffered (prune_consumed now t)))"
proof -
  let ?all = "(completed t @ takeWhile (done_at now t) (buffered t)) @ dropWhile (done_at now t) (buffered t)"
  have "distinct (map chunk_id ?all)" using assms by simp
  moreover have "distinct (map chunk_id (dropWhile P xs @ ys))" if "distinct (map chunk_id (xs @ ys))" for P xs ys
    using that by (induction xs) auto
  ultimately show ?thesis unfolding prune_fields by blast
qed

lemma prune_ok:
  assumes "tracker_ok t"
  shows "tracker_ok (prune_consumed now t)"
proof -
  have tr: "i \<in> chunk_id ` set (dropWhile (done_at now t) (buffered t))"
    if "transmitting t = Some i" for i
  proof -
    have "i \<in> chunk_id ` set (buffered t)" using assms that by (simp add: tracker_ok_def)
    then obtain c where c: "c \<in> set (buffered t)" "chunk_id c = i" by blast
    have "c \<notin> set (takeWhile (done_at now t) (buffered t))"
      using that c(2) by (auto simp: done_at_def dest: set_takeWhileD)
    then show ?thesis using c by (metis Un_iff image_eqI set_append takeWhile_dropWhile_id)
  qed
  show ?thesis
    using assms tr prune_distinct [of t now] prune_chunks [of now t]
      sum_takeWhile [of byte_count "done_at now t" "buffered t"]
      sum_takeWhile [of duration_us "done_at now t" "buffered t"]
    unfolding tracker_ok_def by (auto simp: prune_fields(2,3,6,9) prune_fields(1) [symmetric])
qed

lemma set_delay_ok:
  assumes "tracker_ok t"
  shows "tracker_ok (set_output_delay now v t)"
proof -
  have "tracker_ok (t\<lparr>output_delay_us := v, completed := [], buffered := completed t @ buffered t,
      buffered_bytes := sum_list (map byte_count (completed t @ buffered t)),
      buffered_duration_us := sum_list (map duration_us (completed t @ buffered t))\<rparr>)"
    using assms by (auto simp: tracker_ok_def)
  from prune_ok [OF this] show ?thesis
    using assms by (simp add: set_output_delay_def Let_def)
qed

lemma register_ok:
  assumes "tracker_ok t"
  shows "tracker_ok (snd (register e n d t))"
proof -
  have "next_id t \<notin> chunk_id ` set (completed t @ buffered t)"
    using assms by (auto simp: tracker_ok_def)
  then show ?thesis
    using assms by (auto simp: register_def Let_def tracker_ok_def less_Suc_eq)
qed

lemma query_ok:
  assumes "tracker_ok t"
  shows "tracker_ok (snd (buffered_horizon_us now t))" "tracker_ok (snd (has_capacity_now now n t))"
    "tracker_ok (snd (has_duration_capacity now n t))" "tracker_ok (snd (time_until_capacity now n t))"
    "tracker_ok (snd (time_until_end_time_capacity now n t))"
    "tracker_ok (snd (time_until_duration_capacity now n t))"
  using assms
  by (simp_all add: buffered_horizon_us_def has_capacity_now_def has_duration_capacity_def Let_def
      time_until_capacity_def time_until_end_time_capacity_def time_until_duration_capacity_def prune_ok)

lemma ready_ok: "tracker_ok t \<Longrightarrow> tracker_ok (snd (time_until_ready now now' n d e t))"
  using query_ok(4) [of t now n] query_ok(5,6)
  by (auto simp: time_until_ready_def split: prod.split option.split) (metis snd_conv)+

lemma flag_ok:
  assumes "tracker_ok t"
  shows "tracker_ok (finish_transmission c t)" "tracker_ok (reset t)"
    "tracker_ok (t\<lparr>oversize_logged := True\<rparr>)"
  using assms by (auto simp: finish_transmission_def reset_def tracker_ok_def)

lemma tracker_step_ok: "tracker_ok t \<Longrightarrow> tracker_ok (tracker_step t e)"
  by (cases e) (simp_all add: query_ok ready_ok flag_ok set_delay_ok register_ok)

lemma new_tracker_ok: "tracker_ok (new_tracker capacity max_dur)"
  by (simp add: tracker_ok_def new_tracker_def)

interpretation tracker_ops: invariant_machine tracker_step tracker_ok
  by unfold_locales (rule tracker_step_ok)

text \<open>C39. The byte and duration counters of a client's buffer are never out of step: after any
  sequence of operations from a fresh tracker, they are the sums over the chunks that count, every
  such chunk has a positive size, no chunk is counted twice, and the chunk being transmitted still
  counts.\<close>

theorem buffer_accounting:
  "buffered_bytes (foldl tracker_step (new_tracker capacity max_dur) ops) =
     sum_list (map byte_count (buffered (foldl tracker_step (new_tracker capacity max_dur) ops))) \<and>
   tracker_ok (foldl tracker_step (new_tracker capacity max_dur) ops)"
  using tracker_ops.run_inv [OF new_tracker_ok] by (simp add: tracker_ok_def)

subsection \<open>Waiting for capacity\<close>

lemma sum_bytes_nonneg: "\<forall>c\<in>set cs. 0 < byte_count c \<Longrightarrow> 0 \<le> sum_list (map byte_count cs)"
  by (induction cs) auto

lemma sum_dropWhile_le:
  assumes "\<forall>c\<in>set cs. 0 < byte_count c"
  shows "sum_list (map byte_count (dropWhile P cs)) \<le> sum_list (map byte_count cs)"
proof -
  have "0 \<le> sum_list (map byte_count (takeWhile P cs))"
    using assms by (intro sum_bytes_nonneg) (auto dest: set_takeWhileD)
  then show ?thesis using sum_takeWhile [of byte_count P cs] by simp
qed

lemma done_none: "transmitting t = None \<Longrightarrow> done_at now t c \<longleftrightarrow> completion_us t c \<le> now"
  by (simp add: done_at_def)

text \<open>The wait computed by the simulation is exact: at a later time \<open>now'\<close>, the chunks still counted
  leave room exactly when the wait is over.\<close>

lemma capacity_wait_exact:
  assumes "transmitting t = None" and "\<forall>c\<in>set cs. 0 < byte_count c" and "needed \<le> capacity_bytes t"
    and "0 \<le> wait" and "now + wait \<le> now'" and "vbytes = sum_list (map byte_count cs)"
  shows "sum_list (map byte_count (dropWhile (\<lambda>c. completion_us t c \<le> now') cs)) + needed \<le> capacity_bytes t
     \<longleftrightarrow> now + capacity_wait now needed t cs wait vbytes \<le> now'"
  using assms
proof (induction cs arbitrary: wait vbytes)
  case (Cons c cs)
  show ?case
  proof (cases "vbytes + needed \<le> capacity_bytes t")
    case True
    have "sum_list (map byte_count (dropWhile (\<lambda>c. completion_us t c \<le> now') (c # cs))) \<le> vbytes"
      unfolding Cons.prems(6) by (rule sum_dropWhile_le [OF Cons.prems(2)])
    then show ?thesis using True Cons.prems(5) by simp
  next
    case False
    show ?thesis
    proof (cases "completion_us t c \<le> now'")
      case True
      have "sum_list (map byte_count (dropWhile (\<lambda>c. completion_us t c \<le> now') cs)) + needed \<le> capacity_bytes t
        \<longleftrightarrow> now + capacity_wait now needed t cs (max wait (completion_us t c - now)) (vbytes - byte_count c) \<le> now'"
        by (rule Cons.IH) (use Cons.prems True in auto)
      then show ?thesis using False True Cons.prems(1) by simp
    next
      case late: False
      have mono: "w \<le> capacity_wait now needed t xs w b" for xs w b
        by (induction xs arbitrary: w b) (auto simp: Cons.prems(1) intro: order_trans [OF max.cobounded1])
      have "now' < now + capacity_wait now needed t (c # cs) wait vbytes"
        using False late Cons.prems(1) mono [of "max wait (completion_us t c - now)" cs "vbytes - byte_count c"]
        by simp
      moreover have "\<not> sum_list (map byte_count (dropWhile (\<lambda>c. completion_us t c \<le> now') (c # cs))) + needed
          \<le> capacity_bytes t"
        using False late Cons.prems(6) by simp
      ultimately show ?thesis by simp
    qed
  qed
qed auto

text \<open>With no chunk in transmission, the wait \<open>time_until_capacity\<close> reports for a chunk that can fit
  is exact: at any later time the buffer accepts the chunk if and only if that wait is over.\<close>

theorem capacity_wait_is_exact:
  assumes "tracker_ok t" and "transmitting t = None" and "0 < n" and "n \<le> capacity_bytes t" and "now \<le> now'"
  shows "fst (has_capacity_now now' n (snd (time_until_capacity now n t))) \<longleftrightarrow>
    now + fst (time_until_capacity now n t) \<le> now'"
proof -
  let ?u = "prune_consumed now t"
  have ok: "tracker_ok ?u" "tracker_ok (prune_consumed now' ?u)" using assms(1) prune_ok by blast+
  have d: "done_at now' ?u = (\<lambda>c. completion_us ?u c \<le> now')"
    using assms(2) by (auto simp: done_at_def prune_fields)
  have "sum_list (map byte_count (dropWhile (\<lambda>c. completion_us ?u c \<le> now') (buffered ?u))) + n \<le> capacity_bytes ?u
     \<longleftrightarrow> now + capacity_wait now n ?u (buffered ?u) 0 (buffered_bytes ?u) \<le> now'"
    by (rule capacity_wait_exact)
       (use assms ok(1) in \<open>auto simp: prune_fields(6,7) tracker_ok_def\<close>)
  moreover have "buffered_bytes (prune_consumed now' ?u) =
      sum_list (map byte_count (dropWhile (\<lambda>c. completion_us ?u c \<le> now') (buffered ?u)))"
    using ok(2) unfolding tracker_ok_def prune_fields(1) [of now' ?u] d by blast
  ultimately show ?thesis
    using assms(3) by (simp add: has_capacity_now_def time_until_capacity_def Let_def prune_fields(7))
qed

definition demo_tracker :: tracker where
  "demo_tracker = snd (register 900 40 500 (snd (register 500 60 500 (new_tracker 100 0))))"

lemma demo_tracker_ok: "tracker_ok (demo_tracker\<lparr>transmitting := None\<rparr>)"
  by (simp add: demo_tracker_def register_def new_tracker_def tracker_ok_def Let_def)

theorem capacity_wait_is_exact_witness:
  "fst (time_until_capacity 100 50 (demo_tracker\<lparr>transmitting := None\<rparr>)) = 400 \<and>
   fst (has_capacity_now 500 50 (snd (time_until_capacity 100 50 (demo_tracker\<lparr>transmitting := None\<rparr>))))"
proof -
  have w: "fst (time_until_capacity 100 50 (demo_tracker\<lparr>transmitting := None\<rparr>)) = 400"
    by (simp add: demo_tracker_def register_def new_tracker_def Let_def time_until_capacity_def
        prune_consumed_def drop_ended_def completion_us_def)
  then show ?thesis
    using capacity_wait_is_exact [OF demo_tracker_ok, of 50 100 500]
    by (simp add: demo_tracker_def register_def new_tracker_def Let_def)
qed

definition raises_bytes :: "tracker_op \<Rightarrow> bool" where
  "raises_bytes e \<longleftrightarrow> (case e of SetDelay _ _ \<Rightarrow> True | Register _ _ _ \<Rightarrow> True | _ \<Rightarrow> False)"

lemma prune_bytes_le:
  assumes "tracker_ok t"
  shows "buffered_bytes (prune_consumed now t) \<le> buffered_bytes t"
proof -
  have "0 \<le> sum_list (map byte_count (takeWhile (done_at now t) (buffered t)))"
    using assms by (intro sum_bytes_nonneg) (auto simp: tracker_ok_def dest: set_takeWhileD)
  then show ?thesis by (simp add: prune_fields)
qed

lemma bytes_nonneg: "tracker_ok t \<Longrightarrow> 0 \<le> buffered_bytes t"
  using sum_bytes_nonneg [of "buffered t"] by (auto simp: tracker_ok_def)

lemma query_bytes_le:
  assumes "tracker_ok t"
  shows "buffered_bytes (snd (buffered_horizon_us now t)) \<le> buffered_bytes t"
    "buffered_bytes (snd (has_capacity_now now n t)) \<le> buffered_bytes t"
    "buffered_bytes (snd (has_duration_capacity now n t)) \<le> buffered_bytes t"
    "buffered_bytes (snd (time_until_capacity now n t)) \<le> buffered_bytes t"
    "buffered_bytes (snd (time_until_end_time_capacity now n t)) \<le> buffered_bytes t"
    "buffered_bytes (snd (time_until_duration_capacity now n t)) \<le> buffered_bytes t"
  using prune_bytes_le [OF assms]
  by (simp_all add: buffered_horizon_us_def has_capacity_now_def has_duration_capacity_def Let_def
      time_until_capacity_def time_until_end_time_capacity_def time_until_duration_capacity_def)

lemma ready_bytes_le:
  assumes "tracker_ok t"
  shows "buffered_bytes (snd (time_until_ready now now' n d e t)) \<le> buffered_bytes t"
proof -
  let ?u = "snd (time_until_capacity now n t)"
  have "buffered_bytes (snd (time_until_end_time_capacity now' x ?u)) \<le> buffered_bytes t"
    "buffered_bytes (snd (time_until_duration_capacity now' x ?u)) \<le> buffered_bytes t" for x
    using query_bytes_le(4) [OF assms, of now n] query_bytes_le(5,6) [OF query_ok(4) [OF assms, of now n], of now' x]
    by linarith+
  then show ?thesis
    by (auto simp: time_until_ready_def split: prod.split option.split) (metis snd_conv)+
qed

lemma steady_bytes_le:
  assumes "tracker_ok t" "\<not> raises_bytes e"
  shows "buffered_bytes (tracker_step t e) \<le> buffered_bytes t"
  using assms bytes_nonneg [OF assms(1)]
  by (cases e) (simp_all add: raises_bytes_def query_bytes_le ready_bytes_le finish_transmission_def reset_def)

text \<open>A chunk registered after \<open>has_capacity_now\<close> accepted its size keeps the buffer within the
  client's capacity; and no operation other than registering a chunk or changing the output delay
  ever raises the byte count.\<close>

theorem capacity_respected:
  assumes "tracker_ok t" and "has_capacity_now now n t = (True, u)" and "buffered_bytes t \<le> capacity_bytes t"
    and "list_all (\<lambda>e. \<not> raises_bytes e) ops"
  shows "buffered_bytes (foldl tracker_step (snd (register e n d u)) ops) \<le> capacity_bytes t"
proof -
  have u: "tracker_ok u" using query_ok(2) [OF assms(1), of now n] assms(2) by simp
  have "buffered_bytes (snd (register e n d u)) \<le> capacity_bytes t"
    using assms(2,3)
    by (auto simp: has_capacity_now_def register_def Let_def prune_fields(7) split: if_splits)
  moreover have "buffered_bytes (foldl tracker_step v ops) \<le> buffered_bytes v" if "tracker_ok v" for v
    using that assms(4)
    by (induction ops arbitrary: v) (auto intro: order_trans steady_bytes_le tracker_step_ok)
  ultimately show ?thesis
    using register_ok [OF u] order_trans by blast
qed

theorem capacity_respected_witness:
  "buffered_bytes (foldl tracker_step (snd (register 900 30 500 (demo_tracker\<lparr>transmitting := None\<rparr>)))
     [Horizon 400]) \<le> 150"
proof -
  have "has_capacity_now 100 30 (demo_tracker\<lparr>transmitting := None, capacity_bytes := 150\<rparr>) =
      (True, demo_tracker\<lparr>transmitting := None, capacity_bytes := 150\<rparr>)"
    by (simp add: demo_tracker_def register_def new_tracker_def Let_def has_capacity_now_def
        prune_consumed_def drop_ended_def completion_us_def)
  moreover have "tracker_ok (demo_tracker\<lparr>transmitting := None, capacity_bytes := 150\<rparr>)"
    using demo_tracker_ok by (simp add: tracker_ok_def)
  ultimately have "buffered_bytes (foldl tracker_step (snd (register 900 30 500
      (demo_tracker\<lparr>transmitting := None, capacity_bytes := 150\<rparr>))) [Horizon 400]) \<le> 150"
    using capacity_respected [of "demo_tracker\<lparr>transmitting := None, capacity_bytes := 150\<rparr>" 100 30 _ "[Horizon 400]" 900 500]
    by (simp add: raises_bytes_def demo_tracker_def register_def new_tracker_def Let_def)
  then show ?thesis
    by (simp add: demo_tracker_def register_def new_tracker_def Let_def buffered_horizon_us_def
        prune_consumed_def drop_ended_def completion_us_def)
qed

text \<open>A prefix the first predicate drops does not matter to the second when it implies it.\<close>

lemma drop_take_prefix:
  assumes "\<And>x. x \<in> set ps \<Longrightarrow> P x"
  shows "dropWhile P (ps @ xs) = dropWhile P xs" "takeWhile P (ps @ xs) = ps @ takeWhile P xs"
  using assms by (induction ps) auto

text \<open>Recounting and pruning with no chunk in transmission, as one record update.\<close>

lemma sum_dropWhile_diff:
  "sum_list (map f xs) - sum_list (map f (takeWhile P xs)) = (sum_list (map f (dropWhile P xs)) :: int)"
  using sum_takeWhile [of f P xs] by simp

lemma done_fun: "transmitting u = None \<Longrightarrow> done_at now u = (\<lambda>c. end_time_us c - output_delay_us u \<le> now)"
  by (auto simp: done_at_def completion_us_def)

lemma prune_recount:
  assumes "transmitting u = None"
  shows "prune_consumed now (u\<lparr>output_delay_us := d, completed := [], buffered := cs,
      buffered_bytes := sum_list (map byte_count cs), buffered_duration_us := sum_list (map duration_us cs)\<rparr>) =
    u\<lparr>output_delay_us := d,
      completed := dropWhile (\<lambda>c. end_time_us c \<le> now) (takeWhile (\<lambda>c. end_time_us c - d \<le> now) cs),
      buffered := dropWhile (\<lambda>c. end_time_us c - d \<le> now) cs,
      buffered_bytes := sum_list (map byte_count (dropWhile (\<lambda>c. end_time_us c - d \<le> now) cs)),
      buffered_duration_us := sum_list (map duration_us (dropWhile (\<lambda>c. end_time_us c - d \<le> now) cs))\<rparr>"
  by (rule tracker.equality) (simp_all add: prune_fields done_fun assms sum_dropWhile_diff)

lemma prune_idle:
  assumes "transmitting t = None" "tracker_ok t"
  shows "prune_consumed now t = t\<lparr>
      completed := dropWhile (\<lambda>c. end_time_us c \<le> now)
        (completed t @ takeWhile (\<lambda>c. end_time_us c - output_delay_us t \<le> now) (buffered t)),
      buffered := dropWhile (\<lambda>c. end_time_us c - output_delay_us t \<le> now) (buffered t),
      buffered_bytes := sum_list (map byte_count
        (dropWhile (\<lambda>c. end_time_us c - output_delay_us t \<le> now) (buffered t))),
      buffered_duration_us := sum_list (map duration_us
        (dropWhile (\<lambda>c. end_time_us c - output_delay_us t \<le> now) (buffered t)))\<rparr>"
  using assms(2)
  by (intro tracker.equality)
     (simp_all add: prune_fields done_fun assms(1) sum_dropWhile_diff tracker_ok_def)

text \<open>Changing the output delay is reversible: raising or lowering it and setting it back at the
  same instant leaves exactly the accounting that pruning at that instant gives; chunks that an
  earlier delay completed count again only as long as the delay calls for it.\<close>

theorem delay_change_reversible:
  assumes "\<forall>c\<in>set (completed t). done_at now t c" and "tracker_ok t" and "transmitting t = None"
    and "0 \<le> output_delay_us t" and "v \<noteq> output_delay_us t"
  shows "set_output_delay now (output_delay_us t) (set_output_delay now v t) = prune_consumed now t"
proof -
  let ?d = "output_delay_us t"
  let ?all = "completed t @ buffered t"
  let ?ended = "\<lambda>c. end_time_us c \<le> now"
  let ?dv = "\<lambda>c. end_time_us c - v \<le> now"
  let ?dd = "\<lambda>c. end_time_us c - ?d \<le> now"
  let ?cs = "dropWhile ?ended (takeWhile ?dv ?all) @ dropWhile ?dv ?all"
  obtain ps where ps: "?all = ps @ ?cs" "\<forall>c\<in>set ps. ?ended c"
    by (metis append.assoc set_takeWhileD takeWhile_dropWhile_id)
  have pd: "?dd c" if "c \<in> set ps" for c using ps(2) that assms(4) by force
  have cd: "?dd c" if "c \<in> set (completed t)" for c
    using assms(1,3) that by (simp add: done_at_def completion_us_def)
  have front: "dropWhile ?dd ?cs = dropWhile ?dd (buffered t)"
    using drop_take_prefix(1) [of ps ?dd ?cs] drop_take_prefix(1) [of "completed t" ?dd "buffered t"] pd cd ps(1)
    by metis
  have tail_eq: "dropWhile ?ended (takeWhile ?dd ?cs) = dropWhile ?ended (completed t @ takeWhile ?dd (buffered t))"
    using drop_take_prefix(2) [of ps ?dd ?cs] drop_take_prefix(2) [of "completed t" ?dd "buffered t"] pd cd ps
      drop_take_prefix(1) [of ps ?ended "takeWhile ?dd ?cs"] by metis
  have "set_output_delay now v t = t\<lparr>output_delay_us := v,
      completed := dropWhile ?ended (takeWhile ?dv ?all), buffered := dropWhile ?dv ?all,
      buffered_bytes := sum_list (map byte_count (dropWhile ?dv ?all)),
      buffered_duration_us := sum_list (map duration_us (dropWhile ?dv ?all))\<rparr>" (is "_ = ?t2")
    using assms(5) by (simp only: set_output_delay_def Let_def if_False prune_recount [OF assms(3)])
  moreover have "set_output_delay now ?d ?t2 = t\<lparr>
      completed := dropWhile ?ended (takeWhile ?dd ?cs), buffered := dropWhile ?dd ?cs,
      buffered_bytes := sum_list (map byte_count (dropWhile ?dd ?cs)),
      buffered_duration_us := sum_list (map duration_us (dropWhile ?dd ?cs))\<rparr>"
    using assms(5) prune_recount [where u = ?t2 and d = ?d and cs = ?cs and now = now] assms(3)
    by (simp add: set_output_delay_def Let_def)
  ultimately show ?thesis
    by (simp only: prune_idle [OF assms(3,2)] front tail_eq)
qed

theorem delay_change_reversible_witness:
  "set_output_delay 550 0 (set_output_delay 550 600 (demo_tracker\<lparr>transmitting := None\<rparr>)) =
     prune_consumed 550 (demo_tracker\<lparr>transmitting := None\<rparr>)"
proof -
  have "output_delay_us (demo_tracker\<lparr>transmitting := None\<rparr>) = 0"
    "completed (demo_tracker\<lparr>transmitting := None\<rparr>) = []"
    by (simp_all add: demo_tracker_def register_def new_tracker_def Let_def)
  then show ?thesis
    using delay_change_reversible [of "demo_tracker\<lparr>transmitting := None\<rparr>" 550 600] demo_tracker_ok by simp
qed

end
