(* ===== verification/Negotiation.thy ===== *)
theory Negotiation
  imports Prelude "HOL-Library.Sublist"
begin

text \<open>
  Role negotiation (\<open>server/roles/negotiation.py\<close>), the role registry
  (\<open>server/roles/registry.py\<close>) and the role-id helpers of \<open>models/types.py\<close>. The factories and
  support parsers a role module registers are opaque values.
\<close>

subsection \<open>Role ids and the registry\<close>

definition role_family :: "string \<Rightarrow> string" where
  "role_family role_id = takeWhile (\<lambda>c. c \<noteq> CHR ''@'') role_id"

definition has_role_family :: "string \<Rightarrow> string list \<Rightarrow> bool" where
  "has_role_family family supported = list_ex (\<lambda>r. role_family r = family) supported"

definition has_role :: "string \<Rightarrow> string list \<Rightarrow> bool" where
  "has_role role_id supported = has_role_family (role_family role_id) supported"

record ('f, 'g, 'p) registry =
  role_factories :: "(string, 'f) dict"
  group_role_factories :: "(string, 'g) dict"
  pairing_required :: "string list"
  role_support_specs :: "(string, 'p) dict"

definition register_role :: "string \<Rightarrow> 'f \<Rightarrow> bool \<Rightarrow> ('f, 'g, 'p) registry \<Rightarrow> ('f, 'g, 'p) registry" where
  "register_role role_id factory requires_pairing reg =
     reg\<lparr>role_factories := dset role_id factory (role_factories reg),
         pairing_required := (if requires_pairing then List.insert role_id (pairing_required reg)
                              else removeAll role_id (pairing_required reg))\<rparr>"

definition role_requires_pairing :: "('f, 'g, 'p) registry \<Rightarrow> string \<Rightarrow> bool" where
  "role_requires_pairing reg role_id \<longleftrightarrow> role_id \<in> set (pairing_required reg)"

definition create_role :: "('c \<Rightarrow> 'r, 'g, 'p) registry \<Rightarrow> string \<Rightarrow> 'c \<Rightarrow> 'r option" where
  "create_role reg role_id client =
     (case dget (role_factories reg) role_id of None \<Rightarrow> None | Some factory \<Rightarrow> Some (factory client))"

definition register_role_support_spec :: "string \<Rightarrow> 'p \<Rightarrow> ('f, 'g, 'p) registry \<Rightarrow> ('f, 'g, 'p) registry" where
  "register_role_support_spec family spec reg =
     reg\<lparr>role_support_specs := dset family spec (role_support_specs reg)\<rparr>"

definition register_group_role :: "string \<Rightarrow> 'g \<Rightarrow> ('f, 'g, 'p) registry \<Rightarrow> ('f, 'g, 'p) registry" where
  "register_group_role family factory reg =
     reg\<lparr>group_role_factories := dset family factory (group_role_factories reg)\<rparr>"

definition create_group_roles :: "('f, 'c \<Rightarrow> 'r, 'p) registry \<Rightarrow> 'c \<Rightarrow> (string, 'r) dict" where
  "create_group_roles reg grp = map (\<lambda>(family, factory). (family, factory grp)) (group_role_factories reg)"


subsection \<open>Negotiation\<close>

definition family_order :: "string \<Rightarrow> nat" where
  "family_order family = (if family = ''player'' then 0 else if family = ''controller'' then 1 else 2)"

definition LEGACY_ROLE_IDS :: "string list" where "LEGACY_ROLE_IDS = [''visualizer@_draft_r1'']"

definition sort_role_ids :: "string list \<Rightarrow> string list" where
  "sort_role_ids ids = sort_key (\<lambda>r. family_order (role_family r)) ids"

definition spec_families :: "string list \<Rightarrow> string list \<Rightarrow> string list" where
  "spec_families factories supported =
     map role_family (filter (\<lambda>r. r \<in> set factories \<and> r \<notin> set LEGACY_ROLE_IDS) supported)"

fun negotiate_loop :: "string list \<Rightarrow> string list \<Rightarrow> bool \<Rightarrow> string list \<Rightarrow> (string, string) dict
    \<Rightarrow> (string, string) dict" where
  "negotiate_loop factories fams strict [] active = active"
| "negotiate_loop factories fams strict (r # rs) active =
     (if r \<in> set LEGACY_ROLE_IDS \<and> (strict \<or> role_family r \<in> set fams)
      then negotiate_loop factories fams strict rs active
      else if dget active (role_family r) \<noteq> None then negotiate_loop factories fams strict rs active
      else if r \<in> set factories
        then negotiate_loop factories fams strict rs (dset (role_family r) r active)
      else negotiate_loop factories fams strict rs active)"

definition negotiate_roles :: "string list \<Rightarrow> string list \<Rightarrow> bool \<Rightarrow> string list" where
  "negotiate_roles factories supported strict =
     sort_role_ids (dvalues (negotiate_loop factories (spec_families factories supported) strict supported []))"

text \<open>The roles a client may get, read off the specification in the docstring.\<close>

definition eligible :: "string list \<Rightarrow> string list \<Rightarrow> bool \<Rightarrow> string \<Rightarrow> bool" where
  "eligible factories fams strict r \<longleftrightarrow> r \<in> set factories \<and>
     \<not> (r \<in> set LEGACY_ROLE_IDS \<and> (strict \<or> role_family r \<in> set fams))"

text \<open>The first eligible role of each family, in client order.\<close>

fun first_per_family :: "string list \<Rightarrow> string list \<Rightarrow> string list" where
  "first_per_family seen [] = []"
| "first_per_family seen (r # rs) =
     (if role_family r \<in> set seen then first_per_family seen rs
      else r # first_per_family (role_family r # seen) rs)"

lemma negotiate_loop_eq:
  assumes "set seen = set (map fst active)"
  shows "map snd (negotiate_loop factories fams strict rs active) =
    map snd active @ first_per_family seen (filter (eligible factories fams strict) rs)"
  using assms
proof (induction rs arbitrary: seen active)
  case (Cons r rs)
  let ?legacy = "r \<in> set LEGACY_ROLE_IDS \<and> (strict \<or> role_family r \<in> set fams)"
  have mem: "dget active (role_family r) = None \<longleftrightarrow> role_family r \<notin> set seen"
    using Cons.prems by (simp add: map_of_eq_None_iff)
  have e: "eligible factories fams strict r \<longleftrightarrow> r \<in> set factories \<and> \<not> ?legacy"
    by (simp add: eligible_def)
  show ?case
  proof (cases "role_family r \<notin> set seen \<and> r \<in> set factories \<and> \<not> ?legacy")
    case True
    have "map snd (negotiate_loop factories fams strict rs (dset (role_family r) r active)) =
        map snd (dset (role_family r) r active) @
        first_per_family (role_family r # seen) (filter (eligible factories fams strict) rs)"
      using Cons.prems True mem by (intro Cons.IH) (auto simp: dset_append)
    moreover have "negotiate_loop factories fams strict (r # rs) active =
        negotiate_loop factories fams strict rs (dset (role_family r) r active)"
      using True mem by auto
    moreover have "dset (role_family r) r active = active @ [(role_family r, r)]"
      using True mem by (simp add: dset_append)
    ultimately show ?thesis using True e by (simp del: negotiate_loop.simps)
  next
    case False
    then have "negotiate_loop factories fams strict (r # rs) active = negotiate_loop factories fams strict rs active"
      "first_per_family seen (filter (eligible factories fams strict) (r # rs)) =
       first_per_family seen (filter (eligible factories fams strict) rs)"
      using mem e by auto
    then show ?thesis using Cons by simp
  qed
qed simp

lemma negotiate_roles_eq: "negotiate_roles factories supported strict =
    sort_role_ids (first_per_family []
      (filter (eligible factories (spec_families factories supported) strict) supported))"
  by (simp add: negotiate_roles_def negotiate_loop_eq [of "[]"])

lemma first_per_family_mem:
  "r \<in> set (first_per_family seen rs) \<longleftrightarrow>
    role_family r \<notin> set seen \<and> find (\<lambda>x. role_family x = role_family r) rs = Some r"
  by (induction seen rs rule: first_per_family.induct) auto

lemma find_filter: "find P (filter Q xs) = find (\<lambda>x. Q x \<and> P x) xs"
  by (induction xs) auto

lemma first_per_family_families: "role_family ` set (first_per_family seen rs) = role_family ` set rs - set seen"
  by (induction seen rs rule: first_per_family.induct) auto

lemma first_per_family_distinct: "distinct (map role_family (first_per_family seen rs))"
proof (induction seen rs rule: first_per_family.induct)
  case (2 seen r rs)
  then show ?case using first_per_family_families [of "role_family r # seen" rs] by simp
qed simp
lemma sort_role_ids_set [simp]: "set (sort_role_ids ids) = set ids"
  by (simp add: sort_role_ids_def)

lemma sort_role_ids_sorted: "sorted (map (\<lambda>r. family_order (role_family r)) (sort_role_ids ids))"
  by (simp add: sort_role_ids_def)

lemma sort_role_ids_distinct: "distinct (map f (sort_role_ids ids)) \<longleftrightarrow> distinct (map f ids)"
  by (simp add: sort_role_ids_def distinct_map)

lemma negotiate_roles_mem: "r \<in> set (negotiate_roles factories supported strict) \<longleftrightarrow>
    find (\<lambda>x. eligible factories (spec_families factories supported) strict x \<and> role_family x = role_family r)
      supported = Some r"
  by (simp add: negotiate_roles_eq first_per_family_mem find_filter)

text \<open>The negotiated roles are, for each family, the first eligible role of the client's list and
  nothing else; at most one role of a family is activated, the list is in family order, and every
  family the client shares with the registry is there unless only a legacy wire could serve it.\<close>

theorem negotiation_first_choice:
  "let active = negotiate_roles factories supported strict;
       ok = eligible factories (spec_families factories supported) strict
   in (\<forall>r. r \<in> set active \<longleftrightarrow> find (\<lambda>x. ok x \<and> role_family x = role_family r) supported = Some r) \<and>
      distinct (map role_family active) \<and>
      sorted (map (\<lambda>r. family_order (role_family r)) active) \<and>
      role_family ` set active = role_family ` {r \<in> set supported. ok r}"
  using first_per_family_families [of "[]"]
  by (auto simp: Let_def negotiate_roles_eq first_per_family_mem find_filter sort_role_ids_distinct
      sort_role_ids_sorted first_per_family_distinct)

lemma first_per_family_id:
  "distinct (map role_family rs) \<Longrightarrow> role_family ` set rs \<inter> set seen = {} \<Longrightarrow> first_per_family seen rs = rs"
  by (induction seen rs rule: first_per_family.induct) auto

lemma sort_role_ids_id:
  "sorted (map (\<lambda>r. family_order (role_family r)) rs) \<Longrightarrow> sort_role_ids rs = rs"
  by (simp add: sort_role_ids_def sort_key_id_if_sorted)

lemma spec_families_mono: "set xs \<subseteq> set ys \<Longrightarrow> set (spec_families F xs) \<subseteq> set (spec_families F ys)"
  by (auto simp: spec_families_def)

lemma eligible_antimono:
  "set fams' \<subseteq> set fams \<Longrightarrow> eligible F fams strict r \<Longrightarrow> eligible F fams' strict r"
  by (auto simp: eligible_def)

text \<open>Negotiation is stable: offering the negotiated list again gives the same list, in the same
  order, so a reconnecting client that lists its active roles keeps them.\<close>

theorem negotiation_idempotent:
  "negotiate_roles factories (negotiate_roles factories supported strict) strict =
   negotiate_roles factories supported strict"
proof -
  let ?active = "negotiate_roles factories supported strict"
  let ?sub = "first_per_family [] (filter (eligible factories (spec_families factories supported) strict) supported)"
  have a: "?active = sort_role_ids ?sub" by (rule negotiate_roles_eq)
  have el: "set ?sub \<subseteq> {r \<in> set supported. eligible factories (spec_families factories supported) strict r}"
    by (auto simp: first_per_family_mem find_filter find_Some_iff)
  then have "set ?active \<subseteq> set supported" by (auto simp: a)
  note fams = spec_families_mono [OF this, of factories]
  have "eligible factories (spec_families factories ?active) strict r" if "r \<in> set ?active" for r
    using eligible_antimono [OF fams] that el by (auto simp: a)
  then have "filter (eligible factories (spec_families factories ?active) strict) ?active = ?active"
    by (metis filter_True)
  moreover have "distinct (map role_family ?active)"
    by (simp add: a sort_role_ids_distinct first_per_family_distinct)
  moreover have "sorted (map (\<lambda>r. family_order (role_family r)) ?active)"
    by (simp add: a sort_role_ids_sorted)
  ultimately have "sort_role_ids (first_per_family []
      (filter (eligible factories (spec_families factories ?active) strict) ?active)) = ?active"
    by (simp only: first_per_family_id sort_role_ids_id set_map list.set Int_empty_right)
  then show ?thesis by (simp only: negotiate_roles_eq [of factories ?active])
qed

end
