(* ===== verification/Floats.thy ===== *)
theory Floats
  imports Complex_Main Prelude
begin

text \<open>
  Floating point. A float operation is the exact operation on rationals followed by a rounding
  \<open>fl\<close>, an argument of the definitions that compute with floats; infinities and NaN are not
  modelled. A statement about exact arithmetic takes \<open>fl\<close> to be \<open>exact\<close>.
\<close>

text \<open>Exact arithmetic: the rounding is the identity.\<close>

definition exact :: "rat \<Rightarrow> rat" where [simp]: "exact x = x"

text \<open>IEEE double precision rounds to nearest, with a relative error of at most \<open>2^-53\<close> while a result is
  neither subnormal nor too large; a statement that holds for floats assumes no more than this.\<close>

definition float_rounding :: "(rat \<Rightarrow> rat) \<Rightarrow> bool" where
  "float_rounding fl \<longleftrightarrow> (\<forall>x. \<bar>fl x - x\<bar> \<le> \<bar>x\<bar> / 2 ^ 53)"

lemma exact_rounding: "float_rounding exact"
  by (simp add: float_rounding_def)

lemma rounding_bounds:
  assumes "float_rounding fl" "0 \<le> x"
  shows "x * (1 - 1 / 2 ^ 53) \<le> fl x" "fl x \<le> x * (1 + 1 / 2 ^ 53)"
proof -
  have "\<bar>fl x - x\<bar> \<le> x / 2 ^ 53" using assms by (metis float_rounding_def abs_of_nonneg)
  then show "x * (1 - 1 / 2 ^ 53) \<le> fl x" "fl x \<le> x * (1 + 1 / 2 ^ 53)"
    unfolding abs_le_iff by (simp_all add: algebra_simps)
qed

text \<open>Python's \<open>round\<close>: to the nearest integer, ties to the even one.\<close>

definition py_round :: "rat \<Rightarrow> int" where
  "py_round x =
     (let n = \<lfloor>x\<rfloor>; r = x - of_int n
      in if r < 1 / 2 then n else if r > 1 / 2 then n + 1 else if even n then n else n + 1)"

lemma py_round_near: "\<bar>of_int (py_round x) - x\<bar> \<le> 1 / 2"
proof -
  have "of_int \<lfloor>x\<rfloor> \<le> x" "x < of_int \<lfloor>x\<rfloor> + 1" by linarith+
  then show ?thesis
    by (simp only: py_round_def Let_def of_int_add of_int_1 split: if_split, intro conjI impI; linarith)
qed

lemma py_round_int_near:
  assumes "\<bar>x - of_int n\<bar> < 1" shows "\<bar>py_round x - n\<bar> \<le> 1"
proof -
  have "\<bar>of_int (py_round x - n) :: rat\<bar> < 2"
    unfolding of_int_diff using py_round_near [of x] assms by linarith
  then have "\<bar>py_round x - n\<bar> < 2" by linarith
  then show ?thesis by simp
qed

end
