(* ===== verification/Time_Sync.thy ===== *)
theory Time_Sync
  imports Floats
begin

text \<open>
  The client's clock filter, \<open>client/time_sync.py\<close>: a Kalman filter over the offset and the drift of
  the server's clock. A float operation is the exact operation on rationals followed by the rounding
  \<open>fl\<close>; overflow to infinity is not modelled. The one infinity the code uses, the initial offset
  covariance, is \<open>None\<close>. Theorems that take \<open>fl\<close> to be the identity are about exact arithmetic.
\<close>

subsection \<open>State\<close>

definition ADAPTIVE_FORGETTING_CUTOFF :: rat where "ADAPTIVE_FORGETTING_CUTOFF = 3"
definition MAX_ERROR_SCALE :: rat where "MAX_ERROR_SCALE = 1 / 2"
definition DRIFT_SIGNIFICANCE_THRESHOLD_SQUARED :: rat where "DRIFT_SIGNIFICANCE_THRESHOLD_SQUARED = 2 * 2"

record time_element =
  te_last_update :: int
  te_offset :: rat
  te_drift :: rat
  te_use_drift :: bool

definition new_element :: time_element where
  "new_element = \<lparr>te_last_update = 0, te_offset = 0, te_drift = 0, te_use_drift = False\<rparr>"

record time_filter =
  last_update :: int
  tf_count :: nat
  tf_offset :: rat
  tf_drift :: rat
  offset_cov :: "rat option"
  offset_drift_cov :: rat
  drift_cov :: rat
  process_variance :: rat
  drift_process_variance :: rat
  forget_variance_factor :: rat
  time_elem :: time_element

definition new_filter :: "(rat \<Rightarrow> rat) \<Rightarrow> rat \<Rightarrow> rat \<Rightarrow> rat \<Rightarrow> time_filter" where
  "new_filter fl process_sd forget drift_sd =
     \<lparr>last_update = 0, tf_count = 0, tf_offset = 0, tf_drift = 0, offset_cov = None,
      offset_drift_cov = 0, drift_cov = 0, process_variance = fl (process_sd * process_sd),
      drift_process_variance = fl (drift_sd * drift_sd),
      forget_variance_factor = fl (forget * forget), time_elem = new_element\<rparr>"

definition reset_filter :: "time_filter \<Rightarrow> time_filter" where
  "reset_filter f = f\<lparr>tf_count := 0, last_update := 0, tf_offset := 0, tf_drift := 0, offset_cov := None,
     offset_drift_cov := 0, drift_cov := 0, time_elem := new_element\<rparr>"

definition is_synchronized :: "time_filter \<Rightarrow> bool" where
  "is_synchronized f \<longleftrightarrow> 2 \<le> tf_count f \<and> offset_cov f \<noteq> None"

subsection \<open>The update\<close>

definition snapshot :: "bool \<Rightarrow> time_filter \<Rightarrow> time_filter" where
  "snapshot use f = f\<lparr>time_elem := \<lparr>te_last_update = last_update f, te_offset = tf_offset f,
     te_drift = tf_drift f, te_use_drift = use\<rparr>\<rparr>"

definition first_measurement :: "(rat \<Rightarrow> rat) \<Rightarrow> int \<Rightarrow> rat \<Rightarrow> time_filter \<Rightarrow> time_filter" where
  "first_measurement fl m var f =
     snapshot False (f\<lparr>tf_count := tf_count f + 1, tf_offset := fl (of_int m), offset_cov := Some var, tf_drift := 0\<rparr>)"

definition second_measurement :: "(rat \<Rightarrow> rat) \<Rightarrow> int \<Rightarrow> rat \<Rightarrow> rat \<Rightarrow> time_filter \<Rightarrow> time_filter" where
  "second_measurement fl m var dt f =
     snapshot False (f\<lparr>tf_count := tf_count f + 1,
       tf_drift := fl (fl (fl (of_int m) - tf_offset f) / dt), tf_offset := fl (of_int m),
       drift_cov := fl (fl (the (offset_cov f) + var) / fl (dt * dt)), offset_cov := Some var\<rparr>)"

text \<open>A covariance matrix: offset, offset-drift and drift.\<close>

type_synonym cov = "rat \<times> rat \<times> rat"

definition predict_cov :: "(rat \<Rightarrow> rat) \<Rightarrow> rat \<Rightarrow> time_filter \<Rightarrow> cov" where
  "predict_cov fl dt f =
     (let oc = the (offset_cov f); odc = offset_drift_cov f; dc = drift_cov f
      in (fl (fl (fl (oc + fl (fl (2 * odc) * dt)) + fl (dc * fl (dt * dt))) + fl (dt * process_variance f)),
          fl (fl (odc + fl (dc * dt)) + 0),
          fl (dc + fl (dt * drift_process_variance f))))"

definition forget :: "(rat \<Rightarrow> rat) \<Rightarrow> rat \<Rightarrow> cov \<Rightarrow> cov" where
  "forget fl k c = (case c of (oc, odc, dc) \<Rightarrow> (fl (oc * k), fl (odc * k), fl (dc * k)))"

definition kalman :: "(rat \<Rightarrow> rat) \<Rightarrow> rat \<Rightarrow> rat \<Rightarrow> rat \<Rightarrow> cov \<Rightarrow> time_filter \<Rightarrow> time_filter" where
  "kalman fl offset residual var c f =
     (case c of (oc, odc, dc) \<Rightarrow>
        (let uncertainty = fl (1 / max (fl (oc + var)) (fl (1 / 1000000000)));
             offset_gain = fl (oc * uncertainty);
             drift_gain = fl (odc * uncertainty);
             drift = fl (tf_drift f + fl (drift_gain * residual));
             dc' = fl (dc - fl (drift_gain * odc))
         in snapshot (fl (drift * drift) > fl (DRIFT_SIGNIFICANCE_THRESHOLD_SQUARED * dc'))
              (f\<lparr>tf_offset := fl (offset + fl (offset_gain * residual)), tf_drift := drift, drift_cov := dc',
                 offset_drift_cov := fl (odc - fl (drift_gain * oc)),
                 offset_cov := Some (fl (oc - fl (offset_gain * oc)))\<rparr>)))"

definition filter_update :: "(rat \<Rightarrow> rat) \<Rightarrow> int \<Rightarrow> int \<Rightarrow> int \<Rightarrow> time_filter \<Rightarrow> time_filter" where
  "filter_update fl m max_error t f =
     (if t \<le> last_update f then f
      else
        let dt = fl (of_int (t - last_update f));
            f = f\<lparr>last_update := t\<rparr>;
            sd = fl (fl (of_int max_error) * MAX_ERROR_SCALE);
            var = fl (sd * sd)
        in if tf_count f = 0 then first_measurement fl m var f
           else if tf_count f = 1 then second_measurement fl m var dt f
           else
             let offset = fl (tf_offset f + fl (tf_drift f * dt));
                 c = predict_cov fl dt f;
                 residual = fl (fl (of_int m) - offset);
                 cutoff = fl (fl (of_int max_error) * ADAPTIVE_FORGETTING_CUTOFF)
             in if tf_count f < 100 then kalman fl offset residual var c (f\<lparr>tf_count := tf_count f + 1\<rparr>)
                else if \<bar>residual\<bar> > cutoff
                then kalman fl offset residual var (forget fl (forget_variance_factor f) c) f
                else kalman fl offset residual var c f)"

subsection \<open>Conversions\<close>

definition effective_drift :: "time_element \<Rightarrow> rat" where
  "effective_drift e = (if te_use_drift e then te_drift e else 0)"

definition compute_server_time :: "(rat \<Rightarrow> rat) \<Rightarrow> time_filter \<Rightarrow> int \<Rightarrow> int" where
  "compute_server_time fl f client_time =
     (let e = time_elem f; dt = fl (of_int (client_time - te_last_update e))
      in client_time + py_round (fl (te_offset e + fl (effective_drift e * dt))))"

definition compute_client_time :: "(rat \<Rightarrow> rat) \<Rightarrow> time_filter \<Rightarrow> int \<Rightarrow> int" where
  "compute_client_time fl f server_time =
     (let e = time_elem f; d = effective_drift e
      in py_round (fl (fl (fl (fl (of_int server_time) - te_offset e) + fl (d * fl (of_int (te_last_update e))))
                       / fl (1 + d))))"

text \<open>Converting a client time to server time and back loses at most a microsecond in exact
  arithmetic, as long as the estimated drift is above minus one half.\<close>

theorem clock_conversion_roundtrip:
  assumes "- (1 / 2) < effective_drift (time_elem f)"
  shows "\<bar>compute_client_time exact f (compute_server_time exact f t) - t\<bar> \<le> 1"
proof -
  let ?e = "time_elem f" let ?d = "effective_drift (time_elem f)"
  let ?x = "te_offset ?e + ?d * of_int (t - te_last_update ?e)"
  let ?eps = "of_int (py_round ?x) - ?x"
  have pos: "1 / 2 < 1 + ?d" using assms by simp
  have "(of_int (t + py_round ?x) - te_offset ?e + ?d * of_int (te_last_update ?e)) / (1 + ?d) =
      of_int t + ?eps / (1 + ?d)"
    using pos by (simp add: field_simps)
  moreover have "\<bar>?eps / (1 + ?d)\<bar> < 1"
    using py_round_near [of ?x] pos by (simp add: abs_div_pos [symmetric] divide_less_eq)
  ultimately show ?thesis
    by (simp add: compute_client_time_def compute_server_time_def Let_def py_round_int_near)
qed


theorem clock_conversion_roundtrip_witness:
  "\<bar>compute_client_time exact (filter_update exact 7 3 10 (new_filter exact 0 2 0))
     (compute_server_time exact (filter_update exact 7 3 10 (new_filter exact 0 2 0)) 50) - 50\<bar> \<le> 1"
proof -
  have "- (1 / 2) < effective_drift (time_elem (filter_update exact 7 3 10 (new_filter exact 0 2 0)))"
    by (simp add: filter_update_def new_filter_def first_measurement_def snapshot_def effective_drift_def Let_def)
  then show ?thesis by (rule clock_conversion_roundtrip)
qed

subsection \<open>The covariance stays a covariance\<close>

definition psd :: "cov \<Rightarrow> bool" where
  "psd c \<longleftrightarrow> (case c of (oc, odc, dc) \<Rightarrow> 0 \<le> oc \<and> 0 \<le> dc \<and> odc * odc \<le> oc * dc)"

definition filter_ok :: "time_filter \<Rightarrow> bool" where
  "filter_ok f \<longleftrightarrow> 0 \<le> process_variance f \<and> 0 \<le> drift_process_variance f \<and> 0 \<le> forget_variance_factor f \<and>
     (tf_count f = 0 \<longrightarrow> offset_cov f = None) \<and> (tf_count f \<le> 1 \<longrightarrow> offset_drift_cov f = 0 \<and> drift_cov f = 0) \<and>
     (0 < tf_count f \<longrightarrow> (\<exists>oc. offset_cov f = Some oc \<and> psd (oc, offset_drift_cov f, drift_cov f)))"

lemma psd_forget: "0 \<le> k \<Longrightarrow> psd c \<Longrightarrow> psd (forget exact k c)"
proof -
  assume k: "0 \<le> k" and c: "psd c"
  obtain oc odc dc where eq: "c = (oc, odc, dc)" by (cases c)
  have "(odc * odc) * (k * k) \<le> (oc * dc) * (k * k)"
    using c k by (intro mult_right_mono) (simp_all add: psd_def eq)
  then show ?thesis using c k by (simp add: psd_def forget_def eq algebra_simps)
qed

lemma psd_predict:
  assumes "psd (oc, odc, dc)" "0 \<le> dt" "0 \<le> q1" "0 \<le> q2"
  shows "psd (oc + 2 * odc * dt + dc * (dt * dt) + q1, odc + dc * dt, dc + q2)"
proof -
  let ?a = "oc + 2 * odc * dt + dc * (dt * dt)"
  have pos: "0 \<le> oc" "0 \<le> dc" and det: "odc * odc \<le> oc * dc" using assms(1) by (simp_all add: psd_def)
  have a: "0 \<le> ?a"
  proof (cases "dc = 0")
    case True
    then have "odc = 0" using det by (auto simp: mult_le_0_iff)
    then show ?thesis using True pos by simp
  next
    case False
    have "dc * ?a = (odc + dc * dt) * (odc + dc * dt) + (oc * dc - odc * odc)" by (simp add: algebra_simps)
    then have "0 \<le> dc * ?a" using det by simp
    then show ?thesis using False pos(2) by (simp add: zero_le_mult_iff)
  qed
  have "(odc + dc * dt) * (odc + dc * dt) \<le> ?a * dc" using det by (simp add: algebra_simps)
  also have "\<dots> \<le> (?a + q1) * (dc + q2)" using a pos assms by (intro mult_mono) auto
  finally show ?thesis using a pos assms by (simp add: psd_def)
qed

lemma psd_update:
  assumes "psd (oc, odc, dc)" "oc \<le> s" "0 < s"
  shows "psd (oc - oc * (1 / s) * oc, odc - odc * (1 / s) * oc, dc - odc * (1 / s) * odc)"
proof -
  have pos: "0 \<le> oc" "0 \<le> dc" and det: "odc * odc \<le> oc * dc" using assms(1) by (simp_all add: psd_def)
  let ?g = "oc / s"
  have g: "0 \<le> 1 - ?g" using assms(2,3) by simp
  have 1: "oc - oc * (1 / s) * oc = (1 - ?g) * oc" "odc - odc * (1 / s) * oc = (1 - ?g) * odc"
    using assms(3) by (simp_all add: field_simps)
  have "odc * odc \<le> s * dc" using det assms(2) pos by (meson mult_right_mono order_trans)
  then have 2: "0 \<le> dc - odc * (1 / s) * odc" using assms(3) by (simp add: field_simps)
  have "((1 - ?g) * oc) * (dc - odc * (1 / s) * odc) - ((1 - ?g) * odc) * ((1 - ?g) * odc) =
      (1 - ?g) * (oc * dc - odc * odc)"
    using assms(3) by (simp add: field_simps)
  moreover have "0 \<le> (1 - ?g) * (oc * dc - odc * odc)" using g det by (intro mult_nonneg_nonneg) simp_all
  ultimately have "((1 - ?g) * odc) * ((1 - ?g) * odc) \<le> ((1 - ?g) * oc) * (dc - odc * (1 / s) * odc)" by linarith
  then show ?thesis unfolding psd_def 1 using g pos 2 by simp
qed

lemma snapshot_fields [simp]:
  "last_update (snapshot u f) = last_update f" "tf_count (snapshot u f) = tf_count f"
  "tf_offset (snapshot u f) = tf_offset f" "tf_drift (snapshot u f) = tf_drift f"
  "offset_cov (snapshot u f) = offset_cov f" "offset_drift_cov (snapshot u f) = offset_drift_cov f"
  "drift_cov (snapshot u f) = drift_cov f" "process_variance (snapshot u f) = process_variance f"
  "drift_process_variance (snapshot u f) = drift_process_variance f"
  "forget_variance_factor (snapshot u f) = forget_variance_factor f"
  "time_elem (snapshot u f) = \<lparr>te_last_update = last_update f, te_offset = tf_offset f,
     te_drift = tf_drift f, te_use_drift = u\<rparr>"
  by (simp_all add: snapshot_def)

definition noise_ok :: "time_filter \<Rightarrow> bool" where
  "noise_ok f \<longleftrightarrow> 0 \<le> process_variance f \<and> 0 \<le> drift_process_variance f \<and> 0 \<le> forget_variance_factor f"

lemma kalman_ok:
  assumes "noise_ok f" "1 < tf_count f" "psd c" "0 \<le> var"
  shows "filter_ok (kalman exact offset residual var c f)"
proof -
  obtain oc odc dc where c: "c = (oc, odc, dc)" by (cases c)
  let ?s = "max (oc + var) (1 / 1000000000)"
  have "oc \<le> ?s" "0 < ?s" using assms(4) by simp_all
  note upd = psd_update [OF assms(3) [unfolded c] this]
  show ?thesis using upd assms(1,2) by (simp add: filter_ok_def noise_ok_def kalman_def c Let_def)
qed

lemma predict_ok:
  assumes "filter_ok f" "0 < tf_count f" "0 \<le> dt"
  shows "psd (predict_cov exact dt f)"
  using assms by (auto simp: filter_ok_def predict_cov_def Let_def intro: psd_predict)

lemma filter_update_ok:
  assumes "filter_ok f" shows "filter_ok (filter_update exact m e t f)"
proof (cases "t \<le> last_update f")
  case True
  then show ?thesis using assms by (simp add: filter_update_def)
next
  case False
  let ?f = "f\<lparr>last_update := t\<rparr>" and ?dt = "of_int (t - last_update f) :: rat"
  have f: "filter_ok ?f" "noise_ok ?f" "noise_ok (?f\<lparr>tf_count := tf_count f + 1\<rparr>)"
    using assms by (simp_all add: filter_ok_def noise_ok_def)
  have dt: "0 \<le> ?dt" using False by simp
  consider "tf_count f = 0" | "tf_count f = 1" | "1 < tf_count f" by linarith
  then show ?thesis
  proof cases
    case 1
    then show ?thesis
      using assms False by (simp add: filter_update_def first_measurement_def filter_ok_def psd_def Let_def)
  next
    case 2
    then obtain oc where "offset_cov f = Some oc" "0 \<le> oc" using assms by (auto simp: filter_ok_def psd_def)
    then show ?thesis
      using 2 assms False by (simp add: filter_update_def second_measurement_def filter_ok_def psd_def Let_def)
  next
    case 3
    have p: "psd (predict_cov exact ?dt ?f)" using f(1) 3 dt by (intro predict_ok) simp_all
    moreover have "psd (forget exact (forget_variance_factor ?f) (predict_cov exact ?dt ?f))"
      using f(2) p by (intro psd_forget) (simp_all add: noise_ok_def)
    ultimately show ?thesis
      using 3 False f(2,3) by (simp add: filter_update_def Let_def kalman_ok)
  qed
qed

text \<open>A measurement: the observed offset, its error bound, and when it was taken.\<close>

type_synonym measurement = "int \<times> int \<times> int"

definition take_measurement :: "time_filter \<Rightarrow> measurement \<Rightarrow> time_filter" where
  "take_measurement f z = (case z of (m, e, t) \<Rightarrow> filter_update exact m e t f)"

interpretation clock_filter: invariant_machine take_measurement filter_ok
  by unfold_locales (auto simp: take_measurement_def filter_update_ok split: prod.split)

text \<open>In exact arithmetic the filter's covariance stays a covariance: whatever measurements arrive
  in whatever order, both variances are non-negative and the determinant is too, and the filter counts
  as synchronized exactly from its second accepted measurement on.\<close>

theorem covariance_stays_psd:
  "let f = foldl take_measurement (new_filter exact p k d) zs in
     (tf_count f = 0 \<or> (\<exists>oc. offset_cov f = Some oc \<and> psd (oc, offset_drift_cov f, drift_cov f))) \<and>
     (is_synchronized f \<longleftrightarrow> 2 \<le> tf_count f)"
proof -
  have "filter_ok (new_filter exact p k d)" by (simp add: filter_ok_def new_filter_def)
  then have "filter_ok (foldl take_measurement (new_filter exact p k d) zs)" by (rule clock_filter.run_inv)
  then show ?thesis by (auto simp: Let_def filter_ok_def is_synchronized_def)
qed

subsection \<open>The estimate\<close>

lemma kalman_between:
  assumes "psd (oc, odc, dc)" "0 \<le> var"
  shows "\<exists>g. 0 \<le> g \<and> g \<le> 1 \<and> tf_offset (kalman exact offset residual var (oc, odc, dc) f) = offset + g * residual"
proof (intro exI conjI)
  let ?s = "max (oc + var) (1 / 1000000000)"
  have oc: "0 \<le> oc" "oc \<le> ?s" "0 < ?s" using assms by (simp_all add: psd_def)
  show "0 \<le> oc * (1 / ?s)" "oc * (1 / ?s) \<le> 1" using oc by (simp_all add: field_simps)
  show "tf_offset (kalman exact offset residual var (oc, odc, dc) f) = offset + oc * (1 / ?s) * residual"
    by (simp add: kalman_def Let_def)
qed

text \<open>A Kalman step moves the offset from its prediction towards the measurement and never past
  it: the new estimate is a convex combination of the two.\<close>

theorem estimate_between:
  assumes "filter_ok f" and "1 < tf_count f" and "last_update f < t"
  shows "\<exists>g. 0 \<le> g \<and> g \<le> 1 \<and> tf_offset (filter_update exact m e t f) =
    (1 - g) * (tf_offset f + tf_drift f * of_int (t - last_update f)) + g * of_int m"
proof -
  let ?f = "f\<lparr>last_update := t\<rparr>" and ?dt = "of_int (t - last_update f) :: rat"
  let ?o = "tf_offset f + tf_drift f * ?dt" and ?c = "predict_cov exact ?dt ?f"
  let ?var = "of_int e * MAX_ERROR_SCALE * (of_int e * MAX_ERROR_SCALE)"
  have f: "filter_ok ?f" "0 \<le> forget_variance_factor ?f" using assms(1) by (simp_all add: filter_ok_def)
  have p: "psd ?c" using f(1) assms(2,3) by (intro predict_ok) simp_all
  have conv: "x + g * (y - x) = (1 - g) * x + g * y" for x y g :: rat by (simp add: algebra_simps)
  have step: "\<exists>g. 0 \<le> g \<and> g \<le> 1 \<and> tf_offset (kalman exact ?o (of_int m - ?o) ?var c h) = (1 - g) * ?o + g * of_int m"
    if "psd c" for c h
    using kalman_between [of "fst c" "fst (snd c)" "snd (snd c)" ?var ?o "of_int m - ?o" h] that
    by (simp add: conv)
  consider "tf_count f < 100" | "\<not> tf_count f < 100" "\<bar>of_int m - ?o\<bar> > of_int e * ADAPTIVE_FORGETTING_CUTOFF"
    | "\<not> tf_count f < 100" "\<not> \<bar>of_int m - ?o\<bar> > of_int e * ADAPTIVE_FORGETTING_CUTOFF" by blast
  then show ?thesis
    using step [OF p] step [OF psd_forget [OF f(2) p]] assms(2,3)
    by cases (simp_all add: filter_update_def Let_def)
qed

definition demo_filter :: time_filter where
  "demo_filter = filter_update exact 12 2 20 (filter_update exact 10 2 10 (new_filter exact 0 2 0))"

theorem estimate_between_witness:
  "\<exists>g. 0 \<le> g \<and> g \<le> 1 \<and> tf_offset (filter_update exact 15 2 30 demo_filter) = (1 - g) * 14 + g * 15"
proof -
  have "demo_filter = foldl take_measurement (new_filter exact 0 2 0) [(10, 2, 10), (12, 2, 20)]"
    by (simp add: demo_filter_def take_measurement_def)
  moreover have "filter_ok (new_filter exact 0 2 0)" by (simp add: filter_ok_def new_filter_def)
  ultimately have ok: "filter_ok demo_filter" using clock_filter.run_inv by metis
  have d: "tf_count demo_filter = 2" "last_update demo_filter = 20" "tf_offset demo_filter = 12"
    "tf_drift demo_filter = 1 / 5"
    by (simp_all add: demo_filter_def filter_update_def new_filter_def first_measurement_def
        second_measurement_def Let_def)
  show ?thesis using estimate_between [OF ok, of 30 15 2] d by simp
qed

definition on_line :: "rat \<Rightarrow> rat \<Rightarrow> measurement \<Rightarrow> bool" where
  "on_line a b z \<longleftrightarrow> of_int (fst z) = a + b * of_int (snd (snd z))"

definition tracks :: "rat \<Rightarrow> rat \<Rightarrow> time_filter \<Rightarrow> bool" where
  "tracks a b f \<longleftrightarrow> tf_count f = 0 \<or>
     (tf_offset f = a + b * of_int (last_update f) \<and> (1 < tf_count f \<longrightarrow> tf_drift f = b))"

lemma tracks_measure:
  assumes "tracks a b f" "on_line a b z"
  shows "tracks a b (take_measurement f z)"
proof -
  obtain m e t where z: "z = (m, e, t)" "of_int m = a + b * of_int t" using assms(2) by (cases z) (auto simp: on_line_def)
  have k: "tracks a b (kalman exact (of_int m) 0 v c (f\<lparr>last_update := t\<rparr>))"
    "tracks a b (kalman exact (of_int m) 0 v c (f\<lparr>last_update := t, tf_count := Suc (tf_count f)\<rparr>))"
    if "1 < tf_count f" for v c
    using assms(1) that z(2) by (cases c; simp add: tracks_def kalman_def Let_def)+
  consider "t \<le> last_update f" | "last_update f < t" "tf_count f = 0" | "last_update f < t" "tf_count f = 1"
    | "last_update f < t" "1 < tf_count f" by linarith
  then show ?thesis
  proof cases
    case 4
    then have "tf_offset f + tf_drift f * of_int (t - last_update f) = of_int m"
      using assms(1) z(2) by (simp add: tracks_def algebra_simps)
    then show ?thesis using 4 k by (simp add: z(1) take_measurement_def filter_update_def Let_def)
  next
    case 3
    then have "(of_int m - tf_offset f) / of_int (t - last_update f) = b"
      using assms(1) z(2) by (simp add: tracks_def field_simps)
    then show ?thesis
      using 3 z(2) by (simp add: z(1) take_measurement_def filter_update_def second_measurement_def Let_def tracks_def)
  qed (use assms(1) z in \<open>simp_all add: take_measurement_def filter_update_def first_measurement_def tracks_def Let_def\<close>)
qed

text \<open>In exact arithmetic a server clock that runs linearly against the client's is tracked exactly: from the second
  noiseless measurement on the estimated offset is the last measured one and the
  estimated drift is the clock's, whatever error bounds the measurements claim.\<close>

theorem linear_clock_tracked:
  assumes "\<forall>z\<in>set zs. on_line a b z"
  shows "tracks a b (foldl take_measurement (new_filter exact p k d) zs)"
proof -
  have "tracks a b (foldl take_measurement f zs)" if "tracks a b f" for f
    using that assms by (induction zs arbitrary: f) (auto intro: tracks_measure)
  then show ?thesis by (simp add: tracks_def new_filter_def)
qed

theorem linear_clock_tracked_witness:
  "tracks 5 (1 / 2) (foldl take_measurement (new_filter exact 0 2 0) [(10, 3, 10), (15, 4, 20), (20, 0, 30)])"
  by (rule linear_clock_tracked) (simp add: on_line_def)

end
