(* ===== verification/Scheduled_State.thy ===== *)
theory Scheduled_State
  imports Prelude
begin

text \<open>
  Group-role state that can be scheduled to take effect later
  (\<open>server/roles/scheduled_state.py\<close>, with the membership of \<open>GroupRole\<close> in
  \<open>server/roles/base.py\<close>). An operation runs without suspension, so its readings of the server
  clock are one argument \<open>now\<close>; the event loop's timer is a step of its own that may fire at any
  time. Building a message can raise: \<open>msg s t\<close> is \<open>None\<close> then, and an operation returns the state
  it leaves and whether it raised. \<open>restate\<close> is the subclass's adjustment of the current state.
\<close>

subsection \<open>The current and the pending state\<close>

record 's sched =
  now_state :: "'s option"
  pending_state :: "'s option"
  pending_us :: "int option"

definition no_sched :: "'s sched" where
  "no_sched = \<lparr>now_state = None, pending_state = None, pending_us = None\<rparr>"

definition sched_apply :: "'s option \<Rightarrow> 's sched \<Rightarrow> 's sched" where
  "sched_apply s st = st\<lparr>now_state := s, pending_state := None, pending_us := None\<rparr>"

definition sched_promote :: "int \<Rightarrow> 's sched \<Rightarrow> 's sched" where
  "sched_promote now st =
     (case pending_us st of
        Some due \<Rightarrow> if due \<le> now then sched_apply (pending_state st) st else st
      | None \<Rightarrow> st)"

definition sched_current :: "int \<Rightarrow> 's sched \<Rightarrow> 's option \<times> 's sched" where
  "sched_current now st = (now_state (sched_promote now st), sched_promote now st)"

definition sched_schedule :: "'s option \<Rightarrow> int \<Rightarrow> 's sched \<Rightarrow> 's sched" where
  "sched_schedule s due st = st\<lparr>pending_state := s, pending_us := Some due\<rparr>"

text \<open>The abstract specification: what the state is at each instant.\<close>

definition state_at :: "'s sched \<Rightarrow> int \<Rightarrow> 's option" where
  "state_at st t = (case pending_us st of Some due \<Rightarrow> if due \<le> t then pending_state st else now_state st
     | None \<Rightarrow> now_state st)"

lemma sched_current_state_at: "fst (sched_current now st) = state_at st now"
  by (auto simp: sched_current_def sched_promote_def sched_apply_def state_at_def split: option.splits)

lemma promote_state_at: "now \<le> t \<Longrightarrow> state_at (sched_promote now st) t = state_at st t"
  by (auto simp: sched_promote_def sched_apply_def state_at_def split: option.splits)

lemma sched_apply_fields [simp]:
  "now_state (sched_apply s st) = s" "pending_state (sched_apply s st) = None"
  "pending_us (sched_apply s st) = None" "state_at (sched_apply s st) t = s"
  by (simp_all add: sched_apply_def state_at_def)

lemma sched_schedule_fields [simp]:
  "now_state (sched_schedule s due st) = now_state st" "pending_state (sched_schedule s due st) = s"
  "pending_us (sched_schedule s due st) = Some due"
  by (simp_all add: sched_schedule_def)

lemma promoted_later: "pending_us (sched_promote now st) = Some d \<Longrightarrow> now < d"
  by (auto simp: sched_promote_def split: option.splits if_splits)

lemma promote_id: "(\<And>due. pending_us st = Some due \<Longrightarrow> now < due) \<Longrightarrow> sched_promote now st = st"
  by (auto simp: sched_promote_def split: option.split)

lemma promote_idem [simp]:
  "sched_promote now (sched_promote now st) = sched_promote now st"
  "state_at (sched_promote now st) now = state_at st now"
  by (rule promote_id, erule promoted_later) (simp add: promote_state_at)

lemma schedule_state_at: "state_at (sched_schedule s due st) t = (if due \<le> t then s else now_state st)"
  by (simp add: sched_schedule_def state_at_def)

subsection \<open>The group role\<close>

record member =
  member_id :: nat
  m_connected :: bool
  m_holds :: bool
  m_reads_repeat :: bool

definition supports_scheduled_updates :: "member \<Rightarrow> bool" where
  "supports_scheduled_updates r \<longleftrightarrow> \<not> m_connected r \<or> m_holds r"

text \<open>A cancelled handle keeps its place in the attribute but never runs.\<close>

datatype 'm timer_call = SendScheduled | SendDue 'm | Cancelled

datatype 's role_event = ClearedEvent "'s option" int | UpdatedEvent 's "'s option" int

record ('s, 'm) grole =
  sched :: "'s sched"
  scheduled_sent :: bool
  handle :: "(int \<times> 'm timer_call) option"
  members :: "member list"
  sent :: "(nat \<times> 'm) list"
  events :: "'s role_event list"

definition MAX_SCHEDULED_LEAD_US :: int where "MAX_SCHEDULED_LEAD_US = 20000000"

definition new_grole :: "('s, 'm) grole" where
  "new_grole = \<lparr>sched = no_sched, scheduled_sent = False, handle = None, members = [], sent = [],
     events = []\<rparr>"

definition send_message :: "member \<Rightarrow> 'm \<Rightarrow> ('s, 'm) grole \<Rightarrow> ('s, 'm) grole" where
  "send_message r m g = (if m_connected r then g\<lparr>sent := sent g @ [(member_id r, m)]\<rparr> else g)"

definition send_to :: "member list \<Rightarrow> 'm \<Rightarrow> ('s, 'm) grole \<Rightarrow> ('s, 'm) grole" where
  "send_to rs m g = foldl (\<lambda>g r. send_message r m g) g rs"

definition send_to_members :: "'m \<Rightarrow> ('s, 'm) grole \<Rightarrow> ('s, 'm) grole" where
  "send_to_members m g = send_to (members g) m g"

definition cancel_send_scheduled :: "('s, 'm) grole \<Rightarrow> ('s, 'm) grole" where
  "cancel_send_scheduled g = g\<lparr>scheduled_sent := False, handle := None\<rparr>"

lemma cancel_send_fields [simp]:
  "sched (cancel_send_scheduled g) = sched g" "members (cancel_send_scheduled g) = members g"
  "sent (cancel_send_scheduled g) = sent g" "events (cancel_send_scheduled g) = events g"
  "scheduled_sent (cancel_send_scheduled g) = False" "handle (cancel_send_scheduled g) = None"
  by (simp_all add: cancel_send_scheduled_def)

definition emit_group_event :: "'s role_event \<Rightarrow> ('s, 'm) grole \<Rightarrow> ('s, 'm) grole" where
  "emit_group_event e g = g\<lparr>events := events g @ [e]\<rparr>"

definition promoted :: "int \<Rightarrow> ('s, 'm) grole \<Rightarrow> ('s, 'm) grole" where
  "promoted now g = g\<lparr>sched := sched_promote now (sched g)\<rparr>"

text \<open>The event that reports a change, with the state it replaced.\<close>

definition announce :: "'s option \<Rightarrow> 's option \<Rightarrow> int \<Rightarrow> ('s, 'm) grole \<Rightarrow> ('s, 'm) grole \<times> bool" where
  "announce md last_md t g =
     (emit_group_event (case md of None \<Rightarrow> ClearedEvent last_md t | Some m \<Rightarrow> UpdatedEvent m last_md t) g, False)"

text \<open>\<open>_current_state\<close>: the subclass's restatement of the current state, and the role it leaves.\<close>

definition current_state :: "(int \<Rightarrow> 's \<Rightarrow> 's) \<Rightarrow> int \<Rightarrow> ('s, 'm) grole \<Rightarrow> 's option \<times> ('s, 'm) grole" where
  "current_state restate now g =
     (let (s, st) = sched_current now (sched g) in (map_option (restate now) s, g\<lparr>sched := st\<rparr>))"

definition apply_state :: "('s option \<Rightarrow> int \<Rightarrow> 'm option) \<Rightarrow> 's option \<Rightarrow> int \<Rightarrow> ('s, 'm) grole
    \<Rightarrow> ('s, 'm) grole \<times> bool" where
  "apply_state msg s t g =
     (case msg s t of
        None \<Rightarrow> (g, True)
      | Some m \<Rightarrow>
          (send_to_members m (cancel_send_scheduled (g\<lparr>sched := sched_apply s (sched g)\<rparr>)), False))"

definition send_due :: "'m \<Rightarrow> ('s, 'm) grole \<Rightarrow> ('s, 'm) grole" where
  "send_due m g = send_to (filter (\<lambda>r. \<not> supports_scheduled_updates r) (members g)) m (g\<lparr>handle := None\<rparr>)"

definition send_scheduled :: "('s option \<Rightarrow> int \<Rightarrow> 'm option) \<Rightarrow> int \<Rightarrow> ('s, 'm) grole
    \<Rightarrow> ('s, 'm) grole \<times> bool" where
  "send_scheduled msg now g =
     (let g = g\<lparr>handle := None\<rparr> in
      case pending_us (sched g) of
        None \<Rightarrow> (g, False)
      | Some due \<Rightarrow>
          (let g = g\<lparr>scheduled_sent := True\<rparr> in
           case msg (pending_state (sched g)) due of
             None \<Rightarrow> (g, True)
           | Some m \<Rightarrow>
               ((send_to (filter supports_scheduled_updates (members g)) m g)
                  \<lparr>handle := Some (due - now, SendDue m)\<rparr>, False)))"

text \<open>\<open>_schedule\<close>. A state made current by the clock before its due timer fired is sent to the
  members that apply on receipt first (\<open>settle_overdue\<close>); the held state is restated away when a
  state already sent is replaced by one further ahead (\<open>restate_replaced\<close>).\<close>

definition settle_overdue :: "('s option \<Rightarrow> int \<Rightarrow> 'm option) \<Rightarrow> (int \<Rightarrow> 's \<Rightarrow> 's) \<Rightarrow> int \<Rightarrow> ('s, 'm) grole
    \<Rightarrow> ('s, 'm) grole \<times> bool" where
  "settle_overdue msg restate now g =
     (if scheduled_sent g \<and> handle g \<noteq> None \<and> pending_us (sched g) = None
      then let (cur, g) = current_state restate now
                 (g\<lparr>handle := map_option (\<lambda>(d, _). (d, Cancelled)) (handle g)\<rparr>) in
        (case msg cur now of None \<Rightarrow> (g, True) | Some m \<Rightarrow> (send_due m g, False))
      else (g, False))"

definition restate_current :: "('s option \<Rightarrow> int \<Rightarrow> 'm option) \<Rightarrow> (int \<Rightarrow> 's \<Rightarrow> 's) \<Rightarrow> int \<Rightarrow> ('s, 'm) grole
    \<Rightarrow> ('s, 'm) grole \<times> bool" where
  "restate_current msg restate now g =
     (let (cur, g) = current_state restate now g in
      (case msg cur now of None \<Rightarrow> (g, True) | Some m \<Rightarrow> (send_to_members m g, False)))"

definition place_scheduled :: "('s option \<Rightarrow> int \<Rightarrow> 'm option) \<Rightarrow> (int \<Rightarrow> 's \<Rightarrow> 's) \<Rightarrow> 's \<Rightarrow> int \<Rightarrow> int
    \<Rightarrow> bool \<Rightarrow> ('s, 'm) grole \<Rightarrow> ('s, 'm) grole \<times> bool" where
  "place_scheduled msg restate s due now replaced_sent g =
     (let g = cancel_send_scheduled g;
          g = g\<lparr>sched := sched_schedule (Some s) due (sched g)\<rparr>;
          delay_us = due - MAX_SCHEDULED_LEAD_US - now
      in if delay_us \<le> 0 then send_scheduled msg now g
         else let g = g\<lparr>handle := Some (delay_us, SendScheduled)\<rparr> in
           if replaced_sent then restate_current msg restate now g else (g, False))"

definition schedule_state :: "('s option \<Rightarrow> int \<Rightarrow> 'm option) \<Rightarrow> (int \<Rightarrow> 's \<Rightarrow> 's) \<Rightarrow> 's \<Rightarrow> int \<Rightarrow> int
    \<Rightarrow> ('s, 'm) grole \<Rightarrow> ('s, 'm) grole \<times> bool" where
  "schedule_state msg restate s due now g =
     (case msg (Some s) due of
        None \<Rightarrow> (g, True)
      | Some _ \<Rightarrow>
          (let replaced_sent = scheduled_sent g \<and> pending_us (sched g) \<noteq> None
           in after_ok (settle_overdue msg restate now g)
                (place_scheduled msg restate s due now replaced_sent)))"

definition cancel_scheduled :: "('s option \<Rightarrow> int \<Rightarrow> 'm option) \<Rightarrow> (int \<Rightarrow> 's \<Rightarrow> 's) \<Rightarrow> int \<Rightarrow> ('s, 'm) grole
    \<Rightarrow> ('s, 'm) grole \<times> bool" where
  "cancel_scheduled msg restate now g =
     (let (cur, g) = current_state restate now g in
      if pending_us (sched g) = None then (g, False)
      else if scheduled_sent g then apply_state msg cur now g
      else (cancel_send_scheduled (g\<lparr>sched := sched_apply cur (sched g)\<rparr>), False))"

definition on_member_join :: "('s option \<Rightarrow> int \<Rightarrow> 'm option) \<Rightarrow> (int \<Rightarrow> 's \<Rightarrow> 's) \<Rightarrow> int \<Rightarrow> member
    \<Rightarrow> ('s, 'm) grole \<Rightarrow> ('s, 'm) grole \<times> bool" where
  "on_member_join msg restate now r g =
     (let (cur, g) = current_state restate now g in
      case msg cur now of
        None \<Rightarrow> (g, True)
      | Some m \<Rightarrow>
          (let g = send_message r m g in
           case pending_us (sched g) of
             Some due \<Rightarrow>
               if scheduled_sent g \<and> supports_scheduled_updates r
               then (case msg (pending_state (sched g)) due of
                       None \<Rightarrow> (g, True)
                     | Some m \<Rightarrow> (send_message r m g, False))
               else (g, False)
           | None \<Rightarrow> (g, False)))"

definition subscribe :: "('s option \<Rightarrow> int \<Rightarrow> 'm option) \<Rightarrow> (int \<Rightarrow> 's \<Rightarrow> 's) \<Rightarrow> int \<Rightarrow> member
    \<Rightarrow> ('s, 'm) grole \<Rightarrow> ('s, 'm) grole \<times> bool" where
  "subscribe msg restate now r g =
     (if member_id r \<in> set (map member_id (members g)) then (g, False)
      else on_member_join msg restate now r (g\<lparr>members := members g @ [r]\<rparr>))"

definition unsubscribe :: "nat \<Rightarrow> ('s, 'm) grole \<Rightarrow> ('s, 'm) grole" where
  "unsubscribe i g = g\<lparr>members := filter (\<lambda>r. member_id r \<noteq> i) (members g)\<rparr>"

definition on_group_deleted :: "('s, 'm) grole \<Rightarrow> ('s, 'm) grole" where
  "on_group_deleted g = cancel_send_scheduled g"

text \<open>The event loop runs the pending timer call.\<close>

definition fire_timer :: "('s option \<Rightarrow> int \<Rightarrow> 'm option) \<Rightarrow> int \<Rightarrow> ('s, 'm) grole \<Rightarrow> ('s, 'm) grole \<times> bool" where
  "fire_timer msg now g =
     (case handle g of
        None \<Rightarrow> (g, False)
      | Some (_, SendScheduled) \<Rightarrow> send_scheduled msg now g
      | Some (_, SendDue m) \<Rightarrow> (send_due m g, False)
      | Some (_, Cancelled) \<Rightarrow> (g, False))"

subsection \<open>What the members are sent\<close>

definition inbox_of :: "nat \<Rightarrow> ('s, 'm) grole \<Rightarrow> 'm list" where
  "inbox_of i g = map snd (filter (\<lambda>p. fst p = i) (sent g))"

definition reached :: "nat \<Rightarrow> member list \<Rightarrow> bool" where
  "reached i rs \<longleftrightarrow> (\<exists>r\<in>set rs. member_id r = i \<and> m_connected r)"

lemma send_message_fields [simp]:
  "sched (send_message r m g) = sched g" "scheduled_sent (send_message r m g) = scheduled_sent g"
  "handle (send_message r m g) = handle g" "members (send_message r m g) = members g"
  "events (send_message r m g) = events g"
  by (simp_all add: send_message_def)

lemma send_to_fields [simp]:
  "sched (send_to rs m g) = sched g" "scheduled_sent (send_to rs m g) = scheduled_sent g"
  "handle (send_to rs m g) = handle g" "members (send_to rs m g) = members g"
  "events (send_to rs m g) = events g"
  unfolding send_to_def by (induction rs arbitrary: g) simp_all

lemma inbox_send_message:
  "inbox_of i (send_message r m g) = inbox_of i g @ (if reached i [r] then [m] else [])"
  by (simp add: inbox_of_def send_message_def reached_def)

lemma inbox_send_to:
  "distinct (map member_id rs) \<Longrightarrow>
    inbox_of i (send_to rs m g) = inbox_of i g @ (if reached i rs then [m] else [])"
proof (induction rs arbitrary: g)
  case (Cons r rs)
  have "send_to (r # rs) m g = send_to rs m (send_message r m g)" by (simp add: send_to_def)
  moreover have "\<not> (reached i [r] \<and> reached i rs)" 
    using Cons.prems by (auto simp: reached_def) (metis image_eqI)
  moreover have "reached i (r # rs) \<longleftrightarrow> reached i [r] \<or> reached i rs" by (auto simp: reached_def)
  ultimately show ?case using Cons by (auto simp: inbox_send_message)
qed (simp add: send_to_def reached_def)

lemma inbox_update [simp]:
  "inbox_of i (g\<lparr>sched := x1\<rparr>) = inbox_of i g" "inbox_of i (g\<lparr>scheduled_sent := x2\<rparr>) = inbox_of i g"
  "inbox_of i (g\<lparr>handle := x3\<rparr>) = inbox_of i g" "inbox_of i (g\<lparr>members := x4\<rparr>) = inbox_of i g"
  "inbox_of i (g\<lparr>events := x5\<rparr>) = inbox_of i g"
  by (simp_all add: inbox_of_def)

lemma join_fields:
  "members (fst (on_member_join msg rs now r g)) = members g"
  "sched (fst (on_member_join msg rs now r g)) = sched_promote now (sched g)"
  "scheduled_sent (fst (on_member_join msg rs now r g)) = scheduled_sent g"
  by (auto simp: on_member_join_def current_state_def sched_current_def Let_def split: option.split)

end
