(* ===== verification/Scheduled_Members.thy ===== *)
theory Scheduled_Members
  imports Scheduled_State
begin

text \<open>
  The contract between a group role with schedulable state and the members that hold updates until
  their timestamp: at every instant such a member shows what the group's state is. The locale fixes
  what a role family supplies (how a message is built, how the current state is restated) and what a
  client reads from a message; its laws are proved for the metadata and the color role.
\<close>

subsection \<open>A holder of at most one scheduled value\<close>

type_synonym 'v holder = "'v \<times> ('v \<times> int) option"

definition shows_at :: "'v holder \<Rightarrow> int \<Rightarrow> 'v" where
  "shows_at c t = (case snd c of Some (v, due) \<Rightarrow> if due \<le> t then v else fst c | None \<Rightarrow> fst c)"

definition advance :: "int \<Rightarrow> 'v holder \<Rightarrow> 'v holder" where
  "advance now c = (case snd c of Some (v, due) \<Rightarrow> if due \<le> now then (v, None) else c | None \<Rightarrow> c)"

definition take_update :: "int \<Rightarrow> 'v \<times> int \<Rightarrow> 'v holder \<Rightarrow> 'v holder" where
  "take_update now u c = (if snd u \<le> now then (fst u, None) else (fst c, Some u))"

lemma shows_advance: "now \<le> t \<Longrightarrow> shows_at (advance now c) t = shows_at c t"
  by (auto simp: advance_def shows_at_def split: option.splits prod.splits)

lemma fst_advance: "fst (advance now c) = shows_at c now"
  by (auto simp: advance_def shows_at_def split: option.splits prod.splits)

lemma shows_take:
  "now \<le> t \<Longrightarrow> shows_at (take_update now u c) t = (if snd u \<le> t then fst u else fst c)"
  by (cases u) (auto simp: take_update_def shows_at_def)

lemma fst_take: "fst (take_update now u c) = (if snd u \<le> now then fst u else fst c)"
  by (simp add: take_update_def)

subsection \<open>The contract\<close>

locale scheduled_role =
  fixes msg :: "'s option \<Rightarrow> int \<Rightarrow> 'm option"
    and restate :: "int \<Rightarrow> 's \<Rightarrow> 's"
    and view :: "'s option \<Rightarrow> 'v"
    and reads :: "'m \<Rightarrow> 'v \<times> int"
  assumes msg_reads: "msg x t = Some m \<Longrightarrow> reads m = (view x, t)"
    and msg_None: "msg None t \<noteq> None"
    and msg_time: "msg x t \<noteq> None \<Longrightarrow> msg x t' \<noteq> None"
    and msg_restate: "msg (Some s) t \<noteq> None \<Longrightarrow> msg (Some (restate now s)) t \<noteq> None"
    and view_restate: "view (Some (restate now s)) = view (Some s)"
begin

definition sendable :: "'s option \<Rightarrow> bool" where
  "sendable x \<longleftrightarrow> (\<exists>m. msg x 0 = Some m)"

definition states_ok :: "'s sched \<Rightarrow> bool" where
  "states_ok st \<longleftrightarrow> sendable (now_state st) \<and> sendable (pending_state st) \<and>
     (pending_us st = None \<longleftrightarrow> pending_state st = None)"

text \<open>What a member that holds updates is to show: the state as it will be, once it was sent.\<close>

definition target :: "('s, 'm) grole \<Rightarrow> int \<Rightarrow> 'v" where
  "target g t = view (if pending_us (sched g) \<noteq> None \<and> \<not> scheduled_sent g then now_state (sched g)
     else state_at (sched g) t)"

text \<open>A state that was not sent yet is not due either: its timer ran in time.\<close>

definition timely :: "int \<Rightarrow> ('s, 'm) grole \<Rightarrow> bool" where
  "timely now g \<longleftrightarrow> (\<forall>due. pending_us (sched g) = Some due \<and> \<not> scheduled_sent g \<longrightarrow> now < due)"

definition holding :: "nat \<Rightarrow> member list \<Rightarrow> bool" where
  "holding i rs \<longleftrightarrow> distinct (map member_id rs) \<and>
     (\<forall>r\<in>set rs. member_id r = i \<longrightarrow> m_connected r \<and> m_holds r)"

text \<open>Member \<open>i\<close> is in step: when it is a member, it shows the target from \<open>now\<close> on.\<close>

definition in_step :: "nat \<Rightarrow> int \<Rightarrow> ('s, 'm) grole \<Rightarrow> 'v holder \<Rightarrow> bool" where
  "in_step i now g c \<longleftrightarrow> holding i (members g) \<and> states_ok (sched g) \<and>
     (reached i (members g) \<longrightarrow> fst c = target g now \<and> (\<forall>t\<ge>now. shows_at c t = target g t))"

definition receive_all :: "int \<Rightarrow> 'm list \<Rightarrow> 'v holder \<Rightarrow> 'v holder" where
  "receive_all now ms c = foldl (\<lambda>c m. take_update now (reads m) c) c ms"

text \<open>What the operation from \<open>g\<close> to \<open>g'\<close> sends keeps the member in step when it arrives at once.\<close>

definition follows :: "nat \<Rightarrow> int \<Rightarrow> ('s, 'm) grole \<Rightarrow> 'v holder \<Rightarrow> ('s, 'm) grole \<Rightarrow> bool" where
  "follows i now g c g' \<longleftrightarrow> (\<exists>ms. inbox_of i g' = inbox_of i g @ ms \<and> in_step i now g' (receive_all now ms c))"

lemma sendableD: "sendable x \<Longrightarrow> \<exists>m. msg x t = Some m"
  using msg_time [of x 0 t] by (auto simp: sendable_def)

lemma sendableI: "msg x t = Some m \<Longrightarrow> sendable x"
  using msg_time [of x t 0] by (auto simp: sendable_def)

lemma sendable_None [simp]: "sendable None"
  using msg_None [of 0] by (auto simp: sendable_def)

lemma sendable_restate: "sendable x \<Longrightarrow> sendable (map_option (restate now) x)"
  using msg_restate [of _ 0 now] by (cases x) (auto simp: sendable_def)

lemma view_map [simp]: "view (map_option (restate now) x) = view x"
  by (cases x) (simp_all add: view_restate)

lemma sendable_state_at: "states_ok st \<Longrightarrow> sendable (state_at st t)"
  by (auto simp: states_ok_def state_at_def split: option.split)

lemma states_ok_apply: "sendable x \<Longrightarrow> states_ok (sched_apply x st)"
  by (simp add: states_ok_def sched_apply_def)

lemma states_ok_promote: "states_ok st \<Longrightarrow> states_ok (sched_promote now st)"
  by (auto simp: sched_promote_def states_ok_def sched_apply_def split: option.splits)

lemma states_ok_schedule: "states_ok st \<Longrightarrow> sendable (Some s) \<Longrightarrow> states_ok (sched_schedule (Some s) due st)"
  by (simp add: states_ok_def sched_schedule_def)

lemma holding_holders: "holding i rs \<Longrightarrow> reached i (filter supports_scheduled_updates rs) = reached i rs"
  by (auto simp: holding_def reached_def supports_scheduled_updates_def)

lemma holding_not_rest:
  "holding i rs \<Longrightarrow> \<not> reached i (filter (\<lambda>r. \<not> supports_scheduled_updates r) rs)"
  by (auto simp: holding_def reached_def supports_scheduled_updates_def)

lemma follows_refl: "in_step i now g c \<Longrightarrow> follows i now g c g"
  by (auto simp: follows_def receive_all_def)

lemma follows_trans:
  assumes "follows i now g c g1" "\<And>c1. in_step i now g1 c1 \<Longrightarrow> follows i now g1 c1 g2"
  shows "follows i now g c g2"
proof -
  obtain ms where 1: "inbox_of i g1 = inbox_of i g @ ms" "in_step i now g1 (receive_all now ms c)"
    using assms(1) by (auto simp: follows_def)
  obtain ms' where "inbox_of i g2 = inbox_of i g1 @ ms'" "in_step i now g2 (receive_all now ms' (receive_all now ms c))"
    using assms(2) [OF 1(2)] by (auto simp: follows_def)
  then show ?thesis unfolding follows_def
    by (intro exI [of _ "ms @ ms'"]) (simp add: 1(1) receive_all_def)
qed

lemma in_step_later:
  "in_step i now g c \<Longrightarrow> now \<le> now' \<Longrightarrow> in_step i now' g (advance now' c)"
  by (auto simp: in_step_def fst_advance shows_advance)

text \<open>The role is read: a due state becomes current.\<close>

lemma follows_promote:
  assumes "in_step i now g c" "timely now g"
  shows "in_step i now (g\<lparr>sched := sched_promote now (sched g)\<rparr>) c"
  using assms states_ok_promote [of "sched g" now]
  by (auto simp: in_step_def target_def timely_def state_at_def sched_promote_def sched_apply_def
      split: option.splits)

lemma follows_apply:
  assumes "in_step i now g c" "apply_state msg x t g = (g', False)" "t \<le> now"
  shows "follows i now g c g'"
proof -
  obtain m where m: "msg x t = Some m"
    "g' = send_to_members m (cancel_send_scheduled (g\<lparr>sched := sched_apply x (sched g)\<rparr>))"
    using assms(2) by (auto simp: apply_state_def split: option.splits)
  have "inbox_of i g' = inbox_of i g @ (if reached i (members g) then [m] else [])"
    using assms(1)
    by (simp add: m(2) send_to_members_def inbox_send_to cancel_send_scheduled_def in_step_def holding_def)
  moreover have "in_step i now g' (receive_all now (if reached i (members g) then [m] else []) c)"
    using assms(1,3) sendableI [OF m(1)]
    by (auto simp: in_step_def m(2) send_to_members_def cancel_send_scheduled_def receive_all_def
        msg_reads [OF m(1)] fst_take shows_take target_def states_ok_apply)
  ultimately show ?thesis by (auto simp: follows_def)
qed

text \<open>Bookkeeping of handles and of members that apply on receipt is invisible to the member.\<close>

lemma in_step_cong:
  assumes "in_step i now g c" "members g' = members g" "sched g' = sched g"
    "pending_us (sched g) \<noteq> None \<Longrightarrow> scheduled_sent g' = scheduled_sent g"
  shows "in_step i now g' c"
  using assms by (auto simp: in_step_def target_def)

lemma follows_silent:
  assumes "in_step i now g' c" "inbox_of i g' = inbox_of i g"
  shows "follows i now g c g'"
  using assms by (auto simp: follows_def receive_all_def intro: exI [of _ "[]"])

lemma send_due_silent:
  assumes "holding i (members g)"
  shows "inbox_of i (send_due m g) = inbox_of i g"
proof -
  have "distinct (map member_id (filter (\<lambda>r. \<not> supports_scheduled_updates r) (members g)))"
    using assms by (simp add: holding_def distinct_map_filter)
  then show ?thesis using holding_not_rest [OF assms] by (simp add: send_due_def inbox_send_to)
qed

lemma send_due_fields [simp]:
  "members (send_due m g) = members g" "sched (send_due m g) = sched g"
  "scheduled_sent (send_due m g) = scheduled_sent g"
  by (simp_all add: send_due_def)

lemma follows_send_due: "in_step i now g c \<Longrightarrow> follows i now g c (send_due m g)"
  by (rule follows_silent) (auto simp: send_due_silent in_step_def target_def)

lemma follows_send_scheduled:
  assumes "in_step i now g c" "timely now g"
  shows "follows i now g c (fst (send_scheduled msg now g)) \<and> \<not> snd (send_scheduled msg now g)"
proof (cases "pending_us (sched g)")
  case None
  then have "in_step i now (g\<lparr>handle := None\<rparr>) c" using assms(1) by (auto intro: in_step_cong)
  with None show ?thesis by (simp add: send_scheduled_def follows_silent)
next
  case (Some due)
  have ok: "sendable (pending_state (sched g))" using assms(1) by (simp add: in_step_def states_ok_def)
  then obtain m where m: "msg (pending_state (sched g)) due = Some m" using sendableD by blast
  let ?h = "filter supports_scheduled_updates (members g)"
  let ?g' = "(send_to ?h m (g\<lparr>handle := None, scheduled_sent := True\<rparr>))\<lparr>handle := Some (due - now, SendDue m)\<rparr>"
  have g': "send_scheduled msg now g = (?g', False)" using Some m by (simp add: send_scheduled_def)
  have hold: "holding i (members g)" using assms(1) by (simp add: in_step_def)
  then have "inbox_of i ?g' = inbox_of i g @ (if reached i (members g) then [m] else [])"
    using holding_holders [OF hold] by (simp add: inbox_send_to holding_def distinct_map_filter)
  moreover have "in_step i now ?g' (receive_all now (if reached i (members g) then [m] else []) c)"
    using assms Some
    by (auto simp: in_step_def target_def receive_all_def msg_reads [OF m] fst_take shows_take state_at_def timely_def)
  ultimately show ?thesis unfolding g' by (auto simp: follows_def)
qed

lemma current_state_eq:
  "current_state restate now g = (map_option (restate now) (state_at (sched g) now), g\<lparr>sched := sched_promote now (sched g)\<rparr>)"
  by (simp add: current_state_def sched_current_def sched_current_state_at [symmetric])

lemma follows_settle:
  assumes "in_step i now g c"
  shows "follows i now g c (fst (settle_overdue msg restate now g)) \<and> \<not> snd (settle_overdue msg restate now g) \<and>
    sched (fst (settle_overdue msg restate now g)) = sched g \<and>
    scheduled_sent (fst (settle_overdue msg restate now g)) = scheduled_sent g"
proof (cases "scheduled_sent g \<and> handle g \<noteq> None \<and> pending_us (sched g) = None")
  case True
  let ?g1 = "g\<lparr>handle := map_option (\<lambda>(d, _). (d, Cancelled)) (handle g)\<rparr>"
  have p: "sched_promote now (sched g) = sched g" using True by (intro promote_id) simp
  have "sendable (state_at (sched g) now)" using assms by (simp add: in_step_def sendable_state_at)
  then obtain m where m: "msg (map_option (restate now) (state_at (sched g) now)) now = Some m"
    using sendableD [OF sendable_restate] by blast
  have "in_step i now ?g1 c" using assms by (auto intro: in_step_cong)
  then have "follows i now ?g1 c (send_due m ?g1)" by (rule follows_send_due)
  then have "follows i now g c (send_due m ?g1)" by (simp add: follows_def)
  then show ?thesis using True p m by (simp add: settle_overdue_def current_state_eq)
qed (auto simp: settle_overdue_def intro: follows_refl [OF assms])

text \<open>Restating the current state makes any member show it, whatever it held before.\<close>

lemma restate_current_takes:
  assumes "holding i (members g)" "states_ok (sched g)" "\<not> scheduled_sent g"
    and "\<And>due. pending_us (sched g) = Some due \<Longrightarrow> now < due"
  shows "\<exists>g' m. restate_current msg restate now g = (g', False) \<and> inbox_of i g' = inbox_of i g @ (if reached i (members g) then [m] else []) \<and>
    in_step i now g' (receive_all now (if reached i (members g) then [m] else []) c)"
proof -
  have p: "sched_promote now (sched g) = sched g" using assms(4) by (rule promote_id)
  have s: "state_at (sched g) now = now_state (sched g)"
    using assms(4) by (force simp: state_at_def split: option.split)
  have "sendable (now_state (sched g))" using assms(2) by (simp add: states_ok_def)
  then obtain m where m: "msg (map_option (restate now) (now_state (sched g))) now = Some m"
    using sendableD [OF sendable_restate] by blast
  have "inbox_of i (send_to_members m g) = inbox_of i g @ (if reached i (members g) then [m] else [])"
    using assms(1) by (simp add: send_to_members_def inbox_send_to holding_def)
  moreover have "in_step i now (send_to_members m g) (receive_all now (if reached i (members g) then [m] else []) c)"
    using assms(1-3)
    by (auto simp: in_step_def target_def send_to_members_def receive_all_def msg_reads [OF m] fst_take shows_take
        state_at_def)
  moreover have "restate_current msg restate now g = (send_to_members m g, False)"
    using p s m by (simp add: restate_current_def current_state_eq)
  ultimately show ?thesis by blast
qed

lemma follows_place:
  assumes "in_step i now g c" "sendable (Some s)" "now < due"
    and "\<And>d. pending_us (sched g) = Some d \<Longrightarrow> now < d"
    and "rep \<longleftrightarrow> scheduled_sent g \<and> pending_us (sched g) \<noteq> None"
  shows "follows i now g c (fst (place_scheduled msg restate s due now rep g)) \<and>
    \<not> snd (place_scheduled msg restate s due now rep g)"
proof -
  let ?g = "(cancel_send_scheduled g)\<lparr>sched := sched_schedule (Some s) due (sched g)\<rparr>"
  let ?g2 = "?g\<lparr>handle := Some (due - MAX_SCHEDULED_LEAD_US - now, SendScheduled)\<rparr>"
  have f: "members ?g = members g" "scheduled_sent ?g = False" "inbox_of i ?g = inbox_of i g"
    "sched ?g = sched_schedule (Some s) due (sched g)" "sched (cancel_send_scheduled g) = sched g"
    by (simp_all add: cancel_send_scheduled_def)
  have ok: "holding i (members ?g)" "states_ok (sched ?g)"
    using assms(1,2) unfolding f by (simp_all add: in_step_def states_ok_schedule)
  have now_eq: "state_at (sched g) now = now_state (sched g)"
    using assms(4) by (force simp: state_at_def split: option.split)
  then have c: "reached i (members g) \<Longrightarrow> fst c = view (now_state (sched g))"
    using assms(1) by (auto simp: in_step_def target_def)
  obtain m where m: "msg (Some s) due = Some m" using assms(2) sendableD by blast
  show ?thesis
  proof (cases "due - MAX_SCHEDULED_LEAD_US - now \<le> 0")
    case True
    let ?h = "filter supports_scheduled_updates (members g)"
    let ?g' = "(send_to ?h m (?g\<lparr>handle := None, scheduled_sent := True\<rparr>))\<lparr>handle := Some (due - now, SendDue m)\<rparr>"
    have "inbox_of i ?g' = inbox_of i g @ (if reached i (members g) then [m] else [])"
      using holding_holders [of i "members g"] ok(1) unfolding f
      by (simp add: inbox_send_to holding_def distinct_map_filter cancel_send_scheduled_def)
    moreover have "in_step i now ?g' (receive_all now (if reached i (members g) then [m] else []) c)"
      using assms(3) ok c
      by (auto simp: in_step_def target_def receive_all_def msg_reads [OF m] fst_take shows_take state_at_def f
          cancel_send_scheduled_def)
    moreover have "place_scheduled msg restate s due now rep g = (?g', False)"
      using True m by (simp add: place_scheduled_def Let_def send_scheduled_def f)
    ultimately show ?thesis by (auto simp: follows_def)
  next
    case False
    have g2: "holding i (members ?g2)" "states_ok (sched ?g2)" "\<not> scheduled_sent ?g2"
      "inbox_of i ?g2 = inbox_of i g"
      using ok f by simp_all
    show ?thesis
    proof (cases rep)
      case True
      have "now < d" if "pending_us (sched ?g2) = Some d" for d using that assms(3) f(4) by simp
      from restate_current_takes [OF g2(1-3) this, of c]
      obtain g' ms where "restate_current msg restate now ?g2 = (g', False)"
        "inbox_of i g' = inbox_of i g @ ms" "in_step i now g' (receive_all now ms c)"
        unfolding g2(4) by blast
      moreover have "place_scheduled msg restate s due now rep g = restate_current msg restate now ?g2"
        using False True by (simp add: place_scheduled_def Let_def f)
      ultimately show ?thesis by (auto simp: follows_def)
    next
      case no: False
      then have "reached i (members g) \<Longrightarrow> \<forall>t\<ge>now. shows_at c t = view (now_state (sched g))"
        using assms(1,5) by (auto simp: in_step_def target_def state_at_def)
      then have "in_step i now ?g2 c" using g2(1,2) c by (simp add: in_step_def target_def f)
      moreover have "place_scheduled msg restate s due now rep g = (?g2, False)"
        using False no by (simp add: place_scheduled_def Let_def f)
      ultimately show ?thesis using g2(4) by (simp add: follows_silent)
    qed
  qed
qed

lemma follows_schedule:
  assumes "in_step i now g c" "now < due" "\<And>d. pending_us (sched g) = Some d \<Longrightarrow> now < d"
    and "schedule_state msg restate s due now g = (g', failed)"
  shows "if failed then g' = g else follows i now g c g'"
proof (cases "msg (Some s) due")
  case None
  then show ?thesis using assms(4) by (simp add: schedule_state_def)
next
  case (Some m)
  let ?rep = "scheduled_sent g \<and> pending_us (sched g) \<noteq> None"
  let ?g1 = "fst (settle_overdue msg restate now g)"
  note settled = follows_settle [OF assms(1)]
  have place: "follows i now ?g1 c1 (fst (place_scheduled msg restate s due now ?rep ?g1)) \<and>
      \<not> snd (place_scheduled msg restate s due now ?rep ?g1)" if "in_step i now ?g1 c1" for c1
    by (rule follows_place [OF that sendableI [OF Some] assms(2)]) (use assms(3) settled in auto)
  have run: "schedule_state msg restate s due now g = place_scheduled msg restate s due now ?rep ?g1"
    using Some settled by (simp add: schedule_state_def after_ok_def Let_def)
  obtain c1 where "in_step i now ?g1 c1" using settled unfolding follows_def by blast
  then have "\<not> failed" using place run assms(4) by (metis snd_conv)
  moreover have "follows i now g c g'"
    by (rule follows_trans [OF conjunct1 [OF settled]]) (use place run assms(4) in \<open>metis fst_conv\<close>)
  ultimately show ?thesis by simp
qed

lemma follows_cancel:
  assumes "in_step i now g c" "timely now g"
  shows "follows i now g c (fst (cancel_scheduled msg restate now g)) \<and> \<not> snd (cancel_scheduled msg restate now g)"
proof -
  let ?p = "g\<lparr>sched := sched_promote now (sched g)\<rparr>"
  let ?cur = "map_option (restate now) (state_at (sched g) now)"
  have p: "in_step i now ?p c" by (rule follows_promote [OF assms])
  have fp: "follows i now g c ?p" by (rule follows_silent [OF p]) simp
  have send: "sendable ?cur" using assms(1) by (simp add: in_step_def sendable_state_at sendable_restate)
  show ?thesis
  proof (cases "pending_us (sched ?p)")
    case (Some due)
    show ?thesis
    proof (cases "scheduled_sent g")
      case sent: True
      obtain g' where g': "apply_state msg ?cur now ?p = (g', False)"
        using sendableD [OF send, of now] by (auto simp: apply_state_def)
      have "follows i now ?p c' g'" if "in_step i now ?p c'" for c'
        by (rule follows_apply [OF that g']) simp
      with fp have "follows i now g c g'" by (rule follows_trans)
      then show ?thesis using Some sent g' by (simp add: cancel_scheduled_def current_state_eq)
    next
      case False
      let ?g' = "cancel_send_scheduled (?p\<lparr>sched := sched_apply ?cur (sched ?p)\<rparr>)"
      have "view ?cur = view (now_state (sched ?p))"
        using Some by (auto simp: state_at_def sched_promote_def split: option.splits if_splits)
      then have "in_step i now ?g' c"
        using p Some False send
        by (auto simp: in_step_def target_def cancel_send_scheduled_def states_ok_apply)
      moreover have "inbox_of i ?g' = inbox_of i g" by (simp add: cancel_send_scheduled_def)
      ultimately have "follows i now g c ?g'" by (rule follows_silent)
      then show ?thesis using Some False by (simp add: cancel_scheduled_def current_state_eq)
    qed
  qed (use fp in \<open>simp add: cancel_scheduled_def current_state_eq\<close>)
qed

text \<open>Whatever a member held before, joining puts it in step.\<close>

lemma join_catches_up:
  assumes "states_ok (sched g)" "timely now g" "holding i (members g)" "r \<in> set (members g)" "m_connected r" "m_holds r"
    "member_id r = i"
  shows "\<exists>g' ms. on_member_join msg restate now r g = (g', False) \<and> inbox_of i g' = inbox_of i g @ ms \<and>
    in_step i now g' (receive_all now ms c)"
proof -
  let ?p = "g\<lparr>sched := sched_promote now (sched g)\<rparr>"
  let ?cur = "map_option (restate now) (state_at (sched g) now)"
  have okp: "states_ok (sched ?p)" using assms(1) by (simp add: states_ok_promote)
  obtain m where m: "msg ?cur now = Some m"
    using sendableD [OF sendable_restate [OF sendable_state_at [OF assms(1)]]] by blast
  have in1: "inbox_of i (send_message r m ?p) = inbox_of i g @ [m]"
    using assms(5,7) by (simp add: inbox_send_message reached_def)
  have here: "reached i (members g)" using assms(4,5,7) by (auto simp: reached_def)
  show ?thesis
  proof (cases "\<exists>due. pending_us (sched ?p) = Some due \<and> scheduled_sent g")
    case True
    then obtain due where due: "pending_us (sched ?p) = Some due" "scheduled_sent g" by blast
    then have q: "sched ?p = sched g" "now < due"
      by (auto simp: sched_promote_def split: option.splits if_splits)
    obtain m' where m': "msg (pending_state (sched ?p)) due = Some m'"
      using okp sendableD by (auto simp: states_ok_def)
    have "on_member_join msg restate now r g = (send_message r m' (send_message r m ?p), False)"
      using m m' due assms(6) by (simp add: on_member_join_def current_state_eq supports_scheduled_updates_def)
    moreover have "in_step i now (send_message r m' (send_message r m ?p)) (receive_all now [m, m'] c)"
      using assms(3) okp due q
      by (auto simp: in_step_def target_def receive_all_def msg_reads [OF m] msg_reads [OF m'] fst_take shows_take
          state_at_def)
    ultimately show ?thesis
      using in1 assms(5,7) by (auto simp: inbox_send_message reached_def)
  next
    case False
    then have "on_member_join msg restate now r g = (send_message r m ?p, False)"
      using m by (auto simp: on_member_join_def current_state_eq Let_def split: option.splits)
    moreover have "in_step i now (send_message r m ?p) (receive_all now [m] c)"
      using assms(2,3) okp False
      by (auto simp: in_step_def target_def receive_all_def msg_reads [OF m] fst_take shows_take
          state_at_def timely_def sched_promote_def split: option.splits)
    ultimately show ?thesis using in1 by blast
  qed
qed

text \<open>Other members come and go, and the event loop's timer runs.\<close>

lemma join_silent:
  assumes "in_step i now g c" "timely now g" "member_id r \<noteq> i"
  shows "follows i now g c (fst (on_member_join msg restate now r g)) \<and> \<not> snd (on_member_join msg restate now r g)"
proof -
  let ?p = "g\<lparr>sched := sched_promote now (sched g)\<rparr>"
  have p: "in_step i now ?p c" by (rule follows_promote [OF assms(1,2)])
  have other: "\<not> reached i [r]" using assms(3) by (simp add: reached_def)
  have ok: "states_ok (sched g)" "states_ok (sched ?p)" using assms(1) p by (simp_all add: in_step_def)
  obtain m where m: "msg (map_option (restate now) (state_at (sched g) now)) now = Some m"
    using sendableD [OF sendable_restate [OF sendable_state_at [OF ok(1)]]] by blast
  obtain f where "\<And>t. msg (pending_state (sched ?p)) t = Some (f t)"
    using ok(2) sendableD [of "pending_state (sched ?p)"] unfolding states_ok_def by metis
  then have "\<exists>g'. on_member_join msg restate now r g = (g', False) \<and> inbox_of i g' = inbox_of i g \<and>
      sched g' = sched ?p \<and> members g' = members g \<and> scheduled_sent g' = scheduled_sent g"
    using m other
    by (auto simp: on_member_join_def current_state_eq Let_def inbox_send_message split: option.splits)
  then obtain g' where g': "on_member_join msg restate now r g = (g', False)" "inbox_of i g' = inbox_of i g"
    "sched g' = sched ?p" "members g' = members g" "scheduled_sent g' = scheduled_sent g" by blast
  have "in_step i now g' c" using p g'(3-5) by (auto intro: in_step_cong)
  then show ?thesis using g'(1,2) by (simp add: follows_silent)
qed

lemma follows_subscribe:
  assumes "in_step i now g c" "timely now g" "member_id r = i \<longrightarrow> m_connected r \<and> m_holds r"
  shows "follows i now g c (fst (subscribe msg restate now r g)) \<and> \<not> snd (subscribe msg restate now r g)"
proof (cases "member_id r \<in> set (map member_id (members g))")
  case True
  then show ?thesis using follows_refl [OF assms(1)] by (simp add: subscribe_def)
next
  case False
  let ?g = "g\<lparr>members := members g @ [r]\<rparr>"
  have sub: "subscribe msg restate now r g = on_member_join msg restate now r ?g"
    using False by (auto simp: subscribe_def)
  have hold: "holding i (members ?g)" using assms(1,3) False by (auto simp: holding_def in_step_def)
  have ok: "states_ok (sched ?g)" "timely now ?g" using assms(1,2) by (simp_all add: in_step_def timely_def)
  show ?thesis
  proof (cases "member_id r = i")
    case True
    with assms(3) join_catches_up [OF ok hold, of r c] show ?thesis
      unfolding follows_def sub by fastforce
  next
    case other: False
    then have "reached i (members ?g) = reached i (members g)" by (auto simp: reached_def)
    then have "in_step i now ?g c" using assms(1) hold by (simp add: in_step_def target_def)
    then have "follows i now ?g c (fst (on_member_join msg restate now r ?g)) \<and>
        \<not> snd (on_member_join msg restate now r ?g)" using ok(2) other by (intro join_silent)
    then show ?thesis by (simp add: sub follows_def)
  qed
qed

lemma follows_unsubscribe:
  assumes "in_step i now g c"
  shows "follows i now g c (unsubscribe j g)"
proof (rule follows_silent)
  have "reached i (filter (\<lambda>r. member_id r \<noteq> j) (members g)) \<Longrightarrow> reached i (members g)"
    by (auto simp: reached_def)
  then show "in_step i now (unsubscribe j g) c"
    using assms by (auto simp: in_step_def unsubscribe_def target_def holding_def distinct_map_filter)
qed (simp add: unsubscribe_def)

lemma follows_fire:
  assumes "in_step i now g c" "timely now g"
  shows "follows i now g c (fst (fire_timer msg now g)) \<and> \<not> snd (fire_timer msg now g)"
  using follows_send_scheduled [OF assms] follows_send_due [OF assms(1)] follows_refl [OF assms(1)]
  by (auto simp: fire_timer_def split: option.split prod.split timer_call.split)

subsection \<open>Operations built from the basic ones\<close>

lemma promoted_timely: "timely now g \<Longrightarrow> timely now (g\<lparr>sched := sched_promote now (sched g)\<rparr>)"
  by (auto simp: timely_def sched_promote_def split: option.splits)

lemma promote_follows:
  assumes "in_step i now g c" "timely now g"
    and "\<And>c. in_step i now (g\<lparr>sched := sched_promote now (sched g)\<rparr>) c \<Longrightarrow>
      follows i now (g\<lparr>sched := sched_promote now (sched g)\<rparr>) c (fst r)"
  shows "follows i now g c (fst r)"
  using follows_trans [OF follows_silent [OF follows_promote [OF assms(1,2)]] assms(3)] by simp

lemma announce_follows:
  assumes "in_step i now g c" "\<not> snd r \<Longrightarrow> follows i now g c (fst r)" "snd r \<Longrightarrow> fst r = g"
  shows "follows i now g c (fst (after_ok r (announce m l t)))"
proof (cases "snd r")
  case True
  then show ?thesis using assms(1,3) by (simp add: after_ok_def follows_refl)
next
  case False
  obtain ms where ms: "inbox_of i (fst r) = inbox_of i g @ ms" "in_step i now (fst r) (receive_all now ms c)"
    using assms(2) [OF False] unfolding follows_def by blast
  have "in_step i now (emit_group_event e (fst r)) (receive_all now ms c)" for e
    by (rule in_step_cong [OF ms(2)]) (simp_all add: emit_group_event_def)
  then show ?thesis using ms(1) False
    by (auto simp: after_ok_def announce_def emit_group_event_def follows_def)
qed

lemma apply_state_follows:
  assumes "in_step i now g c" "t \<le> now"
  shows "follows i now g c (fst (after_ok (apply_state msg m t g) (announce a l t')))"
proof (rule announce_follows [OF assms(1)])
  show "follows i now g c (fst (apply_state msg m t g))" if "\<not> snd (apply_state msg m t g)"
    by (rule follows_apply [OF assms(1) _ assms(2)]) (use that in \<open>simp add: prod_eq_iff\<close>)
qed (auto simp: apply_state_def split: option.splits)

lemma schedule_state_follows:
  assumes "in_step i now g c" "now < due" "\<And>d. pending_us (sched g) = Some d \<Longrightarrow> now < d"
  shows "follows i now g c (fst (after_ok (schedule_state msg restate m due now g) (announce a l t')))"
  using follows_schedule [OF assms(1,2,3) surjective_pairing]
  by (intro announce_follows [OF assms(1)]) auto

text \<open>Restating to members that are already in.\<close>

lemma rejoin_follows:
  assumes "in_step i now g c" "timely now g" "r \<in> set (members g)"
  shows "follows i now g c (fst (on_member_join msg restate now r g))"
proof (cases "member_id r = i")
  case True
  have hold: "holding i (members g)" and ok: "states_ok (sched g)"
    using assms(1) by (simp_all add: in_step_def)
  then have "m_connected r \<and> m_holds r"
    using True assms(3) by (auto simp: holding_def)
  then show ?thesis
    using join_catches_up [OF ok assms(2) hold assms(3), of c] True unfolding follows_def by fastforce
next
  case False
  then show ?thesis using join_silent [OF assms(1,2)] by blast
qed

lemma restate_members_follows:
  "in_step i now g c \<Longrightarrow> timely now g \<Longrightarrow> set rs \<subseteq> set (members g) \<Longrightarrow>
    follows i now g c (fst (run_all (on_member_join msg restate now) rs g))"
proof (induction rs arbitrary: g c)
  case Nil
  then show ?case by (simp add: follows_refl)
next
  case (Cons r rs)
  let ?r = "on_member_join msg restate now r g"
  have first: "follows i now g c (fst ?r)" using Cons.prems by (intro rejoin_follows) auto
  have "timely now (fst ?r)"
    using promoted_timely [OF Cons.prems(2)] by (simp add: timely_def join_fields)
  moreover have "set rs \<subseteq> set (members (fst ?r))" using Cons.prems(3) by (simp add: join_fields)
  ultimately have "follows i now (fst ?r) c' (fst (run_all (on_member_join msg restate now) rs (fst ?r)))"
    if "in_step i now (fst ?r) c'" for c'
    using Cons.IH that by blast
  with first show ?case by (cases "snd ?r") (auto simp: after_ok_def intro: follows_trans)
qed

end

end
