(* ===== verification/Metadata_Group.thy ===== *)
theory Metadata_Group
  imports Complex_Main Scheduled_Members
begin

text \<open>
  The metadata role: \<open>Metadata\<close> (\<open>server/roles/metadata/state.py\<close>), its wire form
  (\<open>models/metadata.py\<close>) and \<open>MetadataGroupRole\<close> (\<open>server/roles/metadata/group.py\<close>). A
  \<open>Metadata\<close> value is one that passed its constructor. Python's floats appear in one place, the
  drift that \<open>equals\<close> tolerates: \<open>fl\<close> is the rounding to a float of an exact result.
\<close>

subsection \<open>Metadata\<close>

datatype repeat_mode = REPEAT_OFF | REPEAT_ONE | REPEAT_ALL

record metadata =
  title :: "string option"
  artist :: "string option"
  album_artist :: "string option"
  album :: "string option"
  artwork_url :: "string option"
  year :: "int option"
  track :: "int option"
  md_repeat :: "repeat_mode option"
  md_shuffle :: "bool option"
  track_progress :: "int option"
  track_duration :: "int option"
  playback_speed :: "int option"
  timestamp_us :: "int option"

definition empty_metadata :: metadata where
  "empty_metadata = \<lparr>title = None, artist = None, album_artist = None, album = None, artwork_url = None,
     year = None, track = None, md_repeat = None, md_shuffle = None, track_progress = None,
     track_duration = None, playback_speed = None, timestamp_us = None\<rparr>"

text \<open>The constructor's check; \<open>dataclasses.replace\<close> runs it too.\<close>

definition make_metadata :: "metadata \<Rightarrow> metadata option" where
  "make_metadata m = (if track_progress m \<noteq> None \<and> playback_speed m = None then None else Some m)"

definition same_fields :: "metadata \<Rightarrow> metadata \<Rightarrow> bool" where
  "same_fields a b \<longleftrightarrow> title a = title b \<and> artist a = artist b \<and> album_artist a = album_artist b \<and>
     album a = album b \<and> artwork_url a = artwork_url b \<and> year a = year b \<and> track a = track b \<and>
     track_duration a = track_duration b \<and> playback_speed a = playback_speed b"

definition progress_drift :: "(rat \<Rightarrow> rat) \<Rightarrow> metadata \<Rightarrow> int \<Rightarrow> int \<Rightarrow> int \<Rightarrow> int \<Rightarrow> rat" where
  "progress_drift fl a t t' p p' =
     (let time_diff_ms = fl (of_int (t' - t) / 1000);
          speed = (case playback_speed a of None \<Rightarrow> 1000 | Some s \<Rightarrow> s);
          expected_change = fl (time_diff_ms * fl (of_int speed / 1000))
      in abs (fl (fl (of_int (p' - p)) - expected_change)))"

definition metadata_equals :: "(rat \<Rightarrow> rat) \<Rightarrow> metadata \<Rightarrow> metadata option \<Rightarrow> int \<Rightarrow> bool" where
  "metadata_equals fl a other tolerance_ms =
     (case other of
        None \<Rightarrow> False
      | Some b \<Rightarrow>
          if \<not> same_fields a b then False
          else (case (track_progress a, track_progress b) of
                  (None, None) \<Rightarrow> True
                | (Some p, Some p') \<Rightarrow>
                    (case (timestamp_us a, timestamp_us b) of
                       (Some t, Some t') \<Rightarrow> progress_drift fl a t t' p p' \<le> of_int tolerance_ms
                     | _ \<Rightarrow> \<bar>p - p'\<bar> \<le> tolerance_ms)
                | _ \<Rightarrow> False))"

definition track_progress_at :: "int \<Rightarrow> metadata \<Rightarrow> int option" where
  "track_progress_at t m =
     (case track_progress m of
        None \<Rightarrow> None
      | Some p \<Rightarrow>
          (case (timestamp_us m, playback_speed m) of
             (Some t0, Some speed) \<Rightarrow>
               (let elapsed_ms = ((t - t0) * speed) div 1000000;
                    progress = max 0 (p + elapsed_ms)
                in case track_duration m of
                     Some d \<Rightarrow> Some (if d > 0 then min progress d else progress)
                   | None \<Rightarrow> Some progress)
           | _ \<Rightarrow> Some p))"

subsection \<open>The wire form\<close>

record progress =
  pr_progress :: int
  pr_duration :: int
  pr_speed :: int

definition make_progress :: "int \<Rightarrow> int \<Rightarrow> int \<Rightarrow> progress option" where
  "make_progress p d s =
     (if p < 0 then None else if d < 0 then None else if s < 0 then None
      else Some \<lparr>pr_progress = p, pr_duration = d, pr_speed = s\<rparr>)"

record metadata_update =
  mu_timestamp :: int
  mu_title :: "string option"
  mu_artist :: "string option"
  mu_album_artist :: "string option"
  mu_album :: "string option"
  mu_artwork_url :: "string option"
  mu_year :: "int option"
  mu_track :: "int option"
  mu_progress :: "progress option"

definition make_update :: "metadata_update \<Rightarrow> metadata_update option" where
  "make_update u =
     (if (case mu_year u of Some y \<Rightarrow> y < 0 | None \<Rightarrow> False) then None
      else if (case mu_track u of Some t \<Rightarrow> t \<le> 0 | None \<Rightarrow> False) then None
      else Some u)"

definition blank_update :: "int \<Rightarrow> metadata_update" where
  "blank_update t = \<lparr>mu_timestamp = t, mu_title = None, mu_artist = None, mu_album_artist = None,
     mu_album = None, mu_artwork_url = None, mu_year = None, mu_track = None, mu_progress = None\<rparr>"

definition carry :: "metadata \<Rightarrow> int \<Rightarrow> progress option \<Rightarrow> metadata_update" where
  "carry m t p = \<lparr>mu_timestamp = t, mu_title = title m, mu_artist = artist m, mu_album_artist = album_artist m,
     mu_album = album m, mu_artwork_url = artwork_url m, mu_year = year m, mu_track = track m, mu_progress = p\<rparr>"

definition snapshot_update :: "metadata \<Rightarrow> int \<Rightarrow> metadata_update option" where
  "snapshot_update m t =
     (case (track_progress m, playback_speed m) of
        (Some p, Some s) \<Rightarrow>
          (case make_progress p (case track_duration m of Some d \<Rightarrow> d | None \<Rightarrow> 0) s of
             None \<Rightarrow> None
           | Some pr \<Rightarrow> make_update (carry m t (Some pr)))
      | _ \<Rightarrow> make_update (carry m t None))"

definition metadata_message :: "metadata option \<Rightarrow> int \<Rightarrow> metadata_update option" where
  "metadata_message x t = (case x of None \<Rightarrow> make_update (blank_update t) | Some m \<Rightarrow> snapshot_update m t)"

subsection \<open>The group role\<close>

type_synonym metadata_role = "(metadata, metadata_update) grole"

definition at_time :: "int \<Rightarrow> metadata \<Rightarrow> metadata" where
  "at_time t m = m\<lparr>track_progress := track_progress_at t m, timestamp_us := Some t\<rparr>"

definition current_metadata :: "int \<Rightarrow> metadata_role \<Rightarrow> metadata option \<times> metadata_role" where
  "current_metadata now g = (let (m, st) = sched_current now (sched g) in (m, g\<lparr>sched := st\<rparr>))"

definition current_progress :: "int \<Rightarrow> metadata_role \<Rightarrow> int option \<times> metadata_role" where
  "current_progress now g =
     (let (m, g) = current_metadata now g in
      ((case m of None \<Rightarrow> None | Some m \<Rightarrow> track_progress_at now m), g))"

definition apply_metadata :: "(rat \<Rightarrow> rat) \<Rightarrow> metadata option \<Rightarrow> int option \<Rightarrow> bool \<Rightarrow> int \<Rightarrow> metadata_role
    \<Rightarrow> metadata_role \<times> bool" where
  "apply_metadata fl md ts force now g =
     (let t = (case ts of None \<Rightarrow> now | Some t \<Rightarrow> t) in
      if md = None \<and> t > now then (g, True)
      else
        let (last_md, g) = current_metadata now g;
            md = map_option (at_time t) md
        in case md of
             Some m \<Rightarrow>
               if t > now
               then after_ok (schedule_state metadata_message at_time m t now g) (announce md last_md t)
               else if pending_us (sched g) = None \<and> \<not> force \<and> metadata_equals fl m last_md 500 then (g, False)
               else after_ok (apply_state metadata_message md t g) (announce md last_md t)
           | None \<Rightarrow>
               if pending_us (sched g) = None \<and> \<not> force \<and> last_md = None then (g, False)
               else after_ok (apply_state metadata_message md t g) (announce md last_md t))"

definition set_metadata :: "(rat \<Rightarrow> rat) \<Rightarrow> metadata option \<Rightarrow> int option \<Rightarrow> int \<Rightarrow> metadata_role
    \<Rightarrow> metadata_role \<times> bool" where
  "set_metadata fl md ts now g = apply_metadata fl md ts False now g"

definition clear_metadata :: "(rat \<Rightarrow> rat) \<Rightarrow> int \<Rightarrow> metadata_role \<Rightarrow> metadata_role \<times> bool" where
  "clear_metadata fl now g = set_metadata fl None None now g"

definition seek :: "(rat \<Rightarrow> rat) \<Rightarrow> int \<Rightarrow> int \<Rightarrow> metadata_role \<Rightarrow> metadata_role \<times> bool" where
  "seek fl p now g =
     (let (md, g) = current_metadata now g in
      case md of
        None \<Rightarrow> (g, True)
      | Some m \<Rightarrow>
          if playback_speed m = None then (g, True)
          else apply_metadata fl (Some (m\<lparr>track_progress := Some p, timestamp_us := None\<rparr>)) None True now g)"

definition freeze_progress :: "(rat \<Rightarrow> rat) \<Rightarrow> int \<Rightarrow> metadata_role \<Rightarrow> metadata_role \<times> bool" where
  "freeze_progress fl now g =
     (let (md, g) = current_metadata now g in
      case md of
        None \<Rightarrow> cancel_scheduled metadata_message at_time now g
      | Some m \<Rightarrow>
          (let (p, g) = current_progress now g in
           case p of
             None \<Rightarrow> cancel_scheduled metadata_message at_time now g
           | Some p \<Rightarrow>
               set_metadata fl (Some (m\<lparr>track_progress := Some p, playback_speed := Some 0\<rparr>)) None now g))"

definition reset_progress :: "(rat \<Rightarrow> rat) \<Rightarrow> int \<Rightarrow> metadata_role \<Rightarrow> metadata_role \<times> bool" where
  "reset_progress fl now g =
     (let (md, g) = current_metadata now g in
      case md of
        None \<Rightarrow> cancel_scheduled metadata_message at_time now g
      | Some m \<Rightarrow>
          if track_progress m = None then cancel_scheduled metadata_message at_time now g
          else if track_progress m = Some 0 \<and> playback_speed m = Some 0
          then cancel_scheduled metadata_message at_time now g
          else apply_metadata fl
                 (Some (m\<lparr>track_progress := Some 0, playback_speed := Some 0, timestamp_us := None\<rparr>)) None True now g)"

text \<open>An argument of \<open>update\<close> is \<open>_UNSET\<close> (\<open>None\<close> here) or a value, which may itself be \<open>None\<close>.\<close>

record metadata_changes =
  c_title :: "string option option"
  c_artist :: "string option option"
  c_album_artist :: "string option option"
  c_album :: "string option option"
  c_artwork_url :: "string option option"
  c_year :: "int option option"
  c_track :: "int option option"
  c_track_progress :: "int option option"
  c_track_duration :: "int option option"
  c_playback_speed :: "int option option"

definition or_keep :: "'a option \<Rightarrow> 'a \<Rightarrow> 'a" where
  "or_keep c old = (case c of None \<Rightarrow> old | Some v \<Rightarrow> v)"

definition no_changes :: "metadata_changes \<Rightarrow> bool" where
  "no_changes c \<longleftrightarrow> c_title c = None \<and> c_artist c = None \<and> c_album_artist c = None \<and> c_album c = None \<and>
     c_artwork_url c = None \<and> c_year c = None \<and> c_track c = None \<and> c_track_progress c = None \<and>
     c_track_duration c = None \<and> c_playback_speed c = None"

definition changed :: "metadata_changes \<Rightarrow> metadata \<Rightarrow> int option \<Rightarrow> metadata" where
  "changed c m p = m\<lparr>title := or_keep (c_title c) (title m), artist := or_keep (c_artist c) (artist m),
     album_artist := or_keep (c_album_artist c) (album_artist m), album := or_keep (c_album c) (album m),
     artwork_url := or_keep (c_artwork_url c) (artwork_url m), year := or_keep (c_year c) (year m),
     track := or_keep (c_track c) (track m), track_progress := p,
     track_duration := or_keep (c_track_duration c) (track_duration m),
     playback_speed := or_keep (c_playback_speed c) (playback_speed m), timestamp_us := None\<rparr>"

definition update_metadata :: "(rat \<Rightarrow> rat) \<Rightarrow> metadata_changes \<Rightarrow> int \<Rightarrow> metadata_role
    \<Rightarrow> metadata_role \<times> bool" where
  "update_metadata fl c now g =
     (let (md, g) = current_metadata now g;
          m = (case md of None \<Rightarrow> empty_metadata | Some m \<Rightarrow> m)
      in if no_changes c then (g, False)
         else
           let (p, g) = (if c_track_progress c \<noteq> None \<or> track_progress m = None
                         then (or_keep (c_track_progress c) (track_progress m), g)
                         else current_progress now g)
           in case make_metadata (changed c m p) of
                None \<Rightarrow> (g, True)
              | Some m' \<Rightarrow> set_metadata fl (Some m') None now g)"

definition restate_to_legacy_members :: "int \<Rightarrow> metadata_role \<Rightarrow> metadata_role \<times> bool" where
  "restate_to_legacy_members now g =
     run_all (on_member_join metadata_message at_time now)
       (filter (\<lambda>r. m_connected r \<and> m_reads_repeat r) (members g)) g"


subsection \<open>The contract of the metadata role\<close>

lemma make_update_Some: "make_update u = Some v \<Longrightarrow> v = u"
  by (auto simp: make_update_def split: option.splits if_splits)

lemma make_update_carry: "make_update (carry m t p) = Some u \<longleftrightarrow> u = carry m t p \<and> make_update (carry m 0 None) \<noteq> None"
  by (auto simp: make_update_def carry_def split: option.splits)

lemma track_progress_at_None [simp]: "track_progress_at t m = None \<longleftrightarrow> track_progress m = None"
  by (auto simp: track_progress_at_def Let_def split: option.split)

lemma track_progress_at_nonneg:
  "track_progress_at t m = Some q \<Longrightarrow> track_progress m = Some p \<Longrightarrow> 0 \<le> p \<Longrightarrow> 0 \<le> q"
  by (auto simp: track_progress_at_def Let_def min_def max_def split: option.splits if_splits)

definition duration_or_0 :: "metadata \<Rightarrow> int" where
  "duration_or_0 m = (case track_duration m of Some d \<Rightarrow> d | None \<Rightarrow> 0)"

definition position :: "metadata \<Rightarrow> progress option" where
  "position m = (if track_progress m \<noteq> None \<and> playback_speed m \<noteq> None
     then Some \<lparr>pr_progress = the (track_progress m), pr_duration = duration_or_0 m, pr_speed = the (playback_speed m)\<rparr>
     else None)"

definition wire_ok :: "metadata \<Rightarrow> bool" where
  "wire_ok m \<longleftrightarrow> make_update (carry m 0 None) \<noteq> None \<and>
     (case position m of None \<Rightarrow> True | Some p \<Rightarrow> 0 \<le> pr_progress p \<and> 0 \<le> pr_duration p \<and> 0 \<le> pr_speed p)"

lemma snapshot_eq: "snapshot_update m t = (if wire_ok m then Some (carry m t (position m)) else None)"
proof (cases "track_progress m")
  case None
  then show ?thesis
    using make_update_carry [of m t None]
    by (cases "make_update (carry m t None)") (auto simp: snapshot_update_def position_def wire_ok_def)
next
  case (Some p)
  show ?thesis
  proof (cases "playback_speed m")
    case None
    with Some show ?thesis
      using make_update_carry [of m t None]
      by (cases "make_update (carry m t None)") (auto simp: snapshot_update_def position_def wire_ok_def)
  next
    case (Some s)
    let ?pr = "\<lparr>pr_progress = p, pr_duration = duration_or_0 m, pr_speed = s\<rparr>"
    have "position m = Some ?pr" using Some \<open>track_progress m = Some p\<close> by (simp add: position_def)
    then show ?thesis
      using Some \<open>track_progress m = Some p\<close> make_update_carry [of m t "Some ?pr"]
      by (cases "make_update (carry m t (Some ?pr))")
         (auto simp: snapshot_update_def make_progress_def wire_ok_def duration_or_0_def [symmetric])
  qed
qed

lemma position_at_time:
  "position (at_time t m) = map_option (\<lambda>p. p\<lparr>pr_progress := the (track_progress_at t m)\<rparr>) (position m)"
  by (auto simp: position_def at_time_def duration_or_0_def)

lemma carry_at_time [simp]: "carry (at_time t m) t' p = carry m t' p"
  by (simp add: carry_def at_time_def)

lemma wire_ok_at_time: "wire_ok m \<Longrightarrow> wire_ok (at_time t m)"
proof -
  assume ok: "wire_ok m"
  have "0 \<le> the (track_progress_at t m)" if "position m = Some p" for p
  proof -
    have p: "track_progress m = Some (pr_progress p)" using that by (auto simp: position_def split: if_splits)
    then obtain q where "track_progress_at t m = Some q" by (cases "track_progress_at t m") auto
    then show ?thesis using ok that p track_progress_at_nonneg [of t m q] by (simp add: wire_ok_def)
  qed
  then show ?thesis using ok by (cases "position m") (auto simp: wire_ok_def position_at_time)
qed

text \<open>What a display shows, the playback position apart, which runs on by itself.\<close>

definition display :: "metadata option \<Rightarrow> metadata_update" where
  "display x = (case x of None \<Rightarrow> blank_update 0
     | Some m \<Rightarrow> carry m 0 (map_option (\<lambda>p. p\<lparr>pr_progress := 0\<rparr>) (position m)))"

definition read_update :: "metadata_update \<Rightarrow> metadata_update \<times> int" where
  "read_update u = (u\<lparr>mu_timestamp := 0, mu_progress := map_option (\<lambda>p. p\<lparr>pr_progress := 0\<rparr>) (mu_progress u)\<rparr>,
     mu_timestamp u)"

lemma read_carry: "read_update (carry m t p) = (carry m 0 (map_option (\<lambda>p. p\<lparr>pr_progress := 0\<rparr>) p), t)"
  by (simp add: read_update_def carry_def)

lemma message_None: "metadata_message None t = Some (blank_update t)"
  by (simp add: metadata_message_def make_update_def blank_update_def)

interpretation md: scheduled_role metadata_message at_time display read_update
proof
  fix x t m
  assume "metadata_message x t = Some m"
  then show "read_update m = (display x, t)"
    by (cases x)
       (auto simp: message_None metadata_message_def snapshot_eq read_carry display_def split: if_splits,
        auto simp: blank_update_def read_update_def make_update_def)
next
  fix t show "metadata_message None t \<noteq> None"
    by (simp add: message_None)
next
  fix x t t'
  assume "metadata_message x t \<noteq> None"
  then show "metadata_message x t' \<noteq> None"
    by (cases x) (auto simp: message_None, auto simp: metadata_message_def snapshot_eq split: if_splits)
next
  fix s t now
  assume "metadata_message (Some s) t \<noteq> None"
  then show "metadata_message (Some (at_time now s)) t \<noteq> None"
    by (auto simp: metadata_message_def snapshot_eq wire_ok_at_time split: if_splits)
next
  fix now s
  have "position (at_time now s) = None \<longleftrightarrow> position s = None" by (simp add: position_at_time)
  then show "display (Some (at_time now s)) = display (Some s)"
    by (cases "position s") (auto simp: display_def position_at_time)
qed

subsection \<open>Every operation keeps the members in step\<close>

text \<open>The outcome of an operation: whether or not it raised, the member follows.\<close>

abbreviation md_follows :: "nat \<Rightarrow> int \<Rightarrow> metadata_role \<Rightarrow> metadata_update holder \<Rightarrow> metadata_role \<times> bool \<Rightarrow> bool" where
  "md_follows i now g c r \<equiv> md.follows i now g c (fst r)"

lemma current_metadata_eq:
  "current_metadata now g = (state_at (sched g) now, g\<lparr>sched := sched_promote now (sched g)\<rparr>)"
  by (simp add: current_metadata_def sched_current_def sched_current_state_at [symmetric])

lemma apply_metadata_follows:
  assumes "md.in_step i now g c" "md.timely now g"
  shows "md_follows i now g c (apply_metadata fl m ts force now g)"
proof (cases "m = None \<and> (case ts of None \<Rightarrow> now | Some t \<Rightarrow> t) > now")
  case True
  then show ?thesis by (simp add: apply_metadata_def Let_def md.follows_refl [OF assms(1)])
next
  case False
  let ?p = "g\<lparr>sched := sched_promote now (sched g)\<rparr>"
  show ?thesis
  proof (rule md.promote_follows [OF assms])
    fix c assume p: "md.in_step i now ?p c"
    have later: "now < d" if "pending_us (sched ?p) = Some d" for d using that promoted_later by simp
    note rules = md.follows_refl [OF p] md.apply_state_follows [OF p] md.schedule_state_follows [OF p _ later]
    show "md_follows i now ?p c (apply_metadata fl m ts force now g)"
      using False
      by (cases m) (auto simp: apply_metadata_def Let_def current_metadata_eq not_less intro: rules split: if_splits)
  qed
qed

lemma set_metadata_follows:
  assumes "md.in_step i now g c" "md.timely now g"
  shows "md_follows i now g c (set_metadata fl m ts now g)"
    and "md_follows i now g c (clear_metadata fl now g)"
  using apply_metadata_follows [OF assms] by (simp_all add: set_metadata_def clear_metadata_def)

text \<open>Operations that first read the metadata, and so promote it, and then act on what they read.\<close>

lemma after_read_follows:
  assumes "md.in_step i now g c" "md.timely now g"
    and "\<And>c. md.in_step i now (g\<lparr>sched := sched_promote now (sched g)\<rparr>) c \<Longrightarrow>
      md.timely now (g\<lparr>sched := sched_promote now (sched g)\<rparr>) \<Longrightarrow>
      md_follows i now (g\<lparr>sched := sched_promote now (sched g)\<rparr>) c
        (f (state_at (sched g) now) (g\<lparr>sched := sched_promote now (sched g)\<rparr>))"
  shows "md_follows i now g c (let (m, g) = current_metadata now g in f m g)"
  using md.promote_follows [OF assms(1,2), where r = "f (state_at (sched g) now) (g\<lparr>sched := sched_promote now (sched g)\<rparr>)"]
    assms(3) md.promoted_timely [OF assms(2)]
  by (simp add: current_metadata_eq)

lemma seek_follows:
  assumes "md.in_step i now g c" "md.timely now g"
  shows "md_follows i now g c (seek fl p now g)"
  unfolding seek_def
  by (rule after_read_follows [OF assms]) (auto split: option.split intro: apply_metadata_follows md.follows_refl)

lemma cancel_follows:
  assumes "md.in_step i now g c" "md.timely now g"
  shows "md_follows i now g c (cancel_scheduled metadata_message at_time now g)"
  using md.follows_cancel [OF assms] by blast

lemma current_progress_eq:
  "current_progress now (g\<lparr>sched := sched_promote now (sched g)\<rparr>) =
    ((case state_at (sched g) now of None \<Rightarrow> None | Some m \<Rightarrow> track_progress_at now m),
     g\<lparr>sched := sched_promote now (sched g)\<rparr>)"
  by (simp add: current_progress_def current_metadata_eq)

lemma freeze_follows:
  assumes "md.in_step i now g c" "md.timely now g"
  shows "md_follows i now g c (freeze_progress fl now g)"
  unfolding freeze_progress_def
  by (rule after_read_follows [OF assms])
     (auto simp: current_progress_eq split: option.split intro: cancel_follows set_metadata_follows(1))

lemma reset_follows:
  assumes "md.in_step i now g c" "md.timely now g"
  shows "md_follows i now g c (reset_progress fl now g)"
  unfolding reset_progress_def
  by (rule after_read_follows [OF assms]) (auto split: option.split intro: cancel_follows apply_metadata_follows)

lemma update_follows:
  assumes "md.in_step i now g c" "md.timely now g"
  shows "md_follows i now g c (update_metadata fl ch now g)"
  unfolding update_metadata_def
  by (rule after_read_follows [OF assms])
     (auto simp: current_progress_eq Let_def split: option.split intro: set_metadata_follows(1) md.follows_refl)

subsection \<open>The role as a machine\<close>

datatype metadata_op = SetMetadata "metadata option" "int option" | ClearMetadata | Seek int | Freeze | ResetProgress
  | UpdateMetadata metadata_changes | CancelScheduled | RestateLegacy | ReadMetadata | ReadProgress
  | TimerFires | Subscribe member | Unsubscribe nat

fun metadata_step :: "(rat \<Rightarrow> rat) \<Rightarrow> int \<Rightarrow> metadata_op \<Rightarrow> metadata_role \<Rightarrow> metadata_role" where
  "metadata_step fl now (SetMetadata m ts) g = fst (set_metadata fl m ts now g)"
| "metadata_step fl now ClearMetadata g = fst (clear_metadata fl now g)"
| "metadata_step fl now (Seek p) g = fst (seek fl p now g)"
| "metadata_step fl now Freeze g = fst (freeze_progress fl now g)"
| "metadata_step fl now ResetProgress g = fst (reset_progress fl now g)"
| "metadata_step fl now (UpdateMetadata c) g = fst (update_metadata fl c now g)"
| "metadata_step fl now CancelScheduled g = fst (cancel_scheduled metadata_message at_time now g)"
| "metadata_step fl now RestateLegacy g = fst (restate_to_legacy_members now g)"
| "metadata_step fl now ReadMetadata g = snd (current_metadata now g)"
| "metadata_step fl now ReadProgress g = snd (current_progress now g)"
| "metadata_step fl now TimerFires g = fst (fire_timer metadata_message now g)"
| "metadata_step fl now (Subscribe r) g = fst (subscribe metadata_message at_time now r g)"
| "metadata_step fl now (Unsubscribe j) g = unsubscribe j g"

text \<open>When member \<open>i\<close> joins, it does so with a connection that holds scheduled updates.\<close>

definition metadata_joins :: "nat \<Rightarrow> metadata_op \<Rightarrow> bool" where
  "metadata_joins i e \<longleftrightarrow> (case e of Subscribe r \<Rightarrow> member_id r = i \<longrightarrow> m_connected r \<and> m_holds r | _ \<Rightarrow> True)"

lemma metadata_step_follows:
  assumes "md.in_step i now g c" "md.timely now g" "metadata_joins i e"
  shows "md.follows i now g c (metadata_step fl now e g)"
proof (cases e)
  case RestateLegacy
  then show ?thesis
    using md.restate_members_follows [OF assms(1,2)] by (simp add: restate_to_legacy_members_def)
next
  case ReadMetadata
  then show ?thesis
    using md.follows_silent [OF md.follows_promote [OF assms(1,2)]] by (simp add: current_metadata_eq)
next
  case ReadProgress
  then show ?thesis
    using md.follows_silent [OF md.follows_promote [OF assms(1,2)]]
    by (simp add: current_progress_def current_metadata_eq)
qed (use assms set_metadata_follows [OF assms(1,2)] seek_follows [OF assms(1,2)] freeze_follows [OF assms(1,2)]
      reset_follows [OF assms(1,2)] update_follows [OF assms(1,2)] cancel_follows [OF assms(1,2)]
      md.follows_fire [OF assms(1,2)] md.follows_subscribe [OF assms(1,2)] md.follows_unsubscribe [OF assms(1)]
    in \<open>auto simp: metadata_joins_def\<close>)

subsection \<open>The playback position\<close>

lemma floor_div_add:
  fixes a b c :: int assumes "0 < c"
  shows "a div c + b div c \<le> (a + b) div c" "(a + b) div c \<le> a div c + b div c + 1"
proof -
  have r: "0 \<le> a mod c + b mod c" "a mod c + b mod c < 2 * c"
    using pos_mod_bound [OF assms, of a] pos_mod_bound [OF assms, of b] pos_mod_sign [OF assms, of a]
      pos_mod_sign [OF assms, of b] by linarith+
  let ?q = "(a mod c + b mod c) div c"
  have "c * ?q \<le> a mod c + b mod c" by (metis assms mult_div_mod_eq le_add_same_cancel1 pos_mod_sign)
  with r(2) have "c * ?q < c * 2" by simp
  then have "?q < 2" using assms by simp
  moreover have "0 \<le> ?q" using r(1) assms by (simp add: pos_imp_zdiv_nonneg_iff)
  ultimately have "0 \<le> ?q" "?q < 2" by simp_all
  then show "a div c + b div c \<le> (a + b) div c" "(a + b) div c \<le> a div c + b div c + 1"
    by (simp_all add: div_add1_eq [of a b c])
qed

text \<open>Restating a playing position costs at most a millisecond: the position a client extrapolates
  from a restated one is never ahead of the original's and at most one millisecond behind, and it stays
  within a known duration.\<close>

theorem restated_position_close:
  assumes "track_progress m = Some p" and "0 \<le> p" and "playback_speed m = Some s" and "0 \<le> s"
    and "timestamp_us m = Some t0" and "t0 \<le> t1" and "t1 \<le> t2"
  shows "\<exists>q q'. track_progress_at t2 m = Some q \<and> track_progress_at t2 (at_time t1 m) = Some q' \<and>
    0 \<le> q' \<and> q' \<le> q \<and> q \<le> q' + 1 \<and> (\<forall>d. track_duration m = Some d \<longrightarrow> 0 < d \<longrightarrow> q \<le> d)"
proof -
  let ?a = "((t1 - t0) * s) div 1000000" and ?b = "((t2 - t1) * s) div 1000000" and ?c = "((t2 - t0) * s) div 1000000"
  have "(t2 - t0) * s = (t1 - t0) * s + (t2 - t1) * s" by (simp add: algebra_simps)
  then have sum: "?a + ?b \<le> ?c" "?c \<le> ?a + ?b + 1"
    using floor_div_add [of 1000000 "(t1 - t0) * s" "(t2 - t1) * s"] by simp_all
  have pos: "0 \<le> ?a" "0 \<le> ?b" "0 \<le> ?c" using assms(4,6,7) by (simp_all add: pos_imp_zdiv_nonneg_iff)
  show ?thesis
    using assms(1-3,5) sum pos
    by (cases "track_duration m") (auto simp: track_progress_at_def at_time_def Let_def min_def max_def)
qed

theorem restated_position_close_witness:
  "track_progress_at 3000 (at_time 1500 (empty_metadata\<lparr>track_progress := Some 7, playback_speed := Some 1000,
     timestamp_us := Some 0\<rparr>)) \<in> {Some 9, Some 10}"
  using restated_position_close [of "empty_metadata\<lparr>track_progress := Some 7, playback_speed := Some 1000,
     timestamp_us := Some 0\<rparr>" 7 1000 0 1500 3000]
  by (auto simp: track_progress_at_def empty_metadata_def)

end
