(* ===== verification/Color_Group.thy ===== *)
theory Color_Group
  imports Complex_Main Scheduled_Members
begin

text \<open>
  The color role: \<open>Color\<close> and its contrast checks (\<open>server/roles/color/state.py\<close>), its wire form
  (\<open>models/color.py\<close>) and \<open>ColorGroupRole\<close> (\<open>server/roles/color/group.py\<close>). Float arithmetic is
  exact arithmetic followed by the rounding \<open>fl\<close>; the library's power \<open>x ** 2.4\<close> is \<open>pow24\<close>.
\<close>

subsection \<open>Palettes\<close>

type_synonym rgb = "int list"

definition validate_rgb :: "rgb \<Rightarrow> bool" where
  "validate_rgb v \<longleftrightarrow> length v = 3 \<and> list_all (\<lambda>c. 0 \<le> c \<and> c \<le> 255) v"

record color =
  background_dark :: "rgb option"
  background_light :: "rgb option"
  primary :: "rgb option"
  accent :: "rgb option"
  on_dark :: "rgb option"
  on_light :: "rgb option"

definition empty_color :: color where
  "empty_color = \<lparr>background_dark = None, background_light = None, primary = None, accent = None,
     on_dark = None, on_light = None\<rparr>"

definition rgb_fields :: "color \<Rightarrow> rgb option list" where
  "rgb_fields c = [background_dark c, background_light c, primary c, accent c, on_dark c, on_light c]"

definition channel_luminance :: "(rat \<Rightarrow> rat) \<Rightarrow> (rat \<Rightarrow> rat) \<Rightarrow> int \<Rightarrow> rat" where
  "channel_luminance fl pow24 c =
     (let s = fl (of_int c / 255) in
      if s \<le> fl (3928 / 100000) then fl (s / fl (1292 / 100))
      else pow24 (fl (fl (s + fl (55 / 1000)) / fl (1055 / 1000))))"

definition relative_luminance :: "(rat \<Rightarrow> rat) \<Rightarrow> (rat \<Rightarrow> rat) \<Rightarrow> rgb \<Rightarrow> rat" where
  "relative_luminance fl pow24 v =
     (let ch = channel_luminance fl pow24 in
      fl (fl (fl (fl (2126 / 10000) * ch (v ! 0)) + fl (fl (7152 / 10000) * ch (v ! 1)))
        + fl (fl (722 / 10000) * ch (v ! 2))))"

definition contrast_ratio :: "(rat \<Rightarrow> rat) \<Rightarrow> (rat \<Rightarrow> rat) \<Rightarrow> rgb \<Rightarrow> rgb \<Rightarrow> rat" where
  "contrast_ratio fl pow24 a b =
     (let la = relative_luminance fl pow24 a; lb = relative_luminance fl pow24 b;
          (lighter, darker) = (if la \<ge> lb then (la, lb) else (lb, la))
      in fl (fl (lighter + fl (5 / 100)) / fl (darker + fl (5 / 100))))"

definition enough_contrast :: "(rat \<Rightarrow> rat) \<Rightarrow> (rat \<Rightarrow> rat) \<Rightarrow> rgb \<Rightarrow> rgb \<Rightarrow> bool" where
  "enough_contrast fl pow24 a b \<longleftrightarrow> \<not> contrast_ratio fl pow24 a b < 9 / 2"

definition WHITE :: rgb where "WHITE = [255, 255, 255]"
definition BLACK :: rgb where "BLACK = [0, 0, 0]"

fun against :: "(rgb \<Rightarrow> rgb \<Rightarrow> bool) \<Rightarrow> rgb option \<Rightarrow> rgb option \<Rightarrow> bool" where
  "against ok (Some a) (Some b) = ok a b"
| "against ok _ _ = True"

text \<open>\<open>Color(...)\<close>: \<open>None\<close> where the constructor raises.\<close>

definition make_color :: "(rat \<Rightarrow> rat) \<Rightarrow> (rat \<Rightarrow> rat) \<Rightarrow> color \<Rightarrow> color option" where
  "make_color fl pow24 c =
     (let ok = enough_contrast fl pow24 in
      if \<not> list_all (\<lambda>v. case v of None \<Rightarrow> True | Some v \<Rightarrow> validate_rgb v) (rgb_fields c) then None
      else if \<not> against ok (background_dark c) (Some WHITE) then None
      else if \<not> against ok (background_dark c) (on_dark c) then None
      else if \<not> against ok (background_light c) (Some BLACK) then None
      else if \<not> against ok (background_light c) (on_light c) then None
      else if \<not> against ok (on_dark c) (Some BLACK) then None
      else if \<not> against ok (on_light c) (Some WHITE) then None
      else Some c)"

subsection \<open>The wire form\<close>

record color_update =
  cu_timestamp :: int
  cu_colors :: color

definition make_color_update :: "color_update \<Rightarrow> color_update option" where
  "make_color_update u =
     (if list_all (\<lambda>v. case v of None \<Rightarrow> True | Some v \<Rightarrow> validate_rgb v) (rgb_fields (cu_colors u))
      then Some u else None)"

definition color_message :: "color option \<Rightarrow> int \<Rightarrow> color_update option" where
  "color_message x t =
     (case x of
        None \<Rightarrow> make_color_update \<lparr>cu_timestamp = t, cu_colors = empty_color\<rparr>
      | Some c \<Rightarrow> make_color_update \<lparr>cu_timestamp = t, cu_colors = c\<rparr>)"

subsection \<open>The group role\<close>

type_synonym color_role = "(color, color_update) grole"

definition current_color :: "int \<Rightarrow> color_role \<Rightarrow> color option \<times> color_role" where
  "current_color now g = (let (c, st) = sched_current now (sched g) in (c, g\<lparr>sched := st\<rparr>))"

definition unchanged_color :: "int \<Rightarrow> color \<Rightarrow> color" where
  "unchanged_color now c = c"

definition set_color :: "color option \<Rightarrow> int option \<Rightarrow> int \<Rightarrow> color_role \<Rightarrow> color_role \<times> bool" where
  "set_color color ts now g =
     (let (last_color, g) = current_color now g in
      if ts \<noteq> None \<and> the ts > now
      then (case color of
              None \<Rightarrow> (g, True)
            | Some c \<Rightarrow>
                after_ok (schedule_state color_message unchanged_color c (the ts) now g)
                  (announce color last_color (the ts)))
      else if color = last_color \<and> pending_us (sched g) = None then (g, False)
      else
        let t = (case ts of None \<Rightarrow> now | Some t \<Rightarrow> t) in
        after_ok (apply_state color_message color t g) (announce color last_color t))"

definition clear_color :: "int \<Rightarrow> color_role \<Rightarrow> color_role \<times> bool" where
  "clear_color now g = set_color None None now g"

subsection \<open>The contract of the color role\<close>

definition palette :: "color option \<Rightarrow> color" where
  "palette x = (case x of None \<Rightarrow> empty_color | Some c \<Rightarrow> c)"

definition read_color :: "color_update \<Rightarrow> color \<times> int" where
  "read_color u = (cu_colors u, cu_timestamp u)"

lemma empty_color_ok: "make_color_update \<lparr>cu_timestamp = t, cu_colors = empty_color\<rparr> \<noteq> None"
  by (simp add: make_color_update_def rgb_fields_def empty_color_def)

interpretation col: scheduled_role color_message unchanged_color palette read_color
proof
  fix x t m
  assume "color_message x t = Some m"
  then show "read_color m = (palette x, t)"
    by (auto simp: color_message_def make_color_update_def palette_def read_color_def split: option.splits if_splits)
next
  fix t show "color_message None t \<noteq> None" using empty_color_ok by (simp add: color_message_def)
next
  fix x t t'
  assume "color_message x t \<noteq> None"
  then show "color_message x t' \<noteq> None"
    by (cases x) (auto simp: color_message_def make_color_update_def split: if_splits)
qed (simp_all add: unchanged_color_def)

lemma set_color_follows:
  assumes "col.in_step i now g c" "col.timely now g"
  shows "col.follows i now g c (fst (set_color x ts now g))"
proof (rule col.promote_follows [OF assms])
  let ?p = "g\<lparr>sched := sched_promote now (sched g)\<rparr>"
  fix c assume p: "col.in_step i now ?p c"
  have later: "now < d" if "pending_us (sched ?p) = Some d" for d using that promoted_later by simp
  have cur: "current_color now g = (state_at (sched g) now, ?p)"
    by (simp add: current_color_def sched_current_def sched_current_state_at [symmetric])
  show "col.follows i now ?p c (fst (set_color x ts now g))"
    by (cases ts; cases x)
       (auto simp: set_color_def cur not_less
         intro: col.follows_refl [OF p] col.apply_state_follows [OF p] col.schedule_state_follows [OF p _ later])
qed

datatype color_op = SetColor "color option" "int option" | ClearColor | CancelScheduledColor | ReadColor
  | ColorTimerFires | SubscribeColor member | UnsubscribeColor nat

fun color_step :: "int \<Rightarrow> color_op \<Rightarrow> color_role \<Rightarrow> color_role" where
  "color_step now (SetColor c ts) g = fst (set_color c ts now g)"
| "color_step now ClearColor g = fst (clear_color now g)"
| "color_step now CancelScheduledColor g = fst (cancel_scheduled color_message unchanged_color now g)"
| "color_step now ReadColor g = snd (current_color now g)"
| "color_step now ColorTimerFires g = fst (fire_timer color_message now g)"
| "color_step now (SubscribeColor r) g = fst (subscribe color_message unchanged_color now r g)"
| "color_step now (UnsubscribeColor j) g = unsubscribe j g"

definition color_joins :: "nat \<Rightarrow> color_op \<Rightarrow> bool" where
  "color_joins i e \<longleftrightarrow> (case e of SubscribeColor r \<Rightarrow> member_id r = i \<longrightarrow> m_connected r \<and> m_holds r | _ \<Rightarrow> True)"

lemma color_step_follows:
  assumes "col.in_step i now g c" "col.timely now g" "color_joins i e"
  shows "col.follows i now g c (color_step now e g)"
proof (cases e)
  case ReadColor
  have "current_color now g = (state_at (sched g) now, g\<lparr>sched := sched_promote now (sched g)\<rparr>)"
    by (simp add: current_color_def sched_current_def sched_current_state_at [symmetric])
  then show ?thesis
    using ReadColor col.follows_silent [OF col.follows_promote [OF assms(1,2)]] by simp
qed (use assms set_color_follows [OF assms(1,2)] col.follows_cancel [OF assms(1,2)]
      col.follows_fire [OF assms(1,2)] col.follows_subscribe [OF assms(1,2)] col.follows_unsubscribe [OF assms(1)]
    in \<open>auto simp: clear_color_def color_joins_def\<close>)

end
