(* ===== verification/Client_State.thy ===== *)
theory Client_State
  imports Time_Sync Metadata_Group Color_Group
begin

text \<open>
  The client's handling of \<open>server/state\<close> (\<open>client/connection.py\<close>): role objects whose timestamp is
  still ahead are held until it is reached on the local clock, and the \<open>server/time\<close> exchange that
  feeds the clock filter and moves the timers. \<open>ServerStatePayload\<close> and its \<open>merge\<close> are from
  \<open>models/core.py\<close>; an absent field (\<open>UndefinedField\<close>) is \<open>None\<close>. A timer is its remaining delay; that it
  runs is a step of its own.
\<close>

subsection \<open>The payload\<close>

record ('c, 'a) state_payload =
  sp_metadata :: "metadata_update option"
  sp_controller :: "'c option"
  sp_color :: "color_update option"
  sp_apps :: "(string, 'a) dict"

definition no_payload :: "('c, 'a) state_payload" where
  "no_payload = \<lparr>sp_metadata = None, sp_controller = None, sp_color = None, sp_apps = []\<rparr>"

definition keep_or :: "'x option \<Rightarrow> 'x option \<Rightarrow> 'x option" where
  "keep_or old new = (if new = None then old else new)"

definition merge_payload :: "('c, 'a) state_payload \<Rightarrow> ('c, 'a) state_payload \<Rightarrow> ('c, 'a) state_payload" where
  "merge_payload a b =
     \<lparr>sp_metadata = keep_or (sp_metadata a) (sp_metadata b), sp_controller = keep_or (sp_controller a) (sp_controller b),
      sp_color = keep_or (sp_color a) (sp_color b),
      sp_apps = foldl (\<lambda>d (k, v). dset k v d) (sp_apps a) (sp_apps b)\<rparr>"

datatype ('c, 'a) state_notice =
    MetadataNotice "('c, 'a) state_payload option"
  | ControllerNotice "('c, 'a) state_payload option"
  | ColorNotice "('c, 'a) state_payload option"
  | ScheduledMetadataNotice "('c, 'a) state_payload"
  | ScheduledColorNotice "('c, 'a) state_payload"

subsection \<open>State\<close>

text \<open>The role objects that can be held; their names are keys of \<open>_pending_state\<close>.\<close>

datatype schedulable = METADATA | COLOR

record ('c, 'a) held_state =
  held_payload :: "('c, 'a) state_payload"
  held_timestamp :: int
  held_delay :: int

record ('c, 'a) client_state =
  cs_state :: "('c, 'a) state_payload option"
  cs_pending :: "(schedulable, ('c, 'a) held_state) dict"
  cs_notices :: "('c, 'a) state_notice list"

definition new_client_state :: "('c, 'a) client_state" where
  "new_client_state = \<lparr>cs_state = None, cs_pending = [], cs_notices = []\<rparr>"

definition role_timestamp :: "schedulable \<Rightarrow> ('c, 'a) state_payload \<Rightarrow> int option" where
  "role_timestamp name p = (case name of METADATA \<Rightarrow> map_option mu_timestamp (sp_metadata p)
     | COLOR \<Rightarrow> map_option cu_timestamp (sp_color p))"

definition without_role :: "schedulable \<Rightarrow> ('c, 'a) state_payload \<Rightarrow> ('c, 'a) state_payload" where
  "without_role name p = (case name of METADATA \<Rightarrow> p\<lparr>sp_metadata := None\<rparr> | COLOR \<Rightarrow> p\<lparr>sp_color := None\<rparr>)"

definition only_role :: "schedulable \<Rightarrow> ('c, 'a) state_payload \<Rightarrow> ('c, 'a) state_payload" where
  "only_role name p = (case name of METADATA \<Rightarrow> no_payload\<lparr>sp_metadata := sp_metadata p\<rparr>
     | COLOR \<Rightarrow> no_payload\<lparr>sp_color := sp_color p\<rparr>)"

subsection \<open>Operations\<close>

definition local_delay_us :: "(rat \<Rightarrow> rat) \<Rightarrow> time_filter \<Rightarrow> int \<Rightarrow> int \<Rightarrow> int" where
  "local_delay_us fl f now server_us = (if tf_count f = 0 then 0 else compute_client_time fl f server_us - now)"

definition timer_delay :: "(rat \<Rightarrow> rat) \<Rightarrow> time_filter \<Rightarrow> int \<Rightarrow> int \<Rightarrow> int" where
  "timer_delay fl f now server_us = max (local_delay_us fl f now server_us) 0"

definition notify :: "('c, 'a) state_notice \<Rightarrow> ('c, 'a) client_state \<Rightarrow> ('c, 'a) client_state" where
  "notify n cs = cs\<lparr>cs_notices := cs_notices cs @ [n]\<rparr>"

definition notify_if :: "bool \<Rightarrow> ('c, 'a) state_notice \<Rightarrow> ('c, 'a) client_state \<Rightarrow> ('c, 'a) client_state" where
  "notify_if b n cs = (if b then notify n cs else cs)"

definition apply_server_state :: "('c, 'a) state_payload \<Rightarrow> ('c, 'a) state_payload
    \<Rightarrow> ('c, 'a) client_state \<Rightarrow> ('c, 'a) client_state" where
  "apply_server_state cur payload cs =
     notify_if (sp_color cur \<noteq> None) (ColorNotice (Some payload))
       (notify_if (sp_metadata cur \<noteq> None) (MetadataNotice (Some payload))
         (notify_if (sp_controller cur \<noteq> None) (ControllerNotice (Some payload))
           (cs\<lparr>cs_state := Some (case cs_state cs of None \<Rightarrow> cur | Some old \<Rightarrow> merge_payload old cur)\<rparr>)))"

definition discard_pending_state :: "schedulable \<Rightarrow> ('c, 'a) client_state \<Rightarrow> ('c, 'a) client_state" where
  "discard_pending_state name cs = cs\<lparr>cs_pending := ddel name (cs_pending cs)\<rparr>"

definition scheduled_notice :: "schedulable \<Rightarrow> ('c, 'a) state_payload \<Rightarrow> ('c, 'a) state_notice" where
  "scheduled_notice name p = (case name of METADATA \<Rightarrow> ScheduledMetadataNotice p | COLOR \<Rightarrow> ScheduledColorNotice p)"

text \<open>One turn of the loop over the schedulable role objects.\<close>

definition hold_role :: "(rat \<Rightarrow> rat) \<Rightarrow> time_filter \<Rightarrow> int \<Rightarrow> ('c, 'a) state_payload \<Rightarrow> schedulable
    \<Rightarrow> ('c, 'a) state_payload \<times> ('c, 'a) client_state \<Rightarrow> ('c, 'a) state_payload \<times> ('c, 'a) client_state" where
  "hold_role fl f now payload name w =
     (case role_timestamp name payload of
        None \<Rightarrow> w
      | Some t \<Rightarrow>
          (let cs = discard_pending_state name (snd w) in
           if local_delay_us fl f now t \<le> 0 then (fst w, cs)
           else (without_role name (fst w),
                 notify (scheduled_notice name payload)
                   (cs\<lparr>cs_pending := dset name \<lparr>held_payload = payload, held_timestamp = t,
                      held_delay = timer_delay fl f now t\<rparr> (cs_pending cs)\<rparr>))))"

definition handle_server_state :: "(rat \<Rightarrow> rat) \<Rightarrow> time_filter \<Rightarrow> int \<Rightarrow> ('c, 'a) state_payload
    \<Rightarrow> ('c, 'a) client_state \<Rightarrow> ('c, 'a) client_state" where
  "handle_server_state fl f now payload cs =
     (let (cur, cs) = hold_role fl f now payload COLOR (hold_role fl f now payload METADATA (payload, cs))
      in apply_server_state cur payload cs)"

text \<open>The timer of a held role object runs: it becomes current (\<open>pop\<close> of a missing key raises, but a
  discarded object has no timer).\<close>

definition apply_pending_state :: "schedulable \<Rightarrow> ('c, 'a) client_state \<Rightarrow> ('c, 'a) client_state option" where
  "apply_pending_state name cs =
     (case dget (cs_pending cs) name of
        None \<Rightarrow> None
      | Some h \<Rightarrow>
          Some (apply_server_state (only_role name (held_payload h)) (held_payload h)
            (cs\<lparr>cs_pending := ddel name (cs_pending cs)\<rparr>)))"

text \<open>The event loop runs the timers that are due.\<close>

definition run_due :: "(rat \<Rightarrow> rat) \<Rightarrow> time_filter \<Rightarrow> int \<Rightarrow> schedulable \<Rightarrow> ('c, 'a) client_state
    \<Rightarrow> ('c, 'a) client_state" where
  "run_due fl f now name cs =
     (case dget (cs_pending cs) name of
        Some h \<Rightarrow> if local_delay_us fl f now (held_timestamp h) \<le> 0 then the (apply_pending_state name cs) else cs
      | None \<Rightarrow> cs)"

definition disconnect_pending :: "('c, 'a) client_state \<Rightarrow> ('c, 'a) client_state" where
  "disconnect_pending cs = foldl (\<lambda>cs name. discard_pending_state name cs) cs (map fst (cs_pending cs))"

text \<open>\<open>server/time\<close>: the measurement it yields, and the timers set anew by the updated filter.\<close>

definition time_measurement :: "(rat \<Rightarrow> rat) \<Rightarrow> int \<Rightarrow> int \<Rightarrow> int \<Rightarrow> int \<Rightarrow> measurement" where
  "time_measurement fl client_transmitted server_received server_transmitted received =
     (py_round (fl (of_int ((server_received - client_transmitted) + (server_transmitted - received)) / 2)),
      py_round (fl (of_int ((received - client_transmitted) - (server_transmitted - server_received)) / 2)),
      received)"

definition reset_timers :: "(rat \<Rightarrow> rat) \<Rightarrow> time_filter \<Rightarrow> int \<Rightarrow> ('c, 'a) client_state \<Rightarrow> ('c, 'a) client_state" where
  "reset_timers fl f now cs =
     cs\<lparr>cs_pending := map (\<lambda>(n, h). (n, h\<lparr>held_delay := timer_delay fl f now (held_timestamp h)\<rparr>)) (cs_pending cs)\<rparr>"

definition handle_server_time :: "(rat \<Rightarrow> rat) \<Rightarrow> int \<Rightarrow> int \<Rightarrow> int \<Rightarrow> int \<Rightarrow> int
    \<Rightarrow> time_filter \<times> ('c, 'a) client_state \<Rightarrow> time_filter \<times> ('c, 'a) client_state" where
  "handle_server_time fl ct sr st received now w =
     (let (m, e, t) = time_measurement fl ct sr st received;
          f = filter_update fl m e t (fst w)
      in (f, reset_timers fl f now (snd w)))"

text \<open>Roles that leave \<open>active_roles\<close> lose their current and their held objects.\<close>

definition family_name :: "schedulable \<Rightarrow> string" where
  "family_name name = (case name of METADATA \<Rightarrow> ''metadata'' | COLOR \<Rightarrow> ''color'')"

definition discard_removed_role_state :: "(string \<Rightarrow> string) \<Rightarrow> string list \<Rightarrow> string list
    \<Rightarrow> ('c, 'a) client_state \<Rightarrow> ('c, 'a) client_state" where
  "discard_removed_role_state family old_roles new_roles cs =
     (let removed = map family (filter (\<lambda>r. r \<notin> set new_roles) old_roles) in
      case cs_state cs of
        None \<Rightarrow> cs
      | Some st \<Rightarrow>
          if removed = [] then cs
          else
            let scheduled = filter (\<lambda>n. family_name n \<in> set removed \<and> dget (cs_pending cs) n \<noteq> None) [METADATA, COLOR];
                cs = foldl (\<lambda>cs n. discard_pending_state n cs) cs scheduled;
                gone_md = (''metadata'' \<in> set removed \<and> (METADATA \<in> set scheduled \<or> sp_metadata st \<noteq> None));
                gone_ct = (''controller'' \<in> set removed \<and> sp_controller st \<noteq> None);
                gone_col = (''color'' \<in> set removed \<and> (COLOR \<in> set scheduled \<or> sp_color st \<noteq> None))
            in notify_if gone_col (ColorNotice None) (notify_if gone_ct (ControllerNotice None)
                 (notify_if gone_md (MetadataNotice None)
                   (cs\<lparr>cs_state := Some (st\<lparr>sp_metadata := (if gone_md then None else sp_metadata st),
                        sp_controller := (if gone_ct then None else sp_controller st),
                        sp_color := (if gone_col then None else sp_color st),
                        sp_apps := filter (\<lambda>(k, v). k \<notin> set removed) (sp_apps st)\<rparr>)\<rparr>))))"

subsection \<open>What the client shows\<close>

definition shown_metadata :: "('c, 'a) client_state \<Rightarrow> metadata_update option" where
  "shown_metadata cs = (case cs_state cs of None \<Rightarrow> None | Some p \<Rightarrow> sp_metadata p)"

definition shown_color :: "('c, 'a) client_state \<Rightarrow> color_update option" where
  "shown_color cs = (case cs_state cs of None \<Rightarrow> None | Some p \<Rightarrow> sp_color p)"

end
