(* ===== verification/State_Agreement.thy ===== *)
theory State_Agreement
  imports Client_State
begin

text \<open>
  A group role and one client that holds updates, composed: whatever is done to the role, the client
  shows what the role's state is. The server's clock and the client's filter agree (\<open>synced\<close>),
  messages arrive as they are sent, and the timers on both sides run when they are due. The locale
  extends the contract of the role with the client's two handlers; it is interpreted for metadata
  and for color.
\<close>

subsection \<open>The composed run\<close>

type_synonym ('s, 'm, 'c) world = "('s, 'm) grole \<times> 'c"

text \<open>At instant \<open>now\<close> the client's due timer runs, the role performs an operation, and what it sends
  to member \<open>i\<close> arrives.\<close>

definition world_step :: "(int \<Rightarrow> 'op \<Rightarrow> ('s, 'm) grole \<Rightarrow> ('s, 'm) grole) \<Rightarrow> (int \<Rightarrow> 'm \<Rightarrow> 'c \<Rightarrow> 'c)
    \<Rightarrow> (int \<Rightarrow> 'c \<Rightarrow> 'c) \<Rightarrow> nat \<Rightarrow> ('s, 'm, 'c) world \<Rightarrow> int \<times> 'op \<Rightarrow> ('s, 'm, 'c) world" where
  "world_step step recv tick i w e =
     (let now = fst e; g' = step now (snd e) (fst w)
      in (g', foldl (\<lambda>c m. recv now m c) (tick now (snd w)) (drop (length (inbox_of i (fst w))) (inbox_of i g'))))"

text \<open>A run in time: instants do not go back, and no state is due that was not sent yet.\<close>

definition sent_in_time :: "int \<Rightarrow> ('s, 'm) grole \<Rightarrow> bool" where
  "sent_in_time now g \<longleftrightarrow>
     (case pending_us (sched g) of Some due \<Rightarrow> scheduled_sent g \<or> now < due | None \<Rightarrow> True)"

fun run_in_time :: "(int \<Rightarrow> 'op \<Rightarrow> ('s, 'm) grole \<Rightarrow> ('s, 'm) grole) \<Rightarrow> int \<Rightarrow> ('s, 'm) grole
    \<Rightarrow> (int \<times> 'op) list \<Rightarrow> bool" where
  "run_in_time step now g [] \<longleftrightarrow> True"
| "run_in_time step now g (e # es) \<longleftrightarrow>
     now \<le> fst e \<and> sent_in_time (fst e) g \<and> run_in_time step (fst e) (step (fst e) (snd e) g) es"

definition last_instant :: "int \<Rightarrow> (int \<times> 'op) list \<Rightarrow> int" where
  "last_instant now es = (if es = [] then now else fst (last es))"

definition listening :: "nat \<Rightarrow> ('s, 'm) grole \<Rightarrow> bool" where
  "listening i g \<longleftrightarrow> i \<in> set (map member_id (members g))"

text \<open>The state a member is to show at instant \<open>t\<close>: a scheduled state once it was sent.\<close>

definition effective_state :: "('s, 'm) grole \<Rightarrow> int \<Rightarrow> 's option" where
  "effective_state g t =
     (if pending_us (sched g) \<noteq> None \<and> \<not> scheduled_sent g then now_state (sched g) else state_at (sched g) t)"

locale synced_member = scheduled_role msg restate view reads
  for msg :: "'s option \<Rightarrow> int \<Rightarrow> 'm option" and restate :: "int \<Rightarrow> 's \<Rightarrow> 's"
    and view :: "'s option \<Rightarrow> 'v" and reads :: "'m \<Rightarrow> 'v \<times> int" +
  fixes step :: "int \<Rightarrow> 'op \<Rightarrow> ('s, 'm) grole \<Rightarrow> ('s, 'm) grole"
    and joins :: "nat \<Rightarrow> 'op \<Rightarrow> bool"
    and recv :: "int \<Rightarrow> 'm \<Rightarrow> 'c \<Rightarrow> 'c"
    and tick :: "int \<Rightarrow> 'c \<Rightarrow> 'c"
    and holder :: "'c \<Rightarrow> 'v holder"
    and sync :: bool
  assumes step_follows: "in_step i now g h \<Longrightarrow> timely now g \<Longrightarrow> joins i e \<Longrightarrow> follows i now g h (step now e g)"
    and recv_holder: "sync \<Longrightarrow> holder (recv now m c) = take_update now (reads m) (holder c)"
    and tick_holder: "sync \<Longrightarrow> holder (tick now c) = advance now (holder c)"
begin

lemma timely_iff: "timely now g \<longleftrightarrow> sent_in_time now g"
  by (auto simp: timely_def sent_in_time_def split: option.split)

lemma recv_all: "sync \<Longrightarrow> holder (foldl (\<lambda>c m. recv now m c) c ms) = receive_all now ms (holder c)"
  by (induction ms arbitrary: c) (simp_all add: receive_all_def recv_holder)

lemma world_step_in_step:
  assumes "in_step i now (fst w) (holder (snd w))" "now \<le> fst e" "sent_in_time (fst e) (fst w)" "joins i (snd e)"
    and sync
  shows "in_step i (fst e) (fst (world_step step recv tick i w e)) (holder (snd (world_step step recv tick i w e)))"
proof -
  have "in_step i (fst e) (fst w) (holder (tick (fst e) (snd w)))"
    using in_step_later [OF assms(1,2)] assms(5) by (simp add: tick_holder)
  from step_follows [OF this _ assms(4)] assms(3)
  obtain ms where "inbox_of i (step (fst e) (snd e) (fst w)) = inbox_of i (fst w) @ ms"
    "in_step i (fst e) (step (fst e) (snd e) (fst w)) (receive_all (fst e) ms (holder (tick (fst e) (snd w))))"
    by (auto simp: timely_iff follows_def)
  then show ?thesis using assms(5) by (simp add: world_step_def Let_def recv_all)
qed

lemma run_in_step:
  "sync \<Longrightarrow> in_step i now (fst w) (holder (snd w)) \<Longrightarrow> run_in_time step now (fst w) es \<Longrightarrow> list_all (joins i) (map snd es) \<Longrightarrow>
    in_step i (last_instant now es) (fst (foldl (world_step step recv tick i) w es))
      (holder (snd (foldl (world_step step recv tick i) w es)))"
proof (induction es arbitrary: w now)
  case Nil
  then show ?case by (simp add: last_instant_def)
next
  case (Cons e es)
  let ?w = "world_step step recv tick i w e"
  have "in_step i (fst e) (fst ?w) (holder (snd ?w))"
    using Cons.prems by (intro world_step_in_step [OF Cons.prems(2)]) auto
  moreover have "fst ?w = step (fst e) (snd e) (fst w)" by (simp add: world_step_def Let_def)
  ultimately have "in_step i (last_instant (fst e) es) (fst (foldl (world_step step recv tick i) ?w es))
      (holder (snd (foldl (world_step step recv tick i) ?w es)))"
    using Cons.prems by (intro Cons.IH) auto
  then show ?case by (cases es) (simp_all add: last_instant_def)
qed

text \<open>A run from a fresh role and any client: whenever the client is a member, it shows the role's
  state once its own timers have run.\<close>

lemma run_shows:
  assumes sync "run_in_time step now new_grole es" "list_all (joins i) (map snd es)" "last_instant now es \<le> t"
    and "foldl (world_step step recv tick i) (new_grole, c) es = (g, c')" "listening i g"
  shows "fst (holder (tick t c')) = view (effective_state g t)"
proof -
  have "in_step i now new_grole (holder c)"
    by (simp add: in_step_def new_grole_def holding_def states_ok_def no_sched_def reached_def)
  then have "in_step i (last_instant now es) g (holder c')"
    using run_in_step [where w = "(new_grole, c)" and now = now and es = es and i = i] assms by simp
  moreover from this have "reached i (members g)"
    using assms(6) by (auto simp: in_step_def holding_def reached_def listening_def)
  ultimately show ?thesis
    using assms(1,4) by (simp add: tick_holder fst_advance in_step_def target_def effective_state_def)
qed

end

subsection \<open>The client's side\<close>

definition synced :: "(rat \<Rightarrow> rat) \<Rightarrow> time_filter \<Rightarrow> int \<Rightarrow> bool" where
  "synced fl f offset \<longleftrightarrow> tf_count f \<noteq> 0 \<and> (\<forall>t. compute_client_time fl f t = t - offset)"

definition take_metadata :: "(rat \<Rightarrow> rat) \<Rightarrow> time_filter \<Rightarrow> int \<Rightarrow> int \<Rightarrow> metadata_update
    \<Rightarrow> ('c, 'a) client_state \<Rightarrow> ('c, 'a) client_state" where
  "take_metadata fl f offset now m cs = handle_server_state fl f (now - offset) (no_payload\<lparr>sp_metadata := Some m\<rparr>) cs"

definition take_color :: "(rat \<Rightarrow> rat) \<Rightarrow> time_filter \<Rightarrow> int \<Rightarrow> int \<Rightarrow> color_update
    \<Rightarrow> ('c, 'a) client_state \<Rightarrow> ('c, 'a) client_state" where
  "take_color fl f offset now m cs = handle_server_state fl f (now - offset) (no_payload\<lparr>sp_color := Some m\<rparr>) cs"

definition read_held :: "('c, 'a) client_state \<Rightarrow> schedulable \<Rightarrow> (('c, 'a) state_payload \<Rightarrow> 'v option) \<Rightarrow> ('v \<times> int) option" where
  "read_held cs name f =
     (case dget (cs_pending cs) name of None \<Rightarrow> None
      | Some h \<Rightarrow> (case f (held_payload h) of None \<Rightarrow> None | Some v \<Rightarrow> Some (v, held_timestamp h)))"

definition metadata_holder :: "('c, 'a) client_state \<Rightarrow> metadata_update holder" where
  "metadata_holder cs =
     ((case shown_metadata cs of None \<Rightarrow> blank_update 0 | Some u \<Rightarrow> fst (read_update u)),
      read_held cs METADATA (\<lambda>p. map_option (\<lambda>u. fst (read_update u)) (sp_metadata p)))"

definition color_holder :: "('c, 'a) client_state \<Rightarrow> color holder" where
  "color_holder cs =
     ((case shown_color cs of None \<Rightarrow> empty_color | Some u \<Rightarrow> cu_colors u),
      read_held cs COLOR (\<lambda>p. map_option cu_colors (sp_color p)))"

lemma notify_fields [simp]:
  "cs_state (notify n cs) = cs_state cs" "cs_pending (notify n cs) = cs_pending cs"
  "cs_state (notify_if b n cs) = cs_state cs" "cs_pending (notify_if b n cs) = cs_pending cs"
  by (simp_all add: notify_def notify_if_def)

lemma apply_server_state_fields [simp]:
  "cs_pending (apply_server_state cur p cs) = cs_pending cs"
  "cs_state (apply_server_state cur p cs) = Some (case cs_state cs of None \<Rightarrow> cur | Some old \<Rightarrow> merge_payload old cur)"
  by (simp_all add: apply_server_state_def)

lemma synced_delay: "synced fl f offset \<Longrightarrow> local_delay_us fl f (now - offset) t = t - now"
  by (simp add: synced_def local_delay_us_def)

lemmas client_defs = handle_server_state_def hold_role_def role_timestamp_def without_role_def only_role_def
  discard_pending_state_def shown_metadata_def shown_color_def merge_payload_def keep_or_def no_payload_def
  read_held_def take_update_def advance_def run_due_def apply_pending_state_def

lemma take_metadata_holder:
  "synced fl f offset \<Longrightarrow> metadata_holder (take_metadata fl f offset now m cs) =
    take_update now (read_update m) (metadata_holder cs)"
  by (auto simp: metadata_holder_def take_metadata_def client_defs synced_delay Let_def read_update_def
      split: option.split)

lemma take_color_holder:
  "synced fl f offset \<Longrightarrow> color_holder (take_color fl f offset now m cs) =
    take_update now (read_color m) (color_holder cs)"
  by (auto simp: color_holder_def take_color_def client_defs synced_delay Let_def read_color_def
      split: option.split)

lemma metadata_tick:
  "synced fl f offset \<Longrightarrow> metadata_holder (run_due fl f (now - offset) METADATA cs) = advance now (metadata_holder cs)"
  by (auto simp: metadata_holder_def client_defs synced_delay split: option.split)

lemma color_tick:
  "synced fl f offset \<Longrightarrow> color_holder (run_due fl f (now - offset) COLOR cs) = advance now (color_holder cs)"
  by (auto simp: color_holder_def client_defs synced_delay split: option.split)

subsection \<open>Both roles\<close>

interpretation metadata_client: synced_member metadata_message at_time display read_update
    "metadata_step fl0" metadata_joins "take_metadata fl f offset"
    "\<lambda>now. run_due fl f (now - offset) METADATA" metadata_holder "synced fl f offset"
  for fl0 fl f offset
  by unfold_locales (auto simp: metadata_step_follows take_metadata_holder metadata_tick)

interpretation color_client: synced_member color_message unchanged_color palette read_color
    color_step color_joins "take_color fl f offset"
    "\<lambda>now. run_due fl f (now - offset) COLOR" color_holder "synced fl f offset"
  for fl f offset
  by unfold_locales (auto simp: color_step_follows take_color_holder color_tick)

subsection \<open>The agreement\<close>

text \<open>C4. Whatever is done to a group's metadata (set, scheduled, updated, cleared, sought, frozen,
  cancelled, members coming and going, timers running), a member that holds scheduled updates shows at
  every instant the metadata the group has at that instant, the running playback position apart: what
  it received, held and replaced adds up to the group's state, from the moment it joins.\<close>

theorem members_show_group_metadata:
  assumes "synced fl f offset" and "run_in_time (metadata_step fl0) now new_grole es"
    and "list_all (metadata_joins i) (map snd es)" and "last_instant now es \<le> t"
    and "foldl (world_step (metadata_step fl0) (take_metadata fl f offset)
           (\<lambda>now. run_due fl f (now - offset) METADATA) i) (new_grole, cs) es = (g, cs')"
    and "listening i g"
  shows "fst (metadata_holder (run_due fl f (t - offset) METADATA cs')) = display (effective_state g t)"
  by (rule metadata_client.run_shows [OF assms])

text \<open>Likewise for the color palette of a group.\<close>

theorem members_show_group_color:
  assumes "synced fl f offset" and "run_in_time color_step now new_grole es"
    and "list_all (color_joins i) (map snd es)" and "last_instant now es \<le> t"
    and "foldl (world_step color_step (take_color fl f offset)
           (\<lambda>now. run_due fl f (now - offset) COLOR) i) (new_grole, cs) es = (g, cs')"
    and "listening i g"
  shows "fst (color_holder (run_due fl f (t - offset) COLOR cs')) = palette (effective_state g t)"
  by (rule color_client.run_shows [OF assms])


subsection \<open>Witnesses\<close>

definition demo_clock :: time_filter where
  "demo_clock = filter_update exact 100 3 10 (new_filter exact 0 2 0)"

lemma demo_clock_synced: "synced exact demo_clock 100"
proof -
  have "py_round (of_int t - 100) = t - 100" for t
    using py_round_near [of "of_int t - 100"] by (simp add: py_round_def)
  then show ?thesis
    by (simp add: synced_def demo_clock_def filter_update_def new_filter_def first_measurement_def snapshot_def
        Let_def compute_client_time_def effective_drift_def)
qed

definition demo_color :: color where "demo_color = empty_color\<lparr>primary := Some [1, 2, 3]\<rparr>"

definition demo_member :: member where
  "demo_member = \<lparr>member_id = 7, m_connected = True, m_holds = True, m_reads_repeat = False\<rparr>"

definition demo_metadata :: metadata where
  "demo_metadata = empty_metadata\<lparr>title := Some ''a''\<rparr>"

lemmas demo_run_defs = world_step_def subscribe_def on_member_join_def current_state_def sched_current_def
  sched_promote_def new_grole_def no_sched_def demo_member_def inbox_of_def send_message_def
  schedule_state_def settle_overdue_def place_scheduled_def send_scheduled_def cancel_send_scheduled_def
  MAX_SCHEDULED_LEAD_US_def sched_schedule_def send_to_def supports_scheduled_updates_def announce_def
  emit_group_event_def after_ok_def sent_in_time_def last_instant_def Let_def

lemmas demo_color_defs = set_color_def current_color_def color_message_def make_color_update_def rgb_fields_def
  demo_color_def empty_color_def validate_rgb_def unchanged_color_def color_joins_def

theorem members_show_group_color_witness:
  "fst (color_holder (run_due exact demo_clock (600 - 100) COLOR
     (snd (foldl (world_step color_step (take_color exact demo_clock 100)
        (\<lambda>now. run_due exact demo_clock (now - 100) COLOR) 7)
        (new_grole, new_client_state :: (nat, nat) client_state)
        [(200, SubscribeColor demo_member), (300, SetColor (Some demo_color) (Some 500))])))) = demo_color"
proof -
  let ?es = "[(200, SubscribeColor demo_member), (300, SetColor (Some demo_color) (Some 500))]"
  let ?r = "foldl (world_step color_step (take_color exact demo_clock 100)
        (\<lambda>now. run_due exact demo_clock (now - 100) COLOR) 7)
        (new_grole, new_client_state :: (nat, nat) client_state) ?es"
  have g: "fst ?r = color_step 300 (SetColor (Some demo_color) (Some 500)) (color_step 200 (SubscribeColor demo_member) new_grole)"
    by (simp add: world_step_def Let_def)
  have 1: "listening 7 (fst ?r)" "effective_state (fst ?r) 600 = Some demo_color"
    unfolding g
    by (simp_all add: demo_run_defs demo_color_defs listening_def effective_state_def state_at_def)
  have "run_in_time color_step 100 new_grole ?es"
    by (simp add: demo_run_defs demo_color_defs)
  from members_show_group_color [OF demo_clock_synced this, of 7 600 new_client_state "fst ?r" "snd ?r"] 1
  show ?thesis by (simp add: palette_def color_joins_def demo_member_def last_instant_def del: foldl.simps)
qed

lemmas demo_metadata_defs = set_metadata_def apply_metadata_def current_metadata_eq metadata_message_def
  snapshot_eq wire_ok_def make_update_def carry_def position_def at_time_def track_progress_at_def
  demo_metadata_def empty_metadata_def blank_update_def metadata_joins_def

theorem members_show_group_metadata_witness:
  "mu_title (fst (metadata_holder (run_due exact demo_clock (600 - 100) METADATA
     (snd (foldl (world_step (metadata_step exact) (take_metadata exact demo_clock 100)
        (\<lambda>now. run_due exact demo_clock (now - 100) METADATA) 7)
        (new_grole, new_client_state :: (nat, nat) client_state)
        [(200, Subscribe demo_member), (300, SetMetadata (Some demo_metadata) (Some 500))]))))) = Some ''a''"
proof -
  let ?es = "[(200, Subscribe demo_member), (300, SetMetadata (Some demo_metadata) (Some 500))]"
  let ?r = "foldl (world_step (metadata_step exact) (take_metadata exact demo_clock 100)
        (\<lambda>now. run_due exact demo_clock (now - 100) METADATA) 7)
        (new_grole, new_client_state :: (nat, nat) client_state) ?es"
  have g: "fst ?r = metadata_step exact 300 (SetMetadata (Some demo_metadata) (Some 500))
      (metadata_step exact 200 (Subscribe demo_member) new_grole)"
    by (simp add: world_step_def Let_def)
  have 1: "listening 7 (fst ?r)" "effective_state (fst ?r) 600 = Some (at_time 500 demo_metadata)"
    unfolding g
    by (simp_all add: demo_run_defs demo_metadata_defs listening_def effective_state_def state_at_def)
  have "run_in_time (metadata_step exact) 100 new_grole ?es"
    by (simp add: demo_run_defs demo_metadata_defs)
  from members_show_group_metadata [OF demo_clock_synced this, of 7 600 new_client_state "fst ?r" "snd ?r"] 1
  show ?thesis
    by (simp add: display_def carry_def demo_metadata_def at_time_def metadata_joins_def demo_member_def last_instant_def
        del: foldl.simps)
qed

end
