(* ===== verification/Player_Formats.thy ===== *)
theory Player_Formats
  imports Prelude Encoding
begin

text \<open>
  Audio formats of the player role: \<open>SupportedAudioFormat\<close> and the hello's support object
  (\<open>models/player.py\<close>), what the server can encode (\<open>server/roles/player/capabilities.py\<close>), the
  pool of shared transformers (\<open>server/audio_transformers.py\<close>), and the choice of the format a
  player is served in (\<open>_ensure_preferred_format\<close> of \<open>server/roles/player/v1.py\<close>). Whether PyAV offers
  Opus and FLAC is a parameter \<open>codec_env\<close>; a transformer constructor is modelled up to the checks of
  the source (the encoder it then opens is PyAV's).
\<close>

subsection \<open>Formats\<close>

datatype audio_codec = OPUS | FLAC | PCM

datatype player_command = CMD_VOLUME | CMD_MUTE | CMD_SET_OUTPUT_DELAY | CMD_SET_STATIC_DELAY

record audio_format =
  af_rate :: int
  af_depth :: int
  af_channels :: int
  af_float :: bool

record supported_format =
  sf_codec :: audio_codec
  sf_channels :: int
  sf_rate :: int
  sf_depth :: int

text \<open>\<open>AudioFormat(sample_rate, bit_depth, channels)\<close>, whose sample type defaults to \<open>int\<close>.\<close>

definition audio_format_of :: "int \<Rightarrow> int \<Rightarrow> int \<Rightarrow> audio_format" where
  "audio_format_of rate depth channels =
     \<lparr>af_rate = rate, af_depth = depth, af_channels = channels, af_float = False\<rparr>"

text \<open>The constructor with its \<open>__post_init__\<close>; \<open>None\<close> is \<open>ValueError\<close>.\<close>

definition supported_audio_format :: "audio_codec \<Rightarrow> int \<Rightarrow> int \<Rightarrow> int \<Rightarrow> supported_format option" where
  "supported_audio_format codec channels rate depth =
     (if channels \<le> 0 then None
      else if rate \<le> 0 then None
      else if codec \<noteq> OPUS \<and> depth \<le> 0 then None
      else Some \<lparr>sf_codec = codec, sf_channels = channels, sf_rate = rate, sf_depth = depth\<rparr>)"

definition fmt_matches :: "supported_format \<Rightarrow> supported_format \<Rightarrow> bool" where
  "fmt_matches f g \<longleftrightarrow> sf_codec f = sf_codec g \<and> sf_channels f = sf_channels g \<and> sf_rate f = sf_rate g
     \<and> (sf_codec f = OPUS \<or> sf_depth f = sf_depth g)"

record player_support =
  supported_formats :: "supported_format list"
  buffer_capacity :: int
  hello_commands :: "player_command list option"

text \<open>\<open>ClientHelloPlayerSupport.__post_init__\<close>.\<close>

definition client_hello_player_support ::
  "supported_format list \<Rightarrow> int \<Rightarrow> player_command list option \<Rightarrow> player_support option" where
  "client_hello_player_support formats capacity commands =
     (if capacity \<le> 0 then None
      else if formats = [] then None
      else if (case commands of None \<Rightarrow> False
               | Some cs \<Rightarrow> list_ex (\<lambda>c. c \<noteq> CMD_VOLUME \<and> c \<noteq> CMD_MUTE) cs) then None
      else Some \<lparr>supported_formats = formats, buffer_capacity = capacity, hello_commands = commands\<rparr>)"

lemma matches_refl [simp]: "fmt_matches f f"
  by (simp add: fmt_matches_def)

lemma matches_sym: "fmt_matches f g \<longleftrightarrow> fmt_matches g f"
  by (auto simp: fmt_matches_def)

lemma matches_trans: "fmt_matches f g \<Longrightarrow> fmt_matches g h \<Longrightarrow> fmt_matches f h"
  by (auto simp: fmt_matches_def)

subsection \<open>What the server can encode\<close>

record codec_env =
  opus_available :: bool
  flac_encoder_available :: bool

definition PCM_BIT_DEPTHS :: "int list" where "PCM_BIT_DEPTHS = [16, 24, 32]"
definition FLAC_BIT_DEPTHS :: "int list" where "FLAC_BIT_DEPTHS = [16, 24]"
definition FLAC_MAX_CHANNELS :: int where "FLAC_MAX_CHANNELS = 8"
definition MAX_SAMPLE_RATE :: int where "MAX_SAMPLE_RATE = 384000"
definition VALID_CHANNELS :: "int list" where "VALID_CHANNELS = [1, 2, 3, 4, 5, 6, 7, 8, 10]"
definition OPUS_SAMPLE_RATES :: "int list" where "OPUS_SAMPLE_RATES = [8000, 12000, 16000, 24000, 48000]"

definition can_encode_format :: "codec_env \<Rightarrow> supported_format \<Rightarrow> bool" where
  "can_encode_format env f \<longleftrightarrow>
     0 < sf_rate f \<and> sf_rate f \<le> MAX_SAMPLE_RATE \<and> sf_channels f \<in> set VALID_CHANNELS \<and>
     (case sf_codec f of
        OPUS \<Rightarrow> opus_available env \<and> sf_channels f \<in> {1, 2} \<and> sf_rate f \<in> set OPUS_SAMPLE_RATES
      | FLAC \<Rightarrow> flac_encoder_available env \<and> sf_channels f \<le> FLAC_MAX_CHANNELS
                 \<and> sf_depth f \<in> set FLAC_BIT_DEPTHS
      | PCM \<Rightarrow> sf_depth f \<in> set PCM_BIT_DEPTHS)"

definition filter_encodable_formats :: "codec_env \<Rightarrow> supported_format list \<Rightarrow> supported_format list" where
  "filter_encodable_formats env fs = filter (can_encode_format env) fs"

lemma matches_encodable: "fmt_matches f g \<Longrightarrow> can_encode_format env f \<longleftrightarrow> can_encode_format env g"
  by (cases "sf_codec g") (auto simp: fmt_matches_def can_encode_format_def)

text \<open>\<open>next((f for f in fs if g.matches(f)), None)\<close>.\<close>

definition matching :: "supported_format \<Rightarrow> supported_format list \<Rightarrow> supported_format option" where
  "matching g fs = find (fmt_matches g) fs"

lemma matching_Some: "matching g fs = Some f \<Longrightarrow> f \<in> set fs \<and> fmt_matches g f"
  by (auto simp: matching_def find_Some_iff)

lemma matching_None: "matching g fs = None \<longleftrightarrow> (\<forall>f\<in>set fs. \<not> fmt_matches g f)"
  by (auto simp: matching_def find_None_iff)

subsection \<open>The pool of transformers\<close>

record transform_key =
  k_channel :: nat
  k_class :: audio_codec
  k_rate :: int
  k_depth :: int
  k_channels :: int
  k_frame_us :: int

text \<open>An object of the pool is the key it was built for and its identity, which the code compares
  with \<open>is\<close> and \<open>id\<close>.\<close>

record transformer =
  t_key :: transform_key
  t_id :: nat

record pool =
  transformers :: "(transform_key, transformer) dict"
  fresh_id :: nat

definition empty_pool :: pool where "empty_pool = \<lparr>transformers = [], fresh_id = 0\<rparr>"

text \<open>The checks of the constructors of \<open>FlacEncoder\<close> and \<open>OpusEncoder\<close>.\<close>

definition transformer_constructs :: "transform_key \<Rightarrow> bool" where
  "transformer_constructs k = (case k_class k of
     FLAC \<Rightarrow> k_depth k \<in> set FLAC_BIT_DEPTHS | OPUS \<Rightarrow> k_rate k \<in> set OPUS_SAMPLE_RATES | PCM \<Rightarrow> True)"

definition get_or_create :: "transform_key \<Rightarrow> pool \<Rightarrow> (transformer \<times> pool) option" where
  "get_or_create k p =
     (case dget (transformers p) k of
        Some t \<Rightarrow> Some (t, p)
      | None \<Rightarrow>
          if transformer_constructs k then
            let t = \<lparr>t_key = k, t_id = fresh_id p\<rparr> in
            Some (t, p\<lparr>transformers := dset k t (transformers p), fresh_id := Suc (fresh_id p)\<rparr>)
          else None)"

definition pool_get :: "transform_key \<Rightarrow> pool \<Rightarrow> transformer option" where
  "pool_get k p = dget (transformers p) k"

definition prune :: "transformer list \<Rightarrow> pool \<Rightarrow> pool" where
  "prune keep p =
     p\<lparr>transformers := filter (\<lambda>(k, t). t_id t \<in> set (map t_id keep)) (transformers p)\<rparr>"

definition pool_ok :: "pool \<Rightarrow> bool" where
  "pool_ok p \<longleftrightarrow> dict_ok (transformers p) \<and>
     (\<forall>k t. (k, t) \<in> set (transformers p) \<longrightarrow> t_key t = k \<and> t_id t < fresh_id p) \<and>
     distinct (map (t_id \<circ> snd) (transformers p))"

lemma empty_pool_ok [simp]: "pool_ok empty_pool"
  by (simp add: pool_ok_def empty_pool_def)

lemma fresh_absent: "pool_ok p \<Longrightarrow> fresh_id p \<notin> (t_id \<circ> snd) ` set (transformers p)"
  by (fastforce simp: pool_ok_def)

lemma get_or_create_ok:
  assumes ok: "pool_ok p" and get: "get_or_create k p = Some (t, p')"
  shows "pool_ok p' \<and> t_key t = k"
proof (cases "dget (transformers p) k")
  case None
  then have "p' = p\<lparr>transformers := transformers p @ [(k, t)], fresh_id := Suc (fresh_id p)\<rparr>"
    "t = \<lparr>t_key = k, t_id = fresh_id p\<rparr>"
    using get by (auto simp: get_or_create_def Let_def dset_append split: if_splits)
  then show ?thesis
    using ok fresh_absent [OF ok] None
    by (auto simp: pool_ok_def dict_ok_def map_of_eq_None_iff less_Suc_eq)
next
  case (Some t')
  then show ?thesis using get ok by (auto simp: get_or_create_def pool_ok_def dest: map_of_SomeD)
qed

lemma filter_dict_ok: "dict_ok d \<Longrightarrow> dict_ok (filter P d)"
  by (simp add: dict_ok_def distinct_map_filter)

lemma pool_prune_ok: "pool_ok p \<Longrightarrow> pool_ok (prune keep p)"
  by (auto simp: pool_ok_def prune_def filter_dict_ok distinct_map_filter)

lemma pooled_once:
  "get_or_create k p = Some (t, p') \<Longrightarrow> dget (transformers p') k = Some t"
  by (auto simp: get_or_create_def Let_def split: option.splits if_splits)

lemma get_or_create_keeps: "get_or_create k p = Some (t, p') \<Longrightarrow> dget (transformers p) k' = Some t' \<Longrightarrow>
    dget (transformers p') k' = Some t'"
  by (auto simp: get_or_create_def Let_def split: option.splits if_splits)

lemma get_or_create_mono: "get_or_create k p = Some (t, p') \<Longrightarrow> fresh_id p \<le> fresh_id p'"
  by (auto simp: get_or_create_def Let_def split: option.splits if_splits)

text \<open>Two roles share an encoder exactly when they ask for the same output.\<close>

lemma sharing_iff:
  assumes "pool_ok p" "get_or_create k1 p = Some (t1, p1)" "get_or_create k2 p1 = Some (t2, p2)"
  shows "t1 = t2 \<longleftrightarrow> k1 = k2"
proof
  show "t1 = t2 \<Longrightarrow> k1 = k2"
    using assms get_or_create_ok by metis
  show "k1 = k2 \<Longrightarrow> t1 = t2"
    using pooled_once [OF assms(2)] assms(3) by (auto simp: get_or_create_def)
qed

lemma pool_entry: "pool_ok p \<Longrightarrow> (k, t) \<in> set (transformers p) \<longleftrightarrow> dget (transformers p) k = Some t"
  by (simp add: pool_ok_def dict_ok_values)

lemma prune_get: "pool_ok p \<Longrightarrow>
  pool_get k (prune keep p) = Some t \<longleftrightarrow> pool_get k p = Some t \<and> t_id t \<in> set (map t_id keep)"
proof -
  assume ok: "pool_ok p"
  have "pool_get k (prune keep p) = Some t \<longleftrightarrow> (k, t) \<in> set (transformers (prune keep p))"
    using pool_entry [OF pool_prune_ok [OF ok]] by (simp add: pool_get_def)
  also have "\<dots> \<longleftrightarrow> (k, t) \<in> set (transformers p) \<and> t_id t \<in> set (map t_id keep)"
    by (auto simp: prune_def)
  finally show ?thesis using pool_entry [OF ok] by (simp add: pool_get_def)
qed

subsection \<open>The format a player is served in\<close>

text \<open>The selection of \<open>_ensure_preferred_format\<close>: the operator's override while the client still
  offers it, then the format the client prefers, then the first one both sides support. The second
  component is the override kept.\<close>

definition select_format ::
  "supported_format list \<Rightarrow> supported_format option \<Rightarrow> (audio_format \<times> audio_codec) option \<Rightarrow>
   supported_format \<times> (audio_format \<times> audio_codec) option" where
  "select_format compatible client_format override =
     (let preferred = (case client_format of
            Some c \<Rightarrow> (case matching c compatible of Some f \<Rightarrow> f | None \<Rightarrow> hd compatible)
          | None \<Rightarrow> hd compatible) in
      (case override of
         Some (a, codec) \<Rightarrow>
           (case matching \<lparr>sf_codec = codec, sf_channels = af_channels a, sf_rate = af_rate a,
                           sf_depth = af_depth a\<rparr> compatible of
              Some f \<Rightarrow> (f, override)
            | None \<Rightarrow> (preferred, None))
       | None \<Rightarrow> (preferred, None)))"

lemma select_format_in: "compatible \<noteq> [] \<Longrightarrow> fst (select_format compatible cf ov) \<in> set compatible"
  by (auto simp: select_format_def Let_def split: option.splits dest!: matching_Some)

text \<open>The bit depth the requirements ask for: Opus is encoded from 16-bit PCM.\<close>

definition encode_depth :: "audio_codec \<Rightarrow> int \<Rightarrow> int" where
  "encode_depth codec depth = (if codec = OPUS then 16 else depth)"

definition key_of :: "nat \<Rightarrow> audio_codec \<Rightarrow> audio_format \<Rightarrow> transform_key" where
  "key_of channel codec a =
     \<lparr>k_channel = channel, k_class = codec, k_rate = af_rate a, k_depth = encode_depth codec (af_depth a),
      k_channels = af_channels a, k_frame_us = 25000\<rparr>"

lemma encodable_constructs:
  "can_encode_format env f \<Longrightarrow>
   transformer_constructs (key_of ch (sf_codec f) (audio_format_of (sf_rate f) (sf_depth f) (sf_channels f)))"
  by (auto simp: transformer_constructs_def key_of_def encode_depth_def audio_format_of_def
      can_encode_format_def split: audio_codec.splits)

text \<open>\<open>base64.b64encode\<close>: the standard alphabet, of which the URL-safe one is the translation.\<close>

definition b64encode :: "bytes \<Rightarrow> string" where
  "b64encode bs = map (\<lambda>c. if c = CHR ''-'' then CHR ''+'' else if c = CHR ''_'' then CHR ''/'' else c)
     (urlsafe_b64encode bs)"

end
