(* ===== verification/Player_Role.thy ===== *)
theory Player_Role
  imports Player_Formats Buffer_Tracker "HOL-Library.Monad_Syntax"
begin

text \<open>
  One client's player role on the server (\<open>server/roles/player/v1.py\<close>): its connection lifecycle, the
  stream hooks, the format preference and the handling of \<open>client/state\<close>. An operation runs without
  suspension; what it reads of its client, group and server is its argument \<open>env\<close>, with the pool of
  the group as the state it shares. What it does outside the role is recorded: \<open>wire\<close> holds what it
  handed to the present connection, \<open>log\<close> the events and calls to the rest of the server, which run
  after it. \<open>None\<close> is an exception (\<open>ValueError\<close>, or \<open>ClientComplianceError\<close> of a strict server).
  \<open>buffer_capacity_scale\<close> is always 1.0 and left out.
\<close>

subsection \<open>State\<close>

definition MAX_TIMING_PARAMETER_MS :: int where "MAX_TIMING_PARAMETER_MS = 30000"
definition MAX_MIN_BUFFER_MS :: int where "MAX_MIN_BUFFER_MS = 5000"
definition PLAYER_AUDIO_HEADER_SIZE :: int where "PLAYER_AUDIO_HEADER_SIZE = 13"

text \<open>\<open>AudioRequirements\<close> as this role builds it.\<close>

record requirements =
  r_rate :: int
  r_depth :: int
  r_channels :: int
  r_transformer :: transformer
  r_channel :: nat
  r_frame_us :: int

text \<open>The arguments of \<open>stream/start\<close>: codec, rate, channels, depth, codec header.\<close>

type_synonym stream_format = "audio_codec \<times> int \<times> int \<times> int \<times> string option"

datatype wire_msg =
    StreamStart stream_format
  | StreamClear
  | StreamEnd
  | AudioChunk bytes int int int
  | VolumeCommand int
  | MuteCommand bool
  | DelayCommand player_command int

datatype player_event =
    VolumeChanged int bool
  | OutputDelayChanged int
  | RequiredLeadTimeChanged int
  | MinBufferChanged int

datatype effect =
    Subscribe
  | Unsubscribe
  | Emit player_event
  | FormatChanged "int option"
  | JoinActiveStream
  | AvailabilityTask bool
  | Noncompliance

text \<open>\<open>PlayerPersistentState\<close>; an armed reset timer is the disconnect time its closure captured, and
  the two override fields are set and cleared together.\<close>

record persistent =
  pl_volume :: int
  pl_muted :: bool
  pl_tracker :: "tracker option"
  disconnect_time_us :: "int option"
  reset_handle :: "int option"
  output_delay_ms :: int
  required_lead_time_ms :: int
  min_buffer_ms :: int
  commands :: "player_command list"
  override :: "(audio_format \<times> audio_codec) option"

text \<open>\<open>tracked\<close> is whether the role's own \<open>_buffer_tracker\<close> is set: it is then the persistent one.\<close>

record player =
  ctor_format :: "audio_format option"
  pref_format :: "audio_format option"
  pref_codec :: "audio_codec option"
  client_format :: "supported_format option"
  client_format_legacy :: bool
  reqs :: "requirements option"
  stream_started :: bool
  pending_start :: bool
  last_sent :: "stream_format option"
  sent_end_us :: "int option"
  tracked :: bool
  stream_start_time_us :: "int option"
  late_skips :: nat
  persist :: persistent
  group_pool :: pool
  wire :: "wire_msg list"
  log :: "effect list"

record player_env =
  e_now :: int
  e_conn :: bool
  e_available :: bool
  e_leaves_external :: bool
  e_connected :: bool
  e_awaits :: bool
  e_active_stream :: bool
  e_strict :: bool
  e_channel :: nat
  e_support :: "player_support option"
  e_codecs :: codec_env
  e_header :: "transformer \<Rightarrow> bytes option"
  e_pool :: pool
  e_in_use :: "transformer list"
  e_pruning :: bool

definition new_persistent :: persistent where
  "new_persistent = \<lparr>pl_volume = 100, pl_muted = False, pl_tracker = None, disconnect_time_us = None,
     reset_handle = None, output_delay_ms = 0, required_lead_time_ms = 250, min_buffer_ms = 1000,
     commands = [], override = None\<rparr>"

text \<open>The role as the registry's factory creates it, over the client's persistent state.\<close>

definition new_player :: "persistent \<Rightarrow> player" where
  "new_player st = \<lparr>ctor_format = None, pref_format = None, pref_codec = None, client_format = None,
     client_format_legacy = False, reqs = None, stream_started = False, pending_start = False,
     last_sent = None, sent_end_us = None, tracked = False, stream_start_time_us = None,
     late_skips = 0, persist = st, group_pool = empty_pool, wire = [], log = []\<rparr>"

definition upd :: "(persistent \<Rightarrow> persistent) \<Rightarrow> player \<Rightarrow> player" where
  "upd f s = s\<lparr>persist := f (persist s)\<rparr>"

definition eff :: "effect \<Rightarrow> player \<Rightarrow> player" where
  "eff x s = s\<lparr>log := log s @ [x]\<rparr>"

text \<open>\<open>Role.send_message\<close>, \<open>SendspinClient.send_message\<close> and \<open>send_binary\<close>: dropped without a
  transport.\<close>

definition send :: "player_env \<Rightarrow> wire_msg \<Rightarrow> player \<Rightarrow> player" where
  "send env m s = (if e_conn env then s\<lparr>wire := wire s @ [m]\<rparr> else s)"

definition reset_binary_timing :: "player \<Rightarrow> player" where
  "reset_binary_timing s = s\<lparr>stream_start_time_us := None, late_skips := 0\<rparr>"

subsection \<open>Requirements\<close>

definition preferred_format :: "player \<Rightarrow> audio_format option" where
  "preferred_format s = (case pref_format s of Some a \<Rightarrow> Some a | None \<Rightarrow> ctor_format s)"

text \<open>\<open>prune_transformer_pool(keep)\<close> of the group, with the encoders the other roles use.\<close>

definition prune_transformer_pool :: "player_env \<Rightarrow> transformer \<Rightarrow> player \<Rightarrow> player" where
  "prune_transformer_pool env keep s =
     (if e_pruning env then s else s\<lparr>group_pool := prune (keep # e_in_use env) (group_pool s)\<rparr>)"

definition ensure_audio_requirements :: "player_env \<Rightarrow> bool \<Rightarrow> player \<Rightarrow> player option" where
  "ensure_audio_requirements env force s =
     (if reqs s \<noteq> None \<and> \<not> force then Some s
      else if e_support env = None then Some (s\<lparr>reqs := None\<rparr>)
      else case (pref_format s, pref_codec s) of
        (Some a, Some codec) \<Rightarrow>
          (case get_or_create (key_of (e_channel env) codec a) (group_pool s) of
             None \<Rightarrow> None
           | Some (t, p) \<Rightarrow>
               let s' = s\<lparr>reqs := Some \<lparr>r_rate = af_rate a, r_depth = encode_depth codec (af_depth a),
                            r_channels = af_channels a, r_transformer = t, r_channel = e_channel env,
                            r_frame_us = 25000\<rparr>, group_pool := p\<rparr> in
               Some (if map_option r_transformer (reqs s) = Some t then s'
                     else prune_transformer_pool env t s'))
      | _ \<Rightarrow> Some (s\<lparr>reqs := None\<rparr>))"

definition get_audio_requirements :: "player_env \<Rightarrow> player \<Rightarrow> (requirements option \<times> player) option" where
  "get_audio_requirements env s =
     (case reqs s of
        None \<Rightarrow> Some (None, s)
      | Some r \<Rightarrow>
          if e_channel env \<noteq> r_channel r
          then do { s \<leftarrow> ensure_audio_requirements env True s; Some (reqs s, s) }
          else Some (Some r, s))"

text \<open>\<open>_effective_format\<close>: the codec is read off the class of the transformer.\<close>

definition format_of :: "requirements \<Rightarrow> audio_codec \<times> audio_format" where
  "format_of r = (k_class (t_key (r_transformer r)), audio_format_of (r_rate r) (r_depth r) (r_channels r))"

definition effective_format :: "player_env \<Rightarrow> player \<Rightarrow> ((audio_codec \<times> audio_format) option \<times> player) option" where
  "effective_format env s =
     do { (r, s) \<leftarrow> get_audio_requirements env s; Some (map_option format_of r, s) }"

definition ensure_preferred_format :: "player_env \<Rightarrow> player \<Rightarrow> player" where
  "ensure_preferred_format env s =
     (case e_support env of
        None \<Rightarrow> s
      | Some support \<Rightarrow>
          let compatible = filter_encodable_formats (e_codecs env) (supported_formats support) in
          if compatible = [] then s\<lparr>pref_format := None, pref_codec := None\<rparr>
          else let (f, ov) = select_format compatible (client_format s) (override (persist s)) in
            upd (\<lambda>st. st\<lparr>override := ov\<rparr>)
              (s\<lparr>pref_format := Some (audio_format_of (sf_rate f) (sf_depth f) (sf_channels f)),
                 pref_codec := Some (sf_codec f)\<rparr>))"

definition get_output_delay_us :: "player \<Rightarrow> int" where
  "get_output_delay_us s = max (output_delay_ms (persist s)) 0 * 1000"

definition get_required_lead_time_us :: "player \<Rightarrow> int" where
  "get_required_lead_time_us s = min (max (required_lead_time_ms (persist s)) 0) MAX_TIMING_PARAMETER_MS * 1000"

definition get_min_buffer_us :: "player \<Rightarrow> int" where
  "get_min_buffer_us s = min (max (min_buffer_ms (persist s)) 0) MAX_MIN_BUFFER_MS * 1000"

definition ensure_buffer_tracker :: "player_env \<Rightarrow> player \<Rightarrow> player" where
  "ensure_buffer_tracker env s =
     (case e_support env of
        None \<Rightarrow> s\<lparr>tracked := False\<rparr>
      | Some support \<Rightarrow>
          let capacity = max 1 (buffer_capacity support);
              t = (case pl_tracker (persist s) of
                     None \<Rightarrow> new_tracker capacity 30000000
                   | Some t \<Rightarrow> t\<lparr>capacity_bytes := capacity, max_duration_us := 30000000\<rparr>) in
          upd (\<lambda>st. st\<lparr>pl_tracker := Some (set_output_delay (e_now env) (get_output_delay_us s) t)\<rparr>)
            (s\<lparr>tracked := True\<rparr>))"

definition reset_tracker :: "player \<Rightarrow> player" where
  "reset_tracker s = upd (\<lambda>st. st\<lparr>pl_tracker := map_option reset (pl_tracker st)\<rparr>) s"

subsection \<open>Lifecycle hooks\<close>

definition on_connect :: "player_env \<Rightarrow> player \<Rightarrow> player option" where
  "on_connect env s =
     (let s = eff Subscribe (upd (\<lambda>st. st\<lparr>commands := []\<rparr>) s);
          s = s\<lparr>stream_started := False, last_sent := None, sent_end_us := None, client_format := None,
                client_format_legacy := False\<rparr>;
          s = upd (\<lambda>st. st\<lparr>reset_handle := None, disconnect_time_us := None\<rparr>) s;
          s = reset_tracker (ensure_buffer_tracker env s)
      in ensure_audio_requirements env True (ensure_preferred_format env s))"

definition on_disconnect :: "player_env \<Rightarrow> player \<Rightarrow> player" where
  "on_disconnect env s =
     (let s = (eff Unsubscribe s)\<lparr>stream_started := False, last_sent := None\<rparr>;
          s = upd (\<lambda>st. st\<lparr>disconnect_time_us := Some (e_now env)\<rparr>) s
      in if pl_tracker (persist s) = None then s
         else upd (\<lambda>st. st\<lparr>reset_handle := Some (e_now env)\<rparr>) s)"

text \<open>The timer's \<open>_maybe_reset\<close>.\<close>

definition maybe_reset :: "player_env \<Rightarrow> player \<Rightarrow> player" where
  "maybe_reset env s =
     (case reset_handle (persist s) of
        None \<Rightarrow> s
      | Some captured \<Rightarrow>
          let s' = upd (\<lambda>st. st\<lparr>reset_handle := None\<rparr>) s in
          if e_conn env then s'
          else if disconnect_time_us (persist s) \<noteq> Some captured then s'
          else reset_tracker s')"

definition on_availability_changed :: "bool \<Rightarrow> bool \<Rightarrow> player \<Rightarrow> player" where
  "on_availability_changed old new s =
     (if new \<and> \<not> old \<and> pending_start s then eff JoinActiveStream s else s)"

definition on_group_changed :: "player_env \<Rightarrow> player \<Rightarrow> player option" where
  "on_group_changed env s =
     (let s = eff Unsubscribe s;
          s = (if e_conn env then eff Subscribe s else s);
          s = reset_tracker (ensure_buffer_tracker env s);
          s = reset_binary_timing (s\<lparr>stream_started := False, pending_start := False, last_sent := None,
                sent_end_us := None\<rparr>)
      in ensure_audio_requirements env True s)"

subsection \<open>Stream hooks\<close>

definition on_stream_start :: "player_env \<Rightarrow> player \<Rightarrow> player option" where
  "on_stream_start env s =
     do { (r, s) \<leftarrow> get_audio_requirements env s;
          (r, s) \<leftarrow> (case r of
              None \<Rightarrow> do { s \<leftarrow> ensure_audio_requirements env False s; get_audio_requirements env s }
            | Some _ \<Rightarrow> Some (r, s));
          Some (if r = None then s
                else if \<not> e_conn env then s
                else (reset_binary_timing s)\<lparr>pending_start := True\<rparr>) }"

text \<open>\<open>base64.b64encode(header).decode() if header else None\<close>: an empty header counts as none.\<close>

definition codec_header :: "player_env \<Rightarrow> requirements \<Rightarrow> string option" where
  "codec_header env r =
     (if k_class (t_key (r_transformer r)) = FLAC then
        (case e_header env (r_transformer r) of
           None \<Rightarrow> None | Some h \<Rightarrow> if h = [] then None else Some (b64encode h))
      else None)"

definition current_format :: "player_env \<Rightarrow> requirements \<Rightarrow> stream_format" where
  "current_format env r =
     (k_class (t_key (r_transformer r)), r_rate r, r_channels r, r_depth r, codec_header env r)"

definition send_stream_start :: "player_env \<Rightarrow> player \<Rightarrow> player option" where
  "send_stream_start env s =
     do { (r, s) \<leftarrow> get_audio_requirements env s;
          Some (case r of
              None \<Rightarrow> s
            | Some r \<Rightarrow>
                if \<not> e_conn env then s
                else if stream_started s \<and> last_sent s = Some (current_format env r) then s
                else (send env (StreamStart (current_format env r)) s)
                       \<lparr>stream_started := True, last_sent := Some (current_format env r)\<rparr>) }"

definition on_audio_chunk :: "player_env \<Rightarrow> bytes \<Rightarrow> int \<Rightarrow> int \<Rightarrow> int \<Rightarrow> player \<Rightarrow> player option" where
  "on_audio_chunk env data ts dur bytes s =
     (if pending_start s \<and> \<not> e_available env \<and> \<not> (e_conn env \<and> e_leaves_external env) then Some s
      else do {
        s \<leftarrow> (if pending_start s
              then do { s \<leftarrow> send_stream_start env s; Some (s\<lparr>pending_start := False\<rparr>) }
              else Some s);
        Some (if \<not> stream_started s then s
              else (send env (AudioChunk data ts dur (PLAYER_AUDIO_HEADER_SIZE + bytes)) s)
                     \<lparr>sent_end_us := Some (ts + dur)\<rparr>) })"

definition on_stream_clear :: "player_env \<Rightarrow> player \<Rightarrow> player" where
  "on_stream_clear env s =
     (if \<not> e_conn env then s
      else let s = (if stream_started s then send env StreamClear s else s);
               s = reset_binary_timing (s\<lparr>pending_start := False, sent_end_us := None\<rparr>)
           in if tracked s then reset_tracker s else s)"

definition on_stream_end :: "player_env \<Rightarrow> player \<Rightarrow> player" where
  "on_stream_end env s =
     (if \<not> e_conn env then s
      else let s = (if stream_started s then send env StreamEnd s else s);
               s = reset_binary_timing (s\<lparr>stream_started := False, pending_start := False, last_sent := None,
                     sent_end_us := None\<rparr>)
           in if tracked s then reset_tracker s else s)"

definition on_deactivate :: "player_env \<Rightarrow> player \<Rightarrow> player" where
  "on_deactivate env s = eff Unsubscribe (if stream_started s then on_stream_end env s else s)"

subsection \<open>Commands and format preferences\<close>

definition get_player_volume :: "player \<Rightarrow> int option" where
  "get_player_volume s = (if CMD_VOLUME \<notin> set (commands (persist s)) then None
     else Some (pl_volume (persist s)))"

definition get_player_muted :: "player \<Rightarrow> bool option" where
  "get_player_muted s = (if CMD_MUTE \<notin> set (commands (persist s)) then None
     else Some (pl_muted (persist s)))"

definition set_volume :: "player_env \<Rightarrow> int \<Rightarrow> player \<Rightarrow> player" where
  "set_volume env v s =
     (if CMD_VOLUME \<notin> set (commands (persist s)) then s else send env (VolumeCommand v) s)"

definition set_mute :: "player_env \<Rightarrow> bool \<Rightarrow> player \<Rightarrow> player" where
  "set_mute env m s =
     (if CMD_MUTE \<notin> set (commands (persist s)) then s else send env (MuteCommand m) s)"

definition set_delay :: "player_env \<Rightarrow> int \<Rightarrow> player \<Rightarrow> player" where
  "set_delay env d s =
     (if CMD_SET_OUTPUT_DELAY \<in> set (commands (persist s)) then send env (DelayCommand CMD_SET_OUTPUT_DELAY d) s
      else if CMD_SET_STATIC_DELAY \<in> set (commands (persist s))
      then send env (DelayCommand CMD_SET_STATIC_DELAY d) s
      else s)"

definition begin_format_transition :: "player \<Rightarrow> player" where
  "begin_format_transition s = eff (FormatChanged (sent_end_us s)) (s\<lparr>pending_start := True\<rparr>)"

text \<open>A role that has not joined the stream yet picks the new requirements up when it joins.\<close>

definition joining :: "player_env \<Rightarrow> bool" where
  "joining env \<longleftrightarrow> e_conn env \<and> (\<not> e_connected env \<or> e_awaits env)"

definition apply_preferred_format :: "player_env \<Rightarrow> player \<Rightarrow> player option" where
  "apply_preferred_format env s =
     do { (before, s) \<leftarrow> effective_format env s;
          s \<leftarrow> ensure_audio_requirements env True (ensure_preferred_format env s);
          if \<not> joining env \<and> e_active_stream env
          then do { (after, s) \<leftarrow> effective_format env s;
                    Some (if after \<noteq> before then begin_format_transition s else s) }
          else Some s }"

definition get_supported_formats :: "player_env \<Rightarrow> supported_format list option" where
  "get_supported_formats env =
     map_option (\<lambda>h. filter_encodable_formats (e_codecs env) (supported_formats h)) (e_support env)"

text \<open>\<open>set_preferred_format\<close>, with the value it returns. With a codec alone it takes the client's first
  encodable format of that codec.\<close>

definition store_override ::
  "player_env \<Rightarrow> audio_format \<Rightarrow> audio_codec \<Rightarrow> player \<Rightarrow> (bool \<times> player) option" where
  "store_override env a codec s =
     (case e_support env of
        None \<Rightarrow> Some (False, s)
      | Some support \<Rightarrow>
          do { f \<leftarrow> supported_audio_format codec (af_channels a) (af_rate a) (af_depth a);
               if matching f (supported_formats support) = None then Some (False, s)
               else if \<not> can_encode_format (e_codecs env) f then Some (False, s)
               else do { s \<leftarrow> apply_preferred_format env (upd (\<lambda>st. st\<lparr>override := Some (a, codec)\<rparr>) s);
                         Some (True, s) } })"

definition set_preferred_format ::
  "player_env \<Rightarrow> audio_format option \<Rightarrow> audio_codec option \<Rightarrow> player \<Rightarrow> (bool \<times> player) option" where
  "set_preferred_format env a codec s =
     (case a of
        None \<Rightarrow>
          (case codec of
             None \<Rightarrow> do { s \<leftarrow> apply_preferred_format env (upd (\<lambda>st. st\<lparr>override := None\<rparr>) s);
                          Some (True, s) }
           | Some c \<Rightarrow>
               (case e_support env of
                  None \<Rightarrow> Some (False, s)
                | Some support \<Rightarrow>
                    (case find (\<lambda>f. sf_codec f = c)
                            (filter_encodable_formats (e_codecs env) (supported_formats support)) of
                       None \<Rightarrow> Some (False, s)
                     | Some f \<Rightarrow>
                         store_override env (audio_format_of (sf_rate f) (sf_depth f) (sf_channels f)) c s)))
      | Some a \<Rightarrow> (case codec of None \<Rightarrow> Some (False, s) | Some c \<Rightarrow> store_override env a c s))"

definition set_client_format :: "player_env \<Rightarrow> supported_format option \<Rightarrow> player \<Rightarrow> player option" where
  "set_client_format env f s =
     (if f = client_format s then Some s else apply_preferred_format env (s\<lparr>client_format := f\<rparr>))"

definition is_declared_format :: "player_env \<Rightarrow> supported_format \<Rightarrow> bool" where
  "is_declared_format env f \<longleftrightarrow>
     (case e_support env of None \<Rightarrow> False | Some h \<Rightarrow> list_ex (fmt_matches f) (supported_formats h))"

subsection \<open>Messages from the client\<close>

text \<open>\<open>PlayerStatePayload\<close> and the part of \<open>ClientStatePayload\<close> this role reads.\<close>

record player_state_payload =
  ps_state :: "string option"
  ps_volume :: "int option"
  ps_muted :: "bool option"
  ps_output_delay_ms :: "int option"
  ps_required_lead_time_ms :: "int option"
  ps_min_buffer_ms :: "int option"
  ps_commands :: "player_command list option"
  ps_legacy_delay_key :: "string option"
  ps_format :: "supported_format option"
  ps_ignored :: "string list option"

record client_state_payload =
  cs_available :: "bool option"
  cs_player :: "player_state_payload option"

text \<open>\<open>PlayerStatePayload.__post_init__\<close>.\<close>

definition in_range :: "int \<Rightarrow> int \<Rightarrow> int option \<Rightarrow> bool" where
  "in_range lo hi v \<longleftrightarrow> (case v of None \<Rightarrow> True | Some x \<Rightarrow> lo \<le> x \<and> x \<le> hi)"

definition non_negative :: "int option \<Rightarrow> bool" where
  "non_negative v \<longleftrightarrow> (case v of None \<Rightarrow> True | Some x \<Rightarrow> 0 \<le> x)"

definition payload_valid :: "player_state_payload \<Rightarrow> bool" where
  "payload_valid p \<longleftrightarrow> in_range 0 100 (ps_volume p) \<and> in_range 0 5000 (ps_output_delay_ms p)
     \<and> non_negative (ps_required_lead_time_ms p) \<and> non_negative (ps_min_buffer_ms p)"

text \<open>\<open>list(dict.fromkeys(xs))\<close>: the first occurrences, in order.\<close>

definition fromkeys :: "'a list \<Rightarrow> 'a list" where
  "fromkeys xs = rev (remdups (rev xs))"

definition legacy_hello_commands :: "player_env \<Rightarrow> player_command list option" where
  "legacy_hello_commands env = (case e_support env of None \<Rightarrow> None | Some h \<Rightarrow> hello_commands h)"

definition initial_state_deviations :: "client_state_payload \<Rightarrow> string list" where
  "initial_state_deviations p =
     (if cs_player p = None then [''has an active player role but no player state''] else [])"

definition client_state_deviations :: "player_env \<Rightarrow> client_state_payload \<Rightarrow> string list" where
  "client_state_deviations env payload =
     (case cs_player payload of
        None \<Rightarrow> []
      | Some p \<Rightarrow>
          let legacy = legacy_hello_commands env;
              declared = (case ps_commands p of Some cs \<Rightarrow> cs | None \<Rightarrow> []);
              cmds = (case legacy of Some l \<Rightarrow> l @ declared | None \<Rightarrow> declared)
          in (if ps_output_delay_ms p = None \<or> ps_required_lead_time_ms p = None \<or> ps_min_buffer_ms p = None
              then [''omitted required player timing fields''] else [])
           @ (case ps_min_buffer_ms p of
                Some b \<Rightarrow> if MAX_MIN_BUFFER_MS < b then [''reported min_buffer_ms above 5000''] else []
              | None \<Rightarrow> [])
           @ (if legacy = None \<and> ps_commands p = None then [''omitted required supported_commands''] else [])
           @ (if CMD_VOLUME \<in> set cmds \<and> ps_volume p = None
              then [''omitted volume despite declaring the volume command''] else [])
           @ (if CMD_MUTE \<in> set cmds \<and> ps_muted p = None
              then [''omitted muted despite declaring the mute command''] else [])
           @ (if ps_state p \<noteq> None then [''used legacy player.state instead of top-level available''] else [])
           @ (case ps_legacy_delay_key p of
                Some key \<Rightarrow> if key \<noteq> [] then [''used the pre-rename '' @ [CHR 0x27] @ key @ [CHR 0x27] @ '' key''] else []
              | None \<Rightarrow> [])
           @ (case ps_ignored p of
                Some ig \<Rightarrow> if ig \<noteq> [] then [''declared unrecognized supported_commands''] else []
              | None \<Rightarrow> [])
           @ (if CMD_SET_STATIC_DELAY \<in> set declared
              then [''declared the pre-rename '' @ [CHR 0x27] @ ''set_static_delay'' @ [CHR 0x27] @ '' command'']
              else [])
           @ (case ps_format p of
                Some f \<Rightarrow> if \<not> is_declared_format env f
                  then [''preferred a format not in the client'' @ [CHR 0x27] @ ''s declared supported_formats'']
                  else []
              | None \<Rightarrow> []))"

text \<open>\<open>_apply_state_timing\<close>, one field after the other.\<close>

definition apply_output_delay :: "player_env \<Rightarrow> int option \<Rightarrow> player \<Rightarrow> player" where
  "apply_output_delay env v s =
     (case v of
        Some d \<Rightarrow>
          if output_delay_ms (persist s) \<noteq> d then
            let s = upd (\<lambda>st. st\<lparr>output_delay_ms := d\<rparr>) s;
                s = (if tracked s then upd (\<lambda>st. st\<lparr>pl_tracker :=
                       map_option (set_output_delay (e_now env) (get_output_delay_us s)) (pl_tracker st)\<rparr>) s
                     else s)
            in eff (Emit (OutputDelayChanged d)) s
          else s
      | None \<Rightarrow> s)"

definition apply_lead_time :: "int option \<Rightarrow> player \<Rightarrow> player" where
  "apply_lead_time v s =
     (case v of
        Some d \<Rightarrow>
          if required_lead_time_ms (persist s) \<noteq> d
          then eff (Emit (RequiredLeadTimeChanged d)) (upd (\<lambda>st. st\<lparr>required_lead_time_ms := d\<rparr>) s)
          else s
      | None \<Rightarrow> s)"

definition apply_min_buffer :: "int option \<Rightarrow> player \<Rightarrow> player" where
  "apply_min_buffer v s =
     (case v of
        Some d \<Rightarrow>
          if min_buffer_ms (persist s) \<noteq> d
          then eff (Emit (MinBufferChanged d)) (upd (\<lambda>st. st\<lparr>min_buffer_ms := d\<rparr>) s)
          else s
      | None \<Rightarrow> s)"

definition apply_state_timing :: "player_env \<Rightarrow> player_state_payload \<Rightarrow> player \<Rightarrow> player" where
  "apply_state_timing env p s =
     apply_min_buffer (ps_min_buffer_ms p)
       (apply_lead_time (ps_required_lead_time_ms p) (apply_output_delay env (ps_output_delay_ms p) s))"

definition apply_state_format :: "player_env \<Rightarrow> player_state_payload \<Rightarrow> player \<Rightarrow> player option" where
  "apply_state_format env p s =
     (case ps_format p of
        None \<Rightarrow> if client_format_legacy s then Some s else set_client_format env None s
      | Some f \<Rightarrow>
          let s = s\<lparr>client_format_legacy := False\<rparr> in
          if is_declared_format env f then set_client_format env (Some f) s else Some s)"

text \<open>The part of \<open>on_client_state\<close> that concerns volume and mute: the values stored, with whether
  one changed, and the event.\<close>

definition store_state_volume :: "player_env \<Rightarrow> player_state_payload \<Rightarrow> player \<Rightarrow> bool \<times> player" where
  "store_state_volume env p s =
     (let cmds = (case legacy_hello_commands env of
              Some legacy \<Rightarrow> Some (fromkeys (legacy @
                (case ps_commands p of None \<Rightarrow> commands (persist s) | Some cs \<Rightarrow> cs)))
            | None \<Rightarrow> ps_commands p);
          s = (case cmds of Some cs \<Rightarrow> upd (\<lambda>st. st\<lparr>commands := cs\<rparr>) s | None \<Rightarrow> s);
          vol = (case ps_volume p of Some v \<Rightarrow> v | None \<Rightarrow> pl_volume (persist s));
          mut = (case ps_muted p of Some m \<Rightarrow> m | None \<Rightarrow> pl_muted (persist s))
      in (vol \<noteq> pl_volume (persist s) \<or> mut \<noteq> pl_muted (persist s),
          upd (\<lambda>st. st\<lparr>pl_volume := vol, pl_muted := mut\<rparr>) s))"

definition apply_state_volume :: "player_env \<Rightarrow> player_state_payload \<Rightarrow> player \<Rightarrow> player" where
  "apply_state_volume env p s =
     (let (changed, s') = store_state_volume env p s
      in if changed \<or> (get_player_volume s, get_player_muted s) \<noteq> (get_player_volume s', get_player_muted s')
         then eff (Emit (VolumeChanged (pl_volume (persist s')) (pl_muted (persist s')))) s'
         else s')"

definition on_client_state :: "player_env \<Rightarrow> client_state_payload \<Rightarrow> player \<Rightarrow> player option" where
  "on_client_state env payload s =
     (case cs_player payload of
        None \<Rightarrow> Some s
      | Some p \<Rightarrow>
          let s = (case ps_state p of
                     Some st \<Rightarrow> if cs_available payload = None
                       then eff (AvailabilityTask (st \<noteq> ''external_source'')) s else s
                   | None \<Rightarrow> s)
          in apply_state_format env p (apply_state_timing env p (apply_state_volume env p s)))"

definition on_initial_client_state :: "player_env \<Rightarrow> client_state_payload \<Rightarrow> player \<Rightarrow> player option" where
  "on_initial_client_state env payload s =
     (case cs_player payload of
        None \<Rightarrow> Some s
      | Some p \<Rightarrow> apply_state_format env p (apply_state_timing env p s))"

record format_request =
  fr_codec :: "audio_codec option"
  fr_rate :: "int option"
  fr_channels :: "int option"
  fr_depth :: "int option"

text \<open>Python's \<open>requested or base\<close> on an optional integer.\<close>

definition or_else :: "int option \<Rightarrow> int \<Rightarrow> int" where
  "or_else v b = (case v of Some x \<Rightarrow> if x = 0 then b else x | None \<Rightarrow> b)"

definition request_names :: "format_request \<Rightarrow> supported_format \<Rightarrow> bool" where
  "request_names q f \<longleftrightarrow> fr_codec q \<in> {None, Some (sf_codec f)} \<and> fr_rate q \<in> {None, Some (sf_rate f)}
     \<and> fr_depth q \<in> {None, Some (sf_depth f)} \<and> fr_channels q \<in> {None, Some (sf_channels f)}"

definition on_stream_request_format :: "player_env \<Rightarrow> format_request option \<Rightarrow> player \<Rightarrow> player option" where
  "on_stream_request_format env request s =
     (case request of
        None \<Rightarrow> Some s
      | Some q \<Rightarrow>
          (case e_support env of
             None \<Rightarrow> None
           | Some support \<Rightarrow>
               let undeclared = \<not> list_ex (request_names q) (supported_formats support);
                   supported = filter_encodable_formats (e_codecs env) (supported_formats support) in
               if undeclared \<and> e_strict env then None
               else let s = (if undeclared then eff Noncompliance s else s) in
               (case supported of
                  [] \<Rightarrow> Some s
                | first # _ \<Rightarrow>
                    let base = (case preferred_format s of Some a \<Rightarrow> a
                                | None \<Rightarrow> audio_format_of (sf_rate first) (sf_depth first) (sf_channels first));
                        base_codec = (case pref_codec s of Some c \<Rightarrow> c | None \<Rightarrow> sf_codec first);
                        base_depth = (if base_codec = OPUS then 16 else af_depth base) in
                    do { f \<leftarrow> supported_audio_format
                           (case fr_codec q of Some c \<Rightarrow> c | None \<Rightarrow> base_codec)
                           (or_else (fr_channels q) (af_channels base))
                           (or_else (fr_rate q) (af_rate base)) (or_else (fr_depth q) base_depth);
                         if matching f supported = None then Some s
                         else set_client_format env (Some f) (s\<lparr>client_format_legacy := True\<rparr>) })))"

end
