(* ===== verification/Player_Facts.thy ===== *)
theory Player_Facts
  imports Player_Role
begin

text \<open>
  What the player role guarantees over every run of its operations: the messages it hands to a
  connection follow the stream protocol, the formats it announces are ones the client declared and
  the server can encode, and audio is sent only under the format announced for it.
\<close>

declare split_paired_All [simp del] split_paired_Ex [simp del]

subsection \<open>The protocol of one connection\<close>

text \<open>The client's side: the format of the open stream. \<open>None\<close> as a result is a violation: audio,
  \<open>stream/clear\<close> or \<open>stream/end\<close> without an open stream.\<close>

fun wire_step :: "stream_format option \<Rightarrow> wire_msg \<Rightarrow> stream_format option option" where
  "wire_step fmt (StreamStart f) = Some (Some f)"
| "wire_step fmt StreamClear = (if fmt = None then None else Some fmt)"
| "wire_step fmt StreamEnd = (if fmt = None then None else Some None)"
| "wire_step fmt (AudioChunk d ts dur n) = (if fmt = None then None else Some fmt)"
| "wire_step fmt m = Some fmt"

fun wire_run :: "wire_msg list \<Rightarrow> stream_format option \<Rightarrow> stream_format option option" where
  "wire_run [] fmt = Some fmt"
| "wire_run (m # ms) fmt = Option.bind (wire_step fmt m) (wire_run ms)"

lemma wire_run_append: "wire_run (xs @ ys) fmt = Option.bind (wire_run xs fmt) (wire_run ys)"
  by (induction xs arbitrary: fmt) (auto split: Option.bind_split)

subsection \<open>Operations\<close>

datatype player_op =
    Connect | Disconnect | ResetTimer | AvailabilityHook bool bool | GroupChangedHook
  | StreamStartHook | ChunkHook bytes int int int | ClearHook | EndHook | DeactivateHook
  | SetVolume int | SetMute bool | SetDelay int | ReadRequirements
  | SetPreferred "audio_format option" "audio_codec option"
  | ClientState client_state_payload | InitialState client_state_payload
  | RequestFormat "format_request option"

fun player_op_on :: "player_env \<Rightarrow> player_op \<Rightarrow> player \<Rightarrow> player option" where
  "player_op_on env Connect s = on_connect env (s\<lparr>wire := []\<rparr>)"
| "player_op_on env Disconnect s = Some (on_disconnect env s)"
| "player_op_on env ResetTimer s = Some (maybe_reset env s)"
| "player_op_on env (AvailabilityHook old new) s = Some (on_availability_changed old new s)"
| "player_op_on env GroupChangedHook s = on_group_changed env s"
| "player_op_on env StreamStartHook s = on_stream_start env s"
| "player_op_on env (ChunkHook d ts dur n) s = on_audio_chunk env d ts dur n s"
| "player_op_on env ClearHook s = Some (on_stream_clear env s)"
| "player_op_on env EndHook s = Some (on_stream_end env s)"
| "player_op_on env DeactivateHook s = Some (on_deactivate env s)"
| "player_op_on env (SetVolume v) s = Some (set_volume env v s)"
| "player_op_on env (SetMute m) s = Some (set_mute env m s)"
| "player_op_on env (SetDelay d) s = Some (set_delay env d s)"
| "player_op_on env ReadRequirements s = map_option snd (get_audio_requirements env s)"
| "player_op_on env (SetPreferred a c) s = map_option snd (set_preferred_format env a c s)"
| "player_op_on env (ClientState p) s = on_client_state env p s"
| "player_op_on env (InitialState p) s = on_initial_client_state env p s"
| "player_op_on env (RequestFormat q) s = on_stream_request_format env q s"

text \<open>Between two operations of a role the other roles of the group change the pool.\<close>

definition player_step :: "player_env \<Rightarrow> player_op \<Rightarrow> player \<Rightarrow> player option" where
  "player_step env oper s = player_op_on env oper (s\<lparr>group_pool := e_pool env\<rparr>)"

text \<open>The runs of a role whose client sent the hello \<open>h\<close>.\<close>

inductive player_run :: "codec_env \<Rightarrow> player_support option \<Rightarrow> player \<Rightarrow> player \<Rightarrow> bool"
  for c h s where
  start: "player_run c h s s"
| step: "\<lbrakk>player_run c h s s'; pool_ok (e_pool env); e_codecs env = c; e_support env = h;
    player_step env oper s' = Some s''\<rbrakk> \<Longrightarrow> player_run c h s s''"

subsection \<open>The invariant\<close>

definition served :: "codec_env \<Rightarrow> player_support option \<Rightarrow> supported_format \<Rightarrow> bool" where
  "served c h f \<longleftrightarrow> (\<exists>hello. h = Some hello \<and> f \<in> set (supported_formats hello)) \<and> can_encode_format c f"

definition pref_ok :: "codec_env \<Rightarrow> player_support option \<Rightarrow> player \<Rightarrow> bool" where
  "pref_ok c h s \<longleftrightarrow> pref_format s = None \<and> pref_codec s = None \<or>
     (\<exists>f. served c h f \<and> pref_codec s = Some (sf_codec f) \<and>
          pref_format s = Some (audio_format_of (sf_rate f) (sf_depth f) (sf_channels f)))"

definition reqs_ok :: "player \<Rightarrow> bool" where
  "reqs_ok s \<longleftrightarrow> (\<forall>r. reqs s = Some r \<longrightarrow> (\<exists>a k. pref_format s = Some a \<and> pref_codec s = Some k \<and>
     format_of r = (k, audio_format_of (af_rate a) (encode_depth k (af_depth a)) (af_channels a))))"

definition stream_served :: "codec_env \<Rightarrow> player_support option \<Rightarrow> stream_format \<Rightarrow> bool" where
  "stream_served c h x \<longleftrightarrow> (case x of (k, rate, channels, depth, header) \<Rightarrow>
     (\<exists>f. served c h f \<and> k = sf_codec f \<and> rate = sf_rate f \<and> channels = sf_channels f \<and>
          depth = encode_depth k (sf_depth f)))"

definition wire_ok :: "codec_env \<Rightarrow> player_support option \<Rightarrow> player \<Rightarrow> bool" where
  "wire_ok c h s \<longleftrightarrow> (\<exists>fmt. wire_run (wire s) None = Some fmt \<and> (stream_started s \<longrightarrow> fmt = last_sent s))
     \<and> (stream_started s \<longleftrightarrow> last_sent s \<noteq> None)
     \<and> (\<forall>x. StreamStart x \<in> set (wire s) \<longrightarrow> stream_served c h x)"

definition player_ok :: "codec_env \<Rightarrow> player_support option \<Rightarrow> player \<Rightarrow> bool" where
  "player_ok c h s \<longleftrightarrow> pref_ok c h s \<and> reqs_ok s \<and> wire_ok c h s"

text \<open>A computation that succeeds, and in what state.\<close>

definition succeeds :: "('a \<Rightarrow> bool) \<Rightarrow> 'a option \<Rightarrow> bool" where
  "succeeds P r \<longleftrightarrow> (\<exists>x. r = Some x \<and> P x)"

lemma succeeds_simps [simp]: "succeeds P (Some x) = P x" "\<not> succeeds P None"
  by (simp_all add: succeeds_def)

lemma succeeds_bind: "succeeds P r \<Longrightarrow> (\<And>x. P x \<Longrightarrow> succeeds Q (f x)) \<Longrightarrow> succeeds Q (Option.bind r f)"
  by (auto simp: succeeds_def)

lemma succeeds_mono: "succeeds P r \<Longrightarrow> (\<And>x. P x \<Longrightarrow> Q x) \<Longrightarrow> succeeds Q r"
  by (auto simp: succeeds_def)

text \<open>The part of the role the stream protocol reads, which the requirements are not part of.\<close>

definition stream_part where
  "stream_part s = (wire s, stream_started s, last_sent s, pending_start s, pref_format s, pref_codec s)"

lemma helper_fields [simp]:
  "wire (upd f s) = wire s" "stream_started (upd f s) = stream_started s"
  "last_sent (upd f s) = last_sent s" "pending_start (upd f s) = pending_start s"
  "pref_format (upd f s) = pref_format s" "pref_codec (upd f s) = pref_codec s" "reqs (upd f s) = reqs s"
  "group_pool (upd f s) = group_pool s"
  "wire (eff x s) = wire s" "stream_started (eff x s) = stream_started s"
  "last_sent (eff x s) = last_sent s" "pending_start (eff x s) = pending_start s"
  "pref_format (eff x s) = pref_format s" "pref_codec (eff x s) = pref_codec s" "reqs (eff x s) = reqs s"
  "group_pool (eff x s) = group_pool s"
  "wire (reset_tracker s) = wire s" "stream_started (reset_tracker s) = stream_started s"
  "last_sent (reset_tracker s) = last_sent s" "pending_start (reset_tracker s) = pending_start s"
  "pref_format (reset_tracker s) = pref_format s" "pref_codec (reset_tracker s) = pref_codec s"
  "reqs (reset_tracker s) = reqs s" "group_pool (reset_tracker s) = group_pool s"
  "wire (reset_binary_timing s) = wire s" "stream_started (reset_binary_timing s) = stream_started s"
  "last_sent (reset_binary_timing s) = last_sent s"
  "pending_start (reset_binary_timing s) = pending_start s"
  "pref_format (reset_binary_timing s) = pref_format s" "pref_codec (reset_binary_timing s) = pref_codec s"
  "reqs (reset_binary_timing s) = reqs s" "group_pool (reset_binary_timing s) = group_pool s"
  "wire (ensure_buffer_tracker env s) = wire s"
  "stream_started (ensure_buffer_tracker env s) = stream_started s"
  "last_sent (ensure_buffer_tracker env s) = last_sent s"
  "pending_start (ensure_buffer_tracker env s) = pending_start s"
  "pref_format (ensure_buffer_tracker env s) = pref_format s"
  "pref_codec (ensure_buffer_tracker env s) = pref_codec s" "reqs (ensure_buffer_tracker env s) = reqs s"
  "group_pool (ensure_buffer_tracker env s) = group_pool s"
  "wire (prune_transformer_pool env t s) = wire s"
  "stream_started (prune_transformer_pool env t s) = stream_started s"
  "last_sent (prune_transformer_pool env t s) = last_sent s"
  "pending_start (prune_transformer_pool env t s) = pending_start s"
  "pref_format (prune_transformer_pool env t s) = pref_format s"
  "pref_codec (prune_transformer_pool env t s) = pref_codec s"
  "reqs (prune_transformer_pool env t s) = reqs s"
  by (simp_all add: upd_def eff_def reset_tracker_def reset_binary_timing_def ensure_buffer_tracker_def
      prune_transformer_pool_def Let_def split: option.split)

lemma stream_part_upd [simp]:
  "stream_part (upd f s) = stream_part s" "reqs (upd f s) = reqs s" "group_pool (upd f s) = group_pool s"
  "stream_part (eff x s) = stream_part s" "reqs (eff x s) = reqs s" "group_pool (eff x s) = group_pool s"
  "stream_part (reset_tracker s) = stream_part s" "reqs (reset_tracker s) = reqs s"
  "group_pool (reset_tracker s) = group_pool s"
  "stream_part (reset_binary_timing s) = stream_part s" "reqs (reset_binary_timing s) = reqs s"
  "group_pool (reset_binary_timing s) = group_pool s"
  "stream_part (ensure_buffer_tracker env s) = stream_part s"
  "reqs (ensure_buffer_tracker env s) = reqs s" "group_pool (ensure_buffer_tracker env s) = group_pool s"
  "stream_part (prune_transformer_pool env t s) = stream_part s"
  "reqs (prune_transformer_pool env t s) = reqs s"
  by (simp_all add: stream_part_def upd_def eff_def reset_tracker_def reset_binary_timing_def
      ensure_buffer_tracker_def prune_transformer_pool_def Let_def split: option.split)

lemma player_ok_cong:
  assumes "stream_part s' = stream_part s" "reqs s' = reqs s"
  shows "player_ok c h s' \<longleftrightarrow> player_ok c h s"
  using assms by (simp add: player_ok_def pref_ok_def reqs_ok_def wire_ok_def stream_part_def)

definition live :: "codec_env \<Rightarrow> player_support option \<Rightarrow> player \<Rightarrow> bool" where
  "live c h s \<longleftrightarrow> player_ok c h s \<and> pool_ok (group_pool s)"

definition agrees :: "codec_env \<Rightarrow> player_support option \<Rightarrow> player_env \<Rightarrow> bool" where
  "agrees c h env \<longleftrightarrow> e_codecs env = c \<and> e_support env = h"

lemma prune_pool_ok [simp]: "pool_ok (group_pool s) \<Longrightarrow> pool_ok (group_pool (prune_transformer_pool env t s))"
  by (auto simp: prune_transformer_pool_def intro: pool_prune_ok)

lemma reqs_ok_prune [simp]: "reqs_ok (prune_transformer_pool env t s) = reqs_ok s"
  by (simp add: reqs_ok_def prune_transformer_pool_def)

text \<open>Refreshing the requirements never fails: the preferred format is one the server can encode.\<close>

lemma ensure_reqs:
  assumes pref: "pref_ok c h s" and pool: "pool_ok (group_pool s)" and reqs: "force \<or> reqs_ok s"
  shows "succeeds (\<lambda>s'. stream_part s' = stream_part s \<and> reqs_ok s' \<and> pool_ok (group_pool s'))
    (ensure_audio_requirements env force s)"
proof (cases "reqs s \<noteq> None \<and> \<not> force \<or> e_support env = None \<or> pref_format s = None")
  case True
  then show ?thesis
    using reqs pool pref
    by (auto simp: ensure_audio_requirements_def stream_part_def reqs_ok_def pref_ok_def
        split: option.split)
next
  case False
  then obtain f where f: "served c h f" "pref_codec s = Some (sf_codec f)"
    "pref_format s = Some (audio_format_of (sf_rate f) (sf_depth f) (sf_channels f))"
    using pref by (auto simp: pref_ok_def)
  define a where "a = audio_format_of (sf_rate f) (sf_depth f) (sf_channels f)"
  define k where "k = key_of (e_channel env) (sf_codec f) a"
  have "transformer_constructs k"
    using f(1) unfolding k_def a_def served_def by (intro encodable_constructs [where env = c]) simp
  then obtain t p where tp: "get_or_create k (group_pool s) = Some (t, p)"
    by (cases "dget (transformers (group_pool s)) k") (auto simp: get_or_create_def Let_def)
  have t: "t_key t = k" "pool_ok p"
    using get_or_create_ok [OF pool tp] by simp_all
  define s1 where "s1 = s\<lparr>reqs := Some \<lparr>r_rate = af_rate a, r_depth = encode_depth (sf_codec f) (af_depth a),
      r_channels = af_channels a, r_transformer = t, r_channel = e_channel env, r_frame_us = 25000\<rparr>,
      group_pool := p\<rparr>"
  have s1: "stream_part s1 = stream_part s" "reqs_ok s1" "pool_ok (group_pool s1)"
    using f t by (simp_all add: s1_def stream_part_def reqs_ok_def format_of_def k_def key_of_def a_def)
  have "ensure_audio_requirements env force s =
      Some (if map_option r_transformer (reqs s) = Some t then s1 else prune_transformer_pool env t s1)"
    using False f tp
    by (auto simp: ensure_audio_requirements_def k_def a_def s1_def Let_def)
  then show ?thesis using s1 by simp
qed

lemma pref_ok_part: "stream_part s' = stream_part s \<Longrightarrow> pref_ok c h s' = pref_ok c h s"
  by (simp add: stream_part_def pref_ok_def)

lemma wire_ok_part: "stream_part s' = stream_part s \<Longrightarrow> wire_ok c h s' = wire_ok c h s"
  by (simp add: stream_part_def wire_ok_def)

lemma ensure_live:
  assumes "live c h s"
  shows "succeeds (\<lambda>s'. stream_part s' = stream_part s \<and> live c h s') (ensure_audio_requirements env force s)"
proof -
  have "succeeds (\<lambda>s'. stream_part s' = stream_part s \<and> reqs_ok s' \<and> pool_ok (group_pool s'))
      (ensure_audio_requirements env force s)"
    using assms ensure_reqs [of c h s force env] by (simp add: live_def player_ok_def)
  then show ?thesis
    using assms by (elim succeeds_mono) (auto simp: live_def player_ok_def dest: pref_ok_part wire_ok_part)
qed

text \<open>Reading the requirements leaves the format they ask for as it was.\<close>

lemma reqs_okD: "reqs_ok s \<Longrightarrow> reqs s = Some r \<Longrightarrow> format_of r =
  (the (pref_codec s), audio_format_of (af_rate (the (pref_format s)))
     (encode_depth (the (pref_codec s)) (af_depth (the (pref_format s)))) (af_channels (the (pref_format s))))"
  by (auto simp: reqs_ok_def)

lemma reqs_format:
  assumes "reqs_ok s" "reqs_ok s'" "stream_part s' = stream_part s" "reqs s = Some r" "reqs s' = Some r'"
  shows "format_of r' = format_of r"
  using reqs_okD [OF assms(1,4)] reqs_okD [OF assms(2,5)] assms(3) by (simp add: stream_part_def)

lemma ensure_reqs_some:
  "ensure_audio_requirements env force s = Some s' \<Longrightarrow> pref_format s \<noteq> None \<Longrightarrow> pref_codec s \<noteq> None \<Longrightarrow>
   e_support env \<noteq> None \<Longrightarrow> reqs s' \<noteq> None"
  by (auto simp: ensure_audio_requirements_def Let_def split: if_splits option.splits)

lemma get_reqs:
  assumes "live c h s"
  shows "succeeds (\<lambda>(r, s'). r = reqs s' \<and> stream_part s' = stream_part s \<and> live c h s')
    (get_audio_requirements env s)"
proof (cases "reqs s")
  case None
  then show ?thesis using assms by (simp add: get_audio_requirements_def)
next
  case (Some r)
  then show ?thesis
    using assms
    by (auto simp: get_audio_requirements_def intro: succeeds_bind [OF ensure_live [OF assms]])
qed

subsection \<open>Every operation keeps the invariant\<close>

text \<open>A change of the stream's own fields: the formats stay, the protocol has to be shown.\<close>

lemma live_wire:
  assumes "live c h s" "wire_ok c h s'" "pref_format s' = pref_format s" "pref_codec s' = pref_codec s"
    "reqs s' = reqs s" "group_pool s' = group_pool s"
  shows "live c h s'"
  using assms by (simp add: live_def player_ok_def pref_ok_def reqs_ok_def)

lemma live_cong:
  assumes "live c h s" "stream_part s' = stream_part s" "reqs s' = reqs s" "group_pool s' = group_pool s"
  shows "live c h s'"
  using assms(1,4) by (simp add: live_def player_ok_cong [OF assms(2,3)])

lemma live_wire_ok [dest]: "live c h s \<Longrightarrow> wire_ok c h s"
  by (simp add: live_def player_ok_def)

lemma live_part_simps [simp]:
  "live c h (upd f s) = live c h s" "live c h (eff x s) = live c h s"
  "live c h (reset_tracker s) = live c h s" "live c h (reset_binary_timing s) = live c h s"
  by (rule iffI; erule live_cong; simp)+

lemma live_other_fields [simp]:
  "live c h (s\<lparr>sent_end_us := e\<rparr>) = live c h s" "live c h (s\<lparr>client_format := f\<rparr>) = live c h s"
  "live c h (s\<lparr>client_format_legacy := b\<rparr>) = live c h s" "live c h (s\<lparr>pending_start := b\<rparr>) = live c h s"
  "live c h (s\<lparr>tracked := b\<rparr>) = live c h s" "live c h (s\<lparr>log := l\<rparr>) = live c h s"
  by (simp_all add: live_def player_ok_def pref_ok_def reqs_ok_def wire_ok_def)

lemma live_ended [simp]: "live c h s \<Longrightarrow> live c h (s\<lparr>stream_started := False, last_sent := None\<rparr>)"
  by (rule live_wire [of c h s]) (auto simp: live_def player_ok_def wire_ok_def)

lemma live_tracker: "live c h s \<Longrightarrow> live c h (ensure_buffer_tracker env s)"
  by (erule live_cong) simp_all

lemma live_preferred:
  assumes "live c h s" "agrees c h env"
  shows "pref_ok c h (ensure_preferred_format env s)" "wire_ok c h (ensure_preferred_format env s)"
    "group_pool (ensure_preferred_format env s) = group_pool s"
proof -
  have "wire (ensure_preferred_format env s) = wire s \<and>
      stream_started (ensure_preferred_format env s) = stream_started s \<and>
      last_sent (ensure_preferred_format env s) = last_sent s \<and>
      group_pool (ensure_preferred_format env s) = group_pool s"
    by (simp add: ensure_preferred_format_def Let_def upd_def split: option.split prod.split)
  then show "wire_ok c h (ensure_preferred_format env s)" "group_pool (ensure_preferred_format env s) = group_pool s"
    using assms by (auto simp: wire_ok_def live_def player_ok_def)
  show "pref_ok c h (ensure_preferred_format env s)"
  proof (cases h)
    case None
    then show ?thesis using assms
      by (simp add: ensure_preferred_format_def agrees_def live_def player_ok_def)
  next
    case (Some hello)
    define fs where "fs = filter_encodable_formats c (supported_formats hello)"
    show ?thesis
    proof (cases "fs = []")
      case True
      then show ?thesis using Some assms(2)
        by (simp add: ensure_preferred_format_def agrees_def fs_def pref_ok_def Let_def)
    next
      case False
      obtain f ov where sel: "select_format fs (client_format s) (override (persist s)) = (f, ov)"
        by force
      have "f \<in> set fs"
        using select_format_in [OF False] sel by (metis fst_conv)
      then have "served c h f"
        by (auto simp: served_def fs_def filter_encodable_formats_def Some)
      then show ?thesis
        using Some assms(2) False sel
        by (auto simp: ensure_preferred_format_def agrees_def fs_def [symmetric] pref_ok_def Let_def upd_def)
    qed
  qed
qed

lemma live_chosen:
  assumes "live c h s" "agrees c h env"
  shows "succeeds (\<lambda>s'. live c h s' \<and> stream_part s' = stream_part (ensure_preferred_format env s))
    (ensure_audio_requirements env True (ensure_preferred_format env s))"
proof -
  have "succeeds (\<lambda>s'. stream_part s' = stream_part (ensure_preferred_format env s) \<and> reqs_ok s' \<and>
      pool_ok (group_pool s')) (ensure_audio_requirements env True (ensure_preferred_format env s))"
    using live_preferred [OF assms] assms(1)
    by (intro ensure_reqs [of c h]) (simp_all add: live_def)
  then show ?thesis
    using live_preferred [OF assms]
    by (elim succeeds_mono) (auto simp: live_def player_ok_def dest: pref_ok_part wire_ok_part)
qed

lemma live_send:
  assumes live: "live c h s"
    and m: "\<And>fmt. (stream_started s \<Longrightarrow> fmt = last_sent s) \<Longrightarrow> wire_step fmt m = Some fmt"
    and quiet: "\<And>x. m \<noteq> StreamStart x"
  shows "live c h (send env m s)"
proof (rule live_wire [OF live])
  obtain fmt where "wire_run (wire s) None = Some fmt" "stream_started s \<longrightarrow> fmt = last_sent s"
      "stream_started s \<longleftrightarrow> last_sent s \<noteq> None" "\<forall>x. StreamStart x \<in> set (wire s) \<longrightarrow> stream_served c h x"
    using live by (auto simp: live_def player_ok_def wire_ok_def)
  moreover then have "wire_step fmt m = Some fmt" using m by blast
  ultimately show "wire_ok c h (send env m s)"
    using quiet by (simp add: wire_ok_def send_def wire_run_append eq_commute [of _ m])
qed (simp_all add: send_def)

lemma live_idle:
  assumes "live c h s" "wire s' = wire s \<or> wire s' = []" "\<not> stream_started s'" "last_sent s' = None"
    "pref_format s' = pref_format s" "pref_codec s' = pref_codec s" "reqs s' = reqs s"
    "group_pool s' = group_pool s"
  shows "live c h s'"
  using assms by (intro live_wire [of c h s s']) (auto simp: live_def player_ok_def wire_ok_def)

lemma live_connect:
  assumes "live c h s" "agrees c h env"
  shows "succeeds (live c h) (on_connect env (s\<lparr>wire := []\<rparr>))"
  unfolding on_connect_def Let_def
  by (rule succeeds_mono [OF live_chosen [OF live_idle [OF assms(1)] assms(2)]]) simp_all

lemma live_disconnect: "live c h s \<Longrightarrow> live c h (on_disconnect env s)"
  by (simp add: on_disconnect_def Let_def)

lemma live_maybe_reset: "live c h s \<Longrightarrow> live c h (maybe_reset env s)"
  by (simp add: maybe_reset_def Let_def split: option.split)

lemma live_group_changed:
  assumes "live c h s"
  shows "succeeds (live c h) (on_group_changed env s)"
  unfolding on_group_changed_def Let_def
  by (rule succeeds_mono [OF ensure_live [OF live_idle [OF assms]]]) simp_all

lemma live_stream_start:
  assumes "live c h s"
  shows "succeeds (live c h) (on_stream_start env s)"
  unfolding on_stream_start_def
proof (rule succeeds_bind [OF get_reqs [OF assms]], clarify)
  fix r s1
  assume live: "live c h s1"
  have again: "succeeds (\<lambda>(r, s'). live c h s')
      (case reqs s1 of None \<Rightarrow> Option.bind (ensure_audio_requirements env False s1) (get_audio_requirements env)
       | Some _ \<Rightarrow> Some (reqs s1, s1))"
    using live
    by (auto split: option.split intro!: succeeds_bind [OF ensure_live] succeeds_mono [OF get_reqs])
  show "succeeds (live c h)
      (Option.bind (case reqs s1 of None \<Rightarrow> Option.bind (ensure_audio_requirements env False s1) (get_audio_requirements env)
          | Some _ \<Rightarrow> Some (reqs s1, s1))
        (\<lambda>(r, s). Some (if r = None then s else if \<not> e_conn env then s else reset_binary_timing s\<lparr>pending_start := True\<rparr>)))"
    by (rule succeeds_bind [OF again]) auto
qed

lemma current_served:
  assumes "live c h s" "reqs s = Some r"
  shows "stream_served c h (current_format env r)"
proof -
  obtain a k where fmt: "pref_format s = Some a" "pref_codec s = Some k"
    "format_of r = (k, audio_format_of (af_rate a) (encode_depth k (af_depth a)) (af_channels a))"
    using assms by (auto simp: live_def player_ok_def reqs_ok_def)
  then obtain f where "served c h f" "k = sf_codec f" "a = audio_format_of (sf_rate f) (sf_depth f) (sf_channels f)"
    using assms(1) by (auto simp: live_def player_ok_def pref_ok_def)
  then show ?thesis
    using fmt by (auto simp: stream_served_def current_format_def format_of_def audio_format_of_def)
qed

lemma live_announce:
  assumes "live c h s" "reqs s = Some r" "e_conn env"
  shows "live c h (send env (StreamStart (current_format env r)) s
      \<lparr>stream_started := True, last_sent := Some (current_format env r)\<rparr>)"
  using assms current_served [OF assms(1,2), of env]
  by (intro live_wire [OF assms(1)])
     (auto simp: send_def live_def player_ok_def wire_ok_def wire_run_append)

lemma live_send_start:
  assumes "live c h s"
  shows "succeeds (live c h) (send_stream_start env s)"
  unfolding send_stream_start_def
  by (rule succeeds_bind [OF get_reqs [OF assms]])
     (auto simp: live_announce split: option.split)

lemma live_chunk:
  assumes "live c h s"
  shows "succeeds (live c h) (on_audio_chunk env d ts dur n s)"
proof (cases "pending_start s \<and> \<not> e_available env \<and> \<not> (e_conn env \<and> e_leaves_external env)")
  case True
  then show ?thesis using assms by (simp add: on_audio_chunk_def)
next
  case False
  have start: "succeeds (live c h)
      (if pending_start s then Option.bind (send_stream_start env s) (\<lambda>s. Some (s\<lparr>pending_start := False\<rparr>)) else Some s)"
    using assms by (auto intro!: succeeds_bind [OF live_send_start])
  have sent: "live c h (send env (AudioChunk d ts dur (PLAYER_AUDIO_HEADER_SIZE + n)) s1)"
    if "live c h s1" "stream_started s1" for s1
  proof -
    have "last_sent s1 \<noteq> None" using that by (simp add: live_def player_ok_def wire_ok_def)
    then show ?thesis using that by (simp add: live_send)
  qed
  have chunk: "on_audio_chunk env d ts dur n s = Option.bind
      (if pending_start s then Option.bind (send_stream_start env s) (\<lambda>s. Some (s\<lparr>pending_start := False\<rparr>)) else Some s)
      (\<lambda>s. Some (if \<not> stream_started s then s
        else send env (AudioChunk d ts dur (PLAYER_AUDIO_HEADER_SIZE + n)) s\<lparr>sent_end_us := Some (ts + dur)\<rparr>))"
    using False by (simp only: on_audio_chunk_def if_False)
  show ?thesis
    unfolding chunk by (rule succeeds_bind [OF start]) (simp add: sent)
qed

lemma live_started: "live c h s \<Longrightarrow> stream_started s \<Longrightarrow> last_sent s \<noteq> None"
  by (simp add: live_def player_ok_def wire_ok_def)

lemma live_clear: "live c h s \<Longrightarrow> live c h (on_stream_clear env s)"
  by (simp add: on_stream_clear_def Let_def live_send live_started)

lemma wire_ok_end:
  assumes "live c h s" "stream_started s" "e_conn env"
  shows "live c h (send env StreamEnd s\<lparr>stream_started := False, pending_start := False, last_sent := None\<rparr>)"
  using assms
  by (intro live_wire [OF assms(1)])
     (auto simp: send_def live_def player_ok_def wire_ok_def wire_run_append)

lemma live_end: "live c h s \<Longrightarrow> live c h (on_stream_end env s)"
  by (auto simp: on_stream_end_def Let_def wire_ok_end intro: live_idle)

lemma live_deactivate: "live c h s \<Longrightarrow> live c h (on_deactivate env s)"
  by (simp add: on_deactivate_def live_end)

lemma live_commands:
  "live c h s \<Longrightarrow> live c h (set_volume env v s)" "live c h s \<Longrightarrow> live c h (set_mute env m s)"
  "live c h s \<Longrightarrow> live c h (set_delay env d s)"
  by (simp_all add: set_volume_def set_mute_def set_delay_def live_send)

lemma effective:
  assumes "live c h s"
  shows "succeeds (\<lambda>(x, s'). x = map_option format_of (reqs s') \<and> stream_part s' = stream_part s \<and> live c h s')
    (effective_format env s)"
  unfolding effective_format_def by (rule succeeds_bind [OF get_reqs [OF assms]]) auto

lemma live_apply_preferred:
  assumes "live c h s" "agrees c h env"
  shows "succeeds (live c h) (apply_preferred_format env s)"
proof -
  have transition: "succeeds (live c h) (Option.bind (effective_format env s2)
      (\<lambda>(after, s). Some (if after \<noteq> before then begin_format_transition s else s)))"
    if "live c h s2" for s2 before
    by (rule succeeds_bind [OF effective [OF that]]) (auto simp: begin_format_transition_def)
  show ?thesis
    unfolding apply_preferred_format_def
  proof (rule succeeds_bind [OF effective [OF assms(1)]], clarify)
    fix s1
    assume s1: "live c h s1"
    show "succeeds (live c h)
      (Option.bind (ensure_audio_requirements env True (ensure_preferred_format env s1)) (\<lambda>s.
        if \<not> joining env \<and> e_active_stream env
        then Option.bind (effective_format env s)
          (\<lambda>(after, s). Some (if after \<noteq> map_option format_of (reqs s1) then begin_format_transition s else s))
        else Some s))"
      by (rule succeeds_bind [OF live_chosen [OF s1 assms(2)]]) (simp add: transition)
  qed
qed

lemma live_set_client_format:
  "live c h s \<Longrightarrow> agrees c h env \<Longrightarrow> succeeds (live c h) (set_client_format env f s)"
  by (simp add: set_client_format_def live_apply_preferred)

lemma live_state_format:
  "live c h s \<Longrightarrow> agrees c h env \<Longrightarrow> succeeds (live c h) (apply_state_format env p s)"
  by (simp add: apply_state_format_def live_set_client_format Let_def split: option.split)

lemma live_state_timing: "live c h s \<Longrightarrow> live c h (apply_state_timing env p s)"
  by (simp add: apply_state_timing_def apply_output_delay_def apply_lead_time_def apply_min_buffer_def
      Let_def split: option.split)

lemma live_state_volume: "live c h s \<Longrightarrow> live c h (apply_state_volume env p s)"
  by (simp add: apply_state_volume_def store_state_volume_def Let_def split: option.split)

lemma live_client_state:
  "live c h s \<Longrightarrow> agrees c h env \<Longrightarrow> succeeds (live c h) (on_client_state env p s)"
  by (simp add: on_client_state_def Let_def live_state_format live_state_timing live_state_volume
      split: option.split)

lemma live_initial_state:
  "live c h s \<Longrightarrow> agrees c h env \<Longrightarrow> succeeds (live c h) (on_initial_client_state env p s)"
  by (simp add: on_initial_client_state_def live_state_format live_state_timing split: option.split)

text \<open>Preferences given from outside may be refused with an exception.\<close>

lemma live_store_override:
  assumes "live c h s" "agrees c h env" "store_override env a k s = Some (b, s')"
  shows "live c h s'"
  using assms live_apply_preferred [of c h "upd (\<lambda>st. st\<lparr>override := Some (a, k)\<rparr>) s" env]
  by (auto simp: store_override_def succeeds_def Option.bind_eq_Some_conv split: option.splits if_splits)

lemma live_set_preferred:
  assumes "live c h s" "agrees c h env" "set_preferred_format env a k s = Some (b, s')"
  shows "live c h s'"
  using assms live_apply_preferred [of c h "upd (\<lambda>st. st\<lparr>override := None\<rparr>) s" env]
  by (auto simp: set_preferred_format_def succeeds_def Option.bind_eq_Some_conv
      split: option.splits intro: live_store_override)

lemma live_request_format:
  assumes "live c h s" "agrees c h env" "on_stream_request_format env q s = Some s'"
  shows "live c h s'"
proof -
  have "live c h s''" if "set_client_format env f (s1\<lparr>client_format_legacy := True\<rparr>) = Some s''" "live c h s1"
    for f s1 s''
    using live_set_client_format [of c h "s1\<lparr>client_format_legacy := True\<rparr>" env f] that assms(2)
    by (simp add: succeeds_def)
  then show ?thesis
    using assms
    by (auto simp: on_stream_request_format_def Let_def Option.bind_eq_Some_conv
        split: option.splits if_splits list.splits)
qed

lemma live_read: "live c h s \<Longrightarrow> succeeds (live c h) (map_option snd (get_audio_requirements env s))"
  using get_reqs [of c h s env] by (auto simp: succeeds_def)

definition may_raise :: "player_op \<Rightarrow> bool" where
  "may_raise oper \<longleftrightarrow> (case oper of SetPreferred a k \<Rightarrow> True | RequestFormat q \<Rightarrow> True | _ \<Rightarrow> False)"

lemma step_succeeds:
  assumes "live c h s" "agrees c h env" "\<not> may_raise oper"
  shows "succeeds (live c h) (player_op_on env oper s)"
  using assms
  by (cases oper)
     (simp_all add: may_raise_def live_connect live_disconnect live_maybe_reset live_group_changed
       live_stream_start live_chunk live_clear live_end live_deactivate live_commands live_client_state
       live_initial_state live_read on_availability_changed_def)

subsection \<open>Runs\<close>

lemma live_new: "live c h (new_player st)"
  by (simp add: live_def player_ok_def pref_ok_def reqs_ok_def wire_ok_def new_player_def)

lemma live_enter: "live c h s \<Longrightarrow> pool_ok p \<Longrightarrow> live c h (s\<lparr>group_pool := p\<rparr>)"
  by (auto simp: live_def player_ok_def pref_ok_def reqs_ok_def wire_ok_def)

lemma live_step:
  assumes "live c h s" "agrees c h env" "pool_ok (e_pool env)" "player_step env oper s = Some s'"
  shows "live c h s'"
proof -
  have live: "live c h (s\<lparr>group_pool := e_pool env\<rparr>)"
    using assms(1,3) by (rule live_enter)
  show ?thesis
  proof (cases "may_raise oper")
    case False
    then show ?thesis
      using step_succeeds [OF live assms(2) False] assms(4) by (simp add: player_step_def succeeds_def)
  next
    case True
    then show ?thesis
      using assms(2,4) live
      by (cases oper) (auto simp: may_raise_def player_step_def intro: live_set_preferred live_request_format)
  qed
qed

lemma live_run: "player_run c h (new_player st) s \<Longrightarrow> live c h s"
  by (induction rule: player_run.induct) (auto intro: live_new live_step simp: agrees_def)

text \<open>C31. However a player role is driven, what it sends follows the stream protocol: a chunk, a clear
  or an end only inside a stream, and \<open>stream/start\<close> for another stream only as a change of format.\<close>

theorem player_stream_protocol:
  assumes "player_run c h (new_player st) s"
  shows "wire_run (wire s) None \<noteq> None"
  using live_run [OF assms] by (auto simp: live_def player_ok_def wire_ok_def)

text \<open>C38. In every state a player role reaches, none of its operations raises, except the two
  that construct a format from the caller's values, which \<open>SupportedAudioFormat\<close> validates.\<close>

theorem player_never_raises:
  assumes "player_run c h (new_player st) s" "pool_ok (e_pool env)" "e_codecs env = c" "e_support env = h"
    "\<not> may_raise oper"
  shows "player_step env oper s \<noteq> None"
  using step_succeeds [OF live_enter [OF live_run [OF assms(1)] assms(2)], of env oper] assms(3-)
  by (auto simp: agrees_def player_step_def succeeds_def)

text \<open>C32. Every \<open>stream/start\<close> a player role sends announces a format its client declared in the hello
  and the server can encode, with the bit depth the encoder works at.\<close>

theorem announced_formats_served:
  assumes "player_run c h (new_player st) s" "StreamStart (k, rate, channels, depth, header) \<in> set (wire s)"
  shows "\<exists>hello f. h = Some hello \<and> f \<in> set (supported_formats hello) \<and> can_encode_format c f \<and>
    k = sf_codec f \<and> rate = sf_rate f \<and> channels = sf_channels f \<and> depth = encode_depth k (sf_depth f)"
proof -
  have "stream_served c h (k, rate, channels, depth, header)"
    using live_run [OF assms(1)] assms(2) by (simp add: live_def player_ok_def wire_ok_def)
  then show ?thesis by (auto simp: stream_served_def served_def)
qed

subsection \<open>The format in force\<close>

text \<open>The push stream delivers a chunk through \<open>_ensure_role_started\<close> (\<open>server/push_stream.py\<close>) and
  forgets the roles it started when it is cleared, stopped or a role rejoins. The first component is
  whether the role is among them.\<close>

datatype driver_op = Deliver bytes int int int | EnsureStarted | ForgetStarted | ClearStream | Hook player_op

definition ensure_role_started :: "player_env \<Rightarrow> bool \<times> player \<Rightarrow> (bool \<times> player) option" where
  "ensure_role_started env bs =
     (if fst bs then Some bs else do { s \<leftarrow> on_stream_start env (snd bs); Some (True, s) })"

definition deliver_chunk ::
  "player_env \<Rightarrow> bytes \<Rightarrow> int \<Rightarrow> int \<Rightarrow> int \<Rightarrow> bool \<times> player \<Rightarrow> (bool \<times> player) option" where
  "deliver_chunk env data ts dur bytes bs =
     do { bs \<leftarrow> ensure_role_started env bs;
          s \<leftarrow> on_audio_chunk env data ts dur bytes (snd bs);
          Some (fst bs, s) }"

fun driven_on :: "player_env \<Rightarrow> driver_op \<Rightarrow> bool \<times> player \<Rightarrow> (bool \<times> player) option" where
  "driven_on env (Deliver d ts dur n) bs = deliver_chunk env d ts dur n bs"
| "driven_on env EnsureStarted bs = ensure_role_started env bs"
| "driven_on env ForgetStarted bs = Some (False, snd bs)"
| "driven_on env ClearStream bs = Some (False, on_stream_clear env (snd bs))"
| "driven_on env (Hook oper) bs = map_option (\<lambda>s. (fst bs, s)) (player_op_on env oper (snd bs))"

text \<open>What the rest of the server guarantees at each step: the stream hooks are called by the driver
  alone, a role whose stream is started has a connection when audio is delivered, and has joined an
  active stream of its group when its format preference changes.\<close>

definition driver_hook :: "player_op \<Rightarrow> bool" where
  "driver_hook oper \<longleftrightarrow> (case oper of StreamStartHook \<Rightarrow> True | ChunkHook d ts dur n \<Rightarrow> True | ClearHook \<Rightarrow> True
     | _ \<Rightarrow> False)"

definition changes_preference :: "player_op \<Rightarrow> bool" where
  "changes_preference oper \<longleftrightarrow> (case oper of SetPreferred a k \<Rightarrow> True | ClientState p \<Rightarrow> True
     | InitialState p \<Rightarrow> True | RequestFormat q \<Rightarrow> True | _ \<Rightarrow> False)"

definition coherent :: "player_env \<Rightarrow> driver_op \<Rightarrow> player \<Rightarrow> bool" where
  "coherent env oper s \<longleftrightarrow> (case oper of
      Hook x \<Rightarrow> \<not> driver_hook x \<and>
        (changes_preference x \<and> stream_started s \<longrightarrow> \<not> joining env \<and> e_active_stream env)
    | _ \<Rightarrow> stream_started s \<longrightarrow> e_conn env)"

definition driven_step :: "player_env \<Rightarrow> driver_op \<Rightarrow> bool \<times> player \<Rightarrow> (bool \<times> player) option" where
  "driven_step env oper bs = driven_on env oper (fst bs, (snd bs)\<lparr>group_pool := e_pool env\<rparr>)"

inductive driven_run ::
  "codec_env \<Rightarrow> player_support option \<Rightarrow> bool \<times> player \<Rightarrow> bool \<times> player \<Rightarrow> bool"
  for c h bs where
  start: "driven_run c h bs bs"
| step: "\<lbrakk>driven_run c h bs bs'; pool_ok (e_pool env); e_codecs env = c; e_support env = h;
    coherent env oper (snd bs'); driven_step env oper bs' = Some bs''\<rbrakk> \<Longrightarrow> driven_run c h bs bs''"

text \<open>The format the requirements ask for is the one announced, unless it is about to be.\<close>

fun fits :: "audio_codec \<times> audio_format \<Rightarrow> stream_format \<Rightarrow> bool" where
  "fits (k, a) (k', rate, channels, depth, header) \<longleftrightarrow>
     k' = k \<and> rate = af_rate a \<and> channels = af_channels a \<and> depth = af_depth a"

definition in_force :: "bool \<Rightarrow> player \<Rightarrow> bool" where
  "in_force b s \<longleftrightarrow> (stream_started s \<longrightarrow> (\<exists>r. reqs s = Some r \<and>
     (b \<and> \<not> pending_start s \<longrightarrow> (\<exists>x. last_sent s = Some x \<and> fits (format_of r) x))))"

lemma fits_current: "fits (format_of r) (current_format env r)"
  by (simp add: format_of_def current_format_def audio_format_of_def)

lemma in_force_idle [simp]: "\<not> stream_started s \<Longrightarrow> in_force b s"
  by (simp add: in_force_def)

lemma in_force_cong:
  assumes "in_force b s" "stream_started s' = stream_started s" "reqs s' = reqs s"
    "pending_start s' = pending_start s" "last_sent s' = last_sent s"
  shows "in_force b s'"
  using assms by (simp add: in_force_def)

lemma in_force_pending: "in_force b s \<Longrightarrow> pending_start s' \<or> \<not> b' \<Longrightarrow>
  stream_started s' = stream_started s \<Longrightarrow> reqs s' = reqs s \<Longrightarrow> in_force b' s'"
  by (auto simp: in_force_def)

text \<open>Refreshing the requirements for another channel keeps the format.\<close>

lemma in_force_refresh:
  assumes "in_force b s" "live c h s" "live c h s'" "stream_part s' = stream_part s"
    "reqs s \<noteq> None \<Longrightarrow> reqs s' \<noteq> None"
  shows "in_force b s'"
proof (cases "stream_started s")
  case True
  then obtain r where r: "reqs s = Some r"
    using assms(1) by (auto simp: in_force_def)
  then obtain r' where r': "reqs s' = Some r'" using assms(5) by auto
  have "format_of r' = format_of r"
    using reqs_format [OF _ _ assms(4) r r'] assms(2,3) by (simp add: live_def player_ok_def)
  then show ?thesis
    using assms(1,4) r r' by (simp add: in_force_def stream_part_def)
next
  case False
  then show ?thesis using assms(4) by (simp add: stream_part_def)
qed

lemma preferred_known:
  assumes "live c h s" "agrees c h env" "reqs s \<noteq> None"
  shows "pref_format s \<noteq> None" "pref_codec s \<noteq> None" "e_support env \<noteq> None"
  using assms by (auto simp: live_def player_ok_def reqs_ok_def pref_ok_def served_def agrees_def)

lemma ensure_force:
  assumes "in_force b s" "live c h s" "agrees c h env"
  shows "succeeds (\<lambda>s'. in_force b s' \<and> live c h s' \<and> stream_part s' = stream_part s \<and> (reqs s \<noteq> None \<longrightarrow> reqs s' \<noteq> None))
    (ensure_audio_requirements env f s)"
proof -
  obtain s' where s': "ensure_audio_requirements env f s = Some s'" "live c h s'" "stream_part s' = stream_part s"
    using ensure_live [OF assms(2), of env f] by (auto simp: succeeds_def)
  have "reqs s' \<noteq> None" if "reqs s \<noteq> None"
    using ensure_reqs_some [OF s'(1)] preferred_known [OF assms(2,3) that] by blast
  then show ?thesis
    using s' in_force_refresh [OF assms(1,2) s'(2,3)] by (simp add: succeeds_def)
qed

lemma get_force:
  assumes "in_force b s" "live c h s" "agrees c h env"
  shows "succeeds (\<lambda>(r, s'). r = reqs s' \<and> in_force b s' \<and> live c h s' \<and> stream_part s' = stream_part s \<and>
      (reqs s \<noteq> None \<longrightarrow> reqs s' \<noteq> None))
    (get_audio_requirements env s)"
proof (cases "reqs s")
  case None
  then show ?thesis using assms by (simp add: get_audio_requirements_def)
next
  case (Some r)
  then show ?thesis
    using assms by (auto simp: get_audio_requirements_def intro: succeeds_bind [OF ensure_force [OF assms]])
qed

lemma effective_force:
  assumes "in_force b s" "live c h s" "agrees c h env"
  shows "succeeds (\<lambda>(x, s'). x = map_option format_of (reqs s') \<and> in_force b s' \<and> live c h s' \<and>
      stream_part s' = stream_part s \<and> (reqs s \<noteq> None \<longrightarrow> reqs s' \<noteq> None))
    (effective_format env s)"
  unfolding effective_format_def by (rule succeeds_bind [OF get_force [OF assms]]) auto

lemma stream_start_force:
  assumes "in_force b s" "live c h s" "agrees c h env" "stream_started s \<longrightarrow> e_conn env"
  shows "succeeds (\<lambda>s'. in_force True s' \<and> live c h s') (on_stream_start env s)"
  unfolding on_stream_start_def
proof (rule succeeds_bind [OF get_force [OF assms(1-3)]], clarify)
  fix s1
  assume s1: "in_force b s1" "live c h s1" "stream_part s1 = stream_part s"
  have again: "succeeds (\<lambda>(r, s'). r = reqs s' \<and> in_force b s' \<and> live c h s' \<and> stream_part s' = stream_part s)
      (case reqs s1 of None \<Rightarrow> Option.bind (ensure_audio_requirements env False s1) (get_audio_requirements env)
       | Some _ \<Rightarrow> Some (reqs s1, s1))"
  proof (cases "reqs s1")
    case None
    have "succeeds (\<lambda>(r, s'). r = reqs s' \<and> in_force b s' \<and> live c h s' \<and> stream_part s' = stream_part s)
        (get_audio_requirements env s2)" if "in_force b s2" "live c h s2" "stream_part s2 = stream_part s" for s2
      using get_force [OF that(1,2) assms(3)] that(3) by (elim succeeds_mono) auto
    note read = this
    show ?thesis
      unfolding None option.case
      by (rule succeeds_bind [OF ensure_force [OF s1(1,2) assms(3)]], rule read) (simp_all add: s1)
  qed (use s1 in simp)
  have pend: "in_force True (reset_binary_timing s2\<lparr>pending_start := True\<rparr>)" if "in_force b s2" for s2
    using that by (rule in_force_pending) simp_all
  show "succeeds (\<lambda>s'. in_force True s' \<and> live c h s')
      (Option.bind (case reqs s1 of None \<Rightarrow> Option.bind (ensure_audio_requirements env False s1) (get_audio_requirements env)
          | Some _ \<Rightarrow> Some (reqs s1, s1))
        (\<lambda>(r, s). Some (if r = None then s else if \<not> e_conn env then s else reset_binary_timing s\<lparr>pending_start := True\<rparr>)))"
    using assms(4) by (auto intro!: succeeds_bind [OF again] simp: pend stream_part_def in_force_def)
qed

lemma send_start_force:
  assumes "in_force b s" "live c h s" "agrees c h env" "stream_started s \<longrightarrow> e_conn env"
  shows "succeeds (\<lambda>s'. in_force True (s'\<lparr>pending_start := False\<rparr>) \<and> live c h s' \<and>
      (stream_started s' \<longrightarrow> e_conn env) \<and> (wire s' = wire s \<or> stream_started s'))
    (send_stream_start env s)"
  unfolding send_stream_start_def
proof (rule succeeds_bind [OF get_force [OF assms(1-3)]], clarify)
  fix s1
  assume s1: "in_force b s1" "live c h s1" "stream_part s1 = stream_part s"
  have fit: "in_force True (s2\<lparr>pending_start := False\<rparr>)"
    if "reqs s2 = Some r" "last_sent s2 = Some (current_format env r)" for s2 r
    using that fits_current by (simp add: in_force_def)
  show "succeeds (\<lambda>s'. in_force True (s'\<lparr>pending_start := False\<rparr>) \<and> live c h s' \<and>
      (stream_started s' \<longrightarrow> e_conn env) \<and> (wire s' = wire s \<or> stream_started s'))
     (Some (case reqs s1 of None \<Rightarrow> s1
       | Some r \<Rightarrow> if \<not> e_conn env then s1
           else if stream_started s1 \<and> last_sent s1 = Some (current_format env r) then s1
           else send env (StreamStart (current_format env r)) s1
             \<lparr>stream_started := True, last_sent := Some (current_format env r)\<rparr>))"
    using s1 assms(4) live_announce [OF s1(2)]
    by (auto simp: fit send_def split: option.split) (auto simp: in_force_def stream_part_def)
qed

lemma chunk_force:
  assumes "in_force True s" "live c h s" "agrees c h env" "stream_started s \<longrightarrow> e_conn env"
  shows "succeeds (\<lambda>s'. in_force True s' \<and> live c h s' \<and>
      (wire s' = wire s \<or> stream_started s' \<and> \<not> pending_start s' \<and>
         (\<exists>pre. wire s' = pre @ [AudioChunk d ts dur (PLAYER_AUDIO_HEADER_SIZE + n)])))
    (on_audio_chunk env d ts dur n s)"
proof (cases "pending_start s \<and> \<not> e_available env \<and> \<not> (e_conn env \<and> e_leaves_external env)")
  case True
  then show ?thesis using assms by (simp add: on_audio_chunk_def)
next
  case False
  have start: "succeeds (\<lambda>s'. (in_force True s' \<and> live c h s' \<and> \<not> pending_start s') \<and>
        (stream_started s' \<longrightarrow> e_conn env) \<and> (wire s' = wire s \<or> stream_started s'))
      (if pending_start s then Option.bind (send_stream_start env s) (\<lambda>s. Some (s\<lparr>pending_start := False\<rparr>)) else Some s)"
    using assms by (auto intro!: succeeds_bind [OF send_start_force [OF assms]])
  have sent: "in_force True (send env m s1\<lparr>sent_end_us := e\<rparr>)" if "in_force True s1" for m s1 e
    using that by (rule in_force_cong) (simp_all add: send_def)
  have chunk: "on_audio_chunk env d ts dur n s = Option.bind
      (if pending_start s then Option.bind (send_stream_start env s) (\<lambda>s. Some (s\<lparr>pending_start := False\<rparr>)) else Some s)
      (\<lambda>s. Some (if \<not> stream_started s then s
        else send env (AudioChunk d ts dur (PLAYER_AUDIO_HEADER_SIZE + n)) s\<lparr>sent_end_us := Some (ts + dur)\<rparr>))"
    using False by (simp only: on_audio_chunk_def if_False)
  show ?thesis
    unfolding chunk
  proof (rule succeeds_bind [OF start], unfold succeeds_simps)
    fix s1
    assume s1: "(in_force True s1 \<and> live c h s1 \<and> \<not> pending_start s1) \<and>
        (stream_started s1 \<longrightarrow> e_conn env) \<and> (wire s1 = wire s \<or> stream_started s1)"
    let ?s2 = "if \<not> stream_started s1 then s1
        else send env (AudioChunk d ts dur (PLAYER_AUDIO_HEADER_SIZE + n)) s1\<lparr>sent_end_us := Some (ts + dur)\<rparr>"
    have "live c h ?s2" using s1 live_send live_started [of c h s1] by simp
    moreover have "in_force True ?s2" using s1 sent by simp
    moreover have "wire ?s2 = wire s \<or> stream_started ?s2 \<and> \<not> pending_start ?s2 \<and>
         (\<exists>pre. wire ?s2 = pre @ [AudioChunk d ts dur (PLAYER_AUDIO_HEADER_SIZE + n)])"
      using s1 by (auto simp: send_def)
    ultimately show "in_force True ?s2 \<and> live c h ?s2 \<and> (wire ?s2 = wire s \<or> stream_started ?s2 \<and> \<not> pending_start ?s2 \<and>
         (\<exists>pre. wire ?s2 = pre @ [AudioChunk d ts dur (PLAYER_AUDIO_HEADER_SIZE + n)]))" by blast
  qed
qed

lemma preferred_kept:
  assumes "live c h s" "agrees c h env" "reqs s \<noteq> None" "ensure_audio_requirements env True (ensure_preferred_format env s) = Some s'"
  shows "reqs s' \<noteq> None"
proof -
  obtain f hello where f: "served c h f" "h = Some hello" "f \<in> set (supported_formats hello)"
    using assms(1,3) by (auto simp: live_def player_ok_def reqs_ok_def pref_ok_def served_def)
  then have "filter_encodable_formats c (supported_formats hello) \<noteq> []"
    by (auto simp: served_def filter_encodable_formats_def filter_empty_conv)
  then have "pref_format (ensure_preferred_format env s) \<noteq> None" "pref_codec (ensure_preferred_format env s) \<noteq> None"
    using f(2) assms(2)
    by (simp_all add: ensure_preferred_format_def agrees_def Let_def split: prod.split)
  then show ?thesis
    using ensure_reqs_some [OF assms(4)] f(2) assms(2) by (simp add: agrees_def)
qed

lemma preferred_stream:
  "stream_started (ensure_preferred_format env s) = stream_started s"
  "last_sent (ensure_preferred_format env s) = last_sent s"
  "pending_start (ensure_preferred_format env s) = pending_start s"
  by (simp_all add: ensure_preferred_format_def Let_def split: option.split prod.split)

lemma apply_preferred_force:
  assumes "in_force b s" "live c h s" "agrees c h env"
    "stream_started s \<longrightarrow> \<not> joining env \<and> e_active_stream env"
  shows "succeeds (in_force b) (apply_preferred_format env s)"
  unfolding apply_preferred_format_def
proof (rule succeeds_bind [OF effective_force [OF assms(1-3)]], clarify)
  fix s1
  assume s1: "in_force b s1" "live c h s1" "stream_part s1 = stream_part s"
  obtain s2 where s2: "ensure_audio_requirements env True (ensure_preferred_format env s1) = Some s2"
      "live c h s2" "stream_part s2 = stream_part (ensure_preferred_format env s1)"
    using live_chosen [OF s1(2) assms(3)] by (auto simp: succeeds_def)
  then have kept: "reqs s1 \<noteq> None \<Longrightarrow> reqs s2 \<noteq> None"
    using preferred_kept [OF s1(2) assms(3)] by blast
  have same: "stream_started s2 = stream_started s1" "last_sent s2 = last_sent s1"
      "pending_start s2 = pending_start s1"
    using s2(3) by (simp_all add: stream_part_def preferred_stream)
  obtain s3 where s3: "effective_format env s2 = Some (map_option format_of (reqs s3), s3)"
      "stream_part s3 = stream_part s2"
    using effective [OF s2(2), of env] by (auto simp: succeeds_def)
  have kept3: "reqs s2 \<noteq> None \<Longrightarrow> reqs s3 \<noteq> None"
  proof -
    assume r: "reqs s2 \<noteq> None"
    obtain s3' where "effective_format env s2 = Some (map_option format_of (reqs s3'), s3')" "reqs s3' \<noteq> None"
      using effective_force [OF _ s2(2) assms(3), of False] r same s1(1) kept
      by (auto simp: succeeds_def in_force_def)
    then show ?thesis using s3(1) by simp
  qed
  show "succeeds (in_force b)
      (Option.bind (ensure_audio_requirements env True (ensure_preferred_format env s1)) (\<lambda>s.
        if \<not> joining env \<and> e_active_stream env
        then Option.bind (effective_format env s)
          (\<lambda>(after, s). Some (if after \<noteq> map_option format_of (reqs s1) then begin_format_transition s else s))
        else Some s))"
  proof (cases "stream_started s1")
    case False
    then have "in_force b s2" "in_force b s3" "in_force b (begin_format_transition s3)"
      using same s3(2) by (simp_all add: stream_part_def begin_format_transition_def)
    then show ?thesis using s2(1) s3(1) by simp
  next
    case True
    then obtain r1 where r1: "reqs s1 = Some r1" "b \<and> \<not> pending_start s1 \<longrightarrow> (\<exists>x. last_sent s1 = Some x \<and> fits (format_of r1) x)"
      using s1(1) by (auto simp: in_force_def)
    then obtain r3 where r3: "reqs s3 = Some r3" using kept kept3 by auto
    have stays: "in_force b s3" if "map_option format_of (reqs s3) = map_option format_of (reqs s1)"
      using that r1 r3 same s3(2) by (simp add: in_force_def stream_part_def)
    have moves: "in_force b (begin_format_transition s3)"
      using r3 by (simp add: in_force_def begin_format_transition_def)
    have "stream_started s" using True s1(3) by (simp add: stream_part_def)
    then show ?thesis using assms(4) s2(1) s3(1) stays moves by simp
  qed
qed

definition joined :: "player_env \<Rightarrow> player \<Rightarrow> bool" where
  "joined env s \<longleftrightarrow> (stream_started s \<longrightarrow> \<not> joining env \<and> e_active_stream env)"

lemma in_force_fields [simp]:
  "in_force b (s\<lparr>client_format := f\<rparr>) = in_force b s" "in_force b (s\<lparr>client_format_legacy := l\<rparr>) = in_force b s"
  "in_force b (upd g s) = in_force b s" "in_force b (eff x s) = in_force b s"
  "in_force b (reset_tracker s) = in_force b s" "in_force b (s\<lparr>group_pool := p\<rparr>) = in_force b s"
  "in_force b (reset_binary_timing s) = in_force b s" "in_force b (send env m s) = in_force b s"
  "in_force b (apply_state_timing env p1 s) = in_force b s"
  "in_force b (apply_state_volume env p1 s) = in_force b s"
  by (simp_all add: in_force_def send_def apply_state_timing_def apply_output_delay_def apply_lead_time_def
      apply_min_buffer_def apply_state_volume_def store_state_volume_def Let_def split: option.split)

lemma joined_fields [simp]:
  "joined env (s\<lparr>client_format := f\<rparr>) = joined env s" "joined env (s\<lparr>client_format_legacy := l\<rparr>) = joined env s"
  "joined env (upd g s) = joined env s" "joined env (eff x s) = joined env s"
  "joined env (apply_state_timing env p1 s) = joined env s"
  "joined env (apply_state_volume env p1 s) = joined env s"
  by (simp_all add: joined_def apply_state_timing_def apply_output_delay_def apply_lead_time_def
      apply_min_buffer_def apply_state_volume_def store_state_volume_def Let_def split: option.split)

lemma set_client_force:
  "in_force b s \<Longrightarrow> live c h s \<Longrightarrow> agrees c h env \<Longrightarrow> joined env s \<Longrightarrow>
   succeeds (in_force b) (set_client_format env f s)"
  using apply_preferred_force [of b "s\<lparr>client_format := f\<rparr>" c h env]
  by (simp add: set_client_format_def joined_def)

lemma state_format_force:
  "in_force b s \<Longrightarrow> live c h s \<Longrightarrow> agrees c h env \<Longrightarrow> joined env s \<Longrightarrow>
   succeeds (in_force b) (apply_state_format env p s)"
  by (simp add: apply_state_format_def Let_def set_client_force split: option.split)

lemma store_override_force:
  assumes "in_force b s" "live c h s" "agrees c h env" "joined env s" "store_override env a k s = Some (r, s')"
  shows "in_force b s'"
  using assms apply_preferred_force [of b "upd (\<lambda>st. st\<lparr>override := Some (a, k)\<rparr>) s" c h env]
  by (auto simp: store_override_def succeeds_def joined_def Option.bind_eq_Some_conv split: option.splits if_splits)

lemma set_preferred_force:
  assumes "in_force b s" "live c h s" "agrees c h env" "joined env s" "set_preferred_format env a k s = Some (r, s')"
  shows "in_force b s'"
  using assms apply_preferred_force [of b "upd (\<lambda>st. st\<lparr>override := None\<rparr>) s" c h env]
  by (auto simp: set_preferred_format_def succeeds_def joined_def Option.bind_eq_Some_conv
      split: option.splits intro: store_override_force)

lemma request_format_force:
  assumes "in_force b s" "live c h s" "agrees c h env" "joined env s" "on_stream_request_format env q s = Some s'"
  shows "in_force b s'"
proof -
  have "in_force b s''" if "set_client_format env f (s1\<lparr>client_format_legacy := True\<rparr>) = Some s''"
      "in_force b s1" "live c h s1" "joined env s1" for f s1 s''
    using set_client_force [of b "s1\<lparr>client_format_legacy := True\<rparr>" c h env f] that assms(3)
    by (simp add: succeeds_def)
  then show ?thesis
    using assms
    by (auto simp: on_stream_request_format_def Let_def Option.bind_eq_Some_conv
        split: option.splits if_splits list.splits)
qed

lemma client_state_force:
  assumes "in_force b s" "live c h s" "agrees c h env" "joined env s"
  shows "on_client_state env p s = Some s' \<Longrightarrow> in_force b s'"
    "on_initial_client_state env p s = Some s' \<Longrightarrow> in_force b s'"
proof -
  have format: "in_force b s''" if "apply_state_format env q s1 = Some s''" "in_force b s1" "live c h s1" "joined env s1"
    for q s1 s''
    using state_format_force [OF that(2,3) assms(3) that(4), of q] that(1) by (simp add: succeeds_def)
  show "on_client_state env p s = Some s' \<Longrightarrow> in_force b s'"
    "on_initial_client_state env p s = Some s' \<Longrightarrow> in_force b s'"
    using assms
    by (auto simp: on_client_state_def on_initial_client_state_def Let_def live_state_timing live_state_volume
        split: option.splits if_splits elim!: format)
qed

lemma connect_idle:
  assumes "on_connect env s = Some s'" "live c h s" "agrees c h env"
  shows "\<not> stream_started s'"
proof -
  let ?s1 = "reset_tracker (ensure_buffer_tracker env (upd (\<lambda>st. st\<lparr>reset_handle := None, disconnect_time_us := None\<rparr>)
     (eff Subscribe (upd (\<lambda>st. st\<lparr>commands := []\<rparr>) s)\<lparr>stream_started := False, last_sent := None, sent_end_us := None,
        client_format := None, client_format_legacy := False\<rparr>)))"
  have "live c h ?s1" by (rule live_idle [OF assms(2)]) simp_all
  from live_chosen [OF this assms(3)] show ?thesis
    using assms(1) by (simp add: on_connect_def Let_def succeeds_def stream_part_def preferred_stream)
qed

lemma group_changed_idle:
  assumes "on_group_changed env s = Some s'" "live c h s"
  shows "\<not> stream_started s'"
proof -
  let ?s1 = "reset_binary_timing ((reset_tracker (ensure_buffer_tracker env
      (if e_conn env then eff Subscribe (eff Unsubscribe s) else eff Unsubscribe s)))
     \<lparr>stream_started := False, pending_start := False, last_sent := None, sent_end_us := None\<rparr>)"
  have "live c h ?s1" by (rule live_idle [OF assms(2)]) simp_all
  from ensure_live [OF this, of env True] show ?thesis
    using assms(1) by (auto simp: on_group_changed_def Let_def succeeds_def stream_part_def)
qed

lemma quiet_hooks_force:
  assumes "in_force b s"
  shows "in_force b (on_disconnect env s)" "in_force b (maybe_reset env s)" "in_force b (on_stream_end env s)"
    "in_force b (on_deactivate env s)" "in_force b (on_availability_changed old new s)"
    "in_force b (set_volume env v s)" "in_force b (set_mute env m s)" "in_force b (set_delay env d s)"
  using assms
  by (simp_all add: on_disconnect_def maybe_reset_def on_stream_end_def on_deactivate_def on_availability_changed_def
      set_volume_def set_mute_def set_delay_def Let_def split: option.split)

lemma hook_force:
  assumes "in_force b s" "live c h s" "agrees c h env" "coherent env (Hook oper) s"
    "player_op_on env oper s = Some s'"
  shows "in_force b s'"
proof (cases "changes_preference oper")
  case True
  then have "joined env s" using assms(4) by (simp add: coherent_def joined_def)
  then show ?thesis
    using True assms(5) client_state_force [OF assms(1-3)] set_preferred_force [OF assms(1-3)]
      request_format_force [OF assms(1-3)]
    by (cases oper) (auto simp: changes_preference_def)
next
  case False
  have "live c h (s\<lparr>wire := [], stream_started := False, last_sent := None\<rparr>)"
    by (rule live_idle [OF assms(2)]) simp_all
  moreover have "on_connect env (s\<lparr>wire := []\<rparr>) = on_connect env (s\<lparr>wire := [], stream_started := False, last_sent := None\<rparr>)"
    by (simp add: on_connect_def Let_def eff_def upd_def)
  ultimately have connect: "in_force b s'" if "on_connect env (s\<lparr>wire := []\<rparr>) = Some s'"
    using connect_idle assms(3) that by (metis in_force_idle)
  show ?thesis
    using False assms(4,5) quiet_hooks_force [OF assms(1)] connect group_changed_idle [OF _ assms(2)]
      get_force [OF assms(1-3)]
    by (cases oper) (auto simp: changes_preference_def coherent_def driver_hook_def succeeds_def)
qed

lemma ensure_started_force:
  assumes "in_force (fst bs) (snd bs)" "live c h (snd bs)" "agrees c h env" "stream_started (snd bs) \<longrightarrow> e_conn env"
    "ensure_role_started env bs = Some bs'"
  shows "fst bs' \<and> in_force True (snd bs') \<and> live c h (snd bs')"
  using assms stream_start_force [OF assms(1-4)]
  by (auto simp: ensure_role_started_def succeeds_def Option.bind_eq_Some_conv split: if_splits)

lemma stream_start_part:
  assumes "on_stream_start env s = Some s'" "live c h s" "agrees c h env" "stream_started s \<longrightarrow> e_conn env"
  shows "wire s' = wire s \<and> stream_started s' = stream_started s"
proof -
  have part: "succeeds (\<lambda>s'. wire s' = wire s \<and> stream_started s' = stream_started s) (on_stream_start env s)"
    unfolding on_stream_start_def
  proof (rule succeeds_bind [OF get_reqs [OF assms(2)]], clarify)
    fix s1
    assume s1: "stream_part s1 = stream_part s" "live c h s1"
    have read: "succeeds (\<lambda>(r, s'). stream_part s' = stream_part s) (get_audio_requirements env s2)"
      if "stream_part s2 = stream_part s" "live c h s2" for s2
      using get_reqs [OF that(2), of env] that(1) by (auto simp: succeeds_def)
    have again: "succeeds (\<lambda>(r, s'). stream_part s' = stream_part s)
        (case reqs s1 of None \<Rightarrow> Option.bind (ensure_audio_requirements env False s1) (get_audio_requirements env)
         | Some _ \<Rightarrow> Some (reqs s1, s1))"
    proof (cases "reqs s1")
      case None
      show ?thesis
        unfolding None option.case
        by (rule succeeds_bind [OF ensure_live [OF s1(2)]], rule read) (simp_all add: s1)
    qed (use s1 in simp)
    show "succeeds (\<lambda>s'. wire s' = wire s \<and> stream_started s' = stream_started s)
      (Option.bind (case reqs s1 of None \<Rightarrow> Option.bind (ensure_audio_requirements env False s1) (get_audio_requirements env)
          | Some _ \<Rightarrow> Some (reqs s1, s1))
        (\<lambda>(r, s). Some (if r = None then s else if \<not> e_conn env then s else reset_binary_timing s\<lparr>pending_start := True\<rparr>)))"
      by (auto intro!: succeeds_bind [OF again] simp: stream_part_def)
  qed
  then show ?thesis using assms(1) by (simp add: succeeds_def)
qed

lemma deliver_force:
  assumes bs: "in_force (fst bs) (snd bs)" "live c h (snd bs)" "agrees c h env" "stream_started (snd bs) \<longrightarrow> e_conn env"
    and step: "deliver_chunk env d ts dur n bs = Some bs'"
  shows "fst bs' \<and> in_force True (snd bs') \<and> live c h (snd bs') \<and>
      (wire (snd bs') = wire (snd bs) \<or> stream_started (snd bs') \<and> \<not> pending_start (snd bs') \<and>
         (\<exists>pre. wire (snd bs') = pre @ [AudioChunk d ts dur (PLAYER_AUDIO_HEADER_SIZE + n)]))"
proof -
  obtain bs1 s2 where steps: "ensure_role_started env bs = Some bs1"
      "on_audio_chunk env d ts dur n (snd bs1) = Some s2" "bs' = (fst bs1, s2)"
    using step by (auto simp: deliver_chunk_def Option.bind_eq_Some_conv)
  have bs1: "fst bs1" "in_force True (snd bs1)" "live c h (snd bs1)"
    using ensure_started_force [OF bs steps(1)] by simp_all
  have same: "wire (snd bs1) = wire (snd bs)" "stream_started (snd bs1) = stream_started (snd bs)"
    using steps(1) stream_start_part [OF _ bs(2-4)]
    by (auto simp: ensure_role_started_def Option.bind_eq_Some_conv split: if_splits)
  show ?thesis
    using chunk_force [OF bs1(2,3) bs(3), of d ts dur n] steps bs(4) same bs1(1)
    by (auto simp: succeeds_def)
qed

lemma driven_force:
  assumes "in_force (fst bs) (snd bs)" "live c h (snd bs)" "agrees c h env" "coherent env oper (snd bs)"
    "driven_on env oper bs = Some bs'"
  shows "in_force (fst bs') (snd bs')"
proof (cases oper)
  case (Deliver d ts dur n)
  then show ?thesis
    using deliver_force [OF assms(1-3)] assms(4,5) by (auto simp: coherent_def)
next
  case EnsureStarted
  then show ?thesis
    using ensure_started_force [OF assms(1-3)] assms(4,5) by (auto simp: coherent_def)
next
  case ForgetStarted
  then show ?thesis
    using assms(1,5) by (auto intro: in_force_pending)
next
  case ClearStream
  have "in_force False (on_stream_clear env (snd bs))"
    using assms(1)
    by (rule in_force_pending) (simp_all add: on_stream_clear_def Let_def send_def)
  then show ?thesis using ClearStream assms(5) by auto
next
  case (Hook x)
  then show ?thesis
    using hook_force [OF assms(1-3)] assms(4,5) by auto
qed

lemma live_chunkD: "live c h s \<Longrightarrow> on_audio_chunk env d ts dur n s = Some s' \<Longrightarrow> live c h s'"
  using live_chunk [of c h s env d ts dur n] by (simp add: succeeds_def)

lemma driven_live:
  assumes "live c h (snd bs)" "agrees c h env" "pool_ok (e_pool env)" "driven_step env oper bs = Some bs'"
  shows "live c h (snd bs')"
proof -
  let ?s = "snd bs\<lparr>group_pool := e_pool env\<rparr>"
  have live: "live c h ?s" using assms(1,3) by (rule live_enter)
  have role: "live c h s'" if "player_op_on env x ?s = Some s'" for x s'
    using live_step [OF assms(1-3), of x s'] that by (simp add: player_step_def)
  show ?thesis
    using assms(4) role live_clear [OF live] live
      role [of StreamStartHook] live_stream_start [OF live, of env]
    by (cases oper)
       (auto simp: driven_step_def deliver_chunk_def ensure_role_started_def Option.bind_eq_Some_conv
         succeeds_def split: if_splits intro: live_chunkD)
qed

lemma driven_run_force:
  "driven_run c h (False, new_player st) bs \<Longrightarrow> in_force (fst bs) (snd bs) \<and> live c h (snd bs)"
proof (induction rule: driven_run.induct)
  case start
  show ?case by (simp add: live_new) (simp add: in_force_def new_player_def)
next
  case (step bs env oper bs')
  have env: "agrees c h env" using step.hyps by (simp add: agrees_def)
  have "in_force (fst bs') (snd bs')"
    using driven_force [of "(fst bs, snd bs\<lparr>group_pool := e_pool env\<rparr>)" c h env oper bs'] step env
    by (simp add: driven_step_def live_enter coherent_def split: driver_op.splits)
  then show ?case
    using driven_live [OF _ env] step by blast
qed

text \<open>C5. When the push stream delivers a chunk and the role sends it, the stream is open at that
  point and the format announced last is the one the chunk was requested in: codec, rate, channels
  and bit depth.\<close>

theorem audio_under_announced_format:
  assumes run: "driven_run c h (False, new_player st) bs"
    and env: "pool_ok (e_pool env)" "e_codecs env = c" "e_support env = h" "stream_started (snd bs) \<longrightarrow> e_conn env"
    and step: "driven_step env (Deliver d ts dur n) bs = Some bs'" "wire (snd bs') \<noteq> wire (snd bs)"
  shows "\<exists>pre r x. wire (snd bs') = pre @ [AudioChunk d ts dur (PLAYER_AUDIO_HEADER_SIZE + n)] \<and>
    wire_run pre None = Some (Some x) \<and> reqs (snd bs') = Some r \<and> fits (format_of r) x"
proof -
  let ?bs = "(fst bs, snd bs\<lparr>group_pool := e_pool env\<rparr>)"
  have agrees: "agrees c h env" using env by (simp add: agrees_def)
  have "in_force (fst ?bs) (snd ?bs)" "live c h (snd ?bs)"
    using driven_run_force [OF run] env(1) by (simp_all add: live_enter)
  from deliver_force [OF this agrees, of d ts dur n bs'] step env(4)
  obtain pre where post: "in_force True (snd bs')" "live c h (snd bs')" "stream_started (snd bs')"
      "\<not> pending_start (snd bs')" "wire (snd bs') = pre @ [AudioChunk d ts dur (PLAYER_AUDIO_HEADER_SIZE + n)]"
    by (auto simp: driven_step_def)
  then obtain r x where rx: "reqs (snd bs') = Some r" "last_sent (snd bs') = Some x" "fits (format_of r) x"
    by (auto simp: in_force_def)
  obtain fmt where "wire_run (wire (snd bs')) None = Some fmt" "fmt = last_sent (snd bs')"
    using post(2,3) by (auto simp: live_def player_ok_def wire_ok_def)
  then have "wire_run pre None = Some (Some x)"
    using post(5) rx(2) by (auto simp: wire_run_append Option.bind_eq_Some_conv split: if_splits)
  then show ?thesis using post(5) rx by blast
qed

subsection \<open>A sample run\<close>

definition sample_env :: player_env where
  "sample_env = \<lparr>e_now = 0, e_conn = True, e_available = True, e_leaves_external = False, e_connected = True,
     e_awaits = False, e_active_stream = True, e_strict = False, e_channel = 0,
     e_support = Some \<lparr>supported_formats = [\<lparr>sf_codec = PCM, sf_channels = 2, sf_rate = 48000, sf_depth = 16\<rparr>],
       buffer_capacity = 100000, hello_commands = None\<rparr>,
     e_codecs = \<lparr>opus_available = False, flac_encoder_available = False\<rparr>, e_header = (\<lambda>t. None),
     e_pool = empty_pool, e_in_use = [], e_pruning = False\<rparr>"

definition sample_connected :: player where
  "sample_connected = the (player_step sample_env Connect (new_player new_persistent))"

definition sample_started :: player where
  "sample_started = the (player_step sample_env StreamStartHook sample_connected)"

definition sample_playing :: player where
  "sample_playing = the (player_step sample_env (ChunkHook [1] 100 10 1) sample_started)"

lemma run_step:
  assumes "player_run (e_codecs env) (e_support env) (new_player st) s" "pool_ok (e_pool env)" "\<not> may_raise oper"
  shows "player_run (e_codecs env) (e_support env) (new_player st) (the (player_step env oper s))"
proof -
  have "succeeds (\<lambda>s. True) (player_step env oper s)"
    using succeeds_mono [OF step_succeeds [OF live_enter [OF live_run [OF assms(1)] assms(2)] _ assms(3)]]
    by (simp add: agrees_def player_step_def)
  then show ?thesis
    by (intro player_run.step [OF assms(1,2) refl refl, of oper]) (auto simp: succeeds_def)
qed

lemma sample_run:
  "player_run (e_codecs sample_env) (e_support sample_env) (new_player new_persistent) sample_playing"
  unfolding sample_playing_def sample_started_def sample_connected_def
  by (intro run_step player_run.start) (simp_all add: may_raise_def sample_env_def)

theorem player_stream_protocol_witness:
  "wire_run (wire sample_playing) None \<noteq> None \<and>
   wire sample_playing = [StreamStart (PCM, 48000, 2, 16, None), AudioChunk [1] 100 10 14]"
  by (rule conjI, rule player_stream_protocol [OF sample_run]) code_simp

theorem player_never_raises_witness:
  "player_step sample_env EndHook sample_playing \<noteq> None"
  by (rule player_never_raises [OF sample_run]) (simp_all add: sample_env_def may_raise_def)

theorem announced_formats_served_witness:
  "\<exists>hello f. e_support sample_env = Some hello \<and> f \<in> set (supported_formats hello) \<and>
     can_encode_format (e_codecs sample_env) f \<and> PCM = sf_codec f \<and> 48000 = sf_rate f \<and> 2 = sf_channels f \<and>
     16 = encode_depth PCM (sf_depth f)"
proof -
  have "wire sample_playing = [StreamStart (PCM, 48000, 2, 16, None), AudioChunk [1] 100 10 14]"
    by code_simp
  then show ?thesis
    by (intro announced_formats_served [OF sample_run, of PCM 48000 2 16 None]) simp
qed

definition driven_connected :: "bool \<times> player" where
  "driven_connected = the (driven_step sample_env (Hook Connect) (False, new_player new_persistent))"

definition driven_playing :: "bool \<times> player" where
  "driven_playing = the (driven_step sample_env (Deliver [1] 100 10 1) driven_connected)"

lemma driven_sample_steps:
  "driven_step sample_env (Hook Connect) (False, new_player new_persistent) = Some driven_connected"
  "driven_step sample_env (Deliver [1] 100 10 1) driven_connected = Some driven_playing"
proof -
  have "driven_step sample_env (Hook Connect) (False, new_player new_persistent) \<noteq> None"
    "driven_step sample_env (Deliver [1] 100 10 1) driven_connected \<noteq> None"
    by code_simp+
  then show "driven_step sample_env (Hook Connect) (False, new_player new_persistent) = Some driven_connected"
    "driven_step sample_env (Deliver [1] 100 10 1) driven_connected = Some driven_playing"
    by (auto simp: driven_connected_def driven_playing_def)
qed

theorem audio_under_announced_format_witness:
  "\<exists>pre r x. wire (snd driven_playing) = pre @ [AudioChunk [1] 100 10 (PLAYER_AUDIO_HEADER_SIZE + 1)] \<and>
    wire_run pre None = Some (Some x) \<and> reqs (snd driven_playing) = Some r \<and> fits (format_of r) x"
proof (rule audio_under_announced_format [OF _ _ refl refl _ driven_sample_steps(2)])
  show "driven_run (e_codecs sample_env) (e_support sample_env) (False, new_player new_persistent) driven_connected"
    by (rule driven_run.step [OF driven_run.start _ refl refl _ driven_sample_steps(1)])
       (simp_all add: sample_env_def coherent_def driver_hook_def changes_preference_def)
  show "wire (snd driven_playing) \<noteq> wire (snd driven_connected)"
    by code_simp
qed (simp_all add: sample_env_def)

end
