(* ===== verification/Group_Volume.thy ===== *)
theory Group_Volume
  imports Floats Player_Facts
begin

text \<open>
  The player group role (\<open>server/roles/player/group.py\<close>): the volume and mute of a group as
  aggregates over its players, and the redistribution that sets a group volume. A player of the group
  is the role of \<open>Player_Role\<close> under the number of its client; \<open>envs\<close> gives each player what its
  operations read.
\<close>

subsection \<open>Redistribution\<close>

text \<open>One player of a pass: the volumes, the delta lost to clamping, and the players still active.\<close>

definition clamp_player ::
  "(rat \<Rightarrow> rat) \<Rightarrow> rat \<Rightarrow> rat list \<times> rat \<times> nat list \<Rightarrow> nat \<Rightarrow> rat list \<times> rat \<times> nat list" where
  "clamp_player fl delta acc i =
     (case acc of (vols, lost, nxt) \<Rightarrow>
        let proposed = fl (vols ! i + delta) in
        if proposed > 100 then (vols[i := 100], fl (lost + fl (proposed - 100)), nxt)
        else if proposed < 0 then (vols[i := 0], fl (lost + fl (proposed - 0)), nxt)
        else (vols[i := proposed], lost, nxt @ [i]))"

definition volume_pass :: "(rat \<Rightarrow> rat) \<Rightarrow> rat \<Rightarrow> rat list \<Rightarrow> nat list \<Rightarrow> rat list \<times> rat \<times> nat list" where
  "volume_pass fl delta vols active = foldl (clamp_player fl delta) (vols, 0, []) active"

lemma clamp_pass_length:
  "length (snd (snd (foldl (clamp_player fl delta) acc active))) \<le> length (snd (snd acc)) + length active"
proof (induction active arbitrary: acc)
  case (Cons i active)
  have "length (snd (snd (clamp_player fl delta acc i))) \<le> Suc (length (snd (snd acc)))"
    by (auto simp: clamp_player_def Let_def split: prod.split)
  with Cons.IH [of "clamp_player fl delta acc i"] show ?case by simp
qed simp

text \<open>The \<open>while\<close> loop of \<open>set_group_volume\<close>; each further pass has fewer active players, whatever
  the rounding.\<close>

function redistribute :: "(rat \<Rightarrow> rat) \<Rightarrow> rat list \<Rightarrow> nat list \<Rightarrow> rat \<Rightarrow> rat list" where
  "redistribute fl vols active delta =
     (if active = [] then vols
      else let (vols', lost, nxt) = volume_pass fl delta vols active in
        if length nxt = length active then vols'
        else redistribute fl vols' nxt (if nxt \<noteq> [] then fl (lost / of_nat (length nxt)) else delta))"
  by pat_completeness auto
termination
proof (relation "measure (\<lambda>(fl, vols, active, delta). length active)", simp)
  fix fl :: "rat \<Rightarrow> rat" and vols active delta x vols' y lost nxt
  assume "x = volume_pass fl delta vols active" "(vols', y) = x" "(lost, nxt) = y" "length nxt \<noteq> length active"
  then have "length nxt < length active"
    using clamp_pass_length [of fl delta "(vols, 0, [])" active]
    by (auto simp: volume_pass_def dest: sym)
  then show "((fl, vols', nxt, if nxt \<noteq> [] then fl (lost / of_nat (length nxt)) else delta), fl, vols, active, delta)
      \<in> measure (\<lambda>(fl, vols, active, delta). length active)" by simp
qed

declare redistribute.simps [simp del]

text \<open>\<open>sum\<close> of floats, and the loop's first delta.\<close>

definition float_sum :: "(rat \<Rightarrow> rat) \<Rightarrow> rat list \<Rightarrow> rat" where
  "float_sum fl xs = foldl (\<lambda>a x. fl (a + x)) 0 xs"

definition redistributed :: "(rat \<Rightarrow> rat) \<Rightarrow> int \<Rightarrow> int list \<Rightarrow> rat list" where
  "redistributed fl level volumes =
     (let vols = map of_int volumes;
          current_avg = fl (float_sum fl vols / of_nat (length vols))
      in redistribute fl vols [0..<length vols] (fl (of_int level - current_avg)))"

subsection \<open>The group role\<close>

datatype group_event = GroupVolumeChanged int int | GroupMuteChanged bool bool

record player_group =
  pg_players :: "(nat, player) dict"
  pg_last_volume :: "int option"
  pg_last_muted :: "bool option"
  pg_watched :: "nat list"
  pg_events :: "group_event list"

definition new_player_group :: player_group where
  "new_player_group = \<lparr>pg_players = [], pg_last_volume = None, pg_last_muted = None, pg_watched = [],
     pg_events = []\<rparr>"

definition player_volumes :: "player_group \<Rightarrow> int list" where
  "player_volumes g = List.map_filter (\<lambda>(i, p). get_player_volume p) (pg_players g)"

definition player_mutes :: "player_group \<Rightarrow> bool list" where
  "player_mutes g = List.map_filter (\<lambda>(i, p). get_player_muted p) (pg_players g)"

definition get_group_volume :: "(rat \<Rightarrow> rat) \<Rightarrow> player_group \<Rightarrow> int option" where
  "get_group_volume fl g =
     (let vs = player_volumes g in
      if vs = [] then None else Some (py_round (fl (of_int (sum_list vs) / of_nat (length vs)))))"

definition get_group_muted :: "player_group \<Rightarrow> bool option" where
  "get_group_muted g = (let ms = player_mutes g in if ms = [] then None else Some (list_all id ms))"

definition group_volume :: "(rat \<Rightarrow> rat) \<Rightarrow> player_group \<Rightarrow> int" where
  "group_volume fl g = (case get_group_volume fl g of None \<Rightarrow> 100 | Some v \<Rightarrow> v)"

definition group_muted :: "player_group \<Rightarrow> bool" where
  "group_muted g \<longleftrightarrow> get_group_muted g = Some True"

text \<open>\<open>set_group_volume\<close>: the new volumes are commanded; a player's own volume changes when it reports
  it.\<close>

definition on_player :: "nat \<Rightarrow> (player \<Rightarrow> player) \<Rightarrow> player_group \<Rightarrow> player_group" where
  "on_player i f g = g\<lparr>pg_players := map (\<lambda>(j, p). (j, if j = i then f p else p)) (pg_players g)\<rparr>"

definition volume_players :: "player_group \<Rightarrow> nat list" where
  "volume_players g = map fst (filter (\<lambda>(i, p). get_player_volume p \<noteq> None) (pg_players g))"

definition set_group_volume ::
  "(rat \<Rightarrow> rat) \<Rightarrow> (nat \<Rightarrow> player_env) \<Rightarrow> int \<Rightarrow> player_group \<Rightarrow> player_group" where
  "set_group_volume fl envs level g =
     (let level = max 0 (min 100 level); vs = player_volumes g in
      if vs = [] then g
      else foldl (\<lambda>g (i, v). on_player i (set_volume (envs i) (py_round v)) g) g
             (zip (volume_players g) (redistributed fl level vs)))"

definition set_group_muted :: "(nat \<Rightarrow> player_env) \<Rightarrow> bool \<Rightarrow> player_group \<Rightarrow> player_group" where
  "set_group_muted envs m g =
     g\<lparr>pg_players := map (\<lambda>(i, p). (i, if get_player_muted p \<noteq> None then set_mute (envs i) m p else p)) (pg_players g)\<rparr>"

definition recompute_and_emit :: "(rat \<Rightarrow> rat) \<Rightarrow> player_group \<Rightarrow> player_group" where
  "recompute_and_emit fl g =
     (let v = group_volume fl g;
          g1 = g\<lparr>pg_last_volume := Some v\<rparr>;
          g2 = (case pg_last_volume g of
                  Some v0 \<Rightarrow> if v0 \<noteq> v then g1\<lparr>pg_events := pg_events g1 @ [GroupVolumeChanged v0 v]\<rparr> else g1
                | None \<Rightarrow> g1);
          m = group_muted g2;
          g3 = g2\<lparr>pg_last_muted := Some m\<rparr>
      in case pg_last_muted g of
           Some m0 \<Rightarrow> if m0 \<noteq> m then g3\<lparr>pg_events := pg_events g3 @ [GroupMuteChanged m0 m]\<rparr> else g3
         | None \<Rightarrow> g3)"

text \<open>\<open>subscribe\<close> and \<open>unsubscribe\<close> with the membership hooks, up to the push of the controller state
  that follows.\<close>

definition player_joins :: "(rat \<Rightarrow> rat) \<Rightarrow> nat \<Rightarrow> player \<Rightarrow> player_group \<Rightarrow> player_group" where
  "player_joins fl i p g =
     (if i \<in> set (map fst (pg_players g)) then g
      else recompute_and_emit fl (g\<lparr>pg_players := pg_players g @ [(i, p)]\<rparr>))"

definition player_leaves :: "(rat \<Rightarrow> rat) \<Rightarrow> nat \<Rightarrow> player_group \<Rightarrow> player_group" where
  "player_leaves fl i g =
     (if i \<in> set (map fst (pg_players g))
      then recompute_and_emit fl (g\<lparr>pg_players := filter (\<lambda>(j, p). j \<noteq> i) (pg_players g)\<rparr>)
      else g)"

text \<open>\<open>on_client_added\<close>: the second condition is \<open>has_role_family("player", negotiated_role_ids)\<close>.\<close>

definition on_client_added :: "(rat \<Rightarrow> rat) \<Rightarrow> nat \<Rightarrow> bool \<Rightarrow> player_group \<Rightarrow> player_group" where
  "on_client_added fl i has_player g =
     (if i \<in> set (pg_watched g) then g
      else if \<not> has_player then g
      else let g = g\<lparr>pg_watched := pg_watched g @ [i]\<rparr>;
               g = (if pg_last_volume g = None then g\<lparr>pg_last_volume := Some (group_volume fl g)\<rparr> else g)
           in if pg_last_muted g = None then g\<lparr>pg_last_muted := Some (group_muted g)\<rparr> else g)"

definition on_client_removed :: "nat \<Rightarrow> player_group \<Rightarrow> player_group" where
  "on_client_removed i g = g\<lparr>pg_watched := removeAll i (pg_watched g)\<rparr>"

text \<open>A \<open>client/state\<close> of a player: its volume part, and the group's reaction to the event it emits.\<close>

definition player_reports ::
  "(rat \<Rightarrow> rat) \<Rightarrow> player_env \<Rightarrow> nat \<Rightarrow> player_state_payload \<Rightarrow> player_group \<Rightarrow> player_group" where
  "player_reports fl env i payload g =
     (case dget (pg_players g) i of
        None \<Rightarrow> g
      | Some p \<Rightarrow>
          let p' = apply_state_volume env payload p;
              g = on_player i (\<lambda>_. p') g
          in if length (log p) < length (log p') \<and> i \<in> set (pg_watched g) then recompute_and_emit fl g else g)"

subsection \<open>What a redistribution achieves\<close>

definition clamp100 :: "rat \<Rightarrow> rat" where "clamp100 x = max 0 (min 100 x)"

definition in_range100 :: "rat list \<Rightarrow> bool" where "in_range100 xs \<longleftrightarrow> (\<forall>x\<in>set xs. 0 \<le> x \<and> x \<le> 100)"

lemma in_range100_nth: "in_range100 xs \<longleftrightarrow> (\<forall>i<length xs. 0 \<le> xs ! i \<and> xs ! i \<le> 100)"
  by (simp add: in_range100_def all_set_conv_all_nth)

lemma clamp_player_eq:
  "clamp_player fl delta (vols, lost, nxt) i =
     (vols[i := clamp100 (fl (vols ! i + delta))],
      if clamp100 (fl (vols ! i + delta)) = fl (vols ! i + delta) then lost
      else fl (lost + fl (fl (vols ! i + delta) - clamp100 (fl (vols ! i + delta)))),
      if clamp100 (fl (vols ! i + delta)) = fl (vols ! i + delta) then nxt @ [i] else nxt)"
  by (auto simp: clamp_player_def Let_def clamp100_def)

lemma pass_result:
  assumes "distinct active" "foldl (clamp_player fl delta) (vols, lost, nxt) active = (vols', lost', nxt')"
    "set active \<subseteq> {..<length vols}"
  shows "length vols' = length vols \<and>
    (\<forall>j<length vols. vols' ! j = (if j \<in> set active then clamp100 (fl (vols ! j + delta)) else vols ! j)) \<and>
    nxt' = nxt @ filter (\<lambda>j. clamp100 (fl (vols ! j + delta)) = fl (vols ! j + delta)) active \<and>
    (fl = exact \<longrightarrow> lost' = lost + (\<Sum>j\<leftarrow>active. vols ! j + delta - clamp100 (vols ! j + delta)))"
  using assms
proof (induction active arbitrary: vols lost nxt)
  case (Cons i active)
  let ?x = "fl (vols ! i + delta)"
  let ?vols = "vols[i := clamp100 ?x]"
  let ?lost = "if clamp100 ?x = ?x then lost else fl (lost + fl (?x - clamp100 ?x))"
  let ?nxt = "if clamp100 ?x = ?x then nxt @ [i] else nxt"
  have rest: "foldl (clamp_player fl delta) (?vols, ?lost, ?nxt) active = (vols', lost', nxt')"
      "distinct active" "set active \<subseteq> {..<length ?vols}" "i \<notin> set active" "i < length vols"
    using Cons.prems by (simp_all add: clamp_player_eq)
  have same: "?vols ! j = vols ! j" if "j \<in> set active" for j
    using that rest(4) by (metis nth_list_update_neq)
  have filt: "filter (\<lambda>j. clamp100 (fl (?vols ! j + delta)) = fl (?vols ! j + delta)) active =
      filter (\<lambda>j. clamp100 (fl (vols ! j + delta)) = fl (vols ! j + delta)) active"
    using same by (intro filter_cong) simp_all
  have sums: "(\<Sum>j\<leftarrow>active. ?vols ! j + delta - clamp100 (?vols ! j + delta)) =
      (\<Sum>j\<leftarrow>active. vols ! j + delta - clamp100 (vols ! j + delta))"
    using same by (intro arg_cong [of _ _ sum_list] map_cong) simp_all
  note IH = Cons.IH [OF rest(2,1,3)]
  have "length vols' = length vols" using IH by simp
  moreover have "vols' ! j = (if j \<in> set (i # active) then clamp100 (fl (vols ! j + delta)) else vols ! j)"
    if "j < length vols" for j
    using IH rest(4,5) same that by (cases "j = i") auto
  moreover have "nxt' = nxt @ filter (\<lambda>j. clamp100 (fl (vols ! j + delta)) = fl (vols ! j + delta)) (i # active)"
    using IH filt by simp
  moreover have "lost' = lost + (\<Sum>j\<leftarrow>i # active. vols ! j + delta - clamp100 (vols ! j + delta))" if "fl = exact"
  proof -
    have "lost' = ?lost + (\<Sum>j\<leftarrow>active. ?vols ! j + delta - clamp100 (?vols ! j + delta))" using IH that by blast
    moreover have "?lost = lost + (vols ! i + delta - clamp100 (vols ! i + delta))" using that by simp
    ultimately show ?thesis using sums by simp
  qed
  ultimately show ?case by blast
qed simp

text \<open>One pass from the start.\<close>

lemma volume_pass_result:
  assumes "distinct active" "set active \<subseteq> {..<length vols}" "volume_pass fl delta vols active = (vols', lost, nxt)"
  shows "length vols' = length vols"
    "\<And>j. j < length vols \<Longrightarrow> vols' ! j = (if j \<in> set active then clamp100 (fl (vols ! j + delta)) else vols ! j)"
    "nxt = filter (\<lambda>j. clamp100 (fl (vols ! j + delta)) = fl (vols ! j + delta)) active"
    "fl = exact \<Longrightarrow> lost = (\<Sum>j\<leftarrow>active. vols ! j + delta - clamp100 (vols ! j + delta))"
  using pass_result [OF assms(1) assms(3) [unfolded volume_pass_def] assms(2)] by simp_all

lemma clamp100_range [simp]: "0 \<le> clamp100 x" "clamp100 x \<le> 100"
  by (simp_all add: clamp100_def)

lemma redistribute_range:
  "distinct active \<Longrightarrow> set active \<subseteq> {..<length vols} \<Longrightarrow> in_range100 vols \<Longrightarrow>
   in_range100 (redistribute fl vols active delta) \<and> length (redistribute fl vols active delta) = length vols"
proof (induction fl vols active delta rule: redistribute.induct)
  case (1 fl vols active delta)
  obtain vols' lost nxt where pass: "volume_pass fl delta vols active = (vols', lost, nxt)"
    by (cases "volume_pass fl delta vols active")
  note res = volume_pass_result [OF "1.prems"(1,2) pass]
  have range: "in_range100 vols'"
    using "1.prems"(3) res(1,2) by (simp add: in_range100_nth)
  have nxt: "distinct nxt" "set nxt \<subseteq> {..<length vols'}"
    using "1.prems"(1,2) res(1,3) by auto
  show ?case
  proof (cases "active = [] \<or> length nxt = length active")
    case True
    then show ?thesis
      using range res(1) "1.prems"(3) pass by (auto simp: redistribute.simps [of fl vols active])
  next
    case False
    then show ?thesis
      using "1.IH" [of "(vols', lost, nxt)" vols' "(lost, nxt)" lost nxt] nxt range res(1) pass
      by (simp add: redistribute.simps [of fl vols active])
  qed
qed

text \<open>Exact arithmetic: what a pass clamps away is carried over to the players still active.\<close>

lemma pass_sum:
  assumes "distinct active" "set active \<subseteq> {..<length vols}" "volume_pass exact delta vols active = (vols', lost, nxt)"
  shows "sum_list vols' + lost = sum_list vols + delta * of_nat (length active)"
proof -
  note res = volume_pass_result [OF assms]
  have "sum_list vols' = (\<Sum>j<length vols. vols ! j + (if j \<in> set active then clamp100 (vols ! j + delta) - vols ! j else 0))"
    using res(1,2) by (auto simp: sum_list_sum_nth atLeast0LessThan intro!: sum.cong)
  also have "\<dots> = sum_list vols + (\<Sum>j\<in>set active. clamp100 (vols ! j + delta) - vols ! j)"
    using assms(2)
    by (simp add: sum.distrib sum_list_sum_nth atLeast0LessThan sum.If_cases Int_absorb1)
  finally have "sum_list vols' = sum_list vols + (\<Sum>j\<in>set active. clamp100 (vols ! j + delta) - vols ! j)" .
  moreover have "(\<Sum>j\<in>set active. clamp100 (vols ! j + delta) - vols ! j) + lost = (\<Sum>j\<in>set active. delta)"
    using assms(1) res(4)
    by (simp only: sum_list_distinct_conv_sum_set sum.distrib [symmetric]) (simp add: algebra_simps)
  then have "(\<Sum>j\<in>set active. clamp100 (vols ! j + delta) - vols ! j) = delta * of_nat (length active) - lost"
    using assms(1) by (simp add: distinct_card mult.commute)
  ultimately show ?thesis by simp
qed

lemma excess:
  assumes "0 \<le> v" "v \<le> 100"
  shows "0 < d \<Longrightarrow> clamp100 (v + d) \<le> v + d" "0 < d \<Longrightarrow> clamp100 (v + d) \<noteq> v + d \<Longrightarrow> clamp100 (v + d) = 100 \<and> 100 < v + d"
    "d < 0 \<Longrightarrow> v + d \<le> clamp100 (v + d)" "d < 0 \<Longrightarrow> clamp100 (v + d) \<noteq> v + d \<Longrightarrow> clamp100 (v + d) = 0 \<and> v + d < 0"
  using assms unfolding clamp100_def max_def min_def by (simp_all split: if_splits)

definition settled :: "rat list \<Rightarrow> nat list \<Rightarrow> rat \<Rightarrow> bool" where
  "settled vols active delta \<longleftrightarrow>
     (\<forall>i<length vols. i \<notin> set active \<longrightarrow> (0 < delta \<longrightarrow> vols ! i = 100) \<and> (delta < 0 \<longrightarrow> vols ! i = 0))"

lemma pass_settled:
  assumes dist: "distinct active" "set active \<subseteq> {..<length vols}" and range: "in_range100 vols"
    and settled: "settled vols active delta"
    and pass: "volume_pass exact delta vols active = (vols', lost, nxt)" and less: "length nxt \<noteq> length active"
  shows "0 < delta \<and> 0 < lost \<or> delta < 0 \<and> lost < 0"
    "0 < delta \<Longrightarrow> i < length vols \<Longrightarrow> i \<notin> set nxt \<Longrightarrow> vols' ! i = 100"
    "delta < 0 \<Longrightarrow> i < length vols \<Longrightarrow> i \<notin> set nxt \<Longrightarrow> vols' ! i = 0"
proof -
  note res = volume_pass_result [OF dist pass]
  let ?p = "\<lambda>j. vols ! j + delta"
  have lost: "lost = (\<Sum>j\<in>set active. ?p j - clamp100 (?p j))"
    using res(4) dist(1) by (simp add: sum_list_distinct_conv_sum_set)
  have "\<exists>j\<in>set active. clamp100 (?p j) \<noteq> ?p j"
  proof (rule ccontr)
    assume "\<not> ?thesis"
    then have "nxt = active" using res(3) by (simp add: filter_id_conv)
    then show False using less by simp
  qed
  then obtain k where k: "k \<in> set active" "clamp100 (?p k) \<noteq> ?p k" by blast
  have vol: "0 \<le> vols ! j" "vols ! j \<le> 100" if "j \<in> set active" for j
    using range dist(2) that by (auto simp: in_range100_nth)
  have "delta \<noteq> 0" using k vol [OF k(1)] by (auto simp: clamp100_def)
  then consider "0 < delta" | "delta < 0" by linarith
  then show "0 < delta \<and> 0 < lost \<or> delta < 0 \<and> lost < 0"
  proof cases
    case 1
    have "0 < lost"
      unfolding lost by (rule sum_pos2 [OF _ k(1)]) (use excess(1) [OF vol 1] excess(2) [OF vol [OF k(1)] 1 k(2)] in \<open>auto\<close>)
    with 1 show ?thesis by simp
  next
    case 2
    have "0 < (\<Sum>j\<in>set active. - (?p j - clamp100 (?p j)))"
      by (rule sum_pos2 [OF _ k(1)]) (use excess(3) [OF vol 2] excess(4) [OF vol [OF k(1)] 2 k(2)] in \<open>auto\<close>)
    then have "lost < 0" unfolding lost sum_negf by simp
    with 2 show ?thesis by simp
  qed
  have fate: "vols' ! i = (if i \<in> set active then clamp100 (?p i) else vols ! i)"
      "i \<in> set active \<Longrightarrow> clamp100 (?p i) \<noteq> ?p i" if "i < length vols" "i \<notin> set nxt"
    using that res(2) [OF that(1)] res(3) by auto
  show "vols' ! i = 100" if "0 < delta" "i < length vols" "i \<notin> set nxt"
    using fate [OF that(2,3)] vol [of i] settled that excess [of "vols ! i" delta] by (auto simp: settled_def)
  show "vols' ! i = 0" if "delta < 0" "i < length vols" "i \<notin> set nxt"
    using fate [OF that(2,3)] vol [of i] settled that excess [of "vols ! i" delta] by (auto simp: settled_def)
qed

lemma sum_all: "(\<And>i. i < length xs \<Longrightarrow> xs ! i = c) \<Longrightarrow> sum_list xs = of_nat (length xs) * (c::rat)"
  by (simp add: sum_list_sum_nth)

lemma redistribute_sum:
  "distinct active \<Longrightarrow> set active \<subseteq> {..<length vols} \<Longrightarrow> in_range100 vols \<Longrightarrow> settled vols active delta \<Longrightarrow>
   active \<noteq> [] \<Longrightarrow> sum_list vols + delta * of_nat (length active) = tot \<Longrightarrow>
   0 \<le> tot \<Longrightarrow> tot \<le> 100 * of_nat (length vols) \<Longrightarrow>
   sum_list (redistribute exact vols active delta) = tot"
proof (induction exact vols active delta rule: redistribute.induct)
  case (1 vols active delta)
  obtain vols' lost nxt where pass: "volume_pass exact delta vols active = (vols', lost, nxt)"
    by (cases "volume_pass exact delta vols active")
  note res = volume_pass_result [OF "1.prems"(1,2) pass]
  have carried: "sum_list vols' + lost = tot"
    using pass_sum [OF "1.prems"(1,2) pass] "1.prems"(6) by simp
  have range: "in_range100 vols'"
    using "1.prems"(3) res(1,2) by (simp add: in_range100_nth)
  have nxt: "distinct nxt" "set nxt \<subseteq> {..<length vols'}"
    using "1.prems"(1,2) res(1,3) by auto
  show ?case
  proof (cases "length nxt = length active")
    case True
    then have "nxt = active"
      using res(3) by (metis filter_id_conv length_filter_less less_irrefl)
    then have "lost = 0"
      using res(3,4) "1.prems"(1) by (simp add: filter_id_conv cong: map_cong)
    then show ?thesis
      using carried True pass "1.prems"(5) by (simp add: redistribute.simps [of exact vols active])
  next
    case False
    note set = pass_settled [OF "1.prems"(1-4) pass False]
    have some: "nxt \<noteq> []"
    proof
      assume none: "nxt = []"
      have "sum_list vols' = of_nat (length vols') * (if 0 < delta then 100 else 0)"
        using set none res(1) by (intro sum_all) auto
      then show False using carried set(1) "1.prems"(7,8) res(1) by (auto split: if_splits)
    qed
    have "settled vols' nxt (lost / of_nat (length nxt))"
      using set res(1) some by (auto simp: settled_def zero_less_divide_iff divide_less_0_iff)
    then show ?thesis
      using "1.hyps" [of "(vols', lost, nxt)" vols' "(lost, nxt)" lost nxt] nxt range some carried "1.prems"(5,7,8) res(1) pass False
      by (simp add: redistribute.simps [of exact vols active])
  qed
qed

subsection \<open>The volume of the group after setting it\<close>

lemma float_sum_exact: "float_sum exact xs = sum_list xs"
proof -
  have "foldl (\<lambda>a x. exact (a + x)) a xs = a + sum_list xs" for a
    by (induction xs arbitrary: a) simp_all
  then show ?thesis by (simp add: float_sum_def)
qed

lemma sum_list_of_int: "sum_list (map of_int vs) = (of_int (sum_list vs) :: rat)"
  by (induction vs) simp_all

definition volumes_ok :: "int list \<Rightarrow> bool" where
  "volumes_ok vs \<longleftrightarrow> list_all (\<lambda>v. 0 \<le> v \<and> v \<le> 100) vs"

lemma redistributed_range:
  "volumes_ok vs \<Longrightarrow> in_range100 (redistributed fl level vs) \<and> length (redistributed fl level vs) = length vs"
  using redistribute_range [of "[0..<length vs]" "map of_int vs" fl
      "fl (of_int level - fl (float_sum fl (map of_int vs) / of_nat (length vs)))"]
  by (simp add: redistributed_def Let_def volumes_ok_def list_all_iff in_range100_def atLeast_upt)

lemma redistributed_sum:
  assumes ok: "volumes_ok vs" "vs \<noteq> []" and level: "0 \<le> level" "level \<le> 100"
  shows "sum_list (redistributed exact level vs) = of_int level * of_nat (length vs)"
proof -
  let ?vols = "map of_int vs :: rat list"
  let ?delta = "of_int level - sum_list ?vols / of_nat (length vs)"
  have "sum_list (redistribute exact ?vols [0..<length vs] ?delta) = of_int level * of_nat (length vs)"
  proof (rule redistribute_sum)
    show "in_range100 ?vols" using ok by (simp add: volumes_ok_def list_all_iff in_range100_def)
    show "sum_list ?vols + ?delta * of_nat (length [0..<length vs]) = of_int level * of_nat (length vs)"
      using ok(2) by (simp add: field_simps)
    show "0 \<le> of_int level * (of_nat (length vs) :: rat)" using level(1) by simp
    show "of_int level * of_nat (length vs) \<le> (100 :: rat) * of_nat (length ?vols)"
      using level(2) by (simp add: mult_right_mono)
  qed (use ok in \<open>auto simp: settled_def\<close>)
  then show ?thesis by (simp add: redistributed_def float_sum_exact Let_def)
qed

text \<open>The commands, one to each player that supports volume.\<close>

lemma on_players:
  "distinct (map fst ps) \<Longrightarrow>
   pg_players (foldl (\<lambda>g (i, v). on_player i (f i v) g) g ps) =
     map (\<lambda>(j, p). (j, case map_of ps j of Some v \<Rightarrow> f j v p | None \<Rightarrow> p)) (pg_players g)"
proof (induction ps arbitrary: g)
  case (Cons iv ps)
  obtain i v where iv: "iv = (i, v)" by (cases iv)
  have "map_of ps i = None" using Cons.prems iv by (auto simp: map_of_eq_None_iff)
  then show ?case
    using Cons by (auto simp: iv on_player_def split: option.split)
qed auto

definition supports_volume :: "nat \<times> player \<Rightarrow> bool" where
  "supports_volume ip \<longleftrightarrow> get_player_volume (snd ip) \<noteq> None"

lemma volume_players_filter: "volume_players g = map fst (filter supports_volume (pg_players g))"
  by (simp add: volume_players_def supports_volume_def [abs_def] split_def)

lemma length_player_volumes: "length (player_volumes g) = length (filter supports_volume (pg_players g))"
proof -
  have "length (List.map_filter (\<lambda>(i, p). get_player_volume p) xs) = length (filter supports_volume xs)" for xs
    by (induction xs) (auto simp: List.map_filter_simps supports_volume_def split: option.split)
  then show ?thesis by (simp add: player_volumes_def)
qed

lemma set_group_volume_players:
  assumes "dict_ok (pg_players g)" "volumes_ok (player_volumes g)" "player_volumes g \<noteq> []"
  shows "pg_players (set_group_volume fl envs level g) =
    map (\<lambda>(j, p). (j, case map_of (zip (volume_players g) (redistributed fl (max 0 (min 100 level)) (player_volumes g))) j of
        Some v \<Rightarrow> set_volume (envs j) (py_round v) p | None \<Rightarrow> p)) (pg_players g)"
proof -
  have "length (volume_players g) = length (redistributed fl (max 0 (min 100 level)) (player_volumes g))"
    using redistributed_range [OF assms(2)] by (simp add: volume_players_filter length_player_volumes)
  then have "distinct (map fst (zip (volume_players g) (redistributed fl (max 0 (min 100 level)) (player_volumes g))))"
    using assms(1) by (simp add: volume_players_filter dict_ok_def distinct_map_filter)
  from on_players [OF this, where f = "\<lambda>i v. set_volume (envs i) (py_round v)"] show ?thesis
    using assms(3) by (simp add: set_group_volume_def Let_def)
qed

text \<open>What the players report back: the volume they were last commanded.\<close>

definition commanded :: "wire_msg list \<Rightarrow> int option" where
  "commanded ms = foldl (\<lambda>v m. case m of VolumeCommand x \<Rightarrow> Some x | _ \<Rightarrow> v) None ms"

definition obey :: "player \<Rightarrow> player" where
  "obey p = (case commanded (wire p) of Some v \<Rightarrow> upd (\<lambda>st. st\<lparr>pl_volume := v\<rparr>) p | None \<Rightarrow> p)"

definition all_obey :: "player_group \<Rightarrow> player_group" where
  "all_obey g = g\<lparr>pg_players := map (\<lambda>(i, p). (i, obey p)) (pg_players g)\<rparr>"

lemma obey_commanded:
  assumes "get_player_volume p \<noteq> None" "e_conn env"
  shows "get_player_volume (obey (set_volume env v p)) = Some v"
  using assms by (auto simp: get_player_volume_def set_volume_def send_def obey_def commanded_def upd_def split: if_splits)

lemma obey_unsupported: "get_player_volume p = None \<Longrightarrow> get_player_volume (obey p) = None"
  by (simp add: get_player_volume_def obey_def upd_def split: if_splits option.split)

lemma obeyed_volumes:
  "distinct (map fst ps) \<Longrightarrow> length xs = length (filter supports_volume ps) \<Longrightarrow> (\<And>i. e_conn (envs i)) \<Longrightarrow>
   List.map_filter (\<lambda>(i, p). get_player_volume p)
     (map (\<lambda>(j, p). (j, obey (case map_of (zip (map fst (filter supports_volume ps)) xs) j of
        Some v \<Rightarrow> set_volume (envs j) (r v) p | None \<Rightarrow> p))) ps) = map r xs"
proof (induction ps arbitrary: xs)
  case (Cons ip ps)
  obtain i p where ip: "ip = (i, p)" by (cases ip)
  have out: "i \<notin> fst ` set ps" "distinct (map fst ps)" using Cons.prems(1) ip by auto
  show ?case
  proof (cases "supports_volume ip")
    case True
    then obtain x xs' where xs: "xs = x # xs'" "length xs' = length (filter supports_volume ps)"
      using Cons.prems(2) by (cases xs) auto
    let ?F = "\<lambda>m (j, p). (j, obey (case m j of Some v \<Rightarrow> set_volume (envs j) (r v) p | None \<Rightarrow> p))"
    let ?m = "map_of (zip (map fst (filter supports_volume ps)) xs')"
    have big: "map_of (zip (map fst (filter supports_volume (ip # ps))) xs) = ?m(i \<mapsto> x)"
      using True by (simp add: ip xs)
    have same: "map (?F (?m(i \<mapsto> x))) ps = map (?F ?m) ps"
      using out(1) by (intro map_cong) (auto simp: image_iff)
    have "get_player_volume p \<noteq> None" using True by (simp add: supports_volume_def ip)
    then have "get_player_volume (obey (set_volume (envs i) (r x) p)) = Some (r x)"
      by (rule obey_commanded) (rule Cons.prems(3))
    then show ?thesis
      using Cons.IH [OF out(2) xs(2) Cons.prems(3)] unfolding big list.map same
      by (simp add: List.map_filter_simps ip xs)
  next
    case False
    let ?m = "map_of (zip (map fst (filter supports_volume ps)) xs)"
    have "i \<notin> dom ?m"
      using out(1) by (auto dest!: map_of_SomeD set_zip_leftD)
    then have m: "?m i = None" by blast
    have big: "filter supports_volume (ip # ps) = filter supports_volume ps" using False by simp
    have "get_player_volume (obey p) = None"
      using False by (simp add: supports_volume_def ip obey_unsupported)
    then show ?thesis
      using Cons.IH [OF out(2) _ Cons.prems(3), of xs] Cons.prems(2) unfolding big list.map
      by (simp add: List.map_filter_simps ip m del: map_of_eq_None_iff)
  qed
qed (simp add: List.map_filter_simps)

lemma round_sum:
  "\<bar>of_int (sum_list (map py_round xs)) - sum_list xs\<bar> \<le> of_nat (length xs) / 2"
proof (induction xs)
  case (Cons x xs)
  have "of_int (sum_list (map py_round (x # xs))) - sum_list (x # xs) =
      (of_int (sum_list (map py_round xs)) - sum_list xs) + (of_int (py_round x) - x)" by simp
  also have "\<bar>\<dots>\<bar> \<le> of_nat (length xs) / 2 + 1 / 2"
    using abs_triangle_ineq add_mono [OF Cons.IH py_round_near [of x]] by (rule order_trans)
  finally show ?case by (simp add: add_divide_distrib)
qed simp

lemma py_round_range:
  assumes "0 \<le> x" "x \<le> 100" shows "0 \<le> py_round x \<and> py_round x \<le> 100"
proof -
  have "- 1 < (of_int (py_round x) :: rat)" "(of_int (py_round x) :: rat) < 101"
    using assms py_round_near [of x] unfolding abs_le_iff by linarith+
  then show ?thesis by linarith
qed

lemma set_zip_right: "map_of (zip ks xs) k = Some x \<Longrightarrow> x \<in> set xs"
  by (metis map_of_SomeD set_zip_rightD)

text \<open>C30. Setting the group volume brings the group to within one of the level asked for, once its
  players follow their commands.\<close>

theorem group_volume_reached:
  assumes ok: "dict_ok (pg_players g)" "volumes_ok (player_volumes g)" "player_volumes g \<noteq> []"
    and conn: "\<And>i. e_conn (envs i)"
  shows "\<bar>group_volume exact (all_obey (set_group_volume exact envs level g)) - max 0 (min 100 level)\<bar> \<le> 1"
proof -
  define lv where "lv = max 0 (min 100 level)"
  define xs where "xs = redistributed exact lv (player_volumes g)"
  have lv: "0 \<le> lv" "lv \<le> 100" by (simp_all add: lv_def)
  have xs: "length xs = length (filter supports_volume (pg_players g))" "length xs = length (player_volumes g)"
    using redistributed_range [OF ok(2)] by (simp_all add: xs_def length_player_volumes)
  have players: "pg_players (all_obey (set_group_volume exact envs level g)) =
      map (\<lambda>(j, p). (j, obey (case map_of (zip (map fst (filter supports_volume (pg_players g))) xs) j of
        Some v \<Rightarrow> set_volume (envs j) (py_round v) p | None \<Rightarrow> p))) (pg_players g)"
    by (simp add: all_obey_def set_group_volume_players [OF ok] volume_players_filter comp_def split_def
        lv_def [symmetric] xs_def [symmetric])
  have vols: "player_volumes (all_obey (set_group_volume exact envs level g)) = map py_round xs"
    unfolding player_volumes_def players
    using ok(1) by (intro obeyed_volumes xs(1) conn) (simp add: dict_ok_def)
  define n :: rat where "n = of_nat (length xs)"
  have n: "0 < n" using ok(3) xs(2) by (simp add: n_def)
  have "sum_list xs = of_int lv * n"
    using redistributed_sum [OF ok(2,3) lv] xs(2) by (simp add: n_def xs_def)
  then have "\<bar>of_int (sum_list (map py_round xs)) - of_int lv * n\<bar> \<le> n / 2"
    using round_sum [of xs] by (simp add: n_def)
  then have "\<bar>of_int (sum_list (map py_round xs)) / n - of_int lv\<bar> \<le> 1 / 2"
    using n by (simp add: abs_le_iff field_simps)
  then have near: "\<bar>py_round (of_int (sum_list (map py_round xs)) / n) - lv\<bar> \<le> 1"
    by (intro py_round_int_near) linarith
  have "group_volume exact (all_obey (set_group_volume exact envs level g)) =
      py_round (of_int (sum_list (map py_round xs)) / n)"
    using n by (auto simp: group_volume_def get_group_volume_def Let_def vols n_def)
  then show ?thesis using near by (simp only: lv_def)
qed

text \<open>Whatever the float rounding, the redistribution ends and commands volumes a player
  accepts: \<open>PlayerCommandPayload\<close> would refuse one outside 0 to 100.\<close>

theorem volume_commands_valid:
  assumes ok: "dict_ok (pg_players g)" "volumes_ok (player_volumes g)"
    and player: "(i, p) \<in> set (pg_players g)" "(i, p') \<in> set (pg_players (set_group_volume fl envs level g))"
  shows "p' = p \<or> (\<exists>v. 0 \<le> v \<and> v \<le> 100 \<and> wire p' = wire p @ [VolumeCommand v])"
proof (cases "player_volumes g = []")
  case True
  then have "p' = p" using ok(1) player by (simp add: set_group_volume_def Let_def dict_ok_values)
  then show ?thesis by simp
next
  case False
  let ?xs = "redistributed fl (max 0 (min 100 level)) (player_volumes g)"
  let ?m = "map_of (zip (volume_players g) ?xs)"
  obtain q where q: "(i, q) \<in> set (pg_players g)"
      "p' = (case ?m i of Some v \<Rightarrow> set_volume (envs i) (py_round v) q | None \<Rightarrow> q)"
    using player(2) by (auto simp: set_group_volume_players [OF ok False])
  then have "q = p" using ok(1) player(1) by (simp add: dict_ok_values)
  show ?thesis
  proof (cases "?m i")
    case (Some v)
    then have "0 \<le> v \<and> v \<le> 100"
      using set_zip_right [OF Some] redistributed_range [OF ok(2)] by (auto simp: in_range100_def)
    then have "0 \<le> py_round v \<and> py_round v \<le> 100" using py_round_range by blast
    then show ?thesis using Some q(2) \<open>q = p\<close> by (auto simp: set_volume_def send_def)
  qed (use q(2) \<open>q = p\<close> in simp)
qed

subsection \<open>A sample group\<close>

definition sample_settable :: "int \<Rightarrow> player" where
  "sample_settable v = new_player (new_persistent\<lparr>pl_volume := v, commands := [CMD_VOLUME]\<rparr>)"

definition sample_group :: player_group where
  "sample_group = new_player_group\<lparr>pg_players := [(1, sample_settable 50), (2, sample_settable 100)]\<rparr>"

lemma sample_group_ok:
  "dict_ok (pg_players sample_group)" "player_volumes sample_group = [50, 100]"
  by (simp_all add: sample_group_def new_player_group_def dict_ok_def player_volumes_def sample_settable_def
      List.map_filter_simps get_player_volume_def new_player_def new_persistent_def)

theorem group_volume_reached_witness:
  "\<bar>group_volume exact (all_obey (set_group_volume exact (\<lambda>i. sample_env) 90 sample_group)) - 90\<bar> \<le> 1 \<and>
   redistributed exact 90 [50, 100] = [80, 100]"
proof
  show "\<bar>group_volume exact (all_obey (set_group_volume exact (\<lambda>i. sample_env) 90 sample_group)) - 90\<bar> \<le> 1"
    using group_volume_reached [of sample_group "\<lambda>i. sample_env" 90] sample_group_ok
    by (simp add: volumes_ok_def sample_env_def)
  show "redistributed exact 90 [50, 100] = [80, 100]" by code_simp
qed

theorem volume_commands_valid_witness:
  "\<exists>p'. (1, p') \<in> set (pg_players (set_group_volume exact (\<lambda>i. sample_env) 90 sample_group)) \<and>
     (p' = sample_settable 50 \<or> (\<exists>v. 0 \<le> v \<and> v \<le> 100 \<and> wire p' = wire (sample_settable 50) @ [VolumeCommand v]))"
proof -
  have "volumes_ok (player_volumes sample_group)" using sample_group_ok(2) by (simp add: volumes_ok_def)
  note valid = volume_commands_valid [OF sample_group_ok(1) this]
  obtain p' where p': "(1, p') \<in> set (pg_players (set_group_volume exact (\<lambda>i. sample_env) 90 sample_group))"
    using sample_group_ok
    by (auto simp: set_group_volume_players volumes_ok_def sample_group_def)
  have "(1, sample_settable 50) \<in> set (pg_players sample_group)"
    by (simp add: sample_group_def)
  from valid [OF this p'] p' show ?thesis by blast
qed

end
