(* ===== verification/Controller_Group.thy ===== *)
theory Controller_Group
  imports Group_Volume
begin

text \<open>
  The controller group role (\<open>server/roles/controller/group.py\<close>, \<open>models/controller.py\<close>) together
  with the player group role it reads: the group's volume, mute and supported commands as every
  controller of the group sees them. A \<open>room\<close> is the state both roles keep for one group; its
  operations are the entry points of both, with the calls between them. The position of the track is
  the argument \<open>position\<close>, \<open>None\<close> when the group has no metadata role or it is unknown.
\<close>

subsection \<open>Messages\<close>

datatype media_command =
    PLAY | PAUSE | STOP | NEXT | PREVIOUS | VOLUME | MUTE | REPEAT_OFF | REPEAT_ONE | REPEAT_ALL
  | SHUFFLE | UNSHUFFLE | SWITCH | SEEK | SEEK_RELATIVE

definition media_commands :: "media_command list" where
  "media_commands = [PLAY, PAUSE, STOP, NEXT, PREVIOUS, VOLUME, MUTE, REPEAT_OFF, REPEAT_ONE, REPEAT_ALL,
     SHUFFLE, UNSHUFFLE, SWITCH, SEEK, SEEK_RELATIVE]"

datatype repeat = RepeatOff | RepeatOne | RepeatAll

record command_payload =
  cc_command :: media_command
  cc_volume :: "int option"
  cc_mute :: "bool option"
  cc_position_ms :: "int option"
  cc_offset_ms :: "int option"

text \<open>\<open>ControllerCommandPayload.__post_init__\<close>.\<close>

definition command_payload_valid :: "command_payload \<Rightarrow> bool" where
  "command_payload_valid c \<longleftrightarrow>
     (if cc_command c = VOLUME then (case cc_volume c of None \<Rightarrow> False | Some v \<Rightarrow> 0 \<le> v \<and> v \<le> 100)
      else cc_volume c = None) \<and>
     (if cc_command c = MUTE then cc_mute c \<noteq> None else cc_mute c = None) \<and>
     (if cc_command c = SEEK
      then (case cc_position_ms c of None \<Rightarrow> False | Some p \<Rightarrow> 0 \<le> p) \<and> cc_offset_ms c = None
      else if cc_command c = SEEK_RELATIVE then cc_offset_ms c \<noteq> None \<and> cc_position_ms c = None
      else cc_position_ms c = None \<and> cc_offset_ms c = None)"

record controller_state =
  cs_supported :: "media_command list"
  cs_volume :: int
  cs_muted :: bool
  cs_repeat :: repeat
  cs_shuffle :: bool
  cs_seek_max_ms :: "int option"

datatype controller_event =
    PlayEvent | PauseEvent | StopEvent | NextEvent | PreviousEvent | VolumeEvent int | MuteEvent bool
  | SwitchEvent | RepeatEvent repeat | SeekEvent int | SeekRelativeEvent int | ShuffleEvent bool

subsection \<open>State\<close>

text \<open>The six \<open>_last_sent_*\<close> attributes are set together, so that they are one optional state. A
  controller member is its client's number and whether it has a transport.\<close>

record room =
  room_players :: player_group
  c_supported :: "media_command list"
  c_repeat :: repeat
  c_shuffle :: bool
  c_seek_max_ms :: "int option"
  c_last_sent :: "controller_state option"
  c_members :: "(nat \<times> bool) list"
  c_watched :: "nat list"
  c_sent :: "(nat \<times> controller_state) list"
  c_events :: "controller_event list"
  c_restated :: nat

definition new_room :: room where
  "new_room = \<lparr>room_players = new_player_group, c_supported = [], c_repeat = RepeatOff, c_shuffle = False,
     c_seek_max_ms = None, c_last_sent = None, c_members = [], c_watched = [], c_sent = [], c_events = [],
     c_restated = 0\<rparr>"

definition c_volume :: "(rat \<Rightarrow> rat) \<Rightarrow> room \<Rightarrow> int" where
  "c_volume fl r = (case get_group_volume fl (room_players r) of Some v \<Rightarrow> v | None \<Rightarrow> 100)"

definition c_muted :: "room \<Rightarrow> bool" where
  "c_muted r = (case get_group_muted (room_players r) of Some m \<Rightarrow> m | None \<Rightarrow> False)"

definition get_supported_commands :: "(rat \<Rightarrow> rat) \<Rightarrow> room \<Rightarrow> media_command list" where
  "get_supported_commands fl r =
     (let cmds = {VOLUME, MUTE, SWITCH} \<union> set (c_supported r);
          cmds = (if get_group_volume fl (room_players r) = None then cmds - {VOLUME} else cmds);
          cmds = (if get_group_muted (room_players r) = None then cmds - {MUTE} else cmds);
          cmds = (if c_seek_max_ms r = None then cmds - {SEEK} else cmds)
      in filter (\<lambda>c. c \<in> cmds) media_commands)"

definition current_controller :: "(rat \<Rightarrow> rat) \<Rightarrow> room \<Rightarrow> controller_state" where
  "current_controller fl r =
     \<lparr>cs_supported = get_supported_commands fl r, cs_volume = c_volume fl r, cs_muted = c_muted r,
      cs_repeat = c_repeat r, cs_shuffle = c_shuffle r, cs_seek_max_ms = c_seek_max_ms r\<rparr>"

subsection \<open>Publishing\<close>

definition send_state :: "controller_state \<Rightarrow> nat \<times> bool \<Rightarrow> room \<Rightarrow> room" where
  "send_state m member r = (if snd member then r\<lparr>c_sent := c_sent r @ [(fst member, m)]\<rparr> else r)"

definition push_state :: "(rat \<Rightarrow> rat) \<Rightarrow> room \<Rightarrow> room" where
  "push_state fl r =
     (let m = current_controller fl r in
      if c_last_sent r = Some m then r
      else foldl (\<lambda>r member. send_state m member r) (r\<lparr>c_last_sent := Some m\<rparr>) (c_members r))"

definition controller_joins :: "(rat \<Rightarrow> rat) \<Rightarrow> nat \<times> bool \<Rightarrow> room \<Rightarrow> room" where
  "controller_joins fl member r =
     (if fst member \<in> fst ` set (c_members r) then r
      else send_state (current_controller fl r) member (r\<lparr>c_members := c_members r @ [member]\<rparr>))"

definition controller_leaves :: "nat \<Rightarrow> room \<Rightarrow> room" where
  "controller_leaves i r = r\<lparr>c_members := filter (\<lambda>m. fst m \<noteq> i) (c_members r)\<rparr>"

subsection \<open>Operations\<close>

definition c_set_volume :: "(rat \<Rightarrow> rat) \<Rightarrow> (nat \<Rightarrow> player_env) \<Rightarrow> int \<Rightarrow> room \<Rightarrow> room" where
  "c_set_volume fl envs level r =
     push_state fl (r\<lparr>room_players := set_group_volume fl envs level (room_players r)\<rparr>)"

definition c_set_mute :: "(rat \<Rightarrow> rat) \<Rightarrow> (nat \<Rightarrow> player_env) \<Rightarrow> bool \<Rightarrow> room \<Rightarrow> room" where
  "c_set_mute fl envs m r = push_state fl (r\<lparr>room_players := set_group_muted envs m (room_players r)\<rparr>)"

text \<open>\<open>c_restated\<close> counts the calls of \<open>_restate_legacy_metadata\<close>.\<close>

definition set_repeat :: "(rat \<Rightarrow> rat) \<Rightarrow> repeat \<Rightarrow> room \<Rightarrow> room" where
  "set_repeat fl mode r =
     (let r' = push_state fl (r\<lparr>c_repeat := mode\<rparr>) in
      if mode \<noteq> c_repeat r then r'\<lparr>c_restated := Suc (c_restated r')\<rparr> else r')"

definition set_shuffle :: "(rat \<Rightarrow> rat) \<Rightarrow> bool \<Rightarrow> room \<Rightarrow> room" where
  "set_shuffle fl shuffle r =
     (let r' = push_state fl (r\<lparr>c_shuffle := shuffle\<rparr>) in
      if shuffle \<noteq> c_shuffle r then r'\<lparr>c_restated := Suc (c_restated r')\<rparr> else r')"

definition set_supported_commands :: "(rat \<Rightarrow> rat) \<Rightarrow> media_command list \<Rightarrow> room \<Rightarrow> room" where
  "set_supported_commands fl cmds r = push_state fl (r\<lparr>c_supported := cmds\<rparr>)"

text \<open>A negative bound raises \<open>ValueError\<close> and changes nothing.\<close>

definition set_seek_max_ms :: "(rat \<Rightarrow> rat) \<Rightarrow> int option \<Rightarrow> room \<Rightarrow> room option" where
  "set_seek_max_ms fl v r =
     (if (case v of Some x \<Rightarrow> x < 0 | None \<Rightarrow> False) then None
      else Some (push_state fl (r\<lparr>c_seek_max_ms := v\<rparr>)))"

definition emit_event :: "controller_event \<Rightarrow> room \<Rightarrow> room" where
  "emit_event e r = r\<lparr>c_events := c_events r @ [e]\<rparr>"

definition clamp_seek_offset :: "int option \<Rightarrow> int option \<Rightarrow> int \<Rightarrow> int" where
  "clamp_seek_offset position seek_max offset =
     (case position of
        None \<Rightarrow> offset
      | Some p \<Rightarrow>
          let target = max 0 (p + offset);
              target = (case seek_max of
                  Some m \<Rightarrow> min target (if offset < 0 then m else max p m)
                | None \<Rightarrow> target)
          in target - p)"

fun command_to_event :: "media_command \<Rightarrow> controller_event option" where
  "command_to_event PLAY = Some PlayEvent"
| "command_to_event PAUSE = Some PauseEvent"
| "command_to_event STOP = Some StopEvent"
| "command_to_event NEXT = Some NextEvent"
| "command_to_event PREVIOUS = Some PreviousEvent"
| "command_to_event SWITCH = Some SwitchEvent"
| "command_to_event REPEAT_OFF = Some (RepeatEvent RepeatOff)"
| "command_to_event REPEAT_ONE = Some (RepeatEvent RepeatOne)"
| "command_to_event REPEAT_ALL = Some (RepeatEvent RepeatAll)"
| "command_to_event SHUFFLE = Some (ShuffleEvent True)"
| "command_to_event UNSHUFFLE = Some (ShuffleEvent False)"
| "command_to_event _ = None"

definition handle_command ::
  "(rat \<Rightarrow> rat) \<Rightarrow> (nat \<Rightarrow> player_env) \<Rightarrow> int option \<Rightarrow> command_payload \<Rightarrow> room \<Rightarrow> room" where
  "handle_command fl envs position c r =
     (if cc_command c \<notin> set (get_supported_commands fl r) then r
      else if cc_command c = VOLUME \<and> cc_volume c \<noteq> None
      then emit_event (VolumeEvent (the (cc_volume c))) (c_set_volume fl envs (the (cc_volume c)) r)
      else if cc_command c = MUTE \<and> cc_mute c \<noteq> None
      then emit_event (MuteEvent (the (cc_mute c))) (c_set_mute fl envs (the (cc_mute c)) r)
      else if cc_command c = SEEK
      then (case (c_seek_max_ms r, cc_position_ms c) of
              (Some m, Some p) \<Rightarrow> if 0 \<le> p \<and> p \<le> m then emit_event (SeekEvent p) r else r
            | _ \<Rightarrow> r)
      else if cc_command c = SEEK_RELATIVE
      then (case cc_offset_ms c of
              None \<Rightarrow> r
            | Some off \<Rightarrow> emit_event (SeekRelativeEvent (clamp_seek_offset position (c_seek_max_ms r) off)) r)
      else (case command_to_event (cc_command c) of None \<Rightarrow> r | Some e \<Rightarrow> emit_event e r))"

text \<open>\<open>on_client_added\<close> and \<open>on_client_removed\<close> of both roles.\<close>

definition client_added :: "(rat \<Rightarrow> rat) \<Rightarrow> nat \<Rightarrow> bool \<Rightarrow> room \<Rightarrow> room" where
  "client_added fl i has_player r =
     (let r = r\<lparr>room_players := on_client_added fl i has_player (room_players r)\<rparr> in
      if i \<in> set (c_watched r) then r
      else if \<not> has_player then r
      else r\<lparr>c_watched := c_watched r @ [i]\<rparr>)"

definition client_removed :: "nat \<Rightarrow> room \<Rightarrow> room" where
  "client_removed i r =
     r\<lparr>room_players := on_client_removed i (room_players r), c_watched := removeAll i (c_watched r)\<rparr>"

text \<open>Membership of the player role: \<open>_on_membership_changed\<close> ends by pushing the controller state.\<close>

definition player_in :: "(rat \<Rightarrow> rat) \<Rightarrow> nat \<Rightarrow> player \<Rightarrow> room \<Rightarrow> room" where
  "player_in fl i p r =
     (if i \<in> set (map fst (pg_players (room_players r))) then r
      else push_state fl (r\<lparr>room_players := player_joins fl i p (room_players r)\<rparr>))"

definition player_out :: "(rat \<Rightarrow> rat) \<Rightarrow> nat \<Rightarrow> room \<Rightarrow> room" where
  "player_out fl i r =
     (if i \<in> set (map fst (pg_players (room_players r)))
      then push_state fl (r\<lparr>room_players := player_leaves fl i (room_players r)\<rparr>)
      else r)"

text \<open>A player's \<open>client/state\<close>: both roles listen to the \<open>VolumeChangedEvent\<close> it may emit.\<close>

definition player_state :: "(rat \<Rightarrow> rat) \<Rightarrow> player_env \<Rightarrow> nat \<Rightarrow> player_state_payload \<Rightarrow> room \<Rightarrow> room" where
  "player_state fl env i payload r =
     (case dget (pg_players (room_players r)) i of
        None \<Rightarrow> r
      | Some p \<Rightarrow>
          let r = r\<lparr>room_players := player_reports fl env i payload (room_players r)\<rparr> in
          if length (log p) < length (log (apply_state_volume env payload p)) \<and> i \<in> set (c_watched r)
          then push_state fl r else r)"

subsection \<open>Publishing a state when it changed\<close>

text \<open>The contract of a publisher: \<open>push\<close> sends the current value to its audience unless it is the
  value sent last.\<close>

locale publisher =
  fixes current :: "'s \<Rightarrow> 'v"
    and last_sent :: "'s \<Rightarrow> 'v option"
    and shown :: "'s \<Rightarrow> nat \<Rightarrow> 'v option"
    and audience :: "'s \<Rightarrow> nat set"
    and push :: "'s \<Rightarrow> 's"
  assumes push_current: "current (push s) = current s"
    and push_last: "last_sent (push s) = Some (current s)"
    and push_audience: "audience (push s) = audience s"
    and push_shown: "i \<in> audience s \<Longrightarrow>
      shown (push s) i = (if last_sent s = Some (current s) then shown s i else Some (current s))"
begin

definition in_sync :: "'s \<Rightarrow> bool" where
  "in_sync s \<longleftrightarrow> (\<forall>i\<in>audience s. shown s i = Some (current s)) \<and>
     (last_sent s = None \<or> last_sent s = Some (current s))"

definition same_view :: "'s \<Rightarrow> 's \<Rightarrow> bool" where
  "same_view s s' \<longleftrightarrow> audience s' = audience s \<and> shown s' = shown s \<and> last_sent s' = last_sent s"

lemma push_sync: "in_sync s \<Longrightarrow> same_view s s' \<Longrightarrow> in_sync (push s')"
  by (auto simp: in_sync_def same_view_def push_current push_last push_audience push_shown)

text \<open>A push that sends shows the current value to everyone, whatever they were shown before.\<close>

lemma push_heals: "last_sent s \<noteq> Some (current s) \<Longrightarrow> in_sync (push s)"
  by (simp add: in_sync_def push_current push_last push_audience push_shown)

lemma quiet_sync: "in_sync s \<Longrightarrow> same_view s s' \<Longrightarrow> current s' = current s \<Longrightarrow> in_sync s'"
  by (simp add: in_sync_def same_view_def)

lemma join_sync:
  assumes "in_sync s" "current s' = current s" "last_sent s' = last_sent s"
    "audience s' \<subseteq> insert i (audience s)" "shown s' = (shown s)(i := Some (current s))"
  shows "in_sync s'"
  using assms by (auto simp: in_sync_def)

lemma leave_sync:
  assumes "in_sync s" "current s' = current s" "last_sent s' = last_sent s" "audience s' \<subseteq> audience s" "shown s' = shown s"
  shows "in_sync s'"
  using assms by (auto simp: in_sync_def)

end

definition shown_to :: "room \<Rightarrow> nat \<Rightarrow> controller_state option" where
  "shown_to r i = map_of (rev (c_sent r)) i"

definition controllers :: "room \<Rightarrow> nat set" where
  "controllers r = {i. (i, True) \<in> set (c_members r)}"

lemma current_cong:
  assumes "player_volumes (room_players r') = player_volumes (room_players r)"
    "player_mutes (room_players r') = player_mutes (room_players r)" "c_supported r' = c_supported r"
    "c_repeat r' = c_repeat r" "c_shuffle r' = c_shuffle r" "c_seek_max_ms r' = c_seek_max_ms r"
  shows "current_controller fl r' = current_controller fl r"
  using assms
  by (simp add: current_controller_def get_supported_commands_def c_volume_def c_muted_def
      get_group_volume_def get_group_muted_def)

lemma current_sent [simp]:
  "current_controller fl (r\<lparr>c_sent := x\<rparr>) = current_controller fl r"
  "current_controller fl (r\<lparr>c_last_sent := l\<rparr>) = current_controller fl r"
  "current_controller fl (r\<lparr>c_members := ms\<rparr>) = current_controller fl r"
  "current_controller fl (r\<lparr>c_events := es\<rparr>) = current_controller fl r"
  "current_controller fl (r\<lparr>c_watched := w\<rparr>) = current_controller fl r"
  "current_controller fl (r\<lparr>c_restated := n\<rparr>) = current_controller fl r"
  by (rule current_cong; simp)+

lemma send_all:
  "foldl (\<lambda>r member. send_state m member r) r ms =
     r\<lparr>c_sent := c_sent r @ map (\<lambda>(i, b). (i, m)) (filter snd ms)\<rparr>"
  by (induction ms arbitrary: r) (auto simp: send_state_def)

lemma shown_all:
  assumes "(i, True) \<in> set ms"
  shows "map_of (rev (xs @ map (\<lambda>(i, b). (i, m)) (filter snd ms))) i = Some m"
proof -
  have "(i, m) \<in> set (map (\<lambda>(i, b). (i, m)) (filter snd ms))"
    using assms by force
  then have "i \<in> dom (map_of (rev (map (\<lambda>(i, b). (i, m)) (filter snd ms))))"
    by (auto simp: dom_map_of_conv_image_fst intro!: rev_image_eqI)
  moreover have "y = m" if "map_of (rev (map (\<lambda>(i, b). (i, m)) (filter snd ms))) i = Some y" for y
    using map_of_SomeD [OF that] by auto
  ultimately show ?thesis by (auto simp: map_add_def split: option.split)
qed

text \<open>The controller \<open>k\<close> of a room, or nobody.\<close>

definition listens :: "nat \<Rightarrow> room \<Rightarrow> nat set" where
  "listens k r = controllers r \<inter> {k}"

interpretation controller: publisher "current_controller fl" c_last_sent shown_to "listens k" "push_state fl" for fl k
proof
  fix r :: room and i
  show "current_controller fl (push_state fl r) = current_controller fl r"
    by (simp add: push_state_def Let_def send_all)
  show "c_last_sent (push_state fl r) = Some (current_controller fl r)"
    by (simp add: push_state_def Let_def send_all)
  show "listens k (push_state fl r) = listens k r"
    by (simp add: push_state_def Let_def send_all controllers_def listens_def)
  show "shown_to (push_state fl r) i =
      (if c_last_sent r = Some (current_controller fl r) then shown_to r i else Some (current_controller fl r))"
    if "i \<in> listens k r"
  proof (cases "c_last_sent r = Some (current_controller fl r)")
    case False
    then have "c_sent (push_state fl r) =
        c_sent r @ map (\<lambda>(i, b). (i, current_controller fl r)) (filter snd (c_members r))"
      by (simp add: push_state_def Let_def send_all)
    then show ?thesis
      using False that shown_all [of i "c_members r" "c_sent r" "current_controller fl r"] unfolding controllers_def listens_def shown_to_def by auto
  qed (simp add: push_state_def Let_def shown_to_def)
qed

subsection \<open>What happens to a room\<close>

text \<open>One entry point of the two roles, with what it can hide from the controllers. \<open>Unheard\<close>: a player the
  group does not listen to reports a change (a role gained by a hello sent again is not registered for
  events). \<open>Attached\<close>: a controller that was subscribed without a transport gets one, without
  \<open>on_connect\<close> and so without being sent the state (\<open>attach_preinitialized_roles\<close> before
  \<open>attach_connection\<close>). What else a player role does leaves its volume aggregates alone.\<close>

datatype spot = Seen | Unheard | Attached nat

definition state_spot :: "player_env \<Rightarrow> nat \<Rightarrow> player_state_payload \<Rightarrow> room \<Rightarrow> spot" where
  "state_spot env i payload r =
     (case dget (pg_players (room_players r)) i of
        None \<Rightarrow> Seen
      | Some p \<Rightarrow> if length (log p) < length (log (apply_state_volume env payload p)) \<and> i \<notin> set (c_watched r)
                  then Unheard else Seen)"

text \<open>\<open>_connect_active_roles\<close> reuses the subscribed role.\<close>

definition controller_attaches :: "nat \<Rightarrow> room \<Rightarrow> room" where
  "controller_attaches i r = r\<lparr>c_members := map (\<lambda>(j, b). (j, b \<or> j = i)) (c_members r)\<rparr>"

inductive room_step :: "(rat \<Rightarrow> rat) \<Rightarrow> room \<Rightarrow> spot \<Rightarrow> room \<Rightarrow> bool" for fl r where
  set_vol: "room_step fl r Seen (c_set_volume fl envs level r)"
| set_mut: "room_step fl r Seen (c_set_mute fl envs m r)"
| rep: "room_step fl r Seen (set_repeat fl mode r)"
| shuf: "room_step fl r Seen (set_shuffle fl b r)"
| supported: "room_step fl r Seen (set_supported_commands fl cmds r)"
| seek_max: "set_seek_max_ms fl v r = Some r' \<Longrightarrow> room_step fl r Seen r'"
| command: "room_step fl r Seen (handle_command fl envs position c r)"
| controller_in: "room_step fl r Seen (controller_joins fl member r)"
| controller_out: "room_step fl r Seen (controller_leaves i r)"
| attached: "room_step fl r (Attached i) (controller_attaches i r)"
| client_in: "room_step fl r Seen (client_added fl i b r)"
| client_out: "room_step fl r Seen (client_removed i r)"
| player_in: "room_step fl r Seen (player_in fl i p r)"
| player_out: "room_step fl r Seen (player_out fl i r)"
| state: "room_step fl r (state_spot env i payload r) (player_state fl env i payload r)"
| other: "dget (pg_players (room_players r)) i = Some p \<Longrightarrow> get_player_volume p' = get_player_volume p \<Longrightarrow>
    get_player_muted p' = get_player_muted p \<Longrightarrow>
    room_step fl r Seen (r\<lparr>room_players := on_player i (\<lambda>_. p') (room_players r)\<rparr>)"

inductive room_run :: "(rat \<Rightarrow> rat) \<Rightarrow> room \<Rightarrow> spot list \<Rightarrow> room \<Rightarrow> bool" for fl r where
  none: "room_run fl r [] r"
| more: "room_run fl r ls r' \<Longrightarrow> room_step fl r' l r'' \<Longrightarrow> room_run fl r (ls @ [l]) r''"

lemma recompute_players [simp]: "pg_players (recompute_and_emit fl g) = pg_players g"
  by (simp add: recompute_and_emit_def Let_def split: option.split)

lemma volumes_cong: "pg_players g' = pg_players g \<Longrightarrow> player_volumes g' = player_volumes g \<and> player_mutes g' = player_mutes g"
  by (simp add: player_volumes_def player_mutes_def)

lemma map_filter_map:
  "(\<And>x. x \<in> set xs \<Longrightarrow> f (g x) = f x) \<Longrightarrow> List.map_filter f (map g xs) = List.map_filter f xs"
  by (induction xs) (auto simp: List.map_filter_simps split: option.split)

lemma on_player_volumes:
  assumes "\<And>p. (i, p) \<in> set (pg_players g) \<Longrightarrow> get_player_volume (f p) = get_player_volume p"
    "\<And>p. (i, p) \<in> set (pg_players g) \<Longrightarrow> get_player_muted (f p) = get_player_muted p"
  shows "player_volumes (on_player i f g) = player_volumes g" "player_mutes (on_player i f g) = player_mutes g"
  unfolding player_volumes_def player_mutes_def on_player_def
  using assms by (auto intro!: map_filter_map)

lemma command_keeps_volume [simp]:
  "get_player_volume (set_volume env v p) = get_player_volume p" "get_player_muted (set_volume env v p) = get_player_muted p"
  "get_player_volume (set_mute env m p) = get_player_volume p" "get_player_muted (set_mute env m p) = get_player_muted p"
  by (simp_all add: get_player_volume_def get_player_muted_def set_volume_def set_mute_def send_def)

lemma set_volume_volumes:
  "player_volumes (set_group_volume fl envs level g) = player_volumes g"
  "player_mutes (set_group_volume fl envs level g) = player_mutes g"
proof -
  have "player_volumes (foldl (\<lambda>g (i, v). on_player i (set_volume (envs i) (py_round v)) g) g ps) = player_volumes g \<and>
    player_mutes (foldl (\<lambda>g (i, v). on_player i (set_volume (envs i) (py_round v)) g) g ps) = player_mutes g" for ps
    by (induction ps arbitrary: g) (auto simp: on_player_volumes)
  then show "player_volumes (set_group_volume fl envs level g) = player_volumes g"
    "player_mutes (set_group_volume fl envs level g) = player_mutes g"
    by (simp_all add: set_group_volume_def Let_def)
qed

lemma set_muted_volumes:
  "player_volumes (set_group_muted envs m g) = player_volumes g"
  "player_mutes (set_group_muted envs m g) = player_mutes g"
  unfolding player_volumes_def player_mutes_def set_group_muted_def by (auto intro!: map_filter_map)

text \<open>Without an event the report changed nothing the group aggregates.\<close>

lemma stored_log: "log (snd (store_state_volume env payload p)) = log p"
  by (simp add: store_state_volume_def Let_def upd_def split: option.split)

lemma no_event_no_change:
  assumes "\<not> length (log p) < length (log (apply_state_volume env payload p))"
  shows "get_player_volume (apply_state_volume env payload p) = get_player_volume p"
    "get_player_muted (apply_state_volume env payload p) = get_player_muted p"
  using assms stored_log [of env payload p]
  by (auto simp: apply_state_volume_def eff_def split: prod.splits if_splits)

lemma same_view_simps [simp]:
  "controller.same_view k r (r\<lparr>room_players := g\<rparr>)" "controller.same_view k r (r\<lparr>c_repeat := m\<rparr>)"
  "controller.same_view k r (r\<lparr>c_shuffle := b\<rparr>)" "controller.same_view k r (r\<lparr>c_supported := cmds\<rparr>)"
  "controller.same_view k r (r\<lparr>c_seek_max_ms := v\<rparr>)" "controller.same_view k r (r\<lparr>c_restated := n\<rparr>)"
  "controller.same_view k r (r\<lparr>c_events := es\<rparr>)" "controller.same_view k r (r\<lparr>c_watched := w\<rparr>)"
  by (simp_all add: controller.same_view_def controllers_def listens_def shown_to_def fun_eq_iff)

lemma current_players:
  assumes "player_volumes g = player_volumes (room_players r)" "player_mutes g = player_mutes (room_players r)"
  shows "current_controller fl (r\<lparr>room_players := g\<rparr>) = current_controller fl r"
  using assms by (intro current_cong) simp_all

lemma event_sync: "controller.in_sync fl k r \<Longrightarrow> controller.in_sync fl k (emit_event e r)"
  by (erule controller.quiet_sync) (simp_all add: emit_event_def)

lemma restated_sync: "controller.in_sync fl k r \<Longrightarrow> controller.in_sync fl k (r\<lparr>c_restated := n\<rparr>)"
  by (erule controller.quiet_sync) simp_all

lemma volume_sync:
  "controller.in_sync fl k r \<Longrightarrow> controller.in_sync fl k (c_set_volume fl envs level r)"
  "controller.in_sync fl k r \<Longrightarrow> controller.in_sync fl k (c_set_mute fl envs m r)"
  by (simp_all add: c_set_volume_def c_set_mute_def controller.push_sync)

lemma command_sync: "controller.in_sync fl k r \<Longrightarrow> controller.in_sync fl k (handle_command fl envs position c r)"
  by (simp add: handle_command_def event_sync volume_sync split: option.split)

lemma push_same: "controller.in_sync fl k r \<Longrightarrow> controller.in_sync fl k (push_state fl r)"
  by (erule controller.push_sync) (simp add: controller.same_view_def)

lemma repeat_sync:
  "controller.in_sync fl k r \<Longrightarrow> controller.in_sync fl k (set_repeat fl mode r)"
  "controller.in_sync fl k r \<Longrightarrow> controller.in_sync fl k (set_shuffle fl b r)"
  using push_same by (simp_all add: set_repeat_def set_shuffle_def Let_def restated_sync controller.push_sync)

lemma joins_sync:
  assumes "controller.in_sync fl k r"
  shows "controller.in_sync fl k (controller_joins fl member r)"
proof (cases "fst member \<in> fst ` set (c_members r)")
  case False
  obtain i b where member: "member = (i, b)" by (cases member)
  show ?thesis
  proof (cases b)
    case True
    show ?thesis
      by (rule controller.join_sync [OF assms, of _ i])
         (use False True in \<open>auto simp: controller_joins_def member send_state_def controllers_def listens_def shown_to_def\<close>)
  next
    case False
    show ?thesis
      by (rule controller.leave_sync [OF assms])
         (use False in \<open>auto simp: controller_joins_def member send_state_def controllers_def listens_def shown_to_def\<close>)
  qed
qed (use assms in \<open>simp add: controller_joins_def\<close>)

lemma leaves_sync: "controller.in_sync fl k r \<Longrightarrow> controller.in_sync fl k (controller_leaves i r)"
  by (rule controller.leave_sync [of fl k r]) (auto simp: controller_leaves_def controllers_def listens_def shown_to_def)

lemma client_sync:
  "controller.in_sync fl k r \<Longrightarrow> controller.in_sync fl k (client_added fl i b r)"
  "controller.in_sync fl k r \<Longrightarrow> controller.in_sync fl k (client_removed i r)"
proof -
  assume sync: "controller.in_sync fl k r"
  have added: "pg_players (on_client_added fl i b g) = pg_players g" for g
    by (simp add: on_client_added_def Let_def)
  have "current_controller fl (r\<lparr>room_players := on_client_added fl i b (room_players r)\<rparr>) = current_controller fl r"
    by (rule current_players) (simp_all add: volumes_cong [OF added])
  then show "controller.in_sync fl k (client_added fl i b r)"
    by (intro controller.quiet_sync [OF sync])
       (auto simp: client_added_def Let_def controller.same_view_def controllers_def listens_def shown_to_def fun_eq_iff)
  have "current_controller fl (r\<lparr>room_players := on_client_removed i (room_players r)\<rparr>) = current_controller fl r"
    using volumes_cong [of "on_client_removed i (room_players r)" "room_players r"]
    by (intro current_players) (simp_all add: on_client_removed_def)
  then show "controller.in_sync fl k (client_removed i r)"
    by (intro controller.quiet_sync [OF sync])
       (auto simp: client_removed_def controller.same_view_def controllers_def listens_def shown_to_def fun_eq_iff)
qed

lemma player_state_sync:
  assumes sync: "controller.in_sync fl k r" and heard: "state_spot env i payload r \<noteq> Unheard" and dict: "dict_ok (pg_players (room_players r))"
  shows "controller.in_sync fl k (player_state fl env i payload r)"
proof (cases "dget (pg_players (room_players r)) i")
  case (Some p)
  let ?r = "r\<lparr>room_players := player_reports fl env i payload (room_players r)\<rparr>"
  show ?thesis
  proof (cases "length (log p) < length (log (apply_state_volume env payload p))")
    case True
    then show ?thesis
      using Some heard controller.push_sync [OF sync, of ?r] by (simp add: player_state_def state_spot_def split: if_splits)
  next
    case False
    have only: "q = p" if "(i, q) \<in> set (pg_players (room_players r))" for q
      using that Some dict by (simp add: dict_ok_values)
    let ?g = "on_player i (\<lambda>_. apply_state_volume env payload p) (room_players r)"
    have "player_volumes ?g = player_volumes (room_players r)" "player_mutes ?g = player_mutes (room_players r)"
      using no_event_no_change [OF False] only by (auto intro!: on_player_volumes)
    then have "current_controller fl ?r = current_controller fl r"
      using Some False by (intro current_players) (simp_all add: player_reports_def)
    then show ?thesis
      using Some False controller.quiet_sync [OF sync, of ?r] by (simp add: player_state_def)
  qed
qed (use sync in \<open>simp add: player_state_def\<close>)

lemma players_update [simp]:
  "room_players (push_state fl r) = room_players r" "room_players (emit_event e r) = room_players r"
  "room_players (controller_joins fl member r) = room_players r"
  by (simp add: push_state_def Let_def send_all)
     (simp_all add: emit_event_def controller_joins_def send_state_def)

lemma on_player_dict: "dict_ok (pg_players g) \<Longrightarrow> dict_ok (pg_players (on_player i f g))"
  by (simp add: on_player_def dict_ok_def comp_def split_def)

lemma set_group_dict:
  assumes "dict_ok (pg_players g)"
  shows "dict_ok (pg_players (set_group_volume fl envs level g))" "dict_ok (pg_players (set_group_muted envs m g))"
proof -
  have "dict_ok (pg_players (foldl (\<lambda>g (i, v). on_player i (set_volume (envs i) (py_round v)) g) g ps))" for ps
    using assms by (induction ps arbitrary: g) (auto simp: on_player_dict)
  then show "dict_ok (pg_players (set_group_volume fl envs level g))"
    using assms by (simp add: set_group_volume_def Let_def)
  show "dict_ok (pg_players (set_group_muted envs m g))"
    using assms by (simp add: set_group_muted_def dict_ok_def comp_def split_def)
qed

lemma volume_dict:
  "dict_ok (pg_players (room_players r)) \<Longrightarrow> dict_ok (pg_players (room_players (c_set_volume fl envs level r)))"
  "dict_ok (pg_players (room_players r)) \<Longrightarrow> dict_ok (pg_players (room_players (c_set_mute fl envs m r)))"
  by (simp_all add: c_set_volume_def c_set_mute_def set_group_dict)

lemma command_dict:
  "dict_ok (pg_players (room_players r)) \<Longrightarrow>
   dict_ok (pg_players (room_players (handle_command fl envs position c r)))"
  by (simp add: handle_command_def volume_dict split: option.split)

lemma member_dict:
  assumes "dict_ok (pg_players (room_players r))"
  shows "dict_ok (pg_players (room_players (player_in fl i p r)))" "dict_ok (pg_players (room_players (player_out fl i r)))"
    "dict_ok (pg_players (room_players (player_state fl env i payload r)))"
  using assms
  by (simp_all add: player_in_def player_out_def player_joins_def player_leaves_def player_state_def player_reports_def
      on_player_dict Let_def filter_dict_ok split: option.split)
     (simp add: dict_ok_def)

lemma other_dict:
  assumes "dict_ok (pg_players (room_players r))"
  shows "dict_ok (pg_players (room_players (set_repeat fl mode r)))" "dict_ok (pg_players (room_players (set_shuffle fl b r)))"
    "dict_ok (pg_players (room_players (set_supported_commands fl cmds r)))"
    "dict_ok (pg_players (room_players (controller_joins fl member r)))"
    "dict_ok (pg_players (room_players (controller_leaves i r)))"
    "dict_ok (pg_players (room_players (client_added fl i b r)))" "dict_ok (pg_players (room_players (client_removed i r)))"
  using assms
  by (simp_all add: set_repeat_def set_shuffle_def set_supported_commands_def controller_leaves_def client_added_def
      on_client_added_def client_removed_def on_client_removed_def Let_def)

lemma member_sync:
  assumes "controller.in_sync fl k r"
  shows "controller.in_sync fl k (player_in fl i p r)" "controller.in_sync fl k (player_out fl i r)"
    "controller.in_sync fl k (set_supported_commands fl cmds r)"
  using assms by (simp_all add: player_in_def player_out_def set_supported_commands_def controller.push_sync)

lemma other_volumes:
  assumes "dict_ok (pg_players g)" "dget (pg_players g) i = Some p"
    "get_player_volume p' = get_player_volume p" "get_player_muted p' = get_player_muted p"
  shows "player_volumes (on_player i (\<lambda>_. p') g) = player_volumes g" "player_mutes (on_player i (\<lambda>_. p') g) = player_mutes g"
proof -
  have "q = p" if "(i, q) \<in> set (pg_players g)" for q
    using that assms(1,2) by (simp add: dict_ok_values)
  then show "player_volumes (on_player i (\<lambda>_. p') g) = player_volumes g" "player_mutes (on_player i (\<lambda>_. p') g) = player_mutes g"
    using assms(3,4) by (auto intro!: on_player_volumes)
qed

lemma attaches_current [simp]:
  "current_controller fl (controller_attaches i r) = current_controller fl r"
  "room_players (controller_attaches i r) = room_players r"
  by (simp_all add: controller_attaches_def)

lemma attaches_sync: "i \<noteq> k \<Longrightarrow> controller.in_sync fl k r \<Longrightarrow> controller.in_sync fl k (controller_attaches i r)"
  by (rule controller.leave_sync [of fl k r])
     (auto simp: controller_attaches_def controllers_def listens_def shown_to_def)

lemma room_step_dict:
  assumes "room_step fl r l r'" and dict: "dict_ok (pg_players (room_players r))"
  shows "dict_ok (pg_players (room_players r'))"
  using assms(1)
proof (cases rule: room_step.cases)
  case (seek_max v)
  then show ?thesis using dict by (auto simp: set_seek_max_ms_def split: if_splits)
next
  case (command envs position c)
  then show ?thesis using command_dict [OF dict] by simp
next
  case (other i p p')
  then show ?thesis using dict by (simp add: on_player_dict)
qed (use dict in \<open>simp_all only: volume_dict member_dict other_dict attaches_current\<close>)

lemma room_step_sync:
  assumes "room_step fl r l r'" "l \<noteq> Unheard" "l \<noteq> Attached k"
    and dict: "dict_ok (pg_players (room_players r))" and sync: "controller.in_sync fl k r"
  shows "controller.in_sync fl k r'"
  using assms(1)
proof (cases rule: room_step.cases)
  case (seek_max v)
  then show ?thesis using sync by (auto simp: set_seek_max_ms_def controller.push_sync split: if_splits)
next
  case (command envs position c)
  then show ?thesis using command_sync [OF sync] by simp
next
  case (state env i payload)
  then show ?thesis using player_state_sync [OF sync _ dict] assms(2) by metis
next
  case (attached i)
  then show ?thesis using attaches_sync [OF _ sync] assms(3) by blast
next
  case (other i p p')
  then have "current_controller fl r' = current_controller fl r"
    using current_players [OF other_volumes [OF dict other(3-5)]] by simp
  then show ?thesis using other controller.quiet_sync [OF sync, of r'] by simp
qed (use sync in \<open>simp_all only: volume_sync repeat_sync joins_sync leaves_sync client_sync member_sync\<close>)

subsection \<open>Properties\<close>

lemma room_run_dict:
  "room_run fl r ls r' \<Longrightarrow> dict_ok (pg_players (room_players r)) \<Longrightarrow> dict_ok (pg_players (room_players r'))"
  by (induction rule: room_run.induct) (simp_all add: room_step_dict)

lemma room_run_sync:
  "room_run fl r ls r' \<Longrightarrow> Unheard \<notin> set ls \<Longrightarrow> Attached k \<notin> set ls \<Longrightarrow> dict_ok (pg_players (room_players r)) \<Longrightarrow>
   controller.in_sync fl k r \<Longrightarrow> controller.in_sync fl k r'"
  by (induction rule: room_run.induct) (auto intro: room_step_sync dest: room_run_dict)

text \<open>The room was just published: an operation pushed a state other than the one sent last.\<close>

definition published :: "(rat \<Rightarrow> rat) \<Rightarrow> room \<Rightarrow> bool" where
  "published fl r \<longleftrightarrow> (\<exists>r0. c_last_sent r0 \<noteq> Some (current_controller fl r0) \<and> r = push_state fl r0)"

text \<open>C6. Every connected controller of a group shows the group's present volume, mute, supported
  commands, repeat, shuffle and seek range, whatever its players report and whoever joins or leaves, as
  long as no unregistered player reports a change and the controller's transport is not attached to a
  role subscribed before; and when either happened, from the next published change on.\<close>

theorem controllers_show_room:
  assumes "room_run fl new_room ls0 r0" and "r0 = new_room \<or> published fl r0"
    and "room_run fl r0 ls r" and "Unheard \<notin> set ls" and "Attached i \<notin> set ls"
    and "(i, True) \<in> set (c_members r)"
  shows "map_of (rev (c_sent r)) i = Some (current_controller fl r)"
proof -
  have dict: "dict_ok (pg_players (room_players r0))"
    by (rule room_run_dict [OF assms(1)]) (simp add: new_room_def new_player_group_def)
  have "controller.in_sync fl i r0"
    using assms(2) controller.push_heals
    by (auto simp: published_def controller.in_sync_def listens_def controllers_def new_room_def)
  then have "controller.in_sync fl i r"
    by (rule room_run_sync [OF assms(3-5) dict])
  then show ?thesis
    using assms(6) by (simp add: controller.in_sync_def listens_def controllers_def shown_to_def)
qed

text \<open>\<open>ControllerStatePayload\<close> documents \<open>seek_max_ms\<close> as set only when \<open>seek\<close> is supported. The group
  role sends the bound whether or not the application supports \<open>seek\<close>.\<close>

lemma seek_max_without_seek:
  "SEEK \<notin> set (c_supported r) \<Longrightarrow>
   SEEK \<notin> set (cs_supported (current_controller fl r)) \<and> cs_seek_max_ms (current_controller fl r) = c_seek_max_ms r"
  by (simp add: current_controller_def get_supported_commands_def Let_def)

text \<open>A relative seek lands between 0 and the bound, and never moves against its sign.\<close>

theorem seek_offset_clamped:
  assumes "0 \<le> p" "0 \<le> m"
  shows "0 \<le> p + clamp_seek_offset (Some p) (Some m) off \<and>
    (off < 0 \<longrightarrow> clamp_seek_offset (Some p) (Some m) off \<le> 0 \<and> p + clamp_seek_offset (Some p) (Some m) off \<le> m) \<and>
    (0 \<le> off \<longrightarrow> 0 \<le> clamp_seek_offset (Some p) (Some m) off \<and> clamp_seek_offset (Some p) (Some m) off \<le> off \<and>
       p + clamp_seek_offset (Some p) (Some m) off \<le> max p m)"
  using assms by (simp add: clamp_seek_offset_def Let_def min_def max_def)

definition sample_report :: "int \<Rightarrow> player_state_payload" where
  "sample_report v = \<lparr>ps_state = None, ps_volume = Some v, ps_muted = None, ps_output_delay_ms = None,
     ps_required_lead_time_ms = None, ps_min_buffer_ms = None, ps_commands = Some [CMD_VOLUME],
     ps_legacy_delay_key = None, ps_format = None, ps_ignored = None\<rparr>"

definition sample_room :: room where
  "sample_room = player_state exact sample_env 1 (sample_report 30)
     (client_added exact 1 True (player_in exact 1 (sample_settable 50) (controller_joins exact (7, True) new_room)))"

lemma sample_room_run: "room_run exact new_room [Seen, Seen, Seen, Seen] sample_room"
proof -
  let ?r = "client_added exact 1 True (player_in exact 1 (sample_settable 50) (controller_joins exact (7, True) new_room))"
  have "room_run exact new_room (([] @ [Seen]) @ [Seen]) (player_in exact 1 (sample_settable 50) (controller_joins exact (7, True) new_room))"
    by (rule more [OF more [OF none room_step.controller_in] room_step.player_in])
  then have "room_run exact new_room ((([] @ [Seen]) @ [Seen]) @ [Seen]) ?r"
    by (rule more) (rule room_step.client_in)
  moreover have "state_spot sample_env 1 (sample_report 30) ?r = Seen" by code_simp
  ultimately have "room_run exact new_room (((([] @ [Seen]) @ [Seen]) @ [Seen]) @ [Seen]) sample_room"
    unfolding sample_room_def using more [OF _ room_step.state] by metis
  then show ?thesis by simp
qed

text \<open>The two spots at which a controller goes stale. The group does not listen to player 1, whose report
  of 30 the controller never sees; the controller 7 gets its transport after it was subscribed.\<close>

definition unheard_room :: room where
  "unheard_room = player_state exact sample_env 1 (sample_report 30)
     (player_in exact 1 (sample_settable 50) (controller_joins exact (7, True) new_room))"

lemma unregistered_player_unheard:
  "map_option cs_volume (map_of (rev (c_sent unheard_room)) 7) = Some 50 \<and>
   cs_volume (current_controller exact unheard_room) = 30"
  by code_simp

lemma attached_controller_unsent:
  "map_of (rev (c_sent (controller_attaches 7 (controller_joins exact (7, False) new_room)))) 7 = None \<and>
   (7, True) \<in> set (c_members (controller_attaches 7 (controller_joins exact (7, False) new_room)))"
  by code_simp

text \<open>The unheard change, healed by a new seek range.\<close>

lemma unheard_room_run: "room_run exact new_room [Seen, Seen, Unheard] unheard_room"
proof -
  let ?r = "player_in exact 1 (sample_settable 50) (controller_joins exact (7, True) new_room)"
  have "room_run exact new_room (([] @ [Seen]) @ [Seen]) ?r"
    by (rule more [OF more [OF none room_step.controller_in] room_step.player_in])
  moreover have "state_spot sample_env 1 (sample_report 30) ?r = Unheard" by code_simp
  ultimately have "room_run exact new_room ((([] @ [Seen]) @ [Seen]) @ [Unheard]) unheard_room"
    unfolding unheard_room_def using more [OF _ room_step.state] by metis
  then show ?thesis by simp
qed

definition healed_room :: room where
  "healed_room = push_state exact (unheard_room\<lparr>c_seek_max_ms := Some 9\<rparr>)"

theorem controllers_show_room_witness:
  "map_of (rev (c_sent sample_room)) 7 = Some (current_controller exact sample_room) \<and>
   cs_volume (current_controller exact sample_room) = 30 \<and>
   map_of (rev (c_sent healed_room)) 7 = Some (current_controller exact healed_room)"
proof (intro conjI)
  have "(7, True) \<in> set (c_members sample_room)" by code_simp
  then show "map_of (rev (c_sent sample_room)) 7 = Some (current_controller exact sample_room)"
    using controllers_show_room [OF room_run.none _ sample_room_run] by simp
  show "cs_volume (current_controller exact sample_room) = 30" by code_simp
  have "set_seek_max_ms exact (Some 9) unheard_room = Some healed_room"
    by (simp add: set_seek_max_ms_def healed_room_def)
  then have run: "room_run exact new_room ([Seen, Seen, Unheard] @ [Seen]) healed_room"
    by (intro more [OF unheard_room_run] room_step.seek_max)
  have "c_last_sent (unheard_room\<lparr>c_seek_max_ms := Some 9\<rparr>) \<noteq>
      Some (current_controller exact (unheard_room\<lparr>c_seek_max_ms := Some 9\<rparr>))" by code_simp
  then have "published exact healed_room" unfolding published_def healed_room_def by blast
  moreover have "(7, True) \<in> set (c_members healed_room)" by code_simp
  ultimately show "map_of (rev (c_sent healed_room)) 7 = Some (current_controller exact healed_room)"
    using controllers_show_room [OF run _ room_run.none] by simp
qed

theorem seek_offset_clamped_witness:
  "0 \<le> 200 + clamp_seek_offset (Some 200) (Some 100) 50 \<and> clamp_seek_offset (Some 200) (Some 100) 50 = 0"
  using seek_offset_clamped [of 200 100 50] by (simp add: clamp_seek_offset_def)

end
