(* ===== verification/Client_Groups.thy ===== *)
theory Client_Groups
  imports Negotiation
begin

text \<open>
  Groups of clients on the server: \<open>server/group.py\<close>, the grouping part of \<open>server/client.py\<close> and the
  registry of \<open>server/server.py\<close>. Client and group objects live in two stores, by number, since each
  refers to the other; an object's number is its identity. \<open>u\<close> is \<open>str(uuid.uuid4())\<close>, the id drawn
  for the group that gets a number. Calls into roles, the push stream and event listeners are recorded
  in \<open>calls\<close>. None of the coroutines suspends between its steps (the playback lock is only held
  over synchronous code), so each is one operation.
\<close>

subsection \<open>Objects\<close>

datatype playback = PLAYING | PAUSED | STOPPED

text \<open>A role instance: its id, whether it has audio requirements, whether it takes audio before a
  connection.\<close>

record role_slot =
  rs_id :: string
  rs_audio :: bool
  rs_preconnect :: bool

text \<open>\<open>gc_conn\<close>: no connection, or one with its \<open>receives_group_updates\<close>.\<close>

record gclient =
  gc_id :: string
  gc_name :: string
  gc_negotiated :: "string list"
  gc_roles :: "role_slot list"
  gc_conn :: "bool option"
  gc_pre177 :: bool
  gc_connected :: bool
  gc_group :: nat
  gc_available :: bool
  gc_previous :: "string option"
  gc_leave_solo :: "string option"

text \<open>\<open>sg_stream\<close>: no push stream, or one with its \<open>is_stopped\<close>.\<close>

record sgroup =
  sg_id :: string
  sg_clients :: "nat list"
  sg_state :: playback
  sg_name :: "string option"
  sg_stream :: "bool option"

datatype gevent = StateChanged playback | MemberAdded string | MemberRemoved string | GroupDeleted

datatype call =
    RegisterClient nat nat | UnregisterClient nat nat | GroupChanged nat nat
  | RoleStreamEnd nat string | StreamJoin nat nat string | StreamLeave nat nat string
  | StreamClear nat "(nat \<times> string) list" | StreamStop nat bool | Reclaim string | PrunePool nat
  | SettleProgress nat bool | RolesDeleted nat | AvailabilityHooks nat bool bool | Signal nat gevent

type_synonym group_update = "playback \<times> string \<times> string"

record world =
  groups :: "nat \<Rightarrow> sgroup"
  clients :: "nat \<Rightarrow> gclient"
  next_group :: nat
  next_client :: nat
  client_registry :: "(string, nat) dict"
  updates :: "(nat \<times> group_update) list"
  calls :: "call list"

definition on_group :: "nat \<Rightarrow> (sgroup \<Rightarrow> sgroup) \<Rightarrow> world \<Rightarrow> world" where
  "on_group g f w = w\<lparr>groups := (groups w)(g := f (groups w g))\<rparr>"

definition on_client :: "nat \<Rightarrow> (gclient \<Rightarrow> gclient) \<Rightarrow> world \<Rightarrow> world" where
  "on_client c f w = w\<lparr>clients := (clients w)(c := f (clients w c))\<rparr>"

definition record_calls :: "call list \<Rightarrow> world \<Rightarrow> world" where
  "record_calls cs w = w\<lparr>calls := calls w @ cs\<rparr>"

definition members_of :: "world \<Rightarrow> nat \<Rightarrow> nat list" where
  "members_of w g = sg_clients (groups w g)"

definition group_of :: "world \<Rightarrow> nat \<Rightarrow> nat" where
  "group_of w c = gc_group (clients w c)"

definition is_connected :: "gclient \<Rightarrow> bool" where
  "is_connected c \<longleftrightarrow> gc_connected c \<and> gc_conn c \<noteq> None"

definition has_player :: "world \<Rightarrow> nat \<Rightarrow> bool" where
  "has_player w c \<longleftrightarrow> has_role_family ''player'' (gc_negotiated (clients w c))"

subsection \<open>Group updates\<close>

definition sgroup_name :: "world \<Rightarrow> nat \<Rightarrow> string" where
  "sgroup_name w g =
     (case sg_name (groups w g) of
        Some n \<Rightarrow> n
      | None \<Rightarrow> (case members_of w g of [] \<Rightarrow> '''' | c # _ \<Rightarrow> gc_name (clients w c)))"

definition group_update_message :: "world \<Rightarrow> nat \<Rightarrow> group_update" where
  "group_update_message w g = (sg_state (groups w g), sg_id (groups w g), sgroup_name w g)"

definition send_group_update :: "nat \<Rightarrow> group_update \<Rightarrow> world \<Rightarrow> world" where
  "send_group_update c m w =
     (if gc_conn (clients w c) = Some True then w\<lparr>updates := updates w @ [(c, m)]\<rparr> else w)"

definition send_group_update_to_clients :: "nat \<Rightarrow> world \<Rightarrow> world" where
  "send_group_update_to_clients g w =
     (let m = group_update_message w g in foldl (\<lambda>w c. send_group_update c m w) w (members_of w g))"

definition publish_if_name_changed :: "nat \<Rightarrow> string \<Rightarrow> world \<Rightarrow> world" where
  "publish_if_name_changed g previous w =
     (if sgroup_name w g \<noteq> previous then send_group_update_to_clients g w else w)"

definition set_group_name :: "nat \<Rightarrow> string option \<Rightarrow> world \<Rightarrow> world" where
  "set_group_name g n w =
     publish_if_name_changed g (sgroup_name w g) (on_group g (\<lambda>x. x\<lparr>sg_name := n\<rparr>) w)"

definition set_playback_state :: "nat \<Rightarrow> playback \<Rightarrow> world \<Rightarrow> world" where
  "set_playback_state g s w =
     (if sg_state (groups w g) = s then w
      else send_group_update_to_clients g
        (record_calls [Signal g (StateChanged s)] (on_group g (\<lambda>x. x\<lparr>sg_state := s\<rparr>) w)))"

subsection \<open>The stream of a group\<close>

definition has_active_stream :: "world \<Rightarrow> nat \<Rightarrow> bool" where
  "has_active_stream w g \<longleftrightarrow> sg_stream (groups w g) = Some False"

definition legacy_replacement_roles :: "world \<Rightarrow> nat \<Rightarrow> (nat \<times> string) list" where
  "legacy_replacement_roles w g =
     [(c, rs_id r). c \<leftarrow> members_of w g, gc_conn (clients w c) \<noteq> None \<and> gc_pre177 (clients w c),
                    r \<leftarrow> gc_roles (clients w c)]"

definition start_stream :: "nat \<Rightarrow> world \<Rightarrow> world" where
  "start_stream g w =
     (let w = (if has_active_stream w g
               then record_calls [StreamClear g (legacy_replacement_roles w g), StreamStop g True] w else w);
          w = on_group g (\<lambda>x. x\<lparr>sg_stream := Some False\<rparr>) w;
          w = record_calls (map (\<lambda>c. Reclaim (gc_id (clients w c)))
                (filter (\<lambda>c. \<not> is_connected (clients w c)) (members_of w g))) w
      in set_playback_state g PLAYING w)"

text \<open>\<open>PushStream.stop\<close> does nothing when the stream was stopped before.\<close>

definition stop_stream :: "nat \<Rightarrow> world \<Rightarrow> world" where
  "stop_stream g w =
     (if sg_stream (groups w g) = None then w
      else on_group g (\<lambda>x. x\<lparr>sg_stream := None\<rparr>)
        (if has_active_stream w g then record_calls [StreamStop g False] w else w))"

text \<open>The application may also stop the push stream it was handed.\<close>

definition push_stream_stop :: "nat \<Rightarrow> world \<Rightarrow> world" where
  "push_stream_stop g w =
     (if has_active_stream w g
      then on_group g (\<lambda>x. x\<lparr>sg_stream := Some True\<rparr>) (record_calls [StreamStop g False] w) else w)"

definition stop_needed :: "world \<Rightarrow> nat \<Rightarrow> bool" where
  "stop_needed w g \<longleftrightarrow>
     members_of w g \<noteq> [] \<and> (has_active_stream w g \<or> sg_state (groups w g) \<noteq> STOPPED)"

text \<open>\<open>stop\<close>; its result is \<open>stop_needed\<close>.\<close>

definition stop_group :: "bool \<Rightarrow> nat \<Rightarrow> world \<Rightarrow> world" where
  "stop_group keep_progress g w =
     (if \<not> stop_needed w g then w
      else set_playback_state g STOPPED (stop_stream g (record_calls [SettleProgress g keep_progress] w)))"

definition end_streams :: "nat list \<Rightarrow> world \<Rightarrow> world" where
  "end_streams cs w =
     record_calls [RoleStreamEnd c (rs_id r). c \<leftarrow> cs, r \<leftarrow> gc_roles (clients w c)] w"

definition stop_and_invalidate_stale_binary :: "nat \<Rightarrow> nat list \<Rightarrow> world \<Rightarrow> world" where
  "stop_and_invalidate_stale_binary g cs w =
     (let w' = stop_group False g w in
      if sg_state (groups w g) \<noteq> STOPPED \<and> \<not> has_active_stream w g then end_streams cs w' else w')"

subsection \<open>Membership\<close>

definition set_client_group :: "nat \<Rightarrow> nat \<Rightarrow> world \<Rightarrow> world" where
  "set_client_group c g w =
     record_calls [UnregisterClient (group_of w c) c, RegisterClient g c, GroupChanged c g]
       (on_client c (\<lambda>x. x\<lparr>gc_group := g\<rparr>) w)"

definition new_sgroup :: "string \<Rightarrow> nat \<Rightarrow> sgroup" where
  "new_sgroup i c = \<lparr>sg_id = i, sg_clients = [c], sg_state = STOPPED, sg_name = None, sg_stream = None\<rparr>"

text \<open>\<open>SendspinGroup(server, client)\<close>: the new group gets the number \<open>next_group w\<close>.\<close>

definition found_group :: "(nat \<Rightarrow> string) \<Rightarrow> nat \<Rightarrow> world \<Rightarrow> world" where
  "found_group u c w =
     set_client_group c (next_group w)
       (w\<lparr>groups := (groups w)(next_group w := new_sgroup (u (next_group w)) c),
          next_group := Suc (next_group w)\<rparr>)"

text \<open>The first half of \<open>remove_client\<close>: the client leaves the list and its roles the stream.\<close>

definition drop_member :: "nat \<Rightarrow> nat \<Rightarrow> world \<Rightarrow> world" where
  "drop_member g c w =
     (if length (members_of w g) = 1
      then on_group g (\<lambda>x. x\<lparr>sg_clients := []\<rparr>) (stop_and_invalidate_stale_binary g [c] w)
      else record_calls
        (concat (map (\<lambda>r. RoleStreamEnd c (rs_id r) #
              (if has_active_stream w g then [StreamLeave g c (rs_id r)] else [])) (gc_roles (clients w c)))
         @ [PrunePool g])
        (on_group g (\<lambda>x. x\<lparr>sg_clients := remove1 c (sg_clients x)\<rparr>) w))"

text \<open>The second half: what is left of the group.\<close>

definition settle_remnant :: "nat \<Rightarrow> nat \<Rightarrow> string \<Rightarrow> world \<Rightarrow> world" where
  "settle_remnant g c previous_name w =
     (if members_of w g = [] then record_calls [RolesDeleted g, Signal g GroupDeleted] w
      else let w = (if \<not> list_ex (has_player w) (members_of w g)
                    then stop_and_invalidate_stale_binary g (members_of w g) w else w);
               w = record_calls [Signal g (MemberRemoved (gc_id (clients w c)))] w
           in publish_if_name_changed g previous_name w)"

definition remove_member :: "(nat \<Rightarrow> string) \<Rightarrow> nat \<Rightarrow> nat \<Rightarrow> world \<Rightarrow> world" where
  "remove_member u g c w =
     (if c \<notin> set (members_of w g) then w
      else let w' = found_group u c (settle_remnant g c (sgroup_name w g) (drop_member g c w)) in
        send_group_update c (group_update_message w' (group_of w' c)) w')"

definition ungroup :: "(nat \<Rightarrow> string) \<Rightarrow> nat \<Rightarrow> world \<Rightarrow> world" where
  "ungroup u c w = remove_member u (group_of w c) c w"

text \<open>\<open>next((c for c in self._clients if c.client_id == client.client_id), None)\<close>.\<close>

definition stale_member :: "world \<Rightarrow> nat \<Rightarrow> nat \<Rightarrow> nat option" where
  "stale_member w g c = find (\<lambda>d. gc_id (clients w d) = gc_id (clients w c)) (members_of w g)"

definition insert_member :: "nat \<Rightarrow> nat \<Rightarrow> world \<Rightarrow> world" where
  "insert_member g c w =
     (case stale_member w g c of
        Some d \<Rightarrow> record_calls [UnregisterClient g d]
          (on_group g (\<lambda>x. x\<lparr>sg_clients := takeWhile (\<lambda>e. e \<noteq> d) (sg_clients x) @ [c] @
                                tl (dropWhile (\<lambda>e. e \<noteq> d) (sg_clients x))\<rparr>) w)
      | None \<Rightarrow> on_group g (\<lambda>x. x\<lparr>sg_clients := sg_clients x @ [c]\<rparr>) w)"

definition join_stream :: "nat \<Rightarrow> nat \<Rightarrow> world \<Rightarrow> world" where
  "join_stream g c w =
     (if \<not> has_active_stream w g then w
      else let cl = clients w c in
        if \<not> is_connected cl
        then record_calls (Reclaim (gc_id cl) #
               map (\<lambda>r. StreamJoin g c (rs_id r)) (filter (\<lambda>r. rs_audio r \<and> rs_preconnect r) (gc_roles cl))) w
        else record_calls (map (\<lambda>r. StreamJoin g c (rs_id r)) (filter rs_audio (gc_roles cl))) w)"

definition add_member :: "(nat \<Rightarrow> string) \<Rightarrow> nat \<Rightarrow> nat \<Rightarrow> world \<Rightarrow> world" where
  "add_member u g c w =
     (if c \<in> set (members_of w g) then w
      else let w = insert_member g c (ungroup u c w);
               w = record_calls [Signal g (MemberAdded (gc_id (clients w c)))] w;
               w = join_stream g c (set_client_group c g w)
           in send_group_update c (group_update_message w g) w)"

subsection \<open>Leaving and switching\<close>

definition quiesce_to_solo_stopped :: "(nat \<Rightarrow> string) \<Rightarrow> nat \<Rightarrow> world \<Rightarrow> world \<times> string option" where
  "quiesce_to_solo_stopped u c w =
     (let g = group_of w c in
      if length (members_of w g) > 1 then (remove_member u g c w, Some (sg_id (groups w g)))
      else let w' = stop_group False g w in
        (if has_active_stream w g then w' else end_streams [c] w', None))"

definition leave_to_solo_group :: "(nat \<Rightarrow> string) \<Rightarrow> nat \<Rightarrow> world \<Rightarrow> world" where
  "leave_to_solo_group u c w =
     (case quiesce_to_solo_stopped u c w of
        (w', None) \<Rightarrow> w'
      | (w', Some previous) \<Rightarrow>
          on_client c (\<lambda>x. x\<lparr>gc_previous := Some previous,
            gc_leave_solo := Some (sg_id (groups w' (group_of w' c)))\<rparr>) w')"

definition handle_availability_change :: "(nat \<Rightarrow> string) \<Rightarrow> bool \<Rightarrow> nat \<Rightarrow> world \<Rightarrow> world" where
  "handle_availability_change u available c w =
     (let w = record_calls [AvailabilityHooks c (gc_available (clients w c)) available]
                (on_client c (\<lambda>x. x\<lparr>gc_available := available\<rparr>) w)
      in if available then w else leave_to_solo_group u c w)"

definition registered :: "world \<Rightarrow> nat list" where
  "registered w = map snd (client_registry w)"

definition connected_clients :: "world \<Rightarrow> nat list" where
  "connected_clients w = filter (\<lambda>c. is_connected (clients w c)) (registered w)"

definition all_groups :: "world \<Rightarrow> nat list" where
  "all_groups w =
     foldl (\<lambda>gs c. let g = group_of w c in
       if sg_id (groups w g) \<in> (sg_id \<circ> groups w) ` set gs then gs else gs @ [g]) [] (connected_clients w)"

definition find_group_by_id :: "world \<Rightarrow> string \<Rightarrow> nat option" where
  "find_group_by_id w i =
     map_option (group_of w) (find (\<lambda>c. sg_id (groups w (group_of w c)) = i) (connected_clients w))"

text \<open>\<open>None\<close> in the cycle stands for a new solo group. \<open>ord\<close> ranks group ids as Python's string order
  does.\<close>

definition build_group_cycle :: "(string \<Rightarrow> nat) \<Rightarrow> world \<Rightarrow> nat list \<Rightarrow> nat \<Rightarrow> bool \<Rightarrow> nat option list" where
  "build_group_cycle ord w gs current has_player_role =
     (let multi = filter (\<lambda>g. length (members_of w g) > 1 \<and> sg_state (groups w g) = PLAYING \<and>
                     list_ex (has_player w) (members_of w g)) gs;
          single = filter (\<lambda>g. length (members_of w g) = 1 \<and> sg_state (groups w g) = PLAYING \<and>
                     g \<noteq> current \<and> has_player w (hd (members_of w g))) gs;
          by_id = sort_key (\<lambda>g. ord (sg_id (groups w g)));
          solo = (if \<not> has_player_role then []
                  else if length (members_of w current) = 1 then [Some current] else [None])
      in map Some (by_id multi) @ map Some (by_id single) @ solo)"

text \<open>\<open>cycle_groups.index(current_group)\<close>, or 0 when the current group is not in the cycle.\<close>

definition next_in_cycle :: "nat option list \<Rightarrow> nat \<Rightarrow> nat option" where
  "next_in_cycle cyc current =
     (if Some current \<in> set cyc
      then cyc ! ((length (takeWhile (\<lambda>x. x \<noteq> Some current) cyc) + 1) mod length cyc) else hd cyc)"

definition should_rejoin_previous_group :: "world \<Rightarrow> nat \<Rightarrow> bool" where
  "should_rejoin_previous_group w c \<longleftrightarrow>
     gc_previous (clients w c) \<noteq> None \<and> gc_available (clients w c) \<and>
     gc_leave_solo (clients w c) = Some (sg_id (groups w (group_of w c))) \<and>
     length (members_of w (group_of w c)) = 1"

definition try_rejoin_previous_group :: "(nat \<Rightarrow> string) \<Rightarrow> nat \<Rightarrow> world \<Rightarrow> world \<times> bool" where
  "try_rejoin_previous_group u c w =
     (if \<not> should_rejoin_previous_group w c then (w, False)
      else let i = the (gc_previous (clients w c));
               w = on_client c (\<lambda>x. x\<lparr>gc_previous := None, gc_leave_solo := None\<rparr>) w
           in (case find_group_by_id w i of
                 Some g \<Rightarrow>
                   if g \<noteq> group_of w c then (add_member u g c (remove_member u (group_of w c) c w), True)
                   else (w, False)
               | None \<Rightarrow> (w, False)))"

definition switch_cycle :: "(string \<Rightarrow> nat) \<Rightarrow> (nat \<Rightarrow> string) \<Rightarrow> nat \<Rightarrow> world \<Rightarrow> world" where
  "switch_cycle ord u c w =
     (let current = group_of w c;
          cyc = build_group_cycle ord w (all_groups w) current (has_player w c)
      in if cyc = [] then w
         else (case next_in_cycle cyc current of
             None \<Rightarrow> remove_member u current c w
           | Some g \<Rightarrow>
               if g = current then w else add_member u g c (remove_member u current c w)))"

definition handle_switch_command :: "(string \<Rightarrow> nat) \<Rightarrow> (nat \<Rightarrow> string) \<Rightarrow> nat \<Rightarrow> world \<Rightarrow> world" where
  "handle_switch_command ord u c w =
     (if \<not> gc_available (clients w c) then w
      else case try_rejoin_previous_group u c w of
          (w', True) \<Rightarrow> w'
        | (w', False) \<Rightarrow> switch_cycle ord u c w')"

subsection \<open>Connections\<close>

text \<open>\<open>_set_identity_from_hello\<close>; the negotiated roles are the result of \<open>negotiate_roles\<close> or the
  connection's.\<close>

definition set_identity_from_hello :: "nat \<Rightarrow> string \<Rightarrow> string list \<Rightarrow> world \<Rightarrow> world" where
  "set_identity_from_hello c name negotiated w =
     (let g = group_of w c;
          w' = publish_if_name_changed g (sgroup_name w g) (on_client c (\<lambda>x. x\<lparr>gc_name := name\<rparr>) w)
      in on_client c (\<lambda>x. x\<lparr>gc_negotiated := negotiated\<rparr>) w')"

text \<open>\<open>attach_connection\<close>, with the role instances \<open>_connect_active_roles\<close> leaves.\<close>

definition attach_connection :: "nat \<Rightarrow> bool \<Rightarrow> string \<Rightarrow> string list \<Rightarrow> role_slot list \<Rightarrow> world \<Rightarrow> world" where
  "attach_connection c pre177 name negotiated roles w =
     (let w = on_client c (\<lambda>x. x\<lparr>gc_conn := Some False, gc_pre177 := pre177, gc_connected := False\<rparr>) w;
          w = set_identity_from_hello c name negotiated w;
          w = on_client c (\<lambda>x. x\<lparr>gc_roles := roles\<rparr>) w
      in record_calls [RegisterClient (group_of w c) c] w)"

text \<open>\<open>_start_group_updates\<close>, after the connection's first \<open>server/activate\<close>.\<close>

definition start_group_updates :: "nat \<Rightarrow> world \<Rightarrow> world" where
  "start_group_updates c w =
     (if gc_conn (clients w c) = None then w
      else let w = on_client c (\<lambda>x. x\<lparr>gc_conn := Some True\<rparr>) w
           in send_group_update c (group_update_message w (group_of w c)) w)"

definition mark_connected :: "nat \<Rightarrow> world \<Rightarrow> world" where
  "mark_connected c w =
     (if gc_conn (clients w c) = None then w
      else let w = on_client c (\<lambda>x. x\<lparr>gc_connected := True\<rparr>) w; g = group_of w c
           in if c \<notin> set (members_of w g) \<or> \<not> has_active_stream w g then w
              else record_calls (map (\<lambda>r. StreamJoin g c (rs_id r))
                (filter rs_audio (gc_roles (clients w c)))) w)"

text \<open>\<open>detach_connection\<close> with what is left of the roles; the task it creates is a \<open>quiesce\<close> or an
  \<open>ungroup\<close> of its own.\<close>

definition detach_connection :: "nat \<Rightarrow> role_slot list \<Rightarrow> world \<Rightarrow> world" where
  "detach_connection c roles w =
     on_client c (\<lambda>x. x\<lparr>gc_connected := False, gc_roles := roles, gc_conn := None\<rparr>) w"

subsection \<open>The registry\<close>

definition new_gclient :: "string \<Rightarrow> nat \<Rightarrow> gclient" where
  "new_gclient i g = \<lparr>gc_id = i, gc_name = i, gc_negotiated = [], gc_roles = [], gc_conn = None,
     gc_pre177 = False, gc_connected = False, gc_group = g, gc_available = True, gc_previous = None,
     gc_leave_solo = None\<rparr>"

definition get_or_create_client :: "(nat \<Rightarrow> string) \<Rightarrow> string \<Rightarrow> world \<Rightarrow> world" where
  "get_or_create_client u i w =
     (if dget (client_registry w) i \<noteq> None then w
      else let c = next_client w; g = next_group w in
        w\<lparr>clients := (clients w)(c := new_gclient i g), groups := (groups w)(g := new_sgroup (u g) c),
          next_client := Suc c, next_group := Suc g, client_registry := dset i c (client_registry w),
          calls := calls w @ [RegisterClient g c, GroupChanged c g]\<rparr>)"

definition unregister_client :: "(nat \<Rightarrow> string) \<Rightarrow> string \<Rightarrow> world \<Rightarrow> world" where
  "unregister_client u i w =
     (case dget (client_registry w) i of
        None \<Rightarrow> w
      | Some c \<Rightarrow> ungroup u c (w\<lparr>client_registry := ddel i (client_registry w)\<rparr>))"

definition new_world :: world where
  "new_world = \<lparr>groups = (\<lambda>g. new_sgroup '''' 0), clients = (\<lambda>c. new_gclient '''' 0), next_group = 0,
     next_client = 0, client_registry = [], updates = [], calls = []\<rparr>"

end
