(* ===== verification/Client_Groups_Facts.thy ===== *)
theory Client_Groups_Facts
  imports Client_Groups
begin

text \<open>
  Correctness of the groups of clients: the clients of the registry are partitioned by their groups,
  every connection that receives group updates knows the group its client is in, and a client that left
  a group finds back to it. \<open>told w d m\<close> says that the last group update sent to client \<open>d\<close> is
  \<open>m\<close>, when its connection receives them at all.
\<close>

subsection \<open>Group updates\<close>

definition told :: "world \<Rightarrow> nat \<Rightarrow> group_update \<Rightarrow> bool" where
  "told w d m \<longleftrightarrow> (gc_conn (clients w d) = Some True \<longrightarrow> map_of (rev (updates w)) d = Some m)"

lemma send_all_eq:
  "foldl (\<lambda>w c. send_group_update c m w) w cs =
     w\<lparr>updates := updates w @ map (\<lambda>c. (c, m)) (filter (\<lambda>c. gc_conn (clients w c) = Some True) cs)\<rparr>"
  by (induction cs arbitrary: w) (simp_all add: send_group_update_def)

lemma send_to_clients_eq:
  "send_group_update_to_clients g w =
     w\<lparr>updates := updates w @ map (\<lambda>c. (c, group_update_message w g))
         (filter (\<lambda>c. gc_conn (clients w c) = Some True) (members_of w g))\<rparr>"
  by (simp add: send_group_update_to_clients_def send_all_eq)

lemma world_frames [simp]:
  "members_of (w\<lparr>updates := us\<rparr>) g = members_of w g" "members_of (w\<lparr>calls := cs\<rparr>) g = members_of w g"
  "sgroup_name (w\<lparr>updates := us\<rparr>) g = sgroup_name w g" "sgroup_name (w\<lparr>calls := cs\<rparr>) g = sgroup_name w g"
  by (simp_all add: members_of_def sgroup_name_def split: option.splits list.splits)

lemma record_frames [simp]:
  "groups (record_calls cs w) = groups w" "clients (record_calls cs w) = clients w"
  "updates (record_calls cs w) = updates w" "members_of (record_calls cs w) g = members_of w g"
  "client_registry (record_calls cs w) = client_registry w" "next_group (record_calls cs w) = next_group w"
  "next_client (record_calls cs w) = next_client w" "sgroup_name (record_calls cs w) g = sgroup_name w g"
  "group_of (record_calls cs w) c = group_of w c"
  by (simp_all add: record_calls_def group_of_def)

lemma send_frames [simp]:
  "groups (send_group_update_to_clients g w) = groups w" "clients (send_group_update_to_clients g w) = clients w"
  "members_of (send_group_update_to_clients g w) h = members_of w h"
  "sgroup_name (send_group_update_to_clients g w) h = sgroup_name w h"
  by (simp_all add: send_to_clients_eq)

lemma send_one_frames [simp]:
  "groups (send_group_update c m w) = groups w" "clients (send_group_update c m w) = clients w"
  "members_of (send_group_update c m w) g = members_of w g" "group_of (send_group_update c m w) d = group_of w d"
  "sgroup_name (send_group_update c m w) g = sgroup_name w g" "next_group (send_group_update c m w) = next_group w"
  "client_registry (send_group_update c m w) = client_registry w"
  "next_client (send_group_update c m w) = next_client w"
  by (simp_all add: send_group_update_def group_of_def)

lemma on_client_frames [simp]:
  "groups (on_client c f w) = groups w" "clients (on_client c f w) = (clients w)(c := f (clients w c))"
  "members_of (on_client c f w) g = members_of w g" "next_group (on_client c f w) = next_group w"
  "client_registry (on_client c f w) = client_registry w" "next_client (on_client c f w) = next_client w"
  "updates (on_client c f w) = updates w"
  by (simp_all add: on_client_def members_of_def)

lemma on_group_frames [simp]:
  "groups (on_group g f w) = (groups w)(g := f (groups w g))" "clients (on_group g f w) = clients w"
  "updates (on_group g f w) = updates w" "client_registry (on_group g f w) = client_registry w"
  "next_group (on_group g f w) = next_group w" "next_client (on_group g f w) = next_client w"
  "group_of (on_group g f w) c = group_of w c"
  by (simp_all add: on_group_def group_of_def)

text \<open>Operations that only touch the playback state, the streams, the updates and the calls.\<close>

definition quiet_step :: "world \<Rightarrow> world \<Rightarrow> bool" where
  "quiet_step w w' \<longleftrightarrow> clients w' = clients w \<and> next_group w' = next_group w \<and> next_client w' = next_client w \<and>
     client_registry w' = client_registry w \<and>
     (\<forall>g. members_of w' g = members_of w g \<and> sg_id (groups w' g) = sg_id (groups w g) \<and>
          sg_name (groups w' g) = sg_name (groups w g))"

lemma quiet_step_refl [simp]: "quiet_step w w"
  by (simp add: quiet_step_def)

lemma quiet_step_trans: "quiet_step w w' \<Longrightarrow> quiet_step w' w'' \<Longrightarrow> quiet_step w w''"
  by (simp add: quiet_step_def)

lemma quiet_sends [simp]: "quiet_step w (send_group_update c m w)" "quiet_step w (send_group_update_to_clients g w)"
    "quiet_step w (publish_if_name_changed g n w)" "quiet_step w (record_calls cs w)"
  by (simp_all add: quiet_step_def send_group_update_def send_to_clients_eq members_of_def
      publish_if_name_changed_def record_calls_def)

lemma quiet_on_group:
  "(\<And>x. sg_clients (f x) = sg_clients x \<and> sg_id (f x) = sg_id x \<and> sg_name (f x) = sg_name x) \<Longrightarrow>
   quiet_step w (on_group g f w)"
  by (simp add: quiet_step_def on_group_def members_of_def)

lemma quiet_playback [simp]: "quiet_step w (set_playback_state g s w)"
  unfolding set_playback_state_def
  using quiet_step_trans [OF quiet_on_group quiet_step_trans [OF quiet_sends(4) quiet_sends(2)]] by simp

lemma quiet_stop_stream [simp]: "quiet_step w (stop_stream g w)" "quiet_step w (push_stream_stop g w)"
  unfolding stop_stream_def push_stream_stop_def
  by (auto intro: quiet_on_group quiet_step_trans [OF quiet_sends(4) quiet_on_group])

lemma quiet_stop [simp]: "quiet_step w (stop_group k g w)"
  unfolding stop_group_def
  by (auto intro: quiet_step_trans [OF quiet_step_trans [OF quiet_sends(4) quiet_stop_stream(1)] quiet_playback])

lemma quiet_invalidate [simp]: "quiet_step w (stop_and_invalidate_stale_binary g cs w)"
  by (auto simp: stop_and_invalidate_stale_binary_def Let_def end_streams_def
      intro: quiet_step_trans [OF quiet_stop quiet_sends(4)])

lemma quiet_settle [simp]: "quiet_step w (settle_remnant g c n w)"
  unfolding settle_remnant_def Let_def
  by (auto intro!: quiet_step_trans [OF quiet_step_trans [OF _ quiet_sends(4)] quiet_sends(3)])

lemma quiet_join_stream [simp]: "quiet_step w (join_stream g c w)"
  by (simp add: join_stream_def Let_def)

lemma quiet_start_stream [simp]: "quiet_step w (start_stream g w)"
  unfolding start_stream_def Let_def
  by (rule quiet_step_trans [OF _ quiet_playback], rule quiet_step_trans [OF _ quiet_sends(4)],
      rule quiet_step_trans [OF _ quiet_on_group]) auto

subsection \<open>Who hears what\<close>

text \<open>\<open>heard w g n d\<close>: client \<open>d\<close> knows the state of \<open>g\<close> up to its name, which is \<open>n\<close> or the present one.\<close>

definition update_named :: "world \<Rightarrow> nat \<Rightarrow> string \<Rightarrow> group_update" where
  "update_named w g n = (sg_state (groups w g), sg_id (groups w g), n)"

definition heard :: "world \<Rightarrow> nat \<Rightarrow> string \<Rightarrow> nat \<Rightarrow> bool" where
  "heard w g n d \<longleftrightarrow> told w d (update_named w g n) \<or> told w d (group_update_message w g)"

lemma map_of_updates: "map_of (rev (map (\<lambda>c. (c, m)) cs)) d = (if d \<in> set cs then Some m else None)"
  by (induction cs rule: rev_induct) auto

lemma told_silent: "gc_conn (clients w d) \<noteq> Some True \<Longrightarrow> told w d m"
  by (simp add: told_def)

lemma told_send:
  "told (send_group_update c m w) d m' \<longleftrightarrow>
     (if d = c \<and> gc_conn (clients w d) = Some True then m' = m else told w d m')"
  by (auto simp: told_def send_group_update_def)

lemma told_send_to_clients:
  "told (send_group_update_to_clients g w) d m' \<longleftrightarrow>
     (if d \<in> set (members_of w g) \<and> gc_conn (clients w d) = Some True then m' = group_update_message w g
      else told w d m')"
  unfolding told_def send_to_clients_eq by (auto simp: map_of_updates map_add_def split: if_splits)

lemma message_send [simp]:
  "group_update_message (send_group_update_to_clients g w) g' = group_update_message w g'"
  "group_update_message (send_group_update c m w) g' = group_update_message w g'"
  "group_update_message (record_calls cs w) g' = group_update_message w g'"
  by (simp_all add: send_to_clients_eq send_group_update_def record_calls_def group_update_message_def)

lemma told_record [simp]: "told (record_calls cs w) d m \<longleftrightarrow> told w d m"
  by (simp add: told_def record_calls_def)

lemma name_quiet: "quiet_step w w' \<Longrightarrow> sgroup_name w' g = sgroup_name w g"
  by (simp add: quiet_step_def sgroup_name_def split: option.splits list.splits)

lemma message_quiet:
  "quiet_step w w' \<Longrightarrow> sg_state (groups w' g) = sg_state (groups w g) \<Longrightarrow>
   group_update_message w' g = group_update_message w g"
  by (simp add: group_update_message_def name_quiet) (simp add: quiet_step_def)

lemma conn_quiet: "quiet_step w w' \<Longrightarrow> gc_conn (clients w' d) = gc_conn (clients w d)"
  by (simp add: quiet_step_def)

lemma members_quiet: "quiet_step w w' \<Longrightarrow> members_of w' g = members_of w g"
  by (simp add: quiet_step_def)

text \<open>The updates an operation on group \<open>g\<close> sends go to its members, and leave them informed.\<close>

definition informs :: "nat \<Rightarrow> world \<Rightarrow> world \<Rightarrow> bool" where
  "informs g w w' \<longleftrightarrow> quiet_step w w' \<and>
     (\<forall>g'. g' \<noteq> g \<longrightarrow> sg_state (groups w' g') = sg_state (groups w g') \<and> sg_stream (groups w' g') = sg_stream (groups w g')) \<and>
     (\<forall>d m. d \<notin> set (members_of w g) \<longrightarrow> told w' d m = told w d m) \<and>
     (\<forall>d\<in>set (members_of w g). \<forall>n. heard w g n d \<longrightarrow> heard w' g n d)"

lemma informs_refl [simp]: "informs g w w"
  by (simp add: informs_def)

lemma informs_trans: "informs g w w' \<Longrightarrow> informs g w' w'' \<Longrightarrow> informs g w w''"
proof -
  assume a: "informs g w w'" and b: "informs g w' w''"
  have "members_of w' g = members_of w g" using a by (simp add: informs_def members_quiet)
  with a b show ?thesis
    unfolding informs_def by (simp add: quiet_step_trans [of w w' w''])
qed

lemma heard_record [simp]: "heard (record_calls cs w) g n d = heard w g n d"
  by (simp only: heard_def update_named_def told_record message_send record_frames)

lemma informs_record [simp]: "informs g w (record_calls cs w)"
  unfolding informs_def by (simp only: heard_record told_record record_frames quiet_sends) simp

lemma informs_playback [simp]: "informs g w (set_playback_state g s w)"
proof (cases "sg_state (groups w g) = s")
  case False
  let ?w = "record_calls [Signal g (StateChanged s)] (on_group g (\<lambda>x. x\<lparr>sg_state := s\<rparr>) w)"
  have eq: "set_playback_state g s w = send_group_update_to_clients g ?w"
    using False by (simp add: set_playback_state_def)
  have mem [simp]: "members_of (on_group g (\<lambda>x. x\<lparr>sg_state := s\<rparr>) w) g = members_of w g"
    by (simp add: members_of_def)
  have told: "told ?w d m = told w d m" for d m by (simp add: told_def on_group_def record_calls_def)
  have "groups (set_playback_state g s w) g' = groups w g'" if "g' \<noteq> g" for g'
    using that by (simp add: eq send_to_clients_eq record_calls_def on_group_def)
  moreover have "heard (set_playback_state g s w) g n d" if "d \<in> set (members_of w g)" for d n
    using that unfolding heard_def eq
    by (cases "gc_conn (clients w d) = Some True") (simp_all add: told_send_to_clients told_silent)
  moreover have "told (set_playback_state g s w) d m = told w d m" if "d \<notin> set (members_of w g)" for d m
    using that by (simp add: eq told_send_to_clients told [simplified])
  ultimately show ?thesis
    unfolding informs_def by (simp add: quiet_playback)
qed (simp add: set_playback_state_def)

lemma informs_stream: "informs g w (on_group g (\<lambda>x. x\<lparr>sg_stream := v\<rparr>) w)"
proof -
  let ?w = "on_group g (\<lambda>x. x\<lparr>sg_stream := v\<rparr>) w"
  have quiet: "quiet_step w ?w" by (rule quiet_on_group) simp
  have state: "sg_state (groups ?w h) = sg_state (groups w h)" for h by (simp add: on_group_def)
  show ?thesis
    using quiet by (simp add: informs_def heard_def update_named_def message_quiet [OF quiet state] told_def state)
qed

lemma informs_stop_stream [simp]: "informs g w (stop_stream g w)" "informs g w (push_stream_stop g w)"
  unfolding stop_stream_def push_stream_stop_def
  by (auto intro: informs_stream informs_trans [OF informs_record informs_stream])

lemma informs_start_stream [simp]: "informs g w (start_stream g w)"
  unfolding start_stream_def Let_def
  by (rule informs_trans [OF _ informs_playback], rule informs_trans [OF _ informs_record],
      rule informs_trans [OF _ informs_stream]) simp

lemma informs_stop [simp]: "informs g w (stop_group k g w)"
  unfolding stop_group_def
  by (auto intro: informs_trans [OF informs_trans [OF informs_record informs_stop_stream(1)] informs_playback])

lemma informs_invalidate [simp]: "informs g w (stop_and_invalidate_stale_binary g cs w)"
  by (auto simp: stop_and_invalidate_stale_binary_def Let_def end_streams_def
      intro: informs_trans [OF informs_stop informs_record])

lemma informs_publish [simp]: "informs g w (publish_if_name_changed g n w)"
  unfolding informs_def publish_if_name_changed_def
  by (auto simp: told_send_to_clients heard_def update_named_def told_silent)

text \<open>Publishing against the name the members have heard leaves them told.\<close>

lemma publish_told:
  assumes "heard w g n d" "d \<in> set (members_of w g)"
  shows "told (publish_if_name_changed g n w) d (group_update_message w g)"
  using assms
  by (auto simp: publish_if_name_changed_def told_send_to_clients heard_def update_named_def group_update_message_def
      told_silent)

lemma informs_other: "informs g w w' \<Longrightarrow> d \<notin> set (members_of w g) \<Longrightarrow> told w' d m = told w d m"
  unfolding informs_def by blast

lemma informs_told:
  assumes "informs g w w'" "d \<in> set (members_of w g)" "told w d (group_update_message w g)"
  shows "told w' d (group_update_message w' g)"
proof -
  have "heard w' g (sgroup_name w g) d" using assms by (simp add: informs_def heard_def)
  moreover have "sgroup_name w' g = sgroup_name w g" using assms(1) by (simp add: informs_def name_quiet)
  ultimately show ?thesis by (simp add: heard_def update_named_def group_update_message_def)
qed

subsection \<open>The invariant\<close>

definition sited :: "nat set \<Rightarrow> world \<Rightarrow> nat \<Rightarrow> bool" where
  "sited R w c \<longleftrightarrow>
     group_of w c < next_group w \<and> c \<in> set (members_of w (group_of w c)) \<and>
     distinct (members_of w (group_of w c)) \<and> set (members_of w (group_of w c)) \<subseteq> R \<and>
     (\<forall>d\<in>set (members_of w (group_of w c)). group_of w d = group_of w c)"

definition placed :: "nat set \<Rightarrow> world \<Rightarrow> bool" where
  "placed R w \<longleftrightarrow> (\<forall>c\<in>R. sited R w c \<and> told w c (group_update_message w (group_of w c)))"

lemma sitedI:
  "group_of w c = g \<Longrightarrow> g < next_group w \<Longrightarrow> c \<in> set (members_of w g) \<Longrightarrow> distinct (members_of w g) \<Longrightarrow>
   set (members_of w g) \<subseteq> R \<Longrightarrow> (\<And>d. d \<in> set (members_of w g) \<Longrightarrow> group_of w d = g) \<Longrightarrow> sited R w c"
  by (simp add: sited_def)

lemma sited_cong:
  "(\<And>d. group_of w' d = group_of w d) \<Longrightarrow> (\<And>g. members_of w' g = members_of w g) \<Longrightarrow>
   next_group w' = next_group w \<Longrightarrow> sited R w' c = sited R w c"
  by (simp add: sited_def)

definition named :: "(nat \<Rightarrow> string) \<Rightarrow> world \<Rightarrow> bool" where
  "named u w \<longleftrightarrow> (\<forall>g<next_group w. sg_id (groups w g) = u g)"

definition keyed :: "world \<Rightarrow> bool" where
  "keyed w \<longleftrightarrow> dict_ok (client_registry w) \<and>
     (\<forall>(i, c)\<in>set (client_registry w). gc_id (clients w c) = i \<and> c < next_client w)"

definition world_ok :: "(nat \<Rightarrow> string) \<Rightarrow> world \<Rightarrow> bool" where
  "world_ok u w \<longleftrightarrow> keyed w \<and> named u w \<and> placed (set (registered w)) w"

lemma placedD:
  assumes "placed R w" "c \<in> R"
  shows "group_of w c < next_group w" "c \<in> set (members_of w (group_of w c))"
    "distinct (members_of w (group_of w c))" "set (members_of w (group_of w c)) \<subseteq> R"
    "\<And>d. d \<in> set (members_of w (group_of w c)) \<Longrightarrow> group_of w d = group_of w c"
    "told w c (group_update_message w (group_of w c))"
  using bspec [OF assms(1) [unfolded placed_def] assms(2)] unfolding sited_def by blast+

lemma placed_members:
  assumes "placed R w" "c \<in> R" "d \<in> R"
  shows "d \<in> set (members_of w (group_of w c)) \<longleftrightarrow> group_of w d = group_of w c"
proof
  assume "d \<in> set (members_of w (group_of w c))"
  then show "group_of w d = group_of w c" by (rule placedD(5) [OF assms(1,2)])
next
  assume "group_of w d = group_of w c"
  then show "d \<in> set (members_of w (group_of w c))" using placedD(2) [OF assms(1,3)] by simp
qed

text \<open>An operation that informs the group of a placed client keeps every client placed.\<close>

lemma placed_informs:
  assumes ok: "placed R w" and c: "c \<in> R" and inf: "informs (group_of w c) w w'"
  shows "placed R w'"
proof -
  have quiet: "quiet_step w w'" using inf by (simp add: informs_def)
  then have same: "group_of w' d = group_of w d" "members_of w' g = members_of w g" "next_group w' = next_group w"
    for d g by (simp_all add: quiet_step_def group_of_def)
  have "told w' d (group_update_message w' (group_of w d))" if d: "d \<in> R" for d
  proof (cases "group_of w d = group_of w c")
    case True
    then show ?thesis
      using informs_told [OF inf, of d] placedD(2,6) [OF ok d] by simp
  next
    case False
    then have "d \<notin> set (members_of w (group_of w c))"
      using placed_members [OF ok c d] by simp
    moreover have "group_update_message w' (group_of w d) = group_update_message w (group_of w d)"
      using inf False by (intro message_quiet [OF quiet]) (simp add: informs_def)
    ultimately show ?thesis
      using placedD(6) [OF ok d] by (simp add: informs_other [OF inf])
  qed
  then show ?thesis
    using ok sited_cong [OF same] by (simp add: placed_def same)
qed

lemma keyed_cong:
  "client_registry w' = client_registry w \<Longrightarrow> next_client w' = next_client w \<Longrightarrow>
   (\<And>c. gc_id (clients w' c) = gc_id (clients w c)) \<Longrightarrow> keyed w' = keyed w"
  by (simp add: keyed_def)

lemma ok_informs:
  assumes "world_ok u w" "c \<in> set (registered w)" "informs (group_of w c) w w'"
  shows "world_ok u w'"
proof -
  have quiet: "quiet_step w w'" using assms(3) by (simp add: informs_def)
  then have "keyed w' = keyed w" by (intro keyed_cong) (simp_all add: quiet_step_def)
  moreover have "named u w' = named u w" "registered w' = registered w"
    using quiet by (simp_all add: named_def quiet_step_def registered_def)
  ultimately show ?thesis
    using assms placed_informs [of "set (registered w)" w c w'] by (simp add: world_ok_def)
qed

text \<open>Renaming: the group \<open>g\<close> or its founding member gets another name, which is then published.\<close>

definition renames :: "nat \<Rightarrow> nat set \<Rightarrow> world \<Rightarrow> world \<Rightarrow> bool" where
  "renames g R w w' \<longleftrightarrow> next_group w' = next_group w \<and> updates w' = updates w \<and>
     (\<forall>d. group_of w' d = group_of w d \<and> gc_conn (clients w' d) = gc_conn (clients w d)) \<and>
     (\<forall>h. members_of w' h = members_of w h \<and> sg_id (groups w' h) = sg_id (groups w h) \<and>
          sg_state (groups w' h) = sg_state (groups w h)) \<and>
     (\<forall>d\<in>R. group_of w d \<noteq> g \<longrightarrow> sgroup_name w' (group_of w d) = sgroup_name w (group_of w d))"

lemma placed_renames:
  assumes ok: "placed R w" and c: "c \<in> R" and ren: "renames (group_of w c) R w w'"
  shows "placed R (publish_if_name_changed (group_of w c) (sgroup_name w (group_of w c)) w')"
    (is "placed R ?w")
proof -
  let ?g = "group_of w c"
  have same: "group_of ?w d = group_of w d" "members_of ?w h = members_of w h" "next_group ?w = next_group w" for d h
    using ren quiet_sends(3) [of w' ?g "sgroup_name w ?g"]
    by (simp_all add: renames_def quiet_step_def group_of_def)
  have told': "told w' d m = told w d m" for d m using ren by (simp add: told_def renames_def)
  have "told ?w d (group_update_message ?w (group_of w d))" if d: "d \<in> R" for d
  proof (cases "group_of w d = ?g")
    case True
    have "heard w' ?g (sgroup_name w ?g) d"
      using placedD(6) [OF ok d] ren True
      by (simp add: heard_def told' update_named_def group_update_message_def renames_def)
    then have "told ?w d (group_update_message w' ?g)"
      using placedD(2) [OF ok d] ren True by (intro publish_told) (simp_all add: renames_def)
    moreover have "group_update_message ?w ?g = group_update_message w' ?g"
      by (simp add: publish_if_name_changed_def)
    ultimately show ?thesis by (simp only: True)
  next
    case False
    then have "d \<notin> set (members_of w' ?g)"
      using placed_members [OF ok c d] ren by (simp add: renames_def)
    then have "told ?w d (group_update_message w (group_of w d))"
      using placedD(6) [OF ok d] by (simp add: publish_if_name_changed_def told_send_to_clients told')
    moreover have "group_update_message ?w (group_of w d) = group_update_message w (group_of w d)"
      using ren False d by (simp add: publish_if_name_changed_def renames_def group_update_message_def)
    ultimately show ?thesis by simp
  qed
  then show ?thesis
    using ok sited_cong [OF same] by (simp add: placed_def same)
qed

subsection \<open>Removing a client\<close>

lemma drop_member_facts:
  assumes "c \<in> set (members_of w g)"
  defines "w1 \<equiv> drop_member g c w"
  shows "clients w1 = clients w" "next_group w1 = next_group w" "next_client w1 = next_client w"
    "client_registry w1 = client_registry w"
    "members_of w1 h = (if h = g then remove1 c (members_of w g) else members_of w h)"
    "sg_id (groups w1 h) = sg_id (groups w h)" "sg_name (groups w1 h) = sg_name (groups w h)"
    "h \<noteq> g \<Longrightarrow> sg_state (groups w1 h) = sg_state (groups w h)"
    "d \<notin> set (members_of w g) \<Longrightarrow> told w1 d m = told w d m"
    "length (members_of w g) \<noteq> 1 \<Longrightarrow> updates w1 = updates w \<and> sg_state (groups w1 h) = sg_state (groups w h)"
proof -
  let ?v = "stop_and_invalidate_stale_binary g [c] w"
  have quiet: "quiet_step w ?v" and inf: "informs g w ?v" by simp_all
  have one: "length (members_of w g) = 1 \<Longrightarrow> remove1 c (members_of w g) = []"
    using assms(1) by (cases "members_of w g") auto
  note facts = w1_def drop_member_def
  show "clients w1 = clients w" "next_group w1 = next_group w" "next_client w1 = next_client w"
    "client_registry w1 = client_registry w" "sg_id (groups w1 h) = sg_id (groups w h)"
    "sg_name (groups w1 h) = sg_name (groups w h)"
    using quiet by (simp_all add: facts quiet_step_def)
  show "members_of w1 h = (if h = g then remove1 c (members_of w g) else members_of w h)"
    using one quiet by (simp add: facts members_of_def quiet_step_def)
  show "h \<noteq> g \<Longrightarrow> sg_state (groups w1 h) = sg_state (groups w h)"
    using inf by (simp add: facts informs_def)
  show "d \<notin> set (members_of w g) \<Longrightarrow> told w1 d m = told w d m"
    using informs_other [OF inf] by (simp add: facts told_def)
  show "length (members_of w g) \<noteq> 1 \<Longrightarrow> updates w1 = updates w \<and> sg_state (groups w1 h) = sg_state (groups w h)"
    by (simp add: facts)
qed

lemma settle_remnant_facts:
  defines "w2 g c n w \<equiv> settle_remnant g c n w"
  shows "quiet_step w (w2 g c n w)"
    "h \<noteq> g \<Longrightarrow> sg_state (groups (w2 g c n w) h) = sg_state (groups w h)"
    "d \<notin> set (members_of w g) \<Longrightarrow> told (w2 g c n w) d m = told w d m"
    "d \<in> set (members_of w g) \<Longrightarrow> heard w g n d \<Longrightarrow>
       told (w2 g c n w) d (group_update_message (w2 g c n w) g)"
proof -
  define v where "v = (if \<not> list_ex (has_player w) (members_of w g)
    then stop_and_invalidate_stale_binary g (members_of w g) w else w)"
  define v' where "v' = record_calls [Signal g (MemberRemoved (gc_id (clients v c)))] v"
  have "informs g w v" by (simp add: v_def)
  then have inf: "informs g w v'" by (simp add: v'_def informs_trans [OF _ informs_record])
  have eq: "w2 g c n w = (if members_of w g = [] then record_calls [RolesDeleted g, Signal g GroupDeleted] w
      else publish_if_name_changed g n v')"
    by (simp add: w2_def settle_remnant_def v_def v'_def Let_def)
  have mem: "members_of v' g = members_of w g" using inf by (simp add: informs_def members_quiet)
  show "quiet_step w (w2 g c n w)" by (simp add: w2_def)
  show "h \<noteq> g \<Longrightarrow> sg_state (groups (w2 g c n w) h) = sg_state (groups w h)"
    using inf by (simp add: eq publish_if_name_changed_def informs_def)
  show "d \<notin> set (members_of w g) \<Longrightarrow> told (w2 g c n w) d m = told w d m"
    by (simp add: eq publish_if_name_changed_def told_send_to_clients mem informs_other [OF inf])
  assume d: "d \<in> set (members_of w g)" "heard w g n d"
  then have "heard v' g n d" using inf by (simp add: informs_def)
  then have "told (publish_if_name_changed g n v') d (group_update_message v' g)"
    using d(1) by (intro publish_told) (simp_all add: mem)
  moreover have "group_update_message (publish_if_name_changed g n v') g = group_update_message v' g"
    by (simp add: publish_if_name_changed_def)
  moreover have "members_of w g \<noteq> []" using d(1) by auto
  ultimately show "told (w2 g c n w) d (group_update_message (w2 g c n w) g)" by (simp add: eq)
qed

text \<open>What a removal does to the membership.\<close>

lemma remove_member_sites:
  fixes u :: "nat \<Rightarrow> string"
  assumes c: "c \<in> set (members_of w g)" "g < next_group w"
  defines "w' \<equiv> remove_member u g c w" and "n \<equiv> next_group w"
  shows "clients w' = (clients w)(c := (clients w c)\<lparr>gc_group := n\<rparr>)"
    "next_group w' = Suc n" "next_client w' = next_client w" "client_registry w' = client_registry w"
    "group_of w' d = (if d = c then n else group_of w d)"
    "members_of w' h = (if h = n then [c] else if h = g then remove1 c (members_of w g) else members_of w h)"
    "sg_id (groups w' h) = (if h = n then u n else sg_id (groups w h))"
    "sg_name (groups w' h) = (if h = n then None else sg_name (groups w h))"
    "sg_state (groups w' n) = STOPPED" "sg_stream (groups w' n) = None"
proof -
  define w2 where "w2 = settle_remnant g c (sgroup_name w g) (drop_member g c w)"
  have q: "quiet_step (drop_member g c w) w2" by (simp add: w2_def)
  note facts = w'_def remove_member_def found_group_def set_client_group_def Let_def send_group_update_def
    on_client_def group_of_def members_of_def new_sgroup_def n_def w2_def [symmetric]
  have w2: "clients w2 = clients w" "next_group w2 = next_group w" "next_client w2 = next_client w"
    "client_registry w2 = client_registry w"
    "sg_clients (groups w2 h) = (if h = g then remove1 c (sg_clients (groups w g)) else sg_clients (groups w h))"
    "sg_id (groups w2 h) = sg_id (groups w h)" "sg_name (groups w2 h) = sg_name (groups w h)" for h
    using q drop_member_facts [OF c(1)] by (simp_all add: quiet_step_def members_of_def)
  show "clients w' = (clients w)(c := (clients w c)\<lparr>gc_group := n\<rparr>)"
    "next_group w' = Suc n" "next_client w' = next_client w" "client_registry w' = client_registry w"
    "group_of w' d = (if d = c then n else group_of w d)"
    "members_of w' h = (if h = n then [c] else if h = g then remove1 c (members_of w g) else members_of w h)"
    "sg_id (groups w' h) = (if h = n then u n else sg_id (groups w h))"
    "sg_name (groups w' h) = (if h = n then None else sg_name (groups w h))"
    "sg_state (groups w' n) = STOPPED" "sg_stream (groups w' n) = None"
    using c by (simp_all add: facts w2)
qed

lemma name_cong:
  "members_of w' g = members_of w g \<Longrightarrow> sg_name (groups w' g) = sg_name (groups w g) \<Longrightarrow>
   (\<And>c. gc_name (clients w' c) = gc_name (clients w c)) \<Longrightarrow> sgroup_name w' g = sgroup_name w g"
  by (simp add: sgroup_name_def split: option.split list.split)

lemma message_cong:
  "sgroup_name w' g = sgroup_name w g \<Longrightarrow> sg_state (groups w' g) = sg_state (groups w g) \<Longrightarrow>
   sg_id (groups w' g) = sg_id (groups w g) \<Longrightarrow> group_update_message w' g = group_update_message w g"
  by (simp add: group_update_message_def)

text \<open>What the clients are told by a removal.\<close>

lemma remove_member_told:
  fixes u :: "nat \<Rightarrow> string"
  assumes c: "c \<in> set (members_of w g)" "g < next_group w"
  defines "w' \<equiv> remove_member u g c w"
  shows "told w' c (group_update_message w' (next_group w))"
    "d \<noteq> c \<Longrightarrow> d \<notin> set (members_of w g) \<Longrightarrow> told w' d m = told w d m"
    "d \<noteq> c \<Longrightarrow> d \<in> set (members_of w g) \<Longrightarrow> told w d (group_update_message w g) \<Longrightarrow>
       told w' d (group_update_message w' g)"
    "h \<noteq> g \<Longrightarrow> h \<noteq> next_group w \<Longrightarrow> group_update_message w' h = group_update_message w h"
proof -
  define w1 where "w1 = drop_member g c w"
  define w2 where "w2 = settle_remnant g c (sgroup_name w g) w1"
  define w3 where "w3 = found_group u c w2"
  have q: "quiet_step w1 w2" by (simp add: w2_def)
  have w': "w' = send_group_update c (group_update_message w3 (group_of w3 c)) w3"
    using c by (simp add: w'_def remove_member_def Let_def w3_def w2_def w1_def)
  have w1: "clients w1 = clients w" "members_of w1 h = (if h = g then remove1 c (members_of w g) else members_of w h)"
    "sg_id (groups w1 h) = sg_id (groups w h)" "sg_name (groups w1 h) = sg_name (groups w h)"
    "next_group w1 = next_group w" for h
    using drop_member_facts [OF c(1)] by (simp_all add: w1_def)
  have n2: "next_group w2 = next_group w" using q w1 by (simp add: quiet_step_def)
  have n: "group_of w3 c = next_group w"
    by (simp add: w3_def found_group_def set_client_group_def on_client_def group_of_def record_calls_def n2)
  have gc: "gc_name (clients w3 e) = gc_name (clients w2 e)" "gc_conn (clients w3 e) = gc_conn (clients w2 e)" for e
    by (simp_all add: w3_def found_group_def set_client_group_def on_client_def record_calls_def)
  have old: "groups w3 h = groups w2 h" if "h \<noteq> next_group w" for h
    using that by (simp add: w3_def found_group_def set_client_group_def on_client_def record_calls_def n2)
  have up: "updates w3 = updates w2"
    by (simp add: w3_def found_group_def set_client_group_def on_client_def record_calls_def)
  have told3: "told w3 e m = told w2 e m" for e m by (simp add: told_def up gc)
  have mes3: "group_update_message w3 h = group_update_message w2 h" if "h \<noteq> next_group w" for h
    using old [OF that] gc by (intro message_cong name_cong) (simp_all add: members_of_def)
  show "told w' c (group_update_message w' (next_group w))"
    by (auto simp: w' n told_send intro: told_silent)
  show "told w' d m = told w d m" if "d \<noteq> c" "d \<notin> set (members_of w g)"
  proof -
    have "told w2 d m = told w1 d m"
      using that settle_remnant_facts(3) [of d w1 g c "sgroup_name w g" m] by (simp add: w2_def w1 notin_set_remove1)
    moreover have "told w1 d m = told w d m"
      using drop_member_facts(9) [OF c(1) that(2)] by (simp add: w1_def)
    ultimately show ?thesis using that by (simp add: w' told_send told3)
  qed
  show "told w' d (group_update_message w' g)"
    if d: "d \<noteq> c" "d \<in> set (members_of w g)" "told w d (group_update_message w g)"
  proof -
    have "length (members_of w g) \<noteq> 1" using c(1) d by (cases "members_of w g") auto
    then have "updates w1 = updates w" "sg_state (groups w1 g) = sg_state (groups w g)"
      using drop_member_facts(10) [OF c(1)] by (simp_all add: w1_def)
    then have "heard w1 g (sgroup_name w g) d"
      using d(3) by (simp add: heard_def told_def update_named_def group_update_message_def w1)
    then have "told w2 d (group_update_message w2 g)"
      unfolding w2_def by (rule settle_remnant_facts(4) [rotated]) (simp add: w1 d in_set_remove1)
    then show ?thesis using d(1) c(2) by (simp add: w' told_send told3 mes3)
  qed
  show "group_update_message w' h = group_update_message w h" if h: "h \<noteq> g" "h \<noteq> next_group w"
  proof -
    have "group_update_message w2 h = group_update_message w1 h"
      unfolding w2_def using settle_remnant_facts(1,2) h by (intro message_quiet) auto
    moreover have "group_update_message w1 h = group_update_message w h"
      using drop_member_facts(8) [OF c(1) h(1)] h(1) by (intro message_cong name_cong) (simp_all add: w1 w1_def [symmetric])
    ultimately show ?thesis by (simp add: w' mes3 h)
  qed
qed

lemma placed_remove:
  assumes ok: "placed R w" and c: "c \<in> R"
  shows "placed R (remove_member u (group_of w c) c w)" (is "placed R ?w")
proof -
  let ?g = "group_of w c" and ?n = "next_group w"
  have pre: "c \<in> set (members_of w ?g)" "?g < ?n" using placedD(1,2) [OF ok c] by simp_all
  note sites = remove_member_sites [OF pre, of u] and tells = remove_member_told [OF pre]
  have "sited R ?w d \<and> told ?w d (group_update_message ?w (group_of ?w d))" if d: "d \<in> R" for d
  proof (cases "d = c")
    case True
    then show ?thesis using c tells(1) by (simp add: sited_def sites)
  next
    case False
    have mem: "members_of ?w (group_of w d) =
        (if group_of w d = ?g then remove1 c (members_of w (group_of w d)) else members_of w (group_of w d))"
      using placedD(1) [OF ok d] by (simp add: sites)
    then have dist: "distinct (members_of ?w (group_of w d))"
      using placedD(3) [OF ok d] by (cases "group_of w d = ?g") simp_all
    have sub: "set (members_of ?w (group_of w d)) = set (members_of w (group_of w d)) - {c}"
      using placed_members [OF ok d c] placedD(3) [OF ok d] placedD(3) [OF ok c] by (simp add: mem)
    have "sited R ?w d"
    proof (rule sitedI [of _ _ "group_of w d"])
      show "group_of ?w e = group_of w d" if "e \<in> set (members_of ?w (group_of w d))" for e
        using that placedD(5) [OF ok d, of e] by (simp add: sub sites(5))
    qed (use False placedD(1,2,4) [OF ok d] dist in \<open>auto simp: sites(2,5) sub\<close>)
    moreover have "told ?w d (group_update_message ?w (group_of w d))"
    proof (cases "group_of w d = ?g")
      case True
      then show ?thesis using tells(3) [OF False] placedD(2,6) [OF ok d] by simp
    next
      case other: False
      then have "d \<notin> set (members_of w ?g)" using placed_members [OF ok c d] by simp
      then show ?thesis
        using tells(2) [OF False] tells(4) [OF other] placedD(1,6) [OF ok d] by simp
    qed
    ultimately show ?thesis using False by (simp add: sites)
  qed
  then show ?thesis by (simp add: placed_def)
qed

subsection \<open>Adding a client\<close>

text \<open>A client of the registry never meets a stale object of its own id.\<close>

lemma keyedD:
  assumes "keyed w" "(i, c) \<in> set (client_registry w)"
  shows "gc_id (clients w c) = i" "c < next_client w"
  using assms by (auto simp: keyed_def)

lemma keyed_inj:
  assumes "keyed w" "c \<in> set (registered w)" "d \<in> set (registered w)" "gc_id (clients w c) = gc_id (clients w d)"
  shows "c = d"
proof -
  note key = keyedD(1) [OF assms(1)]
  obtain i j where "(i, c) \<in> set (client_registry w)" "(j, d) \<in> set (client_registry w)"
    using assms(2,3) by (auto simp: registered_def)
  moreover from this have "i = j" using key assms(4) by metis
  ultimately show ?thesis using assms(1) by (simp add: keyed_def dict_ok_values)
qed

definition plain_add :: "nat \<Rightarrow> nat \<Rightarrow> world \<Rightarrow> world" where
  "plain_add g c w =
     (let w = on_group g (\<lambda>x. x\<lparr>sg_clients := sg_clients x @ [c]\<rparr>) w;
          w = record_calls [Signal g (MemberAdded (gc_id (clients w c)))] w;
          w = join_stream g c (set_client_group c g w)
      in send_group_update c (group_update_message w g) w)"

lemma add_member_plain:
  assumes "stale_member (ungroup u c w) g c = None" "c \<notin> set (members_of w g)"
  shows "add_member u g c w = plain_add g c (ungroup u c w)"
  using assms by (simp add: add_member_def plain_add_def insert_member_def Let_def)

lemma plain_add_facts:
  defines "w' g c w \<equiv> plain_add g c w"
  shows "clients (w' g c w) = (clients w)(c := (clients w c)\<lparr>gc_group := g\<rparr>)"
    "next_group (w' g c w) = next_group w" "next_client (w' g c w) = next_client w"
    "client_registry (w' g c w) = client_registry w"
    "group_of (w' g c w) d = (if d = c then g else group_of w d)"
    "members_of (w' g c w) h = (if h = g then members_of w g @ [c] else members_of w h)"
    "sg_id (groups (w' g c w) h) = sg_id (groups w h)"
    "sg_state (groups (w' g c w) h) = sg_state (groups w h)"
    "sg_name (groups (w' g c w) h) = sg_name (groups w h)"
    "told (w' g c w) c (group_update_message (w' g c w) g)"
    "d \<noteq> c \<Longrightarrow> told (w' g c w) d m = told w d m"
    "members_of w h \<noteq> [] \<Longrightarrow> group_update_message (w' g c w) h = group_update_message w h"
proof -
  note facts = w'_def plain_add_def Let_def join_stream_def set_client_group_def on_client_def group_of_def
    members_of_def send_group_update_def
  show f: "clients (w' g c w) = (clients w)(c := (clients w c)\<lparr>gc_group := g\<rparr>)"
    "next_group (w' g c w) = next_group w" "next_client (w' g c w) = next_client w"
    "client_registry (w' g c w) = client_registry w"
    "group_of (w' g c w) d = (if d = c then g else group_of w d)"
    "members_of (w' g c w) h = (if h = g then members_of w g @ [c] else members_of w h)"
    "sg_id (groups (w' g c w) h) = sg_id (groups w h)"
    "sg_state (groups (w' g c w) h) = sg_state (groups w h)"
    "sg_name (groups (w' g c w) h) = sg_name (groups w h)" for d h
    by (simp_all add: facts)
  show "told (w' g c w) c (group_update_message (w' g c w) g)"
    by (auto simp: w'_def plain_add_def Let_def told_send intro: told_silent)
  show "d \<noteq> c \<Longrightarrow> told (w' g c w) d m = told w d m"
    by (simp add: w'_def plain_add_def Let_def told_send)
       (simp add: told_def join_stream_def set_client_group_def on_client_def Let_def)
  assume "members_of w h \<noteq> []"
  then have "sgroup_name (w' g c w) h = sgroup_name w h"
    by (cases "members_of w h"; cases "h = g"; cases "sg_name (groups w h)")
       (simp_all add: sgroup_name_def f(1,6,9))
  then show "group_update_message (w' g c w) h = group_update_message w h"
    by (simp add: group_update_message_def f)
qed

lemma placed_ungroup: "placed R w \<Longrightarrow> c \<in> R \<Longrightarrow> placed R (ungroup u c w)"
  by (simp add: ungroup_def placed_remove)

lemma placed_add:
  assumes ok: "placed R w" and cd: "c \<in> R" "d \<in> R" "d \<noteq> c"
    and alone: "members_of w (group_of w c) = [c]"
  shows "placed R (plain_add (group_of w d) c w)" (is "placed R ?w")
proof -
  let ?g = "group_of w d"
  have apart: "?g \<noteq> group_of w c"
    using placed_members [OF ok cd(1,2)] alone cd(3) by auto
  note add = plain_add_facts
  have "sited R ?w e \<and> told ?w e (group_update_message ?w (group_of ?w e))" if e: "e \<in> R" for e
  proof (cases "e = c")
    case True
    have "c \<notin> set (members_of w ?g)" using placed_members [OF ok cd(2,1)] apart by simp
    then have "sited R ?w c"
    proof (intro sitedI [of _ _ ?g])
      show "group_of ?w f = ?g" if "f \<in> set (members_of ?w ?g)" for f
        using that placedD(5) [OF ok cd(2), of f] by (auto simp: add(5,6))
    qed (use placedD(1,3,4) [OF ok cd(2)] cd(1) in \<open>auto simp: add(2,5,6)\<close>)
    then show ?thesis using True add(10) by (simp add: add(5))
  next
    case False
    have c: "c \<notin> set (members_of w (group_of w e))"
      using placed_members [OF ok e cd(1)] placed_members [OF ok cd(1) e] alone False by auto
    have "members_of w (group_of w e) \<noteq> []" using placedD(2) [OF ok e] by auto
    then have mes: "group_update_message ?w (group_of w e) = group_update_message w (group_of w e)"
      by (rule add(12))
    have "sited R ?w e"
    proof (intro sitedI [of _ _ "group_of w e"])
      show "group_of ?w f = group_of w e" if "f \<in> set (members_of ?w (group_of w e))" for f
        using that c False placedD(5) [OF ok e, of f] by (auto simp: add(5,6) split: if_splits)
    qed (use False c placedD(1,2,3,4) [OF ok e] cd(1) in \<open>auto simp: add(2,5,6)\<close>)
    then show ?thesis
      using False placedD(6) [OF ok e] add(11) [OF False] by (simp add: add(5) mes)
  qed
  then show ?thesis by (simp add: placed_def)
qed

subsection \<open>Every operation keeps the invariant\<close>

lemma ok_ungroup:
  assumes "world_ok u w" "c \<in> set (registered w)"
  shows "world_ok u (ungroup u c w)" "group_of (ungroup u c w) = (group_of w)(c := next_group w)"
    "registered (ungroup u c w) = registered w"
    "gc_id (clients (ungroup u c w) d) = gc_id (clients w d)"
    "members_of (ungroup u c w) (next_group w) = [c]"
proof -
  have ok: "placed (set (registered w)) w" using assms(1) by (simp add: world_ok_def)
  note pre = placedD(2,1) [OF ok assms(2)]
  note sites = remove_member_sites [OF pre, of u, folded ungroup_def]
  show g: "group_of (ungroup u c w) = (group_of w)(c := next_group w)"
    by (rule ext) (simp add: sites)
  show r: "registered (ungroup u c w) = registered w" by (simp add: registered_def sites)
  show i: "gc_id (clients (ungroup u c w) d) = gc_id (clients w d)" for d by (simp add: sites)
  show "members_of (ungroup u c w) (next_group w) = [c]" by (simp add: sites)
  have "keyed (ungroup u c w)"
    using assms(1) keyed_cong [of "ungroup u c w" w] i by (simp add: world_ok_def sites)
  moreover have "named u (ungroup u c w)"
    using assms(1) by (auto simp: world_ok_def named_def sites)
  ultimately show "world_ok u (ungroup u c w)"
    using placed_ungroup [OF ok assms(2), of u] by (simp add: world_ok_def r)
qed

lemma ungroup_home: "ungroup u c w = remove_member u (group_of w c) c w"
  by (simp add: ungroup_def)

text \<open>The defensive branch of \<open>add_client\<close> is not taken.\<close>

lemma no_stale_member:
  assumes ok: "world_ok u w" and cd: "c \<in> set (registered w)" "d \<in> set (registered w)"
    and new: "c \<notin> set (members_of w (group_of w d))"
  shows "stale_member (ungroup u c w) (group_of w d) c = None"
proof -
  let ?v = "ungroup u c w"
  have v: "world_ok u ?v" by (rule ok_ungroup(1) [OF ok cd(1)])
  then have placed: "placed (set (registered w)) ?v" and keyed: "keyed ?v"
    using ok_ungroup(3) [OF ok cd(1)] by (simp_all add: world_ok_def)
  have dc: "d \<noteq> c" using new ok cd(1) placedD(2) [of "set (registered w)" w c] by (auto simp: world_ok_def)
  then have home: "group_of ?v d = group_of w d" by (simp add: ok_ungroup(2) [OF ok cd(1)])
  have "group_of w d < next_group w" using ok cd(2) placedD(1) by (auto simp: world_ok_def)
  then have "c \<notin> set (members_of ?v (group_of w d))"
    using placed_members [OF placed cd(2,1)] ok_ungroup(2) [OF ok cd(1)] dc by (simp add: home)
  moreover have "set (members_of ?v (group_of w d)) \<subseteq> set (registered ?v)"
    using placedD(4) [OF placed cd(2)] by (simp add: home ok_ungroup(3) [OF ok cd(1)])
  ultimately show ?thesis
    using keyed_inj [OF keyed] cd(1) ok_ungroup(3) [OF ok cd(1)]
    by (auto simp: stale_member_def find_None_iff)
qed

lemma ok_add:
  assumes ok: "world_ok u w" and cd: "c \<in> set (registered w)" "d \<in> set (registered w)"
  shows "world_ok u (add_member u (group_of w d) c w)"
    "group_of (add_member u (group_of w d) c w) = (group_of w)(c := group_of w d)"
    "registered (add_member u (group_of w d) c w) = registered w"
proof -
  let ?w = "add_member u (group_of w d) c w" and ?v = "ungroup u c w"
  have placed: "placed (set (registered w)) w" using ok by (simp add: world_ok_def)
  show "world_ok u ?w" "group_of ?w = (group_of w)(c := group_of w d)" "registered ?w = registered w"
  proof (atomize (full), cases "c \<in> set (members_of w (group_of w d))")
    case True
    then show "world_ok u ?w \<and> group_of ?w = (group_of w)(c := group_of w d) \<and> registered ?w = registered w"
      using ok placed_members [OF placed cd(2,1)] by (auto simp: add_member_def)
  next
    case False
    note rem = ok_ungroup [OF ok cd(1)]
    have dc: "d \<noteq> c" using False placedD(2) [OF placed cd(1)] by auto
    then have home: "group_of ?v d = group_of w d" by (simp add: rem(2))
    have eq: "?w = plain_add (group_of ?v d) c ?v"
      using add_member_plain [OF no_stale_member [OF ok cd False] False] by (simp add: home)
    have g: "group_of ?w = (group_of w)(c := group_of w d)"
      using dc by (auto simp: eq plain_add_facts(5) home rem(2))
    have r: "registered ?w = registered w" using rem(3) by (simp add: eq registered_def plain_add_facts(4))
    have "placed (set (registered w)) ?w"
      unfolding eq using rem(1,3) cd dc rem(2,5)
      by (intro placed_add) (simp_all add: world_ok_def)
    moreover have "keyed ?w"
      using rem(1) keyed_cong [of ?w ?v] by (simp add: world_ok_def eq plain_add_facts(1,3,4))
    moreover have "named u ?w"
      using rem(1) by (simp add: world_ok_def named_def eq plain_add_facts(2,7))
    ultimately show "world_ok u ?w \<and> group_of ?w = (group_of w)(c := group_of w d) \<and> registered ?w = registered w"
      using g r by (simp add: world_ok_def)
  qed
qed

text \<open>Changes of a client that no group update tells of.\<close>

lemma ok_client:
  assumes ok: "world_ok u w"
    and f: "\<And>x. gc_id (f x) = gc_id x \<and> gc_name (f x) = gc_name x \<and> gc_group (f x) = gc_group x \<and>
      (gc_conn (f x) = gc_conn x \<or> gc_conn (f x) \<noteq> Some True)"
  shows "world_ok u (on_client c f w)" "group_of (on_client c f w) = group_of w"
    "registered (on_client c f w) = registered w"
proof -
  let ?w = "on_client c f w"
  have same: "group_of ?w d = group_of w d" "members_of ?w g = members_of w g" "next_group ?w = next_group w"
    "sgroup_name ?w g = sgroup_name w g" "groups ?w = groups w" for d g
    by (simp_all add: on_client_def group_of_def members_of_def sgroup_name_def f split: option.split list.split)
  show "group_of ?w = group_of w" by (rule ext) (simp add: same)
  show "registered ?w = registered w" by (simp add: registered_def on_client_def)
  then have r: "registered ?w = registered w" by simp
  have "told ?w d m" if "told w d m" for d m
    using that f [of "clients w d"] by (auto simp: told_def on_client_def)
  moreover have "group_update_message ?w g = group_update_message w g" for g
    by (simp add: group_update_message_def same)
  ultimately have "placed (set (registered w)) ?w"
    using ok sited_cong [OF same(1-3)] by (auto simp: placed_def same world_ok_def)
  moreover have "keyed ?w" using ok by (auto simp: world_ok_def keyed_def on_client_def f)
  moreover have "named u ?w" using ok by (simp add: world_ok_def named_def same)
  ultimately show "world_ok u ?w" by (simp add: world_ok_def r)
qed

lemma ok_rename:
  assumes ok: "world_ok u w" and c: "c \<in> set (registered w)" and ren: "renames (group_of w c) (set (registered w)) w w'"
    and same: "client_registry w' = client_registry w" "next_client w' = next_client w"
      "\<And>d. gc_id (clients w' d) = gc_id (clients w d)"
  shows "world_ok u (publish_if_name_changed (group_of w c) (sgroup_name w (group_of w c)) w')" (is "world_ok u ?w")
proof -
  have "placed (set (registered w)) ?w"
    using ok by (intro placed_renames [OF _ c ren]) (simp add: world_ok_def)
  moreover have q: "quiet_step w' ?w" by simp
  then have "registered ?w = registered w" by (simp add: quiet_step_def registered_def same)
  moreover have "keyed ?w"
    using ok keyed_cong [of ?w w] q same by (simp add: world_ok_def quiet_step_def)
  moreover have "named u ?w"
    using ok q ren by (simp add: world_ok_def named_def quiet_step_def renames_def)
  ultimately show ?thesis by (simp add: world_ok_def)
qed

lemma ok_set_name:
  assumes "world_ok u w" "c \<in> set (registered w)"
  shows "world_ok u (set_group_name (group_of w c) n w)"
  unfolding set_group_name_def
  by (rule ok_rename [OF assms]) (simp_all add: renames_def members_of_def sgroup_name_def split: option.split list.split)

lemma ok_hello:
  assumes ok: "world_ok u w" and c: "c \<in> set (registered w)"
  shows "world_ok u (set_identity_from_hello c name negotiated w)"
    "group_of (set_identity_from_hello c name negotiated w) = group_of w"
    "registered (set_identity_from_hello c name negotiated w) = registered w"
proof -
  let ?w = "on_client c (\<lambda>x. x\<lparr>gc_name := name\<rparr>) w"
  let ?v = "publish_if_name_changed (group_of w c) (sgroup_name w (group_of w c)) ?w"
  have placed: "placed (set (registered w)) w" using ok by (simp add: world_ok_def)
  have "sgroup_name ?w (group_of w d) = sgroup_name w (group_of w d)"
    if d: "d \<in> set (registered w)" "group_of w d \<noteq> group_of w c" for d
  proof -
    have "c \<notin> set (members_of w (group_of w d))" using placed_members [OF placed d(1) c] d(2) by simp
    then show ?thesis
      by (cases "members_of w (group_of w d)"; cases "sg_name (groups w (group_of w d))")
         (simp_all add: sgroup_name_def members_of_def on_client_def)
  qed
  then have ren: "renames (group_of w c) (set (registered w)) w ?w"
    by (simp add: renames_def on_client_def group_of_def members_of_def)
  have v: "world_ok u ?v"
    by (rule ok_rename [OF ok c ren]) (simp_all add: on_client_def)
  have same: "group_of ?v d = group_of w d" "registered ?v = registered w" for d
    using quiet_sends(3) [of ?w "group_of w c" "sgroup_name w (group_of w c)"]
    by (simp_all add: quiet_step_def group_of_def registered_def on_client_def)
  note neg = ok_client [OF v, of "\<lambda>x. x\<lparr>gc_negotiated := negotiated\<rparr>" c]
  show "world_ok u (set_identity_from_hello c name negotiated w)"
    "registered (set_identity_from_hello c name negotiated w) = registered w"
    "group_of (set_identity_from_hello c name negotiated w) = group_of w"
    using neg same by (auto simp: set_identity_from_hello_def Let_def)
qed

lemma ok_recorded: "world_ok u (record_calls cs w) = world_ok u w"
  by (simp add: world_ok_def keyed_def named_def placed_def sited_def registered_def)

lemma ok_updates:
  assumes ok: "world_ok u w" and c: "c \<in> set (registered w)"
  shows "world_ok u (start_group_updates c w)"
proof (cases "gc_conn (clients w c) = None")
  case False
  let ?w = "on_client c (\<lambda>x. x\<lparr>gc_conn := Some True\<rparr>) w"
  let ?v = "send_group_update c (group_update_message ?w (group_of ?w c)) ?w"
  have same: "group_of ?v d = group_of w d" "members_of ?v g = members_of w g" "next_group ?v = next_group w"
    "registered ?v = registered w" "sgroup_name ?w g = sgroup_name w g" "groups ?v = groups w" for d g
    by (simp_all add: send_group_update_def on_client_def group_of_def members_of_def registered_def
        sgroup_name_def split: option.split list.split)
  have gw: "group_of ?w d = group_of w d" for d by (simp add: group_of_def)
  have mes: "group_update_message ?v g = group_update_message w g" for g
    by (simp add: group_update_message_def same)
  have mes': "group_update_message ?w g = group_update_message w g" for g
    using mes [of g] by simp
  have "told ?v d (group_update_message w (group_of w d))" if "d \<in> set (registered w)" for d
  proof (cases "d = c")
    case True
    then show ?thesis by (simp add: told_send mes' group_of_def)
  next
    case False
    moreover have "told w d (group_update_message w (group_of w d))"
      using ok that by (simp add: world_ok_def placed_def)
    ultimately show ?thesis by (simp add: told_send) (simp add: told_def)
  qed
  then have "placed (set (registered w)) ?v"
    using ok sited_cong [OF same(1-3)] by (simp add: world_ok_def placed_def mes mes' gw)
  moreover have "keyed ?v"
    using ok by (auto simp: world_ok_def keyed_def send_group_update_def on_client_def)
  moreover have "named u ?v" using ok by (simp add: world_ok_def named_def same)
  ultimately have "world_ok u ?v" by (simp add: world_ok_def same)
  then show ?thesis using False ok by (simp add: start_group_updates_def Let_def)
qed (simp add: start_group_updates_def ok)

lemma ok_create:
  assumes ok: "world_ok u w"
  shows "world_ok u (get_or_create_client u i w)"
proof (cases "dget (client_registry w) i")
  case None
  let ?w = "get_or_create_client u i w" and ?c = "next_client w" and ?g = "next_group w"
  have fresh: "d < ?c" if "d \<in> set (registered w)" for d
    using ok that by (auto simp: world_ok_def keyed_def registered_def)
  have reg: "client_registry ?w = client_registry w @ [(i, ?c)]"
    using None by (simp add: get_or_create_client_def Let_def dset_append)
  have new: "groups ?w ?g = new_sgroup (u ?g) ?c" "clients ?w ?c = new_gclient i ?g" "next_group ?w = Suc ?g"
      "next_client ?w = Suc ?c" "updates ?w = updates w"
    using None by (simp_all add: get_or_create_client_def Let_def)
  have old: "groups ?w g = groups w g" if "g \<noteq> ?g" for g
    using None that by (simp add: get_or_create_client_def Let_def)
  have oldc: "clients ?w d = clients w d" if "d \<noteq> ?c" for d
    using None that by (simp add: get_or_create_client_def Let_def)
  have placed: "placed (set (registered w)) w" using ok by (simp add: world_ok_def)
  have c: "sited (insert ?c (set (registered w))) ?w ?c \<and> told ?w ?c m" for m
    by (simp add: sited_def group_of_def members_of_def new new_sgroup_def new_gclient_def told_def)
  have d: "sited (insert ?c (set (registered w))) ?w d \<and> told ?w d (group_update_message ?w (group_of ?w d))"
    if d: "d \<in> set (registered w)" for d
  proof -
    have dc: "d \<noteq> ?c" using fresh [OF d] by simp
    have g: "group_of w d < ?g" by (rule placedD(1) [OF placed d])
    have home: "group_of ?w d = group_of w d" by (simp add: group_of_def oldc [OF dc])
    have mem: "members_of ?w (group_of w d) = members_of w (group_of w d)" using g by (simp add: members_of_def old)
    have home_of: "group_of ?w e = group_of w d" "e \<noteq> ?c" if "e \<in> set (members_of w (group_of w d))" for e
    proof -
      have "e < ?c" using fresh placedD(4) [OF placed d] that by auto
      then show "group_of ?w e = group_of w d" "e \<noteq> ?c"
        using placedD(5) [OF placed d that] oldc [of e] by (simp_all add: group_of_def)
    qed
    have "sited (insert ?c (set (registered w))) ?w d"
      using placedD(1,2,3,4) [OF placed d] home_of
      by (intro sitedI [of _ _ "group_of w d"]) (auto simp: home mem new)
    moreover have "sgroup_name ?w (group_of w d) = sgroup_name w (group_of w d)"
      using home_of(2) g
      by (cases "members_of w (group_of w d)"; cases "sg_name (groups w (group_of w d))")
         (simp_all add: sgroup_name_def mem old oldc)
    then have "group_update_message ?w (group_of w d) = group_update_message w (group_of w d)"
      using g by (simp add: group_update_message_def old)
    ultimately show ?thesis
      using placedD(6) [OF placed d] by (simp add: home told_def new oldc [OF dc])
  qed
  have "keyed ?w"
    using ok None oldc by (auto simp: world_ok_def keyed_def reg new new_gclient_def dict_ok_def map_of_eq_None_iff less_Suc_eq)
  moreover have "named u ?w" using ok old by (auto simp: world_ok_def named_def new new_sgroup_def less_Suc_eq)
  moreover have "placed (set (registered ?w)) ?w"
    using c d by (simp add: placed_def registered_def reg)
  ultimately show ?thesis by (simp add: world_ok_def)
qed (simp add: get_or_create_client_def ok)

subsection \<open>Runs\<close>

lemma ok_stop: "world_ok u w \<Longrightarrow> c \<in> set (registered w) \<Longrightarrow> world_ok u (stop_group k (group_of w c) w)"
  by (rule ok_informs [OF _ _ informs_stop])

lemma ok_quiesce:
  assumes "world_ok u w" "c \<in> set (registered w)"
  shows "world_ok u (fst (quiesce_to_solo_stopped u c w))"
  using ok_ungroup(1) [OF assms] ok_stop [OF assms, of False]
  by (simp add: quiesce_to_solo_stopped_def ungroup_def end_streams_def ok_recorded Let_def)

lemma ok_leave:
  assumes "world_ok u w" "c \<in> set (registered w)"
  shows "world_ok u (leave_to_solo_group u c w)"
  using ok_quiesce [OF assms] ok_client(1)
  by (auto simp: leave_to_solo_group_def split: prod.split option.split)

lemma connected_registered: "c \<in> set (connected_clients w) \<Longrightarrow> c \<in> set (registered w)"
  by (simp add: connected_clients_def)

lemma find_group_home:
  assumes "find_group_by_id w i = Some g"
  shows "\<exists>d\<in>set (connected_clients w). group_of w d = g \<and> sg_id (groups w g) = i"
  using assms by (auto simp: find_group_by_id_def find_Some_iff)

lemma all_groups_homes: "g \<in> set (all_groups w) \<Longrightarrow> \<exists>d\<in>set (connected_clients w). group_of w d = g"
proof -
  have "set (foldl (\<lambda>gs c. let g = group_of w c in
       if sg_id (groups w g) \<in> (sg_id \<circ> groups w) ` set gs then gs else gs @ [g]) gs cs) \<subseteq> set gs \<union> group_of w ` set cs" for gs cs
  proof (induction cs arbitrary: gs)
    case (Cons c cs)
    show ?case using Cons.IH [of gs] Cons.IH [of "gs @ [group_of w c]"] by (auto simp: Let_def)
  qed simp
  then show "g \<in> set (all_groups w) \<Longrightarrow> ?thesis" by (fastforce simp: all_groups_def)
qed

text \<open>Leaving one's group for that of another registered client, as a switch does.\<close>

lemma ok_move:
  assumes ok: "world_ok u w" and cd: "c \<in> set (registered w)" "d \<in> set (registered w)"
    and apart: "group_of w d \<noteq> group_of w c"
  defines "w' \<equiv> add_member u (group_of w d) c (remove_member u (group_of w c) c w)"
  shows "world_ok u w'" "group_of w' = (group_of w)(c := group_of w d)" "registered w' = registered w"
proof -
  let ?v = "ungroup u c w"
  note rem = ok_ungroup [OF ok cd(1)]
  have home: "group_of ?v d = group_of w d" using apart rem(2) by auto
  have w': "w' = add_member u (group_of ?v d) c ?v" by (simp add: w'_def home) (simp add: ungroup_def)
  have "c \<in> set (registered ?v)" "d \<in> set (registered ?v)" using cd by (simp_all add: rem(3))
  note add = ok_add [OF rem(1) this, folded w']
  show "world_ok u w'" "group_of w' = (group_of w)(c := group_of w d)" "registered w' = registered w"
    using add home by (simp_all add: rem(2,3))
qed

lemma ok_rejoin:
  assumes ok: "world_ok u w" and c: "c \<in> set (registered w)"
  shows "world_ok u (fst (try_rejoin_previous_group u c w))"
    "registered (fst (try_rejoin_previous_group u c w)) = registered w"
proof -
  let ?w = "on_client c (\<lambda>x. x\<lparr>gc_previous := None, gc_leave_solo := None\<rparr>) w"
  note keep = ok_client [OF ok, of "\<lambda>x. x\<lparr>gc_previous := None, gc_leave_solo := None\<rparr>" c, simplified]
  have "world_ok u (add_member u g c (remove_member u (group_of ?w c) c ?w)) \<and>
      registered (add_member u g c (remove_member u (group_of ?w c) c ?w)) = registered w"
    if g: "find_group_by_id ?w i = Some g" "g \<noteq> group_of ?w c" for i g
  proof -
    obtain d where d: "d \<in> set (registered ?w)" "group_of ?w d = g"
      using find_group_home [OF g(1)] connected_registered by blast
    then show ?thesis
      using ok_move [of u ?w c d] keep g(2) c by simp
  qed
  then show "world_ok u (fst (try_rejoin_previous_group u c w))"
    "registered (fst (try_rejoin_previous_group u c w)) = registered w"
    using ok keep by (auto simp: try_rejoin_previous_group_def Let_def split: option.split)
qed

lemma next_in_cycle_mem: "cyc \<noteq> [] \<Longrightarrow> next_in_cycle cyc g \<in> set cyc"
  by (auto simp: next_in_cycle_def)

lemma ok_switch_cycle:
  assumes ok: "world_ok u w" and c: "c \<in> set (registered w)"
  shows "world_ok u (switch_cycle ord u c w)"
proof -
  define cyc where "cyc = build_group_cycle ord w (all_groups w) (group_of w c) (has_player w c)"
  have "\<exists>d\<in>set (registered w). group_of w d = g" if "Some g \<in> set cyc" "g \<noteq> group_of w c" for g
    using that all_groups_homes [of g w] connected_registered
    by (auto simp: cyc_def build_group_cycle_def Let_def split: if_splits)
  then have "world_ok u (add_member u g c (remove_member u (group_of w c) c w))"
    if "next_in_cycle cyc (group_of w c) = Some g" "cyc \<noteq> []" "g \<noteq> group_of w c" for g
    using that next_in_cycle_mem [of cyc "group_of w c"] ok_move(1) [OF ok c] by metis
  then show ?thesis
    using ok ok_ungroup(1) [OF ok c]
    by (auto simp: switch_cycle_def cyc_def [symmetric] Let_def ungroup_def split: option.split)
qed

lemma ok_switch:
  assumes "world_ok u w" "c \<in> set (registered w)"
  shows "world_ok u (handle_switch_command ord u c w)"
  using ok_rejoin [OF assms] assms ok_switch_cycle
  by (auto simp: handle_switch_command_def split: prod.split bool.split)

lemma values_dict: "d \<in> snd ` set kvs \<longleftrightarrow> (\<exists>j. (j, d) \<in> set kvs)"
  by force

lemma values_ddel: "d \<in> snd ` set (ddel i kvs) \<longleftrightarrow> (\<exists>j. (j, d) \<in> set kvs \<and> j \<noteq> i)"
  by (force simp: set_ddel)

lemma ok_unregister:
  assumes ok: "world_ok u w"
  shows "world_ok u (unregister_client u i w)"
proof (cases "dget (client_registry w) i")
  case (Some c)
  let ?w = "w\<lparr>client_registry := ddel i (client_registry w)\<rparr>" and ?R = "set (registered w)"
  let ?v = "ungroup u c ?w"
  have key: "dict_ok (client_registry w)" and c: "c \<in> ?R"
    using ok image_eqI [of c snd "(i, c)"] map_of_SomeD [OF Some]
    by (simp_all add: world_ok_def keyed_def registered_def)
  have same: "group_of ?w d = group_of w d" "members_of ?w g = members_of w g" "sgroup_name ?w g = sgroup_name w g" for d g
    by (simp_all add: group_of_def members_of_def sgroup_name_def split: option.split list.split)
  have placed: "placed ?R ?w"
    using ok sited_cong [OF same(1,2)] by (simp add: world_ok_def placed_def told_def group_update_message_def same)
  note sites = remove_member_sites [OF placedD(2,1) [OF placed c], of u, folded ungroup_def]
  have reg: "set (registered ?v) = ?R - {c}"
  proof -
    have id: "gc_id (clients w b) = a" if "(a, b) \<in> set (client_registry w)" for a b
      using keyedD(1) [OF _ that] ok unfolding world_ok_def by blast
    have only: "d = c \<longleftrightarrow> j = i" if "(j, d) \<in> set (client_registry w)" for j d
    proof
      show "j = i" if "d = c"
        using id [OF \<open>(j, d) \<in> set (client_registry w)\<close>] id [OF map_of_SomeD [OF Some]] that by simp
      show "d = c" if "j = i"
        using dict_ok_values [OF key, of i d] \<open>(j, d) \<in> set (client_registry w)\<close> that Some by simp
    qed
    have "d \<in> set (registered ?v) \<longleftrightarrow> (\<exists>j. (j, d) \<in> set (client_registry w) \<and> j \<noteq> i)" for d
      by (simp add: registered_def sites(4) values_ddel)
    moreover have "d \<in> ?R - {c} \<longleftrightarrow> (\<exists>j. (j, d) \<in> set (client_registry w) \<and> d \<noteq> c)" for d
      by (simp add: registered_def values_dict)
    ultimately show ?thesis using only by (intro set_eqI) metis
  qed
  have v: "placed ?R ?v" by (rule placed_ungroup [OF placed c])
  have "placed (?R - {c}) ?v"
    unfolding placed_def
  proof (intro ballI conjI)
    fix d assume d: "d \<in> ?R - {c}"
    then show "told ?v d (group_update_message ?v (group_of ?v d))" using placedD(6) [OF v] by simp
    have "group_of ?v c \<noteq> group_of ?v d"
      using d placedD(1) [OF placed, of d] unfolding sites(5) by simp
    then have "c \<notin> set (members_of ?v (group_of ?v d))"
      using d placed_members [OF v _ c, of d] by blast
    moreover have "sited ?R ?v d" using d v by (simp add: placed_def)
    ultimately show "sited (?R - {c}) ?v d" unfolding sited_def by blast
  qed
  moreover have "keyed ?v"
    unfolding keyed_def
  proof (intro conjI ballI, simp add: sites(4) key, clarify)
    fix j d assume "(j, d) \<in> set (client_registry ?v)"
    then have "(j, d) \<in> set (client_registry w)" by (simp add: sites(4) set_ddel)
    then have "gc_id (clients w d) = j" "d < next_client w"
      using keyedD [of w j d] ok by (simp_all add: world_ok_def)
    then show "gc_id (clients ?v d) = j \<and> d < next_client ?v" by (auto simp: sites(1,3))
  qed
  moreover have "named u ?v" using ok by (auto simp: world_ok_def named_def sites)
  ultimately have "world_ok u ?v" by (simp add: world_ok_def reg)
  then show ?thesis using Some by (simp add: unregister_client_def)
qed (simp add: unregister_client_def ok)

lemma ok_attach:
  assumes "world_ok u w" "c \<in> set (registered w)"
  shows "world_ok u (attach_connection c legacy name negotiated roles w)"
proof -
  note on = ok_client [OF assms(1), of "\<lambda>x. x\<lparr>gc_conn := Some False, gc_pre177 := legacy, gc_connected := False\<rparr>" c, simplified]
  let ?w = "on_client c (\<lambda>x. x\<lparr>gc_conn := Some False, gc_pre177 := legacy, gc_connected := False\<rparr>) w"
  have "world_ok u (set_identity_from_hello c name negotiated ?w)"
    using on assms(2) by (intro ok_hello(1)) simp_all
  then show ?thesis
    by (simp add: attach_connection_def Let_def ok_recorded ok_client(1))
qed

lemma ok_connection:
  assumes "world_ok u w"
  shows "world_ok u (detach_connection c roles w)" "world_ok u (mark_connected c w)"
  using assms by (simp_all add: detach_connection_def mark_connected_def Let_def ok_recorded ok_client(1))

lemma ok_availability:
  assumes "world_ok u w" "c \<in> set (registered w)"
  shows "world_ok u (handle_availability_change u a c w)"
proof -
  let ?w = "record_calls [AvailabilityHooks c (gc_available (clients w c)) a] (on_client c (\<lambda>x. x\<lparr>gc_available := a\<rparr>) w)"
  have "world_ok u ?w" "registered ?w = registered w"
    using ok_client [OF assms(1), of "\<lambda>x. x\<lparr>gc_available := a\<rparr>" c, simplified]
    by (simp_all add: ok_recorded registered_def)
  then show ?thesis
    using ok_leave [of u ?w c] assms(2) by (cases a) (simp_all add: handle_availability_change_def Let_def)
qed

end
