(* ===== verification/Group_Agreement.thy ===== *)
theory Group_Agreement
  imports Client_Groups_Facts
begin

text \<open>
  What holds of the groups of clients in every run of the server: the interface of a grouping, the step
  relation of the server's grouping operations, and the properties of its reachable states.
\<close>

subsection \<open>The interface of a grouping\<close>

text \<open>Each known client has a home; leaving moves it to a home of its own, joining to that of another.\<close>

locale grouping =
  fixes ok :: "'s \<Rightarrow> bool"
    and known :: "'s \<Rightarrow> nat set"
    and home :: "'s \<Rightarrow> nat \<Rightarrow> nat"
    and fresh :: "'s \<Rightarrow> nat"
    and leave :: "nat \<Rightarrow> 's \<Rightarrow> 's"
    and join :: "nat \<Rightarrow> nat \<Rightarrow> 's \<Rightarrow> 's"
  assumes leave_ok: "ok s \<Longrightarrow> c \<in> known s \<Longrightarrow> ok (leave c s)"
    and leave_known: "ok s \<Longrightarrow> c \<in> known s \<Longrightarrow> known (leave c s) = known s"
    and leave_home: "ok s \<Longrightarrow> c \<in> known s \<Longrightarrow> home (leave c s) = (home s)(c := fresh s)"
    and fresh_home: "ok s \<Longrightarrow> d \<in> known s \<Longrightarrow> home s d \<noteq> fresh s"
    and join_ok: "ok s \<Longrightarrow> c \<in> known s \<Longrightarrow> d \<in> known s \<Longrightarrow> ok (join (home s d) c s)"
    and join_home: "ok s \<Longrightarrow> c \<in> known s \<Longrightarrow> d \<in> known s \<Longrightarrow> home (join (home s d) c s) = (home s)(c := home s d)"
begin

lemma leave_alone:
  "ok s \<Longrightarrow> c \<in> known s \<Longrightarrow> d \<in> known s \<Longrightarrow> home (leave c s) d = home (leave c s) c \<Longrightarrow> d = c"
  using fresh_home [of s d] by (auto simp: leave_home split: if_splits)

lemma leave_join:
  assumes "ok s" "c \<in> known s" "d \<in> known s" "d \<noteq> c" "home s d = home s c"
  shows "home (join (home s c) c (leave c s)) = home s"
proof -
  have d: "home (leave c s) d = home s c" using assms by (simp add: leave_home)
  have "home (join (home (leave c s) d) c (leave c s)) = (home (leave c s))(c := home s c)"
    using assms leave_ok leave_known by (subst join_home) (simp_all add: d)
  also have "\<dots> = home s" using assms(1,2) by (auto simp: leave_home)
  finally show ?thesis by (simp only: d)
qed

end

interpretation server: grouping "world_ok u" "\<lambda>w. set (registered w)" group_of next_group
  "ungroup u" "add_member u" for u
proof unfold_locales
  fix w c d assume ok: "world_ok u w" and c: "c \<in> set (registered w)"
  show "world_ok u (ungroup u c w)" "set (registered (ungroup u c w)) = set (registered w)"
    "group_of (ungroup u c w) = (group_of w)(c := next_group w)"
    using ok_ungroup [OF ok c] by simp_all
  have placed: "placed (set (registered w)) w" using ok by (simp add: world_ok_def)
  then show "group_of w c \<noteq> next_group w" using placedD(1) [OF placed c] by simp
  assume d: "d \<in> set (registered w)"
  show "world_ok u (add_member u (group_of w d) c w)"
    "group_of (add_member u (group_of w d) c w) = (group_of w)(c := group_of w d)"
    using ok_add [OF ok c d] by simp_all
qed

subsection \<open>Runs of the server\<close>

text \<open>The operations apply to clients of the registry and to their groups.\<close>

inductive world_step :: "(nat \<Rightarrow> string) \<Rightarrow> (string \<Rightarrow> nat) \<Rightarrow> world \<Rightarrow> world \<Rightarrow> bool" for u ord w where
  create: "world_step u ord w (get_or_create_client u i w)"
| unregister: "world_step u ord w (unregister_client u i w)"
| attach: "c \<in> set (registered w) \<Longrightarrow> world_step u ord w (attach_connection c legacy name negotiated roles w)"
| hello: "c \<in> set (registered w) \<Longrightarrow> world_step u ord w (set_identity_from_hello c name negotiated w)"
| start_updates: "c \<in> set (registered w) \<Longrightarrow> world_step u ord w (start_group_updates c w)"
| connected: "world_step u ord w (mark_connected c w)"
| detach: "world_step u ord w (detach_connection c roles w)"
| rename: "c \<in> set (registered w) \<Longrightarrow> world_step u ord w (set_group_name (group_of w c) n w)"
| start: "c \<in> set (registered w) \<Longrightarrow> world_step u ord w (start_stream (group_of w c) w)"
| stop_transport: "c \<in> set (registered w) \<Longrightarrow> world_step u ord w (stop_stream (group_of w c) w)"
| push_stop: "c \<in> set (registered w) \<Longrightarrow> world_step u ord w (push_stream_stop (group_of w c) w)"
| stop: "c \<in> set (registered w) \<Longrightarrow> world_step u ord w (stop_group keep (group_of w c) w)"
| remove: "c \<in> set (registered w) \<Longrightarrow> world_step u ord w (ungroup u c w)"
| add: "c \<in> set (registered w) \<Longrightarrow> d \<in> set (registered w) \<Longrightarrow> world_step u ord w (add_member u (group_of w d) c w)"
| quiesce: "c \<in> set (registered w) \<Longrightarrow> world_step u ord w (fst (quiesce_to_solo_stopped u c w))"
| leave: "c \<in> set (registered w) \<Longrightarrow> world_step u ord w (leave_to_solo_group u c w)"
| available: "c \<in> set (registered w) \<Longrightarrow> world_step u ord w (handle_availability_change u a c w)"
| switch: "c \<in> set (registered w) \<Longrightarrow> world_step u ord w (handle_switch_command ord u c w)"

inductive world_run :: "(nat \<Rightarrow> string) \<Rightarrow> (string \<Rightarrow> nat) \<Rightarrow> world \<Rightarrow> bool" for u ord where
  empty: "world_run u ord new_world"
| step: "world_run u ord w \<Longrightarrow> world_step u ord w w' \<Longrightarrow> world_run u ord w'"

lemma world_step_ok: "world_step u ord w w' \<Longrightarrow> world_ok u w \<Longrightarrow> world_ok u w'"
  by (cases rule: world_step.cases)
     (auto intro: ok_create ok_unregister ok_attach ok_hello(1) ok_updates ok_connection ok_set_name ok_stop
       ok_ungroup(1) ok_add(1) ok_quiesce ok_leave ok_availability ok_switch ok_informs [OF _ _ informs_start_stream]
       ok_informs [OF _ _ informs_stop_stream(1)] ok_informs [OF _ _ informs_stop_stream(2)])

lemma world_run_ok: "world_run u ord w \<Longrightarrow> world_ok u w"
proof (induction rule: world_run.induct)
  case empty
  show ?case by (simp add: world_ok_def keyed_def named_def placed_def registered_def new_world_def)
qed (rule world_step_ok)

subsection \<open>Properties\<close>

text \<open>C12. As long as a group is addressed through a client that is in it, the members of a client's group
  are exactly the registered clients whose group it is, each listed once, in every state the server
  reaches. The solo group \<open>add_client\<close> moves a client through is then no client's group and not
  covered: it goes on listing the client (\<open>transit_group_keeps_member\<close> below).\<close>

theorem groups_partition_registry:
  assumes "world_run u ord w" "c \<in> set (registered w)"
  shows "distinct (members_of w (group_of w c)) \<and>
    set (members_of w (group_of w c)) = {d \<in> set (registered w). group_of w d = group_of w c}"
proof -
  have ok: "placed (set (registered w)) w" using world_run_ok [OF assms(1)] by (simp add: world_ok_def)
  show ?thesis
    using placedD(3,4) [OF ok assms(2)] placed_members [OF ok assms(2)] by blast
qed

text \<open>C11. Every client whose connection receives group updates was last told the present playback state,
  id and name of the group it is in, whoever renames, moves, starts or stops what.\<close>

theorem clients_know_their_group:
  assumes "world_run u ord w" "c \<in> set (registered w)" "gc_conn (clients w c) = Some True"
  shows "map_of (rev (updates w)) c = Some (group_update_message w (group_of w c))"
  using placedD(6) [of "set (registered w)" w c] world_run_ok [OF assms(1)] assms(2,3)
  by (simp add: world_ok_def told_def)

lemma leave_shared:
  assumes ok: "world_ok u w" and cd: "c \<in> set (registered w)" "d \<in> set (registered w)" "d \<noteq> c"
    and shared: "group_of w d = group_of w c"
  shows "leave_to_solo_group u c w =
    on_client c (\<lambda>x. x\<lparr>gc_previous := Some (u (group_of w c)), gc_leave_solo := Some (u (next_group w))\<rparr>)
      (ungroup u c w)"
proof -
  have placed: "placed (set (registered w)) w" using ok by (simp add: world_ok_def)
  have "c \<in> set (members_of w (group_of w c))" "d \<in> set (members_of w (group_of w c))"
    using placed_members [OF placed cd(1)] cd shared by simp_all
  then have long: "1 < length (members_of w (group_of w c))"
    using cd(3) by (cases "members_of w (group_of w c)"; cases "tl (members_of w (group_of w c))") auto
  have "sg_id (groups w (group_of w c)) = u (group_of w c)"
    using ok placedD(1) [OF placed cd(1)] by (simp add: world_ok_def named_def)
  moreover have "sg_id (groups (ungroup u c w) (next_group w)) = u (next_group w)"
    using remove_member_sites(7) [OF placedD(2,1) [OF placed cd(1)], of u] by (simp add: ungroup_def)
  ultimately show ?thesis
    using long ok_ungroup(2) [OF ok cd(1)]
    by (simp add: leave_to_solo_group_def quiesce_to_solo_stopped_def ungroup_def [symmetric] Let_def)
qed

text \<open>C13. A client that left a shared group, by \<open>client/leave\<close> or on becoming unavailable, is alone in a
  group of its own; its next switch takes it back to the group it left, with every other client where it
  was, as long as some connected client is still there.\<close>

theorem leave_then_switch_rejoins:
  assumes run: "world_run u ord w" and u: "inj u" and cd: "c \<in> set (registered w)" "d \<in> set (registered w)" "d \<noteq> c"
    and shared: "group_of w d = group_of w c"
    and ready: "gc_available (clients w c)" "is_connected (clients w d)"
  shows "members_of (leave_to_solo_group u c w) (group_of (leave_to_solo_group u c w) c) = [c] \<and>
    group_of (handle_switch_command ord u c (leave_to_solo_group u c w)) = group_of w"
proof -
  let ?g = "group_of w c" and ?n = "next_group w" and ?v = "ungroup u c w"
  have ok: "world_ok u w" by (rule world_run_ok [OF run])
  have placed: "placed (set (registered w)) w" using ok by (simp add: world_ok_def)
  note rem = ok_ungroup [OF ok cd(1)] and pre = placedD(2,1) [OF placed cd(1)]
  note sites = remove_member_sites [OF pre, of u, folded ungroup_def]
  define w1 where "w1 = leave_to_solo_group u c w"
  have w1: "w1 = on_client c (\<lambda>x. x\<lparr>gc_previous := Some (u ?g), gc_leave_solo := Some (u ?n)\<rparr>) ?v"
    unfolding w1_def by (rule leave_shared [OF ok cd shared])
  have keep1: "world_ok u w1" "group_of w1 = group_of ?v" "registered w1 = registered w"
    unfolding w1 using ok_client [OF rem(1)] by (simp_all add: rem(3))
  define w2 where "w2 = on_client c (\<lambda>x. x\<lparr>gc_previous := None, gc_leave_solo := None\<rparr>) w1"
  have keep2: "world_ok u w2" "group_of w2 = group_of ?v" "registered w2 = registered w"
    unfolding w2_def using ok_client [OF keep1(1)] keep1(2,3) by simp_all
  have solo: "members_of w1 (group_of w1 c) = [c]"
    using keep1(2) rem(2,5) by (simp add: w1)
  have d2: "group_of w2 d = ?g" using cd(3) shared by (simp add: keep2(2) rem(2))
  have cl: "clients w2 d = clients w d" using cd(3) by (simp add: w2_def w1 sites)
  have dc: "d \<in> set (connected_clients w2)"
    using cd ready(2) by (simp add: connected_clients_def keep2(3) cl)
  have ids: "sg_id (groups w2 (group_of w2 e)) = u (group_of w2 e)" if "e \<in> set (registered w2)" for e
    using keep2(1) that placedD(1) [of "set (registered w2)" w2 e] by (simp add: world_ok_def named_def)
  have "sg_id (groups w2 (group_of w2 d)) = u ?g" using ids [of d] cd(2) d2 keep2(3) by simp
  with dc have "find (\<lambda>e. sg_id (groups w2 (group_of w2 e)) = u ?g) (connected_clients w2) \<noteq> None"
    unfolding find_None_iff by blast
  then obtain e where e: "find (\<lambda>e. sg_id (groups w2 (group_of w2 e)) = u ?g) (connected_clients w2) = Some e"
    by blast
  then have "e \<in> set (connected_clients w2)" "sg_id (groups w2 (group_of w2 e)) = u ?g"
    by (auto simp: find_Some_iff)
  then have "group_of w2 e = ?g"
    using ids connected_registered injD [OF u] by metis
  then have found: "find_group_by_id w2 (u ?g) = Some ?g" using e by (simp add: find_group_by_id_def)
  have apart: "group_of w2 d \<noteq> group_of w2 c" using d2 pre(2) by (simp add: keep2(2) rem(2))
  have "should_rejoin_previous_group w1 c"
    using ready(1) solo by (simp add: should_rejoin_previous_group_def keep1(2) rem(2)) (simp add: w1 sites)
  then have "try_rejoin_previous_group u c w1 = (add_member u ?g c (remove_member u (group_of w2 c) c w2), True)"
    using apart found
    by (simp add: try_rejoin_previous_group_def w2_def [symmetric] d2) (simp add: w1 found)
  moreover have "gc_available (clients w1 c)" using ready(1) by (simp add: w1 sites)
  ultimately have "handle_switch_command ord u c w1 = add_member u ?g c (remove_member u (group_of w2 c) c w2)"
    by (simp add: handle_switch_command_def)
  moreover have "group_of (add_member u ?g c (remove_member u (group_of w2 c) c w2)) = (group_of w2)(c := ?g)"
    using ok_move(2) [OF keep2(1) _ _ apart] cd(1,2) by (simp add: keep2(3) d2)
  ultimately show ?thesis
    using solo by (auto simp: w1_def [symmetric] keep2(2) rem(2))
qed

subsection \<open>What is left of a group\<close>

lemma state_send [simp]: "groups (publish_if_name_changed g n w) = groups w"
  by (simp add: publish_if_name_changed_def)

lemma stop_group_stops:
  assumes "members_of w g \<noteq> []"
  shows "sg_state (groups (stop_group k g w) g) = STOPPED \<and> sg_stream (groups (stop_group k g w) g) \<noteq> Some False"
  using assms
  by (auto simp: stop_group_def stop_needed_def has_active_stream_def set_playback_state_def stop_stream_def)

lemma groups_invalidate: "groups (stop_and_invalidate_stale_binary g cs w) = groups (stop_group False g w)"
  by (simp add: stop_and_invalidate_stale_binary_def end_streams_def Let_def)

text \<open>A removal stops what is left of the group when no player remains in it, and leaves its playback
  and its stream alone when one does.\<close>

theorem remnant_without_player_stops:
  assumes c: "c \<in> set (members_of w g)" "g < next_group w" and rest: "remove1 c (members_of w g) \<noteq> []"
  shows "if list_ex (has_player w) (remove1 c (members_of w g))
    then sg_state (groups (remove_member u g c w) g) = sg_state (groups w g) \<and>
      sg_stream (groups (remove_member u g c w) g) = sg_stream (groups w g)
    else sg_state (groups (remove_member u g c w) g) = STOPPED \<and>
      \<not> has_active_stream (remove_member u g c w) g"
proof -
  let ?w1 = "drop_member g c w"
  let ?w2 = "settle_remnant g c (sgroup_name w g) ?w1"
  have "length (members_of w g) \<noteq> 1" using c(1) rest by (cases "members_of w g") auto
  then have g1: "groups ?w1 g = (groups w g)\<lparr>sg_clients := remove1 c (members_of w g)\<rparr>"
    by (simp add: drop_member_def members_of_def)
  have mem: "members_of ?w1 g = remove1 c (members_of w g)" "has_player ?w1 = has_player w"
    using drop_member_facts(1,5) [OF c(1)] by (auto simp: has_player_def)
  have "quiet_step ?w1 ?w2" by simp
  then have n: "next_group ?w2 = next_group w"
    using drop_member_facts(2) [OF c(1)] by (simp add: quiet_step_def)
  have "groups (remove_member u g c w) g = groups ?w2 g"
    using c by (simp add: remove_member_def Let_def found_group_def set_client_group_def n)
  also have "groups ?w2 g = (if list_ex (has_player w) (remove1 c (members_of w g)) then groups ?w1 g
      else groups (stop_group False g ?w1) g)"
    using rest by (simp add: settle_remnant_def mem groups_invalidate Let_def)
  finally show ?thesis
    using stop_group_stops [of ?w1 g False] rest by (simp add: mem g1 has_active_stream_def)
qed

text \<open>\<open>add_client\<close> moves a client by way of a solo group that \<open>ungroup\<close> founds: that group keeps listing
  the client afterwards, although it is in another group.\<close>

lemma transit_group_keeps_member:
  assumes ok: "world_ok u w" and cd: "c \<in> set (registered w)" "d \<in> set (registered w)"
    and new: "c \<notin> set (members_of w (group_of w d))"
  shows "members_of (add_member u (group_of w d) c w) (next_group w) = [c] \<and>
    group_of (add_member u (group_of w d) c w) c \<noteq> next_group w"
proof -
  have placed: "placed (set (registered w)) w" using ok by (simp add: world_ok_def)
  have g: "group_of w d < next_group w" by (rule placedD(1) [OF placed cd(2)])
  have "add_member u (group_of w d) c w = plain_add (group_of w d) c (ungroup u c w)"
    by (rule add_member_plain [OF no_stale_member [OF ok cd new] new])
  then show ?thesis
    using g ok_ungroup(5) [OF ok cd(1)] by (simp add: plain_add_facts(5,6))
qed

subsection \<open>Witnesses\<close>

definition sample_uuid :: "nat \<Rightarrow> string" where
  "sample_uuid n = replicate n (CHR ''x'')"

definition sample_join :: "nat \<Rightarrow> string \<Rightarrow> string list \<Rightarrow> world \<Rightarrow> world" where
  "sample_join c name roles w =
     mark_connected c (start_group_updates c (attach_connection c False name roles []
       (get_or_create_client sample_uuid name w)))"

text \<open>A speaker and a display, the display in the speaker's group.\<close>

definition sample_speaker :: world where
  "sample_speaker = sample_join 0 ''speaker'' [''player@v1''] new_world"

definition sample_pair :: world where
  "sample_pair = sample_join 1 ''display'' [''artwork@v1''] sample_speaker"

definition sample_shared :: world where
  "sample_shared = add_member sample_uuid (group_of sample_pair 0) 1 sample_pair"

lemma run_join:
  assumes "world_run sample_uuid ord w" "c \<in> set (registered (get_or_create_client sample_uuid name w))"
  shows "world_run sample_uuid ord (sample_join c name roles w)"
proof -
  let ?w = "get_or_create_client sample_uuid name w"
  have "world_run sample_uuid ord ?w" using assms(1) create by (rule world_run.step)
  then have "world_run sample_uuid ord (attach_connection c False name roles [] ?w)"
    using assms(2) by (rule world_run.step [OF _ attach])
  moreover have "set (registered (attach_connection c False name roles [] ?w)) = set (registered ?w)"
    by (simp add: attach_connection_def set_identity_from_hello_def publish_if_name_changed_def Let_def registered_def
        send_to_clients_eq)
  ultimately have "world_run sample_uuid ord (start_group_updates c (attach_connection c False name roles [] ?w))"
    using assms(2) by (auto intro: world_run.step [OF _ start_updates])
  then show ?thesis unfolding sample_join_def by (rule world_run.step [OF _ connected])
qed

lemma sample_runs:
  "world_run sample_uuid ord sample_pair" "world_run sample_uuid ord sample_shared"
proof -
  have "0 \<in> set (registered (get_or_create_client sample_uuid ''speaker'' new_world))" by code_simp
  then have "world_run sample_uuid ord sample_speaker"
    unfolding sample_speaker_def by (intro run_join world_run.empty)
  moreover have "1 \<in> set (registered (get_or_create_client sample_uuid ''display'' sample_speaker))" by code_simp
  ultimately show pair: "world_run sample_uuid ord sample_pair"
    unfolding sample_pair_def by (intro run_join)
  have "1 \<in> set (registered sample_pair)" "0 \<in> set (registered sample_pair)" by code_simp+
  then show "world_run sample_uuid ord sample_shared"
    unfolding sample_shared_def by (rule world_run.step [OF pair add])
qed

theorem groups_partition_registry_witness:
  "set (members_of sample_shared (group_of sample_shared 1)) = {d \<in> set (registered sample_shared).
     group_of sample_shared d = group_of sample_shared 1} \<and> members_of sample_shared 0 = [0, 1]"
proof
  have "1 \<in> set (registered sample_shared)" by code_simp
  then show "set (members_of sample_shared (group_of sample_shared 1)) = {d \<in> set (registered sample_shared).
     group_of sample_shared d = group_of sample_shared 1}"
    using groups_partition_registry [OF sample_runs(2), of 1] by blast
  show "members_of sample_shared 0 = [0, 1]" by code_simp
qed

theorem clients_know_their_group_witness:
  "map_of (rev (updates sample_shared)) 1 = Some (STOPPED, [], ''speaker'')"
proof -
  have "1 \<in> set (registered sample_shared)" "gc_conn (clients sample_shared 1) = Some True" by code_simp+
  then have "map_of (rev (updates sample_shared)) 1 =
      Some (group_update_message sample_shared (group_of sample_shared 1))"
    by (rule clients_know_their_group [OF sample_runs(2)])
  moreover have "group_update_message sample_shared (group_of sample_shared 1) = (STOPPED, [], ''speaker'')"
    by code_simp
  ultimately show ?thesis by simp
qed

theorem leave_then_switch_rejoins_witness:
  "group_of (handle_switch_command length sample_uuid 1 (leave_to_solo_group sample_uuid 1 sample_shared)) 1 = 0 \<and>
   group_of (leave_to_solo_group sample_uuid 1 sample_shared) 1 = 3"
proof -
  have "inj sample_uuid" by (rule injI) (simp add: sample_uuid_def)
  moreover have "1 \<in> set (registered sample_shared)" "0 \<in> set (registered sample_shared)" "(0::nat) \<noteq> 1"
    "group_of sample_shared 0 = group_of sample_shared 1" "gc_available (clients sample_shared 1)"
    "is_connected (clients sample_shared 0)" by code_simp+
  ultimately have "group_of (handle_switch_command length sample_uuid 1
      (leave_to_solo_group sample_uuid 1 sample_shared)) = group_of sample_shared"
    using leave_then_switch_rejoins [OF sample_runs(2)] by blast
  moreover have "group_of sample_shared 1 = 0" "group_of (leave_to_solo_group sample_uuid 1 sample_shared) 1 = 3"
    by code_simp+
  ultimately show ?thesis by simp
qed

theorem remnant_without_player_stops_witness:
  "sg_state (groups (remove_member sample_uuid 0 0 (start_stream 0 sample_shared)) 0) = STOPPED \<and>
   sg_state (groups (start_stream 0 sample_shared) 0) = PLAYING"
proof
  let ?w = "start_stream 0 sample_shared"
  have "0 \<in> set (members_of ?w 0)" "0 < next_group ?w" "remove1 0 (members_of ?w 0) \<noteq> []"
    "\<not> list_ex (has_player ?w) (remove1 0 (members_of ?w 0))" by code_simp+
  then show "sg_state (groups (remove_member sample_uuid 0 0 ?w) 0) = STOPPED"
    using remnant_without_player_stops [of 0 ?w 0 sample_uuid] by simp
  show "sg_state (groups ?w 0) = PLAYING" by code_simp
qed

end
