(* ===== verification/Player_Frame.thy ===== *)
theory Player_Frame
  imports Prelude
begin

text \<open>
  The headers in front of binary payloads: \<open>BinaryHeader\<close> of \<open>models/__init__.py\<close> and the player's
  audio chunk header of \<open>models/player.py\<close>, whose \<open>send_ahead\<close> is stamped right before transmission.
  A value that \<open>struct\<close> refuses to pack is \<open>None\<close>; a \<open>q\<close> field is a 64-bit word read as signed.
\<close>

subsection \<open>Packing\<close>

definition AUDIO_CHUNK :: nat where "AUDIO_CHUNK = 4"
definition PLAYER_AUDIO_HEADER_LEN :: nat where "PLAYER_AUDIO_HEADER_LEN = 13"
definition SEND_AHEAD_OFFSET :: nat where "SEND_AHEAD_OFFSET = PLAYER_AUDIO_HEADER_LEN - 4"
definition SEND_AHEAD_MAX :: int where "SEND_AHEAD_MAX = 0xFFFFFFFF"
definition BINARY_HEADER_SIZE :: nat where "BINARY_HEADER_SIZE = 9"

lemmas frame_consts [const_defs] =
  AUDIO_CHUNK_def PLAYER_AUDIO_HEADER_LEN_def SEND_AHEAD_OFFSET_def SEND_AHEAD_MAX_def BINARY_HEADER_SIZE_def

definition pack_q :: "int \<Rightarrow> bytes option" where
  "pack_q n = (if - (2 ^ 63) \<le> n \<and> n < 2 ^ 63
     then Some (to_bytes_be 8 (unat (word_of_int n :: 64 word))) else None)"

definition unpack_q :: "bytes \<Rightarrow> int" where
  "unpack_q bs = sint (word_of_nat (from_bytes_be bs) :: 64 word)"

definition pack_I :: "int \<Rightarrow> bytes option" where
  "pack_I n = (if 0 \<le> n \<and> n < 2 ^ 32 then Some (to_bytes_be 4 (nat n)) else None)"

definition pack_B :: "nat \<Rightarrow> bytes option" where
  "pack_B n = (if n < 256 then Some [word_of_nat n] else None)"

definition pack_binary_header_raw :: "nat \<Rightarrow> int \<Rightarrow> bytes option" where
  "pack_binary_header_raw message_type timestamp_us =
     (case (pack_B message_type, pack_q timestamp_us) of
        (Some t, Some q) \<Rightarrow> Some (t @ q) | _ \<Rightarrow> None)"

definition unpack_binary_header :: "bytes \<Rightarrow> (nat \<times> int) option" where
  "unpack_binary_header data =
     (if length data < BINARY_HEADER_SIZE then None
      else Some (unat (hd data), unpack_q (take 8 (tl data))))"

definition compute_send_ahead :: "int \<Rightarrow> int \<Rightarrow> int" where
  "compute_send_ahead timestamp_us now = max 0 (min (timestamp_us - now) SEND_AHEAD_MAX)"

definition pack_player_audio_header :: "int \<Rightarrow> int \<Rightarrow> bytes option" where
  "pack_player_audio_header timestamp_us send_ahead =
     (case (pack_q timestamp_us, pack_I send_ahead) of
        (Some q, Some i) \<Rightarrow> Some (word_of_nat AUDIO_CHUNK # q @ i) | _ \<Rightarrow> None)"

text \<open>The frame is built around a zero \<open>send_ahead\<close>, then the payload is copied behind the header.\<close>

definition pack_player_audio_frame :: "int \<Rightarrow> bytes \<Rightarrow> bytes option" where
  "pack_player_audio_frame timestamp_us payload =
     map_option (\<lambda>h. h @ payload) (pack_player_audio_header timestamp_us 0)"

text \<open>\<open>pack_into\<close> at the field's offset; it refuses a buffer too short to hold the field.\<close>

definition stamp_send_ahead :: "bytes \<Rightarrow> int \<Rightarrow> bytes option" where
  "stamp_send_ahead frame send_ahead =
     (case pack_I send_ahead of
        None \<Rightarrow> None
      | Some i \<Rightarrow> if length frame < SEND_AHEAD_OFFSET + 4 then None
          else Some (take SEND_AHEAD_OFFSET frame @ i @ drop (SEND_AHEAD_OFFSET + 4) frame))"

definition unpack_player_audio_header :: "bytes \<Rightarrow> (nat \<times> int \<times> int) option" where
  "unpack_player_audio_header data =
     (if length data < PLAYER_AUDIO_HEADER_LEN then None
      else Some (unat (hd data), unpack_q (take 8 (tl data)),
             int (from_bytes_be (take 4 (drop 9 data)))))"

subsection \<open>Round trips\<close>

lemma pack_q_length: "pack_q n = Some q \<Longrightarrow> length q = 8"
  by (auto simp: pack_q_def split: if_splits)

lemma unpack_pack_q: "pack_q n = Some q \<Longrightarrow> unpack_q q = n"
proof -
  assume "pack_q n = Some q"
  then have n: "- (2 ^ 63) \<le> n" "n < 2 ^ 63" and q: "q = to_bytes_be 8 (unat (word_of_int n :: 64 word))"
    by (auto simp: pack_q_def split: if_splits)
  have "unat (word_of_int n :: 64 word) < 256 ^ 8"
    using unsigned_less [of "word_of_int n :: 64 word"] by simp
  then have "unpack_q q = sint (word_of_int n :: 64 word)"
    by (simp add: unpack_q_def q from_to_bytes_be)
  also have "\<dots> = n"
    using n by (simp add: signed_of_int signed_take_bit_int_eq_self)
  finally show ?thesis .
qed

lemma pack_I_unpack: "pack_I n = Some i \<Longrightarrow> length i = 4 \<and> int (from_bytes_be i) = n"
  by (auto simp: pack_I_def from_to_bytes_be split: if_splits)

lemma packed_q: "pack_q n = Some q \<Longrightarrow> length q = 8 \<and> take 8 (q @ r) = q \<and> unpack_q q = n"
  by (simp add: pack_q_length unpack_pack_q)

lemma binary_header_roundtrip:
  assumes "pack_binary_header_raw t n = Some h"
  shows "unpack_binary_header (h @ payload) = Some (t, n)"
proof -
  obtain q where "t < 256" "pack_q n = Some q" "h = word_of_nat t # q"
    using assms by (auto simp: pack_binary_header_raw_def pack_B_def split: option.splits if_splits)
  then show ?thesis
    using packed_q [of n q payload] by (auto simp: unpack_binary_header_def const_defs unat_of_nat)
qed

lemma compute_send_ahead_range: "0 \<le> compute_send_ahead t now" "compute_send_ahead t now < 2 ^ 32"
  by (simp_all add: compute_send_ahead_def const_defs)

text \<open>What the connection transmits for a player chunk.\<close>

definition audio_frame :: "int \<Rightarrow> int \<Rightarrow> bytes \<Rightarrow> bytes option" where
  "audio_frame now timestamp_us payload =
     (case pack_player_audio_frame timestamp_us payload of
        None \<Rightarrow> None
      | Some frame \<Rightarrow> stamp_send_ahead frame (compute_send_ahead timestamp_us now))"

text \<open>C40. A player chunk arrives with the timestamp and the payload it was queued with, and with the lead
  that was left when its transmission started, saturated to 32 bits; only a timestamp that does not fit
  64 bits cannot be framed.\<close>

theorem stamped_frame_roundtrip:
  "audio_frame now ts payload =
     (if - (2 ^ 63) \<le> ts \<and> ts < 2 ^ 63
      then Some (take 13 (the (audio_frame now ts payload)) @ payload) else None) \<and>
   (- (2 ^ 63) \<le> ts \<and> ts < 2 ^ 63 \<longrightarrow>
      unpack_player_audio_header (the (audio_frame now ts payload)) =
        Some (AUDIO_CHUNK, ts, min (max 0 (ts - now)) (2 ^ 32 - 1)))"
proof (cases "- (2 ^ 63) \<le> ts \<and> ts < 2 ^ 63")
  case True
  then obtain q where q: "pack_q ts = Some q" by (simp add: pack_q_def)
  obtain i where i: "pack_I (compute_send_ahead ts now) = Some i"
    using compute_send_ahead_range [of ts now] by (simp add: pack_I_def)
  obtain z where z: "pack_I 0 = Some z" by (simp add: pack_I_def)
  have "audio_frame now ts payload = Some (4 # q @ i @ payload)"
    using packed_q [OF q, of "[]"] pack_I_unpack [OF i] pack_I_unpack [OF z]
    by (simp add: audio_frame_def pack_player_audio_frame_def pack_player_audio_header_def
        stamp_send_ahead_def const_defs q i z)
  then show ?thesis
    using True packed_q [OF q, of "i @ payload"] pack_I_unpack [OF i]
    by (auto simp: unpack_player_audio_header_def compute_send_ahead_def const_defs)
next
  case False
  then have "pack_q ts = None" by (auto simp: pack_q_def)
  then show ?thesis using False
    by (auto simp: audio_frame_def pack_player_audio_frame_def pack_player_audio_header_def)
qed

text \<open>Ten milliseconds before its timestamp, a chunk is announced with 10000 microseconds of lead.\<close>

theorem stamped_frame_roundtrip_witness:
  "unpack_player_audio_header (the (audio_frame 90000 100000 [1, 2, 3])) = Some (AUDIO_CHUNK, 100000, 10000)"
  using stamped_frame_roundtrip [of 90000 100000 "[1, 2, 3]"] by simp

end
