(* ===== verification/Send_Queue.thy ===== *)
theory Send_Queue
  imports Buffer_Tracker Player_Frame Client_State "HOL-Library.Char_ord" "HOL-Library.List_Lexorder"
begin

text \<open>
  The outgoing queues and the writer of one server connection (\<open>server/connection.py\<close>). A role is its
  family name. The clock readings of an operation are its arguments. A step of the writer runs to the
  point where the transport awaits and finishes in a step of its own, so that any operation can come in
  between, as it can on the event loop. \<open>wire\<close> logs each transmission when it starts. Logging, debug
  statistics and the events of \<open>wait_role_drained\<close> are left out.
\<close>

subsection \<open>Heaps\<close>

text \<open>The entries of \<open>_ready_roles\<close> and \<open>_delayed_roles\<close>, and (with its own role) the key of an entry of
  a role's heap: tuples that \<open>heapq\<close> compares from the left. A heap is its sorted list.\<close>

datatype slot = Slot (due: int) (tick: nat) (owner: string)

instantiation slot :: linorder
begin

definition less_eq_slot :: "slot \<Rightarrow> slot \<Rightarrow> bool" where
  "less_eq_slot a b \<longleftrightarrow> due a < due b \<or> due a = due b \<and>
     (tick a < tick b \<or> tick a = tick b \<and> owner a \<le> owner b)"

definition less_slot :: "slot \<Rightarrow> slot \<Rightarrow> bool" where
  "less_slot a b \<longleftrightarrow> a \<le> b \<and> \<not> b \<le> (a :: slot)"

instance
proof
  fix x y z :: slot
  show "x < y \<longleftrightarrow> x \<le> y \<and> \<not> y \<le> x" by (rule less_slot_def)
  show "x \<le> x" by (simp add: less_eq_slot_def)
  show "x \<le> y \<or> y \<le> x" by (auto simp: less_eq_slot_def)
  show "x \<le> z" if "x \<le> y" "y \<le> z" using that by (auto simp: less_eq_slot_def)
  show "x = y" if "x \<le> y" "y \<le> x"
    using that by (cases x; cases y) (auto simp: less_eq_slot_def)
qed

end

subsection \<open>Messages and entries\<close>

text \<open>The server messages the queues distinguish. A stream/start lists the families and application
  roles it has objects for; a command lists the families it addresses and whether it is a source start.\<close>

datatype ('c, 'a, 'm) srv_msg =
    Stream_Start (carried: "string list") (stamped: int)
  | Stream_Clear "string list option" int
  | Stream_End "string list option"
  | Server_State "('c, 'a) state_payload"
  | Legacy_State "('c, 'a) state_payload" "'m option"
  | Group_Update "string option" "string option" "string option"
  | Server_Command "string list" bool 'm
  | Server_Time int int int
  | Server_Activate 'm
  | Server_Unpair
  | Other_Message 'm

record binary_data =
  payload :: bytes
  message_type :: nat
  buffer_end_time_us :: "int option"
  buffer_byte_count :: "int option"
  bin_duration_us :: "int option"
  player_audio_header :: bool
  epoch_exempt :: bool

datatype ('c, 'a, 'm) content = Binary binary_data | Json "('c, 'a, 'm) srv_msg"

record ('c, 'a, 'm) entry =
  epoch :: nat
  entry_ts :: int
  content :: "('c, 'a, 'm) content"

type_synonym ('c, 'a, 'm) item = "slot \<times> ('c, 'a, 'm) entry"

datatype ('c, 'a, 'm) frame = Message_Frame "('c, 'a, 'm) srv_msg" | Bytes_Frame bytes

text \<open>One transmission: over the priority or the control queue, or an entry of a role with the slot it
  was queued under.\<close>

datatype ('c, 'a, 'm) sent =
    SentPriority "('c, 'a, 'm) frame" | SentControl "('c, 'a, 'm) srv_msg"
  | SentJson slot "('c, 'a, 'm) srv_msg" | SentBinary slot "('c, 'a, 'm) entry" bytes

subsection \<open>State\<close>

text \<open>A role object, as far as the writer uses it, and the handling a message type is cached with: the
  policy and the family of the role object that declared it.\<close>

record handling =
  drop_late :: bool
  grace_period_us :: int
  buffer_track :: bool
  handling_role :: string

record role_obj =
  stream_start_time_us :: "int option"
  role_output_delay_us :: int
  role_tracker :: "tracker option"

text \<open>What the rest of the connection determines: the handling cache of the client, the bounds of the
  role queues, and the wire dialect (\<open>clears_state_fields_with_null\<close> and \<open>uses_pre_spec_177_wire\<close>, with
  the repeat and shuffle a legacy server/state adds).\<close>

record 'm dialect =
  handling_cache :: "nat \<Rightarrow> handling option"
  max_pending :: "string \<Rightarrow> nat"
  clears_with_null :: bool
  legacy_controls :: "'m option"
  pre_177_wire :: bool

datatype writer = Idle | Asleep "int option" | Sending_Control
  | Sending (sending_role: string) (tracked: "(string \<times> chunk) option") | Stopped

record held_binary =
  held_role :: string
  held_epoch :: nat
  held_ts :: int
  held_binary :: binary_data

record ('c, 'a, 'm) conn =
  queue_sequence :: nat
  queue_size :: int
  priority_messages :: "('c, 'a, 'm) frame list"
  normal_messages :: "('c, 'a, 'm) srv_msg list"
  role_queues :: "(string, ('c, 'a, 'm) item list) dict"
  last_enqueued_ts :: "string \<Rightarrow> int option"
  epoch_by_role :: "(string, nat) dict"
  ready_roles :: "slot list"
  delayed_roles :: "slot list"
  blocked_until :: "string \<Rightarrow> int option"
  block_generation :: "string \<Rightarrow> nat"
  streaming_roles :: "string list"
  retiring_roles :: "string list"
  awaiting_state :: "string list"
  initial_hold :: bool
  pending_binary :: "held_binary list"
  source_starts :: nat
  awaiting_activate :: bool
  disconnect_called :: bool
  wakeup :: bool
  role_objs :: "string \<Rightarrow> role_obj"
  writer :: writer
  wire :: "('c, 'a, 'm) sent list"

definition MAX_PENDING_MSG :: nat where "MAX_PENDING_MSG = 4096"

definition new_conn :: "(string \<Rightarrow> role_obj) \<Rightarrow> ('c, 'a, 'm) conn" where
  "new_conn objs = \<lparr>queue_sequence = 0, queue_size = 0, priority_messages = [], normal_messages = [],
     role_queues = [], last_enqueued_ts = (\<lambda>_. None), epoch_by_role = [], ready_roles = [],
     delayed_roles = [], blocked_until = (\<lambda>_. None), block_generation = (\<lambda>_. 0), streaming_roles = [],
     retiring_roles = [], awaiting_state = [], initial_hold = False, pending_binary = [], source_starts = 0,
     awaiting_activate = False, disconnect_called = False, wakeup = False, role_objs = objs,
     writer = Idle, wire = []\<rparr>"

text \<open>\<open>_role_queues.get(role, [])\<close>, and a queue put back: the code deletes an emptied one.\<close>

definition role_queue :: "('c, 'a, 'm) conn \<Rightarrow> string \<Rightarrow> ('c, 'a, 'm) item list" where
  "role_queue s r = (case dget (role_queues s) r of None \<Rightarrow> [] | Some q \<Rightarrow> q)"

definition put_queue :: "string \<Rightarrow> ('c, 'a, 'm) item list \<Rightarrow> ('c, 'a, 'm) conn \<Rightarrow> ('c, 'a, 'm) conn" where
  "put_queue r q s = s\<lparr>role_queues := (if q = [] then ddel r (role_queues s) else dset r q (role_queues s))\<rparr>"

text \<open>\<open>_epoch_by_role\<close> is a \<open>defaultdict(int)\<close>: reading it creates the key.\<close>

definition epoch_of :: "('c, 'a, 'm) conn \<Rightarrow> string \<Rightarrow> nat" where
  "epoch_of s r = (case dget (epoch_by_role s) r of None \<Rightarrow> 0 | Some e \<Rightarrow> e)"

definition touch_epoch :: "string \<Rightarrow> ('c, 'a, 'm) conn \<Rightarrow> ('c, 'a, 'm) conn" where
  "touch_epoch r s = s\<lparr>epoch_by_role := dset r (epoch_of s r) (epoch_by_role s)\<rparr>"

definition wake_writer :: "('c, 'a, 'm) conn \<Rightarrow> ('c, 'a, 'm) conn" where
  "wake_writer s = s\<lparr>wakeup := True\<rparr>"

text \<open>\<open>_disconnect_due_to_queue_overflow\<close> starts a task that disconnects, once.\<close>

definition queue_overflow :: "('c, 'a, 'm) conn \<Rightarrow> ('c, 'a, 'm) conn" where
  "queue_overflow s = s\<lparr>disconnect_called := True\<rparr>"

definition shrink :: "nat \<Rightarrow> ('c, 'a, 'm) conn \<Rightarrow> ('c, 'a, 'm) conn" where
  "shrink n s = s\<lparr>queue_size := max (queue_size s - int n) 0\<rparr>"

subsection \<open>The two-level heap\<close>

text \<open>What the heaps compare of an entry, pushed with the name of its role.\<close>

definition head_slot :: "string \<Rightarrow> slot \<Rightarrow> slot" where
  "head_slot r k = Slot (due k) (tick k) r"

definition schedule_role_head :: "string \<Rightarrow> ('c, 'a, 'm) conn \<Rightarrow> ('c, 'a, 'm) conn" where
  "schedule_role_head r s =
     (if blocked_until s r \<noteq> None then s
      else case role_queue s r of
          [] \<Rightarrow> s
        | (k, _) # _ \<Rightarrow> s\<lparr>ready_roles := insort (head_slot r k) (ready_roles s)\<rparr>)"

definition discard_role_head :: "string \<Rightarrow> ('c, 'a, 'm) conn \<Rightarrow> ('c, 'a, 'm) conn" where
  "discard_role_head r s =
     (case role_queue s r of [] \<Rightarrow> s | _ # q \<Rightarrow> put_queue r q (shrink 1 s))"

definition enqueue_role_entry :: "string \<Rightarrow> int \<Rightarrow> ('c, 'a, 'm) entry \<Rightarrow> ('c, 'a, 'm) conn \<Rightarrow> ('c, 'a, 'm) conn" where
  "enqueue_role_entry r sort_ts e s =
     (let k = Slot sort_ts (queue_sequence s) r;
          q = insort_key fst (k, e) (role_queue s r);
          s = put_queue r q (s\<lparr>queue_sequence := Suc (queue_sequence s), queue_size := queue_size s + 1\<rparr>);
          s = (if blocked_until s r = None \<and> head_slot r (fst (hd q)) = k
               then s\<lparr>ready_roles := insort k (ready_roles s)\<rparr> else s)
      in wake_writer s)"

text \<open>\<open>_peek_ready_entry\<close> with the heap as its argument: a slot is dropped when its role is blocked or has
  nothing queued, and renewed when its role's head has changed.\<close>

definition stale_slot :: "('c, 'a, 'm) conn \<Rightarrow> slot \<Rightarrow> bool" where
  "stale_slot s x = (case role_queue s (owner x) of [] \<Rightarrow> True | (k, _) # _ \<Rightarrow> head_slot (owner x) k \<noteq> x)"

text \<open>A renewed slot is not stale: every turn of the loop shortens the heap or leaves one stale slot less.\<close>

lemma stale_insort: "length (filter (stale_slot s) (insort x xs)) =
    (if stale_slot s x then 1 else 0) + length (filter (stale_slot s) xs)"
  by (induction xs) auto

function peek_loop :: "('c, 'a, 'm) conn \<Rightarrow> slot list \<Rightarrow> (string \<times> ('c, 'a, 'm) item) option \<times> slot list" where
  "peek_loop s [] = (None, [])"
| "peek_loop s (x # ready) =
     (if blocked_until s (owner x) \<noteq> None then peek_loop s ready
      else case role_queue s (owner x) of
          [] \<Rightarrow> peek_loop s ready
        | (k, e) # _ \<Rightarrow>
            (if head_slot (owner x) k \<noteq> x then peek_loop s (insort (head_slot (owner x) k) ready)
             else (Some (owner x, k, e), ready)))"
  by pat_completeness auto
termination
  by (relation "measure (\<lambda>(s, xs). length xs + length (filter (stale_slot s) xs))")
     (auto simp: stale_insort, auto simp: stale_slot_def head_slot_def split: list.splits)

definition peek_ready_entry :: "('c, 'a, 'm) conn \<Rightarrow> (string \<times> ('c, 'a, 'm) item) option \<times> ('c, 'a, 'm) conn" where
  "peek_ready_entry s = (let (r, ready) = peek_loop s (ready_roles s) in (r, s\<lparr>ready_roles := ready\<rparr>))"

definition block_role :: "string \<Rightarrow> int \<Rightarrow> ('c, 'a, 'm) conn \<Rightarrow> ('c, 'a, 'm) conn" where
  "block_role r ready_at s =
     (let gen = block_generation s r + 1
      in s\<lparr>blocked_until := (blocked_until s)(r := Some ready_at),
           block_generation := (block_generation s)(r := gen),
           delayed_roles := insort (Slot ready_at gen r) (delayed_roles s)\<rparr>)"

text \<open>The loop of \<open>_promote_ready_roles\<close>, one popped slot at a time.\<close>

definition promote_slot :: "slot \<Rightarrow> ('c, 'a, 'm) conn \<Rightarrow> ('c, 'a, 'm) conn" where
  "promote_slot d s =
     (if block_generation s (owner d) \<noteq> tick d then s
      else if blocked_until s (owner d) \<noteq> Some (due d) then s
      else schedule_role_head (owner d) (s\<lparr>blocked_until := (blocked_until s)(owner d := None)\<rparr>))"

fun promote_loop :: "int \<Rightarrow> slot list \<Rightarrow> ('c, 'a, 'm) conn \<Rightarrow> ('c, 'a, 'm) conn" where
  "promote_loop now [] s = s"
| "promote_loop now (d # ds) s =
     (if due d \<le> now then promote_loop now ds (promote_slot d (s\<lparr>delayed_roles := ds\<rparr>)) else s)"

definition promote_ready_roles :: "int \<Rightarrow> ('c, 'a, 'm) conn \<Rightarrow> ('c, 'a, 'm) conn" where
  "promote_ready_roles now s = promote_loop now (delayed_roles s) s"

subsection \<open>Queueing\<close>

definition drop_one :: "string \<Rightarrow> ('c, 'a, 'm) conn \<Rightarrow> ('c, 'a, 'm) conn" where
  "drop_one r s =
     (let s = s\<lparr>epoch_by_role := dset r (epoch_of s r + 1) (epoch_by_role s)\<rparr>
      in if blocked_until s r \<noteq> None
         then schedule_role_head r (s\<lparr>blocked_until := (blocked_until s)(r := None),
                block_generation := (block_generation s)(r := block_generation s r + 1)\<rparr>)
         else s)"

definition drop_pending_binary :: "string list option \<Rightarrow> ('c, 'a, 'm) conn \<Rightarrow> ('c, 'a, 'm) conn" where
  "drop_pending_binary roles s =
     wake_writer (foldl (\<lambda>s r. drop_one r s) s (case roles of None \<Rightarrow> map fst (epoch_by_role s) | Some rs \<Rightarrow> rs))"

definition send_priority_message :: "('c, 'a, 'm) frame \<Rightarrow> ('c, 'a, 'm) conn \<Rightarrow> ('c, 'a, 'm) conn" where
  "send_priority_message m s =
     (if MAX_PENDING_MSG \<le> length (priority_messages s) then queue_overflow s
      else wake_writer (s\<lparr>queue_sequence := queue_sequence s + 1, priority_messages := priority_messages s @ [m],
             queue_size := queue_size s + 1\<rparr>))"

definition is_role_queue_full :: "'m dialect \<Rightarrow> string \<Rightarrow> ('c, 'a, 'm) conn \<Rightarrow> bool" where
  "is_role_queue_full d r s \<longleftrightarrow> max_pending d r \<le> length (role_queue s r)"

definition send_binary :: "'m dialect \<Rightarrow> string \<Rightarrow> int \<Rightarrow> binary_data \<Rightarrow> ('c, 'a, 'm) conn \<Rightarrow> ('c, 'a, 'm) conn" where
  "send_binary d r ts b s =
     (if epoch_exempt b \<and> r \<in> set (retiring_roles s) then send_priority_message (Bytes_Frame (payload b)) s
      else if r \<in> set (awaiting_state s) \<or> initial_hold s
      then let s = touch_epoch r s in
        s\<lparr>pending_binary := pending_binary s @
            [\<lparr>held_role = r, held_epoch = epoch_of s r, held_ts = ts, held_binary = b\<rparr>]\<rparr>
      else if is_role_queue_full d r s then queue_overflow s
      else let sort_ts = max 0 (max ts (case last_enqueued_ts s r of None \<Rightarrow> 0 | Some t \<Rightarrow> t));
               s = touch_epoch r s;
               e = \<lparr>epoch = epoch_of s r, entry_ts = ts, content = Binary b\<rparr>
           in enqueue_role_entry r sort_ts e (s\<lparr>last_enqueued_ts := (last_enqueued_ts s)(r := Some sort_ts)\<rparr>))"

definition flush_one :: "'m dialect \<Rightarrow> held_binary \<Rightarrow> ('c, 'a, 'm) conn \<Rightarrow> ('c, 'a, 'm) conn" where
  "flush_one d h s =
     (if epoch_exempt (held_binary h) \<or> held_epoch h = epoch_of s (held_role h)
      then send_binary d (held_role h) (held_ts h) (held_binary h) s else s)"

definition flush_pending_binary :: "'m dialect \<Rightarrow> ('c, 'a, 'm) conn \<Rightarrow> ('c, 'a, 'm) conn" where
  "flush_pending_binary d s =
     foldl (\<lambda>s h. flush_one d h s) (s\<lparr>pending_binary := []\<rparr>) (pending_binary s)"

definition json_of :: "('c, 'a, 'm) item \<Rightarrow> ('c, 'a, 'm) srv_msg option" where
  "json_of i = (case content (snd i) of Json m \<Rightarrow> Some m | Binary _ \<Rightarrow> None)"

fun is_start :: "('c, 'a, 'm) srv_msg \<Rightarrow> bool" where
  "is_start (Stream_Start _ _) = True" | "is_start _ = False"

fun is_clear :: "('c, 'a, 'm) srv_msg \<Rightarrow> bool" where
  "is_clear (Stream_Clear _ _) = True" | "is_clear _ = False"

fun is_end :: "('c, 'a, 'm) srv_msg \<Rightarrow> bool" where
  "is_end (Stream_End _) = True" | "is_end _ = False"

definition json_is :: "(('c, 'a, 'm) srv_msg \<Rightarrow> bool) \<Rightarrow> ('c, 'a, 'm) item \<Rightarrow> bool" where
  "json_is P i \<longleftrightarrow> (case json_of i of None \<Rightarrow> False | Some m \<Rightarrow> P m)"

text \<open>The second component: whether a stream/end is owed.\<close>

definition supersede_queued_stream :: "string \<Rightarrow> ('c, 'a, 'm) conn \<Rightarrow> ('c, 'a, 'm) conn \<times> bool" where
  "supersede_queued_stream r s =
     (let q = role_queue s r;
          kept = filter (\<lambda>i. \<not> json_is (\<lambda>m. is_start m \<or> is_clear m) i) q;
          s = (if q = [] then s else put_queue r kept (shrink (length q - length kept) s))
      in (s, \<not> list_ex (json_is is_end) kept \<and> r \<in> set (streaming_roles s)))"

text \<open>The roles a stream/clear or stream/end names, \<open>None\<close> when the message is neither.\<close>

fun boundary_roles :: "('c, 'a, 'm) srv_msg \<Rightarrow> string list option option" where
  "boundary_roles (Stream_Clear rs _) = Some rs"
| "boundary_roles (Stream_End rs) = Some rs"
| "boundary_roles _ = None"

definition drop_at_boundary :: "('c, 'a, 'm) srv_msg \<Rightarrow> ('c, 'a, 'm) conn \<Rightarrow> ('c, 'a, 'm) conn" where
  "drop_at_boundary m s = (case boundary_roles m of None \<Rightarrow> s | Some rs \<Rightarrow> drop_pending_binary rs s)"

definition send_role_message :: "'m dialect \<Rightarrow> int \<Rightarrow> string \<Rightarrow> ('c, 'a, 'm) srv_msg
    \<Rightarrow> ('c, 'a, 'm) conn \<Rightarrow> ('c, 'a, 'm) conn" where
  "send_role_message d now r m s =
     (let s = drop_at_boundary m s;
          (s, owed) = (if is_end m then supersede_queued_stream r s else (s, True))
      in if \<not> owed then s
         else if r \<in> set (retiring_roles s) then send_priority_message (Message_Frame m) s
         else if is_role_queue_full d r s then queue_overflow s
         else let before = (case last_enqueued_ts s r of None \<Rightarrow> 0 | Some t \<Rightarrow> t);
                  sort_ts = (if is_start m then max now before else if is_end m then now else before);
                  s = (if is_start m \<or> is_end m
                       then s\<lparr>last_enqueued_ts := (last_enqueued_ts s)(r := Some sort_ts)\<rparr> else s);
                  s = touch_epoch r s;
                  e = \<lparr>epoch = epoch_of s r, entry_ts = sort_ts, content = Json m\<rparr>
              in enqueue_role_entry r sort_ts e s)"

definition connection_send_message :: "('c, 'a, 'm) srv_msg \<Rightarrow> ('c, 'a, 'm) conn \<Rightarrow> ('c, 'a, 'm) conn" where
  "connection_send_message m s =
     (let s = drop_at_boundary m s
      in if int MAX_PENDING_MSG \<le> queue_size s then queue_overflow s
         else wake_writer (s\<lparr>normal_messages := normal_messages s @ [m], queue_size := queue_size s + 1\<rparr>))"

fun commands_role :: "string \<Rightarrow> ('c, 'a, 'm) srv_msg \<Rightarrow> bool" where
  "commands_role r (Server_Command rs _ _) = (r \<in> set rs)"
| "commands_role r _ = False"

text \<open>\<open>_discard_role_queue\<close>: an end still owed goes ahead of the activation; a message equal to a
  discarded command is discarded too, so that the removals are a filter.\<close>

definition discard_role_queue :: "string \<Rightarrow> ('c, 'a, 'm) conn \<Rightarrow> ('c, 'a, 'm) conn" where
  "discard_role_queue r s =
     (let q = role_queue s r;
          lifecycle = filter (\<lambda>m. is_start m \<or> is_end m) (List.map_filter json_of q);
          s = (if q = [] then s else shrink (length q) (put_queue r [] s));
          s = (if lifecycle \<noteq> [] \<and> is_end (last lifecycle)
               then send_priority_message (Message_Frame (last lifecycle)) s else s);
          n = length (filter (commands_role r) (normal_messages s));
          s = shrink n (s\<lparr>normal_messages := filter (\<lambda>m. \<not> commands_role r m) (normal_messages s)\<rparr>)
      in drop_pending_binary (Some [r]) (s\<lparr>last_enqueued_ts := (last_enqueued_ts s)(r := None)\<rparr>))"

text \<open>The synchronous calls other components make: the queueing operations, the changes of what holds
  binary back, and the role objects' own changes.\<close>

datatype ('c, 'a, 'm) call =
    Binary_Call string int binary_data
  | Role_Message_Call int string "('c, 'a, 'm) srv_msg"
  | Message_Call "('c, 'a, 'm) srv_msg"
  | Priority_Call "('c, 'a, 'm) frame"
  | Drop_Call "string list option"
  | Flush_Call
  | Hold_Call "string list" bool
  | Tracker_Call string tracker_op
  | Role_Obj_Call string "int option" int

fun apply_call :: "'m dialect \<Rightarrow> ('c, 'a, 'm) call \<Rightarrow> ('c, 'a, 'm) conn \<Rightarrow> ('c, 'a, 'm) conn" where
  "apply_call d (Binary_Call r t b) s = send_binary d r t b s"
| "apply_call d (Role_Message_Call now r m) s = send_role_message d now r m s"
| "apply_call d (Message_Call m) s = connection_send_message m s"
| "apply_call d (Priority_Call m) s = send_priority_message m s"
| "apply_call d (Drop_Call rs) s = drop_pending_binary rs s"
| "apply_call d Flush_Call s = flush_pending_binary d s"
| "apply_call d (Hold_Call rs i) s = s\<lparr>awaiting_state := rs, initial_hold := i\<rparr>"
| "apply_call d (Tracker_Call r op) s =
     s\<lparr>role_objs := (role_objs s)(r := (role_objs s r)\<lparr>role_tracker := map_option (\<lambda>t. tracker_step t op)
        (role_tracker (role_objs s r))\<rparr>)\<rparr>"
| "apply_call d (Role_Obj_Call r start delay) s =
     s\<lparr>role_objs := (role_objs s)(r := (role_objs s r)\<lparr>stream_start_time_us := start, role_output_delay_us := delay\<rparr>)\<rparr>"

text \<open>\<open>_send_activation\<close> with the families it removes and the calls their teardown makes.\<close>

definition send_activation :: "'m dialect \<Rightarrow> string list \<Rightarrow> ('c, 'a, 'm) call list \<Rightarrow> 'm
    \<Rightarrow> ('c, 'a, 'm) conn \<Rightarrow> ('c, 'a, 'm) conn" where
  "send_activation d retiring teardown m s =
     (let s = foldl (\<lambda>s r. discard_role_queue r s) s retiring;
          s = foldl (\<lambda>s c. apply_call d c s) (s\<lparr>retiring_roles := retiring\<rparr>) teardown
      in send_priority_message (Message_Frame (Server_Activate m)) (s\<lparr>retiring_roles := []\<rparr>))"

end
