(* ===== verification/Connection_Writer.thy ===== *)
theory Connection_Writer
  imports Send_Queue
begin

text \<open>
  The writer task of a server connection (\<open>server/connection.py\<close>) over the queues of \<open>Send_Queue\<close>: what a
  message changes when it is sent, the late and buffer checks of a binary entry, and one turn of the
  writer's loop up to its await. The clock readings a turn makes one after the other are \<open>t 0\<close>, \<open>t 1\<close>, and
  so on. The step relation puts the turns, the end of a transmission and the calls of other components
  in any order.
\<close>

subsection \<open>Sending a message\<close>

definition schedules_over_current :: "('c, 'a) state_payload \<Rightarrow> ('c, 'a) state_payload \<Rightarrow> int \<Rightarrow> bool" where
  "schedules_over_current existing incoming now =
     list_ex (\<lambda>name. case (role_timestamp name existing, role_timestamp name incoming) of
         (Some old, Some new) \<Rightarrow> now < new \<and> old \<le> now
       | _ \<Rightarrow> False) [METADATA, COLOR]"

text \<open>\<open>ServerMessage.merge\<close>: only server/state and group/update merge, and no field of a group/update is an
  \<open>UndefinedField\<close>, so that the incoming one replaces the other.\<close>

fun merge_messages :: "('c, 'a, 'm) srv_msg \<Rightarrow> ('c, 'a, 'm) srv_msg \<Rightarrow> ('c, 'a, 'm) srv_msg option" where
  "merge_messages (Server_State p) (Server_State p') = Some (Server_State (merge_payload p p'))"
| "merge_messages (Group_Update _ _ _) (Group_Update a b c) = Some (Group_Update a b c)"
| "merge_messages _ _ = None"

definition merge_state_messages :: "int \<Rightarrow> ('c, 'a, 'm) srv_msg \<Rightarrow> ('c, 'a, 'm) srv_msg
    \<Rightarrow> ('c, 'a, 'm) srv_msg option" where
  "merge_state_messages now existing incoming =
     (case (existing, incoming) of
        (Server_State p, Server_State p') \<Rightarrow>
          if schedules_over_current p p' now then None else merge_messages existing incoming
      | _ \<Rightarrow> merge_messages existing incoming)"

text \<open>\<open>_send_message\<close> up to its await: the message as it goes out, and what the connection records.\<close>

fun stamp_message :: "'m dialect \<Rightarrow> int \<Rightarrow> ('c, 'a, 'm) srv_msg \<Rightarrow> ('c, 'a, 'm) srv_msg" where
  "stamp_message d now (Server_Time ct sr st) = Server_Time ct sr now"
| "stamp_message d now (Stream_Start names st) = Stream_Start names now"
| "stamp_message d now (Stream_Clear roles st) = Stream_Clear roles now"
| "stamp_message d now (Server_State p) =
     (if clears_with_null d then Legacy_State p (legacy_controls d) else Server_State p)"
| "stamp_message d now m = m"

fun record_sent :: "('c, 'a, 'm) srv_msg \<Rightarrow> ('c, 'a, 'm) conn \<Rightarrow> ('c, 'a, 'm) conn" where
  "record_sent (Server_Command roles start m) s = (if start then s\<lparr>source_starts := source_starts s + 1\<rparr> else s)"
| "record_sent (Stream_Start names st) s =
     s\<lparr>streaming_roles := streaming_roles s @ filter (\<lambda>r. r \<notin> set (streaming_roles s)) names\<rparr>"
| "record_sent (Stream_End roles) s =
     s\<lparr>streaming_roles := (case roles of None \<Rightarrow> [] | Some rs \<Rightarrow> filter (\<lambda>r. r \<notin> set rs) (streaming_roles s))\<rparr>"
| "record_sent (Server_Activate m) s = s\<lparr>awaiting_activate := False\<rparr>"
| "record_sent _ s = s"

definition put_wire :: "('c, 'a, 'm) sent \<Rightarrow> ('c, 'a, 'm) conn \<Rightarrow> ('c, 'a, 'm) conn" where
  "put_wire x s = s\<lparr>wire := wire s @ [x]\<rparr>"

subsection \<open>Binary entries\<close>

definition set_role_obj :: "string \<Rightarrow> role_obj \<Rightarrow> ('c, 'a, 'm) conn \<Rightarrow> ('c, 'a, 'm) conn" where
  "set_role_obj r ro s = s\<lparr>role_objs := (role_objs s)(r := ro)\<rparr>"

definition set_tracker :: "string \<Rightarrow> tracker \<Rightarrow> ('c, 'a, 'm) conn \<Rightarrow> ('c, 'a, 'm) conn" where
  "set_tracker r t s = set_role_obj r ((role_objs s r)\<lparr>role_tracker := Some t\<rparr>) s"

definition check_late_binary :: "int \<Rightarrow> handling option \<Rightarrow> ('c, 'a, 'm) entry \<Rightarrow> ('c, 'a, 'm) conn
    \<Rightarrow> bool \<times> ('c, 'a, 'm) conn" where
  "check_late_binary now h e s =
     (case h of
        None \<Rightarrow> (False, s)
      | Some h \<Rightarrow>
          if \<not> drop_late h \<or> entry_ts e = 0 then (False, s)
          else let ro = role_objs s (handling_role h);
                   start = (case stream_start_time_us ro of None \<Rightarrow> now | Some t \<Rightarrow> t);
                   late_by = now - (entry_ts e - role_output_delay_us ro)
               in (0 < late_by \<and> grace_period_us h \<le> now - start,
                   set_role_obj (handling_role h) (ro\<lparr>stream_start_time_us := Some start\<rparr>) s))"

definition tracker_for :: "handling option \<Rightarrow> ('c, 'a, 'm) conn \<Rightarrow> (string \<times> tracker) option" where
  "tracker_for h s =
     (case h of
        None \<Rightarrow> None
      | Some h \<Rightarrow> if buffer_track h then map_option (Pair (handling_role h)) (role_tracker (role_objs s (handling_role h)))
          else None)"

definition or_zero :: "int option \<Rightarrow> int" where
  "or_zero x = (case x of None \<Rightarrow> 0 | Some n \<Rightarrow> n)"

text \<open>The bytes that go out: what a failing \<open>struct.pack\<close> raises ends the writer.\<close>

definition wire_bytes :: "'m dialect \<Rightarrow> int \<Rightarrow> int \<Rightarrow> binary_data \<Rightarrow> bytes option" where
  "wire_bytes d now ts b =
     (if \<not> player_audio_header b then Some (payload b)
      else if pre_177_wire d then map_option (\<lambda>h. h @ payload b) (pack_binary_header_raw (message_type b) ts)
      else audio_frame now ts (payload b))"

definition register_sent :: "(string \<times> tracker) option \<Rightarrow> binary_data \<Rightarrow> ('c, 'a, 'm) conn
    \<Rightarrow> (string \<times> chunk) option \<times> ('c, 'a, 'm) conn" where
  "register_sent tr b s =
     (case (tr, buffer_end_time_us b, buffer_byte_count b) of
        (Some (r, t), Some e, Some n) \<Rightarrow>
          (let (c, t) = register e n (or_zero (bin_duration_us b)) t in (map_option (Pair r) c, set_tracker r t s))
      | _ \<Rightarrow> (None, s))"

text \<open>\<open>_send_binary_data\<close> up to its await; \<open>k\<close> is the slot the entry was queued under.\<close>

definition send_binary_data :: "'m dialect \<Rightarrow> int \<Rightarrow> string \<Rightarrow> slot \<Rightarrow> ('c, 'a, 'm) entry \<Rightarrow> binary_data
    \<Rightarrow> (string \<times> tracker) option \<Rightarrow> ('c, 'a, 'm) conn \<Rightarrow> ('c, 'a, 'm) conn" where
  "send_binary_data d now r k e b tr s =
     (case wire_bytes d now (entry_ts e) b of
        None \<Rightarrow> s\<lparr>writer := Stopped\<rparr>
      | Some bs \<Rightarrow>
          (let (c, s) = register_sent tr b s in put_wire (SentBinary k e bs) (s\<lparr>writer := Sending r c\<rparr>)))"

definition discard_entry :: "string \<Rightarrow> ('c, 'a, 'm) conn \<Rightarrow> ('c, 'a, 'm) conn" where
  "discard_entry r s = schedule_role_head r (discard_role_head r s)"

datatype buffer_check = Oversized | Wait int | Ready "(string \<times> tracker) option"

definition check_buffer :: "(nat \<Rightarrow> int) \<Rightarrow> (string \<times> tracker) option \<Rightarrow> binary_data \<Rightarrow> ('c, 'a, 'm) conn
    \<Rightarrow> buffer_check \<times> ('c, 'a, 'm) conn" where
  "check_buffer t tr b s =
     (case tr of
        None \<Rightarrow> (Ready None, s)
      | Some (r, trk) \<Rightarrow>
          (let trk = prune_consumed (t 0) trk;
               needed = or_zero (buffer_byte_count b)
           in if capacity_bytes trk < needed
              then (Oversized, set_tracker r (trk\<lparr>oversize_logged := True\<rparr>) s)
              else let (wait, trk) = time_until_ready (t 2) (t 3) needed (or_zero (bin_duration_us b))
                         (buffer_end_time_us b) trk;
                       s = set_tracker r trk s
                   in (if 0 < wait then Wait wait else Ready (Some (r, trk)), s)))"

definition process_binary_role_messages :: "'m dialect \<Rightarrow> (nat \<Rightarrow> int) \<Rightarrow> string \<Rightarrow> slot \<Rightarrow> ('c, 'a, 'm) entry
    \<Rightarrow> binary_data \<Rightarrow> ('c, 'a, 'm) conn \<Rightarrow> ('c, 'a, 'm) conn" where
  "process_binary_role_messages d t r k e b s =
     (let h = handling_cache d (message_type b);
          (late, s) = check_late_binary (t 1) h e s
      in if late then discard_entry r s
         else let (verdict, s) = check_buffer t (tracker_for h s) b s
              in case verdict of
                   Oversized \<Rightarrow> discard_entry r s
                 | Wait wait \<Rightarrow> block_role r (t 0 + wait) s
                 | Ready tr \<Rightarrow> send_binary_data d (t 4) r k e b tr (discard_role_head r s))"

subsection \<open>A role's entry\<close>

text \<open>The merging loop of \<open>_process_role_messages\<close> over what is queued behind the message; the \<open>n\<close>-th reading
  is the next.\<close>

fun merge_heads :: "(nat \<Rightarrow> int) \<Rightarrow> nat \<Rightarrow> string \<Rightarrow> ('c, 'a, 'm) item list \<Rightarrow> ('c, 'a, 'm) srv_msg
    \<Rightarrow> ('c, 'a, 'm) conn \<Rightarrow> nat \<times> ('c, 'a, 'm) srv_msg \<times> ('c, 'a, 'm) conn" where
  "merge_heads t n r [] m s = (n, m, s)"
| "merge_heads t n r (i # q) m s =
     (case json_of i of
        None \<Rightarrow> (n, m, s)
      | Some m' \<Rightarrow>
          (case merge_state_messages (t n) m m' of
             None \<Rightarrow> (Suc n, m, s)
           | Some m'' \<Rightarrow> merge_heads t (Suc n) r q m'' (discard_role_head r s)))"

definition send_json :: "'m dialect \<Rightarrow> (nat \<Rightarrow> int) \<Rightarrow> string \<Rightarrow> slot \<Rightarrow> ('c, 'a, 'm) srv_msg
    \<Rightarrow> ('c, 'a, 'm) conn \<Rightarrow> ('c, 'a, 'm) conn" where
  "send_json d t r k m s =
     (let s = discard_role_head r s;
          (n, m, s) = merge_heads t 1 r (role_queue s r) m s
      in put_wire (SentJson k (stamp_message d (t n) m)) (record_sent m (s\<lparr>writer := Sending r None\<rparr>)))"

definition process_role_messages :: "'m dialect \<Rightarrow> (nat \<Rightarrow> int) \<Rightarrow> string \<Rightarrow> ('c, 'a, 'm) item
    \<Rightarrow> ('c, 'a, 'm) conn \<Rightarrow> ('c, 'a, 'm) conn" where
  "process_role_messages d t r i s =
     (case i of (k, e) \<Rightarrow>
       (case content e of
          Json m \<Rightarrow> send_json d t r k m s
        | Binary b \<Rightarrow>
            (let current = epoch_exempt b \<or> epoch e = epoch_of s r;
                 s = (if epoch_exempt b then s else touch_epoch r s)
             in if \<not> current then discard_entry r s
                else process_binary_role_messages d t r k e b s)))"

subsection \<open>The writer\<close>

fun send_frame :: "'m dialect \<Rightarrow> int \<Rightarrow> ('c, 'a, 'm) frame \<Rightarrow> ('c, 'a, 'm) conn \<Rightarrow> ('c, 'a, 'm) conn" where
  "send_frame d now (Bytes_Frame bs) s = put_wire (SentPriority (Bytes_Frame bs)) s"
| "send_frame d now (Message_Frame m) s =
     put_wire (SentPriority (Message_Frame (stamp_message d now m))) (record_sent m s)"

text \<open>\<open>_wait_for_writer_work\<close>: asleep until woken or until the first delayed role is due.\<close>

definition wait_for_work :: "('c, 'a, 'm) conn \<Rightarrow> ('c, 'a, 'm) conn" where
  "wait_for_work s =
     (let s = s\<lparr>wakeup := False\<rparr>
      in if priority_messages s \<noteq> [] \<or> normal_messages s \<noteq> [] \<or> ready_roles s \<noteq> [] then s
         else s\<lparr>writer := Asleep (case delayed_roles s of [] \<Rightarrow> None | x # _ \<Rightarrow> Some (due x))\<rparr>)"

definition role_turn :: "'m dialect \<Rightarrow> (nat \<Rightarrow> int) \<Rightarrow> ('c, 'a, 'm) conn \<Rightarrow> ('c, 'a, 'm) conn" where
  "role_turn d t s =
     (case peek_ready_entry (promote_ready_roles (t 0) s) of
        (None, s) \<Rightarrow> wait_for_work s
      | (Some (r, i), s) \<Rightarrow> process_role_messages d t r i s)"

text \<open>One turn of the loop of \<open>_writer\<close>, from \<open>Idle\<close>.\<close>

definition writer_turn :: "'m dialect \<Rightarrow> (nat \<Rightarrow> int) \<Rightarrow> ('c, 'a, 'm) conn \<Rightarrow> ('c, 'a, 'm) conn" where
  "writer_turn d t s =
     (case priority_messages s of
        f # fs \<Rightarrow> send_frame d (t 0) f (shrink 1 (s\<lparr>priority_messages := fs, writer := Sending_Control\<rparr>))
      | [] \<Rightarrow>
          (case normal_messages s of
             m # ms \<Rightarrow> put_wire (SentControl (stamp_message d (t 0) m))
               (record_sent m (shrink 1 (s\<lparr>normal_messages := ms, writer := Sending_Control\<rparr>)))
           | [] \<Rightarrow> role_turn d t s))"

text \<open>The end of a transmission. What was tracked stops being in transmission, also when the send fails.\<close>

definition finish_tracked :: "(string \<times> chunk) option \<Rightarrow> ('c, 'a, 'm) conn \<Rightarrow> ('c, 'a, 'm) conn" where
  "finish_tracked tr s =
     (case tr of
        None \<Rightarrow> s
      | Some (r, c) \<Rightarrow>
          set_role_obj r ((role_objs s r)\<lparr>role_tracker := map_option (finish_transmission c) (role_tracker (role_objs s r))\<rparr>) s)"

definition finish_send :: "('c, 'a, 'm) conn \<Rightarrow> ('c, 'a, 'm) conn" where
  "finish_send s =
     (case writer s of
        Sending r tr \<Rightarrow> schedule_role_head r (finish_tracked tr (s\<lparr>writer := Idle\<rparr>))
      | Sending_Control \<Rightarrow> s\<lparr>writer := Idle\<rparr>
      | _ \<Rightarrow> s)"

definition fail_send :: "('c, 'a, 'm) conn \<Rightarrow> ('c, 'a, 'm) conn" where
  "fail_send s =
     (case writer s of
        Sending r tr \<Rightarrow> finish_tracked tr (s\<lparr>writer := Stopped\<rparr>)
      | Sending_Control \<Rightarrow> s\<lparr>writer := Stopped\<rparr>
      | _ \<Rightarrow> s)"

definition wake_up :: "int \<Rightarrow> ('c, 'a, 'm) conn \<Rightarrow> ('c, 'a, 'm) conn" where
  "wake_up now s =
     (case writer s of
        Asleep deadline \<Rightarrow>
          if wakeup s \<or> (case deadline of None \<Rightarrow> False | Some d \<Rightarrow> d \<le> now) then s\<lparr>writer := Idle\<rparr> else s
      | _ \<Rightarrow> s)"

inductive conn_step :: "'m dialect \<Rightarrow> ('c, 'a, 'm) conn \<Rightarrow> ('c, 'a, 'm) conn \<Rightarrow> bool" for d where
  called: "conn_step d s (apply_call d c s)"
| activated: "conn_step d s (send_activation d retiring teardown m s)"
| turned: "writer s = Idle \<Longrightarrow> conn_step d s (writer_turn d t s)"
| finished: "conn_step d s (finish_send s)"
| failed: "conn_step d s (fail_send s)"
| woken: "conn_step d s (wake_up now s)"

inductive conn_run :: "'m dialect \<Rightarrow> ('c, 'a, 'm) conn \<Rightarrow> ('c, 'a, 'm) conn \<Rightarrow> bool" for d where
  start: "conn_run d s s"
| more: "conn_run d s s' \<Longrightarrow> conn_step d s' s'' \<Longrightarrow> conn_run d s s''"

inductive_cases conn_stepE: "conn_step d s s'"

end
