(* ===== verification/Connection_Facts.thy ===== *)
theory Connection_Facts
  imports Connection_Writer
begin

text \<open>
  The invariant of a connection's queues, kept by every call of another component and by every step of
  the writer: the heaps are sorted, the size counts what is queued, a blocked role has its timer, and a
  role with something to send and neither blocked nor being served waits in the ready heap no later than
  its head.
\<close>

subsection \<open>The invariant\<close>

definition item_ok :: "nat \<Rightarrow> string \<Rightarrow> ('c, 'a, 'm) item \<Rightarrow> bool" where
  "item_ok n r i \<longleftrightarrow> owner (fst i) = r \<and> tick (fst i) < n"

definition queues_ok :: "('c, 'a, 'm) conn \<Rightarrow> bool" where
  "queues_ok s \<longleftrightarrow> dict_ok (role_queues s) \<and>
     (\<forall>r. sorted (map fst (role_queue s r)) \<and> list_all (item_ok (queue_sequence s) r) (role_queue s r))"

definition queued :: "('c, 'a, 'm) conn \<Rightarrow> nat" where
  "queued s = sum_list (map (\<lambda>p. length (snd p)) (role_queues s))"

definition size_ok :: "('c, 'a, 'm) conn \<Rightarrow> bool" where
  "size_ok s \<longleftrightarrow> queue_size s = int (length (priority_messages s) + length (normal_messages s) + queued s)"

definition timers_ok :: "('c, 'a, 'm) conn \<Rightarrow> bool" where
  "timers_ok s \<longleftrightarrow> sorted (delayed_roles s) \<and>
     (\<forall>r t. blocked_until s r = Some t \<longrightarrow> Slot t (block_generation s r) r \<in> set (delayed_roles s))"

definition waits_turn :: "('c, 'a, 'm) conn \<Rightarrow> string \<Rightarrow> bool" where
  "waits_turn s r \<longleftrightarrow> (\<exists>x\<in>set (ready_roles s). owner x = r \<and> x \<le> fst (hd (role_queue s r)))"

text \<open>Every role but those in \<open>X\<close>.\<close>

definition scheduled :: "string set \<Rightarrow> ('c, 'a, 'm) conn \<Rightarrow> bool" where
  "scheduled X s \<longleftrightarrow> sorted (ready_roles s) \<and>
     (\<forall>r. r \<notin> X \<longrightarrow> role_queue s r \<noteq> [] \<longrightarrow> blocked_until s r = None \<longrightarrow> waits_turn s r)"

definition queues_inv :: "string set \<Rightarrow> ('c, 'a, 'm) conn \<Rightarrow> bool" where
  "queues_inv X s \<longleftrightarrow> queues_ok s \<and> size_ok s \<and> timers_ok s \<and> scheduled X s"

definition unscheduled :: "writer \<Rightarrow> string set" where
  "unscheduled w = (case w of Sending r _ \<Rightarrow> {r} | Stopped \<Rightarrow> UNIV | _ \<Rightarrow> {})"

definition first_due :: "('c, 'a, 'm) conn \<Rightarrow> int option" where
  "first_due s = (case delayed_roles s of [] \<Rightarrow> None | x # _ \<Rightarrow> Some (due x))"

definition sleep_ok :: "('c, 'a, 'm) conn \<Rightarrow> bool" where
  "sleep_ok s \<longleftrightarrow> (case writer s of
     Asleep dl \<Rightarrow> wakeup s \<or> priority_messages s = [] \<and> normal_messages s = [] \<and> ready_roles s = [] \<and> dl = first_due s
   | _ \<Rightarrow> True)"

definition conn_ok :: "('c, 'a, 'm) conn \<Rightarrow> bool" where
  "conn_ok s \<longleftrightarrow> queues_inv (unscheduled (writer s)) s \<and> sleep_ok s"

lemmas queue_defs = queues_ok_def item_ok_def size_ok_def queued_def timers_ok_def scheduled_def waits_turn_def

lemma queues_invI:
  "queues_ok s \<Longrightarrow> size_ok s \<Longrightarrow> timers_ok s \<Longrightarrow> scheduled X s \<Longrightarrow> queues_inv X s"
  by (simp add: queues_inv_def)

subsection \<open>Queues as dictionaries\<close>

lemma role_queue_put [simp]: "role_queue (put_queue r q s) r' = (if r' = r then q else role_queue s r')"
  by (simp add: role_queue_def put_queue_def)

lemma put_queue_frames [simp]:
  "queue_sequence (put_queue r q s) = queue_sequence s" "queue_size (put_queue r q s) = queue_size s"
  "priority_messages (put_queue r q s) = priority_messages s" "normal_messages (put_queue r q s) = normal_messages s"
  "ready_roles (put_queue r q s) = ready_roles s" "delayed_roles (put_queue r q s) = delayed_roles s"
  "blocked_until (put_queue r q s) = blocked_until s" "block_generation (put_queue r q s) = block_generation s"
  "wakeup (put_queue r q s) = wakeup s" "writer (put_queue r q s) = writer s" "wire (put_queue r q s) = wire s"
  "epoch_by_role (put_queue r q s) = epoch_by_role s"
  "dict_ok (role_queues s) \<Longrightarrow> dict_ok (role_queues (put_queue r q s))"
  by (simp_all add: put_queue_def)

text \<open>Field-wise views under the changes that leave the queues alone.\<close>

lemma role_queue_cong: "role_queues s' = role_queues s \<Longrightarrow> role_queue s' = role_queue s"
  by (rule ext) (simp add: role_queue_def)

lemma role_queue_frames [simp]:
  "role_queue (s\<lparr>queue_sequence := n\<rparr>) = role_queue s" "role_queue (s\<lparr>queue_size := z\<rparr>) = role_queue s"
  "role_queue (s\<lparr>priority_messages := p\<rparr>) = role_queue s" "role_queue (s\<lparr>normal_messages := m\<rparr>) = role_queue s"
  "role_queue (s\<lparr>last_enqueued_ts := l\<rparr>) = role_queue s" "role_queue (s\<lparr>epoch_by_role := e\<rparr>) = role_queue s"
  "role_queue (s\<lparr>ready_roles := rd\<rparr>) = role_queue s" "role_queue (s\<lparr>delayed_roles := dl\<rparr>) = role_queue s"
  "role_queue (s\<lparr>blocked_until := b\<rparr>) = role_queue s" "role_queue (s\<lparr>block_generation := g\<rparr>) = role_queue s"
  "role_queue (s\<lparr>streaming_roles := st\<rparr>) = role_queue s" "role_queue (s\<lparr>retiring_roles := rt\<rparr>) = role_queue s"
  "role_queue (s\<lparr>awaiting_state := aw\<rparr>) = role_queue s" "role_queue (s\<lparr>initial_hold := ih\<rparr>) = role_queue s"
  "role_queue (s\<lparr>pending_binary := pb\<rparr>) = role_queue s" "role_queue (s\<lparr>source_starts := ss\<rparr>) = role_queue s"
  "role_queue (s\<lparr>awaiting_activate := aa\<rparr>) = role_queue s" "role_queue (s\<lparr>disconnect_called := dc\<rparr>) = role_queue s"
  "role_queue (s\<lparr>wakeup := wk\<rparr>) = role_queue s" "role_queue (s\<lparr>role_objs := ro\<rparr>) = role_queue s"
  "role_queue (s\<lparr>writer := w\<rparr>) = role_queue s" "role_queue (s\<lparr>wire := wi\<rparr>) = role_queue s"
  by (rule role_queue_cong; simp)+

lemma sum_dset:
  "sum_list (map (\<lambda>p. length (snd p)) (dset r q d)) + (case dget d r of None \<Rightarrow> 0 | Some old \<Rightarrow> length old) =
   sum_list (map (\<lambda>p. length (snd p)) d) + length (q :: 'x list)"
  by (induction d) auto

lemma sum_ddel:
  "dict_ok d \<Longrightarrow> sum_list (map (\<lambda>p. length (snd p)) (ddel r d)) +
     (case dget d r of None \<Rightarrow> 0 | Some old \<Rightarrow> length old) = sum_list (map (\<lambda>p. length (snd (p :: _ \<times> 'x list))) d)"
proof (induction d)
  case (Cons p d)
  then show ?case
    by (cases "fst p = r") (auto simp: dict_ok_def ddel_absent map_of_eq_None_iff)
qed simp

lemma queued_put:
  "dict_ok (role_queues s) \<Longrightarrow> queued (put_queue r q s) + length (role_queue s r) = queued s + length q"
  using sum_dset [of r q "role_queues s"] sum_ddel [of "role_queues s" r]
  by (auto simp: queued_def put_queue_def role_queue_def split: option.splits)

lemma queued_cong: "role_queues s' = role_queues s \<Longrightarrow> queued s' = queued s"
  by (simp add: queued_def)

lemma queued_at_least: "dict_ok (role_queues s) \<Longrightarrow> length (role_queue s r) \<le> queued s"
  using queued_put [of s r "[]"] by simp

subsection \<open>Changes outside the queues\<close>

text \<open>The part of the state that the invariant reads.\<close>

definition queue_view where
  "queue_view s = (queue_sequence s, queue_size s, length (priority_messages s), length (normal_messages s),
     role_queues s, ready_roles s, delayed_roles s, blocked_until s, block_generation s)"

lemma queues_inv_view:
  assumes "queue_view s' = queue_view s" shows "queues_inv X s' = queues_inv X s"
proof -
  have eqs: "queue_sequence s' = queue_sequence s" "queue_size s' = queue_size s"
      "length (priority_messages s') = length (priority_messages s)"
      "length (normal_messages s') = length (normal_messages s)" "role_queues s' = role_queues s"
      "ready_roles s' = ready_roles s" "delayed_roles s' = delayed_roles s"
      "blocked_until s' = blocked_until s" "block_generation s' = block_generation s"
    using assms unfolding queue_view_def prod.inject by blast+
  have rq: "role_queue s' = role_queue s" by (rule role_queue_cong) (rule eqs)
  show ?thesis unfolding queues_inv_def queue_defs length_append eqs rq by (rule refl)
qed

lemma queues_inv_mono: "queues_inv X s \<Longrightarrow> X \<subseteq> Y \<Longrightarrow> queues_inv Y s"
  by (auto simp: queues_inv_def scheduled_def)

lemma queues_inv_frames [simp]:
  "queues_inv X (s\<lparr>last_enqueued_ts := l\<rparr>) = queues_inv X s" "queues_inv X (s\<lparr>epoch_by_role := e\<rparr>) = queues_inv X s"
  "queues_inv X (s\<lparr>streaming_roles := st\<rparr>) = queues_inv X s" "queues_inv X (s\<lparr>retiring_roles := rt\<rparr>) = queues_inv X s"
  "queues_inv X (s\<lparr>awaiting_state := aw\<rparr>) = queues_inv X s" "queues_inv X (s\<lparr>initial_hold := ih\<rparr>) = queues_inv X s"
  "queues_inv X (s\<lparr>pending_binary := pb\<rparr>) = queues_inv X s" "queues_inv X (s\<lparr>source_starts := ss\<rparr>) = queues_inv X s"
  "queues_inv X (s\<lparr>awaiting_activate := aa\<rparr>) = queues_inv X s" "queues_inv X (s\<lparr>disconnect_called := dc\<rparr>) = queues_inv X s"
  "queues_inv X (s\<lparr>wakeup := wk\<rparr>) = queues_inv X s" "queues_inv X (s\<lparr>role_objs := ro\<rparr>) = queues_inv X s"
  "queues_inv X (s\<lparr>writer := w\<rparr>) = queues_inv X s" "queues_inv X (s\<lparr>wire := wi\<rparr>) = queues_inv X s"
  by (rule queues_inv_view; simp add: queue_view_def)+

lemma queues_inv_plain [simp]:
  "queues_inv X (wake_writer s) = queues_inv X s" "queues_inv X (queue_overflow s) = queues_inv X s"
  "queues_inv X (touch_epoch r s) = queues_inv X s" "queues_inv X (put_wire x s) = queues_inv X s"
  "queues_inv X (set_role_obj r ro s) = queues_inv X s" "queues_inv X (set_tracker r t s) = queues_inv X s"
  "queues_inv X (record_sent m s) = queues_inv X s"
  by (simp_all add: wake_writer_def queue_overflow_def touch_epoch_def put_wire_def set_role_obj_def set_tracker_def)
     (cases m; simp)

subsection \<open>The heap operations\<close>

lemma head_slot_owner [simp]: "owner (head_slot r k) = r" "owner k = r \<Longrightarrow> head_slot r k = k"
  by (simp_all add: head_slot_def) (cases k; simp)

lemma waits_turn_more: "waits_turn s r \<Longrightarrow> waits_turn (s\<lparr>ready_roles := insort x (ready_roles s)\<rparr>) r"
  by (auto simp: waits_turn_def set_insort_key)

lemma queues_okD:
  assumes "queues_ok s"
  shows "dict_ok (role_queues s)" "sorted (map fst (role_queue s r))"
    "list_all (item_ok (queue_sequence s) r) (role_queue s r)"
  using assms by (auto simp: queues_ok_def)

lemma queues_invD:
  assumes "queues_inv X s" shows "queues_ok s" "size_ok s" "timers_ok s" "scheduled X s"
  using assms by (auto simp: queues_inv_def)

lemma scheduledD: "scheduled X s \<Longrightarrow> r \<notin> X \<Longrightarrow> role_queue s r \<noteq> [] \<Longrightarrow> blocked_until s r = None \<Longrightarrow> waits_turn s r"
  by (simp add: scheduled_def)

lemma scheduledI:
  assumes "sorted (ready_roles s)"
    and "\<And>r. r \<notin> X \<Longrightarrow> role_queue s r \<noteq> [] \<Longrightarrow> blocked_until s r = None \<Longrightarrow> waits_turn s r"
  shows "scheduled X s"
  using assms by (simp add: scheduled_def)

lemma head_owner: "queues_ok s \<Longrightarrow> role_queue s r = (k, e) # q \<Longrightarrow> head_slot r k = k"
  using queues_okD(3) [of s r] by (simp add: item_ok_def)

text \<open>A role stops being an exception once it waits, is blocked or has nothing queued.\<close>

lemma queues_inv_settled:
  assumes "queues_inv (insert r X) s" and "role_queue s r \<noteq> [] \<Longrightarrow> blocked_until s r = None \<Longrightarrow> waits_turn s r"
  shows "queues_inv X s"
proof -
  have "scheduled X s"
  proof (rule scheduledI)
    show "sorted (ready_roles s)" using assms(1) by (simp add: queues_inv_def scheduled_def)
    show "waits_turn s r'" if "r' \<notin> X" "role_queue s r' \<noteq> []" "blocked_until s r' = None" for r'
    proof (cases "r' = r")
      case False
      then show ?thesis using scheduledD [OF queues_invD(4) [OF assms(1)]] that by blast
    qed (use assms(2) that in blast)
  qed
  then show ?thesis using queues_invD [OF assms(1)] by (intro queues_invI)
qed

text \<open>The other parts of the invariant do not see the ready heap.\<close>

lemma set_ready_inv:
  assumes "queues_inv Y s" and "scheduled X (s\<lparr>ready_roles := rs\<rparr>)"
  shows "queues_inv X (s\<lparr>ready_roles := rs\<rparr>)"
proof -
  have "queues_ok (s\<lparr>ready_roles := rs\<rparr>) = queues_ok s" "size_ok (s\<lparr>ready_roles := rs\<rparr>) = size_ok s"
      "timers_ok (s\<lparr>ready_roles := rs\<rparr>) = timers_ok s"
    by (simp_all add: queues_ok_def size_ok_def queued_def timers_ok_def)
  then show ?thesis using assms queues_invD [OF assms(1)] by (simp add: queues_inv_def)
qed

lemma push_ready:
  assumes "queues_inv (insert (owner x) X) s" and "role_queue s (owner x) \<noteq> [] \<Longrightarrow> x \<le> fst (hd (role_queue s (owner x)))"
  shows "queues_inv X (s\<lparr>ready_roles := insort x (ready_roles s)\<rparr>)"
proof (rule set_ready_inv [OF assms(1)], rule scheduledI)
  let ?s = "s\<lparr>ready_roles := insort x (ready_roles s)\<rparr>"
  show "sorted (ready_roles ?s)" using queues_invD(4) [OF assms(1)] by (simp add: scheduled_def sorted_insort)
  show "waits_turn ?s r" if "r \<notin> X" "role_queue ?s r \<noteq> []" "blocked_until ?s r = None" for r
  proof (cases "r = owner x")
    case True
    then show ?thesis using assms(2) that by (auto simp: waits_turn_def set_insort_key)
  next
    case False
    then show ?thesis using scheduledD [OF queues_invD(4) [OF assms(1)], of r] that by (simp add: waits_turn_more)
  qed
qed

lemma schedule_role_head_inv:
  assumes "queues_inv (insert r X) s" shows "queues_inv X (schedule_role_head r s)"
proof (cases "blocked_until s r = None \<and> role_queue s r \<noteq> []")
  case True
  then obtain k e q where q: "role_queue s r = (k, e) # q" by (cases "role_queue s r") auto
  have k: "head_slot r k = k" using head_owner [OF _ q] queues_invD [OF assms] by blast
  then have "owner k = r" by (metis head_slot_owner(1))
  then show ?thesis using push_ready [of k X s] assms True q k by (simp add: schedule_role_head_def)
next
  case False
  then have "schedule_role_head r s = s" by (auto simp: schedule_role_head_def split: list.splits)
  then show ?thesis using queues_inv_settled [OF assms] False by auto
qed

text \<open>Replacing the queue of a role by a part of it.\<close>

lemma hd_le_subseq:
  assumes "sorted (map fst q)" and "set q' \<subseteq> set q" and "q' \<noteq> []"
  shows "fst (hd q) \<le> fst (hd q')"
proof -
  have "hd q' \<in> set q" using assms(2,3) by auto
  then show ?thesis using assms(1) by (cases q) auto
qed

lemma shrink_frames [simp]:
  "role_queues (shrink n s) = role_queues s" "role_queue (shrink n s) = role_queue s"
  "queue_sequence (shrink n s) = queue_sequence s"
  "priority_messages (shrink n s) = priority_messages s" "normal_messages (shrink n s) = normal_messages s"
  "ready_roles (shrink n s) = ready_roles s" "delayed_roles (shrink n s) = delayed_roles s"
  "blocked_until (shrink n s) = blocked_until s" "block_generation (shrink n s) = block_generation s"
  "wakeup (shrink n s) = wakeup s" "writer (shrink n s) = writer s" "wire (shrink n s) = wire s"
  "epoch_by_role (shrink n s) = epoch_by_role s" "queued (shrink n s) = queued s"
  by (simp_all add: shrink_def queued_def)

lemma queues_ok_put:
  assumes "queues_ok s" and "sorted (map fst q)" and "list_all (item_ok (queue_sequence s) r) q"
  shows "queues_ok (put_queue r q s)"
  using assms by (simp add: queues_ok_def)

lemma part_put_inv:
  assumes inv: "queues_inv X s" and q: "sorted (map fst q)" "set q \<subseteq> set (role_queue s r)"
    and n: "length (role_queue s r) = length q + n"
  shows "queues_inv X (put_queue r q (shrink n s))" (is "queues_inv _ ?s")
proof (rule queues_invI)
  note ok = queues_okD [OF queues_invD(1) [OF inv]]
  show "queues_ok ?s"
  proof (rule queues_ok_put)
    show "queues_ok (shrink n s)" using queues_invD(1) [OF inv] by (simp add: queues_ok_def)
    show "list_all (item_ok (queue_sequence (shrink n s)) r) q"
      using ok(3) [of r] q(2) unfolding list_all_iff shrink_frames by blast
  qed (rule q(1))
  have "queued ?s + n = queued s"
    using queued_put [of "shrink n s" r q] ok(1) n by simp
  then have "int (queued s) = int (queued ?s) + int n" by simp
  moreover have "queue_size ?s = max (queue_size s - int n) 0" by (simp add: shrink_def)
  ultimately show "size_ok ?s" using queues_invD(2) [OF inv] unfolding size_ok_def put_queue_frames shrink_frames by linarith
  show "timers_ok ?s" using queues_invD(3) [OF inv] by (simp add: timers_ok_def)
  show "scheduled X ?s"
  proof (rule scheduledI)
    show "sorted (ready_roles ?s)" using queues_invD(4) [OF inv] by (simp add: scheduled_def)
    show "waits_turn ?s r'" if that: "r' \<notin> X" "role_queue ?s r' \<noteq> []" "blocked_until ?s r' = None" for r'
    proof -
      have ne: "role_queue s r' \<noteq> []" using that(2) q(2) by (cases "r' = r") auto
      have "fst (hd (role_queue s r')) \<le> fst (hd (role_queue ?s r'))"
        using hd_le_subseq [OF ok(2) [of r] q(2)] that(2) by (cases "r' = r") auto
      then show ?thesis
        using scheduledD [OF queues_invD(4) [OF inv], of r'] that ne by (auto simp: waits_turn_def intro: order_trans)
    qed
  qed
qed

lemma discard_role_head_inv: "queues_inv X s \<Longrightarrow> queues_inv X (discard_role_head r s)"
proof (cases "role_queue s r")
  case (Cons i q)
  assume inv: "queues_inv X s"
  then have "sorted (map fst (i # q))" using queues_okD(2) [OF queues_invD(1) [OF inv], of r] Cons by simp
  then show ?thesis using part_put_inv [OF inv, of q r 1] Cons by (auto simp: discard_role_head_def)
qed (simp add: discard_role_head_def)

lemma discard_entry_inv: "queues_inv (insert r X) s \<Longrightarrow> queues_inv X (discard_entry r s)"
  by (simp add: discard_entry_def schedule_role_head_inv discard_role_head_inv)

lemma hd_insort_key: "hd (insort_key f x xs) = (if xs = [] \<or> f x \<le> f (hd xs) then x else hd xs)"
  by (cases xs) auto

lemma queued_sequence_frame [simp]:
  "queued (s\<lparr>queue_sequence := n, queue_size := z\<rparr>) = queued s" "queued (wake_writer s) = queued s"
  by (simp_all add: queued_def wake_writer_def)

lemma item_ok_mono: "n \<le> m \<Longrightarrow> list_all (item_ok n r) q \<Longrightarrow> list_all (item_ok m r) q"
  by (auto simp: list_all_iff item_ok_def)

lemma enqueue_inv:
  assumes inv: "queues_inv X s" shows "queues_inv X (enqueue_role_entry r ts e s)"
proof -
  let ?k = "Slot ts (queue_sequence s) r"
  let ?q = "insort_key fst (?k, e) (role_queue s r)"
  let ?s = "put_queue r ?q (s\<lparr>queue_sequence := Suc (queue_sequence s), queue_size := queue_size s + 1\<rparr>)"
  note ok = queues_okD [OF queues_invD(1) [OF inv]]
  have items: "list_all (item_ok (Suc (queue_sequence s)) r) ?q"
    using item_ok_mono [OF _ ok(3), of "Suc (queue_sequence s)" r]
    by (auto simp: list_all_iff set_insort_key item_ok_def)
  have pushed: "queues_inv (insert r X) ?s"
  proof (rule queues_invI)
    show "queues_ok ?s"
    proof (rule queues_ok_put)
      show "queues_ok (s\<lparr>queue_sequence := Suc (queue_sequence s), queue_size := queue_size s + 1\<rparr>)"
        using ok item_ok_mono [OF _ ok(3), of "Suc (queue_sequence s)"] by (simp add: queues_ok_def)
      show "sorted (map fst ?q)" using ok(2) [of r] by (simp add: sorted_insort_key)
      show "list_all (item_ok (queue_sequence (s\<lparr>queue_sequence := Suc (queue_sequence s), queue_size := queue_size s + 1\<rparr>)) r) ?q"
        using items by simp
    qed
    have "queued ?s = Suc (queued s)"
      using queued_put [of "s\<lparr>queue_sequence := Suc (queue_sequence s), queue_size := queue_size s + 1\<rparr>" r ?q] ok(1)
      by simp
    then show "size_ok ?s" using queues_invD(2) [OF inv] by (simp add: size_ok_def)
    show "timers_ok ?s" using queues_invD(3) [OF inv] by (simp add: timers_ok_def)
    show "scheduled (insert r X) ?s"
    proof (rule scheduledI)
      show "sorted (ready_roles ?s)" using queues_invD(4) [OF inv] by (simp add: scheduled_def)
      show "waits_turn ?s r'" if "r' \<notin> insert r X" "role_queue ?s r' \<noteq> []" "blocked_until ?s r' = None" for r'
        using scheduledD [OF queues_invD(4) [OF inv], of r'] that by (simp add: waits_turn_def)
    qed
  qed
  have hs: "head_slot r (fst (hd ?q)) = fst (hd ?q)"
  proof -
    have "hd ?q \<in> set ?q" by (rule hd_in_set) (metis insort_not_Nil)
    then have "owner (fst (hd ?q)) = r" using items unfolding list_all_iff item_ok_def by blast
    then show ?thesis by simp
  qed
  have *: "queues_inv X (if blocked_until s r = None \<and> head_slot r (fst (hd ?q)) = ?k
      then ?s\<lparr>ready_roles := insort ?k (ready_roles ?s)\<rparr> else ?s)"
  proof (cases "blocked_until s r = None \<and> fst (hd ?q) = ?k")
    case True
    then show ?thesis
      using push_ready [of ?k X ?s] pushed hs by simp
  next
    case False
    have "queues_inv X ?s"
    proof (cases "r \<in> X")
      case True
      then show ?thesis using pushed by (simp add: insert_absorb)
    next
      case r: False
      show ?thesis
      proof (rule queues_inv_settled [OF pushed])
      assume b: "blocked_until ?s r = None"
      then have new: "fst (hd ?q) \<noteq> ?k" using False by simp
      then have ne: "role_queue s r \<noteq> []" "hd ?q = hd (role_queue s r)"
        by (auto simp: hd_insort_key split: if_splits)
      show "waits_turn ?s r"
        using scheduledD [OF queues_invD(4) [OF inv] r] ne b by (simp add: waits_turn_def)
      qed
    qed
    then show ?thesis using False hs by auto
  qed
  show ?thesis unfolding enqueue_role_entry_def Let_def queues_inv_plain
    using * by simp
qed

subsection \<open>Blocking, promoting and peeking\<close>

lemma block_role_inv:
  assumes inv: "queues_inv (insert r X) s" shows "queues_inv X (block_role r t0 s)" (is "queues_inv _ ?s")
proof -
  have "queues_inv (insert r X) ?s"
  proof (rule queues_invI)
    note i = queues_invD [OF inv]
    show "queues_ok ?s" using i(1) by (simp add: block_role_def queues_ok_def Let_def)
    show "size_ok ?s" using i(2) by (simp add: block_role_def size_ok_def queued_def Let_def)
    show "timers_ok ?s" using i(3) by (auto simp: block_role_def timers_ok_def Let_def sorted_insort set_insort_key)
    show "scheduled (insert r X) ?s"
      using i(4) by (auto simp: block_role_def scheduled_def waits_turn_def Let_def)
  qed
  then show ?thesis by (rule queues_inv_settled) (simp add: block_role_def Let_def)
qed

lemma unblock_inv:
  assumes inv: "queues_inv X s"
  shows "queues_inv (insert r X) (s\<lparr>blocked_until := (blocked_until s)(r := None)\<rparr>)" (is "queues_inv _ ?s")
proof (rule queues_invI)
  note i = queues_invD [OF inv]
  show "queues_ok ?s" using i(1) by (simp add: queues_ok_def)
  show "size_ok ?s" using i(2) by (simp add: size_ok_def queued_def)
  show "timers_ok ?s" using i(3) by (simp add: timers_ok_def)
  show "scheduled (insert r X) ?s" using i(4) by (auto simp: scheduled_def waits_turn_def)
qed

lemma generation_inv:
  assumes inv: "queues_inv X s" and "blocked_until s r = None"
  shows "queues_inv X (s\<lparr>block_generation := (block_generation s)(r := g)\<rparr>)" (is "queues_inv _ ?s")
proof (rule queues_invI)
  note i = queues_invD [OF inv]
  show "queues_ok ?s" using i(1) by (simp add: queues_ok_def)
  show "size_ok ?s" using i(2) by (simp add: size_ok_def queued_def)
  show "timers_ok ?s" using i(3) assms(2) by (auto simp: timers_ok_def)
  show "scheduled X ?s" using i(4) by (auto simp: scheduled_def waits_turn_def)
qed

text \<open>Popping a timer: only that of its own role may be lost, and that role is unblocked with it.\<close>

lemma promote_slot_inv:
  assumes inv: "queues_inv X s" and ds: "delayed_roles s = d # ds"
  shows "queues_inv X (promote_slot d (s\<lparr>delayed_roles := ds\<rparr>))"
proof -
  let ?s = "s\<lparr>delayed_roles := ds\<rparr>"
  let ?mine = "block_generation s (owner d) = tick d \<and> blocked_until s (owner d) = Some (due d)"
  note i = queues_invD [OF inv]
  have timers: "Slot t (block_generation s r) r \<in> set ds"
    if "blocked_until s r = Some t" "\<not> (?mine \<and> r = owner d)" for r t
  proof -
    have "Slot t (block_generation s r) r \<in> set (d # ds)" using i(3) that(1) ds by (auto simp: timers_ok_def)
    moreover have "Slot t (block_generation s r) r \<noteq> d" using that by auto
    ultimately show ?thesis by simp
  qed
  have srt: "sorted ds" using i(3) ds by (simp add: timers_ok_def)
  show ?thesis
  proof (cases ?mine)
    case True
    let ?u = "?s\<lparr>blocked_until := (blocked_until s)(owner d := None)\<rparr>"
    have "queues_inv (insert (owner d) X) ?u"
    proof (rule queues_invI)
      show "queues_ok ?u" using i(1) by (simp add: queues_ok_def)
      show "size_ok ?u" using i(2) by (simp add: size_ok_def queued_def)
      show "timers_ok ?u" using srt timers by (simp add: timers_ok_def)
      show "scheduled (insert (owner d) X) ?u" using i(4) by (auto simp: scheduled_def waits_turn_def)
    qed
    then show ?thesis using True by (simp add: promote_slot_def schedule_role_head_inv)
  next
    case False
    have "queues_inv X ?s"
    proof (rule queues_invI)
      show "queues_ok ?s" using i(1) by (simp add: queues_ok_def)
      show "size_ok ?s" using i(2) by (simp add: size_ok_def queued_def)
      show "timers_ok ?s" using srt timers False by (simp add: timers_ok_def)
      show "scheduled X ?s" using i(4) by (simp add: scheduled_def waits_turn_def)
    qed
    then show ?thesis using False by (auto simp: promote_slot_def)
  qed
qed

lemma schedule_role_head_frames [simp]:
  "delayed_roles (schedule_role_head r s) = delayed_roles s" "role_queues (schedule_role_head r s) = role_queues s"
  "role_queue (schedule_role_head r s) = role_queue s" "writer (schedule_role_head r s) = writer s"
  "priority_messages (schedule_role_head r s) = priority_messages s" "wakeup (schedule_role_head r s) = wakeup s"
  "normal_messages (schedule_role_head r s) = normal_messages s" "wire (schedule_role_head r s) = wire s"
  "epoch_by_role (schedule_role_head r s) = epoch_by_role s" "queue_sequence (schedule_role_head r s) = queue_sequence s"
  by (simp_all add: schedule_role_head_def split: list.splits prod.splits)

lemma promote_slot_frames [simp]:
  "delayed_roles (promote_slot d s) = delayed_roles s" "role_queue (promote_slot d s) = role_queue s"
  "writer (promote_slot d s) = writer s" "wakeup (promote_slot d s) = wakeup s"
  "priority_messages (promote_slot d s) = priority_messages s"
  "normal_messages (promote_slot d s) = normal_messages s" "wire (promote_slot d s) = wire s"
  "epoch_by_role (promote_slot d s) = epoch_by_role s" "queue_sequence (promote_slot d s) = queue_sequence s"
  by (simp_all add: promote_slot_def)

lemma promote_loop_inv:
  "queues_inv X s \<Longrightarrow> delayed_roles s = ds \<Longrightarrow> queues_inv X (promote_loop now ds s)"
  by (induction now ds s rule: promote_loop.induct) (simp_all add: promote_slot_inv)

lemma promote_ready_roles_inv: "queues_inv X s \<Longrightarrow> queues_inv X (promote_ready_roles now s)"
  by (simp add: promote_ready_roles_def promote_loop_inv)

lemma promote_loop_frames [simp]:
  "role_queue (promote_loop now ds s) = role_queue s" "writer (promote_loop now ds s) = writer s"
  "priority_messages (promote_loop now ds s) = priority_messages s"
  "normal_messages (promote_loop now ds s) = normal_messages s" "wire (promote_loop now ds s) = wire s"
  "epoch_by_role (promote_loop now ds s) = epoch_by_role s" "queue_sequence (promote_loop now ds s) = queue_sequence s"
  by (induction now ds s rule: promote_loop.induct) simp_all

text \<open>What the peek loop returns: a role that is not blocked, its head, and a heap in which every other role
  still waits. No role is passed over: a slot is only dropped when its role is blocked or has nothing
  queued, and a renewed one stands for the present head.\<close>

definition peek_post :: "('c, 'a, 'm) conn \<Rightarrow> string set \<Rightarrow> (string \<times> ('c, 'a, 'm) item) option \<times> slot list \<Rightarrow> bool" where
  "peek_post s X p \<longleftrightarrow>
     (case fst p of
        None \<Rightarrow> snd p = [] \<and> scheduled X (s\<lparr>ready_roles := []\<rparr>)
      | Some (r, i) \<Rightarrow> blocked_until s r = None \<and> role_queue s r \<noteq> [] \<and> i = hd (role_queue s r) \<and>
          scheduled (insert r X) (s\<lparr>ready_roles := snd p\<rparr>) \<and>
          (\<forall>r'. r' \<notin> X \<longrightarrow> role_queue s r' \<noteq> [] \<longrightarrow> blocked_until s r' = None \<longrightarrow> fst i \<le> fst (hd (role_queue s r'))))"

lemma waits_turn_ready: "waits_turn (s\<lparr>ready_roles := rs\<rparr>) r \<longleftrightarrow> (\<exists>x\<in>set rs. owner x = r \<and> x \<le> fst (hd (role_queue s r)))"
  by (simp add: waits_turn_def)

lemma scheduled_drop:
  assumes "scheduled X (s\<lparr>ready_roles := x # rs\<rparr>)" and "blocked_until s (owner x) \<noteq> None \<or> role_queue s (owner x) = []"
  shows "scheduled X (s\<lparr>ready_roles := rs\<rparr>)"
proof (rule scheduledI)
  show "sorted (ready_roles (s\<lparr>ready_roles := rs\<rparr>))" using assms(1) by (simp add: scheduled_def)
  show "waits_turn (s\<lparr>ready_roles := rs\<rparr>) r"
    if "r \<notin> X" "role_queue (s\<lparr>ready_roles := rs\<rparr>) r \<noteq> []" "blocked_until (s\<lparr>ready_roles := rs\<rparr>) r = None" for r
    using scheduledD [OF assms(1), of r] that assms(2) by (auto simp: waits_turn_ready)
qed

lemma peek_loop_post:
  assumes "queues_ok s"
  shows "scheduled X (s\<lparr>ready_roles := rs\<rparr>) \<Longrightarrow> peek_post s X (peek_loop s rs)"
  using assms
proof (induction s rs rule: peek_loop.induct)
  case (2 s x ready)
  let ?r = "owner x"
  consider (drop) "blocked_until s ?r \<noteq> None \<or> role_queue s ?r = []"
    | (head) k e q where "blocked_until s ?r = None" "role_queue s ?r = (k, e) # q"
    by (cases "role_queue s ?r") auto
  then show ?case
  proof cases
    case drop
    then have rest: "scheduled X (s\<lparr>ready_roles := ready\<rparr>)" using scheduled_drop 2(4) by blast
    show ?thesis
    proof (cases "blocked_until s ?r = None")
      case True
      then show ?thesis using drop 2(2) rest 2(5) by simp
    next
      case False
      then show ?thesis using 2(1) rest 2(5) by simp
    qed
  next
    case head
    have k: "head_slot ?r k = k" "owner k = ?r"
      using head_owner [OF 2(5) head(2)] by (simp, metis head_slot_owner(1))
    have rest: "waits_turn (s\<lparr>ready_roles := ready\<rparr>) r'" if "r' \<notin> X" "r' \<noteq> ?r" "role_queue s r' \<noteq> []"
      "blocked_until s r' = None" for r'
      using scheduledD [OF 2(4), of r'] that by (auto simp: waits_turn_ready)
    have srt: "sorted (x # ready)" using 2(4) by (simp add: scheduled_def)
    show ?thesis
    proof (cases "k = x")
      case True
      have "x \<le> fst (hd (role_queue s r'))" if "r' \<notin> X" "role_queue s r' \<noteq> []" "blocked_until s r' = None" for r'
        using scheduledD [OF 2(4), of r'] that srt by (auto simp: waits_turn_ready intro: order_trans)
      moreover have "scheduled (insert ?r X) (s\<lparr>ready_roles := ready\<rparr>)"
        using srt rest by (intro scheduledI) simp_all
      ultimately show ?thesis using head True k by (simp add: peek_post_def)
    next
      case False
      have "scheduled X (s\<lparr>ready_roles := insort k ready\<rparr>)"
      proof (rule scheduledI)
        show "sorted (ready_roles (s\<lparr>ready_roles := insort k ready\<rparr>))" using srt by (simp add: sorted_insort)
        show "waits_turn (s\<lparr>ready_roles := insort k ready\<rparr>) r'"
          if "r' \<notin> X" "role_queue (s\<lparr>ready_roles := insort k ready\<rparr>) r' \<noteq> []"
            "blocked_until (s\<lparr>ready_roles := insort k ready\<rparr>) r' = None" for r'
          using rest [of r'] that head k by (cases "r' = ?r") (auto simp: waits_turn_ready set_insort_key)
      qed
      then show ?thesis using 2(3) [of "(k, e)" q k e] head False k 2(5) by simp
    qed
  qed
qed (simp add: peek_post_def)

subsection \<open>Calls of other components\<close>

text \<open>A call keeps the invariant for whatever roles are exceptions, leaves the writer where it is, and wakes
  it unless nothing it waits for has changed.\<close>

definition undisturbed :: "('c, 'a, 'm) conn \<Rightarrow> ('c, 'a, 'm) conn \<Rightarrow> bool" where
  "undisturbed s s' \<longleftrightarrow> wakeup s' \<or> \<not> wakeup s \<and> priority_messages s' = priority_messages s \<and>
     normal_messages s' = normal_messages s \<and> ready_roles s' = ready_roles s \<and> delayed_roles s' = delayed_roles s"

definition call_ok :: "('c, 'a, 'm) conn \<Rightarrow> ('c, 'a, 'm) conn \<Rightarrow> bool" where
  "call_ok s s' \<longleftrightarrow> (\<forall>X. queues_inv X s \<longrightarrow> queues_inv X s') \<and> writer s' = writer s \<and> undisturbed s s'"

lemma call_okI:
  "(\<And>X. queues_inv X s \<Longrightarrow> queues_inv X s') \<Longrightarrow> writer s' = writer s \<Longrightarrow> undisturbed s s' \<Longrightarrow> call_ok s s'"
  by (simp add: call_ok_def)

lemma call_ok_refl [simp, intro]: "call_ok s s"
  by (auto simp: call_ok_def undisturbed_def)

lemma call_ok_trans: "call_ok s s' \<Longrightarrow> call_ok s' s'' \<Longrightarrow> call_ok s s''"
  by (auto simp: call_ok_def undisturbed_def)

lemma call_ok_foldl: "(\<And>s x. call_ok s (f s x)) \<Longrightarrow> call_ok s (foldl f s xs)"
  by (induction xs arbitrary: s) (auto intro: call_ok_trans)

text \<open>A change of fields the invariant does not read.\<close>

lemma call_ok_view: "queue_view s' = queue_view s \<Longrightarrow> writer s' = writer s \<Longrightarrow> wakeup s' = wakeup s
    \<Longrightarrow> priority_messages s' = priority_messages s \<Longrightarrow> normal_messages s' = normal_messages s \<Longrightarrow> call_ok s s'"
  using queues_inv_view [of s' s] by (auto simp: call_ok_def undisturbed_def queue_view_def)

lemma call_ok_frames [simp, intro]:
  "call_ok s (s\<lparr>last_enqueued_ts := l\<rparr>)" "call_ok s (s\<lparr>pending_binary := pb\<rparr>)"
  "call_ok s (s\<lparr>retiring_roles := rt\<rparr>)" "call_ok s (s\<lparr>awaiting_state := aw\<rparr>)" "call_ok s (s\<lparr>initial_hold := ih\<rparr>)"
  "call_ok s (s\<lparr>role_objs := ro\<rparr>)" "call_ok s (queue_overflow s)" "call_ok s (touch_epoch r s)"
  by (rule call_ok_view; simp add: queue_view_def queue_overflow_def touch_epoch_def)+

lemma enqueue_frames [simp]:
  "writer (enqueue_role_entry r ts e s) = writer s" "wakeup (enqueue_role_entry r ts e s)"
  by (simp_all add: enqueue_role_entry_def Let_def wake_writer_def)

lemma enqueue_call: "call_ok s (enqueue_role_entry r ts e s)"
  by (rule call_okI) (simp_all add: enqueue_inv undisturbed_def)

lemma drop_one_frames [simp]:
  "writer (drop_one r s) = writer s" "role_queue (drop_one r s) = role_queue s"
  "queue_sequence (drop_one r s) = queue_sequence s" "wire (drop_one r s) = wire s"
  by (simp_all add: drop_one_def Let_def)

lemma drop_one_inv: assumes inv: "queues_inv X s" shows "queues_inv X (drop_one r s)"
proof -
  have "queues_inv (insert r X) (s\<lparr>epoch_by_role := e, blocked_until := (blocked_until s)(r := None),
      block_generation := (block_generation s)(r := g)\<rparr>)" for e g
    using generation_inv [OF unblock_inv [of X "s\<lparr>epoch_by_role := e\<rparr>" r], of r g] inv by simp
  then show ?thesis using inv by (simp add: drop_one_def Let_def schedule_role_head_inv)
qed

lemma drop_pending_binary_inv: "queues_inv X s \<Longrightarrow> queues_inv X (drop_pending_binary rs s)"
proof -
  have "queues_inv X (foldl (\<lambda>s r. drop_one r s) s xs)" if "queues_inv X s" for xs s
    using that by (induction xs arbitrary: s) (simp_all add: drop_one_inv)
  then show "queues_inv X s \<Longrightarrow> queues_inv X (drop_pending_binary rs s)" by (simp add: drop_pending_binary_def)
qed

lemma drop_pending_frames [simp]:
  "writer (drop_pending_binary rs s) = writer s" "role_queue (drop_pending_binary rs s) = role_queue s"
  "queue_sequence (drop_pending_binary rs s) = queue_sequence s" "wire (drop_pending_binary rs s) = wire s"
  "wakeup (drop_pending_binary rs s)"
proof -
  have "writer (foldl (\<lambda>s r. drop_one r s) s xs) = writer s" "role_queue (foldl (\<lambda>s r. drop_one r s) s xs) = role_queue s"
    "queue_sequence (foldl (\<lambda>s r. drop_one r s) s xs) = queue_sequence s"
    "wire (foldl (\<lambda>s r. drop_one r s) s xs) = wire s" for xs
    by (induction xs arbitrary: s) simp_all
  then show "writer (drop_pending_binary rs s) = writer s" "role_queue (drop_pending_binary rs s) = role_queue s"
    "queue_sequence (drop_pending_binary rs s) = queue_sequence s" "wire (drop_pending_binary rs s) = wire s"
    "wakeup (drop_pending_binary rs s)"
    by (simp_all add: drop_pending_binary_def wake_writer_def)
qed

lemma drop_pending_call: "call_ok s (drop_pending_binary rs s)"
  by (rule call_okI) (simp_all add: drop_pending_binary_inv undisturbed_def)

lemma queues_ok_later:
  assumes "queues_ok s" and "role_queues s' = role_queues s" and "queue_sequence s \<le> queue_sequence s'"
  shows "queues_ok s'"
proof -
  have rq: "role_queue s' = role_queue s" by (rule role_queue_cong) (rule assms(2))
  have "list_all (item_ok (queue_sequence s') r) (role_queue s r)" for r
    by (rule item_ok_mono [OF assms(3) queues_okD(3) [OF assms(1)]])
  then show ?thesis using assms(1) unfolding queues_ok_def rq assms(2) by blast
qed

lemma priority_inv: assumes inv: "queues_inv X s" shows "queues_inv X (send_priority_message m s)"
proof -
  have "queues_inv X (s\<lparr>queue_sequence := queue_sequence s + 1, priority_messages := priority_messages s @ [m],
      queue_size := queue_size s + 1\<rparr>)" (is "queues_inv _ ?s")
  proof (rule queues_invI)
    note i = queues_invD [OF inv]
    show "queues_ok ?s" by (rule queues_ok_later [OF i(1)]) simp_all
    show "size_ok ?s" using i(2) by (simp add: size_ok_def queued_def)
    show "timers_ok ?s" using i(3) by (simp add: timers_ok_def)
    show "scheduled X ?s" using i(4) by (simp add: scheduled_def waits_turn_def)
  qed
  then show ?thesis using inv by (simp add: send_priority_message_def)
qed

lemma priority_frames [simp]: "writer (send_priority_message m s) = writer s"
  by (simp add: send_priority_message_def wake_writer_def queue_overflow_def)

lemma priority_call: "call_ok s (send_priority_message m s)"
  by (rule call_okI, rule priority_inv)
     (auto simp: undisturbed_def send_priority_message_def queue_overflow_def wake_writer_def)

lemma normal_inv:
  assumes inv: "queues_inv X s" and "queue_size s - int (length (normal_messages s)) = z - int (length ms)"
  shows "queues_inv X (s\<lparr>normal_messages := ms, queue_size := z\<rparr>)" (is "queues_inv _ ?s")
proof (rule queues_invI)
  note i = queues_invD [OF inv]
  show "queues_ok ?s" using i(1) by (simp add: queues_ok_def)
  show "size_ok ?s" using i(2) assms(2) by (simp add: size_ok_def queued_def)
  show "timers_ok ?s" using i(3) by (simp add: timers_ok_def)
  show "scheduled X ?s" using i(4) by (simp add: scheduled_def waits_turn_def)
qed

lemma drop_at_boundary_call: "call_ok s (drop_at_boundary m s)"
  by (simp add: drop_at_boundary_def drop_pending_call split: option.split)

lemma message_call: "call_ok s (connection_send_message m s)"
proof -
  have "call_ok s (if int MAX_PENDING_MSG \<le> queue_size s then queue_overflow s
      else wake_writer (s\<lparr>normal_messages := normal_messages s @ [m], queue_size := queue_size s + 1\<rparr>))" for s
    by (rule call_okI) (auto simp: normal_inv undisturbed_def wake_writer_def queue_overflow_def)
  then show ?thesis
    unfolding connection_send_message_def Let_def by (rule call_ok_trans [OF drop_at_boundary_call])
qed

lemma supersede_call: "call_ok s (fst (supersede_queued_stream r s))"
proof (rule call_okI)
  let ?P = "\<lambda>i. \<not> json_is (\<lambda>m. is_start m \<or> is_clear m) i"
  let ?q = "role_queue s r"
  fix X assume inv: "queues_inv X s"
  have "sorted (map fst (filter ?P ?q))"
    using queues_okD(2) [OF queues_invD(1) [OF inv], of r] by (simp add: sorted_filter)
  then have "queues_inv X (put_queue r (filter ?P ?q) (shrink (length ?q - length (filter ?P ?q)) s))"
    by (rule part_put_inv [OF inv]) (use length_filter_le [of ?P ?q] in \<open>auto simp del: length_filter_le\<close>)
  then show "queues_inv X (fst (supersede_queued_stream r s))"
    using inv by (simp add: supersede_queued_stream_def Let_def)
qed (auto simp: supersede_queued_stream_def Let_def undisturbed_def)

lemma send_binary_call: "call_ok s (send_binary d r ts b s)"
proof -
  have held: "call_ok s ((touch_epoch r s)\<lparr>pending_binary := pb\<rparr>)" for pb
    by (rule call_ok_trans [OF call_ok_frames(8) call_ok_frames(2)])
  have queued: "call_ok s (enqueue_role_entry r t e ((touch_epoch r s)\<lparr>last_enqueued_ts := l\<rparr>))" for t e l
    by (rule call_ok_trans [OF call_ok_trans [OF call_ok_frames(8) call_ok_frames(1)] enqueue_call])
  show ?thesis
    unfolding send_binary_def Let_def by (simp only: priority_call held queued call_ok_frames split: if_split) simp
qed

lemma flush_call: "call_ok s (flush_pending_binary d s)"
proof -
  have "call_ok s (flush_one d h s)" for s h by (simp add: flush_one_def send_binary_call)
  then show ?thesis unfolding flush_pending_binary_def
    by (intro call_ok_trans [OF call_ok_frames(2) call_ok_foldl])
qed

lemma role_message_call: "call_ok s (send_role_message d now r m s)"
proof -
  have enq: "call_ok s (enqueue_role_entry r ts e (touch_epoch r (if P then s\<lparr>last_enqueued_ts := l\<rparr> else s)))" for s ts e P l
  proof -
    have "call_ok s (if P then s\<lparr>last_enqueued_ts := l\<rparr> else s)" by simp
    from call_ok_trans [OF call_ok_trans [OF this call_ok_frames(8)] enqueue_call] show ?thesis .
  qed
  have tail: "call_ok s (if \<not> owed then s
      else if r \<in> set (retiring_roles s) then send_priority_message (Message_Frame m) s
      else if is_role_queue_full d r s then queue_overflow s
      else enqueue_role_entry r ts e (touch_epoch r (if P then s\<lparr>last_enqueued_ts := l\<rparr> else s)))" for s owed ts e P l
    by (simp only: priority_call enq call_ok_refl call_ok_frames split: if_split) simp
  have "call_ok s (fst (if is_end m then supersede_queued_stream r (drop_at_boundary m s) else (drop_at_boundary m s, True)))"
    using call_ok_trans [OF drop_at_boundary_call supersede_call] drop_at_boundary_call by auto
  from call_ok_trans [OF this tail] show ?thesis
    unfolding send_role_message_def Let_def split_beta by blast
qed

lemma discard_role_queue_call: "call_ok s (discard_role_queue r s)"
proof -
  let ?q = "role_queue s r"
  let ?life = "filter (\<lambda>m. is_start m \<or> is_end m) (List.map_filter json_of ?q)"
  define s1 where "s1 = (if ?q = [] then s else shrink (length ?q) (put_queue r [] s))"
  define s2 where "s2 = (if ?life \<noteq> [] \<and> is_end (last ?life)
      then send_priority_message (Message_Frame (last ?life)) s1 else s1)"
  define s3 where "s3 = shrink (length (filter (commands_role r) (normal_messages s2)))
      (s2\<lparr>normal_messages := filter (\<lambda>m. \<not> commands_role r m) (normal_messages s2)\<rparr>)"
  have eq: "discard_role_queue r s = drop_pending_binary (Some [r]) (s3\<lparr>last_enqueued_ts := (last_enqueued_ts s3)(r := None)\<rparr>)"
    unfolding discard_role_queue_def Let_def s3_def s2_def s1_def by (rule refl)
  have inv: "queues_inv X s3" if inv: "queues_inv X s" for X
  proof -
    have "shrink (length ?q) (put_queue r [] s) = put_queue r [] (shrink (length ?q) s)"
      by (simp add: shrink_def put_queue_def)
    then have "queues_inv X s1"
      using part_put_inv [OF inv, of "[]" r "length ?q"] inv by (simp add: s1_def)
    then have s2: "queues_inv X s2" by (simp add: s2_def priority_inv)
    have "length (filter (commands_role r) ms) + length (filter (\<lambda>m. \<not> commands_role r m) ms) = length ms" for ms :: "('a, 'b, 'c) srv_msg list"
      by (induction ms) auto
    from this [of "normal_messages s2"] queues_invD(2) [OF s2]
    have "queue_size s2 - int (length (normal_messages s2)) =
        max (queue_size s2 - int (length (filter (commands_role r) (normal_messages s2)))) 0
        - int (length (filter (\<lambda>m. \<not> commands_role r m) (normal_messages s2)))"
      unfolding size_ok_def by linarith
    from normal_inv [OF s2 this] show ?thesis by (simp add: s3_def shrink_def)
  qed
  have "writer s3 = writer s" by (simp add: s3_def s2_def s1_def shrink_def)
  then show ?thesis unfolding eq
    by (intro call_okI) (simp_all add: drop_pending_binary_inv inv undisturbed_def)
qed

lemma apply_call_ok: "call_ok s (apply_call d c s)"
  by (cases c) (simp_all add: send_binary_call role_message_call message_call priority_call drop_pending_call
      flush_call call_ok_trans [OF call_ok_frames(4) call_ok_frames(5)])

lemma send_activation_call: "call_ok s (send_activation d retiring teardown m s)"
proof -
  have discard: "call_ok s (foldl (\<lambda>s r. discard_role_queue r s) s retiring)" for s :: "('a, 'b, 'c) conn"
    by (rule call_ok_foldl) (rule discard_role_queue_call)
  have calls: "call_ok s (foldl (\<lambda>s c. apply_call d c s) s teardown)" for s
    by (rule call_ok_foldl) (rule apply_call_ok)
  show ?thesis unfolding send_activation_def Let_def
    by (rule call_ok_trans [OF discard], rule call_ok_trans [OF call_ok_frames(3)],
        rule call_ok_trans [OF calls], rule call_ok_trans [OF call_ok_frames(3) priority_call])
qed

subsection \<open>The writer\<close>

lemma plain_frames [simp]:
  "role_queue (set_role_obj r ro s) = role_queue s" "writer (set_role_obj r ro s) = writer s"
  "role_queue (set_tracker r t s) = role_queue s" "writer (set_tracker r t s) = writer s"
  "role_queue (put_wire x s) = role_queue s" "writer (put_wire x s) = writer s"
  "role_queue (record_sent m s) = role_queue s" "writer (record_sent m s) = writer s"
  "role_queue (touch_epoch r s) = role_queue s" "writer (touch_epoch r s) = writer s"
  "blocked_until (put_wire x s) = blocked_until s"
  by (simp_all add: set_role_obj_def set_tracker_def put_wire_def touch_epoch_def) (cases m; simp)+

lemma discard_head_frames [simp]: "writer (discard_role_head r s) = writer s"
  by (simp add: discard_role_head_def split: list.splits)

lemma check_late_inv [simp]:
  "queues_inv X (snd (check_late_binary now h e s)) = queues_inv X s"
  "writer (snd (check_late_binary now h e s)) = writer s"
  by (simp_all add: check_late_binary_def Let_def split: option.splits)

lemma check_buffer_inv [simp]:
  "queues_inv X (snd (check_buffer t tr b s)) = queues_inv X s" "writer (snd (check_buffer t tr b s)) = writer s"
  by (simp_all add: check_buffer_def Let_def split_beta split: option.splits)

lemma register_sent_inv [simp]:
  "queues_inv X (snd (register_sent tr b s)) = queues_inv X s"
  by (simp add: register_sent_def split_beta Let_def split: option.splits)

text \<open>What a writer's step establishes: the invariant with the exceptions of its new state; it is not asleep.\<close>

definition turn_ok :: "('c, 'a, 'm) conn \<Rightarrow> bool" where
  "turn_ok s \<longleftrightarrow> queues_inv (unscheduled (writer s)) s \<and> (\<forall>dl. writer s \<noteq> Asleep dl)"

lemma turn_ok_conn: "turn_ok s \<Longrightarrow> conn_ok s"
  by (auto simp: turn_ok_def conn_ok_def sleep_ok_def split: writer.splits)

lemma discard_entry_turn: "queues_inv {r} s \<Longrightarrow> writer s = Idle \<Longrightarrow> turn_ok (discard_entry r s)"
  by (simp add: turn_ok_def discard_entry_inv discard_entry_def unscheduled_def schedule_role_head_inv discard_role_head_inv)

lemma send_binary_data_turn: "queues_inv {r} s \<Longrightarrow> turn_ok (send_binary_data d now r k e b tr s)"
  by (auto simp: send_binary_data_def turn_ok_def unscheduled_def split_beta Let_def split: option.splits
      intro: queues_inv_mono)

lemma block_turn: "queues_inv {r} s \<Longrightarrow> writer s = Idle \<Longrightarrow> turn_ok (block_role r z s)"
  using block_role_inv [of r "{}" s z] by (simp add: turn_ok_def unscheduled_def) (simp add: block_role_def Let_def)

lemma process_binary_turn:
  assumes inv: "queues_inv {r} s" and idle: "writer s = Idle"
  shows "turn_ok (process_binary_role_messages d t r k e b s)"
proof -
  show ?thesis
    using inv idle
    by (simp add: block_turn process_binary_role_messages_def Let_def split_beta discard_entry_turn send_binary_data_turn
        discard_role_head_inv split: buffer_check.split)
qed

lemma merge_heads_inv:
  "queues_inv X s \<Longrightarrow> queues_inv X (snd (snd (merge_heads t n r q m s)))"
  "writer (snd (snd (merge_heads t n r q m s))) = writer s"
  by (induction t n r q m s rule: merge_heads.induct) (simp_all add: discard_role_head_inv split: option.splits)

lemma send_json_turn: "queues_inv {r} s \<Longrightarrow> turn_ok (send_json d t r k m s)"
  by (simp add: send_json_def turn_ok_def unscheduled_def split_beta Let_def merge_heads_inv discard_role_head_inv)

lemma process_role_turn:
  assumes "queues_inv {r} s" and "writer s = Idle" shows "turn_ok (process_role_messages d t r i s)"
  using assms
  by (simp add: process_role_messages_def Let_def split_beta send_json_turn process_binary_turn discard_entry_turn
      split: content.splits)

lemma role_turn_ok:
  assumes inv: "queues_inv {} s" and idle: "writer s = Idle" and empty: "priority_messages s = []" "normal_messages s = []"
  shows "conn_ok (role_turn d t s)"
proof -
  let ?p = "promote_ready_roles (t 0) s"
  let ?l = "peek_loop ?p (ready_roles ?p)"
  have p: "queues_inv {} ?p" "writer ?p = Idle" "priority_messages ?p = []" "normal_messages ?p = []"
    using inv idle empty promote_ready_roles_inv by (auto simp: promote_ready_roles_def)
  have post: "peek_post ?p {} ?l"
    by (rule peek_loop_post) (use queues_invD [OF p(1)] in simp_all)
  have eq: "peek_ready_entry ?p = (fst ?l, ?p\<lparr>ready_roles := snd ?l\<rparr>)"
    by (simp add: peek_ready_entry_def split_beta)
  show ?thesis
  proof (cases "fst ?l")
    case None
    then have "snd ?l = []" "queues_inv {} (?p\<lparr>ready_roles := []\<rparr>)"
      using post set_ready_inv [OF p(1), of "{}" "[]"] by (simp_all add: peek_post_def)
    then show ?thesis using None p
      by (simp add: role_turn_def eq wait_for_work_def conn_ok_def unscheduled_def sleep_ok_def first_due_def)
  next
    case (Some ri)
    then obtain r i where ri: "fst ?l = Some (r, i)" by (cases ri) auto
    then have "queues_inv {r} (?p\<lparr>ready_roles := snd ?l\<rparr>)"
      using post set_ready_inv [OF p(1), of "{r}" "snd ?l"] by (simp add: peek_post_def)
    then show ?thesis using ri p by (simp add: role_turn_def eq process_role_turn turn_ok_conn)
  qed
qed

lemma pop_priority_inv:
  assumes inv: "queues_inv X s" and "priority_messages s = f # fs"
  shows "queues_inv X (shrink 1 (s\<lparr>priority_messages := fs, writer := w\<rparr>))" (is "queues_inv _ ?s")
proof (rule queues_invI)
  note i = queues_invD [OF inv]
  show "queues_ok ?s" by (rule queues_ok_later [OF i(1)]) (simp_all add: shrink_def)
  show "size_ok ?s" using i(2) assms(2) by (simp add: size_ok_def queued_def shrink_def)
  show "timers_ok ?s" using i(3) by (simp add: timers_ok_def)
  show "scheduled X ?s" using i(4) by (simp add: scheduled_def waits_turn_def)
qed

lemma writer_turn_ok:
  assumes ok: "conn_ok s" and idle: "writer s = Idle" shows "conn_ok (writer_turn d t s)"
proof -
  have inv: "queues_inv {} s" using ok idle by (simp add: conn_ok_def unscheduled_def)
  show ?thesis
  proof (cases "priority_messages s")
    case (Cons f fs)
    have "turn_ok (send_frame d (t 0) f (shrink 1 (s\<lparr>priority_messages := fs, writer := Sending_Control\<rparr>)))"
      using pop_priority_inv [OF inv Cons, of Sending_Control]
      by (cases f) (simp_all add: turn_ok_def unscheduled_def)
    then show ?thesis using Cons by (simp add: writer_turn_def turn_ok_conn)
  next
    case Nil
    show ?thesis
    proof (cases "normal_messages s")
      case (Cons m ms)
      have "queues_inv {} (s\<lparr>normal_messages := ms, queue_size := max (queue_size s - 1) 0\<rparr>)"
        by (rule normal_inv [OF inv]) (use queues_invD(2) [OF inv] Cons in \<open>simp add: size_ok_def\<close>)
      then have "queues_inv {} (s\<lparr>normal_messages := ms, queue_size := max (queue_size s - 1) 0, writer := Sending_Control\<rparr>)"
        by simp
      moreover have "shrink 1 (s\<lparr>normal_messages := ms, writer := Sending_Control\<rparr>) =
          s\<lparr>normal_messages := ms, queue_size := max (queue_size s - 1) 0, writer := Sending_Control\<rparr>"
        by (simp add: shrink_def)
      ultimately have "turn_ok (put_wire (SentControl (stamp_message d (t 0) m))
          (record_sent m (shrink 1 (s\<lparr>normal_messages := ms, writer := Sending_Control\<rparr>))))"
        by (simp add: turn_ok_def unscheduled_def)
      then show ?thesis using Nil Cons by (simp add: writer_turn_def turn_ok_conn)
    qed (use Nil role_turn_ok [OF inv idle] in \<open>simp add: writer_turn_def\<close>)
  qed
qed

lemma finish_tracked_frames [simp]:
  "queues_inv X (finish_tracked tr s) = queues_inv X s" "writer (finish_tracked tr s) = writer s"
  by (simp_all add: finish_tracked_def split_beta split: option.splits)

lemma call_keeps_ok: "call_ok s s' \<Longrightarrow> conn_ok s \<Longrightarrow> conn_ok s'"
  by (auto simp: call_ok_def conn_ok_def sleep_ok_def undisturbed_def first_due_def split: writer.splits)

lemma conn_step_ok: "conn_step d s s' \<Longrightarrow> conn_ok s \<Longrightarrow> conn_ok s'"
proof (induction rule: conn_step.induct)
  case (called s c)
  then show ?case by (rule call_keeps_ok [OF apply_call_ok])
next
  case (activated s retiring teardown m)
  then show ?case by (rule call_keeps_ok [OF send_activation_call])
next
  case (turned s t)
  then show ?case by (simp add: writer_turn_ok)
next
  case (finished s)
  then show ?case
    by (auto simp: finish_send_def conn_ok_def unscheduled_def sleep_ok_def schedule_role_head_inv split: writer.splits)
next
  case (failed s)
  then show ?case
    by (auto simp: fail_send_def conn_ok_def unscheduled_def sleep_ok_def intro: queues_inv_mono split: writer.splits)
next
  case (woken s now)
  then show ?case
    by (auto simp: wake_up_def conn_ok_def unscheduled_def sleep_ok_def split: writer.splits option.splits)
qed

lemma new_conn_ok: "conn_ok (new_conn objs)"
  by (simp add: new_conn_def conn_ok_def queues_inv_def queue_defs role_queue_def sleep_ok_def)

lemma conn_run_ok: "conn_run d s s' \<Longrightarrow> conn_ok s \<Longrightarrow> conn_ok s'"
  by (induction rule: conn_run.induct) (auto intro: conn_step_ok)

end
