(* ===== verification/Connection_Order.thy ===== *)
theory Connection_Order
  imports Connection_Facts
begin

text \<open>
  How the queues of a connection develop and what a turn of the writer transmits from them: numbers and
  epochs only grow, and a binary entry leaves from its role's queue under the role's epoch. It follows
  that what a stream boundary left behind is never transmitted.
\<close>

subsection \<open>What a queue gains\<close>

text \<open>How the queues develop: sequence numbers and epochs only grow, and an entry that is new in a queue has a new
  number and an epoch the role has reached.\<close>

definition fresh_item :: "('c, 'a, 'm) conn \<Rightarrow> ('c, 'a, 'm) conn \<Rightarrow> string \<Rightarrow> ('c, 'a, 'm) item \<Rightarrow> bool" where
  "fresh_item s s' r i \<longleftrightarrow> queue_sequence s \<le> tick (fst i) \<and> epoch (snd i) \<le> epoch_of s' r"

definition advances :: "('c, 'a, 'm) conn \<Rightarrow> ('c, 'a, 'm) conn \<Rightarrow> bool" where
  "advances s s' \<longleftrightarrow> queue_sequence s \<le> queue_sequence s' \<and> (\<forall>r. epoch_of s r \<le> epoch_of s' r) \<and>
     (\<forall>r. \<forall>i\<in>set (role_queue s' r). i \<in> set (role_queue s r) \<or> fresh_item s s' r i)"

lemma advances_refl [simp, intro]: "advances s s"
  by (simp add: advances_def)

lemma advances_trans: assumes "advances s s'" "advances s' s''" shows "advances s s''"
proof -
  have "i \<in> set (role_queue s r) \<or> fresh_item s s'' r i" if "i \<in> set (role_queue s'' r)" for r i
  proof -
    have "i \<in> set (role_queue s' r) \<or> fresh_item s' s'' r i" using assms(2) that unfolding advances_def by blast
    then show ?thesis
    proof
      assume "i \<in> set (role_queue s' r)"
      then have "i \<in> set (role_queue s r) \<or> fresh_item s s' r i" using assms(1) unfolding advances_def by blast
      moreover have "epoch_of s' r \<le> epoch_of s'' r" using assms(2) unfolding advances_def by blast
      ultimately show ?thesis unfolding fresh_item_def by (meson order_trans)
    next
      assume "fresh_item s' s'' r i"
      moreover have "queue_sequence s \<le> queue_sequence s'" using assms(1) unfolding advances_def by blast
      ultimately show ?thesis unfolding fresh_item_def by (meson order_trans)
    qed
  qed
  moreover have "queue_sequence s \<le> queue_sequence s''" "epoch_of s r \<le> epoch_of s'' r" for r
    using assms unfolding advances_def by (meson order_trans)+
  ultimately show ?thesis unfolding advances_def by blast
qed

lemma advances_foldl: "(\<And>s x. advances s (f s x)) \<Longrightarrow> advances s (foldl f s xs)"
  by (induction xs arbitrary: s) (auto intro: advances_trans)

text \<open>A change that adds nothing to a queue.\<close>

lemma advancesI:
  assumes "queue_sequence s \<le> queue_sequence s'" and "\<And>r. epoch_of s r \<le> epoch_of s' r"
    and "\<And>r. set (role_queue s' r) \<subseteq> set (role_queue s r)"
  shows "advances s s'"
  using assms unfolding advances_def by blast

lemma epoch_of_cong: "epoch_by_role s' = epoch_by_role s \<Longrightarrow> epoch_of s' = epoch_of s"
  by (rule ext) (simp add: epoch_of_def)

lemma advances_same:
  assumes "role_queues s' = role_queues s" "epoch_by_role s' = epoch_by_role s" "queue_sequence s \<le> queue_sequence s'"
  shows "advances s s'"
proof -
  have "epoch_of s' = epoch_of s" by (rule epoch_of_cong) (rule assms(2))
  moreover have "role_queue s' = role_queue s" by (rule role_queue_cong) (rule assms(1))
  ultimately show ?thesis using assms(3) unfolding advances_def by simp
qed

lemma epoch_of_last [simp]: "epoch_of (s\<lparr>last_enqueued_ts := l\<rparr>) = epoch_of s"
  by (rule epoch_of_cong) simp

lemma epoch_of_objs [simp]: "epoch_of (s\<lparr>role_objs := ro\<rparr>) = epoch_of s"
  by (rule epoch_of_cong) simp

lemma epoch_of_ready [simp]: "epoch_of (s\<lparr>ready_roles := ro\<rparr>) = epoch_of s"
  by (rule epoch_of_cong) simp

lemma epoch_of_promote [simp]: "epoch_of (promote_ready_roles now s) = epoch_of s"
  by (rule epoch_of_cong) (simp add: promote_ready_roles_def)

lemma epoch_of_touch [simp]: "epoch_of (touch_epoch r s) = epoch_of s"
  by (rule ext) (simp add: touch_epoch_def epoch_of_def)

lemma touch_advances [simp]: "advances s (touch_epoch r s)"
  by (rule advancesI) (simp_all, simp add: touch_epoch_def)

lemma epoch_of_put [simp]: "epoch_of (put_queue r q s) = epoch_of s"
  by (rule epoch_of_cong) simp

lemma advances_put: "set q \<subseteq> set (role_queue s r) \<Longrightarrow> advances s (put_queue r q s)"
  by (rule advancesI) simp_all

lemma enqueue_advances:
  assumes "epoch e \<le> epoch_of s r" shows "advances s (enqueue_role_entry r ts e s)" (is "advances s ?s")
proof -
  have q: "role_queue ?s r' = (if r' = r then insort_key fst (Slot ts (queue_sequence s) r, e) (role_queue s r) else role_queue s r')" for r'
    by (simp add: enqueue_role_entry_def Let_def wake_writer_def)
  have e: "epoch_of ?s = epoch_of s"
    by (rule epoch_of_cong) (simp add: enqueue_role_entry_def Let_def wake_writer_def)
  have n: "queue_sequence ?s = Suc (queue_sequence s)"
    by (simp add: enqueue_role_entry_def Let_def wake_writer_def)
  have "i \<in> set (role_queue s r') \<or> fresh_item s ?s r' i" if "i \<in> set (role_queue ?s r')" for r' i
  proof (cases "r' = r")
    case True
    then have "i = (Slot ts (queue_sequence s) r, e) \<or> i \<in> set (role_queue s r')"
      using that unfolding q by (simp add: set_insort_key)
    then show ?thesis using assms True unfolding fresh_item_def e by (elim disjE) simp_all
  next
    case False
    then show ?thesis using that unfolding q by simp
  qed
  then show ?thesis unfolding advances_def e n by simp
qed

lemma priority_advances: "advances s (send_priority_message m s)"
  by (rule advances_same) (simp_all add: send_priority_message_def queue_overflow_def wake_writer_def)

lemma epoch_of_drop_one: "epoch_of (drop_one r s) r' = (if r' = r then Suc (epoch_of s r) else epoch_of s r')"
  by (simp add: drop_one_def Let_def epoch_of_def schedule_role_head_def split: list.splits prod.splits)

lemma drop_one_advances: "advances s (drop_one r s)"
  by (rule advancesI) (simp_all add: epoch_of_drop_one)

lemma epoch_of_wake [simp]: "epoch_of (wake_writer s) = epoch_of s"
  by (rule epoch_of_cong) (simp add: wake_writer_def)

lemma wake_advances [simp]: "advances s (wake_writer s)"
  by (rule advances_same) (simp_all add: wake_writer_def)

lemma drop_pending_advances: "advances s (drop_pending_binary rs s)"
  unfolding drop_pending_binary_def
  by (rule advances_trans [OF advances_foldl wake_advances]) (rule drop_one_advances)

lemma foldl_drop_mono: "epoch_of s r \<le> epoch_of (foldl (\<lambda>s r. drop_one r s) s xs) r"
  using advances_foldl [of "\<lambda>s r. drop_one r s" s xs, OF drop_one_advances] by (simp add: advances_def)

lemma drop_pending_bumps: "r \<in> set rs \<Longrightarrow> epoch_of s r < epoch_of (drop_pending_binary (Some rs) s) r"
proof (induction rs arbitrary: s)
  case (Cons x rs)
  show ?case
  proof (cases "x = r")
    case True
    then show ?thesis
      using foldl_drop_mono [of "drop_one r s" r rs] by (simp add: drop_pending_binary_def epoch_of_drop_one)
  next
    case False
    then show ?thesis
      using Cons.IH [of "drop_one x s"] Cons.prems by (simp add: drop_pending_binary_def epoch_of_drop_one)
  qed
qed simp

lemma plain_advances [simp]:
  "advances s (s\<lparr>last_enqueued_ts := l\<rparr>)" "advances s (s\<lparr>pending_binary := pb\<rparr>)" "advances s (s\<lparr>retiring_roles := rt\<rparr>)"
  "advances s (s\<lparr>awaiting_state := aw\<rparr>)" "advances s (s\<lparr>initial_hold := ih\<rparr>)" "advances s (s\<lparr>role_objs := ro\<rparr>)"
  "advances s (queue_overflow s)" "advances s (shrink n s)" "advances s (s\<lparr>normal_messages := nm\<rparr>)"
  "advances s (put_wire x s)" "advances s (set_role_obj r obj s)"
  "advances s (s\<lparr>writer := w\<rparr>)" "advances s (s\<lparr>ready_roles := rd\<rparr>)" "advances s (s\<lparr>wakeup := wk\<rparr>)"
  "advances s (schedule_role_head r s)" "advances s (s\<lparr>priority_messages := pm\<rparr>)"
  by (rule advances_same; simp add: queue_overflow_def shrink_def put_wire_def set_role_obj_def)+

lemma record_sent_advances [simp]: "advances s (record_sent m s)"
  by (rule advances_same) (cases m; simp)+

text \<open>A development during which nothing is transmitted.\<close>

definition quietly :: "('c, 'a, 'm) conn \<Rightarrow> ('c, 'a, 'm) conn \<Rightarrow> bool" where
  "quietly s s' \<longleftrightarrow> advances s s' \<and> wire s' = wire s"

lemma quietly_refl [simp, intro]: "quietly s s"
  by (simp add: quietly_def)

lemma quietly_trans: "quietly s s' \<Longrightarrow> quietly s' s'' \<Longrightarrow> quietly s s''"
  unfolding quietly_def by (auto intro: advances_trans)

lemma quietly_foldl: "(\<And>s x. quietly s (f s x)) \<Longrightarrow> quietly s (foldl f s xs)"
  by (induction xs arbitrary: s) (auto intro: quietly_trans)

lemma quietly_plain [simp]:
  "quietly s (s\<lparr>last_enqueued_ts := l\<rparr>)" "quietly s (s\<lparr>pending_binary := pb\<rparr>)" "quietly s (s\<lparr>retiring_roles := rt\<rparr>)"
  "quietly s (s\<lparr>awaiting_state := aw\<rparr>)" "quietly s (s\<lparr>initial_hold := ih\<rparr>)" "quietly s (s\<lparr>role_objs := ro\<rparr>)"
  "quietly s (queue_overflow s)" "quietly s (shrink n s)" "quietly s (s\<lparr>normal_messages := nm\<rparr>)"
  "quietly s (set_role_obj r obj s)" "quietly s (s\<lparr>writer := w\<rparr>)" "quietly s (s\<lparr>ready_roles := rd\<rparr>)"
  "quietly s (s\<lparr>wakeup := wk\<rparr>)" "quietly s (schedule_role_head r s)" "quietly s (s\<lparr>priority_messages := pm\<rparr>)"
  "quietly s (touch_epoch r s)" "quietly s (wake_writer s)"
  by (simp_all add: quietly_def, simp_all add: queue_overflow_def set_role_obj_def touch_epoch_def wake_writer_def)

lemma quietly_record: "quietly s (record_sent m s)"
  by (simp add: quietly_def) (cases m; simp)

lemma quietly_enqueue: "epoch e \<le> epoch_of s r \<Longrightarrow> quietly s (enqueue_role_entry r ts e s)"
  by (simp add: quietly_def enqueue_advances) (simp add: enqueue_role_entry_def Let_def wake_writer_def)

lemma quietly_put: "set q \<subseteq> set (role_queue s r) \<Longrightarrow> quietly s (put_queue r q s)"
  by (simp add: quietly_def advances_put)

lemma quietly_priority: "quietly s (send_priority_message m s)"
  by (simp add: quietly_def priority_advances) (simp add: send_priority_message_def queue_overflow_def wake_writer_def)

lemma quietly_drop: "quietly s (drop_pending_binary rs s)"
  by (simp add: quietly_def drop_pending_advances)

lemma quietly_boundary: "quietly s (drop_at_boundary m s)"
  by (simp add: drop_at_boundary_def quietly_drop split: option.split)

lemma quietly_head: "quietly s (discard_role_head r s)"
proof (cases "role_queue s r")
  case (Cons i q)
  have "quietly (shrink 1 s) (put_queue r q (shrink 1 s))" by (rule quietly_put) (use Cons in auto)
  then show ?thesis using quietly_trans [OF quietly_plain(8)] Cons by (simp add: discard_role_head_def)
qed (simp add: discard_role_head_def)

lemma quietly_supersede: "quietly s (fst (supersede_queued_stream r s))"
proof -
  let ?P = "\<lambda>i. \<not> json_is (\<lambda>m. is_start m \<or> is_clear m) i"
  have "quietly (shrink n s) (put_queue r (filter ?P (role_queue s r)) (shrink n s))" for n
    by (rule quietly_put) auto
  from quietly_trans [OF quietly_plain(8) this] show ?thesis by (simp add: supersede_queued_stream_def Let_def)
qed

lemma quietly_binary: "quietly s (send_binary d r ts b s)"
proof -
  have held: "quietly s ((touch_epoch r s)\<lparr>pending_binary := pb\<rparr>)" for pb
    by (rule quietly_trans [OF quietly_plain(16) quietly_plain(2)])
  have queued: "quietly s (enqueue_role_entry r t \<lparr>epoch = epoch_of (touch_epoch r s) r, entry_ts = ts, content = c\<rparr>
      ((touch_epoch r s)\<lparr>last_enqueued_ts := l\<rparr>))" for t c l
    by (rule quietly_trans [OF quietly_trans [OF quietly_plain(16) quietly_plain(1)] quietly_enqueue])
       simp
  show ?thesis
    unfolding send_binary_def Let_def by (simp only: quietly_priority held queued quietly_plain split: if_split) simp
qed

lemma quietly_flush: "quietly s (flush_pending_binary d s)"
proof -
  have "quietly s (flush_one d h s)" for s h by (simp add: flush_one_def quietly_binary)
  then show ?thesis unfolding flush_pending_binary_def by (intro quietly_trans [OF quietly_plain(2) quietly_foldl])
qed

lemma quietly_after_boundary: "quietly (drop_at_boundary m s) (send_role_message d now r m s)"
proof -
  have enq: "quietly s (enqueue_role_entry r ts \<lparr>epoch = epoch_of (touch_epoch r u) r, entry_ts = ts, content = c\<rparr> (touch_epoch r u))"
    if u: "u = (if P then s\<lparr>last_enqueued_ts := l\<rparr> else s)" for s ts c P l u
  proof -
    have "quietly s u" unfolding u by simp
    from quietly_trans [OF quietly_trans [OF this quietly_plain(16)] quietly_enqueue] show ?thesis by simp
  qed
  have tail: "quietly s (if \<not> owed then s
      else if r \<in> set (retiring_roles s) then send_priority_message (Message_Frame m) s
      else if is_role_queue_full d r s then queue_overflow s
      else enqueue_role_entry r ts
        \<lparr>epoch = epoch_of (touch_epoch r (if P then s\<lparr>last_enqueued_ts := l\<rparr> else s)) r, entry_ts = ts, content = c\<rparr>
        (touch_epoch r (if P then s\<lparr>last_enqueued_ts := l\<rparr> else s)))" for s owed ts c P l
    by (simp only: quietly_priority enq [OF refl] quietly_refl quietly_plain split: if_split) simp
  have "quietly (drop_at_boundary m s)
      (fst (if is_end m then supersede_queued_stream r (drop_at_boundary m s) else (drop_at_boundary m s, True)))"
    by (simp add: quietly_supersede)
  from quietly_trans [OF this tail] show ?thesis
    unfolding send_role_message_def Let_def split_beta by blast
qed

lemma quietly_role_message: "quietly s (send_role_message d now r m s)"
  by (rule quietly_trans [OF quietly_boundary quietly_after_boundary])

lemma quietly_message: "quietly s (connection_send_message m s)"
proof -
  have "quietly s (wake_writer (s\<lparr>normal_messages := nm, queue_size := z\<rparr>))" for s :: "('a, 'b, 'c) conn" and nm z
    unfolding quietly_def by (rule conjI, rule advances_same) (simp_all add: wake_writer_def)
  then have "quietly s (if P then queue_overflow s else wake_writer (s\<lparr>normal_messages := nm, queue_size := z\<rparr>))"
    for s :: "('a, 'b, 'c) conn" and nm z P by simp
  from quietly_trans [OF quietly_boundary this] show ?thesis unfolding connection_send_message_def Let_def .
qed

lemma quietly_discard_queue: "quietly s (discard_role_queue r s)"
proof -
  have empty: "quietly s (if q = [] then s else shrink n (put_queue r [] s))" for s q n
    using quietly_trans [OF quietly_put quietly_plain(8), of "[]" s r] by simp
  have prio: "quietly s (if P then send_priority_message m s else s)" for s P m
    by (simp add: quietly_priority)
  have tail: "quietly s (drop_pending_binary (Some [r]) ((shrink n (s\<lparr>normal_messages := nm\<rparr>))\<lparr>last_enqueued_ts := l\<rparr>))" for s n nm l
    by (rule quietly_trans [OF quietly_plain(9) quietly_trans [OF quietly_plain(8) quietly_trans [OF quietly_plain(1) quietly_drop]]])
  show ?thesis unfolding discard_role_queue_def Let_def
    by (rule quietly_trans [OF quietly_trans [OF empty prio] tail])
qed

lemma quietly_call: "quietly s (apply_call d c s)"
  by (cases c) (simp_all add: quietly_binary quietly_role_message quietly_message quietly_priority quietly_drop
      quietly_flush quietly_trans [OF quietly_plain(4) quietly_plain(5)])

lemma quietly_activation: "quietly s (send_activation d retiring teardown m s)"
proof -
  have discard: "quietly s (foldl (\<lambda>s r. discard_role_queue r s) s retiring)" for s :: "('a, 'b, 'c) conn"
    by (rule quietly_foldl) (rule quietly_discard_queue)
  have calls: "quietly s (foldl (\<lambda>s c. apply_call d c s) s teardown)" for s
    by (rule quietly_foldl) (rule quietly_call)
  show ?thesis unfolding send_activation_def Let_def
    by (rule quietly_trans [OF discard], rule quietly_trans [OF quietly_plain(3)],
        rule quietly_trans [OF calls], rule quietly_trans [OF quietly_plain(3) quietly_priority])
qed

subsection \<open>What a turn transmits\<close>

text \<open>A binary entry is transmitted from the head of its role's queue, and only under the role's epoch.\<close>

definition from_queue :: "('c, 'a, 'm) conn \<Rightarrow> slot \<Rightarrow> ('c, 'a, 'm) entry \<Rightarrow> bool" where
  "from_queue s k e \<longleftrightarrow> (\<exists>r b. (k, e) \<in> set (role_queue s r) \<and> content e = Binary b \<and>
     (epoch_exempt b \<or> epoch e = epoch_of s r))"

definition emits :: "('c, 'a, 'm) conn \<Rightarrow> ('c, 'a, 'm) conn \<Rightarrow> bool" where
  "emits s s' \<longleftrightarrow> advances s s' \<and>
     (wire s' = wire s \<or> (\<exists>x. wire s' = wire s @ [x] \<and> (\<forall>k e bs. x = SentBinary k e bs \<longrightarrow> from_queue s k e)))"

lemma emits_quietly: "quietly s s' \<Longrightarrow> emits s s'"
  by (simp add: quietly_def emits_def)

text \<open>A turn first changes nothing that \<open>from_queue\<close> reads.\<close>

definition same_queues :: "('c, 'a, 'm) conn \<Rightarrow> ('c, 'a, 'm) conn \<Rightarrow> bool" where
  "same_queues s s' \<longleftrightarrow> role_queue s' = role_queue s \<and> epoch_of s' = epoch_of s \<and> wire s' = wire s \<and>
     queue_sequence s' = queue_sequence s"

lemma same_queues_trans: "same_queues s s' \<Longrightarrow> same_queues s' s'' \<Longrightarrow> same_queues s s''"
  by (simp add: same_queues_def)

lemma emits_same: "same_queues s s' \<Longrightarrow> emits s' s'' \<Longrightarrow> emits s s''"
  unfolding emits_def same_queues_def advances_def fresh_item_def from_queue_def by simp

lemma emits_then_quietly: "emits s s' \<Longrightarrow> quietly s' s'' \<Longrightarrow> emits s s''"
  unfolding emits_def quietly_def using advances_trans by metis

lemma quietly_then_put:
  assumes "quietly s s'" and x: "\<And>k e bs. x = SentBinary k e bs \<Longrightarrow> from_queue s k e"
  shows "emits s (put_wire x s')"
proof -
  have "advances s (put_wire x s')"
    by (rule advances_trans [OF _ plain_advances(10)]) (use assms(1) in \<open>simp add: quietly_def\<close>)
  moreover have "wire (put_wire x s') = wire s @ [x]" using assms(1) by (simp add: quietly_def put_wire_def)
  ultimately show ?thesis using x unfolding emits_def by blast
qed

lemma same_late: "same_queues s (snd (check_late_binary now h e s))"
  by (simp add: same_queues_def check_late_binary_def Let_def set_role_obj_def split: option.splits)

lemma same_tracker: "same_queues s (set_tracker r t s)"
  by (simp add: same_queues_def set_tracker_def set_role_obj_def)

lemma same_buffer: "same_queues s (snd (check_buffer t tr b s))"
  using same_tracker by (auto simp: check_buffer_def Let_def split_beta same_queues_def split: option.splits)

lemma quietly_discard_entry: "quietly s (discard_entry r s)"
  unfolding discard_entry_def by (rule quietly_trans [OF quietly_head quietly_plain(14)])

lemma quietly_block: "quietly s (block_role r z s)"
  unfolding quietly_def by (rule conjI, rule advances_same) (simp_all add: block_role_def Let_def)

lemma quietly_register: "quietly s (snd (register_sent tr b s))"
  using same_tracker by (auto simp: register_sent_def split_beta Let_def set_tracker_def split: option.splits)

lemma send_binary_data_emits:
  assumes "quietly s0 s" and "from_queue s0 k e" shows "emits s0 (send_binary_data d now r k e b tr s)"
proof (cases "wire_bytes d now (entry_ts e) b")
  case None
  then show ?thesis using assms quietly_trans [OF assms(1) quietly_plain(11)]
    by (simp add: send_binary_data_def emits_quietly)
next
  case (Some bs)
  have "quietly s0 ((snd (register_sent tr b s))\<lparr>writer := w\<rparr>)" for w
    by (rule quietly_trans [OF assms(1) quietly_trans [OF quietly_register quietly_plain(11)]])
  then have "emits s0 (put_wire (SentBinary k e bs) ((snd (register_sent tr b s))\<lparr>writer := w\<rparr>))" for w
    by (rule quietly_then_put) (use assms(2) in simp)
  then show ?thesis using Some by (simp add: send_binary_data_def split_beta Let_def)
qed

lemma process_binary_emits:
  assumes "from_queue s k e" shows "emits s (process_binary_role_messages d t r k e b s)"
proof -
  define s1 where "s1 = snd (check_late_binary (t 1) (handling_cache d (message_type b)) e s)"
  define s2 where "s2 = snd (check_buffer t (tracker_for (handling_cache d (message_type b)) s1) b s1)"
  have 1: "same_queues s s1" unfolding s1_def by (rule same_late)
  have 2: "same_queues s s2" unfolding s2_def by (rule same_queues_trans [OF 1 same_buffer])
  have "from_queue s2 k e" using assms 2 by (simp add: from_queue_def same_queues_def)
  then have "emits s2 (send_binary_data d (t 4) r k e b tr (discard_role_head r s2))" for tr
    by (rule send_binary_data_emits [OF quietly_head])
  then show ?thesis
    unfolding process_binary_role_messages_def Let_def split_beta s1_def [symmetric] s2_def [symmetric]
    using emits_same [OF 1 emits_quietly [OF quietly_discard_entry]] emits_same [OF 2 emits_quietly [OF quietly_discard_entry]]
      emits_same [OF 2 emits_quietly [OF quietly_block]] emits_same [OF 2]
    by (simp split: buffer_check.split)
qed

lemma quietly_merge: "quietly s (snd (snd (merge_heads t n r q m s)))"
proof (induction t n r q m s rule: merge_heads.induct)
  case (2 t n r i q m s)
  have "quietly s (snd (snd (merge_heads t (Suc n) r q m'' (discard_role_head r s))))"
    if "json_of i = Some m'" "merge_state_messages (t n) m m' = Some m''" for m' m''
    by (rule quietly_trans [OF quietly_head 2 [OF that]])
  then show ?case by (simp split: option.split)
qed simp

lemma send_json_emits: "emits s (send_json d t r k m s)"
proof -
  have "quietly s (record_sent m' ((snd (snd (merge_heads t 1 r q m (discard_role_head r s))))\<lparr>writer := w\<rparr>))" for q m' w
    by (rule quietly_trans [OF quietly_trans [OF quietly_head quietly_merge] quietly_trans [OF quietly_plain(11) quietly_record]])
  then show ?thesis unfolding send_json_def Let_def split_beta by (rule quietly_then_put) simp
qed

lemma process_role_emits:
  assumes "i \<in> set (role_queue s r)" shows "emits s (process_role_messages d t r i s)"
proof -
  obtain k e where i: "i = (k, e)" by (cases i)
  show ?thesis
  proof (cases "content e")
    case (Json m)
    then show ?thesis by (simp add: process_role_messages_def i send_json_emits)
  next
    case (Binary b)
    let ?s = "if epoch_exempt b then s else touch_epoch r s"
    have same: "same_queues s ?s" by (simp add: same_queues_def) (simp add: touch_epoch_def)
    have current: "emits s (process_binary_role_messages d t r k e b ?s)" if "epoch_exempt b \<or> epoch e = epoch_of s r"
    proof (rule emits_same [OF same process_binary_emits])
      show "from_queue ?s k e" using that assms i Binary same by (auto simp: from_queue_def same_queues_def)
    qed
    have "emits s (discard_entry r ?s)" by (rule emits_same [OF same emits_quietly [OF quietly_discard_entry]])
    then show ?thesis
      unfolding process_role_messages_def i prod.case Binary content.case Let_def
      using current by (cases "epoch_exempt b \<or> epoch e = epoch_of s r") (simp_all only: if_True if_False not_True_eq_False not_False_eq_True)
  qed
qed

lemma promote_advances: "same_queues s (promote_ready_roles now s)"
  by (simp add: same_queues_def) (simp add: promote_ready_roles_def)

lemma quietly_wait: "quietly s (wait_for_work s)"
  unfolding quietly_def by (rule conjI, rule advances_same) (simp_all add: wait_for_work_def Let_def)

lemma role_turn_emits:
  assumes "queues_inv {} s" shows "emits s (role_turn d t s)"
proof -
  let ?p = "promote_ready_roles (t 0) s"
  let ?l = "peek_loop ?p (ready_roles ?p)"
  have post: "peek_post ?p {} ?l"
    by (rule peek_loop_post) (use queues_invD [OF promote_ready_roles_inv [OF assms, of "t 0"]] in simp_all)
  have eq: "peek_ready_entry ?p = (fst ?l, ?p\<lparr>ready_roles := snd ?l\<rparr>)"
    by (simp add: peek_ready_entry_def split_beta)
  have same: "same_queues s (?p\<lparr>ready_roles := rs\<rparr>)" for rs
    by (rule same_queues_trans [OF promote_advances]) (simp add: same_queues_def)
  show ?thesis
  proof (cases "fst ?l")
    case None
    then show ?thesis
      using emits_same [OF same emits_quietly [OF quietly_wait]] by (simp add: role_turn_def eq)
  next
    case (Some ri)
    then obtain r i where ri: "fst ?l = Some (r, i)" by (cases ri) auto
    have "i \<in> set (role_queue (?p\<lparr>ready_roles := snd ?l\<rparr>) r)"
      using post unfolding peek_post_def ri option.case prod.case by simp
    from emits_same [OF same process_role_emits [OF this]] show ?thesis
      by (simp add: role_turn_def eq ri)
  qed
qed

lemma writer_turn_emits:
  assumes "queues_inv {} s" shows "emits s (writer_turn d t s)"
proof -
  have "quietly s (shrink 1 (s\<lparr>priority_messages := fs, writer := w\<rparr>))" for fs w
    by (rule quietly_trans [OF quietly_plain(15) quietly_trans [OF quietly_plain(11) quietly_plain(8)]])
  then have "emits s (send_frame d (t 0) f (shrink 1 (s\<lparr>priority_messages := fs, writer := w\<rparr>)))" for f fs w
    by (cases f) (auto intro: quietly_then_put quietly_trans [OF _ quietly_record])
  moreover have "emits s (put_wire (SentControl m') (record_sent m (shrink 1 (s\<lparr>normal_messages := ms, writer := w\<rparr>))))" for m m' ms w
    by (rule quietly_then_put, rule quietly_trans [OF quietly_plain(9) quietly_trans [OF quietly_plain(11)
          quietly_trans [OF quietly_plain(8) quietly_record]]]) simp
  ultimately show ?thesis
    using role_turn_emits [OF assms] by (simp add: writer_turn_def split: list.split)
qed

lemma quietly_tracked: "quietly s (finish_tracked tr s)"
  by (simp add: finish_tracked_def split_beta split: option.split)

lemma step_emits:
  assumes "conn_step d s s'" and "conn_ok s" shows "emits s s'"
  using assms
proof (induction rule: conn_step.induct)
  case (called s c)
  show ?case by (rule emits_quietly) (rule quietly_call)
next
  case (activated s retiring teardown m)
  show ?case by (rule emits_quietly) (rule quietly_activation)
next
  case (turned s t)
  then show ?case by (intro writer_turn_emits) (simp add: conn_ok_def unscheduled_def)
next
  case (finished s)
  show ?case
    using emits_quietly [OF quietly_trans [OF quietly_plain(11) quietly_trans [OF quietly_tracked quietly_plain(14)]]]
    by (cases "writer s") (simp_all add: finish_send_def emits_quietly)
next
  case (failed s)
  show ?case
    using emits_quietly [OF quietly_trans [OF quietly_plain(11) quietly_tracked]]
    by (cases "writer s") (simp_all add: fail_send_def emits_quietly)
next
  case (woken s now)
  show ?case by (cases "writer s") (simp_all add: wake_up_def emits_quietly)
qed

subsection \<open>Entries a boundary leaves behind\<close>

definition epochs_ok :: "('c, 'a, 'm) conn \<Rightarrow> bool" where
  "epochs_ok s \<longleftrightarrow> (\<forall>r. \<forall>i\<in>set (role_queue s r). epoch (snd i) \<le> epoch_of s r)"

definition audible :: "('c, 'a, 'm) entry \<Rightarrow> bool" where
  "audible e \<longleftrightarrow> (case content e of Binary b \<Rightarrow> \<not> epoch_exempt b | Json _ \<Rightarrow> False)"

definition outdated :: "nat \<Rightarrow> string \<Rightarrow> ('c, 'a, 'm) conn \<Rightarrow> bool" where
  "outdated n r s \<longleftrightarrow> n \<le> queue_sequence s \<and>
     (\<forall>i\<in>set (role_queue s r). tick (fst i) < n \<longrightarrow> audible (snd i) \<longrightarrow> epoch (snd i) < epoch_of s r)"

lemma epochs_ok_advances: assumes "epochs_ok s" "advances s s'" shows "epochs_ok s'"
proof -
  have "epoch (snd i) \<le> epoch_of s' r" if "i \<in> set (role_queue s' r)" for r i
    using assms that unfolding epochs_ok_def advances_def fresh_item_def by (meson order_trans)
  then show ?thesis unfolding epochs_ok_def by blast
qed

lemma outdated_advances: assumes "outdated n r s" "advances s s'" shows "outdated n r s'"
proof -
  have "epoch (snd i) < epoch_of s' r" if i: "i \<in> set (role_queue s' r)" "tick (fst i) < n" "audible (snd i)" for i
  proof -
    have n: "n \<le> queue_sequence s" and e: "epoch_of s r \<le> epoch_of s' r"
      using assms unfolding outdated_def advances_def by blast+
    have "i \<in> set (role_queue s r) \<or> fresh_item s s' r i" using assms(2) i(1) unfolding advances_def by blast
    then have "i \<in> set (role_queue s r)" using n i(2) unfolding fresh_item_def by linarith
    then have "epoch (snd i) < epoch_of s r" using assms(1) i unfolding outdated_def by blast
    then show ?thesis using e by linarith
  qed
  moreover have "n \<le> queue_sequence s'" using assms unfolding outdated_def advances_def by linarith
  ultimately show ?thesis unfolding outdated_def by blast
qed

lemma run_epochs:
  assumes "conn_run d s s'" shows "conn_ok s \<Longrightarrow> epochs_ok s \<Longrightarrow> epochs_ok s'"
  using assms
proof (induction rule: conn_run.induct)
  case (more s s' s'')
  then show ?case using step_emits [OF more.hyps(2)] conn_run_ok [OF more.hyps(1)] epochs_ok_advances
    unfolding emits_def by blast
qed

lemma boundary_outdates:
  assumes "epochs_ok s" and "r \<in> set rs"
  shows "outdated (queue_sequence s) r (drop_pending_binary (Some rs) s)"
proof -
  have "epoch (snd i) < epoch_of (drop_pending_binary (Some rs) s) r" if "i \<in> set (role_queue s r)" for i
    using assms(1) that drop_pending_bumps [OF assms(2), of s] unfolding epochs_ok_def by (meson le_less_trans)
  then show ?thesis by (simp add: outdated_def)
qed

definition new_binary :: "nat \<Rightarrow> string \<Rightarrow> ('c, 'a, 'm) sent \<Rightarrow> bool" where
  "new_binary n r x \<longleftrightarrow> (case x of
     SentBinary k e bs \<Rightarrow> owner k = r \<and> audible e \<longrightarrow> n \<le> tick k | _ \<Rightarrow> True)"

lemma emits_new:
  assumes "emits s s'" "outdated n r s" "queues_ok s"
  shows "\<exists>w. wire s' = wire s @ w \<and> list_all (new_binary n r) w"
proof -
  have "new_binary n r x" if x: "\<forall>k e bs. x = SentBinary k e bs \<longrightarrow> from_queue s k e" for x
  proof (cases x)
    case (SentBinary k e bs)
    have "n \<le> tick k" if "owner k = r" "audible e"
    proof -
      obtain r' b where q: "(k, e) \<in> set (role_queue s r')" "content e = Binary b" "epoch_exempt b \<or> epoch e = epoch_of s r'"
        using x SentBinary unfolding from_queue_def by blast
      have "owner k = r'" using queues_okD(3) [OF assms(3), of r'] q(1) unfolding list_all_iff item_ok_def by force
      then have q': "(k, e) \<in> set (role_queue s r)" "epoch e = epoch_of s r"
        using q that by (auto simp: audible_def)
      show ?thesis
      proof (rule ccontr)
        assume "\<not> n \<le> tick k"
        then have "epoch e < epoch_of s r" using assms(2) q'(1) that(2) unfolding outdated_def by force
        then show False using q'(2) by simp
      qed
    qed
    then show ?thesis using SentBinary by (simp add: new_binary_def)
  qed (simp_all add: new_binary_def)
  then show ?thesis using assms(1) unfolding emits_def by (elim conjE disjE exE) (auto intro: exI [of _ "[]"])
qed

lemma run_new:
  assumes "conn_run d s s'"
  shows "conn_ok s \<Longrightarrow> outdated n r s \<Longrightarrow> outdated n r s' \<and> (\<exists>w. wire s' = wire s @ w \<and> list_all (new_binary n r) w)"
  using assms
proof (induction rule: conn_run.induct)
  case (more s s' s'')
  have ok: "conn_ok s'" by (rule conn_run_ok [OF more.hyps(1) more.prems(1)])
  have e: "emits s' s''" by (rule step_emits [OF more.hyps(2) ok])
  obtain w where w: "outdated n r s'" "wire s' = wire s @ w" "list_all (new_binary n r) w" using more by blast
  obtain w' where "wire s'' = wire s' @ w'" "list_all (new_binary n r) w'"
    using emits_new [OF e w(1)] ok unfolding conn_ok_def queues_inv_def by blast
  moreover have "outdated n r s''" using outdated_advances [OF w(1)] e unfolding emits_def by blast
  ultimately show ?case using w by (auto intro: exI [of _ "w @ w'"])
qed simp

end
