(* ===== verification/Connection_Agreement.thy ===== *)
theory Connection_Agreement
  imports Connection_Order
begin

text \<open>
  What the queues of a server connection promise, for every order in which calls of other components,
  turns of the writer and ends of transmissions can come.
\<close>

subsection \<open>A connection under way\<close>

text \<open>A player with a buffer of 100 bytes: of two chunks of 60 bytes the second has to wait for the first to
  be played at 900.\<close>

definition demo_dialect :: "nat dialect" where
  "demo_dialect = \<lparr>handling_cache = (\<lambda>ty. if ty = AUDIO_CHUNK
       then Some \<lparr>drop_late = True, grace_period_us = 0, buffer_track = True, handling_role = ''player''\<rparr> else None),
     max_pending = (\<lambda>_. MAX_PENDING_MSG), clears_with_null = False, legacy_controls = None, pre_177_wire = False\<rparr>"

definition demo_objs :: "string \<Rightarrow> role_obj" where
  "demo_objs r = \<lparr>stream_start_time_us = None, role_output_delay_us = 0,
     role_tracker = (if r = ''player'' then Some (new_tracker 100 0) else None)\<rparr>"

definition demo_chunk :: "int \<Rightarrow> binary_data" where
  "demo_chunk end_us = \<lparr>payload = [1, 2], message_type = AUDIO_CHUNK, buffer_end_time_us = Some end_us,
     buffer_byte_count = Some 60, bin_duration_us = Some 100, player_audio_header = True, epoch_exempt = False\<rparr>"

definition demo_queued :: "(nat, nat, nat) conn" where
  "demo_queued = apply_call demo_dialect (Binary_Call ''player'' 900 (demo_chunk 1000))
     (apply_call demo_dialect (Binary_Call ''player'' 800 (demo_chunk 900)) (new_conn demo_objs))"

definition demo_sent :: "(nat, nat, nat) conn" where
  "demo_sent = finish_send (writer_turn demo_dialect (\<lambda>_. 500) demo_queued)"

definition demo_asleep :: "(nat, nat, nat) conn" where
  "demo_asleep = writer_turn demo_dialect (\<lambda>_. 500) (writer_turn demo_dialect (\<lambda>_. 500) demo_sent)"

lemma demo_queued_run: "conn_run demo_dialect (new_conn demo_objs) demo_queued"
  unfolding demo_queued_def by (rule conn_run.more [OF conn_run.more [OF conn_run.start conn_step.called] conn_step.called])

lemma demo_eval:
  "writer demo_queued = Idle" "writer demo_sent = Idle"
  "writer (writer_turn demo_dialect (\<lambda>_. 500) demo_sent) = Idle"
  "writer demo_asleep = Asleep (Some 900)" "\<not> wakeup demo_asleep"
  "map fst (role_queue demo_asleep ''player'') = [Slot 900 1 ''player'']" "blocked_until demo_asleep ''player'' = Some 900"
  "queue_size demo_asleep = 1"
  by code_simp+

lemma demo_asleep_run: "conn_run demo_dialect (new_conn demo_objs) demo_asleep"
  unfolding demo_asleep_def demo_sent_def
  by (rule conn_run.more [OF conn_run.more [OF conn_run.more [OF conn_run.more [OF demo_queued_run]]]],
      rule conn_step.turned [OF demo_eval(1)], rule conn_step.finished,
      rule conn_step.turned [OF demo_eval(2) [unfolded demo_sent_def]],
      rule conn_step.turned [OF demo_eval(3) [unfolded demo_sent_def]])

subsection \<open>No work is left waiting\<close>

lemma conn_run_inv:
  assumes "conn_run d (new_conn objs) s" shows "queues_inv (unscheduled (writer s)) s" "sleep_ok s"
  using conn_run_ok [OF assms new_conn_ok] by (simp_all add: conn_ok_def)

text \<open>C7. The writer never sleeps on work: while it is asleep and not woken, the priority and the control queue
  are empty, and every role with something queued is blocked until a time that is not before the end of
  the sleep.\<close>

theorem writer_never_sleeps_on_work:
  assumes run: "conn_run d (new_conn objs) s" and asleep: "writer s = Asleep deadline" "\<not> wakeup s"
  shows "priority_messages s = [] \<and> normal_messages s = [] \<and>
    (\<forall>r. role_queue s r = [] \<or>
       (\<exists>until wake. blocked_until s r = Some until \<and> deadline = Some wake \<and> wake \<le> until))"
proof -
  note inv = queues_invD [OF conn_run_inv(1) [OF run]]
  have s: "priority_messages s = []" "normal_messages s = []" "ready_roles s = []" "deadline = first_due s"
    using conn_run_inv(2) [OF run] asleep by (auto simp: sleep_ok_def)
  have "\<exists>until wake. blocked_until s r = Some until \<and> deadline = Some wake \<and> wake \<le> until" if "role_queue s r \<noteq> []" for r
  proof (cases "blocked_until s r")
    case None
    then show ?thesis using scheduledD [OF inv(4), of r] that s(3) asleep by (simp add: unscheduled_def waits_turn_def)
  next
    case (Some t)
    then have mem: "Slot t (block_generation s r) r \<in> set (delayed_roles s)" and srt: "sorted (delayed_roles s)"
      using inv(3) by (auto simp: timers_ok_def)
    then obtain x xs where x: "delayed_roles s = x # xs" by (cases "delayed_roles s") auto
    then have "x \<le> Slot t (block_generation s r) r" using mem srt by auto
    then have "due x \<le> t" by (auto simp: less_eq_slot_def)
    then show ?thesis using Some s(4) x by (simp add: first_due_def)
  qed
  then show ?thesis using s by blast
qed

theorem writer_never_sleeps_on_work_witness:
  "\<exists>until wake. blocked_until demo_asleep ''player'' = Some until \<and> wake \<le> until \<and> Some wake = Some (900 :: int)"
proof -
  have "role_queue demo_asleep ''player'' \<noteq> []" using demo_eval(6) by auto
  then show ?thesis
    using writer_never_sleeps_on_work [OF demo_asleep_run demo_eval(4,5)] by metis
qed

text \<open>C9. The role the writer serves next is the one whose head was due first, with the order of queueing
  deciding between equal times, among the roles with something queued that are not blocked; it serves none
  only when all are.\<close>

theorem earliest_head_is_next:
  assumes run: "conn_run d (new_conn objs) s" and idle: "writer s = Idle"
  shows "case fst (peek_ready_entry (promote_ready_roles now s)) of
      None \<Rightarrow> \<forall>r. role_queue s r = [] \<or> blocked_until (promote_ready_roles now s) r \<noteq> None
    | Some (r, i) \<Rightarrow> role_queue s r \<noteq> [] \<and> i = hd (role_queue s r) \<and> blocked_until (promote_ready_roles now s) r = None \<and>
        (\<forall>r'. role_queue s r' = [] \<or> blocked_until (promote_ready_roles now s) r' \<noteq> None \<or> fst i \<le> fst (hd (role_queue s r')))"
proof -
  let ?p = "promote_ready_roles now s"
  have p: "queues_inv {} ?p" "role_queue ?p = role_queue s"
    using promote_ready_roles_inv conn_run_inv(1) [OF run] idle by (simp_all add: unscheduled_def promote_ready_roles_def)
  have post: "peek_post ?p {} (peek_loop ?p (ready_roles ?p))"
    by (rule peek_loop_post) (use queues_invD [OF p(1)] in simp_all)
  have eq: "fst (peek_ready_entry ?p) = fst (peek_loop ?p (ready_roles ?p))"
    by (simp add: peek_ready_entry_def split_beta)
  show ?thesis
  proof (cases "fst (peek_loop ?p (ready_roles ?p))")
    case None
    then have "scheduled {} (?p\<lparr>ready_roles := []\<rparr>)" using post by (simp add: peek_post_def)
    then have "role_queue s r = [] \<or> blocked_until ?p r \<noteq> None" for r
      using scheduledD [of "{}" "?p\<lparr>ready_roles := []\<rparr>" r] p(2) by (auto simp: waits_turn_def)
    then show ?thesis using None eq by simp
  next
    case (Some ri)
    then obtain r i where ri: "fst (peek_loop ?p (ready_roles ?p)) = Some (r, i)" by (cases ri) auto
    then have found: "blocked_until ?p r = None \<and> role_queue s r \<noteq> [] \<and> i = hd (role_queue s r) \<and>
        (\<forall>r'. role_queue s r' \<noteq> [] \<longrightarrow> blocked_until ?p r' = None \<longrightarrow> fst i \<le> fst (hd (role_queue s r')))"
      using post unfolding peek_post_def ri option.case prod.case p(2) by blast
    show ?thesis unfolding eq ri option.case prod.case using found by blast
  qed
qed

theorem earliest_head_is_next_witness:
  "map_option (\<lambda>(r, i). (r, fst i)) (fst (peek_ready_entry (promote_ready_roles 500 demo_queued))) = Some (''player'', Slot 800 0 ''player'') \<and>
   (case fst (peek_ready_entry (promote_ready_roles 500 demo_queued)) of None \<Rightarrow> False
    | Some (r, i) \<Rightarrow> i = hd (role_queue demo_queued r))"
proof -
  have "map_option (\<lambda>(r, i). (r, fst i)) (fst (peek_ready_entry (promote_ready_roles 500 demo_queued))) = Some (''player'', Slot 800 0 ''player'')"
    by code_simp
  then show ?thesis
    using earliest_head_is_next [OF demo_queued_run demo_eval(1), of 500] by (auto split: option.splits)
qed

text \<open>C10. The size the overflow check of the control queue reads is at every moment the number of messages
  and entries queued, so that the clamp at zero never acts.\<close>

theorem queue_size_exact:
  assumes "conn_run d (new_conn objs) s"
  shows "queue_size s = int (length (priority_messages s) + length (normal_messages s) +
    sum_list (map (\<lambda>(r, q). length q) (role_queues s)))"
  using queues_invD(2) [OF conn_run_inv(1) [OF assms]] by (simp add: size_ok_def queued_def case_prod_unfold)

theorem queue_size_exact_witness:
  "sum_list (map (\<lambda>(r, q). length q) (role_queues demo_asleep)) = 1"
proof -
  have "priority_messages demo_asleep = []" "normal_messages demo_asleep = []" by code_simp+
  then show ?thesis using queue_size_exact [OF demo_asleep_run] demo_eval(8) by simp
qed

subsection \<open>Stream boundaries\<close>

text \<open>C8. What was queued before a stream/clear or stream/end for its role does not follow it: from the moment
  the message is handed over, whatever happens next, every binary entry of a role it names that is
  transmitted was queued afterwards, unless it is exempt.\<close>

theorem boundary_cuts_off_binary:
  assumes before: "conn_run d (new_conn objs) s" and boundary: "boundary_roles m = Some (Some rs)" "r \<in> set rs"
    and after: "conn_run d (send_role_message d now r' m s) s'"
  shows "\<exists>w. wire s' = wire s @ w \<and>
    (\<forall>k e bs b. SentBinary k e bs \<in> set w \<and> owner k = r \<and> content e = Binary b \<and> \<not> epoch_exempt b
       \<longrightarrow> queue_sequence s \<le> tick k)"
proof -
  let ?s = "send_role_message d now r' m s"
  have ok: "conn_ok s" by (rule conn_run_ok [OF before new_conn_ok])
  have "epochs_ok s"
    by (rule run_epochs [OF before new_conn_ok]) (simp add: epochs_ok_def new_conn_def role_queue_def)
  then have "outdated (queue_sequence s) r (drop_at_boundary m s)"
    using boundary_outdates [OF _ boundary(2), of s] boundary(1) by (simp add: drop_at_boundary_def)
  then have "outdated (queue_sequence s) r ?s"
    using outdated_advances quietly_after_boundary unfolding quietly_def by blast
  moreover have "conn_ok ?s" by (rule call_keeps_ok [OF role_message_call ok])
  ultimately obtain w where w: "wire s' = wire ?s @ w" "list_all (new_binary (queue_sequence s) r) w"
    using run_new [OF after] by blast
  have "wire ?s = wire s" using quietly_role_message unfolding quietly_def by blast
  then have "wire s' = wire s @ w" using w(1) by simp
  moreover have "queue_sequence s \<le> tick k" if "SentBinary k e bs \<in> set w" "owner k = r" "content e = Binary b" "\<not> epoch_exempt b"
    for k e bs b
    using w(2) that unfolding list_all_iff new_binary_def by (force simp: audible_def)
  ultimately show ?thesis by (intro exI [of _ w]) blast
qed

definition demo_cleared :: "(nat, nat, nat) conn" where
  "demo_cleared = send_role_message demo_dialect 500 ''player'' (Stream_Clear (Some [''player'']) 0) demo_queued"

definition demo_turns :: "(nat, nat, nat) conn" where
  "demo_turns = writer_turn demo_dialect (\<lambda>_. 500) (writer_turn demo_dialect (\<lambda>_. 500)
     (writer_turn demo_dialect (\<lambda>_. 500) demo_cleared))"

lemma demo_turns_eval:
  "writer demo_cleared = Idle" "writer (writer_turn demo_dialect (\<lambda>_. 500) demo_cleared) = Idle"
  "writer (writer_turn demo_dialect (\<lambda>_. 500) (writer_turn demo_dialect (\<lambda>_. 500) demo_cleared)) = Idle"
  "wire demo_queued = []" "queue_sequence demo_queued = 2"
  "list_ex (\<lambda>x. case x of SentJson k m \<Rightarrow> is_clear m | _ \<Rightarrow> False) (wire demo_turns)"
  by code_simp+

theorem boundary_cuts_off_binary_witness:
  "list_ex (\<lambda>x. case x of SentJson k m \<Rightarrow> is_clear m | _ \<Rightarrow> False) (wire demo_turns) \<and>
   filter (\<lambda>x. case x of SentBinary k e bs \<Rightarrow> owner k = ''player'' \<and> audible e \<and> tick k < 2 | _ \<Rightarrow> False)
     (wire demo_turns) = []"
proof -
  have run: "conn_run demo_dialect (send_role_message demo_dialect 500 ''player'' (Stream_Clear (Some [''player'']) 0) demo_queued) demo_turns"
    unfolding demo_turns_def demo_cleared_def [symmetric]
    by (rule conn_run.more [OF conn_run.more [OF conn_run.more [OF conn_run.start]]],
        rule conn_step.turned [OF demo_turns_eval(1)], rule conn_step.turned [OF demo_turns_eval(2)],
        rule conn_step.turned [OF demo_turns_eval(3)])
  obtain w where w: "wire demo_turns = wire demo_queued @ w"
    "\<forall>k e bs b. SentBinary k e bs \<in> set w \<and> owner k = ''player'' \<and> content e = Binary b \<and> \<not> epoch_exempt b
       \<longrightarrow> queue_sequence demo_queued \<le> tick k"
    using boundary_cuts_off_binary [OF demo_queued_run _ _ run, of "[''player'']" "''player''"] by auto
  have late: "2 \<le> tick k" if x: "SentBinary k e bs \<in> set (wire demo_turns)" "owner k = ''player''" "audible e" for k e bs
  proof -
    obtain b where "content e = Binary b" "\<not> epoch_exempt b"
      using x(3) by (auto simp: audible_def split: content.splits)
    then show ?thesis using w x(1,2) unfolding demo_turns_eval(4,5) append_Nil by metis
  qed
  have "filter (\<lambda>x. case x of SentBinary k e bs \<Rightarrow> owner k = ''player'' \<and> audible e \<and> tick k < 2 | _ \<Rightarrow> False)
      (wire demo_turns) = []"
    using late by (force simp: filter_empty_conv split: sent.splits)
  then show ?thesis using demo_turns_eval(6) by blast
qed

subsection \<open>Where a stream/start sorts\<close>

text \<open>After a stream/end has set the role's last time back to the present, the stream/start that follows sorts
  ahead of an exempt entry still queued for later: the docstring of \<open>send_role_message\<close> says that a
  stream/start never does.\<close>

lemma stream_start_overtakes:
  "map (\<lambda>i. (due (fst i), tick (fst i))) (role_queue
     (send_role_message demo_dialect 600 ''artwork'' (Stream_Start [''artwork''] 0)
       (send_role_message demo_dialect 500 ''artwork'' (Stream_End (Some [''artwork'']))
         (send_binary demo_dialect ''artwork'' 1000 ((demo_chunk 1000)\<lparr>epoch_exempt := True\<rparr>)
           ((new_conn demo_objs :: (nat, nat, nat) conn)\<lparr>streaming_roles := [''artwork'']\<rparr>)))) ''artwork'') =
   [(500, 1), (600, 2), (1000, 0)]"
  by code_simp

end
