(* ===== verification/Push_Timeline.thy ===== *)
theory Push_Timeline
  imports Player_Formats
begin

text \<open>
  The state of a push stream and its timeline (\<open>server/push_stream.py\<close>): which roles take part, how far
  ahead of the clock audio has to be scheduled, and the play time of every block that is committed.
  A channel, a role and a transform key are identified by a number or a type parameter. What the stream
  asks of its roles and their clients is an argument of the operations, since it can change at any time;
  how much audio a resampler holds back is measured on a PyAV graph and is a parameter.
\<close>

subsection \<open>Roles\<close>

abbreviation MAIN_CHANNEL :: nat where "MAIN_CHANNEL \<equiv> 0"

definition DEFAULT_INITIAL_DELAY_US :: int where "DEFAULT_INITIAL_DELAY_US = 250000"
definition MIN_LEAD_FLOOR_US :: int where "MIN_LEAD_FLOOR_US = 50000"
definition LATE_JOINER_MIN_LEAD_US :: int where "LATE_JOINER_MIN_LEAD_US = 100000"

record 'k audio_reqs =
  rq_channel :: "nat option"
  rq_rate :: int
  rq_depth :: int
  rq_channels :: int
  rq_frame_us :: "int option"
  rq_key :: 'k

text \<open>A role and its client: \<open>awaits_role_state\<close>, \<open>is_connected\<close>, the warm, reattached and cold marks.\<close>

record 'k audio_role =
  ar_req :: "'k audio_reqs option"
  ar_min_buffer_us :: int
  ar_required_lead_us :: int
  ar_output_delay_us :: int
  ar_preconnect :: bool
  ar_replay_from_pcm :: bool
  ar_awaits_state :: bool
  ar_connected :: bool
  ar_warm :: bool
  ar_reattached :: bool
  ar_cold :: bool

text \<open>The active roles of the group's clients, in order, the hold-back of a resampler, and whether a resampler
  that filters is already running for a channel at the shape a role needs.\<close>

record 'k stage =
  stage_roles :: "(nat, 'k audio_role) dict"
  resampler_hold_back :: "int \<Rightarrow> int \<Rightarrow> int"
  established_resampler :: "'k audio_reqs \<Rightarrow> nat \<Rightarrow> bool"

definition req_channel :: "'k audio_reqs \<Rightarrow> nat" where
  "req_channel q = (case rq_channel q of None \<Rightarrow> MAIN_CHANNEL | Some c \<Rightarrow> c)"

definition role_in_audio_pipeline :: "'k audio_role \<Rightarrow> bool" where
  "role_in_audio_pipeline r =
     (if ar_awaits_state r then False
      else if ar_connected r \<or> ar_warm r then True
      else ar_cold r \<and> ar_preconnect r)"

subsection \<open>State\<close>

record cached_pcm =
  pc_start :: int
  pc_duration :: int
  pc_data :: bytes
  pc_format :: audio_format

record cached_chunk =
  cc_start :: int
  cc_duration :: int
  cc_payload :: bytes

type_synonym prepared = "(nat, bytes \<times> audio_format) dict"

text \<open>What the stream does to a role: the hooks it calls. \<open>stream_log\<close> and \<open>encoded_log\<close> are history variables: the
  hooks called so far, and what was encoded and cached under each key.\<close>

datatype role_event = StreamStarted | Chunk cached_chunk | StreamEnded | StreamCleared

record 'k push_stream =
  is_stopped :: bool
  is_live :: bool
  stream_generation :: nat
  channel_buffers :: prepared
  channel_timing :: "(nat, int) dict"
  channel_timing_residue :: "(nat, int) dict"
  channel_timing_rate :: "(nat, int) dict"
  channel_source_rate :: "(nat, int) dict"
  committed_channels :: "nat list"
  committed_format :: "(nat, audio_format) dict"
  started_roles :: "nat list"
  role_chunk_cache :: "('k, cached_chunk list) dict"
  pcm_chunk_cache :: "(nat, cached_pcm list) dict"
  pcm_cache_enabled :: "nat list"
  catching_up :: "('k, (nat \<times> int option) list) dict"
  pending_join_roles :: "nat list"
  resume_at :: "(nat, int) dict"
  commit_in_flight :: nat
  stream_log :: "(nat \<times> role_event) list"
  encoded_log :: "('k \<times> cached_chunk list) list"

definition new_push_stream :: "'k push_stream" where
  "new_push_stream = \<lparr>is_stopped = False, is_live = False, stream_generation = 0, channel_buffers = [],
     channel_timing = [], channel_timing_residue = [], channel_timing_rate = [], channel_source_rate = [],
     committed_channels = [], committed_format = [], started_roles = [], role_chunk_cache = [],
     pcm_chunk_cache = [], pcm_cache_enabled = [MAIN_CHANNEL], catching_up = [], pending_join_roles = [],
     resume_at = [], commit_in_flight = 0, stream_log = [], encoded_log = []\<rparr>"

definition is_generation_active :: "nat \<Rightarrow> 'k push_stream \<Rightarrow> bool" where
  "is_generation_active g s \<longleftrightarrow> \<not> is_stopped s \<and> stream_generation s = g"

definition set_live_source :: "bool \<Rightarrow> 'k push_stream \<Rightarrow> 'k push_stream" where
  "set_live_source live s = s\<lparr>is_live := live\<rparr>"

definition enable_pcm_cache :: "nat \<Rightarrow> 'k push_stream \<Rightarrow> 'k push_stream" where
  "enable_pcm_cache c s = s\<lparr>pcm_cache_enabled := List.insert c (pcm_cache_enabled s)\<rparr>"

definition disable_pcm_cache :: "nat \<Rightarrow> 'k push_stream \<Rightarrow> 'k push_stream" where
  "disable_pcm_cache c s = s\<lparr>pcm_cache_enabled := removeAll c (pcm_cache_enabled s),
     pcm_chunk_cache := ddel c (pcm_chunk_cache s)\<rparr>"

definition has_pcm_cache :: "'k push_stream \<Rightarrow> nat \<Rightarrow> bool" where
  "has_pcm_cache s c \<longleftrightarrow> c \<in> set (pcm_cache_enabled s) \<and>
     (case dget (pcm_chunk_cache s) c of None \<Rightarrow> False | Some cs \<Rightarrow> cs \<noteq> [])"

definition prepare_audio :: "bytes \<Rightarrow> audio_format \<Rightarrow> nat \<Rightarrow> 'k push_stream \<Rightarrow> 'k push_stream" where
  "prepare_audio pcm fmt c s = s\<lparr>channel_buffers := dset c (pcm, fmt) (channel_buffers s),
     channel_source_rate := dset c (af_rate fmt) (channel_source_rate s)\<rparr>"

subsection \<open>The lead\<close>

definition role_hold_back_us :: "'k stage \<Rightarrow> 'k push_stream \<Rightarrow> 'k audio_role \<Rightarrow> int" where
  "role_hold_back_us e s r =
     (case ar_req r of
        None \<Rightarrow> 0
      | Some q \<Rightarrow>
          (case rq_frame_us q of None \<Rightarrow> 0 | Some f \<Rightarrow> f) +
          (case dget (channel_source_rate s) (req_channel q) of
             None \<Rightarrow> 0
           | Some rate \<Rightarrow> if rate \<noteq> rq_rate q then resampler_hold_back e rate (rq_rate q) else 0))"

definition role_send_ahead_us :: "'k stage \<Rightarrow> 'k push_stream \<Rightarrow> bool \<Rightarrow> 'k audio_role \<Rightarrow> int" where
  "role_send_ahead_us e s include_hold_back r =
     (let min_buffer = ar_min_buffer_us r + (if include_hold_back then role_hold_back_us e s r else 0)
      in if is_live s then max min_buffer MIN_LEAD_FLOOR_US + ar_output_delay_us r
         else max min_buffer (max (ar_required_lead_us r) MIN_LEAD_FLOOR_US) + ar_output_delay_us r)"

definition get_audio_roles :: "'k stage \<Rightarrow> 'k push_stream \<Rightarrow> (nat \<times> 'k audio_role) list" where
  "get_audio_roles e s = filter (\<lambda>(i, r). ar_req r \<noteq> None \<and> i \<notin> set (pending_join_roles s) \<and>
     role_in_audio_pipeline r) (stage_roles e)"

definition max_active_output_delay_us :: "'k stage \<Rightarrow> 'k push_stream \<Rightarrow> int" where
  "max_active_output_delay_us e s =
     (case get_audio_roles e s of [] \<Rightarrow> 0 | rs \<Rightarrow> Max (set (map (\<lambda>(i, r). ar_output_delay_us r) rs)))"

definition min_send_ahead_us :: "'k stage \<Rightarrow> 'k push_stream \<Rightarrow> int" where
  "min_send_ahead_us e s =
     (case get_audio_roles e s of
        [] \<Rightarrow> DEFAULT_INITIAL_DELAY_US
      | rs \<Rightarrow> Max (set (map (\<lambda>(i, r). role_send_ahead_us e s True r) rs)))"

definition active_audio_channels :: "'k stage \<Rightarrow> 'k push_stream \<Rightarrow> nat list" where
  "active_audio_channels e s = remdups (map req_channel (List.map_filter (\<lambda>(i, r). ar_req r) (get_audio_roles e s)))"

text \<open>How long \<open>sleep_to_limit_buffer\<close> sleeps, in microseconds.\<close>

definition sleep_to_limit_buffer :: "'k stage \<Rightarrow> int \<Rightarrow> int \<Rightarrow> 'k push_stream \<Rightarrow> int" where
  "sleep_to_limit_buffer e now max_buffer s =
     (let active = map snd (filter (\<lambda>(c, t). c \<in> set (active_audio_channels e s)) (channel_timing s));
          timings = (if active = [] then map snd (channel_timing s) else active)
      in if timings = [] then 0
         else let ahead = Max (set timings) - now; limit = max_buffer + max_active_output_delay_us e s
              in if limit < ahead then min (ahead - limit) 1000000 else 0)"

subsection \<open>The timeline\<close>

definition set_timing :: "nat \<Rightarrow> int \<Rightarrow> 'k push_stream \<Rightarrow> 'k push_stream" where
  "set_timing c t s = s\<lparr>channel_timing := dset c t (channel_timing s),
     channel_timing_residue := dset c 0 (channel_timing_residue s)\<rparr>"

definition timings_of :: "'k push_stream \<Rightarrow> nat list \<Rightarrow> int list" where
  "timings_of s cs = List.map_filter (dget (channel_timing s)) cs"

text \<open>A prepared channel that has no time yet joins the shared timeline, or starts it.\<close>

definition introduce_channel :: "nat list \<Rightarrow> int \<Rightarrow> nat \<Rightarrow> 'k push_stream \<Rightarrow> 'k push_stream" where
  "introduce_channel cs target c s =
     (if dget (channel_timing s) c \<noteq> None then s
      else set_timing c (case timings_of s cs of [] \<Rightarrow> target | ts \<Rightarrow> Min (set ts)) s)"

definition rebase_timeline :: "nat list \<Rightarrow> int \<Rightarrow> 'k push_stream \<Rightarrow> 'k push_stream" where
  "rebase_timeline cs target s =
     (let candidates = (case timings_of s cs of [] \<Rightarrow> map snd (channel_timing s) | ts \<Rightarrow> ts);
          earliest = Min (set candidates)
      in if earliest < target
         then s\<lparr>channel_timing := map (\<lambda>(c, t). (c, t + (target - earliest))) (channel_timing s)\<rparr> else s)"

definition resolve_channel_play_start :: "'k stage \<Rightarrow> int \<Rightarrow> int option \<Rightarrow> prepared \<Rightarrow> 'k push_stream
    \<Rightarrow> (nat, int) dict \<times> 'k push_stream" where
  "resolve_channel_play_start e now play_start prep s =
     (case play_start of
        Some t \<Rightarrow> (map (\<lambda>(c, _). (c, t)) prep, foldl (\<lambda>s (c, _). set_timing c t s) s prep)
      | None \<Rightarrow>
          (let target = now + min_send_ahead_us e s;
               cs = remdups (active_audio_channels e s @ map fst prep);
               s = foldl (\<lambda>s (c, _). introduce_channel cs target c s) s prep;
               s = rebase_timeline cs target s
           in (map (\<lambda>(c, _). (c, the (dget (channel_timing s) c))) prep, s)))"

text \<open>The residue carries the fraction of a microsecond from block to block.\<close>

definition advance_channel_timing :: "nat \<Rightarrow> int \<Rightarrow> int \<Rightarrow> 'k push_stream \<Rightarrow> int \<times> 'k push_stream" where
  "advance_channel_timing c samples rate s =
     (let s = (if dget (channel_timing_rate s) c \<noteq> Some rate
               then s\<lparr>channel_timing_residue := dset c 0 (channel_timing_residue s),
                      channel_timing_rate := dset c rate (channel_timing_rate s)\<rparr> else s);
          numerator = (case dget (channel_timing_residue s) c of None \<Rightarrow> 0 | Some x \<Rightarrow> x) + samples * 1000000;
          delta = numerator div rate
      in (delta, s\<lparr>channel_timing_residue := dset c (numerator mod rate) (channel_timing_residue s),
                   channel_timing := dset c (the (dget (channel_timing s) c) + delta) (channel_timing s)\<rparr>))"

definition sample_count :: "bytes \<Rightarrow> audio_format \<Rightarrow> int" where
  "sample_count pcm f = int (length pcm) div (af_depth f div 8 * af_channels f)"

text \<open>The loop of \<open>commit_audio\<close> that advances the prepared channels, with the durations it replaces.\<close>

definition advance_prepared :: "nat \<times> bytes \<times> audio_format \<Rightarrow> (nat, int) dict \<times> 'k push_stream
    \<Rightarrow> (nat, int) dict \<times> 'k push_stream" where
  "advance_prepared p w =
     (case p of (c, pcm, f) \<Rightarrow>
       (let (d, s) = advance_channel_timing c (sample_count pcm f) (af_rate f) (snd w)
        in (dset c d (fst w), s\<lparr>committed_channels := List.insert c (committed_channels s),
              committed_format := dset c f (committed_format s)\<rparr>)))"

definition keep_aligned :: "prepared \<Rightarrow> int \<Rightarrow> int \<Rightarrow> nat \<Rightarrow> 'k push_stream \<Rightarrow> 'k push_stream" where
  "keep_aligned prep base_start reference c s =
     (if dget prep c \<noteq> None then s
      else let s = (if dget (channel_timing s) c = None then set_timing c base_start s else s)
           in s\<lparr>channel_timing := dset c (the (dget (channel_timing s) c) + reference) (channel_timing s)\<rparr>)"

definition cache_pcm :: "(nat, int) dict \<Rightarrow> (nat, int) dict \<Rightarrow> nat \<times> bytes \<times> audio_format
    \<Rightarrow> 'k push_stream \<Rightarrow> 'k push_stream" where
  "cache_pcm starts durations p s =
     (case p of (c, pcm, f) \<Rightarrow>
       if c \<notin> set (pcm_cache_enabled s) then s
       else let old = (case dget (pcm_chunk_cache s) c of None \<Rightarrow> [] | Some cs \<Rightarrow> cs)
            in s\<lparr>pcm_chunk_cache := dset c (old @ [\<lparr>pc_start = the (dget starts c), pc_duration = the (dget durations c),
                   pc_data = pcm, pc_format = f\<rparr>]) (pcm_chunk_cache s)\<rparr>)"

text \<open>The part of \<open>commit_audio\<close> from the drained buffers to the delivery, without an await in between.\<close>

definition schedule_prepared :: "'k stage \<Rightarrow> int \<Rightarrow> int option \<Rightarrow> prepared \<Rightarrow> 'k push_stream
    \<Rightarrow> (nat, int) dict \<times> 'k push_stream" where
  "schedule_prepared e now play_start prep s =
     (let (starts, s) = resolve_channel_play_start e now play_start prep s;
          (durations, s) = foldl (\<lambda>w p. advance_prepared p w) ([], s) prep;
          reference = Max (set (map snd durations));
          s = (if 0 < reference
               then foldl (\<lambda>s c. keep_aligned prep (Min (set (map snd starts))) reference c s) s (active_audio_channels e s)
               else s)
      in (starts, foldl (\<lambda>s p. cache_pcm starts durations p s) s prep))"

end
