(* ===== verification/Push_Stream.thy ===== *)
theory Push_Stream
  imports Push_Timeline
begin

text \<open>
  The commits of a push stream and the roles they deliver to (\<open>server/push_stream.py\<close>). A commit runs from
  await to await in steps of its own, so that other commits, joins, leaves, \<open>clear\<close> and \<open>stop\<close> can come in
  between; commits wait for the encoding lock in a queue. Encoding and resampling (PyAV on a worker thread)
  yield the frames a delivery step is given. Historical audio, the catch-up task and \<open>flush_audio\<close> are not
  modelled: of a catch-up, the roles that wait for it are.
\<close>

subsection \<open>Delivery\<close>

definition tell :: "nat \<Rightarrow> role_event \<Rightarrow> 'k push_stream \<Rightarrow> 'k push_stream" where
  "tell i ev s = s\<lparr>stream_log := stream_log s @ [(i, ev)]\<rparr>"

definition ensure_started :: "nat \<Rightarrow> 'k push_stream \<Rightarrow> 'k push_stream" where
  "ensure_started i s =
     (if i \<in> set (started_roles s) then s else (tell i StreamStarted s)\<lparr>started_roles := started_roles s @ [i]\<rparr>)"

definition tell_chunks :: "nat \<Rightarrow> cached_chunk list \<Rightarrow> 'k push_stream \<Rightarrow> 'k push_stream" where
  "tell_chunks i cs s = s\<lparr>stream_log := stream_log s @ map (\<lambda>c. (i, Chunk c)) cs\<rparr>"

text \<open>Live chunks of a role: after a format change they are skipped until its timeline continues.\<close>

definition deliver_live :: "cached_chunk list \<Rightarrow> nat \<Rightarrow> 'k push_stream \<Rightarrow> 'k push_stream" where
  "deliver_live cs i s =
     (let s = ensure_started i s in
      case dget (resume_at s) i of
        None \<Rightarrow> tell_chunks i cs s
      | Some t \<Rightarrow>
          (case dropWhile (\<lambda>c. cc_start c < t) cs of
             [] \<Rightarrow> s
           | cs \<Rightarrow> tell_chunks i cs (s\<lparr>resume_at := ddel i (resume_at s)\<rparr>)))"

definition send_cached_chunks :: "nat \<Rightarrow> int \<Rightarrow> cached_chunk list \<Rightarrow> 'k push_stream \<Rightarrow> 'k push_stream" where
  "send_cached_chunks i now cs s =
     (case filter (\<lambda>c. now < cc_start c) cs of [] \<Rightarrow> s | cs \<Rightarrow> tell_chunks i cs (ensure_started i s))"

definition cached_chunks :: "'k push_stream \<Rightarrow> 'k \<Rightarrow> cached_chunk list" where
  "cached_chunks s k = (case dget (role_chunk_cache s) k of None \<Rightarrow> [] | Some cs \<Rightarrow> cs)"

definition warm_reattached_roles :: "'k stage \<Rightarrow> 'k push_stream \<Rightarrow> (nat \<times> 'k audio_role) list" where
  "warm_reattached_roles e s = filter (\<lambda>(i, r). ar_reattached r \<and> \<not> ar_awaits_state r \<and>
     (case ar_req r of None \<Rightarrow> False | Some q \<Rightarrow> cached_chunks s (rq_key q) \<noteq> [])) (stage_roles e)"

definition role_key :: "'k stage \<Rightarrow> nat \<Rightarrow> 'k option" where
  "role_key e i = (case dget (stage_roles e) i of None \<Rightarrow> None | Some r \<Rightarrow> map_option rq_key (ar_req r))"

text \<open>\<open>_group_roles_by_pcm_requirements\<close> with the grouping by key that follows: the roles a prepared channel is
  encoded for, each with its key.\<close>

definition recipients :: "'k stage \<Rightarrow> prepared \<Rightarrow> 'k push_stream \<Rightarrow> (nat \<times> 'k) list" where
  "recipients e prep s = List.map_filter (\<lambda>(i, r). case ar_req r of
       None \<Rightarrow> None
     | Some q \<Rightarrow> if dget prep (req_channel q) = None then None else Some (i, rq_key q))
     (get_audio_roles e s @ warm_reattached_roles e s)"

definition joining_keys :: "'k stage \<Rightarrow> 'k push_stream \<Rightarrow> 'k list" where
  "joining_keys e s = List.map_filter (role_key e) (pending_join_roles s @ map fst (warm_reattached_roles e s))"

definition roles_for :: "'k \<Rightarrow> (nat \<times> 'k) list \<Rightarrow> nat list" where
  "roles_for k rs = map fst (filter (\<lambda>(i, k'). k' = k) rs)"

text \<open>One transform key of \<open>_cache_and_deliver\<close>, whose results the commit merges into the cache at once.\<close>

definition deliver_key :: "nat list \<Rightarrow> 'k list \<Rightarrow> (nat \<times> 'k) list \<Rightarrow> 'k \<times> cached_chunk list
    \<Rightarrow> 'k push_stream \<Rightarrow> 'k push_stream" where
  "deliver_key active joining rs kf s =
     (let ids = roles_for (fst kf) rs
      in if fst kf \<notin> set joining \<and> \<not> list_ex (\<lambda>i. i \<in> set active) ids then s
         else if snd kf = [] then s
         else foldl (\<lambda>s i. deliver_live (snd kf) i s)
                (s\<lparr>role_chunk_cache := dset (fst kf) (cached_chunks s (fst kf) @ snd kf) (role_chunk_cache s),
                   encoded_log := encoded_log s @ [kf]\<rparr>)
                (filter (\<lambda>i. i \<in> set active) ids))"

definition cache_and_deliver :: "'k stage \<Rightarrow> (nat \<times> 'k) list \<Rightarrow> ('k, cached_chunk list) dict
    \<Rightarrow> 'k push_stream \<Rightarrow> 'k push_stream" where
  "cache_and_deliver e rs frames s =
     foldl (\<lambda>s' kf. deliver_key (map fst (get_audio_roles e s)) (joining_keys e s) rs kf s') s
       (filter (\<lambda>kf. fst kf \<in> set (map snd rs)) frames)"

definition drop_played :: "int \<Rightarrow> ('x \<Rightarrow> int) \<Rightarrow> ('a, 'x list) dict \<Rightarrow> ('a, 'x list) dict" where
  "drop_played now end_of d = filter (\<lambda>(k, cs). cs \<noteq> []) (map (\<lambda>(k, cs). (k, dropWhile (\<lambda>c. end_of c \<le> now) cs)) d)"

definition prune_role_chunk_cache :: "int \<Rightarrow> 'k push_stream \<Rightarrow> 'k push_stream" where
  "prune_role_chunk_cache now s =
     s\<lparr>role_chunk_cache := drop_played now (\<lambda>c. cc_start c + cc_duration c) (role_chunk_cache s),
       pcm_chunk_cache := drop_played now (\<lambda>c. pc_start c + pc_duration c) (pcm_chunk_cache s)\<rparr>"

definition prune_stale_channel_timing :: "'k stage \<Rightarrow> 'k push_stream \<Rightarrow> 'k push_stream" where
  "prune_stale_channel_timing e s =
     (let keep = (\<lambda>c. c \<in> set (active_audio_channels e s) \<or> dget (channel_buffers s) c \<noteq> None \<or>
            c \<in> set (committed_channels s));
          gone = filter (\<lambda>c. \<not> keep c) (map fst (channel_timing s))
      in foldl (\<lambda>s c. s\<lparr>channel_timing := ddel c (channel_timing s),
           channel_timing_residue := ddel c (channel_timing_residue s),
           channel_timing_rate := ddel c (channel_timing_rate s)\<rparr>) s gone)"

subsection \<open>Joining\<close>

definition late_join_target :: "'k stage \<Rightarrow> int \<Rightarrow> 'k audio_role \<Rightarrow> nat \<Rightarrow> bool \<Rightarrow> 'k push_stream \<Rightarrow> int" where
  "late_join_target e now r c align_to_tail s =
     (let target = now + max LATE_JOINER_MIN_LEAD_US (role_send_ahead_us e s False r) in
      case dget (channel_timing s) c of
        Some t \<Rightarrow>
          if align_to_tail \<and> max now t \<le> now + role_send_ahead_us e s True r then max (max now t) target else target
      | None \<Rightarrow> target)"

definition other_role :: "'k stage \<Rightarrow> nat \<Rightarrow> ('k audio_reqs \<Rightarrow> bool) \<Rightarrow> bool" where
  "other_role e i P = list_ex (\<lambda>(j, r). j \<noteq> i \<and> role_in_audio_pipeline r \<and>
     (case ar_req r of None \<Rightarrow> False | Some q \<Rightarrow> P q)) (stage_roles e)"

definition other_roles_use_key :: "'k stage \<Rightarrow> nat \<Rightarrow> 'k \<Rightarrow> bool" where
  "other_roles_use_key e i k = other_role e i (\<lambda>q. rq_key q = k)"

definition channel_has_other_roles :: "'k stage \<Rightarrow> nat \<Rightarrow> nat \<Rightarrow> bool" where
  "channel_has_other_roles e i c = other_role e i (\<lambda>q. req_channel q = c)"

definition rebase_first_join :: "'k stage \<Rightarrow> nat \<Rightarrow> nat \<Rightarrow> 'k push_stream \<Rightarrow> 'k push_stream" where
  "rebase_first_join e c i s =
     (case dget (channel_timing s) c of
        None \<Rightarrow> s
      | Some t \<Rightarrow>
          if channel_has_other_roles e i c then s
          else (case map snd (filter (\<lambda>(c', _). c' \<noteq> c) (channel_timing s)) of
                  [] \<Rightarrow> s | ts \<Rightarrow> set_timing c (max t (Min (set ts))) s))"

definition can_clamp_tail :: "'k stage \<Rightarrow> nat \<Rightarrow> nat \<Rightarrow> 'k push_stream \<Rightarrow> bool" where
  "can_clamp_tail e c i s \<longleftrightarrow> \<not> (channel_has_other_roles e i c \<or> c \<in> set (committed_channels s))"

definition rebase_far_ahead_tail :: "'k stage \<Rightarrow> int \<Rightarrow> nat \<Rightarrow> nat \<Rightarrow> 'k audio_role \<Rightarrow> 'k push_stream \<Rightarrow> 'k push_stream" where
  "rebase_far_ahead_tail e now c i r s =
     (case dget (channel_timing s) c of
        None \<Rightarrow> s
      | Some t \<Rightarrow> if can_clamp_tail e c i s then set_timing c (min t (now + role_send_ahead_us e s True r)) s else s)"

definition skip_keeps_near_playhead :: "'k stage \<Rightarrow> int \<Rightarrow> nat \<Rightarrow> nat \<Rightarrow> 'k audio_role \<Rightarrow> 'k push_stream \<Rightarrow> bool" where
  "skip_keeps_near_playhead e now c i r s =
     (case dget (channel_timing s) c of
        None \<Rightarrow> True
      | Some t \<Rightarrow> t \<le> now + role_send_ahead_us e s True r \<or> can_clamp_tail e c i s)"

definition start_if_timed :: "nat \<Rightarrow> 'k push_stream \<Rightarrow> 'k push_stream" where
  "start_if_timed i s = (if channel_timing s \<noteq> [] then ensure_started i s else s)"

text \<open>A join with nothing cached for its key: wait for a running catch-up, start one, or wait for live audio.\<close>

definition join_uncached :: "'k stage \<Rightarrow> int \<Rightarrow> nat \<Rightarrow> 'k audio_role \<Rightarrow> 'k audio_reqs \<Rightarrow> int option
    \<Rightarrow> 'k push_stream \<Rightarrow> 'k push_stream" where
  "join_uncached e now i r q resume s =
     (let c = req_channel q; k = rq_key q in
      case dget (catching_up s) k of
        Some rs \<Rightarrow> s\<lparr>catching_up := dset k (dset i (Some (late_join_target e now r c False s)) rs) (catching_up s)\<rparr>
      | None \<Rightarrow>
          if has_pcm_cache s c \<and> \<not> other_roles_use_key e i k
          then let newest = last (the (dget (pcm_chunk_cache s) c));
                   target = (case resume of Some t \<Rightarrow> t
                     | None \<Rightarrow> late_join_target e now r c (c \<noteq> MAIN_CHANNEL) s + role_hold_back_us e s r)
               in if pc_start newest + pc_duration newest \<le> target
                  then start_if_timed i (rebase_far_ahead_tail e now c i r s)
                  else if \<not> ar_replay_from_pcm r \<and> established_resampler e q c \<and> skip_keeps_near_playhead e now c i r s
                  then start_if_timed i (rebase_far_ahead_tail e now c i r s)
                  else s\<lparr>catching_up := dset k [(i, None)] (catching_up s)\<rparr>
          else if channel_timing s \<noteq> [] then ensure_started i (rebase_far_ahead_tail e now c i r s)
          else s)"

definition join_cached :: "'k stage \<Rightarrow> int \<Rightarrow> nat \<Rightarrow> 'k audio_role \<Rightarrow> 'k audio_reqs \<Rightarrow> int option
    \<Rightarrow> 'k push_stream \<Rightarrow> 'k push_stream" where
  "join_cached e now i r q resume s =
     (let target = (case resume of Some t \<Rightarrow> t | None \<Rightarrow> late_join_target e now r (req_channel q) False s)
      in case dropWhile (\<lambda>c. cc_start c < target) (cached_chunks s (rq_key q)) of
           [] \<Rightarrow> start_if_timed i s
         | cs \<Rightarrow> send_cached_chunks i now cs s)"

definition do_role_join :: "'k stage \<Rightarrow> int \<Rightarrow> nat \<Rightarrow> 'k push_stream \<Rightarrow> 'k push_stream" where
  "do_role_join e now i s =
     (let s = s\<lparr>pending_join_roles := removeAll i (pending_join_roles s), started_roles := removeAll i (started_roles s)\<rparr>
      in if is_stopped s then s
         else case dget (stage_roles e) i of
             None \<Rightarrow> s
           | Some r \<Rightarrow>
               (case ar_req r of
                  None \<Rightarrow> s
                | Some q \<Rightarrow>
                    (let s = rebase_first_join e (req_channel q) i s; resume = dget (resume_at s) i
                     in if cached_chunks s (rq_key q) = [] then join_uncached e now i r q resume s
                        else join_cached e now i r q resume s)))"

definition on_role_join :: "'k stage \<Rightarrow> int \<Rightarrow> nat \<Rightarrow> 'k push_stream \<Rightarrow> 'k push_stream" where
  "on_role_join e now i s =
     (if 0 < commit_in_flight s then s\<lparr>pending_join_roles := List.insert i (pending_join_roles s)\<rparr>
      else do_role_join e now i s)"

definition release_deferred_joins :: "'k stage \<Rightarrow> int \<Rightarrow> 'k push_stream \<Rightarrow> 'k push_stream" where
  "release_deferred_joins e now s =
     (if commit_in_flight s = 0
      then foldl (\<lambda>s i. do_role_join e now i s) (s\<lparr>pending_join_roles := []\<rparr>) (pending_join_roles s) else s)"

definition leave_catchups :: "nat \<Rightarrow> 'k push_stream \<Rightarrow> 'k push_stream" where
  "leave_catchups i s = s\<lparr>catching_up := filter (\<lambda>(k, rs). rs \<noteq> []) (map (\<lambda>(k, rs). (k, ddel i rs)) (catching_up s))\<rparr>"

definition forget_key :: "'k stage \<Rightarrow> nat \<Rightarrow> 'k \<Rightarrow> 'k push_stream \<Rightarrow> 'k push_stream" where
  "forget_key e i k s =
     (if other_roles_use_key e i k then s else s\<lparr>role_chunk_cache := ddel k (role_chunk_cache s)\<rparr>)"

definition on_role_leave :: "'k stage \<Rightarrow> nat \<Rightarrow> 'k push_stream \<Rightarrow> 'k push_stream" where
  "on_role_leave e i s =
     (let s = s\<lparr>started_roles := removeAll i (started_roles s), pending_join_roles := removeAll i (pending_join_roles s),
                resume_at := ddel i (resume_at s)\<rparr>
      in leave_catchups i (case role_key e i of None \<Rightarrow> s | Some k \<Rightarrow> forget_key e i k s))"

text \<open>The keys the role was looked up under before the change are an argument: \<open>_transform_key_cache\<close> holds them.\<close>

definition on_role_format_changed :: "'k stage \<Rightarrow> int \<Rightarrow> 'k list \<Rightarrow> int option \<Rightarrow> nat \<Rightarrow> 'k push_stream \<Rightarrow> 'k push_stream" where
  "on_role_format_changed e now stale resume i s =
     (let s = leave_catchups i (foldl (\<lambda>s k. forget_key e i k s) s stale);
          s = s\<lparr>resume_at := (case resume of None \<Rightarrow> ddel i (resume_at s) | Some t \<Rightarrow> dset i t (resume_at s))\<rparr>
      in on_role_join e now i s)"

subsection \<open>Stopping and clearing\<close>

definition stop_push_stream :: "'k stage \<Rightarrow> bool \<Rightarrow> 'k push_stream \<Rightarrow> 'k push_stream" where
  "stop_push_stream e keep_stream s =
     (if is_stopped s then s
      else let s = s\<lparr>is_stopped := True, stream_generation := stream_generation s + 1, pending_join_roles := []\<rparr>;
               s = (if keep_stream then s else foldl (\<lambda>s (i, r). tell i StreamEnded s) s (get_audio_roles e s))
           in s\<lparr>started_roles := [], resume_at := [], catching_up := [], pcm_chunk_cache := [],
                committed_channels := [], committed_format := []\<rparr>)"

definition clear_stream :: "'k stage \<Rightarrow> nat list \<Rightarrow> 'k push_stream \<Rightarrow> 'k push_stream" where
  "clear_stream e end_roles s =
     (let s = s\<lparr>stream_generation := stream_generation s + 1, channel_buffers := [], channel_timing := [],
            channel_timing_residue := [], channel_timing_rate := [], committed_channels := [], committed_format := [],
            role_chunk_cache := [], pending_join_roles := [], resume_at := [], pcm_chunk_cache := [], catching_up := [],
            started_roles := []\<rparr>
      in foldl (\<lambda>s (i, r). tell i (if i \<in> set end_roles then StreamEnded else StreamCleared) s) s (get_audio_roles e s))"

end
