(* ===== verification/Push_Commit.thy ===== *)
theory Push_Commit
  imports Push_Stream
begin

text \<open>
  \<open>commit_audio\<close> of \<open>server/push_stream.py\<close> as a coroutine: a commit in flight is what it still has to do,
  and a step runs it from one await to the next. Any number of commits can be in flight; they encode one
  at a time, in the order in which they reach the lock.
\<close>

subsection \<open>Commits in flight\<close>

datatype 'k commit_stage =
    Importing "int option"
  | Delivering prepared "(nat, int) dict"
  | Encoding "(nat \<times> 'k) list" "(nat, int) dict"

record 'k audio_commit =
  cm_generation :: nat
  cm_stage :: "'k commit_stage"

record 'k flow =
  stream :: "'k push_stream"
  in_flight :: "(nat, 'k audio_commit) dict"
  dsp_queue :: "nat list"
  next_commit :: nat
  returned :: "(nat \<times> int) list"

definition new_flow :: "'k flow" where
  "new_flow = \<lparr>stream = new_push_stream, in_flight = [], dsp_queue = [], next_commit = 0, returned = []\<rparr>"

definition stopped_value :: "'k stage \<Rightarrow> int \<Rightarrow> 'k push_stream \<Rightarrow> int" where
  "stopped_value e now s =
     (if channel_timing s \<noteq> [] then Min (set (map snd (channel_timing s))) else now + min_send_ahead_us e s)"

text \<open>The \<open>finally\<close> block, and what the commit returns.\<close>

definition finish_commit :: "'k stage \<Rightarrow> int \<Rightarrow> nat \<Rightarrow> int \<Rightarrow> 'k flow \<Rightarrow> 'k flow" where
  "finish_commit e now i result w =
     (let s = stream w
      in w\<lparr>stream := release_deferred_joins e now (s\<lparr>commit_in_flight := commit_in_flight s - 1\<rparr>),
           in_flight := ddel i (in_flight w), dsp_queue := removeAll i (dsp_queue w),
           returned := returned w @ [(i, result)]\<rparr>)"

definition complete_commit :: "'k stage \<Rightarrow> int \<Rightarrow> nat \<Rightarrow> (nat, int) dict \<Rightarrow> 'k flow \<Rightarrow> 'k flow" where
  "complete_commit e now i starts w =
     finish_commit e now i (Min (set (map snd starts)))
       (w\<lparr>stream := prune_stale_channel_timing e (prune_role_chunk_cache now (stream w))\<rparr>)"

definition set_stage :: "nat \<Rightarrow> 'k audio_commit \<Rightarrow> 'k flow \<Rightarrow> 'k flow" where
  "set_stage i c w = w\<lparr>in_flight := dset i c (in_flight w)\<rparr>"

definition plan_commit :: "'k stage \<Rightarrow> int \<Rightarrow> nat \<Rightarrow> nat \<Rightarrow> int option \<Rightarrow> 'k flow \<Rightarrow> 'k flow" where
  "plan_commit e now i g play_start w =
     (let s = stream w in
      if channel_buffers s = []
      then let s = (if channel_timing s = [] then set_timing MAIN_CHANNEL (now + min_send_ahead_us e s) s else s)
           in finish_commit e now i (Min (set (map snd (channel_timing s)))) (w\<lparr>stream := s\<rparr>)
      else let (starts, s') = schedule_prepared e now play_start (channel_buffers s) (s\<lparr>channel_buffers := []\<rparr>)
           in set_stage i \<lparr>cm_generation = g, cm_stage = Delivering (channel_buffers s) starts\<rparr>
                (w\<lparr>stream := s', dsp_queue := dsp_queue w @ [i]\<rparr>))"

text \<open>\<open>None\<close> is \<open>StreamStoppedError\<close>. The first commit of a timeline awaits the import of PyAV.\<close>

definition begin_commit :: "'k stage \<Rightarrow> int \<Rightarrow> int option \<Rightarrow> 'k flow \<Rightarrow> 'k flow option" where
  "begin_commit e now play_start w =
     (let s = stream w; i = next_commit w; g = stream_generation s in
      if is_stopped s then None
      else let w = w\<lparr>stream := s\<lparr>commit_in_flight := commit_in_flight s + 1\<rparr>, next_commit := i + 1\<rparr>
           in Some (if channel_timing s = [] then set_stage i \<lparr>cm_generation = g, cm_stage = Importing play_start\<rparr> w
                    else plan_commit e now i g play_start w))"

definition resume_import :: "'k stage \<Rightarrow> int \<Rightarrow> nat \<Rightarrow> 'k flow \<Rightarrow> 'k flow" where
  "resume_import e now i w =
     (case dget (in_flight w) i of
        Some c \<Rightarrow>
          (case cm_stage c of
             Importing play_start \<Rightarrow>
               if is_generation_active (cm_generation c) (stream w) then plan_commit e now i (cm_generation c) play_start w
               else finish_commit e now i (stopped_value e now (stream w)) w
           | _ \<Rightarrow> w)
      | None \<Rightarrow> w)"

text \<open>The commit at the front of the queue takes the lock and determines whom it encodes for.\<close>

definition enter_encoder :: "'k stage \<Rightarrow> int \<Rightarrow> 'k flow \<Rightarrow> 'k flow" where
  "enter_encoder e now w =
     (case dsp_queue w of
        [] \<Rightarrow> w
      | i # _ \<Rightarrow>
          (case dget (in_flight w) i of
             Some c \<Rightarrow>
               (case cm_stage c of
                  Delivering prep starts \<Rightarrow>
                    if \<not> is_generation_active (cm_generation c) (stream w)
                    then finish_commit e now i (stopped_value e now (stream w)) w
                    else (case recipients e prep (stream w) of
                            [] \<Rightarrow> complete_commit e now i starts w
                          | rs \<Rightarrow> set_stage i (c\<lparr>cm_stage := Encoding rs starts\<rparr>) w)
                | _ \<Rightarrow> w)
           | None \<Rightarrow> w))"

text \<open>The encoded frames are in: they are delivered and cached, unless the stream was stopped or cleared.\<close>

definition deliver_commit :: "'k stage \<Rightarrow> int \<Rightarrow> ('k, cached_chunk list) dict \<Rightarrow> 'k flow \<Rightarrow> 'k flow" where
  "deliver_commit e now frames w =
     (case dsp_queue w of
        [] \<Rightarrow> w
      | i # _ \<Rightarrow>
          (case dget (in_flight w) i of
             Some c \<Rightarrow>
               (case cm_stage c of
                  Encoding rs starts \<Rightarrow>
                    if \<not> is_generation_active (cm_generation c) (stream w)
                    then finish_commit e now i (stopped_value e now (stream w)) w
                    else complete_commit e now i starts (w\<lparr>stream := cache_and_deliver e rs frames (stream w)\<rparr>)
                | _ \<Rightarrow> w)
           | None \<Rightarrow> w))"

definition on_stream :: "('k push_stream \<Rightarrow> 'k push_stream) \<Rightarrow> 'k flow \<Rightarrow> 'k flow" where
  "on_stream f w = w\<lparr>stream := f (stream w)\<rparr>"

subsection \<open>Runs\<close>

datatype 'k stream_call =
    Prepare bytes audio_format nat | SetLive bool | EnableCache nat | DisableCache nat
  | RoleJoin nat | RoleLeave nat | RoleFormatChanged "'k list" "int option" nat
  | Stop bool | Clear "nat list"

fun apply_stream_call :: "'k stage \<Rightarrow> int \<Rightarrow> 'k stream_call \<Rightarrow> 'k push_stream \<Rightarrow> 'k push_stream" where
  "apply_stream_call e now (Prepare pcm f c) s = prepare_audio pcm f c s"
| "apply_stream_call e now (SetLive b) s = set_live_source b s"
| "apply_stream_call e now (EnableCache c) s = enable_pcm_cache c s"
| "apply_stream_call e now (DisableCache c) s = disable_pcm_cache c s"
| "apply_stream_call e now (RoleJoin i) s = on_role_join e now i s"
| "apply_stream_call e now (RoleLeave i) s = on_role_leave e i s"
| "apply_stream_call e now (RoleFormatChanged ks t i) s = on_role_format_changed e now ks t i s"
| "apply_stream_call e now (Stop keep) s = stop_push_stream e keep s"
| "apply_stream_call e now (Clear ends) s = clear_stream e ends s"

inductive flow_step :: "'k flow \<Rightarrow> 'k flow \<Rightarrow> bool" where
  called: "flow_step w (on_stream (apply_stream_call e now c) w)"
| begun: "begin_commit e now play_start w = Some w' \<Longrightarrow> flow_step w w'"
| imported: "flow_step w (resume_import e now i w)"
| entered: "flow_step w (enter_encoder e now w)"
| delivered: "flow_step w (deliver_commit e now frames w)"

inductive flow_run :: "'k flow \<Rightarrow> 'k flow \<Rightarrow> bool" where
  start: "flow_run w w"
| more: "flow_run w w' \<Longrightarrow> flow_step w' w'' \<Longrightarrow> flow_run w w''"

inductive_cases flow_stepE: "flow_step w w'"

end
