(* ===== verification/Push_Facts.thy ===== *)
theory Push_Facts
  imports Push_Commit
begin

text \<open>
  The timeline of a push stream: its clocks do not drift, and what is committed is far enough ahead.
\<close>

subsection \<open>The clock of a channel\<close>

lemma timing_advance [simp]:
  "dget (channel_timing (snd (advance_channel_timing c n rate s))) c' =
     (if c' = c then Some (the (dget (channel_timing s) c) + fst (advance_channel_timing c n rate s))
      else dget (channel_timing s) c')"
  by (simp add: advance_channel_timing_def Let_def)

text \<open>The fraction of a microsecond a channel carries when its next block has the given rate.\<close>

definition carried :: "nat \<Rightarrow> int \<Rightarrow> 'k push_stream \<Rightarrow> int" where
  "carried c rate s = (if dget (channel_timing_rate s) c = Some rate
     then (case dget (channel_timing_residue s) c of None \<Rightarrow> 0 | Some x \<Rightarrow> x) else 0)"

lemma advance_delta: "fst (advance_channel_timing c n rate s) = (carried c rate s + n * 1000000) div rate"
  by (simp add: advance_channel_timing_def Let_def carried_def)

lemma advance_carried: "carried c rate (snd (advance_channel_timing c n rate s)) = (carried c rate s + n * 1000000) mod rate"
  by (simp add: advance_channel_timing_def Let_def carried_def)

lemma div_carry:
  fixes r :: int assumes "0 < r" shows "(x + y) div r = x div r + (x mod r + y) div r"
proof -
  have "x + y = (x mod r + y) + r * (x div r)" by (simp add: algebra_simps)
  moreover have "((x mod r + y) + r * (x div r)) div r = x div r + (x mod r + y) div r"
    by (rule div_mult_self2) (use assms in simp)
  ultimately show ?thesis by simp
qed

definition commit_blocks :: "nat \<Rightarrow> int \<Rightarrow> int list \<Rightarrow> 'k push_stream \<Rightarrow> 'k push_stream" where
  "commit_blocks c rate ns s = foldl (\<lambda>s n. snd (advance_channel_timing c n rate s)) s ns"

lemma commit_blocks_clock:
  assumes "0 < rate" and "dget (channel_timing s) c = Some t" and "0 \<le> carried c rate s" "carried c rate s < rate"
  shows "dget (channel_timing (commit_blocks c rate ns s)) c = Some (t + (carried c rate s + sum_list ns * 1000000) div rate)"
  using assms(2-)
proof (induction ns arbitrary: s t)
  case Nil
  then show ?case by (simp add: commit_blocks_def)
next
  case (Cons n ns)
  let ?s = "snd (advance_channel_timing c n rate s)" and ?x = "carried c rate s + n * 1000000"
  have "dget (channel_timing ?s) c = Some (t + ?x div rate)" using Cons.prems(1) by (simp add: advance_delta)
  moreover have "carried c rate ?s = ?x mod rate" by (rule advance_carried)
  ultimately have "dget (channel_timing (commit_blocks c rate ns ?s)) c =
      Some (t + ?x div rate + (?x mod rate + sum_list ns * 1000000) div rate)"
    using Cons.IH [of ?s "t + ?x div rate"] assms(1) by simp
  moreover have "?x div rate + (?x mod rate + sum_list ns * 1000000) div rate = (carried c rate s + sum_list (n # ns) * 1000000) div rate"
    using div_carry [OF assms(1), of ?x "sum_list ns * 1000000"] by (simp add: algebra_simps)
  ultimately show ?case by (simp add: commit_blocks_def)
qed

text \<open>C19. The clock of a channel does not drift: after any number of blocks at one rate it stands where one
  block of all their samples would have put it, to the microsecond.\<close>

theorem channel_clock_drift_free:
  assumes "0 < rate" and "dget (channel_timing s) c = Some t" and "0 \<le> carried c rate s" "carried c rate s < rate"
  shows "dget (channel_timing (commit_blocks c rate ns s)) c =
    dget (channel_timing (snd (advance_channel_timing c (sum_list ns) rate s))) c"
  using commit_blocks_clock [OF assms] assms(2) by (simp add: advance_delta)

theorem channel_clock_drift_free_witness:
  "dget (channel_timing (commit_blocks 0 44100 [1000, 1000, 1000] (set_timing 0 500 (new_push_stream :: nat push_stream)))) 0 = Some 68527"
proof -
  have "dget (channel_timing (set_timing 0 500 (new_push_stream :: nat push_stream))) 0 = Some 500"
    "carried 0 44100 (set_timing 0 500 (new_push_stream :: nat push_stream)) = 0"
    by (simp_all add: set_timing_def new_push_stream_def carried_def)
  from channel_clock_drift_free [OF _ this(1), of 44100 "[1000, 1000, 1000]"] this show ?thesis
    by (simp add: advance_delta)
qed

subsection \<open>The lead\<close>

lemma dget_shift: "dget (map (\<lambda>(c, t). (c, t + k)) d) c = map_option (\<lambda>t. t + (k :: int)) (dget d c)"
  by (induction d) auto

lemma timing_set [simp]: "dget (channel_timing (set_timing c t s)) c' = (if c' = c then Some t else dget (channel_timing s) c')"
  by (simp add: set_timing_def)

lemma timings_of_mem: "x \<in> set (timings_of s cs) \<longleftrightarrow> (\<exists>c\<in>set cs. dget (channel_timing s) c = Some x)"
  by (force simp: timings_of_def List.map_filter_def)

lemma introduce_timed:
  "dget (channel_timing s) c' = Some t \<Longrightarrow> dget (channel_timing (introduce_channel cs target c s)) c' = Some t"
  "dget (channel_timing (introduce_channel cs target c s)) c \<noteq> None"
  by (auto simp: introduce_channel_def)

lemma introduce_all_keeps:
  "dget (channel_timing s) c' = Some t \<Longrightarrow>
     dget (channel_timing (foldl (\<lambda>s (c, _). introduce_channel cs target c s) s prep)) c' = Some t"
  by (induction prep arbitrary: s) (auto intro: introduce_timed(1))

lemma introduce_all_timed:
  "c \<in> fst ` set prep \<Longrightarrow>
     dget (channel_timing (foldl (\<lambda>s (c, _). introduce_channel cs target c s) s prep)) c \<noteq> None"
proof (induction prep arbitrary: s)
  case (Cons p prep)
  show ?case
  proof (cases "fst p = c")
    case True
    obtain t where t: "dget (channel_timing (introduce_channel cs target c s)) c = Some t"
      using introduce_timed(2) [of cs target c s] by auto
    show ?thesis using introduce_all_keeps [OF t, of cs target prep] True by (cases p) simp
  next
    case False
    then show ?thesis using Cons by (cases p) auto
  qed
qed simp

text \<open>The rebase moves every channel by the same amount, and no candidate is left before the target.\<close>

definition rebase_shift :: "nat list \<Rightarrow> int \<Rightarrow> 'k push_stream \<Rightarrow> int" where
  "rebase_shift cs target s =
     (let candidates = (case timings_of s cs of [] \<Rightarrow> map snd (channel_timing s) | ts \<Rightarrow> ts)
      in max 0 (target - Min (set candidates)))"

lemma rebase_timing:
  "dget (channel_timing (rebase_timeline cs target s)) c = map_option (\<lambda>t. t + rebase_shift cs target s) (dget (channel_timing s) c)"
  by (cases "dget (channel_timing s) c") (auto simp: rebase_timeline_def rebase_shift_def Let_def dget_shift max_def)

lemma rebase_reaches:
  assumes "c \<in> set cs" and "dget (channel_timing s) c = Some t" shows "target \<le> t + rebase_shift cs target s"
proof -
  have mem: "t \<in> set (timings_of s cs)" using assms by (auto simp: timings_of_mem)
  then have "Min (set (timings_of s cs)) \<le> t" by simp
  moreover have "(case timings_of s cs of [] \<Rightarrow> map snd (channel_timing s) | ts \<Rightarrow> ts) = timings_of s cs"
    using mem by (cases "timings_of s cs") auto
  ultimately show ?thesis by (simp add: rebase_shift_def)
qed

text \<open>The common send-ahead covers what each role of the pipeline needs on its own.\<close>

lemma role_in_get_audio_roles:
  "(i, r) \<in> set (stage_roles e) \<Longrightarrow> ar_req r \<noteq> None \<Longrightarrow> i \<notin> set (pending_join_roles s) \<Longrightarrow>
   role_in_audio_pipeline r \<Longrightarrow> (i, r) \<in> set (get_audio_roles e s)"
  by (simp add: get_audio_roles_def)

lemma min_send_ahead_covers:
  assumes "(i, r) \<in> set (get_audio_roles e s)"
  shows "role_send_ahead_us e s True r \<le> min_send_ahead_us e s"
proof -
  have "get_audio_roles e s \<noteq> []" using assms by auto
  then have "min_send_ahead_us e s = Max (set (map (\<lambda>(i, r). role_send_ahead_us e s True r) (get_audio_roles e s)))"
    by (auto simp: min_send_ahead_us_def split: list.split)
  moreover have "role_send_ahead_us e s True r \<in> set (map (\<lambda>(i, r). role_send_ahead_us e s True r) (get_audio_roles e s))"
    using assms by force
  ultimately show ?thesis by simp
qed

definition ahead_for_role :: "'k stage \<Rightarrow> 'k push_stream \<Rightarrow> int \<Rightarrow> 'k audio_role \<Rightarrow> int \<Rightarrow> bool" where
  "ahead_for_role e s now r t \<longleftrightarrow>
     now + ar_min_buffer_us r + role_hold_back_us e s r + ar_output_delay_us r \<le> t
     \<and> now + 50000 + ar_output_delay_us r \<le> t
     \<and> (is_live s \<or> now + ar_required_lead_us r + ar_output_delay_us r \<le> t)"

lemma ahead_for_roleI:
  assumes "(i, r) \<in> set (get_audio_roles e s)" "now + min_send_ahead_us e s \<le> t"
  shows "ahead_for_role e s now r t"
  using min_send_ahead_covers [OF assms(1)] assms(2)
  by (auto simp: ahead_for_role_def role_send_ahead_us_def MIN_LEAD_FLOOR_US_def Let_def split: if_splits)

text \<open>C18. Audio is committed ahead of the clock: with the stream choosing the time, every prepared channel
  starts late enough for each single role of the pipeline, whatever the others need: after its minimum
  buffer, what its resampler and encoder hold back and its output delay, after 50 ms and its output delay,
  and, unless the stream is live, after its required lead and its output delay; with no role, after 250 ms.
  The channels that already had a time all move by the same amount, so that they stay aligned.\<close>

theorem committed_audio_is_ahead:
  "(\<forall>c\<in>fst ` set prep. \<exists>t. dget (fst (resolve_channel_play_start e now None prep s)) c = Some t
      \<and> (\<forall>(i, r)\<in>set (stage_roles e). ar_req r \<noteq> None \<and> i \<notin> set (pending_join_roles s) \<and> role_in_audio_pipeline r
           \<longrightarrow> ahead_for_role e s now r t)
      \<and> (get_audio_roles e s = [] \<longrightarrow> now + 250000 \<le> t)) \<and>
   (\<exists>shift\<ge>0. \<forall>c t. dget (channel_timing s) c = Some t \<longrightarrow>
      dget (channel_timing (snd (resolve_channel_play_start e now None prep s))) c = Some (t + shift))"
proof -
  define target where "target = now + min_send_ahead_us e s"
  define cs where "cs = remdups (active_audio_channels e s @ map fst prep)"
  define s1 where "s1 = foldl (\<lambda>s (c, _). introduce_channel cs target c s) s prep"
  define s2 where "s2 = rebase_timeline cs target s1"
  have eq: "resolve_channel_play_start e now None prep s = (map (\<lambda>(c, _). (c, the (dget (channel_timing s2) c))) prep, s2)"
    by (simp add: resolve_channel_play_start_def Let_def target_def cs_def s1_def s2_def)
  have "\<exists>t. dget (fst (resolve_channel_play_start e now None prep s)) c = Some t \<and> target \<le> t" if c: "c \<in> fst ` set prep" for c
  proof -
    obtain t where t: "dget (channel_timing s1) c = Some t"
      using introduce_all_timed [OF c] unfolding s1_def by blast
    have "c \<in> set cs" using c by (auto simp: cs_def)
    then have "target \<le> t + rebase_shift cs target s1" using t by (rule rebase_reaches)
    moreover have "dget (channel_timing s2) c = Some (t + rebase_shift cs target s1)" using t by (simp add: s2_def rebase_timing)
    moreover have "dget (map (\<lambda>(c, _). (c, f c)) prep) c = Some (f c)" for f :: "nat \<Rightarrow> int"
      using c by (induction prep) auto
    ultimately show ?thesis by (simp add: eq)
  qed
  moreover have "(\<forall>(i, r)\<in>set (stage_roles e). ar_req r \<noteq> None \<and> i \<notin> set (pending_join_roles s) \<and> role_in_audio_pipeline r
      \<longrightarrow> ahead_for_role e s now r t) \<and> (get_audio_roles e s = [] \<longrightarrow> now + 250000 \<le> t)" if "target \<le> t" for t
  proof
    show "\<forall>(i, r)\<in>set (stage_roles e). ar_req r \<noteq> None \<and> i \<notin> set (pending_join_roles s) \<and> role_in_audio_pipeline r
        \<longrightarrow> ahead_for_role e s now r t"
      using that unfolding target_def by (blast intro: ahead_for_roleI role_in_get_audio_roles)
    show "get_audio_roles e s = [] \<longrightarrow> now + 250000 \<le> t"
      using that by (auto simp: target_def min_send_ahead_us_def DEFAULT_INITIAL_DELAY_US_def split: list.splits)
  qed
  moreover have "\<exists>shift\<ge>0. \<forall>c t. dget (channel_timing s) c = Some t \<longrightarrow>
      dget (channel_timing (snd (resolve_channel_play_start e now None prep s))) c = Some (t + shift)"
    unfolding eq by (intro exI [of _ "rebase_shift cs target s1"])
      (simp add: introduce_all_keeps s2_def s1_def rebase_timing, simp add: rebase_shift_def Let_def)
  ultimately show ?thesis by meson
qed

text \<open>Two players on a stream that has fallen behind: one needs 230 ms, the other 630 ms.\<close>

definition demo_role :: "nat audio_role" where
  "demo_role = \<lparr>ar_req = Some \<lparr>rq_channel = None, rq_rate = 48000, rq_depth = 16, rq_channels = 2, rq_frame_us = None, rq_key = 7\<rparr>,
     ar_min_buffer_us = 200000, ar_required_lead_us = 0, ar_output_delay_us = 30000, ar_preconnect = False,
     ar_replay_from_pcm = False, ar_awaits_state = False, ar_connected = True, ar_warm = False,
     ar_reattached = False, ar_cold = False\<rparr>"

definition slow_role :: "nat audio_role" where
  "slow_role = demo_role\<lparr>ar_min_buffer_us := 600000\<rparr>"

definition demo_stage :: "nat stage" where
  "demo_stage = \<lparr>stage_roles = [(1, demo_role)], resampler_hold_back = (\<lambda>_ _. 0), established_resampler = (\<lambda>_ _. False)\<rparr>"

definition two_players :: "nat stage" where
  "two_players = demo_stage\<lparr>stage_roles := [(1, demo_role), (2, slow_role)]\<rparr>"

definition demo_behind :: "nat push_stream" where
  "demo_behind = set_timing 5 900000 (set_timing 0 400000 new_push_stream)"

theorem committed_audio_is_ahead_witness:
  "(\<exists>t. dget (fst (resolve_channel_play_start two_players 1000000 None [(0, [], audio_format_of 48000 16 2)] demo_behind)) 0 = Some t
      \<and> 1230000 \<le> t \<and> 1630000 \<le> t) \<and>
   (\<exists>shift\<ge>0. dget (channel_timing (snd (resolve_channel_play_start two_players 1000000 None [(0, [], audio_format_of 48000 16 2)] demo_behind))) 5
      = Some (900000 + shift))"
proof -
  have "dget (channel_timing demo_behind) 5 = Some 900000"
    by code_simp
  moreover have "ahead_for_role two_players demo_behind 1000000 demo_role t \<Longrightarrow> 1230000 \<le> t"
    "ahead_for_role two_players demo_behind 1000000 slow_role t \<Longrightarrow> 1630000 \<le> t" for t
    by (auto simp: ahead_for_role_def demo_role_def slow_role_def role_hold_back_us_def demo_behind_def
        set_timing_def new_push_stream_def)
  moreover have "role_in_audio_pipeline demo_role" "role_in_audio_pipeline slow_role"
    "ar_req demo_role \<noteq> None" "ar_req slow_role \<noteq> None" "pending_join_roles demo_behind = []"
    by (simp_all add: demo_role_def slow_role_def role_in_audio_pipeline_def demo_behind_def set_timing_def new_push_stream_def)
  ultimately show ?thesis
    using committed_audio_is_ahead [of "[(0, [], audio_format_of 48000 16 2)]" two_players 1000000 demo_behind]
    by (simp add: two_players_def demo_stage_def) blast
qed

end
