(* ===== verification/Push_Lifecycle.thy ===== *)
theory Push_Lifecycle
  imports Push_Facts
begin

text \<open>
  The life cycle of a push stream: what \<open>stop\<close> and \<open>clear\<close> mean for the commits in flight, and what no
  operation of the timeline or of a join touches.
\<close>

subsection \<open>What an operation leaves alone\<close>

lemma foldl_frame: "(\<And>s x. f (g s x) = f s) \<Longrightarrow> f (foldl g s xs) = f s"
  by (induction xs arbitrary: s) auto

text \<open>The life cycle of the stream is moved by \<open>stop\<close> and \<open>clear\<close> only.\<close>

definition lifecycle :: "'k push_stream \<Rightarrow> bool \<times> nat" where
  "lifecycle s = (is_stopped s, stream_generation s)"

lemma lifecycle_active: "lifecycle s' = lifecycle s \<Longrightarrow> is_generation_active g s' = is_generation_active g s"
  by (simp add: lifecycle_def is_generation_active_def)

lemma lifecycle_fields [simp]:
  "lifecycle (s\<lparr>channel_buffers := b\<rparr>) = lifecycle s" "lifecycle (s\<lparr>channel_timing := t\<rparr>) = lifecycle s"
  "lifecycle (s\<lparr>channel_timing_residue := r\<rparr>) = lifecycle s" "lifecycle (s\<lparr>channel_timing_rate := q\<rparr>) = lifecycle s"
  "lifecycle (s\<lparr>committed_channels := cc\<rparr>) = lifecycle s" "lifecycle (s\<lparr>committed_format := cf\<rparr>) = lifecycle s"
  "lifecycle (s\<lparr>started_roles := st\<rparr>) = lifecycle s" "lifecycle (s\<lparr>role_chunk_cache := rc\<rparr>) = lifecycle s"
  "lifecycle (s\<lparr>pcm_chunk_cache := pc\<rparr>) = lifecycle s" "lifecycle (s\<lparr>catching_up := cu\<rparr>) = lifecycle s"
  "lifecycle (s\<lparr>pending_join_roles := pj\<rparr>) = lifecycle s" "lifecycle (s\<lparr>resume_at := ra\<rparr>) = lifecycle s"
  "lifecycle (s\<lparr>commit_in_flight := n\<rparr>) = lifecycle s" "lifecycle (s\<lparr>stream_log := l\<rparr>) = lifecycle s"
  "lifecycle (s\<lparr>encoded_log := el\<rparr>) = lifecycle s" "lifecycle (s\<lparr>is_live := lv\<rparr>) = lifecycle s"
  "lifecycle (s\<lparr>pcm_cache_enabled := pe\<rparr>) = lifecycle s" "lifecycle (s\<lparr>channel_source_rate := sr\<rparr>) = lifecycle s"
  by (simp_all add: lifecycle_def)

lemma lifecycle_timeline [simp]:
  "lifecycle (set_timing c t s) = lifecycle s" "lifecycle (introduce_channel cs g c s) = lifecycle s"
  "lifecycle (rebase_timeline cs g s) = lifecycle s"
  "lifecycle (snd (advance_channel_timing c n rate s)) = lifecycle s"
  "lifecycle (snd (advance_prepared p w)) = lifecycle (snd w)"
  "lifecycle (keep_aligned prep b d c s) = lifecycle s" "lifecycle (cache_pcm st du p s) = lifecycle s"
  by (simp_all add: set_timing_def introduce_channel_def rebase_timeline_def advance_channel_timing_def
      advance_prepared_def keep_aligned_def cache_pcm_def Let_def split_beta)

lemma lifecycle_folds [simp]:
  "lifecycle (foldl (\<lambda>s (c, _). set_timing c t s) s prep) = lifecycle s"
  "lifecycle (foldl (\<lambda>s (c, _). introduce_channel cs g c s) s prep) = lifecycle s"
  "lifecycle (snd (foldl (\<lambda>w p. advance_prepared p w) w prep)) = lifecycle (snd w)"
  "lifecycle (foldl (\<lambda>s c. keep_aligned prep b d c s) s chs) = lifecycle s"
  "lifecycle (foldl (\<lambda>s p. cache_pcm st du p s) s prep) = lifecycle s"
  by (rule foldl_frame; simp add: split_beta)+

lemma lifecycle_resolve [simp]: "lifecycle (snd (resolve_channel_play_start e now ps prep s)) = lifecycle s"
  by (cases ps) (simp_all add: resolve_channel_play_start_def Let_def)

lemma lifecycle_schedule [simp]: "lifecycle (snd (schedule_prepared e now ps prep s)) = lifecycle s"
  by (simp add: schedule_prepared_def Let_def split_beta)

lemma lifecycle_delivery [simp]:
  "lifecycle (tell i ev s) = lifecycle s" "lifecycle (ensure_started i s) = lifecycle s"
  "lifecycle (tell_chunks i cs s) = lifecycle s" "lifecycle (send_cached_chunks i now cs s) = lifecycle s"
  by (simp_all add: tell_def ensure_started_def tell_chunks_def send_cached_chunks_def split: list.split)

lemma lifecycle_live [simp]: "lifecycle (deliver_live cs i s) = lifecycle s"
  by (simp add: deliver_live_def Let_def split: option.split list.split)

lemma lifecycle_key [simp]: "lifecycle (deliver_key act jk rs kf s) = lifecycle s"
  by (simp add: deliver_key_def Let_def foldl_frame [where f = lifecycle])

lemma lifecycle_prune [simp]:
  "lifecycle (cache_and_deliver e rs frames s) = lifecycle s"
  "lifecycle (prune_role_chunk_cache now s) = lifecycle s"
  "lifecycle (prune_stale_channel_timing e s) = lifecycle s"
  by (simp_all add: cache_and_deliver_def prune_role_chunk_cache_def prune_stale_channel_timing_def Let_def
      foldl_frame [where f = lifecycle])

lemma lifecycle_join [simp]:
  "lifecycle (rebase_first_join e c i s) = lifecycle s" "lifecycle (rebase_far_ahead_tail e now c i r s) = lifecycle s"
  "lifecycle (start_if_timed i s) = lifecycle s"
  by (simp_all add: rebase_first_join_def rebase_far_ahead_tail_def start_if_timed_def split: option.split list.split)

lemma lifecycle_joins [simp]:
  "lifecycle (join_uncached e now i r q resume s) = lifecycle s"
  "lifecycle (join_cached e now i r q resume s) = lifecycle s"
  by (simp_all add: join_uncached_def join_cached_def Let_def split: option.split list.split)

lemma lifecycle_role_join [simp]: "lifecycle (do_role_join e now i s) = lifecycle s"
  by (simp add: do_role_join_def Let_def split: option.split)

lemma lifecycle_on_join [simp]:
  "lifecycle (on_role_join e now i s) = lifecycle s" "lifecycle (release_deferred_joins e now s) = lifecycle s"
  by (simp_all add: on_role_join_def release_deferred_joins_def foldl_frame [where f = lifecycle])

lemma lifecycle_leave [simp]:
  "lifecycle (leave_catchups i s) = lifecycle s" "lifecycle (forget_key e i k s) = lifecycle s"
  by (simp_all add: leave_catchups_def forget_key_def)

lemma lifecycle_on_leave [simp]: "lifecycle (on_role_leave e i s) = lifecycle s"
  by (simp add: on_role_leave_def Let_def split: option.split)

lemma lifecycle_format [simp]: "lifecycle (on_role_format_changed e now ks t i s) = lifecycle s"
  by (simp add: on_role_format_changed_def Let_def foldl_frame [where f = lifecycle])

fun moves_lifecycle :: "'k stream_call \<Rightarrow> bool" where
  "moves_lifecycle (Stop _) = True" | "moves_lifecycle (Clear _) = True" | "moves_lifecycle _ = False"

lemma lifecycle_call: "\<not> moves_lifecycle c \<Longrightarrow> lifecycle (apply_stream_call e now c s) = lifecycle s"
  by (cases c) (simp_all add: prepare_audio_def set_live_source_def enable_pcm_cache_def disable_pcm_cache_def)

lemma tell_all_lifecycle [simp]: "lifecycle (foldl (\<lambda>s (i, r). tell i (f i r) s) s rs) = lifecycle s"
  by (rule foldl_frame) (simp add: split_beta)

lemma lifecycle_stop: "lifecycle (stop_push_stream e keep s) =
    (if is_stopped s then lifecycle s else (True, Suc (stream_generation s)))"
proof (cases "is_stopped s")
  case False
  have "lifecycle (foldl (\<lambda>s (i, r). tell i StreamEnded s) s' rs) = lifecycle s'" for s' :: "'a push_stream" and rs :: "(nat \<times> 'a audio_role) list"
    by (rule tell_all_lifecycle)
  then show ?thesis using False by (simp add: stop_push_stream_def Let_def) (simp add: lifecycle_def)
qed (simp add: stop_push_stream_def)

lemma lifecycle_clear: "lifecycle (clear_stream e ends s) = (is_stopped s, Suc (stream_generation s))"
  by (simp add: clear_stream_def Let_def) (simp add: lifecycle_def)

text \<open>What roles see and wait for is not touched by the timeline.\<close>

definition delivery_view where
  "delivery_view s = (stream_log s, encoded_log s, started_roles s, role_chunk_cache s, pending_join_roles s,
     resume_at s, commit_in_flight s, catching_up s)"

lemma view_fields [simp]:
  "delivery_view (s\<lparr>channel_buffers := b\<rparr>) = delivery_view s" "delivery_view (s\<lparr>channel_timing := t\<rparr>) = delivery_view s"
  "delivery_view (s\<lparr>channel_timing_residue := r\<rparr>) = delivery_view s" "delivery_view (s\<lparr>channel_timing_rate := q\<rparr>) = delivery_view s"
  "delivery_view (s\<lparr>committed_channels := cc\<rparr>) = delivery_view s" "delivery_view (s\<lparr>committed_format := cf\<rparr>) = delivery_view s"
  "delivery_view (s\<lparr>pcm_chunk_cache := pc\<rparr>) = delivery_view s" "delivery_view (s\<lparr>is_live := lv\<rparr>) = delivery_view s"
  "delivery_view (s\<lparr>pcm_cache_enabled := pe\<rparr>) = delivery_view s" "delivery_view (s\<lparr>channel_source_rate := sr\<rparr>) = delivery_view s"
  by (simp_all add: delivery_view_def)

lemma view_timeline [simp]:
  "delivery_view (set_timing c t s) = delivery_view s" "delivery_view (introduce_channel cs g c s) = delivery_view s"
  "delivery_view (rebase_timeline cs g s) = delivery_view s"
  "delivery_view (snd (advance_channel_timing c n rate s)) = delivery_view s"
  "delivery_view (snd (advance_prepared p w)) = delivery_view (snd w)"
  "delivery_view (keep_aligned prep b d c s) = delivery_view s" "delivery_view (cache_pcm st du p s) = delivery_view s"
  by (simp_all add: set_timing_def introduce_channel_def rebase_timeline_def advance_channel_timing_def
      advance_prepared_def keep_aligned_def cache_pcm_def Let_def split_beta)

lemma view_folds [simp]:
  "delivery_view (foldl (\<lambda>s (c, _). set_timing c t s) s prep) = delivery_view s"
  "delivery_view (foldl (\<lambda>s (c, _). introduce_channel cs g c s) s prep) = delivery_view s"
  "delivery_view (snd (foldl (\<lambda>w p. advance_prepared p w) w prep)) = delivery_view (snd w)"
  "delivery_view (foldl (\<lambda>s c. keep_aligned prep b d c s) s chs) = delivery_view s"
  "delivery_view (foldl (\<lambda>s p. cache_pcm st du p s) s prep) = delivery_view s"
  by (rule foldl_frame; simp add: split_beta)+

lemma view_resolve [simp]: "delivery_view (snd (resolve_channel_play_start e now ps prep s)) = delivery_view s"
  by (cases ps) (simp_all add: resolve_channel_play_start_def Let_def)

lemma view_schedule [simp]: "delivery_view (snd (schedule_prepared e now ps prep s)) = delivery_view s"
  by (simp add: schedule_prepared_def Let_def split_beta)

lemma view_join [simp]:
  "delivery_view (rebase_first_join e c i s) = delivery_view s" "delivery_view (rebase_far_ahead_tail e now c i r s) = delivery_view s"
  "delivery_view (prune_stale_channel_timing e s) = delivery_view s"
  by (simp_all add: rebase_first_join_def rebase_far_ahead_tail_def prune_stale_channel_timing_def Let_def
      foldl_frame [where f = delivery_view] split: option.split list.split)

lemma view_log: "delivery_view s' = delivery_view s \<Longrightarrow> stream_log s' = stream_log s \<and> encoded_log s' = encoded_log s"
  by (simp add: delivery_view_def)

subsection \<open>Commits that outlive their stream\<close>

definition commits_ok :: "nat \<Rightarrow> 'k flow \<Rightarrow> bool" where
  "commits_ok n w \<longleftrightarrow> n \<le> next_commit w \<and> (\<forall>i c. dget (in_flight w) i = Some c \<longrightarrow> i < next_commit w \<and>
     cm_generation c \<le> stream_generation (stream w) \<and> (i < n \<longrightarrow> cm_generation c < stream_generation (stream w)))"

lemma generation_lifecycle: "lifecycle s' = lifecycle s \<Longrightarrow> stream_generation s' = stream_generation s"
  by (simp add: lifecycle_def)

lemma finish_flow [simp]:
  "lifecycle (stream (finish_commit e now i x w)) = lifecycle (stream w)"
  "in_flight (finish_commit e now i x w) = ddel i (in_flight w)"
  "next_commit (finish_commit e now i x w) = next_commit w"
  by (simp_all add: finish_commit_def Let_def)

lemma complete_flow [simp]:
  "lifecycle (stream (complete_commit e now i st w)) = lifecycle (stream w)"
  "in_flight (complete_commit e now i st w) = ddel i (in_flight w)"
  "next_commit (complete_commit e now i st w) = next_commit w"
  by (simp_all add: complete_commit_def)

lemma commits_ok_cong:
  assumes "commits_ok n w" and "lifecycle (stream w') = lifecycle (stream w)" and "next_commit w' = next_commit w"
    and "\<And>i c. dget (in_flight w') i = Some c \<Longrightarrow> \<exists>c'. dget (in_flight w) i = Some c' \<and> cm_generation c = cm_generation c'"
  shows "commits_ok n w'"
  using assms(1,3,4) generation_lifecycle [OF assms(2)] unfolding commits_ok_def by metis

lemma commits_ok_finish: "commits_ok n w \<Longrightarrow> commits_ok n (finish_commit e now i x w)"
  by (rule commits_ok_cong) (auto split: if_splits)

lemma commits_ok_complete: "commits_ok n w \<Longrightarrow> commits_ok n (complete_commit e now i st w)"
  by (rule commits_ok_cong) (auto split: if_splits)

lemma commits_ok_stage:
  assumes "commits_ok n w" and "n \<le> i" "i < next_commit w" and "cm_generation c \<le> stream_generation (stream w)"
  shows "commits_ok n (set_stage i c w)"
  using assms by (auto simp: commits_ok_def set_stage_def)

lemma commits_ok_restage:
  assumes "commits_ok n w" and "dget (in_flight w) i = Some c'" and "cm_generation c = cm_generation c'"
  shows "commits_ok n (set_stage i c w)"
  by (rule commits_ok_cong [OF assms(1)]) (use assms(2,3) in \<open>auto simp: set_stage_def split: if_splits\<close>)

lemma commits_ok_stream:
  assumes "commits_ok n w" and "lifecycle s = lifecycle (stream w)" shows "commits_ok n (w\<lparr>stream := s\<rparr>)"
  by (rule commits_ok_cong [OF assms(1)]) (use assms(2) in auto)

lemma commits_ok_queue: "commits_ok n (w\<lparr>dsp_queue := q\<rparr>) = commits_ok n w"
  by (simp add: commits_ok_def)

text \<open>A plan of a commit keeps the generation the commit began in.\<close>

lemma plan_commit_cases:
  obtains s x where "lifecycle s = lifecycle (stream w)" "plan_commit e now i g ps w = finish_commit e now i x (w\<lparr>stream := s\<rparr>)"
  | s st where "lifecycle s = lifecycle (stream w)"
      "plan_commit e now i g ps w = set_stage i \<lparr>cm_generation = g, cm_stage = st\<rparr> (w\<lparr>stream := s, dsp_queue := dsp_queue w @ [i]\<rparr>)"
proof (cases "channel_buffers (stream w) = []")
  case True
  then show ?thesis by (intro that(1)) (auto simp: plan_commit_def Let_def)
next
  case False
  then show ?thesis by (intro that(2)) (auto simp: plan_commit_def Let_def split_beta)
qed

lemma commits_ok_plan_new:
  assumes "commits_ok n w" "n \<le> i" "i < next_commit w" "g \<le> stream_generation (stream w)"
  shows "commits_ok n (plan_commit e now i g ps w)"
proof (cases rule: plan_commit_cases [of w e now i g ps])
  case (1 s x)
  then show ?thesis using commits_ok_finish [OF commits_ok_stream [OF assms(1)]] by simp
next
  case (2 s st)
  have "commits_ok n (w\<lparr>stream := s, dsp_queue := dsp_queue w @ [i]\<rparr>)"
    using commits_ok_stream [OF assms(1) 2(1)] by (simp add: commits_ok_def)
  then show ?thesis unfolding 2(2)
    by (rule commits_ok_stage) (use assms generation_lifecycle [OF 2(1)] in simp_all)
qed

lemma commits_ok_plan_old:
  assumes "commits_ok n w" "dget (in_flight w) i = Some c"
  shows "commits_ok n (plan_commit e now i (cm_generation c) ps w)"
proof (cases rule: plan_commit_cases [of w e now i "cm_generation c" ps])
  case (1 s x)
  then show ?thesis using commits_ok_finish [OF commits_ok_stream [OF assms(1)]] by simp
next
  case (2 s st)
  have "commits_ok n (w\<lparr>stream := s, dsp_queue := dsp_queue w @ [i]\<rparr>)"
    using commits_ok_stream [OF assms(1) 2(1)] by (simp add: commits_ok_def)
  then show ?thesis unfolding 2(2) by (rule commits_ok_restage) (use assms(2) in simp_all)
qed

lemma commits_ok_boundary:
  assumes "commits_ok n w" and "stream_generation s' = Suc (stream_generation (stream w))"
  shows "commits_ok (next_commit w) (w\<lparr>stream := s'\<rparr>)"
  using assms by (force simp: commits_ok_def)

lemma commits_ok_weaken: "commits_ok m w \<Longrightarrow> n \<le> m \<Longrightarrow> commits_ok n w"
  by (auto simp: commits_ok_def)

lemma call_lifecycle_cases:
  "lifecycle (apply_stream_call e now c s) = lifecycle s \<or>
   stream_generation (apply_stream_call e now c s) = Suc (stream_generation s)"
proof (cases c)
  case (Stop keep)
  then show ?thesis using lifecycle_stop [of e keep s] by (cases "is_stopped s") (simp_all add: lifecycle_def)
next
  case (Clear ends)
  then show ?thesis using lifecycle_clear [of e ends s] by (simp add: lifecycle_def)
qed (use lifecycle_call [of c e now s] in simp_all)

lemma commits_ok_call: assumes ok: "commits_ok n w" shows "commits_ok n (on_stream (apply_stream_call e now c) w)"
  using call_lifecycle_cases [of e now c "stream w"]
proof
  assume "lifecycle (apply_stream_call e now c (stream w)) = lifecycle (stream w)"
  then show ?thesis using commits_ok_stream [OF ok] by (simp add: on_stream_def)
next
  assume "stream_generation (apply_stream_call e now c (stream w)) = Suc (stream_generation (stream w))"
  then have "commits_ok (next_commit w) (on_stream (apply_stream_call e now c) w)"
    using commits_ok_boundary [OF ok] by (simp add: on_stream_def)
  then show ?thesis by (rule commits_ok_weaken) (use ok in \<open>simp add: commits_ok_def\<close>)
qed

lemma commits_ok_begin:
  assumes ok: "commits_ok n w" and "begin_commit e now ps w = Some w'" shows "commits_ok n w'"
proof -
  let ?s = "stream w"
  let ?w = "w\<lparr>stream := ?s\<lparr>commit_in_flight := commit_in_flight ?s + 1\<rparr>, next_commit := next_commit w + 1\<rparr>"
  have w: "commits_ok n ?w" and n: "n \<le> next_commit w" using ok by (auto simp: commits_ok_def less_Suc_eq)
  from assms(2) have "w' = (if channel_timing ?s = [] then
      set_stage (next_commit w) \<lparr>cm_generation = stream_generation ?s, cm_stage = Importing ps\<rparr> ?w
    else plan_commit e now (next_commit w) (stream_generation ?s) ps ?w)"
    by (simp add: begin_commit_def Let_def split: if_splits)
  then show ?thesis
    using commits_ok_stage [OF w n] commits_ok_plan_new [OF w n, of "stream_generation ?s" e now ps] by simp
qed

lemma commits_ok_import:
  assumes "commits_ok n w" shows "commits_ok n (resume_import e now i w)"
  using assms commits_ok_finish commits_ok_plan_old
  by (auto simp: resume_import_def split: option.split commit_stage.split)

lemma commits_ok_enter:
  assumes "commits_ok n w" shows "commits_ok n (enter_encoder e now w)"
  using assms commits_ok_finish commits_ok_complete commits_ok_restage [OF assms]
  by (auto simp: enter_encoder_def split: option.split commit_stage.split list.split)

lemma commits_ok_deliver:
  assumes "commits_ok n w" shows "commits_ok n (deliver_commit e now frames w)"
  using assms commits_ok_finish commits_ok_complete [OF commits_ok_stream [OF assms]]
  by (auto simp: deliver_commit_def split: option.split commit_stage.split list.split)

lemma commits_ok_step: "flow_step w w' \<Longrightarrow> commits_ok n w \<Longrightarrow> commits_ok n w'"
  by (induction rule: flow_step.induct)
    (auto intro: commits_ok_call commits_ok_begin commits_ok_import commits_ok_enter commits_ok_deliver)

lemma commits_ok_run: "flow_run w w' \<Longrightarrow> commits_ok n w \<Longrightarrow> commits_ok n w'"
  by (induction rule: flow_run.induct) (auto intro: commits_ok_step)

lemma new_commits_ok: "commits_ok 0 new_flow"
  by (simp add: commits_ok_def new_flow_def)

lemma old_commit_inactive:
  assumes "commits_ok n w" "dget (in_flight w) i = Some c" "i < n"
  shows "\<not> is_generation_active (cm_generation c) (stream w)"
  using assms unfolding commits_ok_def is_generation_active_def by (metis less_irrefl)

lemma old_frames_unused:
  assumes "commits_ok n w" "dsp_queue w = i # q" "i < n"
  shows "deliver_commit e now frames w = deliver_commit e now frames' w"
  using assms old_commit_inactive [OF assms(1) _ assms(3)]
  by (simp add: deliver_commit_def split: option.split commit_stage.split)

text \<open>C15. Audio that was being encoded when the stream was stopped or cleared is never delivered nor cached:
  whenever a commit from before that moment finishes, the frames it brings make no difference.\<close>

theorem stale_frames_unused:
  assumes "flow_run new_flow w"
    and "c = Clear ends \<or> (c = Stop keep \<and> \<not> is_stopped (stream w))"
    and "flow_run (on_stream (apply_stream_call e now c) w) w'"
    and "dsp_queue w' = i # q" "i < next_commit w"
  shows "deliver_commit e' now' frames w' = deliver_commit e' now' frames' w'"
proof -
  have ok: "commits_ok 0 w" by (rule commits_ok_run [OF assms(1) new_commits_ok])
  have "stream_generation (apply_stream_call e now c (stream w)) = Suc (stream_generation (stream w))"
    using assms(2) lifecycle_stop [of e keep "stream w"] lifecycle_clear [of e ends "stream w"] by (auto simp: lifecycle_def)
  then have "commits_ok (next_commit w) (on_stream (apply_stream_call e now c) w)"
    using commits_ok_boundary [OF ok] by (simp add: on_stream_def)
  then have "commits_ok (next_commit w) w'" by (rule commits_ok_run [OF assms(3)])
  then show ?thesis using assms(4,5) by (rule old_frames_unused)
qed

text \<open>The commit encodes while the stream is cleared.\<close>

definition demo_encoding :: "nat flow" where
  "demo_encoding = enter_encoder demo_stage 2000000 (resume_import demo_stage 1500000 0
     (the (begin_commit demo_stage 1000000 None
       (on_stream (apply_stream_call demo_stage 1000000 (Prepare [1, 2, 3, 4] (audio_format_of 48000 16 2) 0)) new_flow))))"

definition demo_frames :: "(nat, cached_chunk list) dict" where
  "demo_frames = [(7, [\<lparr>cc_start = 3000000, cc_duration = 20, cc_payload = [9]\<rparr>])]"

lemma demo_encoding_run: "flow_run new_flow demo_encoding"
proof -
  let ?w = "on_stream (apply_stream_call demo_stage 1000000 (Prepare [1, 2, 3, 4] (audio_format_of 48000 16 2) 0)) (new_flow :: nat flow)"
  have "begin_commit demo_stage 1000000 None ?w = Some (the (begin_commit demo_stage 1000000 None ?w))" by code_simp
  from more [OF more [OF more [OF more [OF start called] begun [OF this]] imported] entered]
  show ?thesis unfolding demo_encoding_def .
qed

theorem stale_frames_unused_witness:
  "deliver_commit demo_stage 2500000 demo_frames (on_stream (apply_stream_call demo_stage 2100000 (Clear [])) demo_encoding)
    = deliver_commit demo_stage 2500000 [] (on_stream (apply_stream_call demo_stage 2100000 (Clear [])) demo_encoding) \<and>
   stream_log (stream (deliver_commit demo_stage 2500000 demo_frames demo_encoding))
    = [(1, StreamStarted), (1, Chunk \<lparr>cc_start = 3000000, cc_duration = 20, cc_payload = [9]\<rparr>)]"
proof -
  have "dsp_queue (on_stream (apply_stream_call demo_stage 2100000 (Clear [])) demo_encoding) = [0]"
    "next_commit demo_encoding = 1"
    "stream_log (stream (deliver_commit demo_stage 2500000 demo_frames demo_encoding))
      = [(1, StreamStarted), (1, Chunk \<lparr>cc_start = 3000000, cc_duration = 20, cc_payload = [9]\<rparr>)]"
    by code_simp+
  then show ?thesis
    using stale_frames_unused [OF demo_encoding_run _ start, of "Clear []" "[]" undefined demo_stage 2100000 0 "[]"
        demo_stage 2500000 demo_frames "[]"] by simp
qed

subsection \<open>After a stop\<close>

fun is_ending :: "role_event \<Rightarrow> bool" where
  "is_ending StreamEnded = True" | "is_ending StreamCleared = True" | "is_ending _ = False"

definition quiet :: "'k push_stream \<Rightarrow> 'k push_stream \<Rightarrow> bool" where
  "quiet s s' \<longleftrightarrow> is_stopped s' \<and> encoded_log s' = encoded_log s \<and>
     (\<exists>l. stream_log s' = stream_log s @ l \<and> list_all (is_ending \<circ> snd) l)"

lemma quiet_refl: "is_stopped s \<Longrightarrow> quiet s s"
  by (simp add: quiet_def)

lemma quiet_trans: "quiet s s' \<Longrightarrow> quiet s' s'' \<Longrightarrow> quiet s s''"
  unfolding quiet_def by (metis append_assoc list_all_append)

lemma quiet_view:
  "is_stopped s \<Longrightarrow> is_stopped s' \<Longrightarrow> stream_log s' = stream_log s \<Longrightarrow> encoded_log s' = encoded_log s \<Longrightarrow> quiet s s'"
  by (simp add: quiet_def)

lemma quiet_fold:
  assumes "is_stopped s" and "\<And>s x. is_stopped s \<Longrightarrow> quiet s (g s x)" shows "quiet s (foldl g s xs)"
  using assms(1)
proof (induction xs arbitrary: s)
  case (Cons x xs)
  then have q: "quiet s (g s x)" using assms(2) by blast
  then have "quiet (g s x) (foldl g (g s x) xs)" by (intro Cons.IH) (simp add: quiet_def)
  then show ?case using quiet_trans [OF q] by simp
qed (simp add: quiet_refl)

lemma quiet_tell: "is_stopped s \<Longrightarrow> is_ending ev \<Longrightarrow> quiet s (tell i ev s)"
  by (simp add: quiet_def tell_def)

lemma quiet_role_join: "is_stopped s \<Longrightarrow> quiet s (do_role_join e now i s)"
  by (rule quiet_view) (simp_all add: do_role_join_def)

lemma quiet_on_join: "is_stopped s \<Longrightarrow> quiet s (on_role_join e now i s)"
  by (auto simp: on_role_join_def quiet_role_join intro: quiet_view)

lemma quiet_release: "is_stopped s \<Longrightarrow> quiet s (release_deferred_joins e now s)"
proof -
  assume s: "is_stopped s"
  have "quiet s (foldl (\<lambda>s i. do_role_join e now i s) (s\<lparr>pending_join_roles := []\<rparr>) (pending_join_roles s))"
    by (rule quiet_trans [OF quiet_view quiet_fold]) (simp_all add: s quiet_role_join)
  then show ?thesis by (simp add: release_deferred_joins_def quiet_refl s)
qed

lemma quiet_forget: "is_stopped s \<Longrightarrow> quiet s (forget_key e i k s)"
  by (rule quiet_view) (simp_all add: forget_key_def)

lemma quiet_catchups: "is_stopped s \<Longrightarrow> quiet s (leave_catchups i s)"
  by (rule quiet_view) (simp_all add: leave_catchups_def)

lemma quiet_then: "quiet s s' \<Longrightarrow> (is_stopped s' \<Longrightarrow> quiet s' s'') \<Longrightarrow> quiet s s''"
  using quiet_trans unfolding quiet_def by blast

lemma quiet_leave: "is_stopped s \<Longrightarrow> quiet s (on_role_leave e i s)"
  unfolding on_role_leave_def Let_def
  by (rule quiet_then [OF _ quiet_catchups])
    (auto split: option.split intro!: quiet_view quiet_then [OF _ quiet_forget])

lemma quiet_format: "is_stopped s \<Longrightarrow> quiet s (on_role_format_changed e now ks t i s)"
  unfolding on_role_format_changed_def Let_def
  by (rule quiet_then [OF _ quiet_on_join], rule quiet_then [OF quiet_then [OF quiet_fold quiet_catchups] quiet_view])
    (simp_all add: quiet_forget)

lemma quiet_clear: "is_stopped s \<Longrightarrow> quiet s (clear_stream e ends s)"
  unfolding clear_stream_def Let_def
  by (rule quiet_then [OF quiet_view quiet_fold]) (auto simp: split_beta intro: quiet_tell)

lemma quiet_call: "is_stopped s \<Longrightarrow> quiet s (apply_stream_call e now c s)"
  by (cases c) (auto simp: prepare_audio_def set_live_source_def enable_pcm_cache_def disable_pcm_cache_def stop_push_stream_def
      quiet_on_join quiet_leave quiet_format quiet_clear quiet_refl intro: quiet_view)

lemma quiet_finish: "is_stopped (stream w) \<Longrightarrow> quiet (stream w) (stream (finish_commit e now i x w))"
  unfolding finish_commit_def Let_def
  by simp (rule quiet_then [OF quiet_view quiet_release]; simp)

lemma stopped_inactive: "is_stopped s \<Longrightarrow> \<not> is_generation_active g s"
  by (simp add: is_generation_active_def)

lemma quiet_step: "flow_step w w' \<Longrightarrow> is_stopped (stream w) \<Longrightarrow> quiet (stream w) (stream w')"
proof (induction rule: flow_step.induct)
  case (called w e now c)
  then show ?case by (simp add: on_stream_def quiet_call)
next
  case (begun e now ps w w')
  then show ?case by (simp add: begin_commit_def)
next
  case (imported w e now i)
  then show ?case
    by (auto simp: resume_import_def stopped_inactive quiet_finish quiet_refl split: option.split commit_stage.split)
next
  case (entered w e now)
  then show ?case
    by (auto simp: enter_encoder_def stopped_inactive quiet_finish quiet_refl split: list.split option.split commit_stage.split)
next
  case (delivered w e now frames)
  then show ?case
    by (auto simp: deliver_commit_def stopped_inactive quiet_finish quiet_refl split: list.split option.split commit_stage.split)
qed

text \<open>C17. Nothing is sent after \<open>stop\<close>: however commits in flight, joins, format changes and clears go on, the
  stream stays stopped, nothing is encoded into its caches, and the only hooks roles still get are the end
  and the clearing of their stream.\<close>

theorem stopped_stream_is_silent:
  assumes "is_stopped (stream w)" and "flow_run w w'"
  shows "is_stopped (stream w') \<and> encoded_log (stream w') = encoded_log (stream w) \<and>
    (\<exists>l. stream_log (stream w') = stream_log (stream w) @ l \<and> list_all (is_ending \<circ> snd) l)"
proof -
  have "quiet (stream w) (stream w')" using assms(2,1)
  proof (induction rule: flow_run.induct)
    case (start w)
    then show ?case by (rule quiet_refl)
  next
    case (more w w' w'')
    then have "quiet (stream w) (stream w')" by blast
    then show ?case by (rule quiet_then) (rule quiet_step [OF more.hyps(2)])
  qed
  then show ?thesis by (simp add: quiet_def)
qed

theorem stopped_stream_is_silent_witness:
  "encoded_log (stream (deliver_commit demo_stage 2500000 demo_frames
      (on_stream (apply_stream_call demo_stage 2100000 (Stop False)) demo_encoding))) = [] \<and>
   is_stopped (stream (deliver_commit demo_stage 2500000 demo_frames
      (on_stream (apply_stream_call demo_stage 2100000 (Stop False)) demo_encoding)))"
proof -
  let ?w = "on_stream (apply_stream_call demo_stage 2100000 (Stop False)) demo_encoding"
  have "is_stopped (stream ?w)" "encoded_log (stream ?w) = []" by code_simp+
  then show ?thesis
    using stopped_stream_is_silent [OF _ more [OF start delivered], of ?w demo_stage 2500000 demo_frames] by simp
qed

end
