(* ===== verification/Push_Cache.thy ===== *)
theory Push_Cache
  imports Push_Lifecycle
begin

text \<open>
  The PCM cache late joiners are caught up from: the invariant that ties it to the clock of its channel, kept by
  every operation of the stream and every step of its commits (\<open>server/push_stream.py\<close>).
\<close>

subsection \<open>Cached audio does not overlap\<close>

definition pc_end :: "cached_pcm \<Rightarrow> int" where "pc_end x = pc_start x + pc_duration x"

definition timed_chunks :: "int \<Rightarrow> cached_pcm list \<Rightarrow> bool" where
  "timed_chunks t cs \<longleftrightarrow> sorted_wrt (\<lambda>x y. pc_end x \<le> pc_start y) cs \<and> (\<forall>x\<in>set cs. pc_end x \<le> t)"

definition timed_cache :: "'k push_stream \<Rightarrow> bool" where
  "timed_cache s \<longleftrightarrow> (\<forall>(c, cs)\<in>set (pcm_chunk_cache s). c \<in> set (committed_channels s) \<and>
     (\<exists>t. dget (channel_timing s) c = Some t \<and> timed_chunks t cs))"

definition residues_ok :: "'k push_stream \<Rightarrow> bool" where
  "residues_ok s \<longleftrightarrow> (\<forall>c x. dget (channel_timing_residue s) c = Some x \<longrightarrow> 0 \<le> x)"

definition playable :: "audio_format \<Rightarrow> bool" where
  "playable f \<longleftrightarrow> 0 < af_rate f \<and> 0 \<le> af_depth f \<and> 0 \<le> af_channels f"

definition buffers_ok :: "prepared \<Rightarrow> bool" where
  "buffers_ok p \<longleftrightarrow> dict_ok p \<and> (\<forall>(c, pcm, f)\<in>set p. playable f)"

definition well_timed :: "'k push_stream \<Rightarrow> bool" where
  "well_timed s \<longleftrightarrow> timed_cache s \<and> residues_ok s \<and> buffers_ok (channel_buffers s)"

lemma timed_mono: "timed_chunks t cs \<Longrightarrow> t \<le> t' \<Longrightarrow> timed_chunks t' cs"
  by (force simp: timed_chunks_def)

lemma timed_drop: "timed_chunks t cs \<Longrightarrow> timed_chunks t (dropWhile P cs)"
  unfolding timed_chunks_def using sorted_wrt_drop [of _ cs "length (takeWhile P cs)"]
  by (auto simp: dropWhile_eq_drop dest: in_set_dropD)

lemma timed_snoc: "timed_chunks (pc_start x) cs \<Longrightarrow> 0 \<le> pc_duration x \<Longrightarrow> timed_chunks (pc_end x) (cs @ [x])"
  by (force simp: timed_chunks_def sorted_wrt_append pc_end_def)

text \<open>What a step may do to the timeline: move committed channels forward only.\<close>

definition forward :: "'k push_stream \<Rightarrow> 'k push_stream \<Rightarrow> bool" where
  "forward s s' \<longleftrightarrow> set (committed_channels s) \<subseteq> set (committed_channels s') \<and>
     (residues_ok s \<longrightarrow> residues_ok s') \<and>
     (\<forall>c t. c \<in> set (committed_channels s) \<longrightarrow> dget (channel_timing s) c = Some t \<longrightarrow>
        (\<exists>t'. dget (channel_timing s') c = Some t' \<and> t \<le> t'))"

lemma forward_refl [simp]: "forward s s"
  by (simp add: forward_def)

lemma forward_trans: "forward s s' \<Longrightarrow> forward s' s'' \<Longrightarrow> forward s s''"
  unfolding forward_def by (meson order_trans subset_iff)

lemma forward_fold: "(\<And>s x. forward s (g s x)) \<Longrightarrow> forward s (foldl g s xs)"
  by (induction xs arbitrary: s) (auto intro: forward_trans)

lemma forward_timed:
  assumes "timed_cache s" "forward s s'" "set (pcm_chunk_cache s') \<subseteq> set (pcm_chunk_cache s)"
  shows "timed_cache s'"
  unfolding timed_cache_def
proof (clarify)
  fix c cs assume "(c, cs) \<in> set (pcm_chunk_cache s')"
  then have "(c, cs) \<in> set (pcm_chunk_cache s)" using assms(3) by blast
  then obtain t where c: "c \<in> set (committed_channels s)" and t: "dget (channel_timing s) c = Some t" "timed_chunks t cs"
    using assms(1) unfolding timed_cache_def by blast
  obtain t' where "dget (channel_timing s') c = Some t'" "t \<le> t'" using assms(2) c t(1) unfolding forward_def by blast
  then show "c \<in> set (committed_channels s') \<and> (\<exists>t. dget (channel_timing s') c = Some t \<and> timed_chunks t cs)"
    using assms(2) c timed_mono [OF t(2)] unfolding forward_def by blast
qed

lemma residues_set: "residues_ok s \<Longrightarrow> 0 \<le> x \<Longrightarrow>
    channel_timing_residue s' = dset c x (channel_timing_residue s) \<Longrightarrow> residues_ok s'"
  by (auto simp: residues_ok_def)

lemma residues_same: "channel_timing_residue s' = channel_timing_residue s \<Longrightarrow> residues_ok s' = residues_ok s"
  by (simp add: residues_ok_def)

lemma forward_set_timing:
  assumes "\<And>t'. c \<in> set (committed_channels s) \<Longrightarrow> dget (channel_timing s) c = Some t' \<Longrightarrow> t' \<le> t"
  shows "forward s (set_timing c t s)"
  unfolding forward_def using assms by (auto simp: set_timing_def residues_ok_def)

lemma forward_introduce [simp]: "forward s (introduce_channel cs target c s)"
  by (auto simp: introduce_channel_def intro: forward_set_timing)

lemma forward_rebase [simp]: "forward s (rebase_timeline cs target s)"
proof -
  have "committed_channels (rebase_timeline cs target s) = committed_channels s"
    "channel_timing_residue (rebase_timeline cs target s) = channel_timing_residue s"
    by (simp_all add: rebase_timeline_def Let_def)
  moreover have "0 \<le> rebase_shift cs target s" by (simp add: rebase_shift_def Let_def)
  ultimately show ?thesis by (auto simp: forward_def rebase_timing residues_ok_def)
qed

lemma forward_resolve [simp]: "forward s (snd (resolve_channel_play_start e now None prep s))"
  by (auto simp: resolve_channel_play_start_def Let_def
      intro!: forward_trans [OF forward_fold forward_rebase])

lemma advance_delta_nonneg:
  assumes "residues_ok s" "0 < rate" "0 \<le> n" shows "0 \<le> fst (advance_channel_timing c n rate s)"
proof -
  have "0 \<le> carried c rate s" using assms(1) by (auto simp: carried_def residues_ok_def split: option.split)
  then show ?thesis using assms by (simp add: advance_delta pos_imp_zdiv_nonneg_iff)
qed

lemma residues_advance: "residues_ok s \<Longrightarrow> 0 < rate \<Longrightarrow> residues_ok (snd (advance_channel_timing c n rate s))"
  by (auto simp: advance_channel_timing_def Let_def residues_ok_def)

lemma committed_advance [simp]:
  "committed_channels (snd (advance_channel_timing c n rate s)) = committed_channels s"
  "pcm_chunk_cache (snd (advance_channel_timing c n rate s)) = pcm_chunk_cache s"
  by (simp_all add: advance_channel_timing_def Let_def)

lemma sample_count_nonneg: "playable f \<Longrightarrow> 0 \<le> sample_count pcm f"
  by (simp add: playable_def sample_count_def pos_imp_zdiv_nonneg_iff div_int_pos_iff)

lemma advance_prepared_parts:
  "fst (advance_prepared (c, pcm, f) (d, s)) = dset c (fst (advance_channel_timing c (sample_count pcm f) (af_rate f) s)) d"
  "channel_timing (snd (advance_prepared (c, pcm, f) (d, s))) = channel_timing (snd (advance_channel_timing c (sample_count pcm f) (af_rate f) s))"
  "channel_timing_residue (snd (advance_prepared (c, pcm, f) (d, s))) = channel_timing_residue (snd (advance_channel_timing c (sample_count pcm f) (af_rate f) s))"
  "committed_channels (snd (advance_prepared (c, pcm, f) (d, s))) = List.insert c (committed_channels s)"
  "pcm_chunk_cache (snd (advance_prepared (c, pcm, f) (d, s))) = pcm_chunk_cache s"
  by (simp_all add: advance_prepared_def split_beta)

lemma forward_advance:
  assumes "residues_ok s" "playable f" shows "forward s (snd (advance_prepared (c, pcm, f) (d, s)))"
proof -
  let ?s = "snd (advance_prepared (c, pcm, f) (d, s))"
  let ?a = "advance_channel_timing c (sample_count pcm f) (af_rate f) s"
  have rate: "0 < af_rate f" using assms(2) by (simp add: playable_def)
  have "0 \<le> fst ?a" by (rule advance_delta_nonneg [OF assms(1) rate sample_count_nonneg [OF assms(2)]])
  moreover have "residues_ok ?s" using residues_advance [OF assms(1) rate] by (simp add: residues_ok_def advance_prepared_parts)
  ultimately show ?thesis by (auto simp: forward_def advance_prepared_parts)
qed

text \<open>After the prepared channels were advanced, each stands at the end of its block.\<close>

lemma advance_all:
  assumes "residues_ok s" "buffers_ok prep" "\<And>c. c \<in> fst ` set prep \<Longrightarrow> dget (channel_timing s) c \<noteq> None"
    and "w = foldl (\<lambda>w p. advance_prepared p w) (d, s) prep"
  shows "forward s (snd w) \<and> pcm_chunk_cache (snd w) = pcm_chunk_cache s \<and>
    (\<forall>c. c \<notin> fst ` set prep \<longrightarrow> dget (fst w) c = dget d c \<and> dget (channel_timing (snd w)) c = dget (channel_timing s) c) \<and>
    (\<forall>c\<in>fst ` set prep. c \<in> set (committed_channels (snd w)) \<and> (\<exists>delta\<ge>0. dget (fst w) c = Some delta \<and>
       dget (channel_timing (snd w)) c = Some (the (dget (channel_timing s) c) + delta)))"
  using assms(1-3) unfolding assms(4)
proof (induction prep arbitrary: d s)
  case (Cons p prep)
  obtain c pcm f where p: "p = (c, pcm, f)" by (cases p) auto
  have f: "playable f" and prep: "buffers_ok prep" and c: "c \<notin> fst ` set prep"
    using Cons.prems(2) by (auto simp: buffers_ok_def dict_ok_def p)
  define d' s' where "d' = fst (advance_prepared (c, pcm, f) (d, s))" and "s' = snd (advance_prepared (c, pcm, f) (d, s))"
  have fw: "forward s s'" unfolding s'_def by (rule forward_advance [OF Cons.prems(1) f])
  have res: "residues_ok s'" using fw Cons.prems(1) by (simp add: forward_def)
  define delta where "delta = fst (advance_channel_timing c (sample_count pcm f) (af_rate f) s)"
  have delta: "0 \<le> delta" using f unfolding delta_def
    by (intro advance_delta_nonneg [OF Cons.prems(1) _ sample_count_nonneg]) (auto simp: playable_def)
  have s': "dget (channel_timing s') c' = (if c' = c then Some (the (dget (channel_timing s) c) + delta) else dget (channel_timing s) c')"
    "dget d' c' = (if c' = c then Some delta else dget d c')"
    "committed_channels s' = List.insert c (committed_channels s)" "pcm_chunk_cache s' = pcm_chunk_cache s" for c'
    by (simp_all add: s'_def d'_def advance_prepared_parts delta_def)
  have timed: "dget (channel_timing s') c' \<noteq> None" if "c' \<in> fst ` set prep" for c'
    using Cons.prems(3) [of c'] that s'(1) by auto
  let ?w = "foldl (\<lambda>w p. advance_prepared p w) (d', s') prep"
  have ih: "forward s' (snd ?w)" "pcm_chunk_cache (snd ?w) = pcm_chunk_cache s'"
    "c' \<notin> fst ` set prep \<Longrightarrow> dget (fst ?w) c' = dget d' c' \<and> dget (channel_timing (snd ?w)) c' = dget (channel_timing s') c'"
    "c' \<in> fst ` set prep \<Longrightarrow> c' \<in> set (committed_channels (snd ?w)) \<and> (\<exists>delta\<ge>0. dget (fst ?w) c' = Some delta \<and>
       dget (channel_timing (snd ?w)) c' = Some (the (dget (channel_timing s') c') + delta))" for c'
    using Cons.IH [OF res prep timed, of d'] by blast+
  have w: "foldl (\<lambda>w p. advance_prepared p w) (d, s) (p # prep) = ?w" by (simp add: p d'_def s'_def)
  have own: "c \<in> set (committed_channels (snd ?w)) \<and> (\<exists>delta\<ge>0. dget (fst ?w) c = Some delta \<and>
       dget (channel_timing (snd ?w)) c = Some (the (dget (channel_timing s) c) + delta))"
    using ih(1) ih(3) [OF c] s' delta by (auto simp: forward_def)
  have rest: "dget (channel_timing s') c' = dget (channel_timing s) c'" "dget d' c' = dget d c'" if "c' \<noteq> c" for c'
    using that s' by simp_all
  show ?case unfolding w
  proof (intro conjI allI ballI impI)
    show "forward s (snd ?w)" by (rule forward_trans [OF fw ih(1)])
    show "pcm_chunk_cache (snd ?w) = pcm_chunk_cache s" using ih(2) s'(4) by simp
  next
    fix c' assume "c' \<notin> fst ` set (p # prep)"
    then show "dget (fst ?w) c' = dget d c'" "dget (channel_timing (snd ?w)) c' = dget (channel_timing s) c'"
      using ih(3) [of c'] rest by (auto simp: p)
  next
    fix c' assume c': "c' \<in> fst ` set (p # prep)"
    show "c' \<in> set (committed_channels (snd ?w))" using ih(4) [of c'] own c' by (cases "c' = c") (auto simp: p)
    show "\<exists>delta\<ge>0. dget (fst ?w) c' = Some delta \<and> dget (channel_timing (snd ?w)) c' = Some (the (dget (channel_timing s) c') + delta)"
      using ih(4) [of c'] own c' rest(1) [of c'] by (cases "c' = c") (auto simp: p)
  qed
qed simp

lemma keep_aligned_parts [simp]:
  "pcm_chunk_cache (keep_aligned prep b r c s) = pcm_chunk_cache s"
  "committed_channels (keep_aligned prep b r c s) = committed_channels s"
  by (simp_all add: keep_aligned_def Let_def set_timing_def)

lemma keep_aligned_other: "dget prep c' \<noteq> None \<Longrightarrow>
    dget (channel_timing (keep_aligned prep b r c s)) c' = dget (channel_timing s) c'"
  by (auto simp: keep_aligned_def Let_def)

lemma forward_aligned:
  assumes "0 \<le> r" shows "forward s (keep_aligned prep b r c s)"
proof -
  have "residues_ok (keep_aligned prep b r c s)" if "residues_ok s"
    using that by (auto simp: keep_aligned_def Let_def set_timing_def residues_ok_def)
  then show ?thesis using assms by (auto simp: forward_def) (auto simp: keep_aligned_def Let_def)
qed

lemma aligned_all:
  assumes "w = foldl (\<lambda>s c. keep_aligned prep b r c s) s chs"
  shows "pcm_chunk_cache w = pcm_chunk_cache s" "dget prep c \<noteq> None \<Longrightarrow> dget (channel_timing w) c = dget (channel_timing s) c"
  unfolding assms by (induction chs arbitrary: s) (simp_all add: keep_aligned_other)

text \<open>The blocks are cached behind everything that is cached already.\<close>

lemma cache_pcm_parts [simp]:
  "channel_timing (cache_pcm st du p s) = channel_timing s" "committed_channels (cache_pcm st du p s) = committed_channels s"
  "channel_timing_residue (cache_pcm st du p s) = channel_timing_residue s"
  by (simp_all add: cache_pcm_def Let_def split_beta)

lemma cache_pcm_chunks:
  assumes "(c', cs) \<in> set (pcm_chunk_cache (cache_pcm st du (c, pcm, f) s))"
  shows "(c', cs) \<in> set (pcm_chunk_cache s) \<or> c' = c \<and> (\<exists>old. ((c, old) \<in> set (pcm_chunk_cache s) \<or> old = []) \<and>
    cs = old @ [\<lparr>pc_start = the (dget st c), pc_duration = the (dget du c), pc_data = pcm, pc_format = f\<rparr>])"
proof (cases "c \<in> set (pcm_cache_enabled s)")
  case True
  let ?old = "case dget (pcm_chunk_cache s) c of None \<Rightarrow> [] | Some cs \<Rightarrow> cs"
  have "(c, ?old) \<in> set (pcm_chunk_cache s) \<or> ?old = []" by (auto split: option.split dest: map_of_SomeD)
  moreover have "(c', cs) \<in> insert (c, ?old @ [\<lparr>pc_start = the (dget st c), pc_duration = the (dget du c), pc_data = pcm, pc_format = f\<rparr>])
      (set (pcm_chunk_cache s))"
    using assms True by (auto simp: cache_pcm_def Let_def dest: subsetD [OF set_dset_subset])
  ultimately show ?thesis by blast
qed (use assms in \<open>simp add: cache_pcm_def\<close>)

lemma cached_timed:
  assumes "timed_cache s" "dict_ok prep"
    and "\<And>c. c \<in> fst ` set prep \<Longrightarrow> c \<in> set (committed_channels s) \<and> (\<exists>delta\<ge>0. dget du c = Some delta \<and>
       dget (channel_timing s) c = Some (the (dget st c) + delta))"
    and "\<And>c cs. c \<in> fst ` set prep \<Longrightarrow> (c, cs) \<in> set (pcm_chunk_cache s) \<Longrightarrow> timed_chunks (the (dget st c)) cs"
  shows "timed_cache (foldl (\<lambda>s p. cache_pcm st du p s) s prep)"
  using assms
proof (induction prep arbitrary: s)
  case (Cons p prep)
  obtain c pcm f where p: "p = (c, pcm, f)" by (cases p) auto
  let ?s = "cache_pcm st du (c, pcm, f) s"
  let ?new = "\<lparr>pc_start = the (dget st c), pc_duration = the (dget du c), pc_data = pcm, pc_format = f\<rparr>"
  have c: "c \<notin> fst ` set prep" "dict_ok prep" using Cons.prems(2) by (auto simp: dict_ok_def p)
  have own: "c \<in> set (committed_channels s)" "0 \<le> the (dget du c)"
    "dget (channel_timing s) c = Some (the (dget st c) + the (dget du c))"
    using Cons.prems(3) [of c] by (auto simp: p)
  have new: "timed_chunks (the (dget st c) + the (dget du c)) (old @ [?new])"
    if "(c, old) \<in> set (pcm_chunk_cache s) \<or> old = []" for old
  proof -
    have "timed_chunks (pc_start ?new) old" using that Cons.prems(4) [of c old] by (auto simp: p timed_chunks_def)
    then show ?thesis using timed_snoc [of ?new old] own(2) by (simp add: pc_end_def)
  qed
  have "timed_cache ?s" unfolding timed_cache_def
  proof (clarify)
    fix c' cs assume "(c', cs) \<in> set (pcm_chunk_cache ?s)"
    then show "c' \<in> set (committed_channels ?s) \<and> (\<exists>t. dget (channel_timing ?s) c' = Some t \<and> timed_chunks t cs)"
      using cache_pcm_chunks [of c' cs st du c pcm f s] Cons.prems(1) own new unfolding timed_cache_def by auto
  qed
  moreover have "timed_chunks (the (dget st c')) cs" if c': "c' \<in> fst ` set prep" "(c', cs) \<in> set (pcm_chunk_cache ?s)" for c' cs
    using cache_pcm_chunks [OF c'(2)] c c' Cons.prems(4) [of c' cs] by (auto simp: p)
  ultimately show ?case using Cons.IH [of ?s] Cons.prems(3) c(2) by (simp add: p)
qed simp

lemma resolve_cache [simp]: "pcm_chunk_cache (snd (resolve_channel_play_start e now None prep s)) = pcm_chunk_cache s"
proof -
  have "pcm_chunk_cache (foldl (\<lambda>s (c, _). introduce_channel cs target c s) s prep) = pcm_chunk_cache s" for cs target
    by (rule foldl_frame) (simp add: split_beta introduce_channel_def set_timing_def)
  then show ?thesis by (simp add: resolve_channel_play_start_def Let_def rebase_timeline_def)
qed

lemma resolve_starts:
  assumes "c \<in> fst ` set prep"
  shows "\<exists>t. dget (fst (resolve_channel_play_start e now None prep s)) c = Some t \<and>
    dget (channel_timing (snd (resolve_channel_play_start e now None prep s))) c = Some t"
proof -
  have eq: "dget (map (\<lambda>(c, _). (c, g c)) prep) c = Some (g c)" for g :: "nat \<Rightarrow> int"
    using assms by (induction prep) auto
  define cs target where "cs = remdups (active_audio_channels e s @ map fst prep)" and "target = now + min_send_ahead_us e s"
  obtain t where "dget (channel_timing (foldl (\<lambda>s (c, _). introduce_channel cs target c s) s prep)) c = Some t"
    using introduce_all_timed [OF assms, of cs target s] by blast
  then have "\<exists>t. dget (channel_timing (foldl (\<lambda>s' (c, _). introduce_channel (remdups (active_audio_channels e s @ map fst prep))
      (now + min_send_ahead_us e s) c s') s prep)) c = Some t"
    unfolding cs_def target_def by blast
  then show ?thesis by (simp add: resolve_channel_play_start_def Let_def eq rebase_timing)
qed

lemma schedule_buffers: "channel_buffers (snd (schedule_prepared e now ps prep s)) = channel_buffers s"
proof -
  have r: "channel_buffers (snd (resolve_channel_play_start e now ps prep s)) = channel_buffers s"
    by (cases ps) (simp_all add: resolve_channel_play_start_def Let_def rebase_timeline_def split_beta
        foldl_frame [where f = channel_buffers] introduce_channel_def set_timing_def)
  have "channel_buffers (snd (foldl (\<lambda>w p. advance_prepared p w) w prep)) = channel_buffers (snd w)" for w :: "(nat, int) dict \<times> 'a push_stream"
    by (rule foldl_frame) (simp add: advance_prepared_def advance_channel_timing_def Let_def split_beta)
  then show ?thesis
    by (simp add: schedule_prepared_def Let_def split_beta r foldl_frame [where f = channel_buffers] keep_aligned_def set_timing_def cache_pcm_def)
qed

lemma schedule_timed:
  assumes "timed_cache s" "residues_ok s" "buffers_ok prep"
    and s'_def: "s' = snd (schedule_prepared e now None prep s)"
  shows "timed_cache s'" "residues_ok s'"
proof -
  obtain st s1 where r: "resolve_channel_play_start e now None prep s = (st, s1)" by force
  obtain du s2 where a: "foldl (\<lambda>w p. advance_prepared p w) ([], s1) prep = (du, s2)" by force
  define reference where "reference = Max (set (map snd du))"
  define s3 where "s3 = (if 0 < reference
    then foldl (\<lambda>s c. keep_aligned prep (Min (set (map snd st))) reference c s) s2 (active_audio_channels e s2) else s2)"
  have s': "s' = foldl (\<lambda>s p. cache_pcm st du p s) s3 prep"
    unfolding s'_def schedule_prepared_def r a by (simp add: a Let_def s3_def reference_def)
  have f1: "forward s s1" "pcm_chunk_cache s1 = pcm_chunk_cache s"
    using forward_resolve [of s e now prep] resolve_cache [of e now prep s] by (simp_all add: r)
  have res1: "residues_ok s1" using f1(1) assms(2) by (simp add: forward_def)
  have t1: "dget (channel_timing s1) c = dget st c \<and> dget st c \<noteq> None" if "c \<in> fst ` set prep" for c
    using resolve_starts [OF that, of e now s] by (auto simp: r)
  have adv: "forward s1 s2" "pcm_chunk_cache s2 = pcm_chunk_cache s1"
    "\<And>c. c \<in> fst ` set prep \<Longrightarrow> c \<in> set (committed_channels s2) \<and> (\<exists>delta\<ge>0. dget du c = Some delta \<and>
       dget (channel_timing s2) c = Some (the (dget (channel_timing s1) c) + delta))"
    using advance_all [OF res1 assms(3) _ a [symmetric]] t1 by auto
  have f3: "forward s2 s3" unfolding s3_def by (auto intro!: forward_fold forward_aligned)
  have c3: "pcm_chunk_cache s3 = pcm_chunk_cache s2" unfolding s3_def by (simp add: aligned_all(1) [OF refl])
  have t3: "dget (channel_timing s3) c = dget (channel_timing s2) c" if "c \<in> fst ` set prep" for c
  proof -
    have "dget prep c \<noteq> None" using that by (auto simp: map_of_eq_None_iff)
    then show ?thesis unfolding s3_def by (simp add: aligned_all(2) [OF refl])
  qed
  have fw: "forward s s3" by (rule forward_trans [OF forward_trans [OF f1(1) adv(1)] f3])
  have tc: "timed_cache s3" using forward_timed [OF assms(1) fw] f1(2) adv(2) c3 by simp
  have tc1: "timed_cache s1" using forward_timed [OF assms(1) f1(1)] f1(2) by simp
  show "timed_cache s'" unfolding s'
  proof (rule cached_timed [OF tc])
    show "dict_ok prep" using assms(3) by (simp add: buffers_ok_def)
    fix c assume c: "c \<in> fst ` set prep"
    show "c \<in> set (committed_channels s3) \<and> (\<exists>delta\<ge>0. dget du c = Some delta \<and>
       dget (channel_timing s3) c = Some (the (dget st c) + delta))"
      using adv(3) [OF c] t1 [OF c] t3 [OF c] f3 by (auto simp: forward_def)
    fix cs assume "(c, cs) \<in> set (pcm_chunk_cache s3)"
    then have "(c, cs) \<in> set (pcm_chunk_cache s1)" by (simp add: c3 adv(2))
    then obtain t where "dget (channel_timing s1) c = Some t" "timed_chunks t cs" using tc1 unfolding timed_cache_def by blast
    then show "timed_chunks (the (dget st c)) cs" using t1 [OF c] by auto
  qed
  have "residues_ok s3" using fw assms(2) by (simp add: forward_def)
  then show "residues_ok s'" unfolding s' residues_ok_def
    by (simp add: foldl_frame [where f = channel_timing_residue])
qed

text \<open>Delivering, joining and leaving do not touch the timeline but for the rebase of a first joiner.\<close>

definition timeline_view where
  "timeline_view s = (pcm_chunk_cache s, channel_timing s, channel_timing_residue s, committed_channels s, channel_buffers s)"

lemma well_timed_view: "timeline_view s' = timeline_view s \<Longrightarrow> well_timed s' = well_timed s"
  by (simp add: timeline_view_def well_timed_def timed_cache_def residues_ok_def)

lemma timeline_fields [simp]:
  "timeline_view (s\<lparr>started_roles := st\<rparr>) = timeline_view s" "timeline_view (s\<lparr>role_chunk_cache := rc\<rparr>) = timeline_view s"
  "timeline_view (s\<lparr>catching_up := cu\<rparr>) = timeline_view s" "timeline_view (s\<lparr>pending_join_roles := pj\<rparr>) = timeline_view s"
  "timeline_view (s\<lparr>resume_at := ra\<rparr>) = timeline_view s" "timeline_view (s\<lparr>commit_in_flight := n\<rparr>) = timeline_view s"
  "timeline_view (s\<lparr>stream_log := l\<rparr>) = timeline_view s" "timeline_view (s\<lparr>encoded_log := el\<rparr>) = timeline_view s"
  "timeline_view (s\<lparr>is_live := lv\<rparr>) = timeline_view s" "timeline_view (s\<lparr>is_stopped := b\<rparr>) = timeline_view s"
  "timeline_view (s\<lparr>pcm_cache_enabled := pe\<rparr>) = timeline_view s"
  by (simp_all add: timeline_view_def)

lemma timeline_delivery [simp]:
  "timeline_view (tell i ev s) = timeline_view s" "timeline_view (ensure_started i s) = timeline_view s"
  "timeline_view (tell_chunks i cs s) = timeline_view s" "timeline_view (send_cached_chunks i now cs s) = timeline_view s"
  by (simp_all add: tell_def ensure_started_def tell_chunks_def send_cached_chunks_def split: list.split)

lemma timeline_live [simp]: "timeline_view (deliver_live cs i s) = timeline_view s"
  by (simp add: deliver_live_def Let_def split: option.split list.split)

lemma timeline_key [simp]: "timeline_view (deliver_key act jk rs kf s) = timeline_view s"
  by (simp add: deliver_key_def Let_def foldl_frame [where f = timeline_view])

lemma timeline_deliver [simp]:
  "timeline_view (cache_and_deliver e rs frames s) = timeline_view s" "timeline_view (start_if_timed i s) = timeline_view s"
  "timeline_view (leave_catchups i s) = timeline_view s" "timeline_view (forget_key e i k s) = timeline_view s"
  by (simp_all add: cache_and_deliver_def start_if_timed_def leave_catchups_def forget_key_def foldl_frame [where f = timeline_view])

lemma timeline_joined [simp]: "timeline_view (join_cached e now i r q resume s) = timeline_view s"
  by (simp add: join_cached_def Let_def split: list.split)

lemma timeline_leave [simp]: "timeline_view (on_role_leave e i s) = timeline_view s"
  by (simp add: on_role_leave_def Let_def split: option.split)

lemma well_timed_fields [simp]:
  "well_timed (s\<lparr>started_roles := st\<rparr>) = well_timed s" "well_timed (s\<lparr>catching_up := cu\<rparr>) = well_timed s"
  "well_timed (s\<lparr>pending_join_roles := pj\<rparr>) = well_timed s" "well_timed (s\<lparr>resume_at := ra\<rparr>) = well_timed s"
  "well_timed (s\<lparr>commit_in_flight := n\<rparr>) = well_timed s" "well_timed (s\<lparr>pcm_cache_enabled := pe\<rparr>) = well_timed s"
  "well_timed (s\<lparr>is_live := lv\<rparr>) = well_timed s"
  "well_timed (ensure_started i s) = well_timed s" "well_timed (start_if_timed i s) = well_timed s"
  "well_timed (join_cached e now i r q resume s) = well_timed s" "well_timed (on_role_leave e i s) = well_timed s"
  "well_timed (leave_catchups i s) = well_timed s" "well_timed (cache_and_deliver e rs frames s) = well_timed s"
  by (rule well_timed_view; simp)+

lemma well_timed_set:
  assumes "well_timed s" and "c \<notin> set (committed_channels s) \<or> (\<exists>t'. dget (channel_timing s) c = Some t' \<and> t' \<le> t)"
  shows "well_timed (set_timing c t s)"
proof -
  have fw: "forward s (set_timing c t s)" by (rule forward_set_timing) (use assms(2) in auto)
  then have "timed_cache (set_timing c t s)"
    by (rule forward_timed [rotated]) (use assms(1) in \<open>simp_all add: well_timed_def set_timing_def\<close>)
  then show ?thesis using fw assms(1) by (simp add: well_timed_def forward_def) (simp add: set_timing_def)
qed

lemma well_timed_rebase:
  assumes "well_timed s"
  shows "well_timed (rebase_first_join e c i s)" "well_timed (rebase_far_ahead_tail e now c i r s)"
  using assms by (auto simp: rebase_first_join_def rebase_far_ahead_tail_def can_clamp_tail_def
      split: option.split list.split intro!: well_timed_set)

lemma well_timed_uncached: "well_timed s \<Longrightarrow> well_timed (join_uncached e now i r q resume s)"
  by (auto simp: join_uncached_def Let_def well_timed_rebase split: option.split)

lemma well_timed_role_join: "well_timed s \<Longrightarrow> well_timed (do_role_join e now i s)"
  by (auto simp: do_role_join_def Let_def intro!: well_timed_uncached well_timed_rebase split: option.split)

lemma well_timed_on_join: "well_timed s \<Longrightarrow> well_timed (on_role_join e now i s)"
  by (simp add: on_role_join_def well_timed_role_join)

lemma foldl_invariant: "P s \<Longrightarrow> (\<And>s x. P s \<Longrightarrow> P (g s x)) \<Longrightarrow> P (foldl g s xs)"
  by (induction xs arbitrary: s) auto

lemma well_timed_release: "well_timed s \<Longrightarrow> well_timed (release_deferred_joins e now s)"
  by (auto simp: release_deferred_joins_def intro: foldl_invariant well_timed_role_join)

lemma well_timed_format: "well_timed s \<Longrightarrow> well_timed (on_role_format_changed e now ks t i s)"
proof -
  assume "well_timed s"
  have "timeline_view (foldl (\<lambda>s k. forget_key e i k s) s ks) = timeline_view s" by (rule foldl_frame) simp
  then have "well_timed (foldl (\<lambda>s k. forget_key e i k s) s ks)" using \<open>well_timed s\<close> well_timed_view by blast
  then show ?thesis by (simp add: on_role_format_changed_def Let_def well_timed_on_join)
qed

lemma residues_cleared: "channel_timing_residue s = [] \<Longrightarrow> residues_ok s"
  by (simp add: residues_ok_def)

lemma tell_all_timeline [simp]: "timeline_view (foldl (\<lambda>s (i, r). tell i (f i r) s) s rs) = timeline_view s"
  by (rule foldl_frame) (simp add: split_beta)

lemma tell_all_timed [simp]: "well_timed (foldl (\<lambda>s (i, r). tell i (f i r) s) s rs) = well_timed s"
  by (rule well_timed_view) simp

lemma well_timed_dropped: "well_timed s \<Longrightarrow> well_timed (s\<lparr>started_roles := [], resume_at := [], catching_up := [],
    pcm_chunk_cache := [], committed_channels := [], committed_format := []\<rparr>)"
  by (simp add: well_timed_def timed_cache_def residues_ok_def)

lemma well_timed_stopped: "well_timed s \<Longrightarrow>
    well_timed (s\<lparr>is_stopped := True, stream_generation := n, pending_join_roles := []\<rparr>)"
  by (simp add: well_timed_def timed_cache_def residues_ok_def)

lemma well_timed_stop: "well_timed s \<Longrightarrow> well_timed (stop_push_stream e keep s)"
  unfolding stop_push_stream_def Let_def
  by (auto intro!: well_timed_dropped simp: well_timed_stopped simp del: well_timed_fields)

lemma well_timed_clear: "well_timed (clear_stream e ends s)"
  by (simp add: clear_stream_def Let_def) (simp add: well_timed_def timed_cache_def residues_ok_def buffers_ok_def dict_ok_def)

fun plays :: "'k stream_call \<Rightarrow> bool" where
  "plays (Prepare pcm f c) = playable f" | "plays _ = True"

lemma well_timed_prepare:
  assumes "well_timed s" "playable f" shows "well_timed (prepare_audio pcm f c s)"
proof -
  have "buffers_ok (dset c (pcm, f) (channel_buffers s))"
    using assms subsetD [OF set_dset_subset [of c "(pcm, f)" "channel_buffers s"]]
    unfolding well_timed_def buffers_ok_def by fastforce
  then show ?thesis using assms(1) by (simp add: prepare_audio_def well_timed_def timed_cache_def residues_ok_def)
qed

lemma well_timed_disable: "well_timed s \<Longrightarrow> well_timed (disable_pcm_cache c s)"
  unfolding well_timed_def timed_cache_def disable_pcm_cache_def residues_ok_def
  by (auto simp: set_ddel)

lemma well_timed_call: "well_timed s \<Longrightarrow> plays c \<Longrightarrow> well_timed (apply_stream_call e now c s)"
  by (cases c) (simp_all add: well_timed_prepare set_live_source_def enable_pcm_cache_def well_timed_disable well_timed_on_join
      well_timed_format well_timed_stop well_timed_clear)

lemma dropped_chunks:
  assumes "(k, cs) \<in> set (drop_played now f d)" obtains cs' where "(k, cs') \<in> set d" "cs = dropWhile (\<lambda>c. f c \<le> now) cs'"
  using assms by (auto simp: drop_played_def)

lemma well_timed_prune_cache: "well_timed s \<Longrightarrow> well_timed (prune_role_chunk_cache now s)"
  unfolding well_timed_def timed_cache_def prune_role_chunk_cache_def residues_ok_def
  by (fastforce elim!: dropped_chunks intro: timed_drop)

lemma well_timed_forget:
  "well_timed s \<Longrightarrow> c \<notin> set (committed_channels s) \<Longrightarrow> well_timed (s\<lparr>channel_timing := ddel c (channel_timing s),
     channel_timing_residue := ddel c (channel_timing_residue s), channel_timing_rate := ddel c (channel_timing_rate s)\<rparr>)"
  by (fastforce simp: well_timed_def timed_cache_def residues_ok_def)

lemma well_timed_prune_timing: assumes "well_timed s" shows "well_timed (prune_stale_channel_timing e s)"
proof -
  have fold: "well_timed (foldl (\<lambda>s c. s\<lparr>channel_timing := ddel c (channel_timing s),
      channel_timing_residue := ddel c (channel_timing_residue s), channel_timing_rate := ddel c (channel_timing_rate s)\<rparr>) s' gone)"
    if "\<forall>c\<in>set gone. c \<notin> set (committed_channels s')" "well_timed s'" for gone and s' :: "'a push_stream"
    using that by (induction gone arbitrary: s') (simp_all add: well_timed_forget)
  show ?thesis unfolding prune_stale_channel_timing_def Let_def by (rule fold) (use assms in auto)
qed

lemma well_timed_schedule:
  assumes "well_timed s"
  shows "well_timed (snd (schedule_prepared e now None (channel_buffers s) (s\<lparr>channel_buffers := []\<rparr>)))"
proof -
  let ?s = "s\<lparr>channel_buffers := []\<rparr>" and ?p = "channel_buffers s"
  have "timed_cache ?s" "residues_ok ?s" "buffers_ok ?p"
    using assms by (simp_all add: well_timed_def timed_cache_def residues_ok_def)
  from schedule_timed [OF this refl, of e now] show ?thesis
    by (simp add: well_timed_def schedule_buffers buffers_ok_def dict_ok_def)
qed

subsection \<open>Runs in which the stream chooses the time\<close>

inductive paced_run :: "'k flow \<Rightarrow> 'k flow \<Rightarrow> bool" where
  p_start: "paced_run w w"
| p_call: "paced_run w w' \<Longrightarrow> plays c \<Longrightarrow> paced_run w (on_stream (apply_stream_call e now c) w')"
| p_begin: "paced_run w w' \<Longrightarrow> begin_commit e now None w' = Some w'' \<Longrightarrow> paced_run w w''"
| p_import: "paced_run w w' \<Longrightarrow> paced_run w (resume_import e now i w')"
| p_enter: "paced_run w w' \<Longrightarrow> paced_run w (enter_encoder e now w')"
| p_deliver: "paced_run w w' \<Longrightarrow> paced_run w (deliver_commit e now frames w')"

definition untimed :: "'k audio_commit \<Rightarrow> bool" where
  "untimed c \<longleftrightarrow> (case cm_stage c of Importing ps \<Rightarrow> ps = None | _ \<Rightarrow> True)"

definition paced :: "'k flow \<Rightarrow> bool" where
  "paced w \<longleftrightarrow> well_timed (stream w) \<and> (\<forall>i c. dget (in_flight w) i = Some c \<longrightarrow> untimed c)"

lemma paced_stream: "paced w \<Longrightarrow> well_timed s \<Longrightarrow> paced (w\<lparr>stream := s\<rparr>)"
  by (simp add: paced_def)

lemma paced_fields [simp]: "paced (w\<lparr>dsp_queue := q\<rparr>) = paced w" "paced (w\<lparr>next_commit := n\<rparr>) = paced w"
  by (simp_all add: paced_def)

lemma paced_stage: "paced w \<Longrightarrow> untimed c \<Longrightarrow> paced (set_stage i c w)"
  by (simp add: paced_def set_stage_def)

lemma paced_finish: "paced w \<Longrightarrow> paced (finish_commit e now i x w)"
  by (simp add: paced_def finish_commit_def Let_def well_timed_release)

lemma paced_complete: "paced w \<Longrightarrow> paced (complete_commit e now i st w)"
  by (auto simp: complete_commit_def intro!: paced_finish paced_stream well_timed_prune_timing well_timed_prune_cache)
    (simp add: paced_def)

lemma paced_plan: assumes w: "paced w" shows "paced (plan_commit e now i g None w)"
proof (cases "channel_buffers (stream w) = []")
  case True
  have s: "well_timed (stream w)" using w by (simp add: paced_def)
  have "well_timed (set_timing MAIN_CHANNEL t (stream w))" if "channel_timing (stream w) = []" for t
    using s that by (auto simp: well_timed_def timed_cache_def residues_ok_def set_timing_def)
  then show ?thesis using True w s by (auto simp: plan_commit_def Let_def intro!: paced_finish paced_stream)
next
  case False
  have "well_timed (snd (schedule_prepared e now None (channel_buffers (stream w)) ((stream w)\<lparr>channel_buffers := []\<rparr>)))"
    by (rule well_timed_schedule) (use w in \<open>simp add: paced_def\<close>)
  then have "paced (w\<lparr>stream := snd (schedule_prepared e now None (channel_buffers (stream w)) ((stream w)\<lparr>channel_buffers := []\<rparr>))\<rparr>)"
    by (rule paced_stream [OF w])
  then show ?thesis using False
    by (auto simp: plan_commit_def Let_def split_beta untimed_def intro!: paced_stage)
qed

lemma paced_begin: assumes w: "paced w" and b: "begin_commit e now None w = Some w'" shows "paced w'"
proof -
  have "paced (w\<lparr>stream := (stream w)\<lparr>commit_in_flight := n\<rparr>\<rparr>)" for n using w by (simp add: paced_def)
  then have "paced (w\<lparr>stream := (stream w)\<lparr>commit_in_flight := n\<rparr>, next_commit := m\<rparr>)" for n m by simp
  then show ?thesis using b
    by (auto simp: begin_commit_def Let_def untimed_def split: if_splits intro!: paced_stage paced_plan)
qed

lemma paced_import: assumes w: "paced w" shows "paced (resume_import e now i w)"
proof -
  have "paced (plan_commit e now i (cm_generation c) ps w)" if "dget (in_flight w) i = Some c" "cm_stage c = Importing ps" for c ps
  proof -
    have "untimed c" using w that(1) by (auto simp: paced_def)
    then have "ps = None" using that(2) by (simp add: untimed_def)
    then show ?thesis by (simp add: paced_plan w)
  qed
  then show ?thesis using w by (auto simp: resume_import_def paced_finish split: option.split commit_stage.split)
qed

lemma untimed_encoding [simp]: "untimed (c\<lparr>cm_stage := Encoding rs st\<rparr>)"
  by (simp add: untimed_def)

lemma paced_enter: "paced w \<Longrightarrow> paced (enter_encoder e now w)"
  by (auto simp: enter_encoder_def paced_finish paced_complete paced_stage split: list.split option.split commit_stage.split)

lemma paced_deliver: assumes w: "paced w" shows "paced (deliver_commit e now frames w)"
proof -
  have "paced (w\<lparr>stream := cache_and_deliver e rs frames (stream w)\<rparr>)" for rs
    by (rule paced_stream [OF w]) (use w in \<open>simp add: paced_def\<close>)
  then show ?thesis using w
    by (auto simp: deliver_commit_def paced_finish paced_complete split: list.split option.split commit_stage.split)
qed

lemma paced_call: "paced w \<Longrightarrow> plays c \<Longrightarrow> paced (on_stream (apply_stream_call e now c) w)"
  unfolding on_stream_def by (rule paced_stream) (simp_all add: paced_def well_timed_call)

lemma paced_preserved: "paced_run w w' \<Longrightarrow> paced w \<Longrightarrow> paced w'"
  by (induction rule: paced_run.induct)
    (auto intro: paced_call paced_begin paced_import paced_enter paced_deliver)

lemma paced_new: "paced new_flow"
  by (simp add: paced_def new_flow_def new_push_stream_def well_timed_def timed_cache_def residues_ok_def buffers_ok_def dict_ok_def)

text \<open>C16. The audio a late joiner is caught up with has no overlap, and the live audio follows it: as long as
  callers leave the time to the stream and prepare no historical audio, the cached blocks of a channel are in order, each starts no earlier
  than the one before ends, and none reaches past the time the next block of the channel will get. It holds
  across channels that come and go, first joiners that move the timeline, prunes, clears and overlapping commits.\<close>

theorem cached_audio_is_contiguous:
  assumes "paced_run new_flow w" and "dget (pcm_chunk_cache (stream w)) c = Some cs"
  shows "sorted_wrt (\<lambda>x y. pc_start x + pc_duration x \<le> pc_start y) cs \<and>
    (\<exists>t. dget (channel_timing (stream w)) c = Some t \<and> list_all (\<lambda>x. pc_start x + pc_duration x \<le> t) cs)"
proof -
  have "timed_cache (stream w)" using paced_preserved [OF assms(1) paced_new] by (simp add: paced_def well_timed_def)
  then have "\<exists>t. dget (channel_timing (stream w)) c = Some t \<and> timed_chunks t cs"
    using map_of_SomeD [OF assms(2)] unfolding timed_cache_def by blast
  then show ?thesis by (auto simp: timed_chunks_def pc_end_def list_all_iff)
qed

text \<open>Two blocks of the main channel, the second committed while the first is still being encoded.\<close>

definition demo_block :: "nat \<Rightarrow> nat stream_call" where
  "demo_block n = Prepare (replicate n 1) (audio_format_of 48000 16 2) 0"

definition demo_two_blocks :: "nat flow" where
  "demo_two_blocks = the (begin_commit demo_stage 1600000 None (on_stream (apply_stream_call demo_stage 1600000 (demo_block 8))
     (resume_import demo_stage 1500000 0 (the (begin_commit demo_stage 1000000 None
       (on_stream (apply_stream_call demo_stage 1000000 (demo_block 400)) new_flow))))))"

lemma demo_two_blocks_run: "paced_run new_flow demo_two_blocks"
proof -
  let ?a = "on_stream (apply_stream_call demo_stage 1000000 (demo_block 400)) (new_flow :: nat flow)"
  let ?b = "on_stream (apply_stream_call demo_stage 1600000 (demo_block 8)) (resume_import demo_stage 1500000 0 (the (begin_commit demo_stage 1000000 None ?a)))"
  have plays: "plays (demo_block n)" for n by (simp add: demo_block_def playable_def audio_format_of_def)
  have "begin_commit demo_stage 1000000 None ?a = Some (the (begin_commit demo_stage 1000000 None ?a))"
    "begin_commit demo_stage 1600000 None ?b = Some (the (begin_commit demo_stage 1600000 None ?b))"
    by code_simp+
  from p_begin [OF p_call [OF p_import [OF p_begin [OF p_call [OF p_start plays] this(1)]] plays] this(2)]
  show ?thesis unfolding demo_two_blocks_def .
qed

theorem cached_audio_is_contiguous_witness:
  "map (\<lambda>x. (pc_start x, pc_duration x)) (the (dget (pcm_chunk_cache (stream demo_two_blocks)) 0)) = [(1730000, 2083), (1830000, 42)] \<and>
   sorted_wrt (\<lambda>x y. pc_start x + pc_duration x \<le> pc_start y) (the (dget (pcm_chunk_cache (stream demo_two_blocks)) 0))"
proof -
  have s: "map_option (map (\<lambda>x. (pc_start x, pc_duration x))) (dget (pcm_chunk_cache (stream demo_two_blocks)) 0) = Some [(1730000, 2083), (1830000, 42)]"
    by code_simp
  then obtain cs where "dget (pcm_chunk_cache (stream demo_two_blocks)) 0 = Some cs" by auto
  with cached_audio_is_contiguous [OF demo_two_blocks_run this] s show ?thesis by simp
qed

end
