(* ===== verification/Push_Handoff.thy ===== *)
theory Push_Handoff
  imports Push_Cache
begin

text \<open>
  The hand-off of a late joiner from the cached audio to the live audio of a push stream
  (\<open>on_role_join\<close>, \<open>_do_role_join\<close> and \<open>_cache_and_deliver\<close> of \<open>server/push_stream.py\<close>): what a role hears, over any run
  in which its player stays.
\<close>

subsection \<open>What a role hears\<close>

definition heard_in :: "nat \<Rightarrow> (nat \<times> role_event) list \<Rightarrow> cached_chunk list" where
  "heard_in i l = List.map_filter (\<lambda>(j, ev). case ev of Chunk c \<Rightarrow> if j = i then Some c else None | _ \<Rightarrow> None) l"

definition heard :: "nat \<Rightarrow> 'k push_stream \<Rightarrow> cached_chunk list" where
  "heard i s = heard_in i (stream_log s)"

definition encoded_for :: "'k \<Rightarrow> ('k \<times> cached_chunk list) list \<Rightarrow> cached_chunk list" where
  "encoded_for k l = concat (map snd (filter (\<lambda>(k', cs). k' = k) l))"

lemma heard_in_simps [simp]:
  "heard_in i [] = []" "heard_in i (a @ b) = heard_in i a @ heard_in i b"
  "heard_in i ((j, Chunk c) # l) = (if j = i then [c] else []) @ heard_in i l"
  "heard_in i [(j, StreamStarted)] = []" "heard_in i [(j, StreamEnded)] = []" "heard_in i [(j, StreamCleared)] = []"
  by (simp_all add: heard_in_def List.map_filter_def)

lemma heard_in_chunks [simp]: "heard_in i (map (\<lambda>c. (j, Chunk c)) cs) = (if j = i then cs else [])"
  by (induction cs) (auto simp: heard_in_def List.map_filter_def)

lemma encoded_for_simps [simp]:
  "encoded_for k [] = []" "encoded_for k (a @ b) = encoded_for k a @ encoded_for k b"
  "encoded_for k [(k', cs)] = (if k' = k then cs else [])"
  by (simp_all add: encoded_for_def)

text \<open>The role \<open>i\<close> is on the stage with the key \<open>k\<close> and a player that stays.\<close>

definition steady :: "nat \<Rightarrow> 'k \<Rightarrow> 'k stage \<Rightarrow> bool" where
  "steady i k e \<longleftrightarrow> distinct (map fst (stage_roles e)) \<and>
     (\<exists>r q. dget (stage_roles e) i = Some r \<and> ar_req r = Some q \<and> rq_key q = k \<and>
        role_in_audio_pipeline r \<and> \<not> ar_reattached r \<and>
        list_all (\<lambda>(j, r'). case ar_req r' of None \<Rightarrow> True | Some q' \<Rightarrow> rq_key q' = k \<longrightarrow> req_channel q' = req_channel q) (stage_roles e))"

fun spares :: "nat \<Rightarrow> 'k stream_call \<Rightarrow> bool" where
  "spares i (RoleJoin j) = (j \<noteq> i)" | "spares i (RoleLeave j) = (j \<noteq> i)"
| "spares i (RoleFormatChanged _ _ j) = (j \<noteq> i)"
| "spares i (Stop _) = False" | "spares i (Clear _) = False" | "spares i _ = True"

inductive steady_run :: "nat \<Rightarrow> 'k \<Rightarrow> 'k flow \<Rightarrow> 'k flow \<Rightarrow> bool" for i :: nat and k :: 'k where
  s_start: "steady_run i k w w"
| s_call: "steady_run i k w w' \<Longrightarrow> steady i k e \<Longrightarrow> spares i c \<Longrightarrow> steady_run i k w (on_stream (apply_stream_call e now c) w')"
| s_begin: "steady_run i k w w' \<Longrightarrow> steady i k e \<Longrightarrow> begin_commit e now ps w' = Some w'' \<Longrightarrow> steady_run i k w w''"
| s_import: "steady_run i k w w' \<Longrightarrow> steady i k e \<Longrightarrow> steady_run i k w (resume_import e now n w')"
| s_enter: "steady_run i k w w' \<Longrightarrow> steady i k e \<Longrightarrow> steady_run i k w (enter_encoder e now w')"
| s_deliver: "steady_run i k w w' \<Longrightarrow> steady i k e \<Longrightarrow> steady_run i k w (deliver_commit e now frames w')"

text \<open>What the hand-off depends on, and what a step may do to it.\<close>

definition in_step :: "nat \<Rightarrow> 'k push_stream \<Rightarrow> bool" where
  "in_step i s \<longleftrightarrow> i \<notin> set (pending_join_roles s) \<and> dget (resume_at s) i = None"

definition recipients_ok :: "nat \<Rightarrow> 'k \<Rightarrow> (nat \<times> 'k) list \<Rightarrow> bool" where
  "recipients_ok i k rs \<longleftrightarrow> filter (\<lambda>x. fst x = i) rs = (if k \<in> set (map snd rs) then [(i, k)] else [])"

definition hears_same :: "nat \<Rightarrow> 'k \<Rightarrow> 'k push_stream \<Rightarrow> 'k push_stream \<Rightarrow> bool" where
  "hears_same i k s s' \<longleftrightarrow> in_step i s' \<and> (\<exists>l. encoded_log s' = encoded_log s @ l \<and> heard i s' = heard i s @ encoded_for k l)"






lemma hears_quiet: "in_step i s \<Longrightarrow> in_step i s' \<Longrightarrow> encoded_log s' = encoded_log s \<Longrightarrow> heard i s' = heard i s \<Longrightarrow> hears_same i k s s'"
  by (auto simp: hears_same_def)

lemma hears_tell: "in_step i s \<Longrightarrow> (\<And>c. ev = Chunk c \<Longrightarrow> j \<noteq> i) \<Longrightarrow> hears_same i k s (tell j ev s)"
  by (rule hears_quiet; cases ev; simp add: tell_def heard_def in_step_def)
















subsection \<open>Deliveries to the role\<close>










subsection \<open>The hand-off over a run\<close>

definition handed_off :: "nat \<Rightarrow> 'k \<Rightarrow> 'k flow \<Rightarrow> bool" where
  "handed_off i k w \<longleftrightarrow> in_step i (stream w) \<and>
     (\<forall>n c rs st. dget (in_flight w) n = Some c \<longrightarrow> cm_stage c = Encoding rs st \<longrightarrow> recipients_ok i k rs)"

definition follows :: "nat \<Rightarrow> 'k \<Rightarrow> 'k flow \<Rightarrow> 'k flow \<Rightarrow> bool" where
  "follows i k w w' \<longleftrightarrow> hears_same i k (stream w) (stream w') \<and> handed_off i k w'"




lemma follows_fields [simp]:
  "follows i k w (w'\<lparr>dsp_queue := q\<rparr>) = follows i k w w'" "follows i k w (w'\<lparr>next_commit := n\<rparr>) = follows i k w w'"
  "follows i k w (w'\<lparr>returned := rt\<rparr>) = follows i k w w'"
  by (simp_all add: follows_def handed_off_def)











lemma hears_follows: assumes "hears_same i k s s'"
  shows "heard i s' = heard i s @ encoded_for k (drop (length (encoded_log s)) (encoded_log s'))"
  using assms by (auto simp: hears_same_def)












end
