(* ===== verification/Artwork_Transfer.thy ===== *)
theory Artwork_Transfer
  imports Player_Frame
begin

text \<open>
  The transfer of artwork: the binary messages of \<open>models/artwork.py\<close> (announce, parts, cancel) and the client's
  side of a transfer (\<open>client/connection.py\<close>): a complete image is pending until its timestamp is reached on the
  local clock. Whether it is reached is an argument; that the timer of a pending image runs is a step of its own.
\<close>

subsection \<open>Messages\<close>

definition ARTWORK_CHANNEL_0 :: nat where "ARTWORK_CHANNEL_0 = 8"
definition ARTWORK_FLAG_CANCEL :: byte where "ARTWORK_FLAG_CANCEL = 0x01"
definition ARTWORK_FLAG_ANNOUNCE :: byte where "ARTWORK_FLAG_ANNOUNCE = 0x02"
definition ARTWORK_RESERVED_FLAGS :: byte where "ARTWORK_RESERVED_FLAGS = 0xFC"
definition ARTWORK_MAX_MESSAGE_SIZE :: nat where "ARTWORK_MAX_MESSAGE_SIZE = 65519"
definition ARTWORK_PREFIX_SIZE :: nat where "ARTWORK_PREFIX_SIZE = 2"
definition ARTWORK_MAX_PART_DATA_SIZE :: nat where
  "ARTWORK_MAX_PART_DATA_SIZE = ARTWORK_MAX_MESSAGE_SIZE - ARTWORK_PREFIX_SIZE"
definition ARTWORK_ANNOUNCE_SIZE :: nat where "ARTWORK_ANNOUNCE_SIZE = 14"

lemmas artwork_consts = ARTWORK_CHANNEL_0_def ARTWORK_FLAG_CANCEL_def ARTWORK_FLAG_ANNOUNCE_def ARTWORK_RESERVED_FLAGS_def
  ARTWORK_MAX_MESSAGE_SIZE_def ARTWORK_PREFIX_SIZE_def ARTWORK_MAX_PART_DATA_SIZE_def ARTWORK_ANNOUNCE_SIZE_def

definition artwork_message_type :: "nat \<Rightarrow> nat" where "artwork_message_type c = ARTWORK_CHANNEL_0 + c"

definition pack_artwork_announce :: "nat \<Rightarrow> int \<Rightarrow> nat \<Rightarrow> bytes option" where
  "pack_artwork_announce c timestamp_us total_size =
     (case (pack_B (artwork_message_type c), pack_q timestamp_us, pack_I (int total_size)) of
        (Some t, Some q, Some i) \<Rightarrow> Some (t @ [ARTWORK_FLAG_ANNOUNCE] @ q @ i) | _ \<Rightarrow> None)"

lemma part_size_pos: "0 < ARTWORK_MAX_PART_DATA_SIZE"
  by (simp add: artwork_consts)

function artwork_slices :: "bytes \<Rightarrow> bytes list" where
  "artwork_slices img = (if img = [] then []
     else take ARTWORK_MAX_PART_DATA_SIZE img # artwork_slices (drop ARTWORK_MAX_PART_DATA_SIZE img))"
  by auto
termination by (relation "Wellfounded.measure length") (auto simp: part_size_pos)

declare artwork_slices.simps [simp del]

definition artwork_prefix :: "nat \<Rightarrow> byte \<Rightarrow> bytes" where
  "artwork_prefix c flags = [word_of_nat (artwork_message_type c), flags]"

definition pack_artwork_parts :: "nat \<Rightarrow> bytes \<Rightarrow> bytes list" where
  "pack_artwork_parts c img = map (\<lambda>part. artwork_prefix c 0 @ part) (artwork_slices img)"

definition pack_artwork_cancel :: "nat \<Rightarrow> bytes" where
  "pack_artwork_cancel c = artwork_prefix c ARTWORK_FLAG_CANCEL"

text \<open>\<open>unpack_artwork_announce\<close>: channel, timestamp and size; \<open>None\<close> is \<open>ValueError\<close>.\<close>

definition unpack_artwork_announce :: "bytes \<Rightarrow> (nat \<times> int \<times> nat) option" where
  "unpack_artwork_announce data =
     (if length data \<noteq> ARTWORK_ANNOUNCE_SIZE then None
      else let t = unat (data ! 0) in
        if \<not> (ARTWORK_CHANNEL_0 \<le> t \<and> t \<le> ARTWORK_CHANNEL_0 + 3) \<or> data ! 1 \<noteq> ARTWORK_FLAG_ANNOUNCE then None
        else Some (t - ARTWORK_CHANNEL_0, unpack_q (take 8 (drop 2 data)), from_bytes_be (drop 10 data)))"

datatype artwork_flaw = BadLength | ReservedBits | BothFlags | BadAnnounceLength | BadCancelLength

definition malformed_artwork_message :: "bytes \<Rightarrow> artwork_flaw option" where
  "malformed_artwork_message payload =
     (let flags = payload ! 1 in
      if \<not> (ARTWORK_PREFIX_SIZE \<le> length payload \<and> length payload \<le> ARTWORK_MAX_MESSAGE_SIZE) then Some BadLength
      else if and flags ARTWORK_RESERVED_FLAGS \<noteq> 0 then Some ReservedBits
      else if and flags ARTWORK_FLAG_ANNOUNCE \<noteq> 0 \<and> and flags ARTWORK_FLAG_CANCEL \<noteq> 0 then Some BothFlags
      else if and flags ARTWORK_FLAG_ANNOUNCE \<noteq> 0 \<and> length payload \<noteq> ARTWORK_ANNOUNCE_SIZE then Some BadAnnounceLength
      else if and flags ARTWORK_FLAG_CANCEL \<noteq> 0 \<and> length payload \<noteq> ARTWORK_PREFIX_SIZE then Some BadCancelLength
      else None)"

subsection \<open>Channels\<close>

datatype artwork_source = ALBUM | ARTIST | NO_SOURCE
datatype picture_format = BMP | JPEG | PNG

record artwork_config =
  ac_source :: artwork_source
  ac_format :: "picture_format option"
  ac_width :: "int option"
  ac_height :: "int option"

definition no_artwork :: artwork_config where
  "no_artwork = \<lparr>ac_source = NO_SOURCE, ac_format = None, ac_width = None, ac_height = None\<rparr>"

text \<open>\<open>ArtworkChannel.__post_init__\<close>: whether the values are accepted.\<close>

definition valid_channel :: "artwork_config \<Rightarrow> bool" where
  "valid_channel c \<longleftrightarrow> ac_source c = NO_SOURCE \<or>
     (ac_format c \<noteq> None \<and> (case ac_width c of None \<Rightarrow> False | Some w \<Rightarrow> 0 < w) \<and>
      (case ac_height c of None \<Rightarrow> False | Some h \<Rightarrow> 0 < h))"

definition artwork_channel_config :: "artwork_config list option \<Rightarrow> nat \<Rightarrow> artwork_config" where
  "artwork_channel_config a c = (case a of None \<Rightarrow> no_artwork | Some cs \<Rightarrow> if length cs \<le> c then no_artwork else cs ! c)"

subsection \<open>The client\<close>

record pending_artwork =
  pa_timestamp :: int
  pa_total :: nat
  pa_data :: bytes
  pa_received :: nat
  pa_discarded :: bool
  pa_timer :: bool

datatype artwork_error = Malformed artwork_flaw | AnnounceInFlight | PartWithoutTransfer | PartPastEnd

text \<open>\<open>shown_log\<close> is a history variable: what \<open>notify_artwork\<close> was called with.\<close>

record artwork_client =
  stream_active :: bool
  stream_config :: "artwork_config list option"
  transfer_in_flight :: "nat option"
  pending_images :: "(nat, pending_artwork) dict"
  shown_channels :: "nat list"
  reported_available :: bool
  shown_log :: "(nat \<times> bytes) list"
  closed_with :: "artwork_error option"

definition new_artwork_client :: artwork_client where
  "new_artwork_client = \<lparr>stream_active = False, stream_config = None, transfer_in_flight = None, pending_images = [],
     shown_channels = [], reported_available = True, shown_log = [], closed_with = None\<rparr>"

definition discard_pending_artwork :: "nat \<Rightarrow> artwork_client \<Rightarrow> artwork_client" where
  "discard_pending_artwork c s = s\<lparr>pending_images := ddel c (pending_images s),
     transfer_in_flight := (if transfer_in_flight s = Some c then None else transfer_in_flight s)\<rparr>"

definition reset_artwork :: "artwork_client \<Rightarrow> artwork_client" where
  "reset_artwork s = (foldl (\<lambda>s c. discard_pending_artwork c s) s (map fst (pending_images s)))
     \<lparr>transfer_in_flight := None, stream_config := None\<rparr>"

text \<open>\<open>pop\<close> of a missing key raises; only complete images have a timer.\<close>

definition show_artwork :: "nat \<Rightarrow> artwork_client \<Rightarrow> artwork_client option" where
  "show_artwork c s =
     (case dget (pending_images s) c of
        None \<Rightarrow> None
      | Some p \<Rightarrow> Some (s\<lparr>pending_images := ddel c (pending_images s),
          shown_channels := (if pa_data p \<noteq> [] then List.insert c (shown_channels s) else removeAll c (shown_channels s)),
          shown_log := shown_log s @ [(c, pa_data p)]\<rparr>))"

definition schedule_artwork :: "(int \<Rightarrow> bool) \<Rightarrow> nat \<Rightarrow> pending_artwork \<Rightarrow> artwork_client \<Rightarrow> artwork_client" where
  "schedule_artwork due c p s =
     (if pa_discarded p then s\<lparr>pending_images := ddel c (pending_images s)\<rparr>
      else if due (pa_timestamp p) then the (show_artwork c s)
      else s\<lparr>pending_images := dset c (p\<lparr>pa_timer := True\<rparr>) (pending_images s)\<rparr>)"

definition close_artwork :: "artwork_error \<Rightarrow> artwork_client \<Rightarrow> artwork_client" where
  "close_artwork err s = s\<lparr>closed_with := Some err\<rparr>"

text \<open>The end of \<open>_handle_artwork_chunk\<close>: the pending image is scheduled once all its bytes are received.\<close>

definition complete_transfer :: "(int \<Rightarrow> bool) \<Rightarrow> nat \<Rightarrow> pending_artwork \<Rightarrow> artwork_client \<Rightarrow> artwork_client" where
  "complete_transfer due c p s =
     (let s = s\<lparr>pending_images := dset c p (pending_images s)\<rparr>
      in if pa_received p = pa_total p then schedule_artwork due c p (s\<lparr>transfer_in_flight := None\<rparr>) else s)"

definition handle_artwork_announce :: "(int \<Rightarrow> bool) \<Rightarrow> nat \<Rightarrow> int \<Rightarrow> nat \<Rightarrow> artwork_client \<Rightarrow> artwork_client" where
  "handle_artwork_announce due c timestamp sz s =
     (if transfer_in_flight s \<noteq> None then close_artwork AnnounceInFlight s
      else complete_transfer due c \<lparr>pa_timestamp = timestamp, pa_total = sz, pa_data = [], pa_received = 0,
             pa_discarded = (0 < sz \<and> \<not> reported_available s), pa_timer = False\<rparr>
             ((discard_pending_artwork c s)\<lparr>transfer_in_flight := Some c\<rparr>))"

definition handle_artwork_part :: "(int \<Rightarrow> bool) \<Rightarrow> nat \<Rightarrow> bytes \<Rightarrow> artwork_client \<Rightarrow> artwork_client" where
  "handle_artwork_part due c data s =
     (if transfer_in_flight s \<noteq> Some c then close_artwork PartWithoutTransfer s
      else case dget (pending_images s) c of
             None \<Rightarrow> s
           | Some p \<Rightarrow>
               (let p = p\<lparr>pa_received := pa_received p + length data\<rparr> in
                if pa_total p < pa_received p
                then close_artwork PartPastEnd (s\<lparr>pending_images := dset c p (pending_images s)\<rparr>)
                else complete_transfer due c
                       (if pa_discarded p \<or> \<not> reported_available s then p\<lparr>pa_discarded := True, pa_data := []\<rparr>
                        else p\<lparr>pa_data := pa_data p @ data\<rparr>) s))"

definition handle_artwork_chunk :: "(int \<Rightarrow> bool) \<Rightarrow> bytes \<Rightarrow> artwork_client \<Rightarrow> artwork_client" where
  "handle_artwork_chunk due payload s =
     (let c = unat (payload ! 0) - ARTWORK_CHANNEL_0; flags = payload ! 1 in
      if and flags ARTWORK_FLAG_CANCEL \<noteq> 0 then discard_pending_artwork c s
      else if and flags ARTWORK_FLAG_ANNOUNCE \<noteq> 0
      then handle_artwork_announce due c (unpack_q (take 8 (drop 2 payload))) (from_bytes_be (drop 10 payload)) s
      else handle_artwork_part due c (drop ARTWORK_PREFIX_SIZE payload) s)"

text \<open>The artwork part of \<open>_handle_binary_message\<close>: a malformed message closes the connection even before the stream.\<close>

definition handle_artwork_binary :: "(int \<Rightarrow> bool) \<Rightarrow> bytes \<Rightarrow> artwork_client \<Rightarrow> artwork_client" where
  "handle_artwork_binary due payload s =
     (case malformed_artwork_message payload of
        Some flaw \<Rightarrow> close_artwork (Malformed flaw) s
      | None \<Rightarrow> if stream_active s then handle_artwork_chunk due payload s else s)"

definition artwork_stream_start :: "artwork_config list \<Rightarrow> artwork_client \<Rightarrow> artwork_client" where
  "artwork_stream_start cs s =
     (let changed = filter (\<lambda>c. artwork_channel_config (Some cs) c \<noteq> artwork_channel_config (stream_config s) c)
                      (map fst (pending_images s));
          s' = foldl (\<lambda>s c. discard_pending_artwork c s) (s\<lparr>stream_active := True\<rparr>) changed
      in s'\<lparr>stream_config := Some cs\<rparr>)"

definition end_artwork_stream :: "artwork_client \<Rightarrow> artwork_client" where
  "end_artwork_stream s =
     (let s = reset_artwork (s\<lparr>stream_active := False\<rparr>)
      in s\<lparr>shown_log := shown_log s @ map (\<lambda>c. (c, [])) (sort (shown_channels s)), shown_channels := []\<rparr>)"

definition disconnect_artwork :: "artwork_client \<Rightarrow> artwork_client" where
  "disconnect_artwork s = (reset_artwork (s\<lparr>stream_active := False\<rparr>))\<lparr>shown_channels := []\<rparr>"

text \<open>The timer of a pending image runs.\<close>

definition artwork_timer :: "nat \<Rightarrow> artwork_client \<Rightarrow> artwork_client" where
  "artwork_timer c s =
     (case dget (pending_images s) c of
        Some p \<Rightarrow> if pa_timer p then the (show_artwork c s) else s
      | None \<Rightarrow> s)"

subsection \<open>The messages and the client\<close>

lemma concat_slices: "concat (artwork_slices img) = img"
  by (induction img rule: artwork_slices.induct) (subst artwork_slices.simps, auto)

lemma slice_sizes: "part \<in> set (artwork_slices img) \<Longrightarrow> 0 < length part \<and> length part \<le> ARTWORK_MAX_PART_DATA_SIZE"
proof (induction img rule: artwork_slices.induct)
  case (1 img)
  then show ?case using part_size_pos by (subst (asm) (2) artwork_slices.simps) (auto split: if_splits)
qed

lemma channel_byte: "c \<le> 3 \<Longrightarrow> unat (word_of_nat (artwork_message_type c) :: byte) = ARTWORK_CHANNEL_0 + c"
  by (subst unat_of_nat) (simp add: artwork_message_type_def artwork_consts)

lemma announce_bytes:
  assumes "pack_artwork_announce c t n = Some bs" "c \<le> 3"
  shows "malformed_artwork_message bs = None"
    "handle_artwork_chunk due bs s = handle_artwork_announce due c t n s"
    "unpack_artwork_announce bs = Some (c, t, n)"
proof -
  obtain q i where q: "pack_q t = Some q" and i: "pack_I (int n) = Some i"
    and bs: "bs = word_of_nat (artwork_message_type c) # ARTWORK_FLAG_ANNOUNCE # q @ i"
    using assms(1) by (auto simp: pack_artwork_announce_def pack_B_def split: option.splits if_splits)
  have len: "length q = 8" "length i = 4" "from_bytes_be i = n" "unpack_q q = t"
    using packed_q [OF q, of "[]"] pack_I_unpack [OF i] by auto
  have d: "drop 10 bs = i" "take 8 (drop 2 bs) = q" using len by (simp_all add: bs)
  show "malformed_artwork_message bs = None" using len by (simp add: malformed_artwork_message_def bs artwork_consts)
  show "handle_artwork_chunk due bs s = handle_artwork_announce due c t n s"
    unfolding handle_artwork_chunk_def Let_def d len using channel_byte [OF assms(2)]
    by (simp add: bs ARTWORK_FLAG_ANNOUNCE_def ARTWORK_FLAG_CANCEL_def)
  show "unpack_artwork_announce bs = Some (c, t, n)"
    unfolding unpack_artwork_announce_def Let_def d len using channel_byte [OF assms(2)] len assms(2)
    by (simp add: bs ARTWORK_ANNOUNCE_SIZE_def)
qed

lemma part_bytes:
  assumes "c \<le> 3" "length part \<le> ARTWORK_MAX_PART_DATA_SIZE"
  shows "malformed_artwork_message (artwork_prefix c 0 @ part) = None"
    "handle_artwork_chunk due (artwork_prefix c 0 @ part) s = handle_artwork_part due c part s"
  using assms channel_byte [OF assms(1)]
  by (simp_all add: malformed_artwork_message_def handle_artwork_chunk_def artwork_prefix_def artwork_consts)

lemma cancel_bytes:
  assumes "c \<le> 3"
  shows "malformed_artwork_message (pack_artwork_cancel c) = None"
    "handle_artwork_chunk due (pack_artwork_cancel c) s = discard_pending_artwork c s"
  using channel_byte [OF assms]
  by (simp_all add: malformed_artwork_message_def handle_artwork_chunk_def pack_artwork_cancel_def artwork_prefix_def artwork_consts)

end
