(* ===== verification/Artwork_Role.thy ===== *)
theory Artwork_Role
  imports Artwork_Transfer
begin

text \<open>
  \<open>ArtworkV1Role\<close> (\<open>server/roles/artwork/v1.py\<close>): the stream of the channels a client declares and the transfer of
  their images, one at a time, by a task that runs from await to await. What the role has queued on the
  connection is its outbox; a binary message that is not exempt from the epoch is dropped by a boundary.
  The replay of current images the role asks its group for comes back as calls of \<open>send_artwork\<close>.
\<close>

subsection \<open>State\<close>

definition MAX_ARTWORK_CHANNELS :: nat where "MAX_ARTWORK_CHANNELS = 4"
definition MAX_ANNOUNCE_LEAD_US :: int where "MAX_ANNOUNCE_LEAD_US = 20000000"

datatype artwork_message =
    Start "artwork_config list" | EndStream
  | Announce nat int nat | Part nat bytes | Cancel nat | Single nat int bytes

fun is_binary :: "artwork_message \<Rightarrow> bool" where
  "is_binary (Start _) = False" | "is_binary EndStream = False" | "is_binary _ = True"

text \<open>The transfer task: about to choose the next image, or with parts of a channel's image left to send.\<close>

datatype transfer_task = Choosing | Sending nat "bytes list"

record artwork_role =
  connected :: bool
  available :: bool
  hello_channels :: "artwork_config list option"
  art_started :: bool
  channels :: "artwork_config list"
  art_queued :: "(nat, (bytes \<times> int) list) dict"
  in_transfer :: "nat option"
  in_transfer_us :: int
  scheduled_announced :: "nat list"
  transfer :: "transfer_task option"
  outbox :: "(bool \<times> artwork_message) list"
  replays_wanted :: nat
  flagged :: nat

definition new_artwork_role :: "artwork_config list option \<Rightarrow> artwork_role" where
  "new_artwork_role hello = \<lparr>connected = False, available = True, hello_channels = hello, art_started = False, channels = [],
     art_queued = [], in_transfer = None, in_transfer_us = 0, scheduled_announced = [], transfer = None, outbox = [],
     replays_wanted = 0, flagged = 0\<rparr>"

definition put :: "bool \<Rightarrow> artwork_message \<Rightarrow> artwork_role \<Rightarrow> artwork_role" where
  "put exempt m r = r\<lparr>outbox := outbox r @ [(exempt, m)]\<rparr>"

definition keeps :: "bool \<times> artwork_message \<Rightarrow> bool" where
  "keeps m \<longleftrightarrow> fst m \<or> \<not> is_binary (snd m)"

definition drop_binary :: "artwork_role \<Rightarrow> artwork_role" where
  "drop_binary r = r\<lparr>outbox := filter keeps (outbox r)\<rparr>"

definition uses_single_message_framing :: "artwork_role \<Rightarrow> bool" where
  "uses_single_message_framing r \<longleftrightarrow> hello_channels r \<noteq> None"

definition announce_lead_us :: "artwork_role \<Rightarrow> int" where
  "announce_lead_us r = (if uses_single_message_framing r then 0 else MAX_ANNOUNCE_LEAD_US)"

definition get_channel_config :: "artwork_role \<Rightarrow> nat \<Rightarrow> artwork_config option" where
  "get_channel_config r c = (if art_started r \<and> c < length (channels r) \<and> ac_source (channels r ! c) \<noteq> NO_SOURCE
     then Some (channels r ! c) else None)"

definition stream_configs :: "artwork_config list \<Rightarrow> artwork_config list" where
  "stream_configs cs = map (\<lambda>c. if ac_source c = NO_SOURCE then no_artwork else c) cs @
     replicate (MAX_ARTWORK_CHANNELS - length cs) no_artwork"

subsection \<open>Transfers\<close>

definition stop_transfer_task :: "artwork_role \<Rightarrow> artwork_role" where
  "stop_transfer_task r = r\<lparr>transfer := None\<rparr>"

definition start_transfers :: "artwork_role \<Rightarrow> artwork_role" where
  "start_transfers r = (if transfer r = None then r\<lparr>transfer := Some Choosing\<rparr> else r)"

definition cancel_in_flight :: "artwork_role \<Rightarrow> artwork_role" where
  "cancel_in_flight r =
     (let r = drop_binary (stop_transfer_task r)
      in case in_transfer r of
           None \<Rightarrow> r
         | Some c \<Rightarrow> (put True (Cancel c) r)\<lparr>scheduled_announced := removeAll c (scheduled_announced r), in_transfer := None\<rparr>)"

definition current_queued :: "nat \<Rightarrow> int \<Rightarrow> artwork_role \<Rightarrow> (bytes \<times> int) list" where
  "current_queued c now r =
     (case filter (\<lambda>x. snd x \<le> now) (case dget (art_queued r) c of None \<Rightarrow> [] | Some q \<Rightarrow> q) of [] \<Rightarrow> [] | q \<Rightarrow> [last q])"

text \<open>\<open>_discard_client_scheduled\<close>: whether a transfer was cancelled.\<close>

definition discard_client_scheduled :: "nat \<Rightarrow> int \<Rightarrow> bool \<Rightarrow> artwork_role \<Rightarrow> bool \<times> artwork_role" where
  "discard_client_scheduled c now keep_current r =
     (if in_transfer r = Some c
      then if keep_current \<and> in_transfer_us r \<le> now then (False, r) else (True, cancel_in_flight r)
      else if c \<in> set (scheduled_announced r)
      then (False, put True (Cancel c) (r\<lparr>scheduled_announced := removeAll c (scheduled_announced r)\<rparr>))
      else (False, r))"

definition send_single_message :: "bool \<Rightarrow> nat \<Rightarrow> bytes \<Rightarrow> int \<Rightarrow> artwork_role \<Rightarrow> artwork_role" where
  "send_single_message exempt c img t r = put exempt (Single c t img) r"

definition send_clear_now :: "nat \<Rightarrow> int \<Rightarrow> artwork_role \<Rightarrow> artwork_role" where
  "send_clear_now c t r =
     (if uses_single_message_framing r then send_single_message True c [] t r else put True (Announce c t 0) r)"

definition send_legacy_artwork :: "nat \<Rightarrow> bytes \<Rightarrow> int \<Rightarrow> int \<Rightarrow> artwork_role \<Rightarrow> artwork_role" where
  "send_legacy_artwork c img t now r =
     (let r = (if now < t then foldl (\<lambda>r (i, u). send_single_message False c i u r) r (current_queued c now r) else r);
          r = r\<lparr>art_queued := ddel c (art_queued r)\<rparr>
      in if t - announce_lead_us r \<le> now then send_single_message False c img t r
         else start_transfers (r\<lparr>art_queued := dset c [(img, t)] (art_queued r)\<rparr>))"

definition send_artwork :: "nat \<Rightarrow> bytes \<Rightarrow> int \<Rightarrow> int \<Rightarrow> artwork_role \<Rightarrow> artwork_role" where
  "send_artwork c img t now r =
     (if \<not> connected r \<or> get_channel_config r c = None then r
      else if uses_single_message_framing r then send_legacy_artwork c img t now r
      else let scheduled = now < t;
               queued = (if scheduled then current_queued c now r else []) @ [(img, t)];
               (cancelled, r) = discard_client_scheduled c now scheduled r
           in start_transfers (r\<lparr>art_queued := (if cancelled then (c, queued) # ddel c (art_queued r)
                                            else dset c queued (art_queued r))\<rparr>))"

definition send_artwork_cleared :: "nat \<Rightarrow> int \<Rightarrow> int \<Rightarrow> artwork_role \<Rightarrow> artwork_role" where
  "send_artwork_cleared c t now r = send_artwork c [] t now r"

definition cancel_scheduled_artwork :: "nat \<Rightarrow> int \<Rightarrow> artwork_role \<Rightarrow> bool \<times> artwork_role" where
  "cancel_scheduled_artwork c now r =
     (if \<not> connected r \<or> get_channel_config r c = None then (True, r)
      else if uses_single_message_framing r then (False, r\<lparr>art_queued := ddel c (art_queued r)\<rparr>)
      else let r = r\<lparr>art_queued := (case current_queued c now r of [] \<Rightarrow> ddel c (art_queued r) | q \<Rightarrow> dset c q (art_queued r))\<rparr>;
               (cancelled, r) = discard_client_scheduled c now True r
           in (True, if cancelled then start_transfers r else r))"

text \<open>One step of the transfer task, up to its next await. The clock is read twice.\<close>

definition next_due :: "int \<Rightarrow> artwork_role \<Rightarrow> (nat \<times> (bytes \<times> int) list) option" where
  "next_due now r = find (\<lambda>(c, q). snd (hd q) - announce_lead_us r \<le> now) (art_queued r)"

definition choose_transfer :: "int \<Rightarrow> int \<Rightarrow> artwork_role \<Rightarrow> artwork_role" where
  "choose_transfer now now' r =
     (if art_queued r = [] then r\<lparr>transfer := None\<rparr>
      else case next_due now r of
             None \<Rightarrow> r
           | Some (c, q) \<Rightarrow>
               (let (img, t) = hd q;
                    r = r\<lparr>art_queued := (if tl q = [] then ddel c (art_queued r) else dset c (tl q) (art_queued r))\<rparr>
                in if uses_single_message_framing r then send_single_message False c img t r
                   else put False (Announce c t (length img))
                     (r\<lparr>in_transfer := Some c, in_transfer_us := t, transfer := Some (Sending c (artwork_slices img)),
                        scheduled_announced := (if now' < t then List.insert c (scheduled_announced r)
                                                else removeAll c (scheduled_announced r))\<rparr>)))"

definition run_transfer :: "int \<Rightarrow> int \<Rightarrow> artwork_role \<Rightarrow> artwork_role" where
  "run_transfer now now' r =
     (case transfer r of
        None \<Rightarrow> r
      | Some Choosing \<Rightarrow> choose_transfer now now' r
      | Some (Sending c ps) \<Rightarrow>
          if outbox r \<noteq> [] then r
          else (case ps of
                  [] \<Rightarrow> r\<lparr>in_transfer := None, transfer := Some Choosing\<rparr>
                | p # ps \<Rightarrow> put False (Part c p) (r\<lparr>transfer := Some (Sending c ps)\<rparr>)))"

subsection \<open>The stream\<close>

definition send_artwork_start :: "artwork_config list \<Rightarrow> artwork_role \<Rightarrow> artwork_role" where
  "send_artwork_start configs r =
     (let streamed = (case hello_channels r of
          Some _ \<Rightarrow> channels r
        | None \<Rightarrow> rev (dropWhile (\<lambda>c. ac_source c = NO_SOURCE) (rev configs)))
      in (put False (Start streamed) r)\<lparr>art_started := True\<rparr>)"

definition start_artwork_stream :: "artwork_role \<Rightarrow> artwork_role" where
  "start_artwork_stream r = (let r = send_artwork_start (stream_configs (channels r)) r in r\<lparr>replays_wanted := replays_wanted r + 1\<rparr>)"

definition end_stream :: "artwork_role \<Rightarrow> artwork_role" where
  "end_stream r =
     (if \<not> art_started r then r
      else (put False EndStream (cancel_in_flight r))\<lparr>art_queued := [], scheduled_announced := [], art_started := False\<rparr>)"

definition clear_dropped :: "int \<Rightarrow> artwork_config list \<Rightarrow> artwork_config list \<Rightarrow> artwork_role \<Rightarrow> artwork_role" where
  "clear_dropped now olds news r =
     foldl (\<lambda>r c. if ac_source (news ! c) = NO_SOURCE \<and> olds ! c \<noteq> news ! c then send_clear_now c now r else r)
       r [0..<length news]"

definition apply_channels :: "int \<Rightarrow> artwork_config list \<Rightarrow> artwork_role \<Rightarrow> artwork_role" where
  "apply_channels now cs r =
     (if \<not> available r then r\<lparr>channels := cs\<rparr>
      else let news = stream_configs cs; olds = stream_configs (channels r) in
        if art_started r \<and> olds = news then r\<lparr>channels := cs\<rparr>
        else let r = (if art_started r then clear_dropped now olds news ((cancel_in_flight r)\<lparr>art_queued := []\<rparr>) else r)
             in start_artwork_stream (r\<lparr>channels := cs\<rparr>))"

definition reset_stream :: "artwork_role \<Rightarrow> artwork_role" where
  "reset_stream r = (stop_transfer_task r)\<lparr>art_queued := [], in_transfer := None, scheduled_announced := [],
     art_started := False, channels := []\<rparr>"

definition artwork_on_connect :: "int \<Rightarrow> artwork_role \<Rightarrow> artwork_role" where
  "artwork_on_connect now r = (case hello_channels r of None \<Rightarrow> r | Some cs \<Rightarrow> apply_channels now cs r)"

definition artwork_on_deactivate :: "artwork_role \<Rightarrow> artwork_role" where
  "artwork_on_deactivate r = reset_stream (end_stream r)"

text \<open>The connection is gone, with what was queued on it.\<close>

definition artwork_on_disconnect :: "artwork_role \<Rightarrow> artwork_role" where
  "artwork_on_disconnect r = (reset_stream r)\<lparr>connected := False, outbox := []\<rparr>"

definition artwork_availability_changed :: "bool \<Rightarrow> artwork_role \<Rightarrow> artwork_role" where
  "artwork_availability_changed new r =
     (let r = r\<lparr>available := new\<rparr>
      in if \<not> new then end_stream r
         else if channels r \<noteq> [] \<and> \<not> art_started r then start_artwork_stream r else r)"

record artwork_request =
  fr_channel :: nat
  fr_source :: "artwork_source option"
  fr_format :: "picture_format option"
  fr_width :: "int option"
  fr_height :: "int option"
  fr_legacy_keys :: bool

definition requested :: "artwork_request \<Rightarrow> artwork_config \<Rightarrow> artwork_config" where
  "requested q c = \<lparr>ac_source = (case fr_source q of None \<Rightarrow> ac_source c | Some x \<Rightarrow> x),
     ac_format = (case fr_format q of None \<Rightarrow> ac_format c | f \<Rightarrow> f),
     ac_width = (case fr_width q of None \<Rightarrow> ac_width c | w \<Rightarrow> w),
     ac_height = (case fr_height q of None \<Rightarrow> ac_height c | h \<Rightarrow> h)\<rparr>"

definition flag_if :: "bool \<Rightarrow> artwork_role \<Rightarrow> artwork_role" where
  "flag_if b r = (if b then r\<lparr>flagged := flagged r + 1\<rparr> else r)"

definition artwork_request_format :: "int \<Rightarrow> artwork_request \<Rightarrow> artwork_role \<Rightarrow> artwork_role" where
  "artwork_request_format now q r =
     (if length (channels r) \<le> fr_channel q then flag_if True r
      else let r = flag_if (fr_format q = Some BMP) (flag_if (fr_legacy_keys q) r);
               bad = (\<lambda>x. case x of None \<Rightarrow> False | Some v \<Rightarrow> v \<le> (0 :: int));
               c = requested q (channels r ! fr_channel q)
           in if bad (fr_width q) \<or> bad (fr_height q) then flag_if True r
              else if \<not> valid_channel c then flag_if True r
              else apply_channels now ((channels r)[fr_channel q := c]) r)"

end
