(* ===== verification/Artwork_Link.thy ===== *)
theory Artwork_Link
  imports Artwork_Role
begin

text \<open>
  An artwork role, the messages it has queued on the connection, and the client that receives them
  (\<open>server/roles/artwork/v1.py\<close>, \<open>client/connection.py\<close>), for clients that take transfers: the runs of the three,
  and an abstract account of what the queued messages will do to the client's transfer.
\<close>

subsection \<open>Server, connection and client\<close>

type_synonym images = "(nat \<times> bytes) set"

definition sendable :: "bytes \<Rightarrow> int \<Rightarrow> bool" where
  "sendable img t \<longleftrightarrow> - (2 ^ 63) \<le> t \<and> t < 2 ^ 63 \<and> length img < 2 ^ 32"

text \<open>The client takes the next message of the connection; a closed connection delivers nothing.\<close>

definition receive_artwork :: "(int \<Rightarrow> bool) \<Rightarrow> artwork_message \<Rightarrow> artwork_client \<Rightarrow> artwork_client" where
  "receive_artwork due m v =
     (if closed_with v \<noteq> None then v
      else case m of
             Start cs \<Rightarrow> artwork_stream_start cs v
           | EndStream \<Rightarrow> end_artwork_stream v
           | Announce c t n \<Rightarrow> (case pack_artwork_announce c t n of None \<Rightarrow> v | Some bs \<Rightarrow> handle_artwork_binary due bs v)
           | Part c p \<Rightarrow> handle_artwork_binary due (artwork_prefix c 0 @ p) v
           | Cancel c \<Rightarrow> handle_artwork_binary due (pack_artwork_cancel c) v
           | Single c t img \<Rightarrow>
               (case pack_binary_header_raw (artwork_message_type c) t of None \<Rightarrow> v | Some h \<Rightarrow> handle_artwork_binary due (h @ img) v))"

subsection \<open>What the messages of a connection do to a transfer\<close>

type_synonym transfer_state = "bool \<times> (nat \<times> nat \<times> bytes) option"

fun step_message :: "images \<Rightarrow> artwork_message \<Rightarrow> transfer_state \<Rightarrow> transfer_state option" where
  "step_message G (Start cs) (act, cur) = (if cur = None then Some (True, None) else None)"
| "step_message G EndStream (act, cur) = Some (False, None)"
| "step_message G (Announce c t n) (act, cur) =
     (if 3 < c \<or> \<not> sendable [] t \<or> 2 ^ 32 \<le> n then None
      else if \<not> act then Some (act, cur)
      else if cur \<noteq> None then None else Some (True, if n = 0 then None else Some (c, n, [])))"
| "step_message G (Part c p) (act, cur) =
     (if 3 < c \<or> ARTWORK_MAX_PART_DATA_SIZE < length p then None
      else if \<not> act then Some (act, cur)
      else case cur of
             None \<Rightarrow> None
           | Some (c', n, got) \<Rightarrow>
               if c' \<noteq> c \<or> n < length (got @ p) then None
               else if length (got @ p) = n then (if (c, got @ p) \<in> G then Some (True, None) else None)
               else Some (True, Some (c, n, got @ p)))"
| "step_message G (Cancel c) (act, cur) =
     (if 3 < c then None else Some (act, if act \<and> map_option fst cur = Some c then None else cur))"
| "step_message G (Single c t img) a = None"

fun run_messages :: "images \<Rightarrow> artwork_message list \<Rightarrow> transfer_state \<Rightarrow> transfer_state option" where
  "run_messages G [] a = Some a"
| "run_messages G (m # ms) a = (case step_message G m a of None \<Rightarrow> None | Some a' \<Rightarrow> run_messages G ms a')"

lemma run_messages_append:
  "run_messages G (ms @ ms') a = (case run_messages G ms a of None \<Rightarrow> None | Some a' \<Rightarrow> run_messages G ms' a')"
  by (induction ms arbitrary: a) (auto split: option.split)

definition genuine :: "images \<Rightarrow> nat \<Rightarrow> bytes \<Rightarrow> bool" where
  "genuine G c img \<longleftrightarrow> img = [] \<or> (c, img) \<in> G"

definition pending_ok :: "images \<Rightarrow> artwork_client \<Rightarrow> bool" where
  "pending_ok G v \<longleftrightarrow> (\<forall>c p. dget (pending_images v) c = Some p \<longrightarrow> transfer_in_flight v \<noteq> Some c \<longrightarrow> genuine G c (pa_data p))"

definition receiving :: "nat \<Rightarrow> nat \<Rightarrow> bytes \<Rightarrow> artwork_client \<Rightarrow> bool" where
  "receiving c n got v \<longleftrightarrow> (\<exists>p. dget (pending_images v) c = Some p \<and> pa_total p = n \<and> pa_received p = length got \<and>
     length got < n \<and> \<not> pa_timer p \<and> (pa_discarded p \<or> pa_data p = got))"

definition client_at :: "images \<Rightarrow> artwork_client \<Rightarrow> transfer_state \<Rightarrow> bool" where
  "client_at G v a \<longleftrightarrow> closed_with v = None \<and> stream_active v = fst a \<and> pending_ok G v \<and>
     (\<forall>(c, img)\<in>set (shown_log v). genuine G c img) \<and>
     (case snd a of None \<Rightarrow> transfer_in_flight v = None
      | Some (c, n, got) \<Rightarrow> fst a \<and> transfer_in_flight v = Some c \<and> receiving c n got v)"

lemma genuine_mono: "genuine G c img \<Longrightarrow> G \<subseteq> G' \<Longrightarrow> genuine G' c img"
  by (auto simp: genuine_def)

lemma pending_ok_mono: "pending_ok G v \<Longrightarrow> G \<subseteq> G' \<Longrightarrow> pending_ok G' v"
  using genuine_mono unfolding pending_ok_def by blast

lemma client_at_mono: "client_at G v a \<Longrightarrow> G \<subseteq> G' \<Longrightarrow> client_at G' v a"
  unfolding client_at_def using pending_ok_mono [of G v G'] genuine_mono [of G _ _ G'] by blast

lemma step_message_mono: "step_message G m a = Some a' \<Longrightarrow> G \<subseteq> G' \<Longrightarrow> step_message G' m a = Some a'"
  by (cases "(G, m, a)" rule: step_message.cases) (auto split: if_splits option.splits)

lemma run_messages_mono: "run_messages G ms a = Some a' \<Longrightarrow> G \<subseteq> G' \<Longrightarrow> run_messages G' ms a = Some a'"
  by (induction ms arbitrary: a) (auto split: option.splits dest: step_message_mono)

text \<open>Showing, scheduling and discarding at the client.\<close>

lemma discard_parts [simp]:
  "closed_with (discard_pending_artwork c v) = closed_with v" "stream_active (discard_pending_artwork c v) = stream_active v"
  "shown_log (discard_pending_artwork c v) = shown_log v" "pending_images (discard_pending_artwork c v) = ddel c (pending_images v)"
  "transfer_in_flight (discard_pending_artwork c v) = (if transfer_in_flight v = Some c then None else transfer_in_flight v)"
  "reported_available (discard_pending_artwork c v) = reported_available v"
  by (simp_all add: discard_pending_artwork_def)

lemma pending_ok_discard: "pending_ok G v \<Longrightarrow> pending_ok G (discard_pending_artwork c v)"
  by (auto simp: pending_ok_def split: if_splits)

lemma client_discard:
  assumes "client_at G v (act, cur)"
  shows "client_at G (discard_pending_artwork c v) (act, if map_option fst cur = Some c then None else cur)"
  using assms pending_ok_discard [of G v c]
  by (cases cur) (auto simp: client_at_def receiving_def)

lemma client_discards: "client_at G v (act, None) \<Longrightarrow> client_at G (foldl (\<lambda>s c. discard_pending_artwork c s) v cs) (act, None)"
proof (induction cs arbitrary: v)
  case (Cons c cs)
  have "client_at G (discard_pending_artwork c v) (act, None)" using client_discard [OF Cons.prems, of c] by simp
  then show ?case using Cons.IH by simp
qed simp

lemma discards_parts [simp]:
  "closed_with (foldl (\<lambda>s c. discard_pending_artwork c s) v cs) = closed_with v"
  "shown_log (foldl (\<lambda>s c. discard_pending_artwork c s) v cs) = shown_log v"
  "stream_active (foldl (\<lambda>s c. discard_pending_artwork c s) v cs) = stream_active v"
  "pending_images (foldl (\<lambda>s c. discard_pending_artwork c s) v cs) = foldl (\<lambda>d c. ddel c d) (pending_images v) cs"
  by (induction cs arbitrary: v) simp_all

lemma ddel_all: "foldl (\<lambda>d c. ddel c d) d (map fst d) = []"
proof -
  have "dget (foldl (\<lambda>d c. ddel c d) d cs) c = (if c \<in> set cs then None else dget d c)" for d :: "('a, 'b) dict" and cs c
    by (induction cs arbitrary: d) auto
  then have "dget (foldl (\<lambda>d c. ddel c d) d (map fst d)) c = None" for c
    by (auto simp: map_of_eq_None_iff)
  then show ?thesis by (metis ddel_absent list.exhaust map_of_eq_empty_iff ext)
qed

lemma reset_parts [simp]:
  "closed_with (reset_artwork v) = closed_with v" "shown_log (reset_artwork v) = shown_log v"
  "stream_active (reset_artwork v) = stream_active v" "pending_images (reset_artwork v) = []"
  "transfer_in_flight (reset_artwork v) = None"
  by (simp_all add: reset_artwork_def ddel_all)

lemma client_started:
  assumes "client_at G v (act, None)" shows "client_at G (artwork_stream_start cs v) (True, None)"
proof -
  have a: "client_at G (v\<lparr>stream_active := True\<rparr>) (True, None)"
    using assms by (simp add: client_at_def pending_ok_def)
  have b: "client_at G s (True, None) \<Longrightarrow> client_at G (s\<lparr>stream_config := cfg\<rparr>) (True, None)" for s cfg
    by (simp add: client_at_def pending_ok_def)
  show ?thesis unfolding artwork_stream_start_def Let_def by (rule b) (rule client_discards [OF a])
qed

lemma client_ended:
  assumes "client_at G v a" shows "client_at G (end_artwork_stream v) (False, None)"
  using assms by (auto simp: client_at_def end_artwork_stream_def Let_def pending_ok_def genuine_def)

lemma client_shown:
  assumes "client_at G v (act, None)" "dget (pending_images v) c = Some p"
  shows "client_at G (the (show_artwork c v)) (act, None)"
  using assms by (auto simp: show_artwork_def client_at_def pending_ok_def)

text \<open>A transfer that is complete.\<close>

lemma client_scheduled:
  assumes "client_at G v (act, None)" "dget (pending_images v) c = Some p"
  shows "client_at G (schedule_artwork due c p v) (act, None)"
  using client_shown [OF assms] assms
  by (auto simp: schedule_artwork_def client_at_def pending_ok_def)

lemma client_completed:
  assumes "client_at G v (True, cur)" and "cur = None \<or> map_option fst cur = Some c" "genuine G c (pa_data p)"
    and "pa_received p = pa_total p"
  shows "client_at G (complete_transfer due c p v) (True, None)"
proof -
  have "client_at G (v\<lparr>pending_images := dset c p (pending_images v), transfer_in_flight := None\<rparr>) (True, None)"
    using assms(1-3) by (cases cur) (auto simp: client_at_def pending_ok_def)
  then show ?thesis using client_scheduled [of G "v\<lparr>pending_images := dset c p (pending_images v), transfer_in_flight := None\<rparr>" True c p due] assms(4)
    by (simp add: complete_transfer_def Let_def)
qed

lemma client_announced:
  assumes v: "client_at G v (True, None)"
  shows "client_at G (handle_artwork_announce due c t n v) (True, if n = 0 then None else Some (c, n, []))"
proof -
  let ?p = "\<lparr>pa_timestamp = t, pa_total = n, pa_data = [], pa_received = 0,
    pa_discarded = (0 < n \<and> \<not> reported_available v), pa_timer = False\<rparr>"
  let ?d = "discard_pending_artwork c v"
  have d: "client_at G ?d (True, None)" using client_discard [OF v, of c] by simp
  have none: "transfer_in_flight v = None" using v by (simp add: client_at_def)
  show ?thesis
  proof (cases "n = 0")
    case True
    have "complete_transfer due c ?p (?d\<lparr>transfer_in_flight := Some c\<rparr>) = complete_transfer due c ?p ?d"
      using True none by (simp add: complete_transfer_def Let_def)
    moreover have "client_at G (complete_transfer due c ?p ?d) (True, None)"
      by (rule client_completed [OF d]) (simp_all add: True genuine_def)
    ultimately show ?thesis using True none by (simp add: handle_artwork_announce_def)
  next
    case False
    then show ?thesis using d none
      by (auto simp: handle_artwork_announce_def complete_transfer_def client_at_def pending_ok_def receiving_def)
  qed
qed

lemma client_part:
  assumes v: "client_at G v (True, Some (c, n, got))" and len: "length (got @ p) \<le> n"
    and full: "length (got @ p) = n \<Longrightarrow> (c, got @ p) \<in> G"
  shows "client_at G (handle_artwork_part due c p v) (True, if length (got @ p) = n then None else Some (c, n, got @ p))"
proof -
  obtain q where q: "dget (pending_images v) c = Some q" "pa_total q = n" "pa_received q = length got" "\<not> pa_timer q"
    "pa_discarded q \<or> pa_data q = got" and fl: "transfer_in_flight v = Some c"
    using v by (auto simp: client_at_def receiving_def)
  define q' where "q' = (let q = q\<lparr>pa_received := pa_received q + length p\<rparr> in
    if pa_discarded q \<or> \<not> reported_available v then q\<lparr>pa_discarded := True, pa_data := []\<rparr> else q\<lparr>pa_data := pa_data q @ p\<rparr>)"
  have q': "pa_total q' = n" "pa_received q' = length (got @ p)" "\<not> pa_timer q'" "pa_discarded q' \<or> pa_data q' = got @ p"
    "pa_data q' = [] \<or> pa_data q' = got @ p"
    using q by (auto simp: q'_def Let_def)
  have eq: "handle_artwork_part due c p v = complete_transfer due c q' v"
    using q fl len by (auto simp: handle_artwork_part_def q'_def Let_def)
  show ?thesis
  proof (cases "length (got @ p) = n")
    case True
    then have "genuine G c (pa_data q')" using full q'(5) by (auto simp: genuine_def)
    then show ?thesis unfolding eq using client_completed [OF v, of c q' due] q' True by simp
  next
    case False
    then have "complete_transfer due c q' v = v\<lparr>pending_images := dset c q' (pending_images v)\<rparr>"
      using q' by (simp add: complete_transfer_def Let_def)
    then show ?thesis unfolding eq using v q' False len
      by (auto simp: client_at_def pending_ok_def receiving_def)
  qed
qed

lemma sendable_announce: "3 \<ge> c \<Longrightarrow> sendable [] t \<Longrightarrow> n < 2 ^ 32 \<Longrightarrow> \<exists>bs. pack_artwork_announce c t n = Some bs"
  by (auto simp: pack_artwork_announce_def pack_B_def pack_q_def pack_I_def sendable_def artwork_message_type_def artwork_consts)

lemma receive_announce:
  assumes "c \<le> 3" "sendable [] t" "n < 2 ^ 32" "closed_with v = None"
  shows "receive_artwork due (Announce c t n) v = (if stream_active v then handle_artwork_announce due c t n v else v)"
proof -
  obtain bs where bs: "pack_artwork_announce c t n = Some bs" using sendable_announce [OF assms(1-3)] by blast
  then show ?thesis using announce_bytes [OF bs assms(1)] by (simp add: receive_artwork_def assms(4) handle_artwork_binary_def)
qed

lemma receive_part:
  assumes "c \<le> 3" "length p \<le> ARTWORK_MAX_PART_DATA_SIZE" "closed_with v = None"
  shows "receive_artwork due (Part c p) v = (if stream_active v then handle_artwork_part due c p v else v)"
  using part_bytes [OF assms(1,2)] by (simp add: receive_artwork_def assms(3) handle_artwork_binary_def)

lemma receive_cancel:
  assumes "c \<le> 3" "closed_with v = None"
  shows "receive_artwork due (Cancel c) v = (if stream_active v then discard_pending_artwork c v else v)"
  using cancel_bytes [OF assms(1)] by (simp add: receive_artwork_def assms(2) handle_artwork_binary_def)

lemma client_receives:
  assumes v: "client_at G v a" and m: "step_message G m a = Some a'"
  shows "client_at G (receive_artwork due m v) a'"
proof -
  obtain act cur where a: "a = (act, cur)" by (cases a)
  have open_: "closed_with v = None" "stream_active v = act" using v by (simp_all add: client_at_def a)
  show ?thesis
  proof (cases m)
    case (Start cs)
    then show ?thesis using m v client_started [of G v act cs] by (auto simp: a receive_artwork_def open_ split: if_splits)
  next
    case EndStream
    then show ?thesis using m v client_ended by (auto simp: a receive_artwork_def open_)
  next
    case (Announce c t n)
    then have c: "c \<le> 3" "sendable [] t" "n < 2 ^ 32" using m by (auto simp: a split: if_splits)
    have "receive_artwork due m v = (if act then handle_artwork_announce due c t n v else v)"
      using receive_announce [OF c open_(1)] open_(2) by (simp add: Announce)
    then show ?thesis using m v client_announced [of G v due c t n] by (cases cur) (auto simp: a Announce split: if_splits)
  next
    case (Part c p)
    then have c: "c \<le> 3" "length p \<le> ARTWORK_MAX_PART_DATA_SIZE" using m by (auto simp: a split: if_splits)
    have r: "receive_artwork due m v = (if act then handle_artwork_part due c p v else v)"
      using receive_part [OF c open_(1)] open_(2) by (simp add: Part)
    show ?thesis
    proof (cases act)
      case True
      with m Part c obtain n got where cur: "cur = Some (c, n, got)" "length (got @ p) \<le> n"
        by (auto simp: a split: option.splits if_splits)
      then show ?thesis using m v client_part [of G v c n got p due] True
        unfolding r by (auto simp: a Part split: if_splits)
    next
      case False
      then have "receive_artwork due m v = v" "a' = a" using r m by (auto simp: a Part split: if_splits)
      then show ?thesis using v by simp
    qed
  next
    case (Cancel c)
    then have c: "c \<le> 3" using m by (auto simp: a split: if_splits)
    have "receive_artwork due m v = (if act then discard_pending_artwork c v else v)"
      using receive_cancel [OF c open_(1)] open_(2) by (simp add: Cancel)
    then show ?thesis using m v client_discard [of G v act cur c] by (auto simp: a Cancel split: if_splits)
  next
    case (Single c t img)
    then show ?thesis using m by (simp add: a)
  qed
qed

lemma client_timer:
  assumes v: "client_at G v a" shows "client_at G (artwork_timer c v) a"
proof (cases "dget (pending_images v) c")
  case (Some p)
  show ?thesis
  proof (cases "pa_timer p")
    case True
    have "transfer_in_flight v \<noteq> Some c" using v Some True by (auto simp: client_at_def receiving_def split: option.splits)
    moreover from this have "genuine G c (pa_data p)" using v Some by (auto simp: client_at_def pending_ok_def)
    moreover have "artwork_timer c v = v\<lparr>pending_images := ddel c (pending_images v),
          shown_channels := (if pa_data p \<noteq> [] then List.insert c (shown_channels v) else removeAll c (shown_channels v)),
          shown_log := shown_log v @ [(c, pa_data p)]\<rparr>"
      using Some True by (simp add: artwork_timer_def show_artwork_def)
    ultimately show ?thesis using v
      by (auto simp: client_at_def pending_ok_def receiving_def split: option.splits)
  qed (use v Some in \<open>simp add: artwork_timer_def\<close>)
qed (use v in \<open>simp add: artwork_timer_def\<close>)

lemma client_available: "client_at G v a \<Longrightarrow> client_at G (v\<lparr>reported_available := b\<rparr>) a"
  by (auto simp: client_at_def pending_ok_def receiving_def split: option.splits)

lemma client_disconnected: "client_at G v a \<Longrightarrow> client_at G (disconnect_artwork v) (False, None)"
  by (auto simp: client_at_def disconnect_artwork_def pending_ok_def)

subsection \<open>The role, what it has queued, and the client\<close>

record artwork_link =
  sender :: artwork_role
  viewer :: artwork_client
  given :: "(nat \<times> bytes) list"

definition new_artwork_link :: artwork_link where
  "new_artwork_link = \<lparr>sender = new_artwork_role None, viewer = new_artwork_client, given = []\<rparr>"

definition deliver_artwork :: "(int \<Rightarrow> bool) \<Rightarrow> artwork_link \<Rightarrow> artwork_link" where
  "deliver_artwork due w =
     (case outbox (sender w) of
        [] \<Rightarrow> w
      | x # xs \<Rightarrow> w\<lparr>sender := (sender w)\<lparr>outbox := xs\<rparr>, viewer := receive_artwork due (snd x) (viewer w)\<rparr>)"

text \<open>The calls of the application and of the client while it is connected.\<close>

datatype artwork_call =
    SendImage nat bytes int | CancelScheduled nat | DeclareChannels "artwork_config list" | RequestFormat artwork_request
  | AvailabilityChanged bool | Deactivate

fun apply_artwork_call :: "int \<Rightarrow> artwork_call \<Rightarrow> artwork_role \<Rightarrow> artwork_role" where
  "apply_artwork_call now (SendImage c img t) r = send_artwork c img t now r"
| "apply_artwork_call now (CancelScheduled c) r = snd (cancel_scheduled_artwork c now r)"
| "apply_artwork_call now (DeclareChannels cs) r = apply_channels now cs r"
| "apply_artwork_call now (RequestFormat q) r = artwork_request_format now q r"
| "apply_artwork_call now (AvailabilityChanged b) r = artwork_availability_changed b r"
| "apply_artwork_call now Deactivate r = artwork_on_deactivate r"

text \<open>Images and timestamps fit the fields of an announce; a client declares one to four channels.\<close>

fun call_ok :: "artwork_call \<Rightarrow> bool" where
  "call_ok (SendImage c img t) = sendable img t"
| "call_ok (DeclareChannels cs) = (1 \<le> length cs \<and> length cs \<le> MAX_ARTWORK_CHANNELS)"
| "call_ok _ = True"

fun images_of :: "artwork_call \<Rightarrow> (nat \<times> bytes) list" where
  "images_of (SendImage c img t) = [(c, img)]" | "images_of _ = []"

inductive artwork_run :: "artwork_link \<Rightarrow> bool" where
  a_start: "artwork_run new_artwork_link"
| a_connect: "artwork_run w \<Longrightarrow> \<not> connected (sender w) \<Longrightarrow>
    artwork_run (w\<lparr>sender := artwork_on_connect now ((sender w)\<lparr>connected := True\<rparr>)\<rparr>)"
| a_disconnect: "artwork_run w \<Longrightarrow>
    artwork_run (w\<lparr>sender := artwork_on_disconnect (sender w), viewer := disconnect_artwork (viewer w)\<rparr>)"
| a_call: "artwork_run w \<Longrightarrow> connected (sender w) \<Longrightarrow> call_ok c \<Longrightarrow> sendable [] now \<Longrightarrow>
    artwork_run (w\<lparr>sender := apply_artwork_call now c (sender w), given := given w @ images_of c\<rparr>)"
| a_transfer: "artwork_run w \<Longrightarrow> artwork_run (w\<lparr>sender := run_transfer now now' (sender w)\<rparr>)"
| a_deliver: "artwork_run w \<Longrightarrow> artwork_run (deliver_artwork due w)"
| a_timer: "artwork_run w \<Longrightarrow> artwork_run (w\<lparr>viewer := artwork_timer c (viewer w)\<rparr>)"
| a_available: "artwork_run w \<Longrightarrow> artwork_run (w\<lparr>viewer := (viewer w)\<lparr>reported_available := b\<rparr>\<rparr>)"

text \<open>The messages that may be queued behind the announce of a transfer.\<close>

fun of_transfer :: "nat \<Rightarrow> bool \<times> artwork_message \<Rightarrow> bool" where
  "of_transfer c (ex, Announce c' t n) = (\<not> ex \<and> c' = c)"
| "of_transfer c (ex, Part c' p) = (\<not> ex \<and> c' = c)"
| "of_transfer c (ex, Cancel c') = (ex \<and> c' \<noteq> c \<and> c' \<le> 3)"
| "of_transfer c _ = False"

definition on_channel :: "nat \<Rightarrow> transfer_state \<Rightarrow> bool" where
  "on_channel c a \<longleftrightarrow> snd a = None \<or> map_option fst (snd a) = Some c"

text \<open>Where the client will be once it has everything that is queued.\<close>

definition sent_up_to :: "images \<Rightarrow> artwork_role \<Rightarrow> transfer_state \<Rightarrow> bool" where
  "sent_up_to G r a \<longleftrightarrow> fst a = art_started r \<and>
     (case in_transfer r of
        None \<Rightarrow> snd a = None
      | Some c \<Rightarrow> art_started r \<and> c \<le> 3 \<and> (\<exists>ps img. transfer r = Some (Sending c ps) \<and> genuine G c img \<and>
          (\<forall>p\<in>set ps. 0 < length p \<and> length p \<le> ARTWORK_MAX_PART_DATA_SIZE) \<and>
          (case snd a of None \<Rightarrow> ps = []
           | Some (c', n, got) \<Rightarrow> c' = c \<and> n = length img \<and> got @ concat ps = img \<and> ps \<noteq> [])))"

definition role_ok :: "images \<Rightarrow> artwork_role \<Rightarrow> bool" where
  "role_ok G r \<longleftrightarrow> hello_channels r = None \<and> length (channels r) \<le> MAX_ARTWORK_CHANNELS \<and>
     (\<forall>c\<in>set (scheduled_announced r). c \<le> 3) \<and>
     (art_queued r \<noteq> [] \<longrightarrow> art_started r) \<and> (art_started r \<longrightarrow> connected r) \<and> (\<not> connected r \<longrightarrow> outbox r = []) \<and>
     (\<forall>(c, q)\<in>set (art_queued r). c \<le> 3 \<and> q \<noteq> [] \<and> (\<forall>(img, t)\<in>set q. (c, img) \<in> G \<and> sendable img t)) \<and>
     (\<forall>c ps. transfer r = Some (Sending c ps) \<longrightarrow> in_transfer r = Some c)"

definition queued_run :: "images \<Rightarrow> artwork_client \<Rightarrow> (bool \<times> artwork_message) list \<Rightarrow> transfer_state \<Rightarrow> bool" where
  "queued_run G v ms a' \<longleftrightarrow> (\<exists>a. client_at G v a \<and> run_messages G (map snd ms) a = Some a')"

lemma queued_run_Nil: "queued_run G v [] a = client_at G v a"
  by (simp only: queued_run_def list.map run_messages.simps option.inject) blast

lemma queued_append: "queued_run G v ms a1 \<Longrightarrow> run_messages G (map snd ms') a1 = Some a2 \<Longrightarrow> queued_run G v (ms @ ms') a2"
  unfolding queued_run_def map_append run_messages_append by fastforce

definition queue_ok :: "images \<Rightarrow> artwork_role \<Rightarrow> artwork_client \<Rightarrow> bool" where
  "queue_ok G r v \<longleftrightarrow> (\<exists>pre post a1 a2. outbox r = pre @ post \<and> list_all keeps pre \<and>
     queued_run G v pre a1 \<and> run_messages G (map snd post) a1 = Some a2 \<and> sent_up_to G r a2 \<and>
     (case in_transfer r of None \<Rightarrow> post = [] | Some c \<Rightarrow> on_channel c a1 \<and> list_all (of_transfer c) post))"

definition link_ok :: "artwork_link \<Rightarrow> bool" where
  "link_ok w \<longleftrightarrow> role_ok (set (given w)) (sender w) \<and> queue_ok (set (given w)) (sender w) (viewer w)"

lemma queue_okI:
  assumes "outbox r = pre @ post" "list_all keeps pre" "queued_run G v pre a1" "run_messages G (map snd post) a1 = Some a2"
    "sent_up_to G r a2" "case in_transfer r of None \<Rightarrow> post = [] | Some c \<Rightarrow> on_channel c a1 \<and> list_all (of_transfer c) post"
  shows "queue_ok G r v"
  using assms unfolding queue_ok_def by blast

lemma keeps_cancels:
  assumes "list_all (of_transfer c) ms" "on_channel c a"
  shows "run_messages G (map snd (filter keeps ms)) a = Some a"
  using assms
proof (induction ms)
  case (Cons m ms)
  then have m: "of_transfer c m" and rest: "run_messages G (map snd (filter keeps ms)) a = Some a" by auto
  show ?case
  proof (cases "keeps m")
    case True
    then obtain c' where "m = (True, Cancel c')" "c' \<noteq> c" "c' \<le> 3"
      using m by (cases "(c, m)" rule: of_transfer.cases) (auto simp: keeps_def)
    then show ?thesis using rest True Cons.prems(2) by (cases a) (auto simp: on_channel_def)
  qed (use rest in simp)
qed simp

lemma transfer_on_channel:
  assumes "of_transfer c m" "on_channel c a" "step_message G (snd m) a = Some a'"
  shows "on_channel c a'" "fst a' = fst a"
  using assms by (cases "(c, m)" rule: of_transfer.cases; cases a; auto simp: on_channel_def split: if_splits option.splits)+

text \<open>With no transfer in flight nothing that is queued can be dropped.\<close>

definition quiet_queue :: "images \<Rightarrow> artwork_role \<Rightarrow> artwork_client \<Rightarrow> bool" where
  "quiet_queue G r v \<longleftrightarrow> in_transfer r = None \<and> list_all keeps (outbox r) \<and>
     queued_run G v (outbox r) (art_started r, None)"

lemma queue_quiet: assumes "in_transfer r = None" shows "queue_ok G r v = quiet_queue G r v"
proof
  assume "queue_ok G r v"
  then obtain pre a1 a2 where o: "outbox r = pre" "list_all keeps pre" "queued_run G v pre a1" "a1 = a2" "sent_up_to G r a2"
    using assms by (auto simp: queue_ok_def)
  moreover have "a2 = (art_started r, None)" using o(5) assms by (cases a2) (simp add: sent_up_to_def)
  ultimately show "quiet_queue G r v" using assms by (simp add: quiet_queue_def)
next
  assume q: "quiet_queue G r v"
  have "outbox r = outbox r @ [] \<and> list_all keeps (outbox r) \<and> queued_run G v (outbox r) (art_started r, None) \<and>
    run_messages G (map snd []) (art_started r, None) = Some (art_started r, None) \<and> sent_up_to G r (art_started r, None) \<and>
    (case in_transfer r of None \<Rightarrow> [] = [] | Some c \<Rightarrow> on_channel c (art_started r, None) \<and> list_all (of_transfer c) [])"
    using q assms by (simp add: quiet_queue_def sent_up_to_def)
  then show "queue_ok G r v" unfolding queue_ok_def by blast
qed

lemma quiet_put:
  assumes "quiet_queue G r v" "keeps (ex, m)" "step_message G m (art_started r, None) = Some (b, None)"
  shows "quiet_queue G ((put ex m r)\<lparr>art_started := b\<rparr>) v"
proof -
  have "queued_run G v (outbox r @ [(ex, m)]) (b, None)"
    by (rule queued_append [of _ _ _ "(art_started r, None)"]) (use assms in \<open>simp_all add: quiet_queue_def\<close>)
  then show ?thesis using assms(1,2) by (simp add: quiet_queue_def put_def)
qed

lemma fst_run:
  assumes "list_all (of_transfer c) ms" "on_channel c a" "run_messages G (map snd ms) a = Some a'"
  shows "fst a' = fst a \<and> on_channel c a'"
  using assms
proof (induction ms arbitrary: a)
  case (Cons m ms)
  then obtain b where b: "step_message G (snd m) a = Some b" "run_messages G (map snd ms) b = Some a'"
    by (auto split: option.splits)
  have "of_transfer c m" using Cons.prems(1) by simp
  from transfer_on_channel [OF this Cons.prems(2) b(1)] show ?case using Cons.IH [of b] Cons.prems(1) b(2) by simp
qed simp

lemma cancel_quiet:
  assumes "queue_ok G r v" shows "quiet_queue G (cancel_in_flight r) v"
proof (cases "in_transfer r")
  case None
  have q: "quiet_queue G r v" using assms queue_quiet [OF None] by simp
  then have "filter keeps (outbox r) = outbox r" by (simp add: quiet_queue_def filter_id_conv list_all_iff)
  then show ?thesis using q None by (simp add: cancel_in_flight_def Let_def drop_binary_def stop_transfer_task_def quiet_queue_def)
next
  case (Some c)
  obtain pre post a1 a2 where a: "outbox r = pre @ post" "list_all keeps pre" "queued_run G v pre a1"
    "list_all (of_transfer c) post" "run_messages G (map snd post) a1 = Some a2" "sent_up_to G r a2"
    "on_channel c a1"
    using assms Some unfolding queue_ok_def by force
  have c: "c \<le> 3" "fst a2 = art_started r" using a(6) Some by (auto simp: sent_up_to_def)
  have f: "fst a1 = art_started r" using fst_run [OF a(4,7,5)] c by simp
  have kept: "filter keeps pre = pre" using a(2) by (simp add: filter_id_conv list_all_iff)
  have step: "step_message G (Cancel c) a1 = Some (art_started r, None)"
    using a(7) c f a(6) Some by (cases a1) (auto simp: on_channel_def sent_up_to_def)
  have "run_messages G (map snd (filter keeps post @ [(True, Cancel c)])) a1 = Some (art_started r, None)"
    using keeps_cancels [OF a(4,7), of G] step by (simp add: run_messages_append)
  then have "queued_run G v (pre @ filter keeps post @ [(True, Cancel c)]) (art_started r, None)" by (rule queued_append [OF a(3)])
  then show ?thesis using kept Some a(1,2)
    by (auto simp: cancel_in_flight_def Let_def drop_binary_def stop_transfer_task_def put_def quiet_queue_def keeps_def list_all_iff)
qed

end
