(* ===== verification/Artwork_Agreement.thy ===== *)
theory Artwork_Agreement
  imports Artwork_Link
begin

text \<open>
  Every step of an artwork role, its connection and its client keeps their agreement, so that what the client shows
  was sent as it is shown.
\<close>

subsection \<open>Every step keeps the link in order\<close>

definition in_order :: "images \<Rightarrow> artwork_role \<Rightarrow> artwork_client \<Rightarrow> bool" where
  "in_order G r v \<longleftrightarrow> role_ok G r \<and> queue_ok G r v"

lemma sent_frame:
  assumes "art_started r' = art_started r" "in_transfer r' = in_transfer r" "transfer r' = transfer r"
  shows "sent_up_to G r' a = sent_up_to G r a"
  by (cases "in_transfer r") (simp_all add: sent_up_to_def assms)

lemma queue_frame:
  assumes "queue_ok G r v" "outbox r' = outbox r" "art_started r' = art_started r" "in_transfer r' = in_transfer r"
    and "in_transfer r = None \<or> transfer r' = transfer r"
  shows "queue_ok G r' v"
proof -
  have "sent_up_to G r' a = sent_up_to G r a" for a
    using assms(3-5) by (cases "in_transfer r") (auto simp: sent_up_to_def)
  then show ?thesis using assms(1) unfolding queue_ok_def assms(2,4) by simp
qed

lemma quiet_frame: "quiet_queue G r v \<Longrightarrow> outbox r' = outbox r \<Longrightarrow> art_started r' = art_started r \<Longrightarrow> in_transfer r' = in_transfer r
    \<Longrightarrow> quiet_queue G r' v"
  by (simp add: quiet_queue_def)

lemma put_parts [simp]:
  "outbox (put ex m r) = outbox r @ [(ex, m)]" "art_started (put ex m r) = art_started r" "in_transfer (put ex m r) = in_transfer r"
  "transfer (put ex m r) = transfer r" "art_queued (put ex m r) = art_queued r" "channels (put ex m r) = channels r"
  "connected (put ex m r) = connected r" "hello_channels (put ex m r) = hello_channels r" "available (put ex m r) = available r"
  "scheduled_announced (put ex m r) = scheduled_announced r"
  by (simp_all add: put_def)

lemma quiet_put_same:
  "quiet_queue G r v \<Longrightarrow> keeps (ex, m) \<Longrightarrow> step_message G m (art_started r, None) = Some (art_started r, None) \<Longrightarrow>
   quiet_queue G (put ex m r) v"
  by (rule quiet_frame [OF quiet_put [of G r v ex m "art_started r"]]) simp_all

lemma queue_cancel_other:
  assumes q: "queue_ok G r v" and c: "c \<le> 3" "in_transfer r \<noteq> Some c" shows "queue_ok G (put True (Cancel c) r) v"
proof (cases "in_transfer r")
  case None
  then have "quiet_queue G r v" using q by (simp add: queue_quiet)
  then have "quiet_queue G (put True (Cancel c) r) v" by (rule quiet_put_same) (use c in \<open>simp_all add: keeps_def\<close>)
  then show ?thesis using None by (simp add: queue_quiet)
next
  case (Some d)
  obtain pre post a1 a2 where a: "outbox r = pre @ post" "list_all keeps pre" "queued_run G v pre a1"
    "run_messages G (map snd post) a1 = Some a2" "sent_up_to G r a2" "on_channel d a1" "list_all (of_transfer d) post"
    using q Some unfolding queue_ok_def by force
  have "on_channel d a2" using fst_run [OF a(7,6,4)] by simp
  then have "step_message G (Cancel c) a2 = Some a2" using c Some by (cases a2) (auto simp: on_channel_def)
  then have "run_messages G (map snd (post @ [(True, Cancel c)])) a1 = Some a2" using a(4) by (simp add: run_messages_append)
  moreover have "sent_up_to G (put True (Cancel c) r) a2" using a(5) by (simp add: sent_frame [of "put True (Cancel c) r" r])
  moreover have "list_all (of_transfer d) (post @ [(True, Cancel c)])" using a(7) c Some by simp
  ultimately show ?thesis
    by (intro queue_okI [where pre = pre and post = "post @ [(True, Cancel c)]" and ?a1.0 = a1 and ?a2.0 = a2])
      (use a Some in simp_all)
qed

lemma cancel_parts [simp]:
  "art_started (cancel_in_flight r) = art_started r" "in_transfer (cancel_in_flight r) = None"
  "transfer (cancel_in_flight r) = None" "art_queued (cancel_in_flight r) = art_queued r" "channels (cancel_in_flight r) = channels r"
  "connected (cancel_in_flight r) = connected r" "hello_channels (cancel_in_flight r) = hello_channels r"
  by (auto simp: cancel_in_flight_def Let_def drop_binary_def stop_transfer_task_def split: option.split)

lemma cancel_scheduled_subset: "set (scheduled_announced (cancel_in_flight r)) \<subseteq> set (scheduled_announced r)"
  by (auto simp: cancel_in_flight_def Let_def drop_binary_def stop_transfer_task_def split: option.split)

lemma role_cancel: assumes "role_ok G r" "queue_ok G r v" shows "role_ok G (cancel_in_flight r)"
proof -
  have "outbox (cancel_in_flight r) = []" if "\<not> connected r"
  proof -
    have s: "\<not> art_started r" "outbox r = []" using assms(1) that by (auto simp: role_ok_def)
    then have "in_transfer r = None" using assms(2) by (auto simp: queue_ok_def sent_up_to_def split: option.splits)
    then show ?thesis using s by (simp add: cancel_in_flight_def Let_def drop_binary_def stop_transfer_task_def)
  qed
  moreover have "\<forall>c\<in>set (scheduled_announced (cancel_in_flight r)). c \<le> 3"
    using cancel_scheduled_subset [of r] assms(1) by (auto simp: role_ok_def)
  ultimately show ?thesis using assms(1) by (simp add: role_ok_def)
qed

lemma not_started_idle: "queue_ok G r v \<Longrightarrow> \<not> art_started r \<Longrightarrow> in_transfer r = None"
  by (auto simp: queue_ok_def sent_up_to_def split: option.splits)

lemma in_order_deliver:
  assumes "in_order G r v" "outbox r = x # xs" shows "in_order G (r\<lparr>outbox := xs\<rparr>) (receive_artwork due (snd x) v)"
proof -
  obtain pre post a1 a2 where a: "outbox r = pre @ post" "list_all keeps pre" "queued_run G v pre a1"
    "run_messages G (map snd post) a1 = Some a2" "sent_up_to G r a2"
    and t: "case in_transfer r of None \<Rightarrow> post = [] | Some c \<Rightarrow> on_channel c a1 \<and> list_all (of_transfer c) post"
    using assms(1) unfolding in_order_def queue_ok_def by blast
  have s: "sent_up_to G (r\<lparr>outbox := xs\<rparr>) a2" using a(5) by (simp add: sent_frame [of "r\<lparr>outbox := xs\<rparr>" r])
  have "queue_ok G (r\<lparr>outbox := xs\<rparr>) (receive_artwork due (snd x) v)"
  proof (cases pre)
    case (Cons y pre')
    then have x: "y = x" "xs = pre' @ post" using a(1) assms(2) by auto
    obtain a0 b where "client_at G v a0" "step_message G (snd x) a0 = Some b" "run_messages G (map snd pre') b = Some a1"
      using a(3) x(1) by (auto simp: queued_run_def Cons split: option.splits)
    then have "queued_run G (receive_artwork due (snd x) v) pre' a1" using client_receives unfolding queued_run_def by blast
    moreover have "outbox (r\<lparr>outbox := xs\<rparr>) = pre' @ post" "list_all keeps pre'" "in_transfer (r\<lparr>outbox := xs\<rparr>) = in_transfer r"
      using x a(2) by (simp_all add: Cons)
    ultimately show ?thesis using a(4) s t
      by (intro queue_okI [where pre = pre' and post = post and ?a1.0 = a1 and ?a2.0 = a2]) simp_all
  next
    case Nil
    then have post: "post = x # xs" using a(1) assms(2) by simp
    then obtain c where c: "in_transfer r = Some c" "on_channel c a1" "of_transfer c x" "list_all (of_transfer c) xs"
      using t by (cases "in_transfer r") auto
    obtain b where b: "step_message G (snd x) a1 = Some b" "run_messages G (map snd xs) b = Some a2"
      using a(4) by (auto simp: post split: option.splits)
    have "client_at G v a1" using a(3) by (simp add: queued_run_Nil Nil)
    then have "queued_run G (receive_artwork due (snd x) v) [] b" unfolding queued_run_Nil by (rule client_receives [OF _ b(1)])
    moreover have "on_channel c b" by (rule transfer_on_channel(1) [OF c(3,2) b(1)])
    moreover have "outbox (r\<lparr>outbox := xs\<rparr>) = [] @ xs" "in_transfer (r\<lparr>outbox := xs\<rparr>) = Some c" using c(1) by simp_all
    ultimately show ?thesis using b(2) s c(4)
      by (intro queue_okI [where pre = "[]" and post = xs and ?a1.0 = b and ?a2.0 = a2]) simp_all
  qed
  then show ?thesis using assms by (auto simp: in_order_def role_ok_def)
qed

text \<open>The transfer task.\<close>

lemma slices_ok: "\<forall>p\<in>set (artwork_slices img). 0 < length p \<and> length p \<le> ARTWORK_MAX_PART_DATA_SIZE"
  using slice_sizes by blast

lemma slices_Nil: "artwork_slices img = [] \<longleftrightarrow> img = []"
  by (subst artwork_slices.simps) simp

lemma queue_announce:
  assumes q: "quiet_queue G r v" and "art_started r" "c \<le> 3" "sendable img t" "(c, img) \<in> G"
  shows "queue_ok G (put False (Announce c t (length img))
    (r\<lparr>in_transfer := Some c, in_transfer_us := t, transfer := Some (Sending c (artwork_slices img)), scheduled_announced := sa, art_queued := aq\<rparr>)) v"
    (is "queue_ok G ?r v")
proof -
  define a2 where "a2 = (True, if length img = 0 then None else Some (c, length img, [] :: bytes))"
  have q': "list_all keeps (outbox r)" "queued_run G v (outbox r) (True, None)" using q assms(2) by (simp_all add: quiet_queue_def)
  show ?thesis
  proof (rule queue_okI [where pre = "outbox r" and post = "[(False, Announce c t (length img))]" and ?a1.0 = "(True, None)" and ?a2.0 = a2])
    show "run_messages G (map snd [(False, Announce c t (length img))]) (True, None) = Some a2"
      using assms(3,4) by (simp add: a2_def sendable_def)
    have g: "genuine G c img" using assms(5) by (simp add: genuine_def)
    show "sent_up_to G ?r a2" unfolding sent_up_to_def using assms(2,3) g slices_ok concat_slices slices_Nil [of img]
      by (auto simp: a2_def put_def)
  qed (use q' in \<open>simp_all add: on_channel_def\<close>)
qed

lemma sent_transfer:
  assumes "sent_up_to G r a" "in_transfer r = Some c" "transfer r = Some (Sending c ps)"
  shows "fst a \<and> art_started r \<and> c \<le> 3 \<and> (\<exists>img. genuine G c img \<and>
    (\<forall>p\<in>set ps. 0 < length p \<and> length p \<le> ARTWORK_MAX_PART_DATA_SIZE) \<and>
    (case snd a of None \<Rightarrow> ps = [] | Some (c', n, got) \<Rightarrow> c' = c \<and> n = length img \<and> got @ concat ps = img \<and> ps \<noteq> []))"
  using assms unfolding sent_up_to_def by simp

lemma queue_part:
  assumes q: "queue_ok G r v" and t: "transfer r = Some (Sending c (p # ps))" "in_transfer r = Some c" and o: "outbox r = []"
  shows "queue_ok G (put False (Part c p) (r\<lparr>transfer := Some (Sending c ps)\<rparr>)) v" (is "queue_ok G ?r v")
proof -
  obtain a where a: "client_at G v a" "sent_up_to G r a" "on_channel c a"
    using q o t(2) fst_run unfolding queue_ok_def by (force simp: queued_run_Nil)
  obtain img got where i: "art_started r" "c \<le> 3" "genuine G c img" "\<forall>x\<in>set (p # ps). 0 < length x \<and> length x \<le> ARTWORK_MAX_PART_DATA_SIZE"
    "a = (True, Some (c, length img, got))" "got @ p @ concat ps = img"
  proof -
    obtain img where img: "genuine G c img" "\<forall>x\<in>set (p # ps). 0 < length x \<and> length x \<le> ARTWORK_MAX_PART_DATA_SIZE"
      "case snd a of None \<Rightarrow> p # ps = [] | Some (c', n, got) \<Rightarrow> c' = c \<and> n = length img \<and> got @ concat (p # ps) = img \<and> p # ps \<noteq> []"
      "fst a" "art_started r" "c \<le> 3"
      using sent_transfer [OF a(2) t(2,1)] by blast
    obtain got where "snd a = Some (c, length img, got)" "got @ p @ concat ps = img"
      using img(3) by (cases "snd a") auto
    moreover from this have "a = (True, Some (c, length img, got))" using img(4) by (cases a) simp
    ultimately show thesis using that img by blast
  qed
  have nonempty: "img \<noteq> []" using i(4,6) by auto
  define a2 where "a2 = (True, if length (got @ p) = length img then None else Some (c, length img, got @ p))"
  have full: "length (got @ p) = length img \<Longrightarrow> got @ p = img \<and> ps = []"
    using i(4,6) by (cases ps) auto
  have part: "length (got @ p) \<noteq> length img \<Longrightarrow> ps \<noteq> []" using i(6) by auto
  show ?thesis
  proof (rule queue_okI [where pre = "[]" and post = "[(False, Part c p)]" and ?a1.0 = a and ?a2.0 = a2])
    show "outbox ?r = [] @ [(False, Part c p)]" using o by (simp add: put_def)
    show "queued_run G v [] a" using a(1) by (simp add: queued_run_Nil)
    have "length (got @ p) \<le> length img" using i(6) by auto
    then show "run_messages G (map snd [(False, Part c p)]) a = Some a2"
      using i(2,3,4,5) full nonempty by (auto simp: a2_def genuine_def)
    show "sent_up_to G ?r a2" unfolding sent_up_to_def using i full part t(2)
      by (auto simp: a2_def put_def)
  qed (use a(3) t(2) in \<open>simp_all\<close>)
qed

lemma queue_finished:
  assumes q: "queue_ok G r v" and t: "transfer r = Some (Sending c [])" "in_transfer r = Some c" and o: "outbox r = []"
  shows "queue_ok G (r\<lparr>in_transfer := None, transfer := tr\<rparr>) v" (is "queue_ok G ?r v")
proof -
  obtain a where a: "client_at G v a" "sent_up_to G r a"
    using q o t(2) unfolding queue_ok_def by (force simp: queued_run_Nil)
  have "snd a = None" "fst a" "art_started r" using sent_transfer [OF a(2) t(2,1)] by (cases "snd a"; auto)+
  then have "a = (art_started r, None)" by (cases a) simp
  then have "quiet_queue G ?r v" using a(1) o by (simp add: quiet_queue_def queued_run_Nil)
  then show ?thesis by (simp add: queue_quiet)
qed

lemma role_queued:
  "role_ok G r \<Longrightarrow> (c, q) \<in> set (art_queued r) \<Longrightarrow> c \<le> 3 \<and> q \<noteq> [] \<and> (\<forall>(img, t)\<in>set q. (c, img) \<in> G \<and> sendable img t)"
  unfolding role_ok_def by blast

lemma choosing_idle: "in_order G r v \<Longrightarrow> transfer r = Some Choosing \<Longrightarrow> in_transfer r = None"
  by (auto simp: in_order_def queue_ok_def sent_up_to_def split: option.splits)

lemma in_order_choose:
  assumes o: "in_order G r v" and t: "transfer r = Some Choosing" shows "in_order G (choose_transfer now now' r) v"
proof (cases "art_queued r = []")
  case True
  have "in_order G (r\<lparr>transfer := None\<rparr>) v"
    using o queue_frame [of G r v "r\<lparr>transfer := None\<rparr>"] choosing_idle [OF o t] by (auto simp: in_order_def role_ok_def)
  then show ?thesis using True by (simp add: choose_transfer_def)
next
  case False
  show ?thesis
  proof (cases "next_due now r")
    case None
    then show ?thesis using o False by (simp add: choose_transfer_def)
  next
    case (Some cq)
    obtain c q where cq: "cq = (c, q)" by (cases cq)
    have mem: "(c, q) \<in> set (art_queued r)" using Some unfolding next_due_def cq find_Some_iff by (metis nth_mem)
    have r: "role_ok G r" and qok: "queue_ok G r v" using o by (simp_all add: in_order_def)
    have c: "c \<le> 3" "q \<noteq> []" "\<forall>(img, t)\<in>set q. (c, img) \<in> G \<and> sendable img t" using role_queued [OF r mem] by blast+
    obtain img u where h: "hd q = (img, u)" by (cases "hd q")
    have hq: "(c, img) \<in> G" "sendable img u" using c(2,3) h list.set_sel(1) [of q] by auto
    have st: "art_started r" "hello_channels r = None" using r False by (simp_all add: role_ok_def)
    define aq where "aq = (if tl q = [] then ddel c (art_queued r) else dset c (tl q) (art_queued r))"
    define sa where "sa = (if now' < u then List.insert c (scheduled_announced r) else removeAll c (scheduled_announced r))"
    let ?r = "r\<lparr>in_transfer := Some c, in_transfer_us := u, transfer := Some (Sending c (artwork_slices img)), scheduled_announced := sa, art_queued := aq\<rparr>"
    have eq: "choose_transfer now now' r = put False (Announce c u (length img)) ?r"
      using False Some st(2) by (simp add: choose_transfer_def cq h uses_single_message_framing_def Let_def aq_def sa_def put_def)
    have idle: "in_transfer r = None" by (rule choosing_idle [OF o t])
    have "quiet_queue G r v" using qok idle by (simp add: queue_quiet)
    then have q': "queue_ok G (choose_transfer now now' r) v" unfolding eq by (rule queue_announce [OF _ st(1) c(1) hq(2,1)])
    have "\<forall>(c', q')\<in>set aq. c' \<le> 3 \<and> q' \<noteq> [] \<and> (\<forall>(img, t)\<in>set q'. (c', img) \<in> G \<and> sendable img t)"
    proof (clarify)
      fix c' q' assume "(c', q') \<in> set aq"
      then have "(c', q') \<in> set (art_queued r) \<or> (c' = c \<and> q' = tl q \<and> tl q \<noteq> [])"
        using subsetD [OF set_dset_subset [of c "tl q" "art_queued r"]] by (auto simp: aq_def set_ddel split: if_splits)
      then show "c' \<le> 3 \<and> q' \<noteq> [] \<and> (\<forall>(img, t)\<in>set q'. (c', img) \<in> G \<and> sendable img t)"
      proof (elim disjE conjE)
        assume "c' = c" "q' = tl q" "tl q \<noteq> []"
        then show ?thesis using c list.set_sel(2) [of q] by auto
      qed (rule role_queued [OF r])
    qed
    moreover have "\<forall>c\<in>set sa. c \<le> 3" using r c(1) by (auto simp: sa_def role_ok_def)
    ultimately have "role_ok G (choose_transfer now now' r)" using r st(1) unfolding eq by (simp add: role_ok_def)
    then show ?thesis using q' by (simp add: in_order_def)
  qed
qed

lemma in_order_transfer:
  assumes o: "in_order G r v" shows "in_order G (run_transfer now now' r) v"
proof (cases "transfer r")
  case (Some tk)
  show ?thesis
  proof (cases tk)
    case Choosing
    then show ?thesis using in_order_choose [OF o] Some by (simp add: run_transfer_def)
  next
    case (Sending c ps)
    then have t: "transfer r = Some (Sending c ps)" "in_transfer r = Some c" using o Some by (auto simp: in_order_def role_ok_def)
    have r: "role_ok G r" "queue_ok G r v" using o by (simp_all add: in_order_def)
    have st: "connected r" using r t(2) not_started_idle [OF r(2)] by (auto simp: role_ok_def)
    show ?thesis
    proof (cases "outbox r = []")
      case True
      show ?thesis
      proof (cases ps)
        case Nil
        then have "queue_ok G (run_transfer now now' r) v" using queue_finished [OF r(2) _ t(2) True] t(1) True by (simp add: run_transfer_def)
        moreover have "role_ok G (run_transfer now now' r)" using r(1) t(1) Nil True by (simp add: run_transfer_def role_ok_def)
        ultimately show ?thesis by (simp add: in_order_def)
      next
        case (Cons p ps')
        have eq: "run_transfer now now' r = put False (Part c p) (r\<lparr>transfer := Some (Sending c ps')\<rparr>)"
          using t(1) True by (simp add: run_transfer_def Cons)
        have "queue_ok G (run_transfer now now' r) v" unfolding eq using queue_part [OF r(2) _ t(2) True] t(1) Cons by simp
        moreover have "role_ok G (run_transfer now now' r)" unfolding eq using r(1) t(2) st by (simp add: role_ok_def)
        ultimately show ?thesis by (simp add: in_order_def)
      qed
    qed (use o t in \<open>simp add: run_transfer_def\<close>)
  qed
qed (use o in \<open>simp add: run_transfer_def\<close>)

subsection \<open>The calls\<close>

lemma in_order_quiet: "role_ok G r \<Longrightarrow> quiet_queue G r v \<Longrightarrow> in_order G r v"
  by (simp add: in_order_def queue_quiet) (simp add: queue_quiet quiet_queue_def)

lemma in_order_start:
  assumes "role_ok G r" "quiet_queue G r v" "connected r" shows "in_order G (start_artwork_stream r) v"
proof (rule in_order_quiet)
  have "quiet_queue G ((put False (Start cs) r)\<lparr>art_started := True\<rparr>) v" for cs
    by (rule quiet_put [OF assms(2)]) (simp_all add: keeps_def)
  then show "quiet_queue G (start_artwork_stream r) v"
    unfolding start_artwork_stream_def send_artwork_start_def Let_def by (rule quiet_frame) simp_all
  show "role_ok G (start_artwork_stream r)"
    using assms(1,3) by (simp add: start_artwork_stream_def send_artwork_start_def Let_def role_ok_def)
qed

lemma in_order_end:
  assumes o: "in_order G r v" shows "in_order G (end_stream r) v"
proof (cases "art_started r")
  case True
  have r: "role_ok G r" "queue_ok G r v" using o by (simp_all add: in_order_def)
  have q: "quiet_queue G (cancel_in_flight r) v" by (rule cancel_quiet [OF r(2)])
  show ?thesis
  proof (rule in_order_quiet)
    have "quiet_queue G ((put False EndStream (cancel_in_flight r))\<lparr>art_started := False\<rparr>) v"
      by (rule quiet_put [OF q]) (simp_all add: keeps_def)
    then show "quiet_queue G (end_stream r) v" by (rule quiet_frame) (simp_all add: end_stream_def True)
    show "role_ok G (end_stream r)" using role_cancel [OF r] r(1) True by (simp add: end_stream_def role_ok_def)
  qed
qed (use o in \<open>simp add: end_stream_def\<close>)

lemma clears_quiet:
  assumes "quiet_queue G r v" "art_started r" "length news \<le> 4" "sendable [] now" "hello_channels r = None"
    and "w = clear_dropped now olds news r"
  shows "quiet_queue G w v \<and> art_started w \<and> hello_channels w = None \<and> connected w = connected r \<and> channels w = channels r \<and>
    art_queued w = art_queued r \<and> scheduled_announced w = scheduled_announced r \<and> transfer w = transfer r"
proof -
  have "quiet_queue G w v \<and> art_started w \<and> hello_channels w = None \<and> connected w = connected r \<and> channels w = channels r \<and>
    art_queued w = art_queued r \<and> scheduled_announced w = scheduled_announced r \<and> transfer w = transfer r"
    if "w = foldl (\<lambda>r c. if ac_source (news ! c) = NO_SOURCE \<and> olds ! c \<noteq> news ! c then send_clear_now c now r else r) r cs"
      "\<forall>c\<in>set cs. c < 4" "quiet_queue G r v" "art_started r" "hello_channels r = None" for cs r w
    using that
  proof (induction cs arbitrary: r w)
    case (Cons c cs)
    let ?r = "if ac_source (news ! c) = NO_SOURCE \<and> olds ! c \<noteq> news ! c then send_clear_now c now r else r"
    have "quiet_queue G (put True (Announce c now 0) r) v"
      by (rule quiet_put_same [OF Cons.prems(3)]) (use Cons.prems(2,4) assms(4) in \<open>simp_all add: keeps_def\<close>)
    then have "quiet_queue G ?r v" "art_started ?r" "hello_channels ?r = None"
      "connected ?r = connected r" "channels ?r = channels r" "art_queued ?r = art_queued r"
      "scheduled_announced ?r = scheduled_announced r" "transfer ?r = transfer r"
      using Cons.prems(3-5) by (simp_all add: send_clear_now_def uses_single_message_framing_def)
    then show ?case using Cons.IH [of w ?r] Cons.prems(1,2) by simp
  qed simp
  then show ?thesis using assms by (simp add: clear_dropped_def)
qed

lemma length_stream_configs: "length cs \<le> MAX_ARTWORK_CHANNELS \<Longrightarrow> length (stream_configs cs) = 4"
  by (simp add: stream_configs_def MAX_ARTWORK_CHANNELS_def)

lemma in_order_channels:
  assumes o: "in_order G r v" and cs: "length cs \<le> MAX_ARTWORK_CHANNELS" and conn: "connected r" and now: "sendable [] now"
  shows "in_order G (apply_channels now cs r) v"
proof -
  have r: "role_ok G r" "queue_ok G r v" using o by (simp_all add: in_order_def)
  have keep: "in_order G (r\<lparr>channels := cs\<rparr>) v"
    using r cs queue_frame [of G r v "r\<lparr>channels := cs\<rparr>"] by (simp add: in_order_def role_ok_def)
  have fresh: "in_order G (start_artwork_stream (r\<lparr>channels := cs\<rparr>)) v" if "\<not> art_started r"
  proof (rule in_order_start)
    have "quiet_queue G r v" using r(2) not_started_idle [OF r(2) that] by (simp add: queue_quiet)
    then show "quiet_queue G (r\<lparr>channels := cs\<rparr>) v" by (rule quiet_frame) simp_all
  qed (use keep conn in \<open>simp_all add: in_order_def\<close>)
  have again: "in_order G (start_artwork_stream ((clear_dropped now (stream_configs (channels r)) (stream_configs cs)
      ((cancel_in_flight r)\<lparr>art_queued := []\<rparr>))\<lparr>channels := cs\<rparr>)) v" if st: "art_started r"
  proof (rule in_order_start)
    define c where "c = (cancel_in_flight r)\<lparr>art_queued := []\<rparr>"
    define w where "w = clear_dropped now (stream_configs (channels r)) (stream_configs cs) c"
    have c: "art_started c" "hello_channels c = None" "connected c" "scheduled_announced c = scheduled_announced (cancel_in_flight r)"
      "art_queued c = []" "transfer c = None"
      using st r(1) conn by (simp_all add: c_def role_ok_def)
    have "quiet_queue G c v" unfolding c_def by (rule quiet_frame [OF cancel_quiet [OF r(2)]]) simp_all
    then have w: "quiet_queue G w v \<and> art_started w \<and> hello_channels w = None \<and> connected w = connected c \<and> channels w = channels c \<and>
      art_queued w = art_queued c \<and> scheduled_announced w = scheduled_announced c \<and> transfer w = transfer c"
      by (rule clears_quiet [OF _ c(1) _ now c(2) w_def]) (use length_stream_configs [OF cs] in simp)
    have sched: "\<forall>d\<in>set (scheduled_announced w). d \<le> 3" using w c(4) role_cancel [OF r] by (simp add: role_ok_def)
    have "quiet_queue G (w\<lparr>channels := cs\<rparr>) v" by (rule quiet_frame [of G w]) (use w in simp_all)
    then show "quiet_queue G ((clear_dropped now (stream_configs (channels r)) (stream_configs cs) ((cancel_in_flight r)\<lparr>art_queued := []\<rparr>))\<lparr>channels := cs\<rparr>) v"
      by (simp only: w_def c_def)
    have "connected (w\<lparr>channels := cs\<rparr>)" using w c(3) by simp
    then show "connected ((clear_dropped now (stream_configs (channels r)) (stream_configs cs) ((cancel_in_flight r)\<lparr>art_queued := []\<rparr>))\<lparr>channels := cs\<rparr>)"
      by (simp only: w_def c_def)
    have "role_ok G (w\<lparr>channels := cs\<rparr>)" using w c sched cs by (simp add: role_ok_def)
    then show "role_ok G ((clear_dropped now (stream_configs (channels r)) (stream_configs cs) ((cancel_in_flight r)\<lparr>art_queued := []\<rparr>))\<lparr>channels := cs\<rparr>)"
      by (simp only: w_def c_def)
  qed
  show ?thesis using keep fresh again by (simp add: apply_channels_def Let_def)
qed

definition entries_ok :: "images \<Rightarrow> nat \<Rightarrow> (bytes \<times> int) list \<Rightarrow> bool" where
  "entries_ok G c q \<longleftrightarrow> (\<forall>(img, t)\<in>set q. (c, img) \<in> G \<and> sendable img t)"

lemma case_last: "set (case xs of [] \<Rightarrow> [] | x # ys \<Rightarrow> [last (x # ys)]) \<subseteq> set xs"
proof (cases xs)
  case (Cons x ys)
  then show ?thesis using last_in_set [of "x # ys"] by (simp del: last.simps)
qed simp

lemma current_entries: "role_ok G r \<Longrightarrow> entries_ok G c (current_queued c now r)"
proof -
  assume r: "role_ok G r"
  define q where "q = (case dget (art_queued r) c of None \<Rightarrow> [] | Some q \<Rightarrow> q)"
  have "entries_ok G c q"
  proof (cases "dget (art_queued r) c")
    case (Some x)
    then show ?thesis using role_queued [OF r map_of_SomeD [OF Some]] by (simp add: q_def entries_ok_def)
  qed (simp add: q_def entries_ok_def)
  moreover have "set (current_queued c now r) \<subseteq> set q"
    unfolding current_queued_def q_def [symmetric]
    by (rule subset_trans [OF case_last]) auto
  ultimately show ?thesis by (auto simp: entries_ok_def)
qed

lemma role_requeue:
  assumes r: "role_ok G r" and "c \<le> 3" "q \<noteq> []" "entries_ok G c q" "art_started r"
    and "set d \<subseteq> insert (c, q) (set (art_queued r))"
  shows "role_ok G (r\<lparr>art_queued := d\<rparr>)"
proof -
  have "\<forall>(c', q')\<in>set d. c' \<le> 3 \<and> q' \<noteq> [] \<and> (\<forall>(img, t)\<in>set q'. (c', img) \<in> G \<and> sendable img t)"
  proof (clarify)
    fix c' q' assume "(c', q') \<in> set d"
    then have "(c', q') \<in> set (art_queued r) \<or> (c' = c \<and> q' = q)" using assms(6) by blast
    then show "c' \<le> 3 \<and> q' \<noteq> [] \<and> (\<forall>(img, t)\<in>set q'. (c', img) \<in> G \<and> sendable img t)"
    proof (elim disjE conjE)
      assume "c' = c" "q' = q"
      then show ?thesis using assms(2-4) unfolding entries_ok_def by blast
    qed (rule role_queued [OF r])
  qed
  then show ?thesis using r assms(5) by (simp add: role_ok_def)
qed

lemma in_order_queue: "in_order G r v \<Longrightarrow> role_ok G (r\<lparr>art_queued := d\<rparr>) \<Longrightarrow> in_order G (r\<lparr>art_queued := d\<rparr>) v"
  using queue_frame [of G r v "r\<lparr>art_queued := d\<rparr>"] by (simp add: in_order_def)

lemma in_order_start_transfers:
  assumes "in_order G r v" shows "in_order G (start_transfers r) v"
proof (cases "transfer r = None")
  case True
  have "in_transfer r = None"
    using assms True by (auto simp: in_order_def queue_ok_def sent_up_to_def split: option.splits)
  then have "queue_ok G (start_transfers r) v"
    using assms True by - (rule queue_frame [of G r v]; simp add: in_order_def start_transfers_def)
  then show ?thesis using assms True by (simp add: in_order_def start_transfers_def role_ok_def)
qed (use assms in \<open>auto simp: start_transfers_def\<close>)

lemma in_order_discard:
  assumes o: "in_order G r v" and "connected r"
  shows "in_order G (snd (discard_client_scheduled c now keep r)) v \<and>
    art_queued (snd (discard_client_scheduled c now keep r)) = art_queued r \<and>
    art_started (snd (discard_client_scheduled c now keep r)) = art_started r"
proof -
  have r: "role_ok G r" "queue_ok G r v" using o by (simp_all add: in_order_def)
  have a: "in_order G (cancel_in_flight r) v" using in_order_quiet [OF role_cancel [OF r] cancel_quiet [OF r(2)]] .
  have b: "in_order G (put True (Cancel c) (r\<lparr>scheduled_announced := removeAll c (scheduled_announced r)\<rparr>)) v"
    if "in_transfer r \<noteq> Some c" "c \<in> set (scheduled_announced r)"
  proof -
    let ?r = "r\<lparr>scheduled_announced := removeAll c (scheduled_announced r)\<rparr>"
    have c: "c \<le> 3" using r(1) that(2) by (simp add: role_ok_def)
    have "queue_ok G ?r v" by (rule queue_frame [OF r(2)]) simp_all
    then have "queue_ok G (put True (Cancel c) ?r) v" by (rule queue_cancel_other [OF _ c]) (use that(1) in simp)
    moreover have "role_ok G (put True (Cancel c) ?r)" using r(1) assms(2) by (auto simp: role_ok_def)
    ultimately show ?thesis by (simp add: in_order_def)
  qed
  show ?thesis using a b o by (simp add: discard_client_scheduled_def)
qed

lemma streamed_channel: "role_ok G r \<Longrightarrow> get_channel_config r c \<noteq> None \<Longrightarrow> c \<le> 3 \<and> art_started r"
  by (auto simp: get_channel_config_def role_ok_def MAX_ARTWORK_CHANNELS_def split: if_splits)

lemma not_single: "role_ok G r \<Longrightarrow> \<not> uses_single_message_framing r"
  by (simp add: role_ok_def uses_single_message_framing_def)

lemma in_order_send:
  assumes o: "in_order G r v" and conn: "connected r" and "sendable img t" "(c, img) \<in> G"
  shows "in_order G (send_artwork c img t now r) v"
proof (cases "get_channel_config r c = None")
  case True
  then show ?thesis using o by (simp add: send_artwork_def)
next
  case False
  have r: "role_ok G r" using o by (simp add: in_order_def)
  have c: "c \<le> 3" "art_started r" using streamed_channel [OF r False] by simp_all
  define q where "q = (if now < t then current_queued c now r else []) @ [(img, t)]"
  have q: "q \<noteq> []" "entries_ok G c q" using current_entries [OF r, of c now] assms(3,4) by (auto simp: q_def entries_ok_def)
  obtain b w where d: "discard_client_scheduled c now (now < t) r = (b, w)" by (cases "discard_client_scheduled c now (now < t) r")
  have w: "in_order G w v" "art_queued w = art_queued r" "art_started w"
    using in_order_discard [OF o conn, of c now "now < t"] c by (simp_all add: d)
  define aq where "aq = (if b then (c, q) # ddel c (art_queued w) else dset c q (art_queued w))"
  have "set aq \<subseteq> insert (c, q) (set (art_queued w))"
    using set_dset_subset [of c q "art_queued w"] by (auto simp: aq_def set_ddel)
  then have "role_ok G (w\<lparr>art_queued := aq\<rparr>)" using w by (intro role_requeue [OF _ c(1) q]) (simp_all add: in_order_def)
  then have "in_order G (start_transfers (w\<lparr>art_queued := aq\<rparr>)) v"
    by (intro in_order_start_transfers in_order_queue [OF w(1)])
  moreover have "send_artwork c img t now r = start_transfers (w\<lparr>art_queued := aq\<rparr>)"
    unfolding send_artwork_def Let_def q_def [symmetric] d aq_def using False conn not_single [OF r] by auto
  ultimately show ?thesis by simp
qed

lemma in_order_cancel_scheduled:
  assumes o: "in_order G r v" and conn: "connected r" shows "in_order G (snd (cancel_scheduled_artwork c now r)) v"
proof (cases "get_channel_config r c = None")
  case True
  then show ?thesis using o by (simp add: cancel_scheduled_artwork_def)
next
  case False
  have r: "role_ok G r" using o by (simp add: in_order_def)
  have c: "c \<le> 3" "art_started r" using streamed_channel [OF r False] by simp_all
  define aq where "aq = (case current_queued c now r of [] \<Rightarrow> ddel c (art_queued r) | q \<Rightarrow> dset c q (art_queued r))"
  have "role_ok G (r\<lparr>art_queued := aq\<rparr>)"
  proof (cases "current_queued c now r")
    case Nil
    then have "set aq \<subseteq> set (art_queued r)" by (auto simp: aq_def set_ddel)
    then show ?thesis using r unfolding role_ok_def by (auto split: prod.splits)
  next
    case (Cons x q)
    then show ?thesis using role_requeue [OF r c(1), of "x # q" aq] current_entries [OF r, of c now] c(2)
        set_dset_subset [of c "x # q" "art_queued r"] by (simp add: aq_def)
  qed
  then have o': "in_order G (r\<lparr>art_queued := aq\<rparr>) v" by (rule in_order_queue [OF o])
  obtain b w where d: "discard_client_scheduled c now True (r\<lparr>art_queued := aq\<rparr>) = (b, w)"
    by (cases "discard_client_scheduled c now True (r\<lparr>art_queued := aq\<rparr>)")
  have "in_order G w v" using in_order_discard [OF o', of c now True] conn by (simp add: d)
  moreover have "snd (cancel_scheduled_artwork c now r) = (if b then start_transfers w else w)"
    unfolding cancel_scheduled_artwork_def Let_def aq_def [symmetric] d using False conn not_single [OF r] by auto
  ultimately show ?thesis using in_order_start_transfers by simp
qed

lemma in_order_flag: "in_order G r v \<Longrightarrow> in_order G (flag_if b r) v"
  using queue_frame [of G r v "flag_if b r"] by (simp add: in_order_def role_ok_def flag_if_def)

lemma flag_parts [simp]: "connected (flag_if b r) = connected r" "channels (flag_if b r) = channels r"
  by (simp_all add: flag_if_def)

lemma in_order_request:
  assumes o: "in_order G r v" and "connected r" "sendable [] now" shows "in_order G (artwork_request_format now q r) v"
proof -
  have "length ((channels r)[n := c]) \<le> MAX_ARTWORK_CHANNELS" for n c using o by (simp add: in_order_def role_ok_def)
  then show ?thesis using assms
    by (auto simp: artwork_request_format_def Let_def intro!: in_order_flag in_order_channels)
qed

lemma in_order_available:
  assumes o: "in_order G r v" and conn: "connected r" shows "in_order G (artwork_availability_changed b r) v"
proof -
  let ?r = "r\<lparr>available := b\<rparr>"
  have a: "in_order G ?r v" using o queue_frame [of G r v ?r] by (simp add: in_order_def role_ok_def)
  have "in_order G (start_artwork_stream ?r) v" if "\<not> art_started r"
  proof (rule in_order_start)
    have q: "queue_ok G ?r v" using a by (simp add: in_order_def)
    then have "in_transfer ?r = None" by (rule not_started_idle) (use that in simp)
    then show "quiet_queue G ?r v" using q by (simp add: queue_quiet)
  qed (use a conn in \<open>simp_all add: in_order_def\<close>)
  then show ?thesis using a in_order_end [OF a] unfolding artwork_availability_changed_def Let_def by auto
qed

lemma in_order_deactivate:
  assumes o: "in_order G r v" shows "in_order G (artwork_on_deactivate r) v"
proof -
  have e: "in_order G (end_stream r) v" by (rule in_order_end [OF o])
  have st: "\<not> art_started (end_stream r)" by (simp add: end_stream_def)
  have qe: "queue_ok G (end_stream r) v" using e by (simp add: in_order_def)
  have q: "quiet_queue G (end_stream r) v"
    using qe queue_quiet [OF not_started_idle [OF qe st]] by simp
  show ?thesis unfolding artwork_on_deactivate_def
  proof (rule in_order_quiet)
    show "quiet_queue G (reset_stream (end_stream r)) v"
      by (rule quiet_frame [OF q]) (use st q in \<open>simp_all add: reset_stream_def stop_transfer_task_def quiet_queue_def\<close>)
    show "role_ok G (reset_stream (end_stream r))"
      using e by (simp add: in_order_def role_ok_def reset_stream_def stop_transfer_task_def)
  qed
qed

lemma in_order_call:
  assumes "in_order G r v" "connected r" "call_ok c" "sendable [] now" "set (images_of c) \<subseteq> G"
  shows "in_order G (apply_artwork_call now c r) v"
  using assms by (cases c) (simp_all add: in_order_send in_order_cancel_scheduled in_order_channels in_order_request in_order_available in_order_deactivate)

lemma in_order_mono:
  assumes o: "in_order G r v" and "G \<subseteq> G'" shows "in_order G' r v"
proof -
  have r: "role_ok G' r" using o assms(2) unfolding in_order_def role_ok_def by fast
  obtain pre post a1 a2 where a: "outbox r = pre @ post" "list_all keeps pre" "queued_run G v pre a1"
    "run_messages G (map snd post) a1 = Some a2" "sent_up_to G r a2"
    and t: "case in_transfer r of None \<Rightarrow> post = [] | Some c \<Rightarrow> on_channel c a1 \<and> list_all (of_transfer c) post"
    using o unfolding in_order_def queue_ok_def by blast
  have "queued_run G' v pre a1" using a(3) client_at_mono [OF _ assms(2)] run_messages_mono [OF _ assms(2)] unfolding queued_run_def by blast
  moreover have "run_messages G' (map snd post) a1 = Some a2" using run_messages_mono [OF a(4) assms(2)] .
  moreover have "sent_up_to G' r a2"
    using a(5) genuine_mono [OF _ assms(2)] unfolding sent_up_to_def by (auto split: option.splits) blast+
  ultimately have "queue_ok G' r v" using a(1,2) t by (intro queue_okI)
  then show ?thesis using r by (simp add: in_order_def)
qed

lemma in_order_connect:
  "in_order G r v \<Longrightarrow> in_order G (artwork_on_connect now (r\<lparr>connected := True\<rparr>)) v"
  using queue_frame [of G r v "r\<lparr>connected := True\<rparr>"]
  by (simp add: in_order_def artwork_on_connect_def role_ok_def)

lemma in_order_disconnect:
  assumes o: "in_order G r v" shows "in_order G (artwork_on_disconnect r) (disconnect_artwork v)"
proof -
  obtain a where "client_at G v a" using o unfolding in_order_def queue_ok_def queued_run_def by blast
  then have c: "client_at G (disconnect_artwork v) (False, None)" by (rule client_disconnected)
  show ?thesis
  proof (rule in_order_quiet)
    show "quiet_queue G (artwork_on_disconnect r) (disconnect_artwork v)"
      using c by (simp add: artwork_on_disconnect_def reset_stream_def quiet_queue_def queued_run_Nil)
    show "role_ok G (artwork_on_disconnect r)"
      using o by (simp add: artwork_on_disconnect_def reset_stream_def stop_transfer_task_def in_order_def role_ok_def)
  qed
qed

lemma in_order_viewer:
  assumes o: "in_order G r v" and "\<And>a. client_at G v a \<Longrightarrow> client_at G v' a" shows "in_order G r v'"
proof -
  have "queued_run G v ms a \<Longrightarrow> queued_run G v' ms a" for ms a using assms(2) unfolding queued_run_def by blast
  then show ?thesis using o unfolding in_order_def queue_ok_def by blast
qed

lemma in_order_new: "in_order {} (new_artwork_role None) new_artwork_client"
proof (rule in_order_quiet)
  show "role_ok {} (new_artwork_role None)" by (simp add: role_ok_def new_artwork_role_def)
  have "client_at {} new_artwork_client (False, None)" by (simp add: client_at_def new_artwork_client_def pending_ok_def)
  then show "quiet_queue {} (new_artwork_role None) new_artwork_client"
    by (simp add: quiet_queue_def queued_run_Nil new_artwork_role_def)
qed

lemma artwork_run_in_order: "artwork_run w \<Longrightarrow> in_order (set (given w)) (sender w) (viewer w)"
proof (induction rule: artwork_run.induct)
  case a_start
  then show ?case using in_order_new by (simp add: new_artwork_link_def)
next
  case (a_connect w now)
  then show ?case by (simp add: in_order_connect)
next
  case (a_disconnect w)
  then show ?case by (simp add: in_order_disconnect)
next
  case (a_call w c now)
  have "in_order (set (given w @ images_of c)) (sender w) (viewer w)" by (rule in_order_mono [OF a_call.IH]) simp
  from in_order_call [OF this a_call.hyps(2-4)] show ?case by simp
next
  case (a_transfer w now now')
  then show ?case by (simp add: in_order_transfer)
next
  case (a_deliver w due)
  then show ?case by (auto simp: deliver_artwork_def in_order_deliver split: list.split)
next
  case (a_timer w c)
  then show ?case using in_order_viewer client_timer by simp
next
  case (a_available w b)
  then show ?case using in_order_viewer client_available by simp
qed

text \<open>C20. Artwork arrives whole or not at all. However images are set and cancelled, channels are declared again,
  availability changes, transfers are cut off half way and messages are dropped, the client never finds the
  server violating the transfer protocol, and every image it shows is one that was sent for that channel (or
  a clear): never a truncated one, never parts of two.\<close>

theorem artwork_arrives_whole:
  assumes "artwork_run w"
  shows "closed_with (viewer w) = None \<and> list_all (\<lambda>(c, img). img = [] \<or> (c, img) \<in> set (given w)) (shown_log (viewer w))"
proof -
  obtain a where "client_at (set (given w)) (viewer w) a"
    using artwork_run_in_order [OF assms] unfolding in_order_def queue_ok_def queued_run_def by blast
  then show ?thesis by (auto simp: client_at_def list_all_iff genuine_def)
qed

text \<open>A first image is cut off by a second one after its announce, and the second is shown.\<close>

definition demo_art_channel :: artwork_config where
  "demo_art_channel = \<lparr>ac_source = ALBUM, ac_format = Some JPEG, ac_width = Some 64, ac_height = Some 64\<rparr>"

definition demo_art_call :: "artwork_call \<Rightarrow> artwork_link \<Rightarrow> artwork_link" where
  "demo_art_call c w = w\<lparr>sender := apply_artwork_call 100 c (sender w), given := given w @ images_of c\<rparr>"

definition demo_art_turn :: "artwork_link \<Rightarrow> artwork_link" where
  "demo_art_turn w = w\<lparr>sender := run_transfer 100 100 (sender w)\<rparr>"

definition demo_art_get :: "artwork_link \<Rightarrow> artwork_link" where
  "demo_art_get w = deliver_artwork (\<lambda>t. t \<le> 100) w"

definition demo_cut_off :: artwork_link where
  "demo_cut_off = demo_art_get (demo_art_turn (demo_art_get (demo_art_call (SendImage 0 [1, 2, 3] 100)
     (demo_art_call (DeclareChannels [demo_art_channel])
       (new_artwork_link\<lparr>sender := artwork_on_connect 0 ((sender new_artwork_link)\<lparr>connected := True\<rparr>)\<rparr>)))))"

definition demo_art :: artwork_link where
  "demo_art = demo_art_get (demo_art_turn (demo_art_get (demo_art_turn (demo_art_get (demo_art_call (SendImage 0 [4, 5] 50) demo_cut_off)))))"

lemma short_slice: "img \<noteq> [] \<Longrightarrow> length img \<le> ARTWORK_MAX_PART_DATA_SIZE \<Longrightarrow> artwork_slices img = [img]"
  by (subst artwork_slices.simps) (simp add: artwork_slices.simps [of "[]"])

lemma demo_cut_off_eq:
  "demo_cut_off = \<lparr>sender = (new_artwork_role None)\<lparr>connected := True, art_started := True, channels := [demo_art_channel],
      in_transfer := Some 0, in_transfer_us := 100, transfer := Some (Sending 0 [[1, 2, 3]]), replays_wanted := 1\<rparr>,
    viewer = new_artwork_client\<lparr>stream_active := True, stream_config := Some [demo_art_channel], transfer_in_flight := Some 0,
      pending_images := [(0, \<lparr>pa_timestamp = 100, pa_total = 3, pa_data = [], pa_received = 0, pa_discarded = False, pa_timer = False\<rparr>)]\<rparr>,
    given = [(0, [1, 2, 3])]\<rparr>"
  by (simp add: demo_cut_off_def demo_art_get_def demo_art_turn_def demo_art_call_def demo_art_channel_def deliver_artwork_def
      new_artwork_link_def new_artwork_role_def new_artwork_client_def artwork_on_connect_def apply_channels_def stream_configs_def MAX_ARTWORK_CHANNELS_def
      numeral_3_eq_3 start_artwork_stream_def send_artwork_start_def Let_def put_def no_artwork_def send_artwork_def get_channel_config_def
      uses_single_message_framing_def discard_client_scheduled_def start_transfers_def run_transfer_def choose_transfer_def next_due_def
      announce_lead_us_def MAX_ANNOUNCE_LEAD_US_def short_slice artwork_consts receive_announce sendable_def
      receive_artwork_def [of _ "Start _"] artwork_stream_start_def handle_artwork_announce_def complete_transfer_def discard_pending_artwork_def)

lemma demo_art_run: "artwork_run demo_art"
proof -
  have c: "artwork_run w \<Longrightarrow> connected (sender w) \<Longrightarrow> call_ok x \<Longrightarrow> artwork_run (demo_art_call x w)" for w x
    unfolding demo_art_call_def by (rule a_call) (simp_all add: sendable_def)
  have t: "artwork_run w \<Longrightarrow> artwork_run (demo_art_turn w)" for w unfolding demo_art_turn_def by (rule a_transfer)
  have g: "artwork_run w \<Longrightarrow> artwork_run (demo_art_get w)" for w unfolding demo_art_get_def by (rule a_deliver)
  have n: "artwork_run (new_artwork_link\<lparr>sender := artwork_on_connect 0 ((sender new_artwork_link)\<lparr>connected := True\<rparr>)\<rparr>)" (is "artwork_run ?n")
    by (rule a_connect [OF a_start]) (simp add: new_artwork_link_def new_artwork_role_def)
  have conn: "connected (sender ?n)" by (simp add: artwork_on_connect_def new_artwork_link_def new_artwork_role_def)
  have d: "artwork_run (demo_art_call (DeclareChannels [demo_art_channel]) ?n)"
    by (rule c [OF n conn]) (simp add: MAX_ARTWORK_CHANNELS_def)
  have conn': "connected (sender (demo_art_call (DeclareChannels [demo_art_channel]) ?n))"
    by (simp add: demo_art_call_def new_artwork_link_def new_artwork_role_def artwork_on_connect_def apply_channels_def Let_def
        start_artwork_stream_def send_artwork_start_def)
  have cut: "artwork_run demo_cut_off" unfolding demo_cut_off_def
    by (rule g, rule t, rule g, rule c [OF d conn']) (simp add: sendable_def)
  show ?thesis unfolding demo_art_def
    by (rule g, rule t, rule g, rule t, rule g, rule c [OF cut]) (simp_all add: demo_cut_off_eq sendable_def)
qed

theorem artwork_arrives_whole_witness:
  "closed_with (viewer demo_art) = None \<and> shown_log (viewer demo_art) = [(0, [4, 5])] \<and> given demo_art = [(0, [1, 2, 3]), (0, [4, 5])]"
proof -
  have "shown_log (viewer demo_art) = [(0, [4, 5])] \<and> given demo_art = [(0, [1, 2, 3]), (0, [4, 5])]"
    by (simp add: demo_art_def demo_cut_off_eq demo_art_get_def demo_art_turn_def demo_art_call_def demo_art_channel_def deliver_artwork_def
      new_artwork_role_def new_artwork_client_def Let_def put_def send_artwork_def get_channel_config_def
      uses_single_message_framing_def discard_client_scheduled_def cancel_in_flight_def stop_transfer_task_def drop_binary_def
      start_transfers_def run_transfer_def choose_transfer_def next_due_def
      announce_lead_us_def MAX_ANNOUNCE_LEAD_US_def short_slice artwork_consts receive_announce receive_cancel receive_part sendable_def
      handle_artwork_announce_def handle_artwork_part_def complete_transfer_def schedule_artwork_def show_artwork_def discard_pending_artwork_def)
  then show ?thesis using artwork_arrives_whole [OF demo_art_run] by simp
qed

end
