(* ===== verification/Source_Stream.thy ===== *)
theory Source_Stream
  imports Player_Formats Floats "HOL-Library.Sublist"
begin

text \<open>
  What the source role builds on: \<open>SourceStream\<close>, the queue of decoded audio a consumer iterates over
  (\<open>server/roles/source/stream.py\<close>), and of \<open>audio/codecs.py\<close> the PCM decoder and the scan for FLAC
  frame headers that bounds what a chunk may decode to. A FLAC or Opus decoder is PyAV's and a parameter.
  Bytes of the scan are numbers below 256.
\<close>

unbundle bit_operations_syntax

subsection \<open>The queue of decoded audio\<close>

record source_stream =
  ss_format :: audio_format
  ss_queue :: "(bytes \<times> int) list"
  ss_maxlen :: nat
  max_buffered_bytes :: int
  buffered_bytes :: int
  ss_ended :: bool

definition DEFAULT_QUEUE_MAXLEN :: nat where "DEFAULT_QUEUE_MAXLEN = 512"
definition DEFAULT_MAX_BUFFERED_SECONDS :: int where "DEFAULT_MAX_BUFFERED_SECONDS = 10"

definition new_source_stream :: "audio_format \<Rightarrow> nat \<Rightarrow> source_stream" where
  "new_source_stream fmt maxlen =
     \<lparr>ss_format = fmt, ss_queue = [], ss_maxlen = maxlen,
      max_buffered_bytes = af_rate fmt * af_channels fmt * (af_depth fmt div 8) * DEFAULT_MAX_BUFFERED_SECONDS,
      buffered_bytes = 0, ss_ended = False\<rparr>"

text \<open>The loop of \<open>_push\<close>: the oldest chunks go while the queue is too long or too big, the newest stays.\<close>

fun drop_oldest :: "nat \<Rightarrow> int \<Rightarrow> int \<Rightarrow> (bytes \<times> int) list \<Rightarrow> int \<times> (bytes \<times> int) list" where
  "drop_oldest maxlen budget n [] = (n, [])"
| "drop_oldest maxlen budget n (x # q) =
     (if q \<noteq> [] \<and> (maxlen < Suc (length q) \<or> budget < n)
      then drop_oldest maxlen budget (n - int (length (fst x))) q else (n, x # q))"

definition stream_push :: "bytes \<Rightarrow> int \<Rightarrow> source_stream \<Rightarrow> source_stream" where
  "stream_push pcm ts s =
     (if pcm = [] then s
      else let (n, q) = drop_oldest (ss_maxlen s) (max_buffered_bytes s)
                          (buffered_bytes s + int (length pcm)) (ss_queue s @ [(pcm, ts)])
           in s\<lparr>ss_queue := q, buffered_bytes := n\<rparr>)"

definition end_source_stream :: "source_stream \<Rightarrow> source_stream" where
  "end_source_stream s = s\<lparr>ss_ended := True\<rparr>"

text \<open>One pass of the loop of \<open>__anext__\<close>: a chunk, the end of the iteration, or a wait for \<open>_event\<close>.\<close>

datatype stream_next = NextChunk bytes int | StopIteration | Waits

fun stream_anext_of :: "(bytes \<times> int) list \<Rightarrow> source_stream \<Rightarrow> stream_next \<times> source_stream" where
  "stream_anext_of (x # q) s =
     (NextChunk (fst x) (snd x), s\<lparr>ss_queue := q, buffered_bytes := buffered_bytes s - int (length (fst x))\<rparr>)"
| "stream_anext_of [] s = (if ss_ended s then StopIteration else Waits, s)"

definition stream_anext :: "source_stream \<Rightarrow> stream_next \<times> source_stream" where
  "stream_anext s = stream_anext_of (ss_queue s) s"

subsection \<open>The PCM decoder\<close>

definition decoded_bit_depth :: "audio_codec \<Rightarrow> int \<Rightarrow> int" where
  "decoded_bit_depth codec depth =
     (if codec = OPUS \<or> depth \<le> 16 then 16 else if depth \<le> 24 then 24 else 32)"

text \<open>\<open>PcmDecoder.decode\<close>: an 8-bit sample becomes the high byte of a little-endian 16-bit one.\<close>

definition pcm_decode :: "bool \<Rightarrow> bytes \<Rightarrow> bytes" where
  "pcm_decode widen bs = (if widen then concat (map (\<lambda>b. [0, b]) bs) else bs)"

text \<open>\<open>resolve_av_format\<close> for integer samples and for floats; \<open>None\<close> is \<open>ValueError\<close>. The name of the
  channel layout is a table PyAV reads and is left out of the result.\<close>

definition resolve_av_format :: "audio_format \<Rightarrow> (nat \<times> string \<times> nat) option" where
  "resolve_av_format f =
     (if af_channels f < 1 then None
      else if af_float f then (if af_depth f = 32 then Some (4, ''flt'', 4) else None)
      else if af_depth f = 16 then Some (2, ''s16'', 2)
      else if af_depth f = 24 then Some (3, ''s32'', 4)
      else if af_depth f = 32 then Some (4, ''s32'', 4) else None)"

subsection \<open>Counting the samples of a FLAC chunk\<close>

definition crc8_bit :: "nat \<Rightarrow> nat" where
  "crc8_bit c = (if 128 \<le> c mod 256 then ((2 * c) XOR 7) mod 256 else 2 * c mod 256)"

definition crc8_table :: "nat list" where
  "crc8_table = map (\<lambda>i. (crc8_bit ^^ 8) i) [0..<256]"

definition flac_crc8 :: "nat list \<Rightarrow> nat" where
  "flac_crc8 bs = foldl (\<lambda>crc b. crc8_table ! (crc XOR b)) 0 bs"

text \<open>The regular expression \<open>_FLAC_SYNC\<close>: two bytes of sync code, three more looked at.\<close>

definition flac_sync :: "nat \<Rightarrow> nat \<Rightarrow> nat \<Rightarrow> nat \<Rightarrow> nat \<Rightarrow> bool" where
  "flac_sync a b c d e \<longleftrightarrow> a = 255 \<and> (b = 248 \<or> b = 249) \<and> c div 16 \<noteq> 0 \<and> c mod 16 \<noteq> 15
     \<and> d div 16 \<le> 10 \<and> d div 2 mod 8 \<noteq> 3 \<and> even d \<and> e div 64 \<noteq> 2 \<and> e < 254"

text \<open>\<open>finditer\<close>: the positions of the matches from \<open>pos\<close> on; a match consumes its two bytes.\<close>

fun sync_positions :: "nat \<Rightarrow> nat list \<Rightarrow> nat list" where
  "sync_positions pos (a # b # c # d # e # bs) =
     (if flac_sync a b c d e then pos # sync_positions (pos + 2) (c # d # e # bs)
      else sync_positions (pos + 1) (b # c # d # e # bs))"
| "sync_positions pos bs = []"

fun bit_length :: "nat \<Rightarrow> nat" where
  "bit_length n = (if n = 0 then 0 else Suc (bit_length (n div 2)))"

declare bit_length.simps [simp del]

definition FLAC_SAMPLE_SIZES :: "nat option list" where
  "FLAC_SAMPLE_SIZES = [Some 0, Some 8, Some 12, None, Some 16, Some 20, Some 24, Some 32]"

definition slice :: "nat \<Rightarrow> nat \<Rightarrow> 'a list \<Rightarrow> 'a list" where
  "slice i j xs = take (j - i) (drop i xs)"

definition nats_be :: "nat list \<Rightarrow> nat" where
  "nats_be bs = foldl (\<lambda>n b. n * 256 + b) 0 bs"

text \<open>The block size field: the size and where the header goes on.\<close>

definition blocksize_field :: "nat \<Rightarrow> nat \<Rightarrow> nat list \<Rightarrow> nat \<times> nat" where
  "blocksize_field code i bs =
     (if code = 1 then (192, i)
      else if code \<le> 5 then (576 * 2 ^ (code - 2), i)
      else if code = 6 then (nats_be (slice i (i + 1) bs) + 1, i + 1)
      else if code = 7 then (nats_be (slice i (i + 2) bs) + 1, i + 2)
      else (256 * 2 ^ (code - 8), i))"

definition flac_header_blocksize :: "nat list \<Rightarrow> nat \<Rightarrow> nat \<Rightarrow> nat \<Rightarrow> nat" where
  "flac_header_blocksize bs pos max_blocksize bits =
     (let rate_code = bs ! (pos + 2) mod 16;
          size = FLAC_SAMPLE_SIZES ! (bs ! (pos + 3) div 2 mod 8);
          i = pos + 4 + max 1 (8 - bit_length (bs ! (pos + 4) XOR 255));
          (blocksize, j) = blocksize_field (bs ! (pos + 2) div 16) i bs;
          k = j + (if rate_code = 12 then 1 else if rate_code = 13 \<or> rate_code = 14 then 2 else 0)
      in if size \<noteq> Some 0 \<and> size \<noteq> Some bits then 0
         else if list_ex (\<lambda>b. b div 64 \<noteq> 2) (slice (pos + 5) i bs) then 0
         else if length bs \<le> k \<or> max_blocksize < blocksize then 0
         else if flac_crc8 (slice pos k bs) = bs ! k then blocksize else 0)"

text \<open>The loop over the matches: \<open>n\<close> counts the candidates, from 1.\<close>

fun count_samples :: "(nat \<Rightarrow> nat) \<Rightarrow> nat \<Rightarrow> nat \<Rightarrow> nat \<Rightarrow> nat \<Rightarrow> nat list \<Rightarrow> nat" where
  "count_samples blocksize len limit n samples [] = samples"
| "count_samples blocksize len limit n samples (pos # ps) =
     (if len \<le> pos + 5 then samples
      else if limit div 8 < n then limit + 1
      else if limit < samples + blocksize pos then samples + blocksize pos
      else count_samples blocksize len limit (n + 1) (samples + blocksize pos) ps)"

definition flac_chunk_samples :: "bytes \<Rightarrow> nat \<Rightarrow> nat \<Rightarrow> nat \<Rightarrow> nat" where
  "flac_chunk_samples data max_blocksize bits limit =
     (let bs = map unat data
      in count_samples (\<lambda>pos. flac_header_blocksize bs pos max_blocksize bits) (length bs) limit 1 0
           (sync_positions 0 bs))"

subsection \<open>The queue is bounded and in order\<close>

definition stream_ok :: "source_stream \<Rightarrow> bool" where
  "stream_ok s \<longleftrightarrow> buffered_bytes s = (\<Sum>x\<leftarrow>ss_queue s. int (length (fst x)))
     \<and> (\<forall>x \<in> set (ss_queue s). fst x \<noteq> [])
     \<and> (length (ss_queue s) \<le> 1 \<or> length (ss_queue s) \<le> ss_maxlen s \<and> buffered_bytes s \<le> max_buffered_bytes s)"

lemma drop_oldest_suffix:
  "drop_oldest m b n q = (n', q') \<Longrightarrow> n = (\<Sum>x\<leftarrow>q. int (length (fst x))) \<Longrightarrow>
   suffix q' q \<and> n' = (\<Sum>x\<leftarrow>q'. int (length (fst x)))
     \<and> (length q' \<le> 1 \<or> length q' \<le> m \<and> n' \<le> b)"
proof (induction m b n q rule: drop_oldest.induct)
  case (2 m b n x q)
  show ?case
  proof (cases "q \<noteq> [] \<and> (m < Suc (length q) \<or> b < n)")
    case True
    then show ?thesis using 2 by (auto simp: suffix_ConsI)
  next
    case False
    then show ?thesis using 2(2,3) by (cases q) auto
  qed
qed simp

lemma drop_oldest_last: "q \<noteq> [] \<Longrightarrow> snd (drop_oldest m b n q) \<noteq> [] \<and> last (snd (drop_oldest m b n q)) = last q"
  by (induction m b n q rule: drop_oldest.induct) auto

lemma stream_ok_new [simp]: "stream_ok (new_source_stream f m)"
  by (simp add: stream_ok_def new_source_stream_def)

lemma push_queue:
  assumes "stream_ok s" "pcm \<noteq> []"
  shows "stream_ok (stream_push pcm ts s) \<and> suffix (ss_queue (stream_push pcm ts s)) (ss_queue s @ [(pcm, ts)])"
proof -
  obtain n q where d: "drop_oldest (ss_maxlen s) (max_buffered_bytes s) (buffered_bytes s + int (length pcm))
      (ss_queue s @ [(pcm, ts)]) = (n, q)" by force
  have q: "suffix q (ss_queue s @ [(pcm, ts)]) \<and> n = (\<Sum>x\<leftarrow>q. int (length (fst x)))
     \<and> (length q \<le> 1 \<or> length q \<le> ss_maxlen s \<and> n \<le> max_buffered_bytes s)"
    by (rule drop_oldest_suffix [OF d]) (use assms(1) in \<open>simp add: stream_ok_def\<close>)
  then have "set q \<subseteq> insert (pcm, ts) (set (ss_queue s))" 
    using set_mono_suffix by fastforce
  then have "\<forall>x \<in> set q. fst x \<noteq> []" using assms by (auto simp: stream_ok_def)
  then show ?thesis using q d assms(2) by (auto simp: stream_push_def stream_ok_def simp del: suffix_snoc)
qed

lemma stream_ok_push [simp]: "stream_ok s \<Longrightarrow> stream_ok (stream_push pcm ts s)"
  using push_queue by (cases "pcm = []") (auto simp: stream_push_def)

lemma stream_ok_end [simp]: "stream_ok (end_source_stream s) = stream_ok s"
  by (simp add: stream_ok_def end_source_stream_def)

lemma stream_ok_anext: "stream_ok s \<Longrightarrow> stream_ok (snd (stream_anext s))"
  by (cases "ss_queue s") (auto simp: stream_ok_def stream_anext_def)

subsection \<open>The scan for FLAC headers\<close>

text \<open>A scan that stays within its limit has summed the block sizes of every header it could see.\<close>

lemma count_samples_exact:
  "count_samples f len limit n k ps \<le> limit \<Longrightarrow>
   count_samples f len limit n k ps = k + (\<Sum>p\<leftarrow>takeWhile (\<lambda>p. p + 5 < len) ps. f p)"
proof (induction ps arbitrary: n k)
  case (Cons p ps)
  show ?case
  proof (cases "len \<le> p + 5")
    case False
    then have eq: "count_samples f len limit n k (p # ps) = count_samples f len limit (n + 1) (k + f p) ps"
      using Cons.prems by (simp split: if_splits)
    then have "count_samples f len limit (n + 1) (k + f p) ps \<le> limit" using Cons.prems by simp
    from Cons.IH [OF this] False show ?thesis unfolding eq by simp
  qed simp
qed simp

lemma count_samples_bounded:
  "k \<le> limit \<Longrightarrow> (\<And>p. f p \<le> m) \<Longrightarrow> 1 \<le> m \<Longrightarrow> count_samples f len limit n k ps \<le> limit + m"
proof (induction ps arbitrary: n k)
  case (Cons p ps)
  have "f p \<le> m" by (rule Cons.prems)
  then show ?case using Cons by (auto intro: add_mono)
qed simp

lemma header_blocksize_bounded: "flac_header_blocksize bs pos m bits \<le> m"
  by (simp add: flac_header_blocksize_def Let_def case_prod_beta)

end
