(* ===== verification/Source_Role.thy ===== *)
theory Source_Role
  imports Source_Stream
begin

text \<open>
  \<open>SourceV1Role\<close> (\<open>server/roles/source/v1.py\<close>): the role that asks a client for captured audio, checks the
  stream the client announces, decodes its chunks and hands them to a consumer. The handles given out are
  indices into \<open>streams\<close>, since a consumer keeps its handle when the role has let go of it. What the role
  sends and signals is its \<open>source_log\<close>. An operation answers with its role and whether it ran to its end:
  in strict mode a deviation raises \<open>ClientComplianceError\<close>. Counters that only space out log lines are not
  modelled. The decoder of PyAV is the parameter \<open>av_codec\<close>, a rounding \<open>fl\<close> stands for float arithmetic.
\<close>

subsection \<open>State\<close>

datatype signal_state = PRESENT | ABSENT

datatype source_deviation = UNLISTED_CODEC | BAD_DEPTH | PARTIAL_BYTES | BAD_RATE | BAD_CHANNELS | UNEXPECTED_HEADER
  | HEADER_NOT_BASE64 | NO_STREAMINFO | RATE_MISMATCH | PARTIAL_FRAME | EMPTY_CHUNK | CHUNK_TOO_LONG | DECODE_FAILED

text \<open>\<open>Audio h now bps ts pcm\<close>: a chunk of the client is pushed into handle \<open>h\<close>; \<open>now\<close> and the byte rate of the
  stream are noted with it. \<open>Tail\<close> is what a decoder held back until it was flushed. \<open>Decodes now bps flac bs out\<close>: the
  decoder is run on the chunk \<open>bs\<close> and yields \<open>out\<close> (\<open>None\<close> if it raises); for FLAC the block size limit, the bits
  per sample and the size of a decoded frame are noted. It is a history event, without an effect in the code.\<close>

datatype source_event = SentStart | SentStop | Started nat audio_format | Ended | SignalChanged signal_state
  | Flagged source_deviation | Audio nat int nat int bytes | Tail nat int bytes
  | Decodes int nat "(nat \<times> nat \<times> nat) option" bytes "bytes option"

datatype 'd source_decoder = PcmDecoder bool | AvDecoder 'd

record 'd av_codec =
  av_create :: "audio_codec \<Rightarrow> int \<Rightarrow> int \<Rightarrow> int \<Rightarrow> bytes option \<Rightarrow> 'd option"
  av_decode :: "'d \<Rightarrow> bytes \<Rightarrow> 'd \<times> bytes option"
  av_flush :: "'d \<Rightarrow> bytes option"

record 'd source_role =
  src_decoder :: "'d source_decoder option"
  pcm_frame_bytes :: "nat option"
  max_chunk_bytes :: nat
  flac_max_blocksize :: "nat option"
  flac_bits_per_sample :: nat
  flac_max_samples :: nat
  flac_max_bytes :: nat
  decoded_frame_bytes :: nat
  decoded_bytes_per_s :: nat
  audio_end_us :: int
  src_stream :: "nat option"
  src_stream_active :: bool
  source_state_received :: bool
  start_queued :: bool
  stream_wanted :: bool
  last_timestamp_us :: int
  src_signal :: "signal_state option"
  client_available :: bool
  client_awaits_state :: bool
  line_sense_supported :: bool
  strict_server :: bool
  streams :: "source_stream list"
  source_log :: "source_event list"

record stream_announcement =
  ann_codec :: audio_codec
  ann_channels :: int
  ann_rate :: int
  ann_depth :: int
  ann_header :: "string option"

text \<open>The role as constructed, for a client of which availability, hold, features and strictness are given.\<close>

definition new_source_role :: "bool \<Rightarrow> bool \<Rightarrow> bool \<Rightarrow> bool \<Rightarrow> 'd source_role" where
  "new_source_role avail awaits sense strict =
     \<lparr>src_decoder = None, pcm_frame_bytes = None, max_chunk_bytes = 0, flac_max_blocksize = None,
      flac_bits_per_sample = 0, flac_max_samples = 0, flac_max_bytes = 0, decoded_frame_bytes = 0,
      decoded_bytes_per_s = 0, audio_end_us = 0, src_stream = None, src_stream_active = False,
      source_state_received = False, start_queued = False, stream_wanted = False, last_timestamp_us = 0,
      src_signal = None, client_available = avail, client_awaits_state = awaits, line_sense_supported = sense,
      strict_server = strict, streams = [], source_log = []\<rparr>"

definition emit :: "source_event \<Rightarrow> 'd source_role \<Rightarrow> 'd source_role" where
  "emit e r = r\<lparr>source_log := source_log r @ [e]\<rparr>"

text \<open>\<open>flag_noncompliance\<close>: a strict server rejects the client by raising.\<close>

definition flag_source :: "source_deviation \<Rightarrow> 'd source_role \<Rightarrow> bool \<times> 'd source_role" where
  "flag_source d r = (\<not> strict_server r, emit (Flagged d) r)"

definition unless_raised :: "bool \<times> 'd source_role \<Rightarrow> ('d source_role \<Rightarrow> bool \<times> 'd source_role) \<Rightarrow> bool \<times> 'd source_role" where
  "unless_raised m f = (if fst m then f (snd m) else m)"

definition flag_if :: "bool \<Rightarrow> source_deviation \<Rightarrow> 'd source_role \<Rightarrow> bool \<times> 'd source_role" where
  "flag_if c d r = (if c then flag_source d r else (True, r))"

primrec flag_each :: "source_deviation list \<Rightarrow> 'd source_role \<Rightarrow> bool \<times> 'd source_role" where
  "flag_each [] r = (True, r)"
| "flag_each (d # ds) r = unless_raised (flag_source d r) (flag_each ds)"

subsection \<open>Starts and stops\<close>

definition can_start :: "'d source_role \<Rightarrow> bool" where
  "can_start r \<longleftrightarrow> source_state_received r \<and> client_available r \<and> \<not> client_awaits_state r"

definition send_queued_start :: "'d source_role \<Rightarrow> 'd source_role" where
  "send_queued_start r =
     (if \<not> start_queued r \<or> \<not> can_start r then r
      else emit SentStart (r\<lparr>start_queued := False, stream_wanted := True\<rparr>))"

definition request_start :: "'d source_role \<Rightarrow> 'd source_role" where
  "request_start r = send_queued_start (r\<lparr>start_queued := True\<rparr>)"

definition request_stop :: "'d source_role \<Rightarrow> 'd source_role" where
  "request_stop r = emit SentStop (r\<lparr>start_queued := False, stream_wanted := False\<rparr>)"

subsection \<open>The end of a stream\<close>

definition push_audio :: "source_event \<Rightarrow> nat \<Rightarrow> bytes \<Rightarrow> int \<Rightarrow> 'd source_role \<Rightarrow> 'd source_role" where
  "push_audio e h pcm ts r =
     (let r' = r\<lparr>streams := (streams r)[h := stream_push pcm ts (streams r ! h)]\<rparr>
      in if pcm = [] then r' else emit e r')"

definition close_handle :: "nat \<Rightarrow> 'd source_role \<Rightarrow> 'd source_role" where
  "close_handle h r = r\<lparr>streams := (streams r)[h := end_source_stream (streams r ! h)]\<rparr>"

fun decoder_flush :: "'d av_codec \<Rightarrow> 'd source_decoder \<Rightarrow> bytes option" where
  "decoder_flush av (PcmDecoder w) = Some []"
| "decoder_flush av (AvDecoder d) = av_flush av d"

definition source_end_stream :: "'d av_codec \<Rightarrow> 'd source_role \<Rightarrow> 'd source_role" where
  "source_end_stream av r =
     (let r1 = (case (src_stream r, src_decoder r) of
                  (Some h, Some d) \<Rightarrow>
                    (let tail = (case decoder_flush av d of None \<Rightarrow> [] | Some t \<Rightarrow> t);
                         ts = last_timestamp_us r
                     in close_handle h (push_audio (Tail h ts tail) h tail ts r))
                | _ \<Rightarrow> r);
          r2 = r1\<lparr>src_stream := None, src_decoder := None, src_stream_active := False, last_timestamp_us := 0\<rparr>
      in if src_stream_active r then emit Ended r2 else r2)"

definition source_disconnect :: "'d av_codec \<Rightarrow> 'd source_role \<Rightarrow> 'd source_role" where
  "source_disconnect av r =
     (source_end_stream av r)\<lparr>source_state_received := False, start_queued := False, stream_wanted := False, src_signal := None\<rparr>"

definition source_deactivate :: "'d av_codec \<Rightarrow> 'd source_role \<Rightarrow> 'd source_role" where
  "source_deactivate av r =
     (source_end_stream av r)\<lparr>source_state_received := False, start_queued := False, stream_wanted := False, src_signal := None\<rparr>"

subsection \<open>What the client reports\<close>

definition source_initial_state :: "'d source_role \<Rightarrow> 'd source_role" where
  "source_initial_state r = r\<lparr>source_state_received := True\<rparr>"

definition source_hold_released :: "'d source_role \<Rightarrow> 'd source_role" where
  "source_hold_released r = send_queued_start r"

text \<open>\<open>on_client_state\<close>: the source object, if there is one, with the signal it may carry.\<close>

definition source_client_state :: "signal_state option option \<Rightarrow> 'd source_role \<Rightarrow> 'd source_role" where
  "source_client_state source r =
     (let r1 = send_queued_start (if source \<noteq> None then r\<lparr>source_state_received := True\<rparr> else r)
      in case source of
           Some (Some s) \<Rightarrow>
             if \<not> line_sense_supported r1 then r1
             else if src_signal r1 = Some s then r1
             else emit (SignalChanged s) (r1\<lparr>src_signal := Some s\<rparr>)
         | _ \<Rightarrow> r1)"

definition source_state_deviation :: "signal_state option option \<Rightarrow> 'd source_role \<Rightarrow> bool" where
  "source_state_deviation source r \<longleftrightarrow>
     (case source of Some (Some s) \<Rightarrow> \<not> line_sense_supported r | _ \<Rightarrow> False)"

text \<open>\<open>set_availability\<close> of the client: it stores the availability, then tells the role.\<close>

definition source_availability :: "'d av_codec \<Rightarrow> bool \<Rightarrow> 'd source_role \<Rightarrow> 'd source_role" where
  "source_availability av avail r =
     (let r1 = r\<lparr>client_available := avail\<rparr>
      in if avail then send_queued_start r1 else source_end_stream av (r1\<lparr>stream_wanted := False\<rparr>))"

subsection \<open>The announcement of a stream\<close>

definition accepted_codecs :: "codec_env \<Rightarrow> audio_codec list" where
  "accepted_codecs env = [FLAC, PCM] @ (if opus_available env then [OPUS] else [])"

text \<open>\<open>base64.b64decode(s, validate=True)\<close>: whole quads of the standard alphabet, padding only at the end.\<close>

definition b64_std :: "char \<Rightarrow> nat option" where
  "b64_std c = (if c = CHR ''-'' \<or> c = CHR ''_'' then None else b64_val c)"

fun b64decode_strict :: "string \<Rightarrow> bytes option" where
  "b64decode_strict [] = Some []"
| "b64decode_strict (a # b # c # d # s) =
     (case (b64_std a, b64_std b) of
        (Some u, Some v) \<Rightarrow>
          (case b64_std c of
             None \<Rightarrow> if c = CHR ''='' \<and> d = CHR ''='' \<and> s = [] then Some [word_of_nat (u * 4 + v div 16)] else None
           | Some w \<Rightarrow>
               (case b64_std d of
                  None \<Rightarrow> if d = CHR ''='' \<and> s = []
                          then Some [word_of_nat (u * 4 + v div 16), word_of_nat (v mod 16 * 16 + w div 4)] else None
                | Some x \<Rightarrow> map_option (\<lambda>bs. [word_of_nat (u * 4 + v div 16), word_of_nat (v mod 16 * 16 + w div 4),
                                word_of_nat (w mod 4 * 64 + x)] @ bs) (b64decode_strict s)))
      | _ \<Rightarrow> None)"
| "b64decode_strict s = None"

definition is_streaminfo :: "bytes \<Rightarrow> bool" where
  "is_streaminfo h \<longleftrightarrow> 42 \<le> length h \<and> map unat (take 4 h) = [102, 76, 97, 67] \<and> unat (h ! 4) mod 128 = 0
     \<and> from_bytes_be (slice 5 8 h) = 34"

definition header_rate :: "bytes \<Rightarrow> int" where
  "header_rate h = int (from_bytes_be (slice 18 21 h) div 16)"

text \<open>\<open>check_client_stream_start\<close>: what it flags, and the format with the header, or \<open>None\<close> to discard.\<close>

definition check_codec_header :: "stream_announcement \<Rightarrow> source_deviation list \<times> bytes option option" where
  "check_codec_header a =
     (case ann_header a of
        None \<Rightarrow> ([], Some None)
      | Some s \<Rightarrow>
          if ann_codec a \<noteq> FLAC then ([UNEXPECTED_HEADER], Some None)
          else (case b64decode_strict s of None \<Rightarrow> ([HEADER_NOT_BASE64], None) | Some h \<Rightarrow> ([], Some (Some h))))"

definition check_client_stream_start ::
  "codec_env \<Rightarrow> stream_announcement \<Rightarrow> source_deviation list \<times> (audio_format \<times> bytes option) option" where
  "check_client_stream_start env a =
     (if ann_codec a \<notin> set (accepted_codecs env) then ([UNLISTED_CODEC], None)
      else if ann_codec a \<noteq> OPUS \<and> \<not> (1 \<le> ann_depth a \<and> ann_depth a \<le> 32) then ([BAD_DEPTH], None)
      else if ann_codec a = PCM \<and> ann_depth a mod 8 \<noteq> 0 then ([PARTIAL_BYTES], None)
      else if ann_rate a \<le> 0 then ([BAD_RATE], None)
      else if ann_channels a \<le> 0 then ([BAD_CHANNELS], None)
      else
        let fmt = audio_format_of (ann_rate a) (decoded_bit_depth (ann_codec a) (ann_depth a)) (ann_channels a)
        in case check_codec_header a of
             (ds, None) \<Rightarrow> (ds, None)
           | (ds, Some header) \<Rightarrow>
               if ann_codec a = FLAC \<and> (case header of None \<Rightarrow> True | Some h \<Rightarrow> \<not> is_streaminfo h)
               then (ds @ [NO_STREAMINFO], None)
               else if (case header of None \<Rightarrow> False | Some h \<Rightarrow> header_rate h \<noteq> ann_rate a)
               then (ds @ [RATE_MISMATCH], None)
               else (ds, Some (fmt, header)))"

definition SOURCE_MAX_SAMPLE_RATE :: int where "SOURCE_MAX_SAMPLE_RATE = 384000"
definition SOURCE_MAX_CHANNELS :: int where "SOURCE_MAX_CHANNELS = 8"
definition MAX_LEAD_US :: int where "MAX_LEAD_US = 1000000"

text \<open>\<open>create_decoder\<close> for an announcement that passed the checks; \<open>None\<close> is an exception of PyAV.\<close>

definition create_decoder :: "'d av_codec \<Rightarrow> stream_announcement \<Rightarrow> bytes option \<Rightarrow> 'd source_decoder option" where
  "create_decoder av a header =
     (if ann_codec a = PCM then Some (PcmDecoder (ann_depth a = 8))
      else map_option AvDecoder
        (av_create av (ann_codec a) (ann_rate a) (decoded_bit_depth (ann_codec a) (ann_depth a)) (ann_channels a) header))"

definition flac_header_bits :: "bytes \<Rightarrow> nat" where
  "flac_header_bits h = (unat (h ! 20) mod 2 * 16 + unat (h ! 21) div 16) + 1"

text \<open>What follows once the decoder is there: the limits of the format, a fresh handle and its event.\<close>

definition set_limits :: "stream_announcement \<Rightarrow> audio_format \<Rightarrow> bytes option \<Rightarrow> 'd source_role \<Rightarrow> 'd source_role" where
  "set_limits a fmt header r =
     (let frame = nat (af_depth fmt div 8 * af_channels fmt);
          rate = nat (ann_rate a);
          r1 = r\<lparr>pcm_frame_bytes := (if ann_codec a = PCM then Some (nat (ann_depth a div 8 * ann_channels a)) else None),
                 max_chunk_bytes := rate * 3 div 20 * frame, decoded_frame_bytes := frame,
                 decoded_bytes_per_s := rate * frame\<rparr>
      in case header of
           Some h \<Rightarrow>
             if ann_codec a = FLAC then
               let blocksize = from_bytes_be (slice 10 12 h); samples = rate * 3 div 20 + blocksize
               in r1\<lparr>flac_max_blocksize := Some blocksize, flac_bits_per_sample := flac_header_bits h,
                     flac_max_samples := samples, flac_max_bytes := 2 * samples * frame\<rparr>
             else r1\<lparr>flac_max_blocksize := None\<rparr>
         | None \<Rightarrow> r1\<lparr>flac_max_blocksize := None\<rparr>)"

definition open_handle :: "audio_format \<Rightarrow> 'd source_role \<Rightarrow> 'd source_role" where
  "open_handle fmt r =
     emit (Started (length (streams r)) fmt)
       (r\<lparr>streams := streams r @ [new_source_stream fmt DEFAULT_QUEUE_MAXLEN],
          src_stream := Some (length (streams r)), src_stream_active := True\<rparr>)"

definition source_stream_start ::
  "'d av_codec \<Rightarrow> codec_env \<Rightarrow> stream_announcement \<Rightarrow> 'd source_role \<Rightarrow> bool \<times> 'd source_role" where
  "source_stream_start av env a r0 =
     (let r1 = (if src_stream_active r0 then source_end_stream av r0 else r0);
          (ds, checked) = check_client_stream_start env a
      in unless_raised (flag_each ds r1) (\<lambda>r.
           case checked of
             None \<Rightarrow> (True, r)
           | Some (fmt, header) \<Rightarrow>
               let channels = (if ann_codec a = OPUS then 2 else SOURCE_MAX_CHANNELS)
               in if SOURCE_MAX_SAMPLE_RATE < ann_rate a \<or> channels < ann_channels a then (True, r)
                  else if \<not> stream_wanted r then (True, r)
                  else (case (resolve_av_format fmt, create_decoder av a header) of
                          (Some _, Some d) \<Rightarrow> (True, open_handle fmt (set_limits a fmt header (r\<lparr>src_decoder := Some d\<rparr>)))
                        | _ \<Rightarrow> (True, r\<lparr>src_decoder := None\<rparr>))))"

subsection \<open>A chunk of audio\<close>

fun decoder_decode :: "'d av_codec \<Rightarrow> 'd source_decoder \<Rightarrow> bytes \<Rightarrow> 'd source_decoder \<times> bytes option" where
  "decoder_decode av (PcmDecoder w) bs = (PcmDecoder w, Some (pcm_decode w bs))"
| "decoder_decode av (AvDecoder d) bs = (AvDecoder (fst (av_decode av d bs)), snd (av_decode av d bs))"

text \<open>\<open>int(charged_bytes * 1_000_000 / self._decoded_bytes_per_s / _CLOCK_TOLERANCE)\<close>.\<close>

definition charged_us :: "(rat \<Rightarrow> rat) \<Rightarrow> nat \<Rightarrow> nat \<Rightarrow> int" where
  "charged_us fl charged bps = \<lfloor>fl (fl (of_nat (charged * 1000000) / of_nat bps) / fl (101 / 100))\<rfloor>"

definition flac_samples :: "bytes \<Rightarrow> 'd source_role \<Rightarrow> nat" where
  "flac_samples bs r =
     (case flac_max_blocksize r of
        None \<Rightarrow> 0
      | Some m \<Rightarrow> if length bs \<le> flac_max_bytes r
                  then flac_chunk_samples bs m (flac_bits_per_sample r) (flac_max_samples r) else 0)"

definition flac_too_long :: "bytes \<Rightarrow> 'd source_role \<Rightarrow> bool" where
  "flac_too_long bs r \<longleftrightarrow> flac_max_blocksize r \<noteq> None
     \<and> (flac_max_bytes r < length bs \<or> flac_max_samples r < flac_samples bs r)"

definition charged_bytes :: "bytes \<Rightarrow> bytes option \<Rightarrow> 'd source_role \<Rightarrow> nat" where
  "charged_bytes bs pcm r =
     (let n = (case pcm of None \<Rightarrow> 0 | Some p \<Rightarrow> length p)
      in if flac_max_blocksize r \<noteq> None
         then max n (max (flac_samples bs r * decoded_frame_bytes r) (length bs div 2)) else n)"

text \<open>Decoding: the role with the decoder's new state and what came out, or a flag.\<close>

definition flac_limits :: "'d source_role \<Rightarrow> (nat \<times> nat \<times> nat) option" where
  "flac_limits r = map_option (\<lambda>m. (m, flac_bits_per_sample r, decoded_frame_bytes r)) (flac_max_blocksize r)"

definition decode_chunk :: "'d av_codec \<Rightarrow> int \<Rightarrow> 'd source_decoder \<Rightarrow> bytes \<Rightarrow> 'd source_role \<Rightarrow> bytes option \<times> (bool \<times> 'd source_role)" where
  "decode_chunk av now d bs r =
     (if flac_too_long bs r then (None, flag_source CHUNK_TOO_LONG r)
      else let (d', pcm) = decoder_decode av d bs;
               r1 = emit (Decodes now (decoded_bytes_per_s r) (flac_limits r) bs pcm) (r\<lparr>src_decoder := Some d'\<rparr>)
           in case pcm of None \<Rightarrow> (None, flag_source DECODE_FAILED r1) | Some p \<Rightarrow> (Some p, (True, r1)))"

definition charge :: "(rat \<Rightarrow> rat) \<Rightarrow> int \<Rightarrow> bytes \<Rightarrow> bytes option \<Rightarrow> 'd source_role \<Rightarrow> 'd source_role" where
  "charge fl now bs pcm r =
     r\<lparr>audio_end_us := max (audio_end_us r) now + charged_us fl (charged_bytes bs pcm r) (decoded_bytes_per_s r)\<rparr>"

definition deliver_pcm :: "nat \<Rightarrow> int \<Rightarrow> int \<Rightarrow> bytes \<Rightarrow> 'd source_role \<Rightarrow> bool \<times> 'd source_role" where
  "deliver_pcm h now ts pcm r =
     unless_raised (flag_if (max_chunk_bytes r < length pcm) CHUNK_TOO_LONG r) (\<lambda>r.
       (True, push_audio (Audio h now (decoded_bytes_per_s r) ts pcm) h pcm ts
                (r\<lparr>last_timestamp_us := max (last_timestamp_us r) ts\<rparr>)))"

definition decode_and_deliver ::
  "'d av_codec \<Rightarrow> (rat \<Rightarrow> rat) \<Rightarrow> int \<Rightarrow> int \<Rightarrow> bytes \<Rightarrow> 'd source_decoder \<Rightarrow> nat \<Rightarrow> 'd source_role \<Rightarrow> bool \<times> 'd source_role" where
  "decode_and_deliver av fl now ts bs d h r =
     (let (pcm, m) = decode_chunk av now d bs r
      in unless_raised m (\<lambda>r.
           let r = charge fl now bs pcm r
           in case pcm of None \<Rightarrow> (True, r) | Some p \<Rightarrow> deliver_pcm h now ts p r))"

definition source_binary_chunk ::
  "'d av_codec \<Rightarrow> (rat \<Rightarrow> rat) \<Rightarrow> int \<Rightarrow> int \<Rightarrow> bytes \<Rightarrow> 'd source_role \<Rightarrow> bool \<times> 'd source_role" where
  "source_binary_chunk av fl now ts bs r0 =
     (case (src_stream r0, src_decoder r0) of
        (Some h, Some d) \<Rightarrow>
          if \<not> source_state_received r0 \<or> \<not> src_stream_active r0 then (True, r0)
          else unless_raised
            (flag_if (case pcm_frame_bytes r0 of None \<Rightarrow> False | Some n \<Rightarrow> length bs mod n \<noteq> 0) PARTIAL_FRAME r0) (\<lambda>r.
              if pcm_frame_bytes r = None \<and> bs = [] then flag_source EMPTY_CHUNK r
              else if MAX_LEAD_US < audio_end_us r - now then (True, r)
              else decode_and_deliver av fl now ts bs d h r)
      | _ \<Rightarrow> (True, r0))"

subsection \<open>Runs\<close>

datatype source_call = CallStart | CallStop | CallDisconnect | CallDeactivate | CallInitialState
  | CallClientState "signal_state option option" | CallHeld bool | CallHoldReleased | CallAvailable bool
  | CallStreamStart stream_announcement | CallStreamEnd | CallChunk int int bytes | CallConsume nat

text \<open>\<open>CallHeld\<close> is the client putting the role on hold or ending the hold, \<open>CallConsume\<close> a consumer that
  takes a chunk from its handle.\<close>

fun source_step :: "'d av_codec \<Rightarrow> codec_env \<Rightarrow> (rat \<Rightarrow> rat) \<Rightarrow> source_call \<Rightarrow> 'd source_role \<Rightarrow> 'd source_role" where
  "source_step av env fl CallStart r = request_start r"
| "source_step av env fl CallStop r = request_stop r"
| "source_step av env fl CallDisconnect r = source_disconnect av r"
| "source_step av env fl CallDeactivate r = source_deactivate av r"
| "source_step av env fl CallInitialState r = source_initial_state r"
| "source_step av env fl (CallClientState s) r = source_client_state s r"
| "source_step av env fl (CallHeld b) r = r\<lparr>client_awaits_state := b\<rparr>"
| "source_step av env fl CallHoldReleased r = source_hold_released r"
| "source_step av env fl (CallAvailable b) r = source_availability av b r"
| "source_step av env fl (CallStreamStart a) r = snd (source_stream_start av env a r)"
| "source_step av env fl CallStreamEnd r = source_end_stream av r"
| "source_step av env fl (CallChunk now ts bs) r = snd (source_binary_chunk av fl now ts bs r)"
| "source_step av env fl (CallConsume h) r =
     (if h < length (streams r) then r\<lparr>streams := (streams r)[h := snd (stream_anext (streams r ! h))]\<rparr> else r)"

definition source_run ::
  "'d av_codec \<Rightarrow> codec_env \<Rightarrow> (rat \<Rightarrow> rat) \<Rightarrow> source_call list \<Rightarrow> 'd source_role \<Rightarrow> 'd source_role" where
  "source_run av env fl cs r = fold (source_step av env fl) cs r"

end
