(* ===== verification/Source_Facts.thy ===== *)
theory Source_Facts
  imports Source_Role
begin

text \<open>
  What the source role promises, over every run of its calls: a watcher that knows only the calls and the
  events accepts them all, audio is decoded no faster than real time plus a second, and the queue of a
  consumer stays bounded and in order.
\<close>

subsection \<open>The watcher\<close>

record watch =
  w_received :: bool
  w_available :: bool
  w_awaits :: bool
  w_wanted :: bool
  w_open :: "nat option"
  w_handles :: nat

text \<open>What a call means for the one who watches: a start may be sent once a state was received from an
  available client that is not on hold; a stop, unavailability, removal or disconnect ends the wish.\<close>

fun watch_call :: "source_call \<Rightarrow> watch \<Rightarrow> watch" where
  "watch_call CallStop w = w\<lparr>w_wanted := False\<rparr>"
| "watch_call CallDisconnect w = w\<lparr>w_wanted := False, w_received := False\<rparr>"
| "watch_call CallDeactivate w = w\<lparr>w_wanted := False, w_received := False\<rparr>"
| "watch_call CallInitialState w = w\<lparr>w_received := True\<rparr>"
| "watch_call (CallClientState s) w = (if s = None then w else w\<lparr>w_received := True\<rparr>)"
| "watch_call (CallHeld b) w = w\<lparr>w_awaits := b\<rparr>"
| "watch_call (CallAvailable b) w = (if b then w\<lparr>w_available := True\<rparr> else w\<lparr>w_available := False, w_wanted := False\<rparr>)"
| "watch_call _ w = w"

text \<open>The events allowed in a state: a stream is announced only when it is wanted and none is open, under a
  handle never used before; audio goes only into the open handle.\<close>

fun watch_event :: "source_event \<Rightarrow> watch \<Rightarrow> watch option" where
  "watch_event SentStart w =
     (if w_received w \<and> w_available w \<and> \<not> w_awaits w then Some (w\<lparr>w_wanted := True\<rparr>) else None)"
| "watch_event SentStop w = (if w_wanted w then None else Some w)"
| "watch_event (Started h fmt) w =
     (if w_wanted w \<and> w_open w = None \<and> h = w_handles w
      then Some (w\<lparr>w_open := Some h, w_handles := Suc h\<rparr>) else None)"
| "watch_event Ended w = (if w_open w = None then None else Some (w\<lparr>w_open := None\<rparr>))"
| "watch_event (Audio h now bps ts pcm) w = (if w_open w = Some h \<and> w_received w \<and> pcm \<noteq> [] then Some w else None)"
| "watch_event (Tail h ts pcm) w = (if w_open w = Some h \<and> pcm \<noteq> [] then Some w else None)"
| "watch_event (Decodes now bps flac bs out) w = (if w_open w = None \<or> \<not> w_received w then None else Some w)"
| "watch_event (SignalChanged s) w = Some w"
| "watch_event (Flagged d) w = Some w"

primrec watch_events :: "source_event list \<Rightarrow> watch \<Rightarrow> watch option" where
  "watch_events [] w = Some w"
| "watch_events (e # es) w = (case watch_event e w of None \<Rightarrow> None | Some w' \<Rightarrow> watch_events es w')"

lemma watch_events_append [simp]:
  "watch_events (es @ fs) w = (case watch_events es w of None \<Rightarrow> None | Some w' \<Rightarrow> watch_events fs w')"
  by (induction es arbitrary: w) (auto split: option.splits)

text \<open>The events of one call are the ones it adds to the log.\<close>

definition events_of :: "'d source_role \<Rightarrow> 'd source_role \<Rightarrow> source_event list" where
  "events_of r r' = drop (length (source_log r)) (source_log r')"

primrec watch_run ::
  "'d av_codec \<Rightarrow> codec_env \<Rightarrow> (rat \<Rightarrow> rat) \<Rightarrow> source_call list \<Rightarrow> 'd source_role \<Rightarrow> watch \<Rightarrow> watch option" where
  "watch_run av env fl [] r w = Some w"
| "watch_run av env fl (c # cs) r w =
     (case watch_events (events_of r (source_step av env fl c r)) (watch_call c w) of
        None \<Rightarrow> None
      | Some w' \<Rightarrow> watch_run av env fl cs (source_step av env fl c r) w')"

definition watch_of :: "'d source_role \<Rightarrow> watch" where
  "watch_of r = \<lparr>w_received = source_state_received r, w_available = client_available r,
     w_awaits = client_awaits_state r, w_wanted = stream_wanted r, w_open = src_stream r,
     w_handles = length (streams r)\<rparr>"

text \<open>The handles whose iteration has not been told to end.\<close>

definition open_handles :: "'d source_role \<Rightarrow> nat set" where
  "open_handles r = {h. h < length (streams r) \<and> \<not> ss_ended (streams r ! h)}"

definition source_ok :: "'d source_role \<Rightarrow> bool" where
  "source_ok r \<longleftrightarrow> (src_stream_active r \<longleftrightarrow> src_stream r \<noteq> None) \<and> (src_decoder r = None \<longleftrightarrow> src_stream r = None)
     \<and> open_handles r = set_option (src_stream r)"

text \<open>From \<open>r\<close> to \<open>r'\<close> the log grew by events the watcher follows.\<close>

definition tracked :: "'d source_role \<Rightarrow> 'd source_role \<Rightarrow> bool" where
  "tracked r r' \<longleftrightarrow> (\<exists>es. source_log r' = source_log r @ es \<and> watch_events es (watch_of r) = Some (watch_of r'))
     \<and> (source_ok r \<longrightarrow> source_ok r')"

named_theorems tracks

lemma tracked_refl [tracks]: "tracked r r"
  by (simp add: tracked_def)

lemma tracked_trans: "tracked r s \<Longrightarrow> tracked s t \<Longrightarrow> tracked r t"
  unfolding tracked_def by (elim conjE exE, intro conjI exI) (auto simp del: watch_event.simps)

lemma tracked_silent:
  "source_log r' = source_log r \<Longrightarrow> watch_of r' = watch_of r \<Longrightarrow> (source_ok r \<Longrightarrow> source_ok r') \<Longrightarrow> tracked r r'"
  by (simp add: tracked_def)

lemma tracked_one:
  "source_log r' = source_log r @ [e] \<Longrightarrow> watch_event e (watch_of r) = Some (watch_of r') \<Longrightarrow>
   (source_ok r \<Longrightarrow> source_ok r') \<Longrightarrow> tracked r r'"
  unfolding tracked_def by (intro conjI exI [of _ "[e]"]) simp_all

lemma source_ok_cong:
  "src_stream_active r' = src_stream_active r \<Longrightarrow> src_stream r' = src_stream r \<Longrightarrow> src_decoder r' = src_decoder r \<Longrightarrow>
   streams r' = streams r \<Longrightarrow> source_ok r' = source_ok r"
  by (simp add: source_ok_def open_handles_def)

lemma flag_tracked [tracks]: "tracked r (snd (flag_source d r))"
  by (rule tracked_one [of _ _ "Flagged d"])
    (simp_all add: flag_source_def emit_def watch_of_def source_ok_def open_handles_def)

lemma unless_raised_tracked:
  "tracked r (snd m) \<Longrightarrow> (fst m \<Longrightarrow> tracked (snd m) (snd (f (snd m)))) \<Longrightarrow> tracked r (snd (unless_raised m f))"
  by (auto simp: unless_raised_def intro: tracked_trans)

lemma flag_if_tracked [tracks]: "tracked r (snd (flag_if c d r))"
  by (simp add: flag_if_def tracks)

lemma flag_each_tracked [tracks]: "tracked r (snd (flag_each ds r))"
  by (induction ds arbitrary: r) (simp_all add: tracks unless_raised_tracked)

lemma send_queued_tracked [tracks]: "tracked r (send_queued_start r)"
proof (cases "start_queued r \<and> can_start r")
  case True
  then show ?thesis
    by (intro tracked_one [of _ _ SentStart])
      (auto simp: send_queued_start_def emit_def can_start_def watch_of_def source_ok_def open_handles_def)
qed (auto simp: send_queued_start_def tracks)

subsection \<open>Pushing, ending and opening\<close>

text \<open>Updating a list in place, also beyond its end.\<close>

lemma nth_update: "xs[h := y] ! x = (if h = x \<and> h < length xs then y else xs ! x)"
  by (cases "h < length xs") (auto simp: list_update_beyond)

lemma ended_push [simp]: "ss_ended (stream_push pcm ts s) = ss_ended s"
  by (simp add: stream_push_def case_prod_beta Let_def)

lemma open_handles_emit [simp]: "open_handles (emit e r) = open_handles r"
  by (simp add: open_handles_def emit_def)

lemma push_audio_open [simp]: "open_handles (push_audio e h pcm ts r) = open_handles r"
  by (auto simp: open_handles_def push_audio_def emit_def Let_def nth_update split: if_splits)

lemma push_audio_fields [simp]:
  "src_stream (push_audio e h pcm ts r) = src_stream r"
  "src_decoder (push_audio e h pcm ts r) = src_decoder r"
  "src_stream_active (push_audio e h pcm ts r) = src_stream_active r"
  "audio_end_us (push_audio e h pcm ts r) = audio_end_us r"
  "source_state_received (push_audio e h pcm ts r) = source_state_received r"
  "watch_of (push_audio e h pcm ts r) = watch_of r"
  by (simp_all add: push_audio_def emit_def Let_def watch_of_def)

lemma push_tracked:
  assumes "pcm \<noteq> [] \<Longrightarrow> watch_event e (watch_of r) = Some (watch_of r)"
  shows "tracked r (push_audio e h pcm ts r)"
proof (cases "pcm = []")
  case True
  then show ?thesis
    by (intro tracked_silent) (auto simp: source_ok_def, simp add: push_audio_def)
next
  case False
  then show ?thesis using assms
    by (intro tracked_one [of _ _ e]) (auto simp: source_ok_def, simp add: push_audio_def emit_def Let_def)
qed

lemma end_stream_events:
  assumes "source_ok r"
  shows "\<exists>es. source_log (source_end_stream av r) = source_log r @ es
     \<and> watch_events es (w\<lparr>w_open := src_stream r\<rparr>) = Some (w\<lparr>w_open := None\<rparr>)"
proof (cases "src_stream r")
  case None
  then show ?thesis using assms by (simp add: source_end_stream_def source_ok_def)
next
  case (Some h)
  then obtain d where d: "src_decoder r = Some d" "src_stream_active r" using assms by (auto simp: source_ok_def)
  let ?t = "case decoder_flush av d of None \<Rightarrow> [] | Some t \<Rightarrow> t"
  show ?thesis using Some d
    by (intro exI [of _ "(if ?t = [] then [] else [Tail h (last_timestamp_us r) ?t]) @ [Ended]"])
      (simp add: source_end_stream_def emit_def close_handle_def push_audio_def Let_def)
qed

lemma end_stream_fields [simp]:
  "src_stream (source_end_stream av r) = None" "src_decoder (source_end_stream av r) = None"
  "src_stream_active (source_end_stream av r) = False"
  "source_state_received (source_end_stream av r) = source_state_received r"
  "client_available (source_end_stream av r) = client_available r"
  "client_awaits_state (source_end_stream av r) = client_awaits_state r"
  "stream_wanted (source_end_stream av r) = stream_wanted r"
  "length (streams (source_end_stream av r)) = length (streams r)"
  "audio_end_us (source_end_stream av r) = audio_end_us r"
  by (simp_all add: source_end_stream_def emit_def close_handle_def push_audio_def Let_def split: option.splits)

lemma end_stream_ok [simp]:
  assumes "source_ok r" shows "source_ok (source_end_stream av r)"
proof (cases "src_stream r")
  case None
  then show ?thesis using assms
    by (simp add: source_end_stream_def source_ok_def open_handles_def)
next
  case (Some h)
  then obtain d where d: "src_decoder r = Some d" "src_stream_active r" using assms by (auto simp: source_ok_def)
  have c: "open_handles (close_handle h r') = open_handles r' - {h}" for r' :: "'a source_role"
    by (auto simp: open_handles_def close_handle_def end_source_stream_def nth_update split: if_splits)
  have "open_handles (source_end_stream av r)
      = open_handles (close_handle h (push_audio (Tail h (last_timestamp_us r)
          (case decoder_flush av d of None \<Rightarrow> [] | Some t \<Rightarrow> t)) h
          (case decoder_flush av d of None \<Rightarrow> [] | Some t \<Rightarrow> t) (last_timestamp_us r) r))"
    using Some d by (simp add: source_end_stream_def emit_def open_handles_def Let_def)
  then show ?thesis using Some assms by (simp add: c source_ok_def)
qed

lemma end_stream_tracked [tracks]:
  assumes "source_ok r" shows "tracked r (source_end_stream av r)"
proof -
  have "watch_of r = (watch_of r)\<lparr>w_open := src_stream r\<rparr>"
    "watch_of (source_end_stream av r) = (watch_of r)\<lparr>w_open := None\<rparr>"
    by (simp_all add: watch_of_def)
  then show ?thesis using end_stream_events [OF assms, of av "watch_of r"] assms by (simp add: tracked_def)
qed

text \<open>A new handle is announced while none is open.\<close>

lemma set_limits_fields [simp]:
  "src_stream (set_limits a f h r) = src_stream r" "src_decoder (set_limits a f h r) = src_decoder r"
  "src_stream_active (set_limits a f h r) = src_stream_active r" "streams (set_limits a f h r) = streams r"
  "source_log (set_limits a f h r) = source_log r" "stream_wanted (set_limits a f h r) = stream_wanted r"
  "source_state_received (set_limits a f h r) = source_state_received r"
  "client_available (set_limits a f h r) = client_available r"
  "client_awaits_state (set_limits a f h r) = client_awaits_state r"
  "audio_end_us (set_limits a f h r) = audio_end_us r"
  by (simp_all add: set_limits_def Let_def split: option.splits)

lemma open_handles_new:
  "open_handles (r\<lparr>streams := streams r @ [new_source_stream f m], src_stream := x, src_stream_active := y\<rparr>)
     = insert (length (streams r)) (open_handles r)"
  by (auto simp: open_handles_def nth_append new_source_stream_def)

lemma open_handle_tracked:
  assumes "stream_wanted r" "src_stream r = None" "source_ok r"
  shows "tracked r (open_handle fmt (set_limits a fmt header (r\<lparr>src_decoder := Some d\<rparr>)))"
proof (rule tracked_one)
  let ?s = "set_limits a fmt header (r\<lparr>src_decoder := Some d\<rparr>)"
  show "source_log (open_handle fmt ?s) = source_log r @ [Started (length (streams r)) fmt]"
    by (simp add: open_handle_def emit_def)
  show "watch_event (Started (length (streams r)) fmt) (watch_of r) = Some (watch_of (open_handle fmt ?s))"
    using assms by (simp add: open_handle_def emit_def watch_of_def)
  have "open_handles ?s = {}" using assms by (simp add: open_handles_def source_ok_def)
  then have "open_handles (open_handle fmt ?s) = {length (streams r)}"
    by (simp add: open_handle_def open_handles_new [where r = ?s, simplified])
  then show "source_ok (open_handle fmt ?s)"
    by (simp add: source_ok_def) (simp add: open_handle_def emit_def)
qed

lemma flag_each_fields [simp]:
  "src_stream (snd (flag_each ds r)) = src_stream r" "stream_wanted (snd (flag_each ds r)) = stream_wanted r"
  by (induction ds arbitrary: r) (simp_all add: unless_raised_def flag_source_def emit_def)

lemma source_ok_tracked: "tracked r r' \<Longrightarrow> source_ok r \<Longrightarrow> source_ok r'"
  by (simp add: tracked_def)

lemma stream_start_tracked:
  assumes "source_ok r" shows "tracked r (snd (source_stream_start av env a r))"
proof -
  define r1 where "r1 = (if src_stream_active r then source_end_stream av r else r)"
  have t1: "tracked r r1" using assms by (simp add: r1_def tracks)
  have none: "src_stream r1 = None" using assms by (auto simp: r1_def source_ok_def)
  obtain ds c where c: "check_client_stream_start env a = (ds, c)" by force
  define r2 where "r2 = snd (flag_each ds r1)"
  have t2: "tracked r1 r2" by (simp add: r2_def tracks)
  have ok2: "source_ok r2" using source_ok_tracked t1 t2 assms by blast
  have n2: "src_stream r2 = None" using none by (simp add: r2_def)
  have s: "tracked r2 (r2\<lparr>src_decoder := None\<rparr>)"
    by (rule tracked_silent) (use n2 in \<open>auto simp: watch_of_def source_ok_def open_handles_def\<close>)
  have "tracked r1 (snd (source_stream_start av env a r))"
    unfolding source_stream_start_def c Let_def prod.case r1_def [symmetric]
    by (rule unless_raised_tracked)
      (use t2 s open_handle_tracked [OF _ n2 ok2] in
        \<open>auto simp: tracks simp flip: r2_def split: option.splits prod.splits\<close>)
  then show ?thesis using t1 tracked_trans by blast
qed

subsection \<open>Chunks\<close>

text \<open>While a chunk is handled the stream stays the same and the state stays received.\<close>

definition same_stream :: "'d source_role \<Rightarrow> 'd source_role \<Rightarrow> bool" where
  "same_stream r r' \<longleftrightarrow> src_stream r' = src_stream r \<and> source_state_received r' = source_state_received r \<and> tracked r r'"

lemma same_stream_trans: "same_stream r s \<Longrightarrow> same_stream s t \<Longrightarrow> same_stream r t"
  using tracked_trans by (auto simp: same_stream_def)

lemma same_stream_refl [simp]: "same_stream r r"
  by (simp add: same_stream_def tracks)

lemma same_flag [simp]: "same_stream r (snd (flag_source d r))"
  unfolding same_stream_def by (simp add: tracks) (simp add: flag_source_def emit_def)

lemma same_flag_if [simp]: "same_stream r (snd (flag_if c d r))"
  by (simp add: flag_if_def)

lemma same_charge [simp]: "same_stream r (charge fl now bs pcm r)"
  unfolding same_stream_def
  by (auto simp: charge_def watch_of_def source_ok_def open_handles_def intro: tracked_silent)

lemma same_unless_raised:
  "same_stream r (snd m) \<Longrightarrow> (same_stream r (snd m) \<Longrightarrow> same_stream (snd m) (snd (f (snd m)))) \<Longrightarrow> same_stream r (snd (unless_raised m f))"
  by (auto simp: unless_raised_def intro: same_stream_trans)

lemma same_decoded:
  assumes "src_stream r = Some h" "source_state_received r"
  shows "same_stream r (emit (Decodes now bps flac bs out) (r\<lparr>src_decoder := Some d\<rparr>))"
proof -
  have "tracked r (emit (Decodes now bps flac bs out) (r\<lparr>src_decoder := Some d\<rparr>))"
    by (rule tracked_one [of _ _ "Decodes now bps flac bs out"])
      (use assms in \<open>auto simp: emit_def watch_of_def source_ok_def open_handles_def\<close>)
  then show ?thesis by (simp add: same_stream_def) (simp add: emit_def)
qed

lemma same_decode:
  assumes "src_stream r = Some h" "source_state_received r" shows "same_stream r (snd (snd (decode_chunk av now d bs r)))"
  using same_decoded [OF assms] same_stream_trans [OF same_decoded [OF assms] same_flag]
  by (auto simp: decode_chunk_def Let_def split: prod.splits option.splits)

lemma same_deliver:
  assumes "src_stream r = Some h" "source_state_received r"
  shows "same_stream r (snd (deliver_pcm h now ts pcm r))"
  unfolding deliver_pcm_def
proof (rule same_unless_raised [OF same_flag_if])
  let ?r = "snd (flag_if (max_chunk_bytes r < length pcm) CHUNK_TOO_LONG r)"
  let ?s = "?r\<lparr>last_timestamp_us := max (last_timestamp_us ?r) ts\<rparr>"
  assume "same_stream r ?r"
  then have f: "src_stream ?s = Some h" "source_state_received ?s" using assms by (simp_all add: same_stream_def)
  have "same_stream ?r ?s" unfolding same_stream_def
    by (auto simp: watch_of_def source_ok_def open_handles_def intro!: tracked_silent)
  moreover have "same_stream ?s (push_audio (Audio h now (decoded_bytes_per_s ?r) ts pcm) h pcm ts ?s)"
    unfolding same_stream_def using f by (auto simp: watch_of_def intro!: push_tracked)
  ultimately show "same_stream ?r (snd (True, push_audio (Audio h now (decoded_bytes_per_s ?r) ts pcm) h pcm ts ?s))"
    using same_stream_trans by (simp only: snd_conv) blast
qed

lemma same_decode_and_deliver:
  assumes "src_stream r = Some h" "source_state_received r"
  shows "same_stream r (snd (decode_and_deliver av fl now ts bs d h r))"
proof -
  obtain pcm m where m: "decode_chunk av now d bs r = (pcm, m)"
    by (metis prod.exhaust)
  have s: "same_stream r (snd m)" using same_decode [OF assms, of av now d bs] m by simp
  let ?c = "charge fl now bs pcm (snd m)"
  have c: "same_stream (snd m) ?c" by simp
  have f: "src_stream ?c = Some h" "source_state_received ?c"
    using s c assms by (simp_all add: same_stream_def)
  show ?thesis
    unfolding decode_and_deliver_def m prod.case Let_def
    by (rule same_unless_raised [OF s])
      (use c same_stream_trans [OF c same_deliver [OF f]] in \<open>auto split: option.splits\<close>)
qed

lemma same_chunk: "same_stream r (snd (source_binary_chunk av fl now ts bs r))"
proof (cases "src_stream r = None \<or> src_decoder r = None \<or> \<not> source_state_received r \<or> \<not> src_stream_active r")
  case True
  then show ?thesis by (auto simp: source_binary_chunk_def split: option.splits)
next
  case False
  then obtain h d where f: "src_stream r = Some h" "src_decoder r = Some d" "source_state_received r" "src_stream_active r"
    by auto
  let ?m = "flag_if (case pcm_frame_bytes r of None \<Rightarrow> False | Some n \<Rightarrow> length bs mod n \<noteq> 0) PARTIAL_FRAME r"
  have "same_stream (snd ?m) (snd (decode_and_deliver av fl now ts bs d h (snd ?m)))"
    using f same_flag_if [of r _ PARTIAL_FRAME] by (intro same_decode_and_deliver) (auto simp: same_stream_def)
  then show ?thesis
    unfolding source_binary_chunk_def f option.case prod.case
    by (simp add: f) (rule same_unless_raised, auto)
qed

subsection \<open>Every call\<close>

lemma tracked_events:
  "tracked r r' \<Longrightarrow> watch_events (events_of r r') (watch_of r) = Some (watch_of r')"
  by (auto simp: tracked_def events_of_def)

lemma ended_watched:
  assumes "source_ok r" "source_log r' = source_log (source_end_stream av r)"
    "watch_of r' = w\<lparr>w_open := None\<rparr>" "w_open w = src_stream r"
  shows "watch_events (events_of r r') w = Some (watch_of r')"
proof -
  have "w = w\<lparr>w_open := src_stream r\<rparr>" using assms(4) by simp
  then show ?thesis using end_stream_events [OF assms(1), of av w] assms(2,3) by (auto simp: events_of_def)
qed

text \<open>A call followed by its events takes the watcher from one role to the next.\<close>

lemma step_watched:
  assumes "source_ok r"
  shows "watch_events (events_of r (source_step av env fl c r)) (watch_call c (watch_of r)) = Some (watch_of (source_step av env fl c r))
    \<and> source_ok (source_step av env fl c r)"
proof -
  text \<open>It is enough to find a role that differs from \<open>r\<close> as the call alone says.\<close>
  have via: ?thesis
    if "watch_of r' = watch_call c (watch_of r)" "source_log r' = source_log r" "source_ok r'"
      "tracked r' (source_step av env fl c r)" for r'
    using that tracked_events [OF that(4)] by (simp add: events_of_def tracked_def)
  show ?thesis
  proof (cases c)
    case CallStart
    then show ?thesis using assms
      by (intro via [of "r\<lparr>start_queued := True\<rparr>"])
        (simp_all add: request_start_def tracks watch_of_def source_ok_def open_handles_def)
  next
    case CallStop
    let ?r = "r\<lparr>start_queued := False, stream_wanted := False\<rparr>"
    have "tracked ?r (request_stop r)"
      by (rule tracked_one [of _ _ SentStop])
        (simp_all add: request_stop_def emit_def watch_of_def source_ok_def open_handles_def)
    then show ?thesis using assms CallStop
      by (intro via [of ?r]) (simp_all add: watch_of_def source_ok_def open_handles_def)
  next
    case CallDisconnect
    then show ?thesis using assms end_stream_ok [OF assms, of av]
      by (intro conjI) (simp_all add: source_disconnect_def ended_watched watch_of_def source_ok_def open_handles_def)
  next
    case CallDeactivate
    then show ?thesis using assms end_stream_ok [OF assms, of av]
      by (intro conjI) (simp_all add: source_deactivate_def ended_watched watch_of_def source_ok_def open_handles_def)
  next
    case (CallClientState s)
    let ?r = "if s \<noteq> None then r\<lparr>source_state_received := True\<rparr> else r"
    have "tracked (send_queued_start ?r) (source_client_state s r)"
    proof (cases "source_client_state s r = send_queued_start ?r")
      case False
      then obtain x where "source_client_state s r = emit (SignalChanged x) ((send_queued_start ?r)\<lparr>src_signal := Some x\<rparr>)"
        by (auto simp: source_client_state_def Let_def split: option.splits if_splits)
      then show ?thesis
        by (intro tracked_one [of _ _ "SignalChanged x"]) (simp_all add: emit_def watch_of_def source_ok_def open_handles_def)
    qed (simp add: tracks)
    then have "tracked ?r (source_client_state s r)" using tracked_trans send_queued_tracked by blast
    then show ?thesis using assms CallClientState
      by (intro via [of ?r]) (simp_all add: watch_of_def source_ok_def open_handles_def)
  next
    case (CallAvailable b)
    let ?r = "if b then r\<lparr>client_available := True\<rparr> else r\<lparr>client_available := False, stream_wanted := False\<rparr>"
    have ok: "source_ok ?r" using assms by (simp add: source_ok_def open_handles_def)
    then have "tracked ?r (source_availability av b r)"
      by (cases b) (auto simp: source_availability_def intro: tracks)
    then show ?thesis using ok CallAvailable by (intro via [of ?r]) (simp_all add: watch_of_def)
  next
    case (CallStreamStart a)
    then show ?thesis using assms by (intro via [of r]) (simp_all add: stream_start_tracked)
  next
    case CallStreamEnd
    then show ?thesis using assms by (intro via [of r]) (simp_all add: tracks)
  next
    case (CallChunk now ts bs)
    then show ?thesis using assms same_chunk [of r av fl now ts bs] by (intro via [of r]) (simp_all add: same_stream_def)
  next
    case CallHoldReleased
    then show ?thesis using assms by (intro via [of r]) (simp_all add: source_hold_released_def tracks)
  next
    case (CallConsume h)
    have "ss_ended (snd (stream_anext s)) = ss_ended s" for s
      by (cases "ss_queue s") (simp_all add: stream_anext_def)
    then have "tracked r (source_step av env fl c r)" using CallConsume
      by (intro tracked_silent) (auto simp: watch_of_def source_ok_def open_handles_def nth_update)
    then show ?thesis using assms CallConsume by (intro via [of r]) simp_all
  qed (use assms in \<open>simp_all add: events_of_def watch_of_def source_ok_def open_handles_def source_initial_state_def\<close>)
qed

text \<open>What a watcher knows of a new role.\<close>

definition new_watch :: "bool \<Rightarrow> bool \<Rightarrow> watch" where
  "new_watch avail awaits = \<lparr>w_received = False, w_available = avail, w_awaits = awaits, w_wanted = False,
     w_open = None, w_handles = 0\<rparr>"

lemma run_watched:
  "source_ok r \<Longrightarrow> watch_run av env fl cs r (watch_of r) = Some (watch_of (source_run av env fl cs r))
     \<and> source_ok (source_run av env fl cs r)"
proof (induction cs arbitrary: r)
  case (Cons c cs)
  then show ?case using step_watched [OF Cons.prems, of av env fl c] by (simp add: source_run_def)
qed (simp add: source_run_def)

lemma new_role_ok [simp]: "source_ok (new_source_role avail awaits sense strict)"
  by (simp add: source_ok_def open_handles_def new_source_role_def)

lemma new_role_watch [simp]: "watch_of (new_source_role avail awaits sense strict) = new_watch avail awaits"
  by (simp add: watch_of_def new_watch_def new_source_role_def)

text \<open>C21. However a source role is driven, in whatever order the client and the server call it, a watcher that
  sees only the calls and the events accepts every event: a start is sent only when the client is available,
  off hold and has reported its state; a stream is announced to a consumer only after a start later than
  the last stop, unavailability, removal or disconnect, only while no other is open, and under a fresh
  handle; audio goes only into the open handle and is never empty. The watcher then knows what the role
  knows, and the handles still waiting for audio are exactly the open one, so no consumer waits forever.\<close>

theorem source_listens_when_asked:
  "watch_run av env fl cs (new_source_role avail awaits sense strict) (new_watch avail awaits)
     = Some (watch_of (source_run av env fl cs (new_source_role avail awaits sense strict)))
   \<and> open_handles (source_run av env fl cs (new_source_role avail awaits sense strict))
     = set_option (src_stream (source_run av env fl cs (new_source_role avail awaits sense strict)))"
  using run_watched [OF new_role_ok, of av env fl cs avail awaits sense strict] by (simp add: source_ok_def)

subsection \<open>Pace\<close>

text \<open>The work a chunk asks of the decoder, in decoded bytes: at least what came out of it; for FLAC, even if
  nothing came out, what the headers in it declare, all of them, and half its own size.\<close>

definition declared_samples :: "nat \<Rightarrow> nat \<Rightarrow> bytes \<Rightarrow> nat" where
  "declared_samples m bits data =
     (\<Sum>pos\<leftarrow>takeWhile (\<lambda>pos. pos + 5 < length data) (sync_positions 0 (map unat data)).
        flac_header_blocksize (map unat data) pos m bits)"

fun decode_work :: "(nat \<times> nat \<times> nat) option \<Rightarrow> bytes \<Rightarrow> bytes option \<Rightarrow> nat" where
  "decode_work None bs out = length (case out of None \<Rightarrow> [] | Some p \<Rightarrow> p)"
| "decode_work (Some (m, bits, frame)) bs out =
     max (length (case out of None \<Rightarrow> [] | Some p \<Rightarrow> p)) (max (declared_samples m bits bs * frame) (length bs div 2))"

text \<open>The instants at which the decoder ran, with the playing time of the work in microseconds.\<close>

fun decodes :: "source_event list \<Rightarrow> (int \<times> rat) list" where
  "decodes [] = []"
| "decodes (Decodes now bps flac bs out # es) = (now, of_nat (decode_work flac bs out * 1000000) / of_nat bps) # decodes es"
| "decodes (e # es) = decodes es"

lemma decodes_append [simp]: "decodes (es @ fs) = decodes es @ decodes fs"
  by (induction es rule: decodes.induct) simp_all

text \<open>The chunks a FLAC decoder was run on, with their limits.\<close>

fun flac_runs :: "source_event list \<Rightarrow> (nat \<times> nat \<times> nat \<times> nat \<times> bytes) list" where
  "flac_runs [] = []"
| "flac_runs (Decodes now bps (Some (m, bits, frame)) bs out # es) = (bps, m, bits, frame, bs) # flac_runs es"
| "flac_runs (e # es) = flac_runs es"

lemma flac_runs_append [simp]: "flac_runs (es @ fs) = flac_runs es @ flac_runs fs"
  by (induction es rule: flac_runs.induct) simp_all

definition playing_time :: "(int \<times> rat) list \<Rightarrow> rat" where
  "playing_time ps = (\<Sum>p\<leftarrow>ps. snd p)"

text \<open>\<open>paced\<close>: from any push on, what was pushed plays no longer than the time until \<open>e\<close>, within the clock
  tolerance and a microsecond lost to truncation per chunk.\<close>

definition paced :: "int \<Rightarrow> (int \<times> rat) list \<Rightarrow> bool" where
  "paced e ps \<longleftrightarrow> (\<forall>xs p ys. ps = xs @ p # ys \<longrightarrow>
     playing_time (p # ys) \<le> 102 / 100 * (of_int (e - fst p) + of_nat (Suc (length ys))))"

definition lead_kept :: "(int \<times> rat) list \<Rightarrow> bool" where
  "lead_kept ps \<longleftrightarrow> (\<forall>xs p ys q zs. ps = xs @ p # ys @ q # zs \<longrightarrow>
     playing_time (p # ys) \<le> 102 / 100 * (of_int (fst q + MAX_LEAD_US - fst p) + of_nat (Suc (length ys))))"

lemma pacedD: "paced e ps \<Longrightarrow> ps = xs @ p # ys \<Longrightarrow>
    playing_time (p # ys) \<le> 102 / 100 * (of_int (e - fst p) + of_nat (Suc (length ys)))"
  unfolding paced_def by blast

lemma lead_keptD: "lead_kept ps \<Longrightarrow> ps = xs @ p # ys @ q # zs \<Longrightarrow>
    playing_time (p # ys) \<le> 102 / 100 * (of_int (fst q + MAX_LEAD_US - fst p) + of_nat (Suc (length ys)))"
  unfolding lead_kept_def by blast

lemma paced_later:
  assumes "paced e ps" "e \<le> e'" shows "paced e' ps"
  unfolding paced_def
proof (intro allI impI)
  fix xs p ys assume "ps = xs @ p # ys"
  then have "playing_time (p # ys) \<le> 102 / 100 * (of_int (e - fst p) + of_nat (Suc (length ys)))"
    by (rule pacedD [OF assms(1)])
  also have "(of_int (e - fst p) :: rat) \<le> of_int (e' - fst p)" using assms(2) by simp
  finally show "playing_time (p # ys) \<le> 102 / 100 * (of_int (e' - fst p) + of_nat (Suc (length ys)))" by simp
qed

text \<open>One more push: the end moves on by the time charged for it.\<close>

lemma paced_push:
  assumes "paced e ps" "u \<le> 102 / 100 * (of_int d + 1)"
  shows "paced (max e now + d) (ps @ [(now, u)])"
  unfolding paced_def
proof (intro allI impI)
  fix xs p ys assume eq: "ps @ [(now, u)] = xs @ p # ys"
  show "playing_time (p # ys) \<le> 102 / 100 * (of_int (max e now + d - fst p) + of_nat (Suc (length ys)))"
  proof (cases ys rule: rev_cases)
    case Nil
    then have "p = (now, u)" using eq by simp
    moreover have "(of_int d :: rat) \<le> of_int (max e now + d - now)" by simp
    ultimately show ?thesis using assms(2) Nil by (simp add: playing_time_def)
  next
    case (snoc zs z)
    then have z: "z = (now, u)" "ps = xs @ p # zs" using eq by simp_all
    then have "playing_time (p # zs) \<le> 102 / 100 * (of_int (e - fst p) + of_nat (Suc (length zs)))"
      by (intro pacedD [OF assms(1)])
    moreover have "(of_int (e - fst p) :: rat) + of_int d \<le> of_int (max e now + d - fst p)"
      by (simp flip: of_int_add)
    moreover have "playing_time (p # ys) = playing_time (p # zs) + u" using z snoc by (simp add: playing_time_def)
    ultimately show ?thesis using assms(2) snoc by (simp add: algebra_simps)
  qed
qed

lemma lead_push:
  assumes "paced e ps" "lead_kept ps" "e - now \<le> MAX_LEAD_US"
  shows "lead_kept (ps @ [(now, u)])"
  unfolding lead_kept_def
proof (intro allI impI)
  fix xs p ys q zs assume eq: "ps @ [(now, u)] = xs @ p # ys @ q # zs"
  show "playing_time (p # ys) \<le> 102 / 100 * (of_int (fst q + MAX_LEAD_US - fst p) + of_nat (Suc (length ys)))"
  proof (cases zs rule: rev_cases)
    case Nil
    then have q: "q = (now, u)" "ps = xs @ p # ys" using eq by auto
    then have "paced (now + MAX_LEAD_US) ps" using paced_later [OF assms(1), of "now + MAX_LEAD_US"] assms(3) by simp
    from pacedD [OF this q(2)] show ?thesis using q(1) by simp
  next
    case (snoc ws w)
    then have "ps = xs @ p # ys @ q # ws" using eq by simp
    then show ?thesis by (rule lead_keptD [OF assms(2)])
  qed
qed

definition pace_ok :: "'d source_role \<Rightarrow> bool" where
  "pace_ok r \<longleftrightarrow> \<not> strict_server r \<and> paced (audio_end_us r) (decodes (source_log r)) \<and> lead_kept (decodes (source_log r))"

text \<open>The limits of a FLAC stream, and that every chunk its decoder was run on kept to them.\<close>

definition flac_limits_ok :: "nat \<Rightarrow> nat \<Rightarrow> nat \<Rightarrow> nat \<Rightarrow> nat \<Rightarrow> bool" where
  "flac_limits_ok bps m frame samples limit \<longleftrightarrow> 0 < frame \<and>
     (\<exists>rate. bps = rate * frame \<and> samples = rate * 3 div 20 + m \<and> limit = 2 * samples * frame)"

definition flac_run_ok :: "nat \<times> nat \<times> nat \<times> nat \<times> bytes \<Rightarrow> bool" where
  "flac_run_ok = (\<lambda>(bps, m, bits, frame, bs). 0 < frame \<and>
     (\<exists>rate. bps = rate * frame \<and> declared_samples m bits bs \<le> rate * 3 div 20 + m
        \<and> length bs \<le> 2 * (rate * 3 div 20 + m) * frame))"

definition flac_ok :: "'d source_role \<Rightarrow> bool" where
  "flac_ok r \<longleftrightarrow> pred_option (\<lambda>m. flac_limits_ok (decoded_bytes_per_s r) m (decoded_frame_bytes r) (flac_max_samples r)
       (flac_max_bytes r)) (flac_max_blocksize r)
     \<and> list_all flac_run_ok (flac_runs (source_log r))"

text \<open>The decoder was not run, and the end of the audio did not move back; the limits are as they were.\<close>

definition no_decode :: "'d source_role \<Rightarrow> 'd source_role \<Rightarrow> bool" where
  "no_decode r r' \<longleftrightarrow> decodes (source_log r') = decodes (source_log r) \<and> flac_runs (source_log r') = flac_runs (source_log r)
     \<and> audio_end_us r \<le> audio_end_us r' \<and> strict_server r' = strict_server r"

definition same_limits :: "'d source_role \<Rightarrow> 'd source_role \<Rightarrow> bool" where
  "same_limits r r' \<longleftrightarrow> flac_max_blocksize r' = flac_max_blocksize r \<and> decoded_bytes_per_s r' = decoded_bytes_per_s r
     \<and> decoded_frame_bytes r' = decoded_frame_bytes r \<and> flac_max_samples r' = flac_max_samples r
     \<and> flac_max_bytes r' = flac_max_bytes r"

lemmas no_run_defs = no_decode_def same_limits_def

lemma no_decode_ok: "no_decode r r' \<Longrightarrow> pace_ok r \<Longrightarrow> pace_ok r'"
  using paced_later by (auto simp: no_decode_def pace_ok_def)


lemma no_decode_trans: "no_decode r s \<Longrightarrow> no_decode s t \<Longrightarrow> no_decode r t"
  by (simp add: no_decode_def)

lemma no_run_refl [simp]: "no_decode r r" "same_limits r r"
  by (simp_all add: no_run_defs)

lemma no_run_flag [simp]: "no_decode r (snd (flag_source d r))" "same_limits r (snd (flag_source d r))"
  by (simp_all add: no_run_defs flag_source_def emit_def)

lemma same_limits_trans: "same_limits r s \<Longrightarrow> same_limits s t \<Longrightarrow> same_limits r t"
  by (simp add: same_limits_def)

lemma no_run_flag_each: "no_decode r (snd (flag_each ds r)) \<and> same_limits r (snd (flag_each ds r))"
proof (induction ds arbitrary: r)
  case (Cons d ds)
  let ?r = "snd (flag_source d r)"
  have "no_decode r (snd (flag_each ds ?r))" by (rule no_decode_trans [OF no_run_flag(1) conjunct1 [OF Cons.IH]])
  moreover have "same_limits r (snd (flag_each ds ?r))" by (rule same_limits_trans [OF no_run_flag(2) conjunct2 [OF Cons.IH]])
  ultimately show ?case by (simp add: unless_raised_def)
qed simp

lemma queued_view [simp]:
  "decodes (source_log (send_queued_start r)) = decodes (source_log r)"
  "flac_runs (source_log (send_queued_start r)) = flac_runs (source_log r)"
  "audio_end_us (send_queued_start r) = audio_end_us r" "strict_server (send_queued_start r) = strict_server r"
  "flac_max_blocksize (send_queued_start r) = flac_max_blocksize r"
  "decoded_bytes_per_s (send_queued_start r) = decoded_bytes_per_s r"
  "decoded_frame_bytes (send_queued_start r) = decoded_frame_bytes r"
  "flac_max_samples (send_queued_start r) = flac_max_samples r" "flac_max_bytes (send_queued_start r) = flac_max_bytes r"
  by (simp_all add: send_queued_start_def emit_def)

lemma end_view [simp]:
  "decodes (source_log (source_end_stream av r)) = decodes (source_log r)"
  "flac_runs (source_log (source_end_stream av r)) = flac_runs (source_log r)"
  "strict_server (source_end_stream av r) = strict_server r"
  "flac_max_blocksize (source_end_stream av r) = flac_max_blocksize r"
  "decoded_bytes_per_s (source_end_stream av r) = decoded_bytes_per_s r"
  "decoded_frame_bytes (source_end_stream av r) = decoded_frame_bytes r"
  "flac_max_samples (source_end_stream av r) = flac_max_samples r" "flac_max_bytes (source_end_stream av r) = flac_max_bytes r"
  by (simp_all add: source_end_stream_def push_audio_def close_handle_def emit_def Let_def split: option.split)

lemma no_run_queued [simp]: "no_decode r (send_queued_start r)" "same_limits r (send_queued_start r)"
  by (simp_all add: no_run_defs)

lemma no_run_end [simp]: "no_decode r (source_end_stream av r)" "same_limits r (source_end_stream av r)"
  by (simp_all add: no_run_defs)

lemma no_decode_unless_raised:
  "no_decode r (snd m) \<Longrightarrow> no_decode (snd m) (snd (f (snd m))) \<Longrightarrow> no_decode r (snd (unless_raised m f))"
  using no_decode_trans by (auto simp: unless_raised_def)

lemma set_limits_log [simp]:
  "strict_server (set_limits a f h r) = strict_server r"
  by (simp add: set_limits_def Let_def split: option.split)

lemma no_decode_start: "no_decode r (snd (source_stream_start av env a r))"
proof -
  define r1 where "r1 = (if src_stream_active r then source_end_stream av r else r)"
  have t1: "no_decode r r1" by (simp add: r1_def)
  obtain ds c where c: "check_client_stream_start env a = (ds, c)" by force
  have "no_decode r1 (snd (source_stream_start av env a r))"
    unfolding source_stream_start_def c Let_def prod.case r1_def [symmetric]
    by (rule no_decode_unless_raised [OF conjunct1 [OF no_run_flag_each]])
      (auto simp: no_decode_def open_handle_def emit_def split: option.splits prod.splits)
  then show ?thesis using t1 no_decode_trans by blast
qed




lemma charged_enough:
  assumes "float_rounding fl" "n \<le> k"
  shows "of_nat (n * 1000000) / of_nat bps \<le> 102 / 100 * (of_int (charged_us fl k bps) + 1 :: rat)"
    and "0 \<le> charged_us fl k bps"
proof -
  define y :: rat where "y = of_nat (k * 1000000) / of_nat bps"
  define a q where "a = fl y" and "q = fl y / fl (101 / 100)"
  have y: "0 \<le> y" by (simp add: y_def)
  have a: "y * (1 - 1 / 2 ^ 53) \<le> a" using rounding_bounds(1) [OF assms(1) y] by (simp add: a_def)
  have c: "fl (101 / 100) \<le> 101 / 100 * (1 + 1 / 2 ^ 53)"
    using rounding_bounds(2) [OF assms(1), of "101 / 100"] by simp
  have c0: "0 < fl (101 / 100)"
    by (rule less_le_trans [OF _ rounding_bounds(1) [OF assms(1)]]) simp_all
  have a0: "0 \<le> a" using a y by (intro order_trans [OF _ a]) simp
  then have q0: "0 \<le> q" using c0 by (simp add: q_def a_def)
  have "a = q * fl (101 / 100)" using c0 by (simp add: q_def a_def)
  also have "\<dots> \<le> q * (101 / 100 * (1 + 1 / 2 ^ 53))" by (rule mult_left_mono [OF c q0])
  finally have "y * (1 - 1 / 2 ^ 53) \<le> q * (101 / 100 * (1 + 1 / 2 ^ 53))" using a by linarith
  then have yq: "y \<le> q * (1011 / 1000)" using q0 by (simp add: field_simps)
  have fq: "q * (1 - 1 / 2 ^ 53) \<le> fl q" using rounding_bounds(1) [OF assms(1) q0] .
  have "charged_us fl k bps = \<lfloor>fl q\<rfloor>" by (simp add: charged_us_def q_def y_def)
  then have d: "fl q < of_int (charged_us fl k bps) + 1" by linarith
  have fq0: "0 \<le> fl q" using q0 by (intro order_trans [OF _ fq]) simp
  then show "0 \<le> charged_us fl k bps" by (simp add: \<open>charged_us fl k bps = \<lfloor>fl q\<rfloor>\<close>)
  have "q * (1011 / 1000) \<le> 102 / 100 * fl q" using fq q0 by (simp add: field_simps)
  then have "y \<le> 102 / 100 * fl q" using yq by linarith
  moreover have "102 / 100 * fl q \<le> 102 / 100 * (of_int (charged_us fl k bps) + 1)" using d by simp
  moreover have "of_nat (n * 1000000) / of_nat bps \<le> y"
    unfolding y_def using assms(2) by (intro divide_right_mono) simp_all
  ultimately show "of_nat (n * 1000000) / of_nat bps \<le> 102 / 100 * (of_int (charged_us fl k bps) + 1 :: rat)" by linarith
qed

text \<open>A chunk that is not too long declares as many samples as were counted, and its work is charged.\<close>

lemma declared_counted:
  assumes "\<not> flac_too_long bs r" "flac_max_blocksize r = Some m"
  shows "flac_samples bs r = declared_samples m (flac_bits_per_sample r) bs"
    "declared_samples m (flac_bits_per_sample r) bs \<le> flac_max_samples r" "length bs \<le> flac_max_bytes r"
proof -
  show size: "length bs \<le> flac_max_bytes r" using assms by (simp add: flac_too_long_def)
  have le: "flac_samples bs r \<le> flac_max_samples r" using assms by (simp add: flac_too_long_def)
  have "flac_samples bs r = flac_chunk_samples bs m (flac_bits_per_sample r) (flac_max_samples r)"
    using size assms(2) by (simp add: flac_samples_def)
  then show eq: "flac_samples bs r = declared_samples m (flac_bits_per_sample r) bs"
    using le count_samples_exact [where k = 0 and n = 1] unfolding flac_chunk_samples_def declared_samples_def Let_def by simp
  then show "declared_samples m (flac_bits_per_sample r) bs \<le> flac_max_samples r" using le by simp
qed

lemma work_charged:
  assumes "\<not> flac_too_long bs r"
  shows "decode_work (flac_limits r) bs out \<le> charged_bytes bs out r"
  using declared_counted(1) [OF assms]
  by (cases "flac_max_blocksize r"; cases out) (auto simp: flac_limits_def charged_bytes_def Let_def max.coboundedI1 max.coboundedI2)


lemma deliver_no_run: "no_decode r (snd (deliver_pcm h now ts p r)) \<and> same_limits r (snd (deliver_pcm h now ts p r))"
  by (auto simp: no_run_defs deliver_pcm_def unless_raised_def flag_if_def flag_source_def push_audio_def emit_def Let_def)

text \<open>One chunk: what the decoder is run on is logged, then charged.\<close>

definition decoded_from :: "int \<Rightarrow> bytes \<Rightarrow> bytes option \<Rightarrow> 'd source_role \<Rightarrow> 'd source_role \<Rightarrow> bool" where
  "decoded_from now bs out r r' \<longleftrightarrow> same_limits r r' \<and> strict_server r' = strict_server r \<and> audio_end_us r' = audio_end_us r
     \<and> charged_bytes bs out r' = charged_bytes bs out r
     \<and> decodes (source_log r') = decodes (source_log r) @ decodes [Decodes now (decoded_bytes_per_s r) (flac_limits r) bs out]
     \<and> flac_runs (source_log r') = flac_runs (source_log r) @ flac_runs [Decodes now (decoded_bytes_per_s r) (flac_limits r) bs out]"

lemma decode_chunk_logged:
  assumes "\<not> flac_too_long bs r" "decode_chunk av now d bs r = (out, m)"
  shows "decoded_from now bs out r (snd m)"
  using assms by (auto simp: decode_chunk_def decoded_from_def same_limits_def flag_source_def emit_def charged_bytes_def
      flac_samples_def Let_def simp del: append_assoc split: prod.splits option.splits)

lemma pace_charge:
  assumes fl: "float_rounding fl" and "pace_ok r" "audio_end_us r - now \<le> MAX_LEAD_US" "\<not> flac_too_long bs r"
    and r': "decoded_from now bs out r r'"
  shows "pace_ok (charge fl now bs out r')"
proof -
  let ?bps = "decoded_bytes_per_s r"
  let ?d = "charged_us fl (charged_bytes bs out r) ?bps"
  let ?u = "of_nat (decode_work (flac_limits r) bs out * 1000000) / of_nat ?bps :: rat"
  have "?u \<le> 102 / 100 * (of_int ?d + 1)" by (rule charged_enough(1) [OF fl work_charged [OF assms(4)]])
  then have "paced (max (audio_end_us r) now + ?d) (decodes (source_log r) @ [(now, ?u)])"
    "lead_kept (decodes (source_log r) @ [(now, ?u)])"
    using assms(2,3) paced_push lead_push unfolding pace_ok_def by blast+
  then show ?thesis using r' assms(2) by (simp add: pace_ok_def charge_def decoded_from_def same_limits_def)
qed

lemma emit_strict [simp]: "strict_server (emit e r) = strict_server r"
  by (simp add: emit_def)

lemma pace_decode:
  assumes fl: "float_rounding fl" and r: "pace_ok r" "audio_end_us r - now \<le> MAX_LEAD_US"
  shows "pace_ok (snd (decode_and_deliver av fl now ts bs d h r))"
proof -
  obtain out m where m: "decode_chunk av now d bs r = (out, m)"
    by (metis prod.exhaust)
  have "pace_ok (charge fl now bs out (snd m))"
  proof (cases "flac_too_long bs r")
    case True
    then have "snd m = snd (flag_source CHUNK_TOO_LONG r)" using m by (simp add: decode_chunk_def)
    moreover have "no_decode s (charge fl now bs out s)" for s :: "'a source_role"
      using charged_enough(2) [OF fl le_refl] by (simp add: no_decode_def charge_def add_increasing2)
    ultimately show ?thesis using no_decode_ok no_run_flag(1) r(1) by metis
  next
    case False
    from pace_charge [OF fl r False decode_chunk_logged [OF False m]] show ?thesis .
  qed
  moreover have "fst m"
    using m r(1) by (auto simp: decode_chunk_def flag_source_def pace_ok_def Let_def split: if_splits prod.splits option.splits)
  ultimately show ?thesis
    using m no_decode_ok [OF conjunct1 [OF deliver_no_run]]
    by (auto simp: decode_and_deliver_def unless_raised_def Let_def split: option.split)
qed


lemma chunk_cases:
  assumes "P r" "P (snd (flag_source EMPTY_CHUNK r))" "\<And>s. no_decode r s \<Longrightarrow> same_limits r s \<Longrightarrow> P s"
    and "\<And>h d s. no_decode r s \<Longrightarrow> same_limits r s \<Longrightarrow> audio_end_us s - now \<le> MAX_LEAD_US \<Longrightarrow> P (snd (decode_and_deliver av fl now ts bs d h s))"
  shows "P (snd (source_binary_chunk av fl now ts bs r))"
proof (cases "src_stream r = None \<or> src_decoder r = None \<or> \<not> source_state_received r \<or> \<not> src_stream_active r")
  case True
  then show ?thesis using assms(1) by (auto simp: source_binary_chunk_def split: option.splits)
next
  case False
  then obtain h d where f: "src_stream r = Some h" "src_decoder r = Some d" "source_state_received r" "src_stream_active r"
    by auto
  let ?m = "flag_if (case pcm_frame_bytes r of None \<Rightarrow> False | Some n \<Rightarrow> length bs mod n \<noteq> 0) PARTIAL_FRAME r"
  have m: "no_decode r (snd ?m)" "same_limits r (snd ?m)" by (simp_all add: flag_if_def)
  have e: "P (snd (flag_source EMPTY_CHUNK (snd ?m)))"
    by (rule assms(3) [OF no_decode_trans [OF m(1) no_run_flag(1)] same_limits_trans [OF m(2) no_run_flag(2)]])
  have s: "P (snd ?m)" by (rule assms(3) [OF m])
  show ?thesis
    unfolding source_binary_chunk_def f option.case prod.case
    using e s assms(4) [OF m] f by (simp add: unless_raised_def)
qed

lemma pace_chunk:
  assumes "float_rounding fl" "pace_ok r" shows "pace_ok (snd (source_binary_chunk av fl now ts bs r))"
proof (rule chunk_cases)
  show "pace_ok (snd (flag_source EMPTY_CHUNK r))" by (rule no_decode_ok [OF no_run_flag(1) assms(2)])
  show "pace_ok s" if "no_decode r s" for s by (rule no_decode_ok [OF that assms(2)])
  then show "pace_ok (snd (decode_and_deliver av fl now ts bs d h s))"
    if "no_decode r s" "audio_end_us s - now \<le> MAX_LEAD_US" for h d s
    using that pace_decode [OF assms(1)] by blast
qed (rule assms(2))


lemma no_decode_step:
  assumes "\<And>now ts bs. c \<noteq> CallChunk now ts bs" shows "no_decode r (source_step av env fl c r)"
proof (cases c)
  case (CallClientState s)
  then show ?thesis using CallClientState
    by (auto simp: source_client_state_def no_decode_def emit_def Let_def split: option.split)
next
  case (CallStreamStart a)
  then show ?thesis by (simp add: no_decode_start)
qed (use assms in \<open>simp_all add: no_decode_def request_start_def request_stop_def emit_def
      source_disconnect_def source_deactivate_def source_initial_state_def source_hold_released_def
      source_availability_def Let_def\<close>)

lemma flac_ok_cong:
  assumes "flac_runs (source_log r') = flac_runs (source_log r)" "same_limits r r'" shows "flac_ok r' = flac_ok r"
  using assms by (simp add: flac_ok_def same_limits_def)


lemma pace_step:
  assumes "float_rounding fl" "pace_ok r" shows "pace_ok (source_step av env fl c r)"
proof (cases "\<exists>now ts bs. c = CallChunk now ts bs")
  case True
  then show ?thesis using pace_chunk [OF assms] by auto
next
  case False
  then have "no_decode r (source_step av env fl c r)" by (intro no_decode_step) blast
  then show ?thesis using no_decode_ok assms(2) by blast
qed


lemma source_run_Cons: "source_run av env fl (c # cs) r = source_run av env fl cs (source_step av env fl c r)"
  by (simp add: source_run_def)

lemma source_run_Nil: "source_run av env fl [] r = r"
  by (simp add: source_run_def)

lemma pace_run: "float_rounding fl \<Longrightarrow> pace_ok r \<Longrightarrow> pace_ok (source_run av env fl cs r)"
  by (induction cs arbitrary: r) (simp_all add: source_run_Cons source_run_Nil pace_step)


text \<open>C22. A source cannot make the server decode faster than real time, whatever streams it opens and however it
  sends, on a server that tolerates deviations (a strict one rejects the client at the first). The work of
  every run of the decoder counts, also of the runs that fail or yield nothing: the bytes it puts out, and for
  FLAC at least what all the frame headers in the chunk declare and half the size of the chunk. Over any
  window of these runs in the life of a role, from the one at \<open>t0\<close> to the last before the one at \<open>t1\<close>, the
  work plays no longer than the time between and one second, plus a microsecond per run, within two per
  cent; this holds for floats, whose rounding needs no more than its usual relative error. What a decoder
  yields when it is flushed at the end of a stream is not counted.\<close>

theorem source_audio_paced:
  assumes "float_rounding fl"
    and "decodes (source_log (source_run av env fl cs (new_source_role avail awaits sense False)))
      = xs @ (t0, u) # ys @ (t1, v) # zs"
  shows "playing_time ((t0, u) # ys) \<le> 102 / 100 * (of_int (t1 - t0 + 1000000) + of_nat (Suc (length ys)))"
proof -
  have "pace_ok (new_source_role avail awaits sense False)"
    by (simp add: pace_ok_def new_source_role_def paced_def lead_kept_def)
  then have "lead_kept (xs @ (t0, u) # ys @ (t1, v) # zs)"
    using pace_run [OF assms(1), of _ av env cs] assms(2) by (metis pace_ok_def)
  from lead_keptD [OF this refl] show ?thesis by (simp add: MAX_LEAD_US_def algebra_simps)
qed


text \<open>Two chunks of 10 ms sent at once.\<close>

definition two_chunks :: "source_call list" where
  "two_chunks = [CallClientState (Some None), CallStart,
     CallStreamStart \<lparr>ann_codec = PCM, ann_channels = 1, ann_rate = 100, ann_depth = 16, ann_header = None\<rparr>,
     CallChunk 0 0 [1, 2], CallChunk 5 10000 [3, 4]]"

definition no_av :: "unit av_codec" where
  "no_av = \<lparr>av_create = (\<lambda>_ _ _ _ _. None), av_decode = (\<lambda>d _. (d, None)), av_flush = (\<lambda>_. None)\<rparr>"

definition no_codecs :: codec_env where
  "no_codecs = \<lparr>opus_available = False, flac_encoder_available = False\<rparr>"

lemma two_chunks_decoded:
  "decodes (source_log (source_run no_av no_codecs exact two_chunks (new_source_role True False False False)))
     = [] @ (0, 10000) # [] @ (5, 10000) # []"
  by (simp add: two_chunks_def source_run_def source_client_state_def send_queued_start_def can_start_def
      request_start_def emit_def new_source_role_def source_stream_start_def check_client_stream_start_def
      accepted_codecs_def decoded_bit_depth_def check_codec_header_def audio_format_of_def unless_raised_def
      SOURCE_MAX_SAMPLE_RATE_def SOURCE_MAX_CHANNELS_def resolve_av_format_def create_decoder_def set_limits_def
      open_handle_def source_binary_chunk_def flag_if_def MAX_LEAD_US_def decode_and_deliver_def decode_chunk_def
      flac_too_long_def pcm_decode_def charge_def charged_us_def charged_bytes_def deliver_pcm_def flag_source_def
      push_audio_def new_source_stream_def no_codecs_def flac_limits_def Let_def)

lemma source_audio_paced_witness:
  "float_rounding exact \<and>
   decodes (source_log (source_run no_av no_codecs exact two_chunks (new_source_role True False False False)))
     = [(0, 10000), (5, 10000)]
   \<and> playing_time ((0, 10000) # []) \<le> 102 / 100 * (of_int (5 - 0 + 1000000) + of_nat (Suc (length [])))"
  using two_chunks_decoded source_audio_paced [OF exact_rounding two_chunks_decoded] exact_rounding
  by (simp del: exact_def)

subsection \<open>The consumer's queue\<close>

datatype stream_call = PushPcm bytes int | TakeNext | EndStream

text \<open>A run over a handle, with what its consumer received.\<close>

fun stream_step :: "stream_call \<Rightarrow> source_stream \<times> (bytes \<times> int) list \<Rightarrow> source_stream \<times> (bytes \<times> int) list" where
  "stream_step (PushPcm pcm ts) (s, got) = (stream_push pcm ts s, got)"
| "stream_step TakeNext (s, got) =
     (case stream_anext s of (NextChunk pcm ts, s') \<Rightarrow> (s', got @ [(pcm, ts)]) | (_, s') \<Rightarrow> (s', got))"
| "stream_step EndStream (s, got) = (end_source_stream s, got)"

definition stream_run :: "stream_call list \<Rightarrow> source_stream \<Rightarrow> source_stream \<times> (bytes \<times> int) list" where
  "stream_run cs s = foldl (\<lambda>x c. stream_step c x) (s, []) cs"

definition pushed_chunks :: "stream_call list \<Rightarrow> (bytes \<times> int) list" where
  "pushed_chunks cs = concat (map (\<lambda>c. case c of PushPcm pcm ts \<Rightarrow> if pcm = [] then [] else [(pcm, ts)] | _ \<Rightarrow> []) cs)"

lemma pushed_chunks_simps [simp]:
  "pushed_chunks [] = []"
  "pushed_chunks (cs @ [c]) = pushed_chunks cs
     @ (case c of PushPcm pcm ts \<Rightarrow> if pcm = [] then [] else [(pcm, ts)] | _ \<Rightarrow> [])"
  by (simp_all add: pushed_chunks_def)

lemma limits_kept [simp]:
  "ss_maxlen (stream_push pcm ts s) = ss_maxlen s" "max_buffered_bytes (stream_push pcm ts s) = max_buffered_bytes s"
  "ss_maxlen (end_source_stream s) = ss_maxlen s" "max_buffered_bytes (end_source_stream s) = max_buffered_bytes s"
  "ss_queue (end_source_stream s) = ss_queue s"
  by (simp_all add: stream_push_def end_source_stream_def Let_def case_prod_beta)

lemma run_bounded:
  "case stream_run cs (new_source_stream f m) of (s, got) \<Rightarrow>
     stream_ok s \<and> ss_maxlen s = m
     \<and> max_buffered_bytes s = af_rate f * af_channels f * (af_depth f div 8) * 10
     \<and> subseq (got @ ss_queue s) (pushed_chunks cs)"
proof (induction cs rule: rev_induct)
  case Nil
  then show ?case by (simp add: stream_run_def) (simp add: new_source_stream_def DEFAULT_MAX_BUFFERED_SECONDS_def)
next
  case (snoc c cs)
  obtain s got where run: "stream_run cs (new_source_stream f m) = (s, got)" by force
  then have step: "stream_run (cs @ [c]) (new_source_stream f m) = stream_step c (s, got)" by (simp add: stream_run_def)
  have ih: "stream_ok s" "ss_maxlen s = m" "max_buffered_bytes s = af_rate f * af_channels f * (af_depth f div 8) * 10"
    "subseq (got @ ss_queue s) (pushed_chunks cs)" using snoc.IH run by simp_all
  show ?case
  proof (cases c)
    case (PushPcm pcm ts)
    show ?thesis
    proof (cases "pcm = []")
      case False
      have "suffix (ss_queue (stream_push pcm ts s)) (ss_queue s @ [(pcm, ts)])" using push_queue [OF ih(1) False] by blast
      then have "subseq (got @ ss_queue (stream_push pcm ts s)) (got @ ss_queue s @ [(pcm, ts)])"
        by (simp only: subseq_append') (rule suffix_imp_subseq)
      moreover have "subseq ((got @ ss_queue s) @ [(pcm, ts)]) (pushed_chunks cs @ [(pcm, ts)])"
        by (rule list_emb_append_mono [OF ih(4)]) simp
      ultimately have "subseq (got @ ss_queue (stream_push pcm ts s)) (pushed_chunks cs @ [(pcm, ts)])"
        using subseq_order.trans unfolding append_assoc by blast
      then show ?thesis using PushPcm False ih step by simp
    qed (use PushPcm ih step in \<open>simp add: stream_push_def\<close>)
  next
    case TakeNext
    then show ?thesis using ih step stream_ok_anext [OF ih(1)]
      by (cases "ss_queue s") (auto simp: stream_anext_def)
  next
    case EndStream
    then show ?thesis using ih step by simp
  qed
qed

text \<open>C24. Whatever is pushed into a handle and however its consumer iterates: the queue holds at most
  \<open>maxlen\<close> chunks (or the one newest) and at most ten seconds of audio (or the one newest chunk), its byte
  count is exact, and what the consumer received followed by what it will receive is what was pushed, in
  order and without repetition, less the chunks dropped.\<close>

theorem source_stream_bounded:
  "case stream_run cs (new_source_stream f maxlen) of (s, got) \<Rightarrow>
     length (ss_queue s) \<le> max 1 maxlen
     \<and> (length (ss_queue s) \<le> 1 \<or> buffered_bytes s \<le> 10 * (af_rate f * af_channels f * (af_depth f div 8)))
     \<and> buffered_bytes s = (\<Sum>x\<leftarrow>ss_queue s. int (length (fst x)))
     \<and> subseq (got @ ss_queue s) (pushed_chunks cs)"
  using run_bounded [where cs = cs and f = f and m = maxlen] by (auto simp: stream_ok_def algebra_simps split: prod.splits)

end
