(* ===== verification/Spec2Isabelle.thy ===== *)
theory Spec2Isabelle
  imports Wire Trust_File Pairing_Agreement Pairing_Client Buffer_Tracker Negotiation State_Agreement
    Controller_Group Group_Agreement Connection_Agreement Push_Handoff
    Artwork_Agreement Source_Facts
begin

text \<open>
  A verification library for aiosendspin, the Python implementation of the Sendspin protocol: a server
  streams synchronized audio, with metadata, palette and volume, to groups of clients over encrypted
  WebSockets. Paths below are under \<open>src/aiosendspin/\<close>.

  \<^bold>\<open>How the parts interact.\<close> A connection carries its messages through the encrypted framing of
  \<open>noise/wire.py\<close>. Before roles run, a client is paired: \<open>noise/pairing.py\<close> exchanges a long-term key
  over that channel, with the codes and tokens of \<open>noise/pairing_code.py\<close> and
  \<open>noise/pairing_token.py\<close>, and both sides keep it in the stores of \<open>noise/trust_store.py\<close>. The
  server then negotiates roles (\<open>server/roles/negotiation.py\<close>). A role of one client talks to the group
  role of its family, which keeps what the whole group shares and sends it to its members; the client
  applies what it receives at the instant the server asked for, on the clock its filter estimates.

  \<^bold>\<open>Theories.\<close>
  \<^item> \<open>Prelude\<close>: bytes, insertion-ordered dictionaries, list and option lemmas, operations that may fail
    after changing the state (\<open>after_ok\<close>, \<open>run_all\<close>). \<open>Floats\<close>: floating point as exact arithmetic
    followed by a rounding \<open>fl\<close>, and Python's \<open>round\<close>. \<open>Utf8\<close>, \<open>Encoding\<close>, \<open>Json\<close>: the codecs and
    readers of the standard library that the program relies on.
  \<^item> \<open>Wire\<close> (\<open>noise/wire.py\<close>, \<open>noise/constants.py\<close>): both framings, reassembly, \<open>receive\<close>, \<open>send_str\<close>
    and \<open>send_bytes\<close>. What is sent arrives, reassembly is bounded, errors end in a closed state.
  \<^item> \<open>Pairing_Token\<close> (\<open>noise/keys.py\<close>, \<open>pairing_code.py\<close>, \<open>pairing_token.py\<close>): key ids, derived codes,
    tokens and their round trips.
  \<^item> \<open>Trust_Store\<close>, \<open>Trust_File\<close> (\<open>noise/trust_store.py\<close>): both stores in memory, with a save that may
    fail at every write, and their files. Invariant, eviction, protection of open connections,
    expiry of staged keys, save/load round trips.
  \<^item> \<open>Pairing\<close> (\<open>noise/pairing.py\<close>): the six exchanges as programs over a store, an inbox and an outbox.
    \<open>Pairing_Logic\<close> holds the rules for such programs, \<open>Pairing_Facts\<close> the server's guarantees,
    \<open>Pairing_Client\<close> the client's and termination, \<open>Pairing_Agreement\<close> both sides run against each
    other.
  \<^item> \<open>Negotiation\<close> (\<open>server/roles/negotiation.py\<close>, \<open>registry.py\<close>).
  \<^item> \<open>Buffer_Tracker\<close> (\<open>server/audio.py\<close>): the accounting of what a client has buffered.
  \<^item> \<open>Scheduled_State\<close>, \<open>Scheduled_Members\<close> (\<open>server/roles/scheduled_state.py\<close>, \<open>base.py\<close>): state a
    group role will take on later, its timers and what each member has been sent. \<open>Metadata_Group\<close> and
    \<open>Color_Group\<close> are the two roles built on it.
  \<^item> \<open>Time_Sync\<close> (\<open>client/time_sync.py\<close>): the Kalman filter and the clock conversions.
    \<open>Client_State\<close> (\<open>client/connection.py\<close>): what the client does with \<open>server/state\<close>.
    \<open>State_Agreement\<close> composes group role, filter and client.
  \<^item> \<open>Player_Formats\<close>, \<open>Player_Role\<close> (\<open>server/roles/player/v1.py\<close>, \<open>capabilities.py\<close>,
    \<open>server/audio_transformers.py\<close>): the choice of a format and the life cycle of a player's stream.
    \<open>Player_Facts\<close> proves the protocol of the messages it sends, driven by the push stream.
  \<^item> \<open>Group_Volume\<close> (\<open>server/roles/player/group.py\<close>) and \<open>Controller_Group\<close>
    (\<open>server/roles/controller/group.py\<close>): volume and mute of a group and their publication.
  \<^item> \<open>Client_Groups\<close> (\<open>server/group.py\<close>, the grouping part of \<open>server/client.py\<close>, the registry of
    \<open>server/server.py\<close>): client and group objects in two stores, membership, group updates, leaving and
    switching. \<open>Client_Groups_Facts\<close> holds the invariant and its preservation, \<open>Group_Agreement\<close> the
    interface of a grouping, the runs of the server and their properties.
  \<^item> \<open>Player_Frame\<close> (\<open>models/player.py\<close>, \<open>models/__init__.py\<close>): the headers of binary payloads.
    \<open>Send_Queue\<close> and \<open>Connection_Writer\<close> (\<open>server/connection.py\<close>): the outgoing queues of a connection,
    every call that queues or drops, and the writer, one turn up to its await at a time.
    \<open>Connection_Facts\<close> holds the invariant of the queues, \<open>Connection_Order\<close> what a turn may transmit,
    \<open>Connection_Agreement\<close> the properties over all interleavings of calls and turns.
  \<^item> \<open>Push_Timeline\<close>, \<open>Push_Stream\<close>, \<open>Push_Commit\<close> (\<open>server/push_stream.py\<close>): the stream's state and the play
    times it assigns; delivery, caching, pruning, joins, leaves, format changes, \<open>stop\<close> and \<open>clear\<close>;
    \<open>commit_audio\<close> as a coroutine, one step from await to await, any number in flight. \<open>Push_Facts\<close>
    shows that its clocks do not drift and that audio is committed ahead of time, \<open>Push_Lifecycle\<close> that
    nothing outlives a \<open>stop\<close> or \<open>clear\<close>, \<open>Push_Cache\<close> that cached audio has no overlap, \<open>Push_Handoff\<close>
    that a late joiner has no gap. \<open>Player_Role\<close> models what a player does with the hooks it is called by.

  \<^item> \<open>Artwork_Transfer\<close> (\<open>models/artwork.py\<close>, the artwork part of \<open>client/connection.py\<close>): announce, parts and
    cancel on the wire, and the images a client has pending and shows. \<open>Artwork_Role\<close>
    (\<open>server/roles/artwork/v1.py\<close>): the stream of a client's channels and the transfer task. \<open>Artwork_Link\<close>
    puts role, connection and client together, \<open>Artwork_Agreement\<close> proves that artwork arrives whole.
  \<^item> \<open>Source_Stream\<close> (\<open>server/roles/source/stream.py\<close>, the decoding side of \<open>audio/codecs.py\<close>): the queue of decoded
    audio and the scan that bounds what a FLAC chunk decodes to. \<open>Source_Role\<close> (\<open>server/roles/source/v1.py\<close>):
    starting, checking, decoding and ending a captured stream. \<open>Source_Facts\<close>: the watcher the role refines,
    the pace of its audio, the bounds of the queue.

  \<^bold>\<open>Conventions.\<close> A Python exception is an error value of a sum, \<open>None\<close> of an option, or the flag of an
  operation that also returns the state it left behind. Coroutines that suspend only in a lock nobody
  else holds are atomic operations; a timer is a pending value and a step that fires it. An operation
  reads the clock once, unless its clock argument is a function: the writer's successive readings.
  Fuel occurs only in the loops of \<open>Pairing\<close>:
  \<open>exchanges_end\<close> shows that it never runs out. Every other recursion has a measure.

  \<^bold>\<open>Parameters.\<close> Code that is not under \<open>src/\<close> is an argument of the definitions that use it: SHA-256,
  HKDF, CPace and the AEAD (record \<open>crypt\<close>), the Noise transport of an open session, random draws, ISO
  dates, the encoders of PyAV (only their codec header). Properties name what they rely on; their
  witnesses instantiate it.

  \<^bold>\<open>Not modelled.\<close> The network side of \<open>server/server.py\<close>, \<open>server/connection.py\<close>,
  \<open>client/connection.py\<close> and \<open>client/listener.py\<close> (sockets, mDNS, task cancellation, timeouts), of the
  push stream historical audio, the catch-up task, \<open>flush_audio\<close> and the resampling, image and spectrum analysis (Pillow, numpy), the codecs themselves,
  the mashumaro serialisation of messages, the command-line scripts. Of the visualizer roles
  the state machines, and of \<open>client/source.py\<close> the capture, are not modelled either.
\<close>

end
